(* ===== verification/Prelude.thy ===== *)
theory Prelude
  imports Main "HOL-Library.Word"
begin

text \<open>
  Shared vocabulary of the development: the machine types of
  \<^verbatim>\<open>include/jasos/types.h\<close>, the status codes of \<^verbatim>\<open>include/jasos/status.h\<close>, the
  constants and page macros of \<^verbatim>\<open>include/jasos/config.h\<close>, the outcome type that
  makes a kernel panic a value, and the lemmas on words, lists and sums that
  the component theories use.
\<close>

unbundle bit_operations_syntax

named_theorems config_simps "values of the configuration constants"
named_theorems inv_defs "definitions of the component invariants"

section \<open>Machine types\<close>

type_synonym u8 = "8 word"
type_synonym u16 = "16 word"
type_synonym u32 = "32 word"
type_synonym u64 = "64 word"
type_synonym i32 = "32 word"

type_synonym status_t = u32
type_synonym handle_t = u64
type_synonym phys_t = u64
type_synonym virt_t = u64
type_synonym access_t = u32

section \<open>Outcomes\<close>

text \<open>
  A kernel routine returns, stops the machine in \<^verbatim>\<open>panic\<close>, or loops forever.
\<close>

datatype 'a outcome = Ret 'a | Panic string | Hang

fun bind_outcome :: "'a outcome \<Rightarrow> ('a \<Rightarrow> 'b outcome) \<Rightarrow> 'b outcome" where
  "bind_outcome (Ret a) f = f a"
| "bind_outcome (Panic msg) f = Panic msg"
| "bind_outcome Hang f = Hang"

lemma bind_outcome_Ret_iff [simp]:
  "bind_outcome r f = Ret b \<longleftrightarrow> (\<exists>a. r = Ret a \<and> f a = Ret b)"
  by (cases r) auto

section \<open>Status codes\<close>

abbreviation (input) STATUS_SUCCESS :: status_t where "STATUS_SUCCESS \<equiv> 0"
abbreviation (input) STATUS_ABANDONED :: status_t where "STATUS_ABANDONED \<equiv> 0x80"
abbreviation (input) STATUS_TIMEOUT :: status_t where "STATUS_TIMEOUT \<equiv> 0x102"
abbreviation (input) STATUS_PENDING :: status_t where "STATUS_PENDING \<equiv> 0x103"
abbreviation (input) STATUS_UNSUCCESSFUL :: status_t where "STATUS_UNSUCCESSFUL \<equiv> 0xC0000001"
abbreviation (input) STATUS_NOT_IMPLEMENTED :: status_t where "STATUS_NOT_IMPLEMENTED \<equiv> 0xC0000002"
abbreviation (input) STATUS_INVALID_INFO_CLASS :: status_t where "STATUS_INVALID_INFO_CLASS \<equiv> 0xC0000003"
abbreviation (input) STATUS_INFO_LENGTH_MISMATCH :: status_t where "STATUS_INFO_LENGTH_MISMATCH \<equiv> 0xC0000004"
abbreviation (input) STATUS_ACCESS_VIOLATION :: status_t where "STATUS_ACCESS_VIOLATION \<equiv> 0xC0000005"
abbreviation (input) STATUS_IN_PAGE_ERROR :: status_t where "STATUS_IN_PAGE_ERROR \<equiv> 0xC0000006"
abbreviation (input) STATUS_INVALID_HANDLE :: status_t where "STATUS_INVALID_HANDLE \<equiv> 0xC0000008"
abbreviation (input) STATUS_INVALID_PARAMETER :: status_t where "STATUS_INVALID_PARAMETER \<equiv> 0xC000000D"
abbreviation (input) STATUS_NO_SUCH_FILE :: status_t where "STATUS_NO_SUCH_FILE \<equiv> 0xC000000F"
abbreviation (input) STATUS_END_OF_FILE :: status_t where "STATUS_END_OF_FILE \<equiv> 0xC0000011"
abbreviation (input) STATUS_NO_MEMORY :: status_t where "STATUS_NO_MEMORY \<equiv> 0xC0000017"
abbreviation (input) STATUS_CONFLICTING_ADDRESSES :: status_t where "STATUS_CONFLICTING_ADDRESSES \<equiv> 0xC0000018"
abbreviation (input) STATUS_INVALID_SYSTEM_SERVICE :: status_t where "STATUS_INVALID_SYSTEM_SERVICE \<equiv> 0xC000001C"
abbreviation (input) STATUS_ILLEGAL_INSTRUCTION :: status_t where "STATUS_ILLEGAL_INSTRUCTION \<equiv> 0xC000001D"
abbreviation (input) STATUS_ACCESS_DENIED :: status_t where "STATUS_ACCESS_DENIED \<equiv> 0xC0000022"
abbreviation (input) STATUS_BUFFER_TOO_SMALL :: status_t where "STATUS_BUFFER_TOO_SMALL \<equiv> 0xC0000023"
abbreviation (input) STATUS_OBJECT_TYPE_MISMATCH :: status_t where "STATUS_OBJECT_TYPE_MISMATCH \<equiv> 0xC0000024"
abbreviation (input) STATUS_OBJECT_NAME_INVALID :: status_t where "STATUS_OBJECT_NAME_INVALID \<equiv> 0xC0000033"
abbreviation (input) STATUS_OBJECT_NAME_NOT_FOUND :: status_t where "STATUS_OBJECT_NAME_NOT_FOUND \<equiv> 0xC0000034"
abbreviation (input) STATUS_OBJECT_NAME_COLLISION :: status_t where "STATUS_OBJECT_NAME_COLLISION \<equiv> 0xC0000035"
abbreviation (input) STATUS_OBJECT_PATH_NOT_FOUND :: status_t where "STATUS_OBJECT_PATH_NOT_FOUND \<equiv> 0xC000003A"
abbreviation (input) STATUS_INVALID_PAGE_PROTECTION :: status_t where "STATUS_INVALID_PAGE_PROTECTION \<equiv> 0xC0000045"
abbreviation (input) STATUS_MUTANT_NOT_OWNED :: status_t where "STATUS_MUTANT_NOT_OWNED \<equiv> 0xC0000046"
abbreviation (input) STATUS_SEMAPHORE_LIMIT :: status_t where "STATUS_SEMAPHORE_LIMIT \<equiv> 0xC0000047"
abbreviation (input) STATUS_THREAD_IS_TERMINATING :: status_t where "STATUS_THREAD_IS_TERMINATING \<equiv> 0xC000004B"
abbreviation (input) STATUS_INVALID_IMAGE_FORMAT :: status_t where "STATUS_INVALID_IMAGE_FORMAT \<equiv> 0xC000007B"
abbreviation (input) STATUS_NO_TOKEN :: status_t where "STATUS_NO_TOKEN \<equiv> 0xC000007C"
abbreviation (input) STATUS_DISK_FULL :: status_t where "STATUS_DISK_FULL \<equiv> 0xC000007F"
abbreviation (input) STATUS_INSUFFICIENT_RESOURCES :: status_t where "STATUS_INSUFFICIENT_RESOURCES \<equiv> 0xC000009A"
abbreviation (input) STATUS_FILE_IS_A_DIRECTORY :: status_t where "STATUS_FILE_IS_A_DIRECTORY \<equiv> 0xC00000BA"
abbreviation (input) STATUS_NOT_SUPPORTED :: status_t where "STATUS_NOT_SUPPORTED \<equiv> 0xC00000BB"
abbreviation (input) STATUS_NOT_A_DIRECTORY :: status_t where "STATUS_NOT_A_DIRECTORY \<equiv> 0xC0000103"
abbreviation (input) STATUS_NAME_TOO_LONG :: status_t where "STATUS_NAME_TOO_LONG \<equiv> 0xC0000106"
abbreviation (input) STATUS_PROCESS_IS_TERMINATING :: status_t where "STATUS_PROCESS_IS_TERMINATING \<equiv> 0xC000010A"
abbreviation (input) STATUS_CANCELLED :: status_t where "STATUS_CANCELLED \<equiv> 0xC0000120"
abbreviation (input) STATUS_CANNOT_DELETE :: status_t where "STATUS_CANNOT_DELETE \<equiv> 0xC0000121"
abbreviation (input) STATUS_FILE_DELETED :: status_t where "STATUS_FILE_DELETED \<equiv> 0xC0000123"

definition NT_SUCCESS :: "status_t \<Rightarrow> bool" where
  "NT_SUCCESS s \<longleftrightarrow> 0 \<le> sint s"

definition NT_ERROR :: "status_t \<Rightarrow> bool" where
  "NT_ERROR s \<longleftrightarrow> drop_bit 30 s = 3"

section \<open>Configuration constants\<close>

abbreviation (input) PAGE_SHIFT :: nat where "PAGE_SHIFT \<equiv> 12"
abbreviation (input) PAGE_SIZE :: u64 where "PAGE_SIZE \<equiv> 4096"
abbreviation (input) PAGE_MASK :: u64 where "PAGE_MASK \<equiv> 0xFFF"

definition PAGE_ALIGN_DOWN :: "u64 \<Rightarrow> u64" where
  "PAGE_ALIGN_DOWN x = x AND NOT PAGE_MASK"

definition PAGE_ALIGN_UP :: "u64 \<Rightarrow> u64" where
  "PAGE_ALIGN_UP x = (x + PAGE_MASK) AND NOT PAGE_MASK"

abbreviation (input) HHDM_BASE :: u64 where "HHDM_BASE \<equiv> 0xFFFF800000000000"
abbreviation (input) KERNEL_VMA :: u64 where "KERNEL_VMA \<equiv> 0xFFFFFFFF80000000"
abbreviation (input) USER_CANONICAL_TOP :: u64 where "USER_CANONICAL_TOP \<equiv> 0x00007FFFFFFFFFFF"
abbreviation (input) USER_IMAGE_BASE :: u64 where "USER_IMAGE_BASE \<equiv> 0x400000"
abbreviation (input) USER_HEAP_BASE :: u64 where "USER_HEAP_BASE \<equiv> 0x1000000"
abbreviation (input) USER_STACK_TOP :: u64 where "USER_STACK_TOP \<equiv> 0x00007FFFFFF00000"

section \<open>Words\<close>

lemma unat_pow2_word: "k < 64 \<Longrightarrow> unat (2 ^ k :: u64) = 2 ^ k"
proof -
  assume "k < 64"
  then have "(2::nat) ^ k < 2 ^ 64" by (intro power_strict_increasing) simp_all
  then show ?thesis using unat_of_nat[of "2 ^ k", where 'a = 64] by simp
qed

lemma unat_u32:
  fixes x :: u32
  shows "unat x < 2 ^ 32" "unat (ucast x :: u64) = unat x"
proof -
  show l: "unat x < 2 ^ 32" using unsigned_less[of x] by simp
  have "take_bit 64 (unat x) = unat x" by (rule take_bit_nat_eq_self) (use l in simp)
  then show "unat (ucast x :: u64) = unat x" by (simp add: unsigned_ucast_eq)
qed

lemma unat_add_mod_page: "unat (a + b :: u64) mod 4096 = (unat a + unat b) mod 4096"
  by (simp add: unat_word_ariths mod_mod_cancel)

lemma unat_PAGE_ALIGN_DOWN:
  "unat (PAGE_ALIGN_DOWN x) = unat x div 4096 * 4096"
proof -
  have "x AND NOT PAGE_MASK = x AND NOT (mask 12)"
    by (simp add: mask_numeral)
  also have "\<dots> = push_bit 12 (drop_bit 12 x)"
    by (simp add: bit_eq_iff bit_simps) (auto simp: bit_simps)
  finally have e: "PAGE_ALIGN_DOWN x = push_bit 12 (drop_bit 12 x)"
    by (simp add: PAGE_ALIGN_DOWN_def)
  have "unat x div 4096 * 4096 \<le> unat x" by simp
  moreover have "unat x < 2 ^ 64" using unsigned_less[of x] by simp
  ultimately show ?thesis
    unfolding e push_bit_eq_mult
    by (simp add: unat_mult_lem[THEN iffD1] unat_drop_bit_eq drop_bit_eq_div unat_word_ariths)
qed

end
