(* ===== verification/Pmm_Inv.thy ===== *)
theory Pmm_Inv
  imports Pmm
begin

text \<open>
  The invariant of the buddy allocator and its algebra.  A frame interval is a
  \<open>region\<close> when it is tiled by well-formed blocks; regions split and join at
  every frame that is not a tail, which lets the proofs of splitting and
  coalescing look only at the frames an operation rewrites.  The free lists are
  abstracted to lists of frame numbers along the link fields.
\<close>

section \<open>Effect of the primitive updates on single frames\<close>

definition dims :: "pmm \<Rightarrow> bool" where
  "dims s \<longleftrightarrow> length (g_frames s) = g_nframes s \<and> g_nframes s \<le> NIL
     \<and> length (g_free_head s) = PMM_ORDERS"

lemma upd_frame_nth:
  "i < length (g_frames s) \<Longrightarrow>
   g_frames (upd_frame s i f) ! j = (if j = i then f (g_frames s ! i) else g_frames s ! j)"
  by (simp add: upd_frame_def)

lemma upd_frame_fields [simp]:
  "length (g_frames (upd_frame s i f)) = length (g_frames s)"
  "g_free_head (upd_frame s i f) = g_free_head s"
  "g_phys_base (upd_frame s i f) = g_phys_base s"
  "g_free_pages (upd_frame s i f) = g_free_pages s"
  "g_total_avail (upd_frame s i f) = g_total_avail s"
  "g_ram (upd_frame s i f) = g_ram s"
  "g_hhdm_live (upd_frame s i f) = g_hhdm_live s"
  "g_frames_phys (upd_frame s i f) = g_frames_phys s"
  "pmm.more (upd_frame s i f) = pmm.more s"
  by (simp_all add: upd_frame_def)

lemma mark_tails_fields [simp]:
  "length (g_frames (mark_tails s p k n i)) = length (g_frames s)"
  "g_free_head (mark_tails s p k n i) = g_free_head s"
  "g_phys_base (mark_tails s p k n i) = g_phys_base s"
  "g_free_pages (mark_tails s p k n i) = g_free_pages s"
  "g_total_avail (mark_tails s p k n i) = g_total_avail s"
  "g_ram (mark_tails s p k n i) = g_ram s"
  "g_hhdm_live (mark_tails s p k n i) = g_hhdm_live s"
  "g_frames_phys (mark_tails s p k n i) = g_frames_phys s"
  "pmm.more (mark_tails s p k n i) = pmm.more s"
  by (induction s p k n i rule: mark_tails.induct; subst mark_tails.simps; simp)+

lemma mark_block_fields [simp]:
  "length (g_frames (mark_block s p k x)) = length (g_frames s)"
  "g_free_head (mark_block s p k x) = g_free_head s"
  "g_phys_base (mark_block s p k x) = g_phys_base s"
  "g_free_pages (mark_block s p k x) = g_free_pages s"
  "g_total_avail (mark_block s p k x) = g_total_avail s"
  "g_ram (mark_block s p k x) = g_ram s"
  "g_hhdm_live (mark_block s p k x) = g_hhdm_live s"
  "g_frames_phys (mark_block s p k x) = g_frames_phys s"
  "pmm.more (mark_block s p k x) = pmm.more s"
  by (simp_all add: mark_block_def)

lemma list_push_fields [simp]:
  "length (g_frames (list_push s k p)) = length (g_frames s)"
  "g_phys_base (list_push s k p) = g_phys_base s"
  "g_free_pages (list_push s k p) = g_free_pages s"
  "g_total_avail (list_push s k p) = g_total_avail s"
  "g_ram (list_push s k p) = g_ram s"
  "g_hhdm_live (list_push s k p) = g_hhdm_live s"
  "g_frames_phys (list_push s k p) = g_frames_phys s"
  "pmm.more (list_push s k p) = pmm.more s"
  "g_free_head (list_push s k p) = (g_free_head s)[k := p]"
  by (simp_all add: list_push_def Let_def)

lemma mark_tails_nth:
  "length (g_frames s) = g_nframes s \<Longrightarrow>
   g_frames (mark_tails s p k n i) ! j =
     (if p + i \<le> j \<and> j < p + n \<and> j < g_nframes s
      then (g_frames s ! j)\<lparr>fr_order := k, fr_state := FRAME_TAIL\<rparr> else g_frames s ! j)"
proof (induction s p k n i rule: mark_tails.induct)
  case (1 s p k n i)
  show ?case
  proof (cases "i < n \<and> p + i < g_nframes s")
    case True
    then show ?thesis
      using "1.IH"[OF True] "1.prems"
      by (subst mark_tails.simps) (auto simp: upd_frame_nth)
  next
    case False
    then show ?thesis by (subst mark_tails.simps) auto
  qed
qed

lemma mark_block_nth:
  assumes "dims s" "p < g_nframes s"
  shows "g_frames (mark_block s p k x) ! j =
     (if j = p then (g_frames s ! p)\<lparr>fr_order := k, fr_state := x\<rparr>
      else if p < j \<and> j < p + 2 ^ k \<and> j < g_nframes s
      then (g_frames s ! j)\<lparr>fr_order := k, fr_state := FRAME_TAIL\<rparr> else g_frames s ! j)"
  using assms by (auto simp: mark_block_def mark_tails_nth upd_frame_nth dims_def)

lemma list_push_nth:
  "p < length (g_frames s) \<Longrightarrow> g_frames (list_push s k p) ! j =
     (if j = p then (g_frames s ! p)\<lparr>fr_next := g_free_head s ! k\<rparr> else g_frames s ! j)"
  by (simp add: list_push_def Let_def upd_frame_nth)

lemma dims_mark_block [simp]: "dims (mark_block s p k x) = dims s"
  by (simp add: dims_def)

lemma dims_list_push [simp]: "dims (list_push s k p) = dims s"
  by (simp add: dims_def)

section \<open>Regions\<close>

abbreviation (input) fstate :: "pmm \<Rightarrow> nat \<Rightarrow> frame_state" where
  "fstate s i \<equiv> fr_state (g_frames s ! i)"

abbreviation (input) forder :: "pmm \<Rightarrow> nat \<Rightarrow> nat" where
  "forder s i \<equiv> fr_order (g_frames s ! i)"

abbreviation (input) fnext :: "pmm \<Rightarrow> nat \<Rightarrow> nat" where
  "fnext s i \<equiv> fr_next (g_frames s ! i)"

fun is_head :: "frame_state \<Rightarrow> bool" where
  "is_head FRAME_FREE = True"
| "is_head FRAME_KERNEL = True"
| "is_head FRAME_USER = True"
| "is_head FRAME_TAIL = False"
| "is_head FRAME_RESERVED = False"

definition block_ok :: "pmm \<Rightarrow> nat \<Rightarrow> bool" where
  "block_ok s h \<longleftrightarrow> forder s h \<le> PMM_MAX_ORDER \<and> h mod 2 ^ forder s h = 0
     \<and> (\<forall>t. h < t \<and> t < h + 2 ^ forder s h \<longrightarrow> fstate s t = FRAME_TAIL \<and> forder s t = forder s h)"

definition region :: "pmm \<Rightarrow> nat \<Rightarrow> nat \<Rightarrow> bool" where
  "region s a b \<longleftrightarrow>
     (\<forall>h. a \<le> h \<and> h < b \<and> is_head (fstate s h) \<longrightarrow> block_ok s h \<and> h + 2 ^ forder s h \<le> b)
     \<and> (\<forall>t. a \<le> t \<and> t < b \<and> fstate s t = FRAME_TAIL \<longrightarrow>
          (\<exists>h. a \<le> h \<and> h < t \<and> is_head (fstate s h) \<and> t < h + 2 ^ forder s h))"

lemma region_transfer:
  assumes eq: "\<And>i. a \<le> i \<Longrightarrow> i < b \<Longrightarrow> fstate s i = fstate s' i \<and> forder s i = forder s' i"
    and r: "region s a b"
  shows "region s' a b"
  unfolding region_def
proof (intro conjI allI impI)
  fix h assume h: "a \<le> h \<and> h < b \<and> is_head (fstate s' h)"
  then have o: "forder s h = forder s' h" and "is_head (fstate s h)" using eq by auto
  then have bo: "block_ok s h" "h + 2 ^ forder s h \<le> b" using r h unfolding region_def by auto
  show "h + 2 ^ forder s' h \<le> b" using bo o by simp
  have "fstate s' t = FRAME_TAIL \<and> forder s' t = forder s' h" if "h < t" "t < h + 2 ^ forder s' h" for t
  proof -
    have "a \<le> t" "t < b" using that bo o h by auto
    moreover have "fstate s t = FRAME_TAIL \<and> forder s t = forder s h"
      using bo(1) that o unfolding block_ok_def by auto
    ultimately show ?thesis using eq[of t] o by simp
  qed
  then show "block_ok s' h" using bo o unfolding block_ok_def by auto
next
  fix t assume t: "a \<le> t \<and> t < b \<and> fstate s' t = FRAME_TAIL"
  then have "fstate s t = FRAME_TAIL" using eq by auto
  then obtain h where h: "a \<le> h" "h < t" "is_head (fstate s h)" "t < h + 2 ^ forder s h"
    using r t unfolding region_def by blast
  then have "fstate s h = fstate s' h \<and> forder s h = forder s' h" using eq[of h] t by simp
  then have "a \<le> h \<and> h < t \<and> is_head (fstate s' h) \<and> t < h + 2 ^ forder s' h" using h by simp
  then show "\<exists>h\<ge>a. h < t \<and> is_head (fstate s' h) \<and> t < h + 2 ^ forder s' h" by blast
qed

lemma region_cong:
  assumes "\<And>i. a \<le> i \<Longrightarrow> i < b \<Longrightarrow> fstate s i = fstate s' i \<and> forder s i = forder s' i"
  shows "region s a b = region s' a b"
  using region_transfer[of a b s s'] region_transfer[of a b s' s] assms by metis

lemma region_empty [simp]: "region s a a"
  unfolding region_def by auto

lemma region_join:
  assumes r: "region s a b" "region s b c" and le: "a \<le> b" "b \<le> c"
  shows "region s a c"
  unfolding region_def
proof (intro conjI allI impI)
  fix h assume h: "a \<le> h \<and> h < c \<and> is_head (fstate s h)"
  have "block_ok s h \<and> h + 2 ^ forder s h \<le> c"
  proof (cases "h < b")
    case True
    then have "block_ok s h \<and> h + 2 ^ forder s h \<le> b" using r(1) h unfolding region_def by blast
    then show ?thesis using le by simp
  next
    case False
    then show ?thesis using r(2) h unfolding region_def by simp
  qed
  then show "block_ok s h" "h + 2 ^ forder s h \<le> c" by auto
next
  fix t assume t: "a \<le> t \<and> t < c \<and> fstate s t = FRAME_TAIL"
  show "\<exists>h\<ge>a. h < t \<and> is_head (fstate s h) \<and> t < h + 2 ^ forder s h"
  proof (cases "t < b")
    case True
    then show ?thesis using r(1) t unfolding region_def by blast
  next
    case False
    then have "\<exists>h\<ge>b. h < t \<and> is_head (fstate s h) \<and> t < h + 2 ^ forder s h"
      using r(2) t unfolding region_def by (meson not_less)
    then show ?thesis using le by (meson le_trans)
  qed
qed

lemma region_split:
  assumes r: "region s a c" and b: "a \<le> b" "b \<le> c" "b = c \<or> fstate s b \<noteq> FRAME_TAIL"
  shows "region s a b \<and> region s b c"
proof -
  have fits: "h + 2 ^ forder s h \<le> b" if h: "a \<le> h" "h < b" "is_head (fstate s h)" for h
  proof (rule ccontr)
    assume n: "\<not> h + 2 ^ forder s h \<le> b"
    have "a \<le> h \<and> h < c \<and> is_head (fstate s h)" using h b by simp
    then have bo: "block_ok s h" "h + 2 ^ forder s h \<le> c" using r unfolding region_def by blast+
    have "h < b \<and> b < h + 2 ^ forder s h" using n h by simp
    then have "fstate s b = FRAME_TAIL" using bo(1) unfolding block_ok_def by blast
    then show False using b(3) bo(2) n by simp
  qed
  have "region s a b"
    unfolding region_def
  proof (intro conjI allI impI)
    fix h assume h: "a \<le> h \<and> h < b \<and> is_head (fstate s h)"
    then have "a \<le> h \<and> h < c \<and> is_head (fstate s h)" using b by simp
    then show "block_ok s h" using r unfolding region_def by blast
    show "h + 2 ^ forder s h \<le> b" using fits h by simp
  next
    fix t assume "a \<le> t \<and> t < b \<and> fstate s t = FRAME_TAIL"
    then have "a \<le> t \<and> t < c \<and> fstate s t = FRAME_TAIL" using b by simp
    then show "\<exists>h\<ge>a. h < t \<and> is_head (fstate s h) \<and> t < h + 2 ^ forder s h"
      using r unfolding region_def by blast
  qed
  moreover have "region s b c"
    unfolding region_def
  proof (intro conjI allI impI)
    fix h assume h: "b \<le> h \<and> h < c \<and> is_head (fstate s h)"
    then have "a \<le> h \<and> h < c \<and> is_head (fstate s h)" using b by simp
    then show "block_ok s h" "h + 2 ^ forder s h \<le> c" using r unfolding region_def by blast+
  next
    fix t assume t: "b \<le> t \<and> t < c \<and> fstate s t = FRAME_TAIL"
    then have "a \<le> t \<and> t < c \<and> fstate s t = FRAME_TAIL" using b by simp
    then obtain h where h: "a \<le> h" "h < t" "is_head (fstate s h)" "t < h + 2 ^ forder s h"
      using r unfolding region_def by blast
    have "b \<le> h" using fits[of h] h t by linarith
    then show "\<exists>h\<ge>b. h < t \<and> is_head (fstate s h) \<and> t < h + 2 ^ forder s h" using h by blast
  qed
  ultimately show ?thesis ..
qed

lemma region_after_block:
  assumes r: "region s a c" and h: "a \<le> h" "h < c" "is_head (fstate s h)"
  defines "e \<equiv> h + 2 ^ forder s h"
  shows "e \<le> c" "e = c \<or> fstate s e \<noteq> FRAME_TAIL"
proof -
  have bo: "block_ok s h" "e \<le> c" using r h unfolding region_def e_def by auto
  show "e \<le> c" by fact
  show "e = c \<or> fstate s e \<noteq> FRAME_TAIL"
  proof (rule ccontr)
    assume "\<not> ?thesis"
    then have "e < c" "fstate s e = FRAME_TAIL" using bo by auto
    moreover have "a \<le> e" using h by (simp add: e_def)
    ultimately obtain h' where h': "a \<le> h'" "h' < e" "is_head (fstate s h')" "e < h' + 2 ^ forder s h'"
      using r unfolding region_def by blast
    have bo': "block_ok s h'" using r h' \<open>e < c\<close> unfolding region_def by auto
    consider "h' < h" | "h' = h" | "h < h'" by linarith
    then show False
    proof cases
      case 1
      have "h < h' + 2 ^ forder s h'" using h' by (simp add: e_def)
      then have "fstate s h = FRAME_TAIL" using bo' 1 unfolding block_ok_def by blast
      then show False using h by simp
    next
      case 2 then show False using h' by (simp add: e_def)
    next
      case 3
      then have "fstate s h' = FRAME_TAIL" using bo h' unfolding block_ok_def e_def by blast
      then show False using h' by simp
    qed
  qed
qed

lemma region_cut_block:
  assumes "region s a c" "a \<le> h" "h < c" "is_head (fstate s h)"
  shows "region s a h" "region s h (h + 2 ^ forder s h)" "region s (h + 2 ^ forder s h) c"
proof -
  have nt: "fstate s h \<noteq> FRAME_TAIL" using assms(4) by auto
  have 1: "region s a h \<and> region s h c"
    by (rule region_split) (use assms nt in auto)
  have 2: "region s h (h + 2 ^ forder s h) \<and> region s (h + 2 ^ forder s h) c"
    by (rule region_split) (use 1 region_after_block[of s h c h] assms in auto)
  show "region s a h" "region s h (h + 2 ^ forder s h)" "region s (h + 2 ^ forder s h) c"
    using 1 2 by auto
qed

lemma region_mark_block:
  assumes "dims s" "p + 2 ^ k \<le> g_nframes s" "p mod 2 ^ k = 0" "k \<le> PMM_MAX_ORDER" "is_head x"
  shows "region (mark_block s p k x) p (p + 2 ^ k)"
proof -
  let ?s = "mark_block s p k x"
  have "p < p + 2 ^ k" by simp
  then have p: "p < g_nframes s" using assms(2) by linarith
  have hd: "fstate ?s p = x" "forder ?s p = k" by (simp_all add: mark_block_nth[OF assms(1) p])
  have tl: "fstate ?s t = FRAME_TAIL \<and> forder ?s t = k" if "p < t" "t < p + 2 ^ k" for t
    using that assms(2) by (simp add: mark_block_nth[OF assms(1) p])
  have only: "h = p" if "p \<le> h" "h < p + 2 ^ k" "is_head (fstate ?s h)" for h
    using tl[of h] that by (cases "h = p") auto
  show ?thesis
    unfolding region_def
  proof (intro conjI allI impI)
    fix h assume "p \<le> h \<and> h < p + 2 ^ k \<and> is_head (fstate ?s h)"
    then have "h = p" using only by blast
    then show "block_ok ?s h" "h + 2 ^ forder ?s h \<le> p + 2 ^ k"
      using hd tl assms unfolding block_ok_def by auto
  next
    fix t assume t: "p \<le> t \<and> t < p + 2 ^ k \<and> fstate ?s t = FRAME_TAIL"
    then have "p < t" using hd assms(5) by (cases "t = p") auto
    then show "\<exists>h\<ge>p. h < t \<and> is_head (fstate ?s h) \<and> t < h + 2 ^ forder ?s h"
      using t hd assms(5) by (intro exI[of _ p]) simp
  qed
qed

lemma region_frame:
  assumes "dims s" "p < g_nframes s" "b \<le> p \<or> p + 2 ^ k \<le> a"
  shows "region (mark_block s p k x) a b = region s a b"
proof (rule region_cong)
  fix i assume "a \<le> i" "i < b"
  moreover have "p < p + 2 ^ k" by simp
  ultimately have "i \<noteq> p" "\<not> (p < i \<and> i < p + 2 ^ k \<and> i < g_nframes s)"
    using assms(3) by linarith+
  then show "fstate (mark_block s p k x) i = fstate s i \<and> forder (mark_block s p k x) i = forder s i"
    by (auto simp: mark_block_nth[OF assms(1,2)])
qed

lemma region_list_push [simp]:
  "p < length (g_frames s) \<Longrightarrow> region (list_push s k p) a b = region s a b"
  by (rule region_cong) (auto simp: list_push_nth)


section \<open>Free lists\<close>

fun linked :: "(nat \<Rightarrow> nat) \<Rightarrow> nat \<Rightarrow> nat list \<Rightarrow> bool" where
  "linked nx h [] \<longleftrightarrow> h = NIL"
| "linked nx h (x # xs) \<longleftrightarrow> h = x \<and> x \<noteq> NIL \<and> linked nx (nx x) xs"

lemma linked_transfer: "linked nx h L \<Longrightarrow> (\<And>i. i \<in> set L \<Longrightarrow> nx' i = nx i) \<Longrightarrow> linked nx' h L"
  by (induction L arbitrary: h) auto

definition free_heads :: "pmm \<Rightarrow> nat \<Rightarrow> nat \<Rightarrow> nat \<Rightarrow> nat set" where
  "free_heads s a b k = {h. a \<le> h \<and> h < b \<and> fstate s h = FRAME_FREE \<and> forder s h = k}"

text \<open>The free lists hold exactly the heads of free blocks below \<open>m\<close> that are not detached.\<close>

definition lists_ok :: "pmm \<Rightarrow> nat \<Rightarrow> nat set \<Rightarrow> bool" where
  "lists_ok s m D \<longleftrightarrow> (\<forall>k\<le>PMM_MAX_ORDER. \<exists>L. linked (\<lambda>i. fnext s i) (g_free_head s ! k) L
     \<and> distinct L \<and> set L = free_heads s 0 m k - D)"

lemma lists_okE:
  assumes "lists_ok s m D" "k \<le> PMM_MAX_ORDER"
  obtains L where "linked (\<lambda>i. fnext s i) (g_free_head s ! k) L" "distinct L"
    "set L = free_heads s 0 m k - D"
  using assms unfolding lists_ok_def by blast

lemma lists_ok_transfer:
  assumes "lists_ok s m D" "g_free_head s' = g_free_head s" "\<And>i. fnext s' i = fnext s i"
    and "\<And>k. k \<le> PMM_MAX_ORDER \<Longrightarrow> free_heads s' 0 m' k - D' = free_heads s 0 m k - D"
  shows "lists_ok s' m' D'"
  using assms unfolding lists_ok_def by simp

lemma lists_ok_push:
  assumes l: "lists_ok s m D" and d: "dims s" and p: "p \<in> D" "p \<in> free_heads s 0 m k"
    and k: "k \<le> PMM_MAX_ORDER" and m: "m \<le> g_nframes s"
  shows "lists_ok (list_push s k p) m (D - {p})"
proof -
  let ?s = "list_push s k p"
  have pn: "p < length (g_frames s)" "p \<noteq> NIL" using d p m by (auto simp: dims_def free_heads_def)
  have fh: "free_heads ?s 0 m j = free_heads s 0 m j" for j
    using pn by (auto simp: free_heads_def list_push_nth)
  have nx: "fnext ?s i = (if i = p then g_free_head s ! k else fnext s i)" for i
    using pn by (simp add: list_push_nth)
  have "\<exists>L. linked (\<lambda>i. fnext ?s i) (g_free_head ?s ! j) L \<and> distinct L
      \<and> set L = free_heads ?s 0 m j - (D - {p})" if j: "j \<le> PMM_MAX_ORDER" for j
  proof -
    obtain L where L: "linked (\<lambda>i. fnext s i) (g_free_head s ! j) L" "distinct L"
      "set L = free_heads s 0 m j - D" using l j by (rule lists_okE)
    have np: "p \<notin> set L" using L(3) p by simp
    have L': "linked (\<lambda>i. fnext ?s i) (g_free_head s ! j) L"
      by (rule linked_transfer[OF L(1)]) (use np nx in auto)
    show ?thesis
    proof (cases "j = k")
      case True
      have "k < length (g_free_head s)" using d k by (simp add: dims_def)
      then have "linked (\<lambda>i. fnext ?s i) (g_free_head ?s ! j) (p # L)"
        using L' True pn nx by simp
      moreover have "set (p # L) = free_heads ?s 0 m j - (D - {p})"
        using L(3) p True fh by auto
      ultimately show ?thesis using L(2) np by (intro exI[of _ "p # L"]) simp
    next
      case False
      then have "p \<notin> free_heads s 0 m j" using p by (simp add: free_heads_def)
      then have "set L = free_heads ?s 0 m j - (D - {p})" using L(3) fh by auto
      then show ?thesis using L' L(2) False by (intro exI[of _ L]) simp
    qed
  qed
  then show ?thesis unfolding lists_ok_def by blast
qed

text \<open>What taking a block off its list leaves unchanged.\<close>

definition relinked :: "pmm \<Rightarrow> pmm \<Rightarrow> bool" where
  "relinked s s' \<longleftrightarrow> length (g_frames s') = length (g_frames s) \<and> g_nframes s' = g_nframes s
     \<and> g_phys_base s' = g_phys_base s \<and> g_free_pages s' = g_free_pages s
     \<and> g_total_avail s' = g_total_avail s \<and> g_ram s' = g_ram s \<and> g_hhdm_live s' = g_hhdm_live s
     \<and> length (g_free_head s') = length (g_free_head s)
     \<and> (\<forall>i. fstate s' i = fstate s i \<and> forder s' i = forder s i)"

lemma relinked_dims: "relinked s s' \<Longrightarrow> dims s' = dims s"
  by (simp add: relinked_def dims_def)

lemma relinked_region: "relinked s s' \<Longrightarrow> region s' a b = region s a b"
  by (rule region_cong) (simp add: relinked_def)

lemma relinked_free_heads: "relinked s s' \<Longrightarrow> free_heads s' a b k = free_heads s a b k"
  by (simp add: relinked_def free_heads_def)

lemma list_pop_ok:
  assumes l: "lists_ok s m D" and d: "dims s" and k: "k \<le> PMM_MAX_ORDER" and m: "m \<le> g_nframes s"
    and h: "g_free_head s ! k \<noteq> NIL"
  obtains s' p where "list_pop s k = (s', p)" "p \<in> free_heads s 0 m k - D"
    "lists_ok s' m (insert p D)" "relinked s s'"
proof -
  let ?p = "g_free_head s ! k"
  let ?s = "upd_frame (s\<lparr>g_free_head := (g_free_head s)[k := fnext s ?p]\<rparr>) ?p (fr_next_update (\<lambda>_. NIL))"
  obtain L where L: "linked (\<lambda>i. fnext s i) ?p L" "distinct L" "set L = free_heads s 0 m k - D"
    using l k by (rule lists_okE)
  then obtain xs where xs: "L = ?p # xs" using h by (cases L) auto
  have p: "?p \<in> free_heads s 0 m k - D" using L(3) xs by (metis list.set_intros(1))
  then have pn: "?p < length (g_frames s)" using d m by (auto simp: free_heads_def dims_def)
  have kl: "k < length (g_free_head s)" using d k by (simp add: dims_def)
  have fr: "g_frames ?s ! i = (if i = ?p then (g_frames s ! ?p)\<lparr>fr_next := NIL\<rparr> else g_frames s ! i)" for i
    using pn by (simp add: upd_frame_nth)
  have rl: "relinked s ?s" using fr by (simp add: relinked_def)
  have "\<exists>L'. linked (\<lambda>i. fnext ?s i) (g_free_head ?s ! j) L' \<and> distinct L'
      \<and> set L' = free_heads ?s 0 m j - insert ?p D" if j: "j \<le> PMM_MAX_ORDER" for j
  proof (cases "j = k")
    case True
    have "linked (\<lambda>i. fnext s i) (fnext s ?p) xs" using L(1) xs by (metis linked.simps(2))
    moreover have np: "?p \<notin> set xs" using L(2) xs by (metis distinct.simps(2))
    ultimately have "linked (\<lambda>i. fnext ?s i) (fnext s ?p) xs"
      using fr by (auto elim: linked_transfer)
    moreover have "set xs = free_heads ?s 0 m j - insert ?p D"
      using L(3) xs np True relinked_free_heads[OF rl]
      by (metis Diff_insert Diff_insert_absorb list.simps(15))
    moreover have "distinct xs" using L(2) xs by (metis distinct.simps(2))
    ultimately show ?thesis using True kl by (intro exI[of _ xs]) simp
  next
    case False
    obtain L' where L': "linked (\<lambda>i. fnext s i) (g_free_head s ! j) L'" "distinct L'"
      "set L' = free_heads s 0 m j - D" using l j by (rule lists_okE)
    have np: "?p \<notin> free_heads s 0 m j" using p False by (simp add: free_heads_def)
    then have "linked (\<lambda>i. fnext ?s i) (g_free_head s ! j) L'"
      using fr L'(3) by (intro linked_transfer[OF L'(1)]) auto
    moreover have "set L' = free_heads ?s 0 m j - insert ?p D"
      using L'(3) np relinked_free_heads[OF rl] by auto
    ultimately show ?thesis using L'(2) False by (intro exI[of _ L']) simp
  qed
  then have "lists_ok ?s m (insert ?p D)" unfolding lists_ok_def by blast
  moreover have "list_pop s k = (?s, ?p)" using h by (simp add: list_pop_def Let_def)
  ultimately show thesis using p rl that by blast
qed

text \<open>Removing a block from the middle of its list terminates and unlinks just that block.\<close>

lemma list_remove_loop_ok:
  assumes "linked (\<lambda>i. fnext s i) (get_link s w) L" "distinct L" "p \<in> set L"
    and "set L \<subseteq> {..<length (g_frames s)}"
    and "\<And>q. w = NextLink q \<Longrightarrow> q \<notin> set L \<and> q < length (g_frames s)"
    and "\<And>k. w = HeadLink k \<Longrightarrow> k < length (g_free_head s)"
  shows "\<exists>s'. list_remove_loop s w p = Some s' \<and> relinked s s'
     \<and> linked (\<lambda>i. fnext s' i) (get_link s' w) (remove1 p L)
     \<and> (\<forall>i. i \<notin> set L \<and> w \<noteq> NextLink i \<longrightarrow> fnext s' i = fnext s i)
     \<and> (\<forall>j. w \<noteq> HeadLink j \<longrightarrow> g_free_head s' ! j = g_free_head s ! j)"
  using assms
proof (induction L arbitrary: w)
  case Nil
  then show ?case by simp
next
  case (Cons x xs)
  have gx: "get_link s w = x" "x \<noteq> NIL" "linked (\<lambda>i. fnext s i) (fnext s x) xs"
    and xs: "x \<notin> set xs" "distinct xs" and xl: "x < length (g_frames s)"
    using Cons.prems by auto
  show ?case
  proof (cases "x = p")
    case True
    let ?s1 = "set_link s w (fnext s p)"
    let ?s = "upd_frame ?s1 p (fr_next_update (\<lambda>_. NIL))"
    have r: "list_remove_loop s w p = Some ?s"
      using gx True by (subst list_remove_loop.simps) (simp add: Let_def)
    have s1: "length (g_frames ?s1) = length (g_frames s)" "get_link ?s w = fnext s p"
      using Cons.prems True by (cases w; auto simp: upd_frame_nth)+
    have fr: "relinked s ?s" "fnext ?s i = (if i = p then NIL else if w = NextLink i then fnext s p else fnext s i)" for i
      using Cons.prems True xl
      by (cases w; auto simp: upd_frame_nth relinked_def)+
    have "linked (\<lambda>i. fnext ?s i) (fnext s p) xs"
      using gx(3) xs Cons.prems(5) True unfolding fr(2)
      by (auto elim!: linked_transfer)
    moreover have "\<forall>j. w \<noteq> HeadLink j \<longrightarrow> g_free_head ?s ! j = g_free_head s ! j"
      by (cases w) auto
    ultimately show ?thesis using r s1 fr True by auto
  next
    case False
    have "\<exists>s'. list_remove_loop s (NextLink x) p = Some s' \<and> relinked s s'
       \<and> linked (\<lambda>i. fnext s' i) (get_link s' (NextLink x)) (remove1 p xs)
       \<and> (\<forall>i. i \<notin> set xs \<and> NextLink x \<noteq> NextLink i \<longrightarrow> fnext s' i = fnext s i)
       \<and> (\<forall>j. NextLink x \<noteq> HeadLink j \<longrightarrow> g_free_head s' ! j = g_free_head s ! j)"
      by (rule Cons.IH) (use Cons.prems False gx xs xl in auto)
    then obtain s' where s': "list_remove_loop s (NextLink x) p = Some s'" "relinked s s'"
      "linked (\<lambda>i. fnext s' i) (fnext s' x) (remove1 p xs)"
      "\<And>i. i \<notin> set xs \<Longrightarrow> i \<noteq> x \<Longrightarrow> fnext s' i = fnext s i"
      "\<And>j. g_free_head s' ! j = g_free_head s ! j" by auto
    have "list_remove_loop s w p = Some s'"
      using gx False s'(1) by (subst list_remove_loop.simps) simp
    moreover have "get_link s' w = x"
      using gx(1) s'(4,5) Cons.prems(5) by (cases w) auto
    ultimately show ?thesis using s' gx False by (intro exI[of _ s']) auto
  qed
qed

lemma list_remove_ok:
  assumes l: "lists_ok s m D" and d: "dims s" and k: "k \<le> PMM_MAX_ORDER" and m: "m \<le> g_nframes s"
    and p: "p \<in> free_heads s 0 m k - D"
  obtains s' where "pmm_list_remove s k p = Some s'" "lists_ok s' m (insert p D)" "relinked s s'"
proof -
  obtain L where L: "linked (\<lambda>i. fnext s i) (g_free_head s ! k) L" "distinct L"
    "set L = free_heads s 0 m k - D" using l k by (rule lists_okE)
  have len: "length (g_frames s) = g_nframes s" "k < length (g_free_head s)"
    using d k by (auto simp: dims_def)
  have sub: "set L \<subseteq> {..<length (g_frames s)}"
    unfolding L(3) len(1) using m by (auto simp: free_heads_def)
  have "\<exists>s'. list_remove_loop s (HeadLink k) p = Some s' \<and> relinked s s'
     \<and> linked (\<lambda>i. fnext s' i) (get_link s' (HeadLink k)) (remove1 p L)
     \<and> (\<forall>i. i \<notin> set L \<and> HeadLink k \<noteq> NextLink i \<longrightarrow> fnext s' i = fnext s i)
     \<and> (\<forall>j. HeadLink k \<noteq> HeadLink j \<longrightarrow> g_free_head s' ! j = g_free_head s ! j)"
    by (rule list_remove_loop_ok) (use L p sub len in auto)
  then obtain s' where s': "pmm_list_remove s k p = Some s'" "relinked s s'"
    "linked (\<lambda>i. fnext s' i) (g_free_head s' ! k) (remove1 p L)"
    "\<And>i. i \<notin> set L \<Longrightarrow> fnext s' i = fnext s i"
    "\<And>j. j \<noteq> k \<Longrightarrow> g_free_head s' ! j = g_free_head s ! j"
    unfolding pmm_list_remove_def by auto
  have "\<exists>L'. linked (\<lambda>i. fnext s' i) (g_free_head s' ! j) L' \<and> distinct L'
      \<and> set L' = free_heads s' 0 m j - insert p D" if j: "j \<le> PMM_MAX_ORDER" for j
  proof (cases "j = k")
    case True
    have "set (remove1 p L) = free_heads s' 0 m j - insert p D"
      using L True relinked_free_heads[OF s'(2)] by (auto simp: set_remove1_eq)
    then show ?thesis using True s'(3) L(2) by (intro exI[of _ "remove1 p L"]) simp
  next
    case False
    obtain L' where L': "linked (\<lambda>i. fnext s i) (g_free_head s ! j) L'" "distinct L'"
      "set L' = free_heads s 0 m j - D" using l j by (rule lists_okE)
    have "set L' \<inter> set L = {}" using L(3) L'(3) False by (auto simp: free_heads_def)
    then have "linked (\<lambda>i. fnext s' i) (g_free_head s' ! j) L'"
      using s'(4,5) False by (auto intro: linked_transfer[OF L'(1)])
    moreover have "set L' = free_heads s' 0 m j - insert p D"
    proof -
      have "p \<notin> free_heads s 0 m j" using p False by (simp add: free_heads_def)
      then show ?thesis using L'(3) relinked_free_heads[OF s'(2)] by auto
    qed
    ultimately show ?thesis using L'(2) by blast
  qed
  then have "lists_ok s' m (insert p D)" unfolding lists_ok_def by blast
  then show thesis using s' that by blast
qed

section \<open>Abstract view: free frames and allocated blocks\<close>

definition free_frames :: "pmm \<Rightarrow> nat \<Rightarrow> nat \<Rightarrow> nat set" where
  "free_frames s a b =
     {i. \<exists>h. a \<le> h \<and> h < b \<and> fstate s h = FRAME_FREE \<and> h \<le> i \<and> i < h + 2 ^ forder s h}"

definition alloc_blocks :: "pmm \<Rightarrow> nat \<Rightarrow> nat \<Rightarrow> (nat \<times> nat \<times> frame_state) set" where
  "alloc_blocks s a b =
     {(h, k, x). a \<le> h \<and> h < b \<and> forder s h = k \<and> fstate s h = x \<and> x \<in> {FRAME_KERNEL, FRAME_USER}}"

lemma free_frames_join:
  assumes "a \<le> b" "b \<le> c" shows "free_frames s a c = free_frames s a b \<union> free_frames s b c"
proof -
  have "a \<le> h \<and> h < c \<longleftrightarrow> (a \<le> h \<and> h < b) \<or> (b \<le> h \<and> h < c)" for h using assms by auto
  then show ?thesis unfolding free_frames_def by blast
qed

lemma alloc_blocks_join:
  assumes "a \<le> b" "b \<le> c" shows "alloc_blocks s a c = alloc_blocks s a b \<union> alloc_blocks s b c"
  using assms unfolding alloc_blocks_def by auto

lemma free_heads_join:
  assumes "a \<le> b" "b \<le> c" shows "free_heads s a c k = free_heads s a b k \<union> free_heads s b c k"
  using assms unfolding free_heads_def by auto

lemma views_cong:
  assumes "\<And>i. a \<le> i \<Longrightarrow> i < b \<Longrightarrow> fstate s i = fstate s' i \<and> forder s i = forder s' i"
  shows "free_frames s a b = free_frames s' a b" "alloc_blocks s a b = alloc_blocks s' a b"
    "free_heads s a b k = free_heads s' a b k"
proof -
  show "free_frames s a b = free_frames s' a b"
  proof (rule set_eqI)
    fix i
    have "(a \<le> h \<and> h < b \<and> fstate s h = FRAME_FREE \<and> h \<le> i \<and> i < h + 2 ^ forder s h)
      \<longleftrightarrow> (a \<le> h \<and> h < b \<and> fstate s' h = FRAME_FREE \<and> h \<le> i \<and> i < h + 2 ^ forder s' h)" for h
      using assms[of h] by auto
    then show "i \<in> free_frames s a b \<longleftrightarrow> i \<in> free_frames s' a b"
      unfolding free_frames_def by simp
  qed
  show "alloc_blocks s a b = alloc_blocks s' a b" "free_heads s a b k = free_heads s' a b k"
    using assms unfolding alloc_blocks_def free_heads_def by auto
qed

text \<open>A region that consists of one block.\<close>

definition one_block :: "pmm \<Rightarrow> nat \<Rightarrow> nat \<Rightarrow> frame_state \<Rightarrow> bool" where
  "one_block s p k x \<longleftrightarrow> fstate s p = x \<and> forder s p = k
     \<and> (\<forall>t. p < t \<and> t < p + 2 ^ k \<longrightarrow> fstate s t = FRAME_TAIL \<and> forder s t = k)"

lemma one_block_mark:
  assumes "dims s" "p + 2 ^ k \<le> g_nframes s"
  shows "one_block (mark_block s p k x) p k x"
proof -
  have "p < p + 2 ^ k" by simp
  then have p: "p < g_nframes s" using assms(2) by linarith
  show ?thesis using assms(2) unfolding one_block_def by (auto simp: mark_block_nth[OF assms(1) p])
qed

lemma one_block_views:
  assumes o: "one_block s p k x" and h: "is_head x"
  shows "free_frames s p (p + 2 ^ k) = (if x = FRAME_FREE then {p..<p + 2 ^ k} else {})"
    "alloc_blocks s p (p + 2 ^ k) = (if x = FRAME_FREE then {} else {(p, k, x)})"
    "free_heads s p (p + 2 ^ k) j = (if x = FRAME_FREE \<and> j = k then {p} else {})"
proof -
  have only: "q = p" if "p \<le> q" "q < p + 2 ^ k" "fstate s q \<noteq> FRAME_TAIL" for q
    using o that unfolding one_block_def by (metis le_neq_implies_less)
  have p: "fstate s p = x" "forder s p = k" "p < p + 2 ^ k" using o by (auto simp: one_block_def)
  show "free_frames s p (p + 2 ^ k) = (if x = FRAME_FREE then {p..<p + 2 ^ k} else {})"
  proof (rule set_eqI)
    fix i
    have "(p \<le> q \<and> q < p + 2 ^ k \<and> fstate s q = FRAME_FREE \<and> q \<le> i \<and> i < q + 2 ^ forder s q)
        \<longleftrightarrow> q = p \<and> x = FRAME_FREE \<and> p \<le> i \<and> i < p + 2 ^ k" for q
      using only[of q] p by auto
    then show "i \<in> free_frames s p (p + 2 ^ k) \<longleftrightarrow> i \<in> (if x = FRAME_FREE then {p..<p + 2 ^ k} else {})"
      unfolding free_frames_def by auto
  qed
  show "alloc_blocks s p (p + 2 ^ k) = (if x = FRAME_FREE then {} else {(p, k, x)})"
  proof -
    have "(p \<le> q \<and> q < p + 2 ^ k \<and> forder s q = j \<and> fstate s q = y \<and> y \<in> {FRAME_KERNEL, FRAME_USER})
        \<longleftrightarrow> x \<noteq> FRAME_FREE \<and> q = p \<and> j = k \<and> y = x" for q j y
      using only[of q] p h by (cases x) auto
    then show ?thesis unfolding alloc_blocks_def by auto
  qed
  show "free_heads s p (p + 2 ^ k) j = (if x = FRAME_FREE \<and> j = k then {p} else {})"
  proof -
    have "(p \<le> q \<and> q < p + 2 ^ k \<and> fstate s q = FRAME_FREE \<and> forder s q = j)
        \<longleftrightarrow> x = FRAME_FREE \<and> j = k \<and> q = p" for q
      using only[of q] p by auto
    then show ?thesis unfolding free_heads_def by auto
  qed
qed

lemma region_one_block:
  assumes "region s a b" "a \<le> p" "p < b" "is_head (fstate s p)"
  shows "one_block s p (forder s p) (fstate s p)" "p mod 2 ^ forder s p = 0" "p + 2 ^ forder s p \<le> b"
    "forder s p \<le> PMM_MAX_ORDER"
  using assms unfolding region_def block_ok_def one_block_def by blast+

lemma free_frames_bound: "region s a b \<Longrightarrow> free_frames s a b \<subseteq> {a..<b}"
proof
  fix i assume r: "region s a b" and "i \<in> free_frames s a b"
  then obtain h where h: "a \<le> h" "h < b" "fstate s h = FRAME_FREE" "h \<le> i" "i < h + 2 ^ forder s h"
    unfolding free_frames_def by blast
  then have "h + 2 ^ forder s h \<le> b" using region_one_block(3)[OF r h(1,2)] by simp
  then show "i \<in> {a..<b}" using h by simp
qed

lemma finite_free_frames [simp]: "region s a b \<Longrightarrow> finite (free_frames s a b)"
  by (rule finite_subset[OF free_frames_bound]) simp_all

end
