(* ===== verification/Pmm_Correct.thy ===== *)
theory Pmm_Correct
  imports Pmm_Inv
begin

text \<open>
  Correctness of the buddy allocator: every operation of \<^verbatim>\<open>kernel/mm/pmm.c\<close> keeps
  the invariant and refines an abstract allocator whose state is the set of free
  frames and the set of allocated blocks.
\<close>

section \<open>Rewriting one interval of frames\<close>

definition same_outside :: "pmm \<Rightarrow> pmm \<Rightarrow> nat \<Rightarrow> nat \<Rightarrow> bool" where
  "same_outside s s' p e \<longleftrightarrow>
     (\<forall>i. i < p \<or> e \<le> i \<longrightarrow> fstate s' i = fstate s i \<and> forder s' i = forder s i)"

lemma recarve:
  assumes o: "same_outside s s' p e" and le: "p \<le> e" "e \<le> m"
  shows "region s 0 p \<Longrightarrow> region s e m \<Longrightarrow> region s' p e \<Longrightarrow> region s' 0 m"
    "free_frames s' 0 m = free_frames s 0 p \<union> free_frames s' p e \<union> free_frames s e m"
    "alloc_blocks s' 0 m = alloc_blocks s 0 p \<union> alloc_blocks s' p e \<union> alloc_blocks s e m"
    "free_heads s' 0 m k = free_heads s 0 p k \<union> free_heads s' p e k \<union> free_heads s e m k"
proof -
  have lo: "\<And>i. 0 \<le> i \<Longrightarrow> i < p \<Longrightarrow> fstate s i = fstate s' i \<and> forder s i = forder s' i"
    and hi: "\<And>i. e \<le> i \<Longrightarrow> i < m \<Longrightarrow> fstate s i = fstate s' i \<and> forder s i = forder s' i"
    using o by (auto simp: same_outside_def)
  show "region s' 0 m" if "region s 0 p" "region s e m" "region s' p e"
  proof -
    have "region s' 0 p" "region s' e m"
      using that region_cong[of 0 p s s', OF lo] region_cong[of e m s s', OF hi] by auto
    then show ?thesis using that(3) le by (meson region_join le_trans zero_le)
  qed
  show "free_frames s' 0 m = free_frames s 0 p \<union> free_frames s' p e \<union> free_frames s e m"
    using free_frames_join[of 0 p m s'] free_frames_join[of p e m s'] le
      views_cong(1)[of 0 p s s', OF lo] views_cong(1)[of e m s s', OF hi] by auto
  show "alloc_blocks s' 0 m = alloc_blocks s 0 p \<union> alloc_blocks s' p e \<union> alloc_blocks s e m"
    using alloc_blocks_join[of 0 p m s'] alloc_blocks_join[of p e m s'] le
      views_cong(2)[of 0 p s s', OF lo] views_cong(2)[of e m s s', OF hi] by auto
  show "free_heads s' 0 m k = free_heads s 0 p k \<union> free_heads s' p e k \<union> free_heads s e m k"
    using free_heads_join[of 0 p m s'] free_heads_join[of p e m s'] le
      views_cong(3)[of 0 p s s', OF lo] views_cong(3)[of e m s s', OF hi] by auto
qed

lemma same_outside_refl [simp]: "same_outside s s p e"
  by (simp add: same_outside_def)

lemma lists_recarve:
  assumes l: "lists_ok s m D" and hd: "g_free_head s' = g_free_head s" "\<And>i. fnext s' i = fnext s i"
    and o: "same_outside s s' p e" and le: "p \<le> e" "e \<le> m"
    and D: "D \<subseteq> {p..<e}" "D' \<subseteq> {p..<e}"
    and fh: "\<And>j. j \<le> PMM_MAX_ORDER \<Longrightarrow> free_heads s' p e j - D' = free_heads s p e j - D"
  shows "lists_ok s' m D'"
proof (rule lists_ok_transfer[OF l hd])
  fix j :: nat assume j: "j \<le> PMM_MAX_ORDER"
  have lo: "free_heads s 0 p j \<inter> {p..<e} = {}" and hi: "free_heads s e m j \<inter> {p..<e} = {}"
    by (auto simp: free_heads_def)
  have "free_heads s' 0 m j - D' = free_heads s 0 p j \<union> (free_heads s' p e j - D') \<union> free_heads s e m j"
    using recarve(4)[OF o le] lo hi D by auto
  also have "\<dots> = free_heads s 0 p j \<union> (free_heads s p e j - D) \<union> free_heads s e m j"
    using fh j by simp
  also have "\<dots> = free_heads s 0 m j - D"
    using recarve(4)[OF same_outside_refl le, of s] lo hi D by auto
  finally show "free_heads s' 0 m j - D' = free_heads s 0 m j - D" .
qed

lemma same_outside_mark:
  assumes "dims s" "p < g_nframes s"
  shows "same_outside s (mark_block s p k x) p (p + 2 ^ k)"
proof -
  have "p < p + 2 ^ k" by simp
  then show ?thesis
    unfolding same_outside_def by (auto simp: mark_block_nth[OF assms] simp del: less_add_same_cancel1)
qed

lemma fnext_mark [simp]:
  "dims s \<Longrightarrow> p < g_nframes s \<Longrightarrow> fnext (mark_block s p k x) i = fnext s i"
  by (simp add: mark_block_nth)

section \<open>Well-formed states with detached blocks\<close>

definition pmm_core :: "pmm \<Rightarrow> nat set \<Rightarrow> bool" where
  "pmm_core s D \<longleftrightarrow> dims s \<and> region s 0 (g_nframes s) \<and> lists_ok s (g_nframes s) D"

definition free_set :: "pmm \<Rightarrow> nat set" where
  "free_set s = free_frames s 0 (g_nframes s)"

definition alloc_set :: "pmm \<Rightarrow> (nat \<times> nat \<times> frame_state) set" where
  "alloc_set s = alloc_blocks s 0 (g_nframes s)"

text \<open>Marking a tile whose free heads are all detached turns it into one block.\<close>

lemma mark_core:
  assumes c: "pmm_core s D" and p: "p + 2 ^ k \<le> g_nframes s" "p mod 2 ^ k = 0" "k \<le> PMM_MAX_ORDER"
    and r: "region s 0 p" "region s (p + 2 ^ k) (g_nframes s)" and x: "is_head x"
    and D: "D \<subseteq> {p..<p + 2 ^ k}" "\<And>j. j \<le> PMM_MAX_ORDER \<Longrightarrow> free_heads s p (p + 2 ^ k) j \<subseteq> D"
  defines "s' \<equiv> mark_block s p k x"
  shows "pmm_core s' (if x = FRAME_FREE then {p} else {})" "one_block s' p k x"
    "free_set s' = free_frames s 0 p \<union> (if x = FRAME_FREE then {p..<p + 2 ^ k} else {})
       \<union> free_frames s (p + 2 ^ k) (g_nframes s)"
    "alloc_set s' = alloc_blocks s 0 p \<union> (if x = FRAME_FREE then {} else {(p, k, x)})
       \<union> alloc_blocks s (p + 2 ^ k) (g_nframes s)"
proof -
  have d: "dims s" and l: "lists_ok s (g_nframes s) D" using c by (auto simp: pmm_core_def)
  have pp: "p < p + 2 ^ k" by simp
  then have pn: "p < g_nframes s" using p(1) by linarith
  have o: "same_outside s s' p (p + 2 ^ k)" unfolding s'_def by (rule same_outside_mark[OF d pn])
  have rs': "region s' p (p + 2 ^ k)" unfolding s'_def by (rule region_mark_block[OF d p x])
  show ob: "one_block s' p k x" unfolding s'_def by (rule one_block_mark[OF d p(1)])
  note v = one_block_views[OF ob x]
  have n: "g_nframes s' = g_nframes s" by (simp add: s'_def)
  have "region s' 0 (g_nframes s)" by (rule recarve(1)[OF o _ p(1) r rs']) simp
  moreover have "lists_ok s' (g_nframes s) (if x = FRAME_FREE then {p} else {})"
    by (rule lists_recarve[OF l _ _ o _ p(1) D(1)]) (use d pn D(2) v(3) in \<open>auto simp: s'_def\<close>)
  moreover have "dims s'" using d by (simp add: s'_def)
  ultimately show "pmm_core s' (if x = FRAME_FREE then {p} else {})" by (simp add: pmm_core_def n)
  show "free_set s' = free_frames s 0 p \<union> (if x = FRAME_FREE then {p..<p + 2 ^ k} else {})
       \<union> free_frames s (p + 2 ^ k) (g_nframes s)"
    using recarve(2)[OF o _ p(1)] v(1) by (simp add: free_set_def n)
  show "alloc_set s' = alloc_blocks s 0 p \<union> (if x = FRAME_FREE then {} else {(p, k, x)})
       \<union> alloc_blocks s (p + 2 ^ k) (g_nframes s)"
    using recarve(3)[OF o _ p(1)] v(2) by (simp add: alloc_set_def n)
qed

definition meta_eq :: "pmm \<Rightarrow> pmm \<Rightarrow> bool" where
  "meta_eq s s' \<longleftrightarrow> g_nframes s' = g_nframes s \<and> g_phys_base s' = g_phys_base s
     \<and> g_free_pages s' = g_free_pages s \<and> g_total_avail s' = g_total_avail s
     \<and> g_ram s' = g_ram s \<and> g_hhdm_live s' = g_hhdm_live s"

lemma meta_eq_refl [simp]: "meta_eq s s" by (simp add: meta_eq_def)

lemma meta_eq_trans: "meta_eq s t \<Longrightarrow> meta_eq t u \<Longrightarrow> meta_eq s u"
  by (simp add: meta_eq_def)

lemma meta_eq_mark [simp]: "meta_eq s (mark_block s p k x)" by (simp add: meta_eq_def)
lemma meta_eq_push [simp]: "meta_eq s (list_push s k p)" by (simp add: meta_eq_def)
lemma relinked_meta: "relinked s s' \<Longrightarrow> meta_eq s s'" by (simp add: relinked_def meta_eq_def)

lemma meta_eq_n: "meta_eq s s' \<Longrightarrow> g_nframes s' = g_nframes s" by (simp add: meta_eq_def)

text \<open>Linking a detached free block back into its list.\<close>

lemma push_core:
  assumes c: "pmm_core s D" and p: "p \<in> D" "p < g_nframes s" "fstate s p = FRAME_FREE" "forder s p = k"
    and k: "k \<le> PMM_MAX_ORDER"
  defines "s' \<equiv> list_push s k p"
  shows "pmm_core s' (D - {p})" "free_set s' = free_set s" "alloc_set s' = alloc_set s"
    "\<And>q j x. one_block s' q j x = one_block s q j x"
proof -
  have d: "dims s" using c by (simp add: pmm_core_def)
  then have pl: "p < length (g_frames s)" using p by (simp add: dims_def)
  have fr: "fstate s' i = fstate s i \<and> forder s' i = forder s i" for i
    using pl by (auto simp: s'_def list_push_nth)
  have n: "g_nframes s' = g_nframes s" by (simp add: s'_def)
  have "p \<in> free_heads s 0 (g_nframes s) k" using p by (simp add: free_heads_def)
  then have "lists_ok s' (g_nframes s) (D - {p})"
    unfolding s'_def using c p k by (intro lists_ok_push) (auto simp: pmm_core_def)
  then show "pmm_core s' (D - {p})" using c pl by (simp add: pmm_core_def s'_def)
  show "free_set s' = free_set s" "alloc_set s' = alloc_set s"
    using views_cong(1,2)[of 0 "g_nframes s" s' s] fr by (simp_all add: free_set_def alloc_set_def n)
  show "one_block s' q j x = one_block s q j x" for q j x by (simp add: one_block_def fr)
qed

lemma mark_push_commute:
  assumes d: "dims s" and p: "p < g_nframes s" "b < g_nframes s"
  shows "mark_block (list_push s k b) p j x = list_push (mark_block s p j x) k b"
proof (rule pmm.equality)
  have len: "length (g_frames s) = g_nframes s" using d by (simp add: dims_def)
  show "g_frames (mark_block (list_push s k b) p j x) = g_frames (list_push (mark_block s p j x) k b)"
    by (rule nth_equalityI) (use d p len in \<open>auto simp: mark_block_nth list_push_nth\<close>)
qed simp_all

section \<open>Allocation\<close>

lemma mod_pow_Suc:
  fixes p :: nat
  assumes "p mod 2 ^ Suc k = 0"
  shows "p mod 2 ^ k = 0" "(p + 2 ^ k) mod 2 ^ k = 0"
  using assms by (auto simp: mod_eq_0_iff_dvd elim!: dvd_trans[rotated] le_imp_power_dvd)

text \<open>One round of the splitting loop: the upper half goes back to its free list.\<close>

lemma split_step:
  assumes c: "pmm_core s {p}" and b: "one_block s p (Suc k) FRAME_FREE" and p: "p < g_nframes s"
    and k: "Suc k \<le> PMM_MAX_ORDER"
  defines "s' \<equiv> mark_block (list_push (mark_block s (p + 2 ^ k) k FRAME_FREE) k (p + 2 ^ k)) p k FRAME_FREE"
  shows "pmm_core s' {p}" "one_block s' p k FRAME_FREE" "free_set s' = free_set s"
    "alloc_set s' = alloc_set s" "meta_eq s s'"
proof -
  let ?b = "p + 2 ^ k" and ?e = "p + 2 ^ Suc k" and ?n = "g_nframes s"
  have d: "dims s" and r: "region s 0 ?n" and l: "lists_ok s ?n {p}" using c by (auto simp: pmm_core_def)
  have hp: "is_head (fstate s p)" "forder s p = Suc k" "fstate s p = FRAME_FREE"
    using b by (auto simp: one_block_def)
  note cut = region_cut_block[OF r _ p hp(1), simplified hp(2)]
  have al: "p mod 2 ^ Suc k = 0" and en: "?e \<le> ?n"
    using region_one_block(2,3)[OF r _ p hp(1)] hp(2) by auto
  have be: "?b + 2 ^ k = ?e" by simp
  have pb: "p < ?b" "?b < ?n" "?b < ?e" "p \<le> ?e" using en be by (simp_all add: order_less_le_trans[of _ ?e])
  define t1 where "t1 = mark_block s ?b k FRAME_FREE"
  define t where "t = mark_block t1 p k FRAME_FREE"
  have d1: "dims t1" "g_nframes t1 = ?n" using d by (auto simp: t1_def)
  have s': "s' = list_push t k ?b"
    unfolding s'_def t_def t1_def[symmetric] by (rule mark_push_commute) (use d1 p pb in auto)
  have o: "same_outside s t p ?e"
    using same_outside_mark[OF d pb(2), of k FRAME_FREE] same_outside_mark[OF d1(1), of p k FRAME_FREE] d1 p be
    unfolding same_outside_def t_def t1_def by simp
  have obp: "one_block t p k FRAME_FREE" unfolding t_def by (rule one_block_mark) (use d1 pb in auto)
  have "one_block t1 ?b k FRAME_FREE" unfolding t1_def by (rule one_block_mark) (use d en be in auto)
  then have obb: "one_block t ?b k FRAME_FREE"
    using same_outside_mark[OF d1(1), of p k FRAME_FREE] d1 p unfolding one_block_def same_outside_def t_def by auto
  have rt: "region t p ?e"
  proof (rule region_join)
    show "region t p ?b" unfolding t_def
      by (rule region_mark_block) (use d1 pb k mod_pow_Suc[OF al] in auto)
    have "region t1 ?b (?b + 2 ^ k)" unfolding t1_def
      by (rule region_mark_block) (use d en k mod_pow_Suc[OF al] in auto)
    then show "region t ?b ?e"
      unfolding t_def be using region_frame[OF d1(1), of p ?e k ?b] d1 p by simp
  qed (use pb in auto)
  have dt: "dims t" "g_nframes t = ?n" using d1 by (auto simp: t_def)
  note vp = one_block_views[OF obp, simplified] and vb = one_block_views[OF obb, simplified be, simplified]
    and vs = one_block_views[OF b, simplified]
  have fh: "free_heads t p ?e j = (if j = k then {p, ?b} else {})" for j
    using free_heads_join[of p ?b ?e t j] vp(3)[of j] vb(3)[of j] by auto
  have lt: "lists_ok t ?n {p, ?b}"
    by (rule lists_recarve[OF l _ _ o _ en]) (use fh vs(3) d d1 p pb in \<open>auto simp: t_def t1_def\<close>)
  have "region t 0 ?n" by (rule recarve(1)[OF o _ en cut(1) _ rt]) (use cut(3) in auto)
  then have ct: "pmm_core t {p, ?b}" using dt lt by (simp add: pmm_core_def)
  have ff: "free_frames t p ?e = free_frames s p ?e"
    using free_frames_join[of p ?b ?e t] vp(1) vb(1) vs(1) be by auto
  have ab: "alloc_blocks t p ?e = alloc_blocks s p ?e"
    using alloc_blocks_join[of p ?b ?e t] vp(2) vb(2) vs(2) by auto
  have fb: "fstate t ?b = FRAME_FREE" "forder t ?b = k" using obb by (auto simp: one_block_def)
  note pc = push_core[OF ct _ _ fb, folded s', simplified]
  show "pmm_core s' {p}" using pc(1) pb dt k by (simp add: insert_Diff_if)
  show "one_block s' p k FRAME_FREE" using pc(4) obp pb dt k by simp
  have "free_set t = free_set s" "alloc_set t = alloc_set s"
    using recarve(2,3)[OF o _ en] recarve(2,3)[OF same_outside_refl _ en, of p s] ff ab
    by (simp_all add: free_set_def alloc_set_def dt)
  then show "free_set s' = free_set s" "alloc_set s' = alloc_set s" using pc(2,3) pb dt k by auto
  show "meta_eq s s'" by (simp add: meta_eq_def s'_def)
qed

lemma pmm_split_ok:
  assumes "pmm_core s {p}" "one_block s p k FRAME_FREE" "p < g_nframes s" "order \<le> k" "k \<le> PMM_MAX_ORDER"
  shows "pmm_core (pmm_split s p order k) {p} \<and> one_block (pmm_split s p order k) p order FRAME_FREE
    \<and> free_set (pmm_split s p order k) = free_set s \<and> alloc_set (pmm_split s p order k) = alloc_set s
    \<and> meta_eq s (pmm_split s p order k)"
  using assms
proof (induction k arbitrary: s)
  case 0
  then show ?case by (subst (1 2 3 4 5) pmm_split.simps) simp
next
  case (Suc k)
  show ?case
  proof (cases "order = Suc k")
    case True
    then show ?thesis using Suc.prems by (subst (1 2 3 4 5) pmm_split.simps) simp
  next
    case False
    let ?s = "mark_block (list_push (mark_block s (p + 2 ^ k) k FRAME_FREE) k (p + 2 ^ k)) p k FRAME_FREE"
    have e: "pmm_split s p order (Suc k) = pmm_split ?s p order k"
      using False Suc.prems by (subst pmm_split.simps) (simp add: Let_def)
    note st = split_step[OF Suc.prems(1,2,3,5)]
    note ih = Suc.IH[OF st(1,2)]
    show ?thesis using ih st False Suc.prems unfolding e by (auto simp: meta_eq_def)
  qed
qed

lemma find_order_spec:
  "k \<le> find_order s k \<and> (find_order s k \<le> PMM_MAX_ORDER \<longrightarrow> g_free_head s ! find_order s k \<noteq> NIL)
   \<and> (\<forall>j. k \<le> j \<and> j < find_order s k \<longrightarrow> g_free_head s ! j = NIL)"
proof (induction s k rule: find_order.induct)
  case (1 s k)
  show ?case
  proof (cases "k \<le> PMM_MAX_ORDER \<and> g_free_head s ! k = NIL")
    case True
    then have e: "find_order s k = find_order s (Suc k)" by (subst find_order.simps) simp
    note ih = "1.IH"[OF True]
    have "g_free_head s ! j = NIL" if "k \<le> j" "j < find_order s k" for j
    proof (cases "j = k")
      case False
      then have "Suc k \<le> j" using that by simp
      then show ?thesis using ih that e by simp
    qed (use True in simp)
    then show ?thesis using ih e by simp
  next
    case False
    then have "find_order s k = k" by (subst find_order.simps) auto
    then show ?thesis using False by auto
  qed
qed

text \<open>A block of the current state, in terms of the three intervals it cuts the frames into.\<close>

lemma core_block:
  assumes c: "pmm_core s D" and b: "one_block s p k x" and x: "is_head x" and p: "p < g_nframes s"
  shows "region s 0 p" "region s (p + 2 ^ k) (g_nframes s)" "p mod 2 ^ k = 0" "p + 2 ^ k \<le> g_nframes s"
    "k \<le> PMM_MAX_ORDER"
    "free_set s = free_frames s 0 p \<union> (if x = FRAME_FREE then {p..<p + 2 ^ k} else {})
       \<union> free_frames s (p + 2 ^ k) (g_nframes s)"
    "alloc_set s = alloc_blocks s 0 p \<union> (if x = FRAME_FREE then {} else {(p, k, x)})
       \<union> alloc_blocks s (p + 2 ^ k) (g_nframes s)"
    "free_frames s 0 p \<inter> {p..<p + 2 ^ k} = {}"
    "free_frames s (p + 2 ^ k) (g_nframes s) \<inter> {p..<p + 2 ^ k} = {}"
proof -
  have r: "region s 0 (g_nframes s)" using c by (simp add: pmm_core_def)
  have h: "is_head (fstate s p)" "forder s p = k" "fstate s p = x" using b x by (auto simp: one_block_def)
  show al: "p mod 2 ^ k = 0" and e: "p + 2 ^ k \<le> g_nframes s" and "k \<le> PMM_MAX_ORDER"
    using region_one_block(2,3,4)[OF r _ p h(1)] h(2) by auto
  show lo: "region s 0 p" and hi: "region s (p + 2 ^ k) (g_nframes s)"
    using region_cut_block(1,3)[OF r _ p h(1)] h(2) by auto
  note v = one_block_views[OF b x]
  show "free_set s = free_frames s 0 p \<union> (if x = FRAME_FREE then {p..<p + 2 ^ k} else {})
       \<union> free_frames s (p + 2 ^ k) (g_nframes s)"
    using recarve(2)[OF same_outside_refl _ e, of p s] v(1) by (simp add: free_set_def)
  show "alloc_set s = alloc_blocks s 0 p \<union> (if x = FRAME_FREE then {} else {(p, k, x)})
       \<union> alloc_blocks s (p + 2 ^ k) (g_nframes s)"
    using recarve(3)[OF same_outside_refl _ e, of p s] v(2) by (simp add: alloc_set_def)
  show "free_frames s 0 p \<inter> {p..<p + 2 ^ k} = {}" using free_frames_bound[OF lo] by auto
  show "free_frames s (p + 2 ^ k) (g_nframes s) \<inter> {p..<p + 2 ^ k} = {}"
    using free_frames_bound[OF hi] by auto
qed

lemma alloc_blocks_range: "(h, k, x) \<in> alloc_blocks s a b \<Longrightarrow> a \<le> h \<and> h < b"
  by (simp add: alloc_blocks_def)

text \<open>Turning a detached free block into an allocated one.\<close>

lemma claim_block:
  assumes c: "pmm_core s {p}" and b: "one_block s p k FRAME_FREE" and p: "p < g_nframes s"
    and x: "x = FRAME_KERNEL \<or> x = FRAME_USER"
  defines "s' \<equiv> mark_block s p k x"
  shows "pmm_core s' {}" "free_set s' = free_set s - {p..<p + 2 ^ k}" "{p..<p + 2 ^ k} \<subseteq> free_set s"
    "alloc_set s' = insert (p, k, x) (alloc_set s)" "p \<notin> fst ` alloc_set s"
proof -
  have hx: "is_head x" "x \<noteq> FRAME_FREE" using x by auto
  note cb = core_block[OF c b _ p, simplified] and v = one_block_views[OF b, simplified]
  have fh: "\<And>j. j \<le> PMM_MAX_ORDER \<Longrightarrow> free_heads s p (p + 2 ^ k) j \<subseteq> {p}" using v(3) by auto
  note mc = mark_core[OF c cb(4,3,5,1,2) hx(1) _ fh, folded s'_def, simplified hx, simplified]
  show "pmm_core s' {}" using mc(1) by simp
  show "{p..<p + 2 ^ k} \<subseteq> free_set s" using cb(6) by auto
  show "free_set s' = free_set s - {p..<p + 2 ^ k}" using mc(3) cb(6,8,9) by auto
  show "alloc_set s' = insert (p, k, x) (alloc_set s)" using mc(4) cb(7) by auto
  show "p \<notin> fst ` alloc_set s" unfolding cb(7) by (auto dest: alloc_blocks_range)
qed

section \<open>The invariant and the address arithmetic\<close>

definition pmm_inv :: "pmm \<Rightarrow> bool" where
  "pmm_inv s \<longleftrightarrow> pmm_core s {} \<and> unat (g_free_pages s) = card (free_set s)
     \<and> unat (g_phys_base s) mod 4096 = 0"

lemma unat_pow2 [simp]: "k \<le> PMM_MAX_ORDER \<Longrightarrow> unat (push_bit k (1::u64)) = 2 ^ k"
  by (simp add: unat_pow2_word)

lemma unat_page_offset:
  assumes "pfn < 2 ^ 32" shows "unat (push_bit 12 (of_nat pfn :: u64)) = pfn * 4096"
proof -
  have "pfn * 4096 < 2 ^ 64" using assms by simp
  then show ?thesis by (simp add: push_bit_eq_mult unat_word_ariths unat_of_nat take_bit_nat_eq_self)
qed

lemma pfn_of_phys_of:
  assumes "pfn < 2 ^ 32" shows "pfn_of s (phys_of s pfn) = pfn"
proof -
  have "unat (drop_bit 12 (push_bit 12 (of_nat pfn :: u64))) = pfn"
    unfolding unat_drop_bit_eq unat_page_offset[OF assms] by (simp add: drop_bit_eq_div)
  then have "unat (ucast (drop_bit 12 (push_bit 12 (of_nat pfn :: u64))) :: u32) = pfn"
    using assms by (simp add: unsigned_ucast_eq take_bit_nat_eq_self)
  then show ?thesis by (simp add: pfn_of_def phys_of_def)
qed

lemma phys_of_valid:
  assumes "unat (g_phys_base s) mod 4096 = 0" "pfn < 2 ^ 32"
  shows "phys_of s pfn \<noteq> PMM_INVALID" "unat (phys_of s pfn) mod 4096 = 0"
proof -
  show *: "unat (phys_of s pfn) mod 4096 = 0"
    unfolding phys_of_def unat_add_mod_page unat_page_offset[OF assms(2)] using assms(1) by simp
  have "unat PMM_INVALID mod 4096 \<noteq> 0" by simp
  then show "phys_of s pfn \<noteq> PMM_INVALID" using * by auto
qed

lemma phys_of_meta: "meta_eq s s' \<Longrightarrow> phys_of s' = phys_of s"
  by (simp add: fun_eq_iff phys_of_def meta_eq_def)

lemma core_frames_bound: "pmm_core s D \<Longrightarrow> g_nframes s \<le> NIL"
  by (simp add: pmm_core_def dims_def)

lemma free_set_bound: "pmm_core s D \<Longrightarrow> free_set s \<subseteq> {0..<g_nframes s}"
  unfolding free_set_def by (rule free_frames_bound) (simp add: pmm_core_def)

lemma finite_free_set [simp]: "pmm_core s D \<Longrightarrow> finite (free_set s)"
  unfolding free_set_def by (simp add: pmm_core_def)

lemma pmm_core_upd [simp]:
  "pmm_core (s\<lparr>g_free_pages := v\<rparr>) D = pmm_core s D"
  "pmm_core (s\<lparr>g_ram := r\<rparr>) D = pmm_core s D"
  "free_set (s\<lparr>g_free_pages := v\<rparr>) = free_set s"
  "free_set (s\<lparr>g_ram := r\<rparr>) = free_set s"
  "alloc_set (s\<lparr>g_free_pages := v\<rparr>) = alloc_set s"
  "alloc_set (s\<lparr>g_ram := r\<rparr>) = alloc_set s"
  by (simp_all add: pmm_core_def dims_def region_def block_ok_def lists_ok_def free_heads_def
      free_set_def free_frames_def alloc_set_def alloc_blocks_def)

section \<open>Allocation, top level\<close>

definition alloc_state :: "u32 \<Rightarrow> frame_state" where
  "alloc_state flags = (if flags AND PMM_USER \<noteq> 0 then FRAME_USER else FRAME_KERNEL)"

lemma pmm_alloc_cases:
  assumes i: "pmm_inv s" and o: "order \<le> PMM_MAX_ORDER"
  obtains (fail) "pmm_alloc s order flags = (s, PMM_INVALID)"
      "\<And>k. order \<le> k \<Longrightarrow> free_heads s 0 (g_nframes s) k = {}"
  | (ok) s' p where "pmm_alloc s order flags = (s', phys_of s p)" "pmm_inv s'"
      "p + 2 ^ order \<le> g_nframes s" "p mod 2 ^ order = 0" "{p..<p + 2 ^ order} \<subseteq> free_set s"
      "free_set s' = free_set s - {p..<p + 2 ^ order}"
      "alloc_set s' = insert (p, order, alloc_state flags) (alloc_set s)" "p \<notin> fst ` alloc_set s"
      "g_nframes s' = g_nframes s" "g_phys_base s' = g_phys_base s"
      "g_free_pages s' = g_free_pages s - push_bit order 1"
      "g_ram s' = (if flags AND PMM_ZERO \<noteq> 0
         then g_ram (zero_ram s (phys_of s p) (push_bit order PAGE_SIZE)) else g_ram s)"
      "g_hhdm_live s' = g_hhdm_live s"
proof (cases "find_order s order \<le> PMM_MAX_ORDER")
  case False
  have c: "pmm_core s {}" using i by (simp add: pmm_inv_def)
  have r: "pmm_alloc s order flags = (s, PMM_INVALID)" using False o by (simp add: pmm_alloc_def Let_def)
  have "free_heads s 0 (g_nframes s) k = {}" if k: "order \<le> k" for k
  proof (cases "k \<le> PMM_MAX_ORDER")
    case True
    then have "g_free_head s ! k = NIL" using find_order_spec[of order s] k False by simp
    moreover have "lists_ok s (g_nframes s) {}" using c by (simp add: pmm_core_def)
    then obtain L where "linked (\<lambda>i. fnext s i) (g_free_head s ! k) L" "distinct L"
      "set L = free_heads s 0 (g_nframes s) k - {}"
      using True by (rule lists_okE)
    ultimately show ?thesis by (cases L) auto
  next
    case False
    have "region s 0 (g_nframes s)" using c by (simp add: pmm_core_def)
    then have "forder s h \<le> PMM_MAX_ORDER" if "h < g_nframes s" "fstate s h = FRAME_FREE" for h
      using region_one_block(4)[of s 0 "g_nframes s" h] that by simp
    then show ?thesis using False by (auto simp: free_heads_def)
  qed
  then show thesis using r fail by blast
next
  case True
  let ?k = "find_order s order"
  have c: "pmm_core s {}" and d: "dims s" and l: "lists_ok s (g_nframes s) {}"
    using i by (auto simp: pmm_inv_def pmm_core_def)
  have hk: "order \<le> ?k" "g_free_head s ! ?k \<noteq> NIL" using find_order_spec[of order s] True by auto
  obtain s1 p where pop: "list_pop s ?k = (s1, p)" "p \<in> free_heads s 0 (g_nframes s) ?k - {}"
    "lists_ok s1 (g_nframes s) (insert p {})" "relinked s s1"
    using list_pop_ok[OF l d True le_refl hk(2)] by blast
  note n1 = meta_eq_n[OF relinked_meta[OF pop(4)]]
  have p: "p < g_nframes s" "fstate s p = FRAME_FREE" "forder s p = ?k" using pop(2) by (auto simp: free_heads_def)
  have c1: "pmm_core s1 {p}"
    using pop(3,4) c n1 by (simp add: pmm_core_def relinked_dims relinked_region)
  have fr1: "\<And>i. fstate s1 i = fstate s i \<and> forder s1 i = forder s i" using pop(4) by (simp add: relinked_def)
  have b1: "one_block s1 p ?k FRAME_FREE"
    using region_one_block(1)[of s1 0 "g_nframes s" p] c1 p fr1 n1 by (simp add: pmm_core_def)
  have f1: "free_set s1 = free_set s" "alloc_set s1 = alloc_set s"
    using views_cong(1,2)[of 0 "g_nframes s" s1 s] fr1 n1 by (simp_all add: free_set_def alloc_set_def)
  define s2 where "s2 = pmm_split s1 p order ?k"
  have s2: "pmm_core s2 {p}" "one_block s2 p order FRAME_FREE" "free_set s2 = free_set s"
    "alloc_set s2 = alloc_set s" "meta_eq s s2"
    using pmm_split_ok[OF c1 b1 _ hk(1) True] p n1 f1 meta_eq_trans[OF relinked_meta[OF pop(4)]]
    unfolding s2_def by auto
  note n2 = meta_eq_n[OF s2(5)]
  have p2: "p < g_nframes s2" using p n2 by simp
  define s3 where "s3 = mark_block s2 p order (alloc_state flags)"
  have x: "alloc_state flags = FRAME_KERNEL \<or> alloc_state flags = FRAME_USER" by (simp add: alloc_state_def)
  note cl = claim_block[OF s2(1,2) p2 x, folded s3_def, unfolded s2(3,4)]
  have m3: "meta_eq s s3" unfolding s3_def using meta_eq_trans[OF s2(5) meta_eq_mark] .
  let ?s4 = "s3\<lparr>g_free_pages := g_free_pages s3 - push_bit order 1\<rparr>"
  let ?s5 = "if flags AND PMM_ZERO \<noteq> 0 then zero_ram ?s4 (phys_of s p) (push_bit order PAGE_SIZE) else ?s4"
  have ph: "phys_of (s3\<lparr>g_free_pages := v\<rparr>) p = phys_of s p" for v using m3 by (simp add: phys_of_def meta_eq_def)
  have r: "pmm_alloc s order flags = (?s5, phys_of s p)"
    using o True pop(1) ph
    by (simp add: pmm_alloc_def Let_def s2_def[symmetric] alloc_state_def[symmetric] s3_def[symmetric])
  note cb = core_block[OF s2(1,2) _ p2, simplified, unfolded n2]
  have fs: "free_set ?s5 = free_set s - {p..<p + 2 ^ order}" and as: "alloc_set ?s5 = insert (p, order, alloc_state flags) (alloc_set s)"
    and cs: "pmm_core ?s5 {}"
    using cl by (auto simp: zero_ram_def)
  have "card {p..<p + 2 ^ order} \<le> card (free_set s)" by (rule card_mono) (use c cl(3) in auto)
  then have "unat (g_free_pages s - push_bit order 1) = unat (g_free_pages s) - 2 ^ order"
    using i o by (subst unat_sub) (simp_all add: word_le_nat_alt pmm_inv_def unat_pow2_word)
  then have "unat (g_free_pages ?s5) = card (free_set ?s5)"
    using i fs cl(3) m3 by (simp add: card_Diff_subset pmm_inv_def zero_ram_def meta_eq_def)
  then have "pmm_inv ?s5" using cs i m3 by (simp add: pmm_inv_def zero_ram_def meta_eq_def)
  then show thesis
    by (rule ok[OF r])
      (use cb cl fs as m3 in \<open>simp_all add: zero_ram_def meta_eq_def cong del: if_weak_cong\<close>)
qed

section \<open>Release and coalescing\<close>

lemma xor_pow2:
  fixes p :: nat
  assumes "p mod 2 ^ k = 0"
  shows "p XOR 2 ^ k = (if even (p div 2 ^ k) then p + 2 ^ k else p - 2 ^ k)"
proof -
  obtain q where q: "p = q * 2 ^ k" using assms by (auto simp: mod_eq_0_iff_dvd mult.commute elim: dvdE)
  have "p XOR 2 ^ k = push_bit k q XOR push_bit k 1" by (simp add: q push_bit_eq_mult)
  also have "\<dots> = push_bit k (q XOR 1)" by (simp only: push_bit_xor)
  also have "\<dots> = (if even q then (q + 1) * 2 ^ k else (q - 1) * 2 ^ k)"
  proof -
    have "q XOR 1 = (if even q then q + 1 else q - 1)" unfolding xor_one_eq by auto
    then show ?thesis unfolding push_bit_eq_mult by presburger
  qed
  finally show ?thesis by (simp add: q diff_mult_distrib)
qed

lemma buddy_pair:
  fixes p :: nat
  assumes "p mod 2 ^ k = 0"
  defines "b \<equiv> p XOR 2 ^ k"
  defines "lo \<equiv> (if b < p then b else p)"
  shows "lo mod 2 ^ Suc k = 0" "{b, p} = {lo, lo + 2 ^ k}" "b \<noteq> p"
proof -
  obtain q where q: "p = q * 2 ^ k" using assms(1) by (auto simp: mod_eq_0_iff_dvd mult.commute elim: dvdE)
  have dv: "p div 2 ^ k = q" by (simp add: q)
  have b: "b = (if even q then p + 2 ^ k else p - 2 ^ k)"
    unfolding b_def using xor_pow2[OF assms(1)] dv by simp
  have "lo mod 2 ^ Suc k = 0 \<and> {b, p} = {lo, lo + 2 ^ k} \<and> b \<noteq> p"
  proof (cases "even q")
    case True
    then obtain r where "q = 2 * r" by blast
    then show ?thesis using True b q by (auto simp: lo_def mult.assoc mult.left_commute)
  next
    case False
    then obtain r where r: "q = 2 * r + 1" by (blast elim: oddE)
    then have "p = r * 2 ^ Suc k + 2 ^ k" by (simp add: q algebra_simps)
    then have "b = r * 2 ^ Suc k" "p = b + 2 ^ k" using b False by auto
    then show ?thesis by (auto simp: lo_def)
  qed
  then show "lo mod 2 ^ Suc k = 0" "{b, p} = {lo, lo + 2 ^ k}" "b \<noteq> p" by auto
qed

lemma merge_step:
  assumes c: "pmm_core s {p}" and bl: "one_block s p k FRAME_FREE" and p: "p < g_nframes s"
    and k: "k < PMM_MAX_ORDER"
  defines "b \<equiv> p XOR 2 ^ k"
  defines "lo \<equiv> (if b < p then b else p)"
  assumes b: "b < g_nframes s" "fstate s b = FRAME_FREE" "forder s b = k"
  obtains s1 where "pmm_list_remove s k b = Some s1"
    "pmm_core (mark_block s1 lo (Suc k) FRAME_FREE) {lo}"
    "one_block (mark_block s1 lo (Suc k) FRAME_FREE) lo (Suc k) FRAME_FREE" "lo < g_nframes s"
    "free_set (mark_block s1 lo (Suc k) FRAME_FREE) = free_set s"
    "alloc_set (mark_block s1 lo (Suc k) FRAME_FREE) = alloc_set s"
    "meta_eq s (mark_block s1 lo (Suc k) FRAME_FREE)"
proof -
  let ?n = "g_nframes s" and ?hi = "lo + 2 ^ k" and ?e = "lo + 2 ^ Suc k"
  have d: "dims s" and l: "lists_ok s ?n {p}" using c by (auto simp: pmm_core_def)
  note cp = core_block[OF c bl _ p, simplified]
  note bp = buddy_pair[OF cp(3), folded b_def, folded lo_def]
  have "b \<in> free_heads s 0 ?n k - {p}" using b bp(3) by (simp add: free_heads_def)
  then obtain s1 where s1: "pmm_list_remove s k b = Some s1" "lists_ok s1 ?n (insert b {p})" "relinked s s1"
    using list_remove_ok[OF l d _ le_refl] k by (metis less_imp_le)
  note n1 = meta_eq_n[OF relinked_meta[OF s1(3)]]
  have fr: "\<And>i. fstate s1 i = fstate s i \<and> forder s1 i = forder s i" using s1(3) by (simp add: relinked_def)
  have c1: "pmm_core s1 {lo, ?hi}" using c s1 bp(2) n1 by (simp add: pmm_core_def relinked_dims relinked_region)
  have blk: "one_block s1 q k FRAME_FREE \<and> q < g_nframes s1" if "q \<in> {lo, ?hi}" for q
  proof -
    have q: "q = b \<or> q = p" using that bp(2) by blast
    then have "q < ?n" "is_head (fstate s q)" "fstate s q = FRAME_FREE" "forder s q = k"
      using b p bl by (auto simp: one_block_def)
    moreover have "region s 0 ?n" using c by (simp add: pmm_core_def)
    ultimately have "one_block s q k FRAME_FREE" using region_one_block(1)[of s 0 ?n q] by simp
    then show ?thesis using fr n1 \<open>q < ?n\<close> by (simp add: one_block_def)
  qed
  have lob: "one_block s1 lo k FRAME_FREE" "lo < g_nframes s1" and hib: "one_block s1 ?hi k FRAME_FREE" "?hi < g_nframes s1"
    using blk by auto
  note cl = core_block[OF c1 lob(1) _ lob(2), simplified] and ch = core_block[OF c1 hib(1) _ hib(2), simplified]
  note vl = one_block_views[OF lob(1), simplified] and vh = one_block_views[OF hib(1), simplified]
  have e: "?hi + 2 ^ k = ?e" by simp
  have fh: "free_heads s1 lo ?e j \<subseteq> {lo, ?hi}" for j
    using free_heads_join[of lo ?hi ?e s1 j] vl(3)[of j] vh(3)[of j] e by auto
  note mc = mark_core[OF c1 _ bp(1) _ cl(1), of FRAME_FREE, simplified]
  have en: "?e \<le> ?n" using ch(4) n1 e by simp
  have core: "pmm_core (mark_block s1 lo (Suc k) FRAME_FREE) {lo}"
    and ob: "one_block (mark_block s1 lo (Suc k) FRAME_FREE) lo (Suc k) FRAME_FREE"
    and fs: "free_set (mark_block s1 lo (Suc k) FRAME_FREE)
       = free_frames s1 0 lo \<union> {lo..<?e} \<union> free_frames s1 ?e ?n"
    and as: "alloc_set (mark_block s1 lo (Suc k) FRAME_FREE) = alloc_blocks s1 0 lo \<union> alloc_blocks s1 ?e ?n"
    using mc en n1 k ch(2) e fh by auto
  have "free_frames s1 lo ?e = {lo..<?e}"
    using free_frames_join[of lo ?hi ?e s1] vl(1) vh(1) e by auto
  moreover have "alloc_blocks s1 lo ?e = {}"
    using alloc_blocks_join[of lo ?hi ?e s1] vl(2) vh(2) e by auto
  moreover have "free_set s1 = free_set s" "alloc_set s1 = alloc_set s"
    using views_cong(1,2)[of 0 ?n s1 s] fr n1 by (simp_all add: free_set_def alloc_set_def)
  ultimately have "free_set s = free_set (mark_block s1 lo (Suc k) FRAME_FREE)"
    "alloc_set s = alloc_set (mark_block s1 lo (Suc k) FRAME_FREE)"
    using recarve(2,3)[OF same_outside_refl _ en, of lo s1] fs as n1
    by (auto simp: free_set_def alloc_set_def)
  then show thesis
    using that[OF s1(1) core ob] lob(2) n1 meta_eq_trans[OF relinked_meta[OF s1(3)] meta_eq_mark] by auto
qed

lemma pmm_coalesce_ok:
  assumes "pmm_core s {p}" "one_block s p k FRAME_FREE" "p < g_nframes s" "k \<le> PMM_MAX_ORDER"
  shows "\<exists>s' p' k'. pmm_coalesce s p k = Some (s', p', k') \<and> pmm_core s' {p'}
    \<and> one_block s' p' k' FRAME_FREE \<and> p' < g_nframes s' \<and> k' \<le> PMM_MAX_ORDER
    \<and> free_set s' = free_set s \<and> alloc_set s' = alloc_set s \<and> meta_eq s s'"
  using assms
proof (induction "PMM_MAX_ORDER - k" arbitrary: s p k)
  case 0
  then show ?case by (subst pmm_coalesce.simps) simp
next
  case (Suc m)
  then have k: "k < PMM_MAX_ORDER" by simp
  let ?b = "p XOR 2 ^ k"
  show ?case
  proof (cases "?b < g_nframes s \<and> fstate s ?b = FRAME_FREE \<and> forder s ?b = k")
    case False
    then have "pmm_coalesce s p k = Some (s, p, k)"
      using k by (subst pmm_coalesce.simps) (auto simp: Let_def pfn_ok_def)
    then show ?thesis using Suc.prems by auto
  next
    case True
    let ?lo = "if ?b < p then ?b else p"
    obtain s1 where s1: "pmm_list_remove s k ?b = Some s1"
      "pmm_core (mark_block s1 ?lo (Suc k) FRAME_FREE) {?lo}"
      "one_block (mark_block s1 ?lo (Suc k) FRAME_FREE) ?lo (Suc k) FRAME_FREE" "?lo < g_nframes s"
      "free_set (mark_block s1 ?lo (Suc k) FRAME_FREE) = free_set s"
      "alloc_set (mark_block s1 ?lo (Suc k) FRAME_FREE) = alloc_set s"
      "meta_eq s (mark_block s1 ?lo (Suc k) FRAME_FREE)"
      using merge_step[OF Suc.prems(1,2,3) k] True by blast
    have e: "pmm_coalesce s p k = pmm_coalesce (mark_block s1 ?lo (Suc k) FRAME_FREE) ?lo (Suc k)"
      using k True s1(1) by (subst pmm_coalesce.simps) (simp add: Let_def pfn_ok_def)
    have "m = PMM_MAX_ORDER - Suc k" using Suc.hyps(2) by simp
    from Suc.hyps(1)[OF this s1(2,3)] show ?thesis
      using s1(4,5,6,7) k meta_eq_n[OF s1(7)] unfolding e by (auto intro: meta_eq_trans)
  qed
qed

lemma alloc_set_block:
  assumes c: "pmm_core s D" and a: "(p, k, x) \<in> alloc_set s"
  shows "p < g_nframes s" "one_block s p k x" "x = FRAME_KERNEL \<or> x = FRAME_USER" "k \<le> PMM_MAX_ORDER"
proof -
  have p: "p < g_nframes s" "forder s p = k" "fstate s p = x" "x = FRAME_KERNEL \<or> x = FRAME_USER"
    using a by (auto simp: alloc_set_def alloc_blocks_def)
  have r: "region s 0 (g_nframes s)" using c by (simp add: pmm_core_def)
  show "p < g_nframes s" "x = FRAME_KERNEL \<or> x = FRAME_USER" by fact+
  have h: "is_head (fstate s p)" using p by auto
  show "one_block s p k x" "k \<le> PMM_MAX_ORDER"
    using region_one_block(1,4)[OF r _ p(1) h] p by auto
qed

lemma pmm_free_ok:
  assumes i: "pmm_inv s" and a: "(p, k, x) \<in> alloc_set s"
  obtains s' where "pmm_free s (phys_of s p) k = Ret s'" "pmm_inv s'"
    "free_set s' = free_set s \<union> {p..<p + 2 ^ k}" "{p..<p + 2 ^ k} \<inter> free_set s = {}"
    "alloc_set s' = alloc_set s - {(p, k, x)}" "g_nframes s' = g_nframes s"
    "g_phys_base s' = g_phys_base s" "g_ram s' = g_ram s" "g_hhdm_live s' = g_hhdm_live s"
proof -
  have c: "pmm_core s {}" and al: "unat (g_phys_base s) mod 4096 = 0" using i by (auto simp: pmm_inv_def)
  note b = alloc_set_block[OF c a]
  have hx: "is_head x" "x \<noteq> FRAME_FREE" using b(3) by auto
  note cb = core_block[OF c b(2) hx(1) b(1), simplified hx, simplified] and v = one_block_views[OF b(2) hx(1), simplified hx, simplified]
  have p32: "p < 2 ^ 32" using b(1) core_frames_bound[OF c] by simp
  define s1 where "s1 = mark_block s p k FRAME_FREE"
  define s2 where "s2 = s1\<lparr>g_free_pages := g_free_pages s1 + push_bit k 1\<rparr>"
  note mc = mark_core[OF c cb(4,3,5,1,2), of FRAME_FREE, folded s1_def, simplified, OF v(3)]
  have c2: "pmm_core s2 {p}" using mc(1) by (simp add: s2_def)
  have ob2: "one_block s2 p k FRAME_FREE" using mc(2) by (simp add: s2_def one_block_def)
  have n2: "p < g_nframes s2" using b(1) by (simp add: s2_def s1_def)
  have fs: "free_set s2 = free_set s \<union> {p..<p + 2 ^ k}" using mc(3) cb(6) by (auto simp: s2_def)
  have dj: "{p..<p + 2 ^ k} \<inter> free_set s = {}" using cb(6,8,9) by auto
  have "(p, k, x) \<notin> alloc_blocks s 0 p \<union> alloc_blocks s (p + 2 ^ k) (g_nframes s)"
    by (auto dest: alloc_blocks_range)
  then have as: "alloc_set s2 = alloc_set s - {(p, k, x)}" using mc(4) cb(7) by (auto simp: s2_def)
  obtain s3 p' k' where co: "pmm_coalesce s2 p k = Some (s3, p', k')" "pmm_core s3 {p'}"
    "one_block s3 p' k' FRAME_FREE" "p' < g_nframes s3" "k' \<le> PMM_MAX_ORDER"
    "free_set s3 = free_set s2" "alloc_set s3 = alloc_set s2" "meta_eq s2 s3"
    using pmm_coalesce_ok[OF c2 ob2 n2 b(4)] by blast
  define s4 where "s4 = list_push s3 k' p'"
  have st: "fstate s3 p' = FRAME_FREE" "forder s3 p' = k'" using co(3) by (auto simp: one_block_def)
  note pc = push_core[OF co(2) _ co(4) st co(5), folded s4_def, simplified]
  have r: "pmm_free s (phys_of s p) k = Ret s4"
  proof -
    have "fstate s p = x" using b(2) by (simp add: one_block_def)
    then show ?thesis
      using phys_of_valid(1)[OF al p32] b(1,3,4) co(1)
      by (auto simp: pmm_free_def Let_def pfn_of_phys_of[OF p32] pfn_ok_def s1_def[symmetric]
          s2_def s4_def)
  qed
  have fs4: "free_set s4 = free_set s \<union> {p..<p + 2 ^ k}" using pc(2) co(6) fs by simp
  have "finite (free_set s)" using c by simp
  then have cd: "card (free_set s4) = card (free_set s) + 2 ^ k"
    unfolding fs4 using dj by (subst card_Un_disjoint) auto
  have "card (free_set s4) \<le> NIL"
    using card_mono[OF _ free_set_bound[OF pc(1)]] core_frames_bound[OF pc(1)] by simp
  then have "unat (g_free_pages s) + 2 ^ k < 2 ^ 64" using i cd by (simp add: pmm_inv_def)
  then have "unat (g_free_pages s + push_bit k 1) = card (free_set s4)"
    using i cd b(4) by (simp add: pmm_inv_def unat_word_ariths unat_pow2_word)
  moreover have m4: "meta_eq s2 s4" unfolding s4_def by (rule meta_eq_trans[OF co(8) meta_eq_push])
  ultimately have "pmm_inv s4"
    using pc(1) al by (simp add: pmm_inv_def meta_eq_def s2_def s1_def)
  then show thesis
    using that[OF r] fs4 dj pc(3) co(7) as m4 by (simp add: meta_eq_def s2_def s1_def)
qed

section \<open>Initialisation\<close>

lemma grow_order_spec:
  assumes "p mod 2 ^ k = 0" "p + 2 ^ k \<le> g_nframes s" "k \<le> PMM_MAX_ORDER" "all_free s p (2 ^ k)"
  shows "p mod 2 ^ grow_order s p k = 0 \<and> p + 2 ^ grow_order s p k \<le> g_nframes s
    \<and> grow_order s p k \<le> PMM_MAX_ORDER \<and> all_free s p (2 ^ grow_order s p k)"
  using assms
proof (induction s p k rule: grow_order.induct)
  case (1 s p k)
  show ?case
  proof (cases "k < PMM_MAX_ORDER \<and> p mod 2 ^ Suc k = 0 \<and> p + 2 ^ Suc k \<le> g_nframes s \<and> all_free s p (2 ^ Suc k)")
    case True
    then have "grow_order s p k = grow_order s p (Suc k)" by (subst grow_order.simps) (auto simp: Let_def)
    then show ?thesis using "1.IH" True by (auto simp: Let_def)
  next
    case False
    then have "grow_order s p k = k" by (subst grow_order.simps) (auto simp: Let_def)
    then show ?thesis using "1.prems" by simp
  qed
qed

definition raw_from :: "pmm \<Rightarrow> nat \<Rightarrow> bool" where
  "raw_from s p \<longleftrightarrow> (\<forall>i. p \<le> i \<and> i < g_nframes s \<longrightarrow> fstate s i = FRAME_FREE \<or> fstate s i = FRAME_RESERVED)"

definition built :: "pmm \<Rightarrow> nat \<Rightarrow> bool" where
  "built s p \<longleftrightarrow> dims s \<and> p \<le> g_nframes s \<and> region s 0 p \<and> lists_ok s p {} \<and> raw_from s p
     \<and> unat (g_free_pages s) = card (free_frames s 0 p) \<and> alloc_blocks s 0 p = {}"

lemma built_skip:
  assumes b: "built s p" and p: "p < g_nframes s" "fstate s p \<noteq> FRAME_FREE"
  shows "built s (Suc p)" "free_frames s 0 (Suc p) = free_frames s 0 p"
proof -
  have st: "fstate s p = FRAME_RESERVED" using b p by (auto simp: built_def raw_from_def)
  have r: "region s p (Suc p)" using st unfolding region_def by (auto simp: less_Suc_eq_le dest: le_antisym)
  have e: "free_frames s p (Suc p) = {}" "alloc_blocks s p (Suc p) = {}" "free_heads s p (Suc p) k = {}" for k
    using st unfolding free_frames_def alloc_blocks_def free_heads_def
    by (auto simp: less_Suc_eq_le dest: le_antisym)
  show ff: "free_frames s 0 (Suc p) = free_frames s 0 p" using free_frames_join[of 0 p "Suc p" s] e by simp
  have "alloc_blocks s 0 (Suc p) = {}" using alloc_blocks_join[of 0 p "Suc p" s] e b by (simp add: built_def)
  moreover have "region s 0 (Suc p)" using region_join[of s 0 p "Suc p"] r b by (simp add: built_def)
  moreover have "lists_ok s (Suc p) {}"
    by (rule lists_ok_transfer[of s p "{}"]) (use b e(3) free_heads_join[of 0 p "Suc p" s] in \<open>auto simp: built_def\<close>)
  moreover have "raw_from s (Suc p)" using b by (auto simp: built_def raw_from_def)
  ultimately show "built s (Suc p)" using b p ff by (simp add: built_def)
qed

lemma built_block:
  assumes b: "built s p" and p: "p < g_nframes s"
    and k: "p mod 2 ^ k = 0" "p + 2 ^ k \<le> g_nframes s" "k \<le> PMM_MAX_ORDER"
  defines "s1 \<equiv> list_push (mark_block s p k FRAME_FREE) k p"
  defines "s' \<equiv> s1\<lparr>g_free_pages := g_free_pages s1 + push_bit k 1, g_total_avail := g_total_avail s1 + push_bit k 1\<rparr>"
  shows "built s' (p + 2 ^ k)" "free_frames s' 0 (p + 2 ^ k) = free_frames s 0 p \<union> {p..<p + 2 ^ k}"
    "\<And>i. p + 2 ^ k \<le> i \<Longrightarrow> fstate s' i = fstate s i" "g_nframes s' = g_nframes s"
    "g_phys_base s' = g_phys_base s"
proof -
  define t where "t = mark_block s p k FRAME_FREE"
  have d: "dims s" and l: "lists_ok s p {}" and r: "region s 0 p" using b by (auto simp: built_def)
  have dt: "dims t" "g_nframes t = g_nframes s" using d by (auto simp: t_def)
  have lt: "p < length (g_frames t)" using dt p by (simp add: dims_def)
  have o: "same_outside s t p (p + 2 ^ k)" unfolding t_def by (rule same_outside_mark[OF d p])
  have ob: "one_block t p k FRAME_FREE" unfolding t_def by (rule one_block_mark[OF d k(2)])
  note v = one_block_views[OF ob, simplified]
  have rt: "region t 0 (p + 2 ^ k)"
    by (rule recarve(1)[OF o _ _ r]) (use region_mark_block[OF d k(2,1,3)] in \<open>auto simp: t_def\<close>)
  have emp: "free_frames s (p + 2 ^ k) (p + 2 ^ k) = {}" "alloc_blocks s (p + 2 ^ k) (p + 2 ^ k) = {}"
    "free_heads s (p + 2 ^ k) (p + 2 ^ k) j = {}" for j
    by (auto simp: free_frames_def alloc_blocks_def free_heads_def)
  have fft: "free_frames t 0 (p + 2 ^ k) = free_frames s 0 p \<union> {p..<p + 2 ^ k}"
    using recarve(2)[OF o] v(1) emp(1) by simp
  have abt: "alloc_blocks t 0 (p + 2 ^ k) = {}" using recarve(3)[OF o] v(2) emp(2) b by (simp add: built_def)
  have fht: "free_heads t 0 (p + 2 ^ k) j = free_heads s 0 p j \<union> (if j = k then {p} else {})" for j
    using recarve(4)[OF o] v(3) emp(3) by simp
  have "lists_ok t (p + 2 ^ k) {p}"
  proof (rule lists_ok_transfer[OF l])
    fix j show "free_heads t 0 (p + 2 ^ k) j - {p} = free_heads s 0 p j - {}"
      unfolding fht by (auto simp: free_heads_def)
  qed (use d p in \<open>auto simp: t_def\<close>)
  then have ls: "lists_ok s1 (p + 2 ^ k) {}"
    unfolding s1_def t_def[symmetric]
    using lists_ok_push[of t "p + 2 ^ k" "{p}" p k] dt k fht by simp
  have fr: "fstate s1 i = fstate t i \<and> forder s1 i = forder t i" for i
    using lt by (simp add: s1_def t_def[symmetric] list_push_nth)
  have vs: "region s1 0 m = region t 0 m" "free_frames s1 0 m = free_frames t 0 m"
    "alloc_blocks s1 0 m = alloc_blocks t 0 m" for m
    using region_cong[of 0 m s1 t] views_cong(1,2)[of 0 m s1 t] fr by auto
  have s'eq: "region s' 0 m = region s1 0 m" "free_frames s' 0 m = free_frames s1 0 m"
    "alloc_blocks s' 0 m = alloc_blocks s1 0 m" "lists_ok s' m D = lists_ok s1 m D" "dims s' = dims s1" for m D
    by (simp_all add: s'_def region_def block_ok_def free_frames_def alloc_blocks_def lists_ok_def
        free_heads_def dims_def)
  show ff: "free_frames s' 0 (p + 2 ^ k) = free_frames s 0 p \<union> {p..<p + 2 ^ k}"
    using s'eq vs fft by simp
  show st: "fstate s' i = fstate s i" if "p + 2 ^ k \<le> i" for i
    using fr[of i] o that by (simp add: s'_def same_outside_def)
  show n: "g_nframes s' = g_nframes s" "g_phys_base s' = g_phys_base s"
    by (simp_all add: s'_def s1_def)
  have "free_frames s 0 p \<inter> {p..<p + 2 ^ k} = {}" using free_frames_bound[OF r] by auto
  then have cd: "card (free_frames s' 0 (p + 2 ^ k)) = card (free_frames s 0 p) + 2 ^ k"
    unfolding ff using r by (subst card_Un_disjoint) auto
  have "card (free_frames s' 0 (p + 2 ^ k)) \<le> p + 2 ^ k"
    using card_mono[OF _ free_frames_bound[OF rt]] ff fft by simp
  then have "unat (g_free_pages s) + 2 ^ k < 2 ^ 64"
    using b cd k d by (simp add: built_def dims_def)
  then have pg: "unat (g_free_pages s') = card (free_frames s' 0 (p + 2 ^ k))"
    using b cd k by (simp add: built_def s'_def s1_def unat_word_ariths unat_pow2_word)
  have raw: "raw_from s' (p + 2 ^ k)" using b st n by (auto simp: built_def raw_from_def)
  show "built s' (p + 2 ^ k)"
  proof -
    have "dims s1" using dt by (simp add: s1_def t_def[symmetric])
    then show ?thesis using pg raw ls rt abt n k by (simp add: built_def s'eq vs)
  qed
qed

lemma pmm_build_ok:
  assumes "built s p"
  shows "built (pmm_build s p) (g_nframes s) \<and> g_nframes (pmm_build s p) = g_nframes s
    \<and> g_phys_base (pmm_build s p) = g_phys_base s
    \<and> free_frames (pmm_build s p) 0 (g_nframes s)
       = free_frames s 0 p \<union> {i. p \<le> i \<and> i < g_nframes s \<and> fstate s i = FRAME_FREE}"
  using assms
proof (induction s p rule: pmm_build.induct)
  case (1 s p)
  show ?case
  proof (cases "p < g_nframes s")
    case False
    then have "p = g_nframes s" "pmm_build s p = s" using "1.prems" by (auto simp: built_def pmm_build.simps)
    then show ?thesis using "1.prems" by auto
  next
    case p: True
    show ?thesis
    proof (cases "fstate s p = FRAME_FREE")
      case False
      then have e: "pmm_build s p = pmm_build s (Suc p)" using p by (subst pmm_build.simps) simp
      have "{i. Suc p \<le> i \<and> i < g_nframes s \<and> fstate s i = FRAME_FREE}
          = {i. p \<le> i \<and> i < g_nframes s \<and> fstate s i = FRAME_FREE}"
        using False by (auto simp: Suc_le_eq le_less)
      then show ?thesis using "1.IH"(1)[OF p False] built_skip[OF "1.prems" p False] unfolding e by simp
    next
      case True
      let ?k = "grow_order s p 0"
      let ?s1 = "list_push (mark_block s p ?k FRAME_FREE) ?k p"
      let ?s = "?s1\<lparr>g_free_pages := g_free_pages ?s1 + push_bit ?k 1,
        g_total_avail := g_total_avail ?s1 + push_bit ?k 1\<rparr>"
      have "all_free s p (2 ^ 0)" using True by (simp add: all_free_def)
      then have k: "p mod 2 ^ ?k = 0" "p + 2 ^ ?k \<le> g_nframes s" "?k \<le> PMM_MAX_ORDER" "all_free s p (2 ^ ?k)"
        using grow_order_spec[of p 0 s] p by auto
      have e: "pmm_build s p = pmm_build ?s (p + 2 ^ ?k)"
        using p True by (subst pmm_build.simps) (simp add: Let_def)
      note bb = built_block[OF "1.prems" p k(1,2,3)]
      have af: "fstate s i = FRAME_FREE" if "p \<le> i" "i < p + 2 ^ ?k" for i
      proof -
        have "i - p < 2 ^ ?k" "i = p + (i - p)" using that by auto
        then show ?thesis using k(4) unfolding all_free_def by (metis atLeastLessThan_iff set_upt zero_le)
      qed
      have "{i. p + 2 ^ ?k \<le> i \<and> i < g_nframes s \<and> fstate ?s i = FRAME_FREE} \<union> {p..<p + 2 ^ ?k}
          = {i. p \<le> i \<and> i < g_nframes s \<and> fstate s i = FRAME_FREE}"
        using bb(3) af k(2) by (auto simp: not_le) 
      then show ?thesis
        using "1.IH"(2)[OF p _ refl refl refl refl bb(1)] True bb(2,4,5) unfolding e by auto
    qed
  qed
qed

lemma g_nframes_pmm_build: "g_nframes (pmm_build s p) = g_nframes s"
proof (induction s p rule: pmm_build.induct)
  case (1 s p)
  then show ?case by (subst pmm_build.simps) (auto simp: Let_def)
qed

text \<open>Setting frame states keeps the shape of an unbuilt allocator.\<close>

definition unbuilt :: "pmm \<Rightarrow> pmm \<Rightarrow> bool" where
  "unbuilt s s' \<longleftrightarrow> length (g_frames s') = length (g_frames s) \<and> g_nframes s' = g_nframes s
     \<and> g_phys_base s' = g_phys_base s \<and> g_free_head s' = g_free_head s \<and> g_free_pages s' = g_free_pages s
     \<and> (length (g_frames s) = g_nframes s \<and> raw_from s 0 \<longrightarrow> raw_from s' 0)"

lemma unbuilt_trans: "unbuilt s t \<Longrightarrow> unbuilt t u \<Longrightarrow> unbuilt s u"
  by (simp add: unbuilt_def)

lemma unbuilt_refl [simp]: "unbuilt s s"
  by (simp add: unbuilt_def)

lemma unbuilt_upd: "x = FRAME_FREE \<or> x = FRAME_RESERVED \<Longrightarrow> unbuilt s (upd_frame s p (fr_state_update (\<lambda>_. x)))"
  by (cases "p < length (g_frames s)")
    (auto simp: unbuilt_def raw_from_def upd_frame_def nth_list_update list_update_beyond)

lemma unbuilt_set_free_range: "unbuilt s (set_free_range s p pe)"
proof (induction s p pe rule: set_free_range.induct)
  case (1 s p pe)
  then show ?case
    by (subst set_free_range.simps) (auto intro: unbuilt_trans[OF unbuilt_upd])
qed

lemma unbuilt_reserve_range: "unbuilt s (reserve_range s p pe)"
proof (induction s p pe rule: reserve_range.induct)
  case (1 s p pe)
  then show ?case
    by (subst reserve_range.simps) (auto intro: unbuilt_trans[OF unbuilt_upd])
qed

lemma unbuilt_free_map_frames: "unbuilt s (free_map_frames s ms)"
proof (induction ms arbitrary: s)
  case (Cons m ms)
  then show ?case by (auto simp: Let_def intro: unbuilt_trans[OF unbuilt_set_free_range])
qed simp

lemma reserve_range_state:
  assumes "length (g_frames s) = g_nframes s"
  shows "i < g_nframes s \<Longrightarrow> fstate (reserve_range s p pe) i
     = (if p \<le> i \<and> i < pe then FRAME_RESERVED else fstate s i)"
  using assms
proof (induction s p pe rule: reserve_range.induct)
  case (1 s p pe)
  show ?case
  proof (cases "p < pe \<and> pfn_ok s p")
    case True
    then show ?thesis
      using "1.IH"[OF True] "1.prems" by (subst reserve_range.simps) (auto simp: upd_frame_nth pfn_ok_def)
  next
    case False
    then have "\<not> (p \<le> i \<and> i < pe)" using "1.prems"(1) by (auto simp: pfn_ok_def)
    then show ?thesis using False by (subst reserve_range.simps) auto
  qed
qed

lemma pmm_init_ok:
  assumes r: "pmm_init ram mp kphys ksize = Ret s" and n: "g_nframes s \<le> NIL"
  shows "pmm_inv s" "alloc_set s = {}"
    "pfn_of s (PAGE_ALIGN_DOWN kphys) \<le> i \<Longrightarrow> i < pfn_of s (PAGE_ALIGN_UP (kphys + ksize)) \<Longrightarrow> i \<notin> free_set s"
proof -
  obtain mn0 mx0 where rb: "ram_bounds mp 0xFFFFFFFFFFFFFFFF 0 = (mn0, mx0)" by fastforce
  let ?mn = "PAGE_ALIGN_DOWN mn0" and ?mx = "PAGE_ALIGN_DOWN mx0"
  let ?nf = "drop_bit 12 (?mx - ?mn)"
  let ?n = "unat ?nf" and ?meta = "PAGE_ALIGN_UP (?nf * 8)"
  let ?s0 = "\<lparr>g_frames = replicate ?n \<lparr>fr_order = 0, fr_state = FRAME_RESERVED, fr_next = NIL\<rparr>,
       g_nframes = ?n, g_phys_base = ?mn, g_free_head = replicate PMM_ORDERS NIL,
       g_free_pages = 0, g_total_avail = 0, g_hhdm_live = False,
       g_frames_phys = meta_place mp ?meta, g_ram = ram\<rparr>"
  define s1 where "s1 = free_map_frames ?s0 mp"
  define kpf where "kpf = pfn_of s1 (PAGE_ALIGN_DOWN kphys)"
  define kpe where "kpe = pfn_of s1 (PAGE_ALIGN_UP (kphys + ksize))"
  define s2 where "s2 = reserve_range s1 kpf (if kpe > ?n then ?n mod 2 ^ 32 else kpe)"
  define mpf where "mpf = pfn_of s2 (meta_place mp ?meta)"
  define mpe where "mpe = (mpf + unat (drop_bit PAGE_SHIFT ?meta) mod 2 ^ 32) mod 2 ^ 32"
  define s3 where "s3 = reserve_range s2 mpf mpe"
  have s: "s = pmm_build s3 0"
    using r rb by (auto simp: pmm_init_def Let_def s3_def mpe_def mpf_def s2_def kpe_def kpf_def s1_def
        split: if_splits)
  have u1: "unbuilt ?s0 s1" unfolding s1_def by (rule unbuilt_free_map_frames)
  have u2: "unbuilt s1 s2" unfolding s2_def by (rule unbuilt_reserve_range)
  have u3: "unbuilt s2 s3" unfolding s3_def by (rule unbuilt_reserve_range)
  note u = unbuilt_trans[OF unbuilt_trans[OF u1 u2] u3]
  have raw0: "raw_from ?s0 0" by (simp add: raw_from_def)
  have f3: "length (g_frames s3) = ?n" "g_nframes s3 = ?n" "g_phys_base s3 = ?mn"
    "g_free_head s3 = replicate PMM_ORDERS NIL" "g_free_pages s3 = 0" "raw_from s3 0"
    using u raw0 by (simp_all add: unbuilt_def)
  have emp: "free_frames s3 0 0 = {}" "alloc_blocks s3 0 0 = {}" "free_heads s3 0 0 k = {}" for k
    by (auto simp: free_frames_def alloc_blocks_def free_heads_def)
  have l3: "lists_ok s3 0 {}" unfolding lists_ok_def f3 emp by (auto intro!: exI[of _ "[]"])
  have gn: "g_nframes s = g_nframes s3" unfolding s by (rule g_nframes_pmm_build)
  have "built s3 0" using f3 l3 emp gn n by (simp add: built_def dims_def)
  from pmm_build_ok[OF this, folded s]
  have b: "built s ?n" "g_phys_base s = ?mn" "free_frames s 0 ?n = {i. i < ?n \<and> fstate s3 i = FRAME_FREE}"
    using f3 emp by auto
  have ns: "g_nframes s = ?n" using gn f3 by simp
  show "alloc_set s = {}" using b ns by (simp add: built_def alloc_set_def)
  have "unat ?mn mod 4096 = 0" by (simp add: unat_PAGE_ALIGN_DOWN)
  then show "pmm_inv s" using b ns by (simp add: built_def pmm_inv_def pmm_core_def free_set_def)
  have base: "g_phys_base s1 = g_phys_base s" using u1 b by (simp add: unbuilt_def)
  have kp: "pfn_of s x = pfn_of s1 x" for x by (simp add: pfn_of_def base)
  show "i \<notin> free_set s" if k: "pfn_of s (PAGE_ALIGN_DOWN kphys) \<le> i" "i < pfn_of s (PAGE_ALIGN_UP (kphys + ksize))"
  proof
    assume "i \<in> free_set s"
    then have i: "i < ?n" "fstate s3 i = FRAME_FREE" using b ns by (auto simp: free_set_def)
    have len: "length (g_frames s1) = g_nframes s1" "g_nframes s1 = ?n" "length (g_frames s2) = g_nframes s2" "g_nframes s2 = ?n"
      using u1 u2 by (auto simp: unbuilt_def)
    have "?n mod 2 ^ 32 = ?n" using n ns by (simp add: mod_less)
    then have "fstate s2 i = FRAME_RESERVED"
      using k i len by (auto simp: s2_def reserve_range_state kp kpf_def[symmetric] kpe_def[symmetric])
    then have "fstate s3 i = FRAME_RESERVED" using i(1) len by (simp add: s3_def reserve_range_state)
    then show False using i by simp
  qed
qed

section \<open>The page allocator as an interface\<close>

definition page_range :: "phys_t \<Rightarrow> nat \<Rightarrow> phys_t set" where
  "page_range a k = {a + of_nat i |i. i < 4096 * 2 ^ k}"

text \<open>
  What the rest of the kernel relies on: the state owns a set of disjoint,
  page-aligned blocks; a successful allocation adds one, a release of an owned
  block removes it, and a failed allocation changes nothing.
\<close>

locale page_allocator =
  fixes inv :: "'s \<Rightarrow> bool"
    and owned :: "'s \<Rightarrow> (phys_t \<times> nat) set"
    and palloc :: "'s \<Rightarrow> nat \<Rightarrow> u32 \<Rightarrow> 's \<times> phys_t"
    and pfree :: "'s \<Rightarrow> phys_t \<Rightarrow> nat \<Rightarrow> 's outcome"
  assumes alloc_ok: "inv s \<Longrightarrow> k \<le> PMM_MAX_ORDER \<Longrightarrow> palloc s k f = (s', pa) \<Longrightarrow> pa \<noteq> PMM_INVALID \<Longrightarrow>
      inv s' \<and> owned s' = insert (pa, k) (owned s) \<and> pa \<notin> fst ` owned s"
    and alloc_failed: "inv s \<Longrightarrow> k \<le> PMM_MAX_ORDER \<Longrightarrow> palloc s k f = (s', PMM_INVALID) \<Longrightarrow> s' = s"
    and free_ok: "inv s \<Longrightarrow> (pa, k) \<in> owned s \<Longrightarrow>
      \<exists>s'. pfree s pa k = Ret s' \<and> inv s' \<and> owned s' = owned s - {(pa, k)}"
    and owned_disjoint: "inv s \<Longrightarrow> (a, k) \<in> owned s \<Longrightarrow> (b, j) \<in> owned s \<Longrightarrow> (a, k) \<noteq> (b, j) \<Longrightarrow>
      page_range a k \<inter> page_range b j = {}"
    and owned_valid: "inv s \<Longrightarrow> (a, k) \<in> owned s \<Longrightarrow>
      unat a mod 4096 = 0 \<and> a \<noteq> PMM_INVALID \<and> k \<le> PMM_MAX_ORDER"
begin

lemma alloc_inv: "inv s \<Longrightarrow> k \<le> PMM_MAX_ORDER \<Longrightarrow> palloc s k f = (s', pa) \<Longrightarrow> inv s'"
  using alloc_ok[of s k f s' pa] alloc_failed[of s k f s'] by (cases "pa = PMM_INVALID") auto

lemma alloc_fresh:
  assumes "inv s" "k \<le> PMM_MAX_ORDER" "palloc s k f = (s', pa)" "pa \<noteq> PMM_INVALID" "(b, j) \<in> owned s"
  shows "page_range pa k \<inter> page_range b j = {}"
proof -
  have "inv s'" "owned s' = insert (pa, k) (owned s)" "pa \<noteq> b"
    using alloc_ok[OF assms(1-4)] assms(5) by force+
  then show ?thesis using owned_disjoint[of s' pa k b j] assms(5) by auto
qed

lemma alloc_free_roundtrip:
  assumes "inv s" "k \<le> PMM_MAX_ORDER" "palloc s k f = (s', pa)" "pa \<noteq> PMM_INVALID"
  shows "\<exists>s''. pfree s' pa k = Ret s'' \<and> inv s'' \<and> owned s'' = owned s"
proof -
  have "inv s'" "owned s' = insert (pa, k) (owned s)" "pa \<notin> fst ` owned s"
    using alloc_ok[OF assms] by auto
  moreover from this have "(pa, k) \<notin> owned s" by force
  ultimately show ?thesis using free_ok[of s' pa k] by auto
qed

end

definition pmm_owned :: "pmm \<Rightarrow> (phys_t \<times> nat) set" where
  "pmm_owned s = (\<lambda>(h, k, x). (phys_of s h, k)) ` alloc_set s"

lemma alloc_set_disjoint:
  assumes c: "pmm_core s D" and a: "(p, k, x) \<in> alloc_set s" "(q, j, y) \<in> alloc_set s" "p \<noteq> q"
  shows "{p..<p + 2 ^ k} \<inter> {q..<q + 2 ^ j} = {}"
proof -
  have *: "\<not> (u \<le> i \<and> i < u + 2 ^ m \<and> v \<le> i \<and> i < v + 2 ^ l)"
    if "(u, m, z) \<in> alloc_set s" "(v, l, w) \<in> alloc_set s" "u < v" for u m z v l w i
  proof
    assume i: "u \<le> i \<and> i < u + 2 ^ m \<and> v \<le> i \<and> i < v + 2 ^ l"
    have "fstate s v = FRAME_TAIL"
      using alloc_set_block(2)[OF c that(1)] that(3) i by (auto simp: one_block_def)
    then show False using alloc_set_block(2,3)[OF c that(2)] by (auto simp: one_block_def)
  qed
  show ?thesis
  proof (rule equals0I)
    fix i assume "i \<in> {p..<p + 2 ^ k} \<inter> {q..<q + 2 ^ j}"
    then have i: "p \<le> i" "i < p + 2 ^ k" "q \<le> i" "i < q + 2 ^ j" by auto
    show False
    proof (cases "p < q")
      case True
      then show ?thesis using *[OF a(1,2), of i] i by simp
    next
      case False
      then have "q < p" using a(3) by simp
      then show ?thesis using *[OF a(2,1), of i] i by simp
    qed
  qed
qed

lemma phys_of_nat: "phys_of s p = g_phys_base s + of_nat (p * 4096)"
  by (simp add: phys_of_def push_bit_eq_mult)

lemma page_range_frames:
  assumes "x \<in> page_range (phys_of s p) k" "p + 2 ^ k \<le> NIL"
  obtains i where "p * 4096 \<le> i" "i < (p + 2 ^ k) * 4096" "x = g_phys_base s + of_nat i" "i < 2 ^ 64"
proof -
  obtain j where j: "x = phys_of s p + of_nat j" "j < 4096 * 2 ^ k"
    using assms(1) by (auto simp: page_range_def)
  have "x = g_phys_base s + of_nat (p * 4096 + j)" using j by (simp add: phys_of_nat)
  moreover have "p * 4096 + j < (p + 2 ^ k) * 4096" using j by (simp add: algebra_simps)
  moreover from this assms(2) have "p * 4096 + j < 2 ^ 64" by simp
  ultimately show thesis using that by (metis le_add1)
qed

lemma phys_of_inj:
  assumes "phys_of s p = phys_of s q" "p < 2 ^ 32" "q < 2 ^ 32" shows "p = q"
proof -
  have "p = pfn_of s (phys_of s p)" by (rule pfn_of_phys_of[OF assms(2), symmetric])
  also have "\<dots> = pfn_of s (phys_of s q)" by (simp only: assms(1))
  also have "\<dots> = q" by (rule pfn_of_phys_of[OF assms(3)])
  finally show ?thesis .
qed

lemma pmm_owned_disjoint:
  assumes i: "pmm_inv s" and a: "(a, k) \<in> pmm_owned s" "(b, j) \<in> pmm_owned s" "(a, k) \<noteq> (b, j)"
  shows "page_range a k \<inter> page_range b j = {}"
proof -
  have c: "pmm_core s {}" using i by (simp add: pmm_inv_def)
  obtain p x where p: "(p, k, x) \<in> alloc_set s" "a = phys_of s p" using a(1) by (auto simp: pmm_owned_def)
  obtain q y where q: "(q, j, y) \<in> alloc_set s" "b = phys_of s q" using a(2) by (auto simp: pmm_owned_def)
  have pq: "p \<noteq> q" using p q a(3) by (auto simp: alloc_set_def alloc_blocks_def)
  have bd: "u + 2 ^ m \<le> NIL" if "(u, m, z) \<in> alloc_set s" for u m z
  proof -
    have "is_head z" using alloc_set_block(3)[OF c that] by auto
    then show ?thesis
      using core_block(4)[OF c alloc_set_block(2)[OF c that] _ alloc_set_block(1)[OF c that]]
        core_frames_bound[OF c] by simp
  qed
  show ?thesis
  proof (rule ccontr)
    assume "page_range a k \<inter> page_range b j \<noteq> {}"
    then obtain x where x: "x \<in> page_range (phys_of s p) k" "x \<in> page_range (phys_of s q) j"
      using p q by auto
    obtain u where u: "p * 4096 \<le> u" "u < (p + 2 ^ k) * 4096" "x = g_phys_base s + of_nat u" "u < 2 ^ 64"
      using x(1) bd[OF p(1)] by (rule page_range_frames)
    obtain v where v: "q * 4096 \<le> v" "v < (q + 2 ^ j) * 4096" "x = g_phys_base s + of_nat v" "v < 2 ^ 64"
      using x(2) bd[OF q(1)] by (rule page_range_frames)
    have "(of_nat u :: u64) = of_nat v" using u(3) v(3) by simp
    then have "unat (of_nat u :: u64) = unat (of_nat v :: u64)" by simp
    then have uv: "u = v" using u(4) v(4) by (simp add: unat_of_nat)
    have "p \<le> u div 4096" "u div 4096 < p + 2 ^ k" "q \<le> u div 4096" "u div 4096 < q + 2 ^ j"
      using u(1,2) v(1,2) uv
      by (simp_all add: less_eq_div_iff_mult_less_eq less_mult_imp_div_less del: power.simps)
    then have "u div 4096 \<in> {p..<p + 2 ^ k} \<inter> {q..<q + 2 ^ j}" by simp
    then show False using alloc_set_disjoint[OF c p(1) q(1) pq] by auto
  qed
qed

lemma pmm_owned_inj:
  assumes c: "pmm_core s D" shows "inj_on (\<lambda>(h, k, x). (phys_of s h, k)) (alloc_set s)"
proof (rule inj_onI, clarify)
  fix p k x q j y
  assume a: "(p, k, x) \<in> alloc_set s" "(q, j, y) \<in> alloc_set s" and e: "phys_of s p = phys_of s q"
  have "p < 2 ^ 32" "q < 2 ^ 32"
    using alloc_set_block(1)[OF c a(1)] alloc_set_block(1)[OF c a(2)] core_frames_bound[OF c] by simp_all
  then have "p = q" by (rule phys_of_inj[OF e])
  then show "p = q \<and> (k, x) = (j, y)" using a by (simp add: alloc_set_def alloc_blocks_def)
qed

interpretation pmm: page_allocator pmm_inv pmm_owned pmm_alloc pmm_free
proof (unfold_locales, goal_cases)
  case (1 s k f s' pa)
  note al = 1
  have c: "pmm_core s {}" using al(1) by (simp add: pmm_inv_def)
  show ?case
    using al(1,2)
  proof (cases rule: pmm_alloc_cases[where flags = f])
    case fail
    then show ?thesis using al(3,4) by simp
  next
    case (ok t p)
    have e: "s' = t" "pa = phys_of s p" using ok(1) al(3) by auto
    have ph: "phys_of t = phys_of s" using ok(10) by (simp add: fun_eq_iff phys_of_def)
    have ne: "phys_of s p \<noteq> phys_of s q" if "(q, j, x) \<in> alloc_set s" for q j x
    proof
      assume "phys_of s p = phys_of s q"
      moreover have "p < 2 ^ 32" "q < 2 ^ 32"
        using ok(3) alloc_set_block(1)[OF c that] core_frames_bound[OF c] by (simp_all add: order_less_le_trans)
      ultimately have "p = q" by (rule phys_of_inj)
      then show False using ok(8) that by force
    qed
    have "pmm_owned t = insert (phys_of s p, k) (pmm_owned s)"
      using ok(7) by (simp add: pmm_owned_def ph)
    moreover have "phys_of s p \<notin> fst ` pmm_owned s" using ne by (fastforce simp: pmm_owned_def)
    ultimately show ?thesis using ok(2) by (simp add: e)
  qed
next
  case (2 s k f s')
  note al = 2
  show ?case
    using al(1,2)
  proof (cases rule: pmm_alloc_cases[where flags = f])
    case fail
    then show ?thesis using al(3) by simp
  next
    case (ok t p)
    have "p < 2 ^ 32" using ok(3) al(1) by (simp add: pmm_inv_def pmm_core_def dims_def order_less_le_trans)
    then have "phys_of s p \<noteq> PMM_INVALID" using al(1) by (intro phys_of_valid) (simp_all add: pmm_inv_def)
    then show ?thesis using ok(1) al(3) by simp
  qed
next
  case (3 s pa k)
  have c: "pmm_core s {}" using 3(1) by (simp add: pmm_inv_def)
  obtain p x where p: "(p, k, x) \<in> alloc_set s" "pa = phys_of s p" using 3(2) by (auto simp: pmm_owned_def)
  obtain s' where s': "pmm_free s (phys_of s p) k = Ret s'" "pmm_inv s'"
    "alloc_set s' = alloc_set s - {(p, k, x)}" "g_phys_base s' = g_phys_base s"
    using pmm_free_ok[OF 3(1) p(1)] by metis
  have ph: "phys_of s' = phys_of s" using s'(4) by (simp add: fun_eq_iff phys_of_def)
  have "pmm_owned s' = pmm_owned s - {(pa, k)}"
    unfolding pmm_owned_def s'(3) ph p(2) using p(1) pmm_owned_inj[OF c]
    by (subst inj_on_image_set_diff[of _ "alloc_set s"]) auto
  then show ?case using s' p(2) by auto
next
  case (4 s a k b j)
  then show ?case by (rule pmm_owned_disjoint)
next
  case (5 s a k)
  have c: "pmm_core s {}" "unat (g_phys_base s) mod 4096 = 0" using 5(1) by (auto simp: pmm_inv_def)
  obtain p x where p: "(p, k, x) \<in> alloc_set s" "a = phys_of s p" using 5(2) by (auto simp: pmm_owned_def)
  have "p < 2 ^ 32" using alloc_set_block(1)[OF c(1) p(1)] core_frames_bound[OF c(1)] by simp
  then show ?case using phys_of_valid[OF c(2)] p(2) alloc_set_block(4)[OF c(1) p(1)] by simp
qed

section \<open>Runs of the allocator\<close>

text \<open>
  Any sequence of allocations and releases of owned blocks, and the switch of
  the frame array to the higher half.
\<close>

inductive pmm_step :: "pmm \<Rightarrow> pmm \<Rightarrow> bool" where
  step_alloc: "pmm_alloc s k f = (s', pa) \<Longrightarrow> pmm_step s s'"
| step_free: "(pa, k) \<in> pmm_owned s \<Longrightarrow> pmm_free s pa k = Ret s' \<Longrightarrow> pmm_step s s'"
| step_hhdm: "pmm_step s (pmm_enter_hhdm s)"

inductive pmm_run :: "pmm \<Rightarrow> pmm \<Rightarrow> bool" where
  run_refl: "pmm_run s s"
| run_step: "pmm_run s t \<Longrightarrow> pmm_step t u \<Longrightarrow> pmm_run s u"

definition managed :: "pmm \<Rightarrow> nat set" where
  "managed s = free_set s \<union> (\<Union>(h, k, x) \<in> alloc_set s. {h..<h + 2 ^ k})"

lemma hhdm_inv [simp]:
  "pmm_inv (pmm_enter_hhdm s) = pmm_inv s" "managed (pmm_enter_hhdm s) = managed s"
  "pmm_owned (pmm_enter_hhdm s) = pmm_owned s" "g_nframes (pmm_enter_hhdm s) = g_nframes s"
  by (simp_all add: pmm_enter_hhdm_def pmm_inv_def pmm_core_def dims_def region_def block_ok_def lists_ok_def
      free_heads_def free_set_def free_frames_def alloc_set_def alloc_blocks_def managed_def pmm_owned_def
      phys_of_def)

lemma pmm_step_inv:
  assumes i: "pmm_inv s" and st: "pmm_step s s'"
  shows "pmm_inv s' \<and> managed s' = managed s"
  using st
proof cases
  case (step_alloc k f pa)
  show ?thesis
  proof (cases "k \<le> PMM_MAX_ORDER")
    case False
    then have "s' = s" using step_alloc by (simp add: pmm_alloc_def)
    then show ?thesis using i by simp
  next
    case True
    from i True show ?thesis
    proof (cases rule: pmm_alloc_cases[where flags = f])
      case fail
      then show ?thesis using i step_alloc by simp
    next
      case (ok t p)
      have t: "s' = t" using ok(1) step_alloc by simp
      have "managed t = managed s" using ok(5,6,7) by (auto simp: managed_def)
      then show ?thesis using ok(2) t by simp
    qed
  qed
next
  case (step_free pa k)
  obtain p x where p: "(p, k, x) \<in> alloc_set s" "pa = phys_of s p" using step_free(1) by (auto simp: pmm_owned_def)
  obtain t where t: "pmm_free s (phys_of s p) k = Ret t" "pmm_inv t"
    "free_set t = free_set s \<union> {p..<p + 2 ^ k}" "alloc_set t = alloc_set s - {(p, k, x)}"
    using pmm_free_ok[OF i p(1)] by metis
  have "s' = t" using t(1) step_free(2) p(2) by simp
  moreover have "managed t = managed s"
  proof -
    have "(\<Union>(h, k, x) \<in> alloc_set s. {h..<h + 2 ^ k})
        = {p..<p + 2 ^ k} \<union> (\<Union>(h, k, x) \<in> alloc_set t. {h..<h + 2 ^ k})"
      using p(1) t(4) by fastforce
    then show ?thesis using t(3) by (auto simp: managed_def)
  qed
  ultimately show ?thesis using t(2) by simp
next
  case step_hhdm
  then show ?thesis using i by simp
qed

lemma pmm_run_inv: "pmm_run s s' \<Longrightarrow> pmm_inv s \<Longrightarrow> pmm_inv s' \<and> managed s' = managed s"
  by (induction rule: pmm_run.induct) (auto dest: pmm_step_inv)

lemma free_set_state:
  assumes c: "pmm_core s D" and i: "i \<in> free_set s"
  shows "i < g_nframes s" "fstate s i = FRAME_FREE \<or> fstate s i = FRAME_TAIL"
proof -
  obtain h where h: "h < g_nframes s" "fstate s h = FRAME_FREE" "h \<le> i" "i < h + 2 ^ forder s h"
    using i by (auto simp: free_set_def free_frames_def)
  have r: "region s 0 (g_nframes s)" using c by (simp add: pmm_core_def)
  have "one_block s h (forder s h) (fstate s h)" using region_one_block(1)[OF r _ h(1)] h(2) by simp
  then show "fstate s i = FRAME_FREE \<or> fstate s i = FRAME_TAIL"
    using h by (cases "i = h") (auto simp: one_block_def)
  show "i < g_nframes s" using free_set_bound[OF c] i by auto
qed

section \<open>A small concrete allocator\<close>

definition demo_raw :: pmm where
  "demo_raw = \<lparr>g_frames = [\<lparr>fr_order = 0, fr_state = FRAME_FREE, fr_next = NIL\<rparr>,
                          \<lparr>fr_order = 0, fr_state = FRAME_FREE, fr_next = NIL\<rparr>],
     g_nframes = 2, g_phys_base = 0x100000,
     g_free_head = [NIL, NIL, NIL, NIL, NIL, NIL, NIL, NIL, NIL, NIL, NIL, NIL, NIL, NIL, NIL, NIL, NIL, NIL, NIL],
     g_free_pages = 0, g_total_avail = 0, g_hhdm_live = True, g_frames_phys = 0x200000, g_ram = (\<lambda>_. 0)\<rparr>"

definition demo_pmm :: pmm where
  "demo_pmm = pmm_build demo_raw 0"

lemmas pmm_eval = pmm_build.simps grow_order.simps all_free_def mark_block_def mark_tails.simps upd_frame_def
  list_push_def list_pop_def pmm_alloc_def find_order.simps pmm_split.simps pmm_free_def
  pmm_coalesce.simps pmm_list_remove_def list_remove_loop.simps pfn_ok_def pfn_of_def phys_of_def
  Let_def upt_rec

lemma demo_pmm_inv: "pmm_inv demo_pmm"
proof -
  have "lists_ok demo_raw 0 {}"
    unfolding lists_ok_def free_heads_def demo_raw_def
    by (auto intro!: exI[of _ "[]"] simp: nth_Cons split: nat.splits)
  then have "built demo_raw 0"
    by (auto simp: built_def dims_def raw_from_def free_frames_def alloc_blocks_def demo_raw_def less_Suc_eq numeral_2_eq_2)
  from pmm_build_ok[OF this] show ?thesis
    unfolding demo_pmm_def by (auto simp: pmm_inv_def built_def pmm_core_def free_set_def demo_raw_def)
qed

lemma demo_pmm_eq: "demo_pmm = demo_raw\<lparr>g_frames := [\<lparr>fr_order = 1, fr_state = FRAME_FREE, fr_next = NIL\<rparr>,
    \<lparr>fr_order = 1, fr_state = FRAME_TAIL, fr_next = NIL\<rparr>],
  g_free_head := (g_free_head demo_raw)[1 := 0], g_free_pages := 2, g_total_avail := 2\<rparr>"
  unfolding demo_pmm_def demo_raw_def by (simp add: pmm_eval)

definition demo_alloc :: pmm where
  "demo_alloc = fst (pmm_alloc demo_pmm 0 PMM_KERNEL)"

lemma demo_alloc_inv: "pmm_inv demo_alloc"
  unfolding demo_alloc_def
  by (rule pmm.alloc_inv[OF demo_pmm_inv _ prod.collapse[symmetric]]) simp

lemma demo_alloc_eq: "demo_alloc = demo_raw\<lparr>g_frames := [\<lparr>fr_order = 0, fr_state = FRAME_KERNEL, fr_next = NIL\<rparr>,
    \<lparr>fr_order = 0, fr_state = FRAME_FREE, fr_next = NIL\<rparr>],
  g_free_head := (g_free_head demo_raw)[0 := 1], g_free_pages := 1, g_total_avail := 2\<rparr>"
  unfolding demo_alloc_def demo_pmm_eq unfolding demo_raw_def by (simp add: pmm_eval)

lemma demo_alloc_block: "(0, 0, FRAME_KERNEL) \<in> alloc_set demo_alloc"
  by (simp add: alloc_set_def alloc_blocks_def demo_alloc_eq demo_raw_def)

definition demo_map :: "mmap_entry list" where
  "demo_map = [\<lparr>mm_base = 0, mm_length = 0x9FC00, mm_type = 1\<rparr>,
               \<lparr>mm_base = 0x9FC00, mm_length = 0x60400, mm_type = 2\<rparr>,
               \<lparr>mm_base = 0x100000, mm_length = 0x3F00000, mm_type = 1\<rparr>]"

lemma g_nframes_unbuilt [simp]:
  "g_nframes (reserve_range s p pe) = g_nframes s" "g_nframes (free_map_frames s ms) = g_nframes s"
  using unbuilt_reserve_range[of s p pe] unbuilt_free_map_frames[of s ms] by (simp_all add: unbuilt_def)

lemma demo_init:
  obtains s where "pmm_init (\<lambda>_. 0) demo_map 0x100000 0x40000 = Ret s" "g_nframes s \<le> NIL"
proof -
  have b: "ram_bounds demo_map 0xFFFFFFFFFFFFFFFF 0 = (0, 0x4000000)" by code_simp
  have a: "PAGE_ALIGN_DOWN 0 = 0" "PAGE_ALIGN_DOWN 0x4000000 = 0x4000000"
    "drop_bit 12 (0x4000000::u64) = 0x4000" by code_simp+
  have m: "meta_place demo_map (PAGE_ALIGN_UP 0x20000) = 0x100000" by code_simp
  show thesis
  proof (cases "pmm_init (\<lambda>_. 0) demo_map 0x100000 0x40000")
    case (Ret s)
    then have "g_nframes s = 0x4000"
      by (auto simp: pmm_init_def b a m Let_def g_nframes_pmm_build)
    then show ?thesis using Ret that by simp
  qed (simp_all add: pmm_init_def b a m Let_def)
qed

section \<open>Properties\<close>

text \<open>C1. Allocation refines the abstract allocator: from an invariant state,
  \<open>pmm_alloc\<close> either returns \<open>PMM_INVALID\<close>, unchanged, when no free block of the
  requested order or above exists, or claims an aligned block of free frames.\<close>

theorem pmm_alloc_refines:
  assumes "pmm_inv s" "order \<le> PMM_MAX_ORDER"
  shows "case pmm_alloc s order flags of (s', pa) \<Rightarrow>
    if pa = PMM_INVALID
    then s' = s \<and> (\<forall>k. order \<le> k \<longrightarrow> free_heads s 0 (g_nframes s) k = {})
    else (\<exists>p. pa = phys_of s p \<and> p mod 2 ^ order = 0 \<and> {p..<p + 2 ^ order} \<subseteq> free_set s
      \<and> free_set s' = free_set s - {p..<p + 2 ^ order}
      \<and> alloc_set s' = insert (p, order, alloc_state flags) (alloc_set s)
      \<and> pmm_inv s')"
  using assms
proof (cases rule: pmm_alloc_cases[where flags = flags])
  case fail
  then show ?thesis by simp
next
  case (ok s' p)
  have "p < 2 ^ 32" using ok(3) assms(1) by (simp add: pmm_inv_def pmm_core_def dims_def order_less_le_trans)
  then have "phys_of s p \<noteq> PMM_INVALID" using assms(1) by (intro phys_of_valid) (simp_all add: pmm_inv_def)
  then show ?thesis using ok by auto
qed

theorem pmm_alloc_refines_witness:
  "case pmm_alloc demo_pmm 1 PMM_KERNEL of (s', pa) \<Rightarrow>
    if pa = PMM_INVALID
    then s' = demo_pmm \<and> (\<forall>k. 1 \<le> k \<longrightarrow> free_heads demo_pmm 0 (g_nframes demo_pmm) k = {})
    else (\<exists>p. pa = phys_of demo_pmm p \<and> p mod 2 ^ 1 = 0 \<and> {p..<p + 2 ^ 1} \<subseteq> free_set demo_pmm
      \<and> free_set s' = free_set demo_pmm - {p..<p + 2 ^ 1}
      \<and> alloc_set s' = insert (p, 1, alloc_state PMM_KERNEL) (alloc_set demo_pmm)
      \<and> pmm_inv s')"
  by (rule pmm_alloc_refines[OF demo_pmm_inv]) simp

text \<open>C2. Release refines the abstract allocator: freeing an allocated block with
  its own order always returns, gives exactly its frames back and keeps the
  invariant, whatever blocks it coalesces with.\<close>

theorem pmm_free_refines:
  assumes "pmm_inv s" "(p, k, x) \<in> alloc_set s"
  shows "\<exists>s'. pmm_free s (phys_of s p) k = Ret s' \<and> pmm_inv s'
    \<and> free_set s' = free_set s \<union> {p..<p + 2 ^ k} \<and> {p..<p + 2 ^ k} \<inter> free_set s = {}
    \<and> alloc_set s' = alloc_set s - {(p, k, x)}"
  using pmm_free_ok[OF assms] by metis

theorem pmm_free_refines_witness:
  "\<exists>s'. pmm_free demo_alloc (phys_of demo_alloc 0) 0 = Ret s' \<and> pmm_inv s'
    \<and> free_set s' = free_set demo_alloc \<union> {0..<0 + 2 ^ 0} \<and> {0..<0 + 2 ^ 0} \<inter> free_set demo_alloc = {}
    \<and> alloc_set s' = alloc_set demo_alloc - {(0, 0, FRAME_KERNEL)}"
  by (rule pmm_free_refines[OF demo_alloc_inv demo_alloc_block])





text \<open>Releasing the same block twice stops the machine: after a release the
  block's first frame is free or the tail of a larger free block, and the second
  release panics.\<close>

theorem pmm_double_free_panics:
  assumes "pmm_inv s" "(p, k, x) \<in> alloc_set s" "pmm_free s (phys_of s p) k = Ret s'"
  shows "pmm_free s' (phys_of s p) k = Panic ''pmm: free of non-head pfn''"
proof -
  have c: "pmm_core s {}" using assms(1) by (simp add: pmm_inv_def)
  obtain t where t: "pmm_free s (phys_of s p) k = Ret t" "pmm_inv t"
    "free_set t = free_set s \<union> {p..<p + 2 ^ k}" "g_phys_base t = g_phys_base s"
    using pmm_free_ok[OF assms(1,2)] by metis
  have s': "s' = t" using t(1) assms(3) by simp
  have ct: "pmm_core s' {}" and al: "unat (g_phys_base s) mod 4096 = 0"
    using t(2) s' assms(1) by (auto simp: pmm_inv_def)
  have p: "p < 2 ^ 32" "k \<le> PMM_MAX_ORDER"
    using alloc_set_block(1,4)[OF c assms(2)] core_frames_bound[OF c] by simp_all
  have "p \<in> free_set s'" using t(3) s' by simp
  note st = free_set_state(2)[OF ct this]
  have "phys_of s p = phys_of s' p" using t(4) s' by (simp add: phys_of_def)
  then have "pfn_of s' (phys_of s p) = p" using pfn_of_phys_of[OF p(1)] by simp
  then show ?thesis using st p(2) phys_of_valid(1)[OF al p(1)] by (auto simp: pmm_free_def Let_def)
qed

theorem pmm_double_free_panics_witness:
  "\<exists>s'. pmm_free demo_alloc (phys_of demo_alloc 0) 0 = Ret s'
    \<and> pmm_free s' (phys_of demo_alloc 0) 0 = Panic ''pmm: free of non-head pfn''"
proof -
  obtain s' where s': "pmm_free demo_alloc (phys_of demo_alloc 0) 0 = Ret s'"
    using pmm_free_ok[OF demo_alloc_inv demo_alloc_block] by metis
  then show ?thesis using pmm_double_free_panics[OF demo_alloc_inv demo_alloc_block s'] by blast
qed

text \<open>\<open>pmm_free\<close> does not validate the order against the frame: releasing one
  allocated page with order 1 also frees the next page, which its owner still
  holds.\<close>

theorem pmm_free_order_unchecked:
  "let s = fst (pmm_alloc demo_alloc 0 PMM_KERNEL) in
   fstate s 0 = FRAME_KERNEL \<and> forder s 0 = 0 \<and> fstate s 1 = FRAME_KERNEL \<and>
   (case pmm_free s (phys_of s 0) 1 of
      Ret s' \<Rightarrow> fstate s' 1 = FRAME_TAIL \<and> g_free_pages s' = g_free_pages s + 2
    | _ \<Rightarrow> False)"
  unfolding demo_alloc_eq demo_raw_def by (simp add: pmm_eval)

end
