(* ===== verification/Heap.thy ===== *)
theory Heap
  imports Pmm_Correct
begin

text \<open>
  The kernel slab heap, \<^verbatim>\<open>kernel/mm/heap.c\<close>: nine size classes of slabs with a
  free bitmap, large allocations with a page-sized header, poisoning, and the
  pointer classification of \<open>kfree\<close>.  A slab is identified by the page block it
  occupies; the singly linked lists of slabs are HOL lists, head first.
\<close>

section \<open>Data\<close>

definition SLAB_MAGIC :: u32 where "SLAB_MAGIC = 0x514C4142"
definition POISON_FREE :: u8 where "POISON_FREE = 0xDB"
definition POISON_UNINIT :: u8 where "POISON_UNINIT = 0xAA"

abbreviation (input) HEAP_CLASSES :: nat where "HEAP_CLASSES \<equiv> 9"

definition k_sizes :: "nat list" where
  "k_sizes = [16, 32, 64, 128, 256, 512, 1024, 2048, 4096]"

text \<open>\<open>sizeof(slab_t)\<close> is 56 on x86-64: four 32-bit fields, four pointers, 32-bit pages, a flag, padding.\<close>

definition sizeof_slab :: nat where "sizeof_slab = 56"

record slab =
  sl_magic :: u32
  sl_size :: nat
  sl_objects :: nat
  sl_free_count :: nat
  sl_base :: u64
  sl_bitmap :: "u8 list"
  sl_phys :: phys_t
  sl_pages :: nat
  sl_large :: bool

record kheap =
  h_pmm :: pmm
  g_classes :: "slab list list"
  g_large :: "slab list"
  g_used :: u64
  g_heap_up :: bool

section \<open>Operations\<close>

fun class_loop :: "nat list \<Rightarrow> nat \<Rightarrow> nat \<Rightarrow> nat option" where
  "class_loop [] i n = None"
| "class_loop (k # ks) i n = (if n \<le> k then Some i else class_loop ks (Suc i) n)"

definition class_of :: "nat \<Rightarrow> nat option" where
  "class_of n = class_loop k_sizes 0 n"

definition bitmap_set :: "u8 list \<Rightarrow> nat \<Rightarrow> bool \<Rightarrow> u8 list" where
  "bitmap_set bm i free =
     (if free then bm[i div 8 := (bm ! (i div 8)) OR push_bit (i mod 8) 1]
      else bm[i div 8 := (bm ! (i div 8)) AND NOT (push_bit (i mod 8) 1)])"

definition bitmap_get :: "u8 list \<Rightarrow> nat \<Rightarrow> bool" where
  "bitmap_get bm i \<longleftrightarrow> drop_bit (i mod 8) (bm ! (i div 8)) AND 1 = 1"

definition heap_fill :: "kheap \<Rightarrow> u64 \<Rightarrow> nat \<Rightarrow> u8 \<Rightarrow> kheap" where
  "heap_fill h p len v =
     h\<lparr>h_pmm := (h_pmm h)\<lparr>g_ram := (\<lambda>a. if unat (a - (p - HHDM_BASE)) < len then v
                                       else g_ram (h_pmm h) a)\<rparr>\<rparr>"

text \<open>The bitmap grows downwards from the first object; it must not reach the header.\<close>

function shrink_objects :: "nat \<Rightarrow> nat \<Rightarrow> nat" where
  "shrink_objects header objects =
     (if header - (objects + 7) div 8 < sizeof_slab \<and> objects > 1
      then shrink_objects header (objects - 1) else objects)"
  by pat_completeness auto
termination by (relation "measure snd") auto

declare shrink_objects.simps [simp del]

definition slab_header :: nat where
  "slab_header = (sizeof_slab + 64 + 15) div 16 * 16"

definition slab_pages :: "nat \<Rightarrow> nat" where
  "slab_pages sz = (if sz \<ge> 1024 then 2 else 1)"

definition slab_new :: "kheap \<Rightarrow> nat \<Rightarrow> (kheap \<times> slab option) outcome" where
  "slab_new h sz =
     (let pages = slab_pages sz;
          order = (if pages = 1 then 0 else 1);
          (pm, pa) = pmm_alloc (h_pmm h) order (PMM_KERNEL OR PMM_ZERO);
          h1 = h\<lparr>h_pmm := pm\<rparr>
      in if pa = PMM_INVALID then Ret (h1, None)
         else let objects = (pages * 4096 - slab_header) div sz
              in if objects = 0
                 then bind_outcome (pmm_free pm pa order) (\<lambda>pm'. Ret (h1\<lparr>h_pmm := pm'\<rparr>, None))
                 else let objects = shrink_objects slab_header objects
                      in Ret (h1, Some \<lparr>sl_magic = SLAB_MAGIC, sl_size = sz, sl_objects = objects,
                           sl_free_count = objects, sl_base = HHDM_BASE + pa + of_nat slab_header,
                           sl_bitmap = replicate ((objects + 7) div 8) 0xFF, sl_phys = pa,
                           sl_pages = pages, sl_large = False\<rparr>))"

definition heap_init :: "pmm \<Rightarrow> kheap" where
  "heap_init pm = \<lparr>h_pmm = pm, g_classes = replicate HEAP_CLASSES [], g_large = [], g_used = 0, g_heap_up = True\<rparr>"

text \<open>The first slab with a free object, by its place in the class list.\<close>

fun first_avail :: "slab list \<Rightarrow> nat option" where
  "first_avail [] = None"
| "first_avail (s # ss) = (if sl_free_count s = 0 then map_option Suc (first_avail ss) else Some 0)"

function first_bit :: "u8 list \<Rightarrow> nat \<Rightarrow> nat \<Rightarrow> nat option" where
  "first_bit bm objects i =
     (if i < objects then if bitmap_get bm i then Some i else first_bit bm objects (Suc i) else None)"
  by pat_completeness auto
termination by (relation "measure (\<lambda>(bm, n, i). n - i)") auto

declare first_bit.simps [simp del]

definition put_slab :: "kheap \<Rightarrow> nat \<Rightarrow> nat \<Rightarrow> slab \<Rightarrow> kheap" where
  "put_slab h c j s = h\<lparr>g_classes := (g_classes h)[c := (g_classes h ! c)[j := s]]\<rparr>"

definition slab_take :: "kheap \<Rightarrow> nat \<Rightarrow> nat \<Rightarrow> kheap \<times> u64" where
  "slab_take h c j =
     (let s = g_classes h ! c ! j
      in case first_bit (sl_bitmap s) (sl_objects s) 0 of
           None \<Rightarrow> (h, 0)
         | Some i \<Rightarrow>
             let s' = s\<lparr>sl_bitmap := bitmap_set (sl_bitmap s) i False, sl_free_count := sl_free_count s - 1\<rparr>;
                 p = sl_base s + of_nat (i * sl_size s);
                 h1 = heap_fill (put_slab h c j s') p (sl_size s) POISON_UNINIT
             in (h1\<lparr>g_used := g_used h1 + of_nat (sl_size s)\<rparr>, p))"

definition slab_alloc :: "kheap \<Rightarrow> nat \<Rightarrow> (kheap \<times> u64) outcome" where
  "slab_alloc h c =
     (case first_avail (g_classes h ! c) of
        Some j \<Rightarrow> Ret (slab_take h c j)
      | None \<Rightarrow>
          bind_outcome (slab_new h (k_sizes ! c)) (\<lambda>(h1, so).
            case so of
              None \<Rightarrow> Ret (h1, 0)
            | Some s \<Rightarrow> Ret (slab_take (h1\<lparr>g_classes := (g_classes h1)[c := s # g_classes h1 ! c]\<rparr>) c 0)))"

function order_loop :: "nat \<Rightarrow> nat \<Rightarrow> nat" where
  "order_loop pages order = (if 2 ^ order < pages then order_loop pages (Suc order) else order)"
  by pat_completeness auto
termination by (relation "measure (\<lambda>(pages, order). pages - 2 ^ order)") (auto simp: diff_less_mono2)

declare order_loop.simps [simp del]

definition large_header :: nat where
  "large_header = (sizeof_slab + 15) div 16 * 16"

definition kalloc :: "kheap \<Rightarrow> u64 \<Rightarrow> (kheap \<times> u64) outcome" where
  "kalloc h n =
     (if \<not> g_heap_up h \<or> n = 0 then Ret (h, 0)
      else if n > 8 * 1024 * 1024 then Ret (h, 0)
      else case class_of (unat n) of
             Some c \<Rightarrow> slab_alloc h c
           | None \<Rightarrow>
               let pages = unat (PAGE_ALIGN_UP (n + of_nat large_header)) div 4096;
                   order = order_loop pages 0;
                   (pm, pa) = pmm_alloc (h_pmm h) order (PMM_KERNEL OR PMM_ZERO)
               in if pa = PMM_INVALID then Ret (h\<lparr>h_pmm := pm\<rparr>, 0)
                  else let s = \<lparr>sl_magic = SLAB_MAGIC, sl_size = unat n, sl_objects = 1, sl_free_count = 0,
                                sl_base = HHDM_BASE + pa + of_nat large_header, sl_bitmap = [], sl_phys = pa,
                                sl_pages = 2 ^ order, sl_large = True\<rparr>
                       in Ret (h\<lparr>h_pmm := pm, g_large := s # g_large h, g_used := g_used h + n\<rparr>, sl_base s))"

definition kalloc_zero :: "kheap \<Rightarrow> u64 \<Rightarrow> (kheap \<times> u64) outcome" where
  "kalloc_zero h n =
     bind_outcome (kalloc h n) (\<lambda>(h1, p). Ret (if p \<noteq> 0 then heap_fill h1 p (unat n) 0 else h1, p))"

definition in_slab :: "slab \<Rightarrow> u64 \<Rightarrow> nat option" where
  "in_slab s q =
     (if sl_magic s \<noteq> SLAB_MAGIC then None
      else if q < sl_base s then None
      else if sl_large s then (if q = sl_base s then Some 0 else None)
      else let off = unat (q - sl_base s)
           in if off mod sl_size s \<noteq> 0 then None
              else let i = (off div sl_size s) mod 2 ^ 32
                   in if i \<ge> sl_objects s then None else Some i)"

fun find_slab :: "slab list \<Rightarrow> u64 \<Rightarrow> nat \<Rightarrow> (nat \<times> nat) option" where
  "find_slab [] p j = None"
| "find_slab (s # ss) p j =
     (case in_slab s p of Some i \<Rightarrow> Some (j, i) | None \<Rightarrow> find_slab ss p (Suc j))"

fun find_class :: "slab list list \<Rightarrow> u64 \<Rightarrow> nat \<Rightarrow> (nat \<times> nat \<times> nat) option" where
  "find_class [] p c = None"
| "find_class (ss # cs) p c =
     (case find_slab ss p 0 of Some (j, i) \<Rightarrow> Some (c, j, i) | None \<Rightarrow> find_class cs p (Suc c))"

definition kfree :: "kheap \<Rightarrow> u64 \<Rightarrow> kheap outcome" where
  "kfree h p =
     (if p = 0 then Ret h
      else case find_class (g_classes h) p 0 of
        Some (c, j, i) \<Rightarrow>
          let s = g_classes h ! c ! j
          in if bitmap_get (sl_bitmap s) i then Panic ''heap df''
             else let s' = s\<lparr>sl_bitmap := bitmap_set (sl_bitmap s) i True, sl_free_count := sl_free_count s + 1\<rparr>;
                      h1 = heap_fill (put_slab h c j s') p (sl_size s) POISON_FREE
                  in Ret (h1\<lparr>g_used := g_used h1 - of_nat (sl_size s)\<rparr>)
      | None \<Rightarrow>
          (case find_slab (g_large h) p 0 of
             Some (j, i) \<Rightarrow>
               let s = g_large h ! j;
                   h1 = h\<lparr>g_large := take j (g_large h) @ drop (Suc j) (g_large h),
                          g_used := g_used h - of_nat (sl_size s)\<rparr>
               in bind_outcome (pmm_free (h_pmm h1) (sl_phys s) (order_loop (sl_pages s) 0))
                    (\<lambda>pm. Ret (h1\<lparr>h_pmm := pm\<rparr>))
           | None \<Rightarrow> Panic ''heap foreign''))"

end
