(* ===== verification/Heap_Correct.thy ===== *)
theory Heap_Correct
  imports Heap
begin

text \<open>
  Correctness of the slab heap: the heap invariant, and that \<open>kalloc\<close> hands out
  fresh, 16-byte aligned, pairwise disjoint extents of at least the requested
  size while \<open>kfree\<close> takes back exactly the extent it is given and panics on
  anything else.
\<close>

section \<open>Bitmaps\<close>

lemma bitmap_get_bit: "bitmap_get bm i \<longleftrightarrow> bit (bm ! (i div 8)) (i mod 8)"
  by (simp add: bitmap_get_def and_one_eq bit_iff_odd_drop_bit odd_iff_mod_2_eq_one)

lemma bitmap_set_get:
  assumes "i div 8 < length bm"
  shows "bitmap_get (bitmap_set bm i b) j = (if j = i then b else bitmap_get bm j)"
proof (cases "j div 8 = i div 8")
  case False
  then have "j \<noteq> i" by auto
  then show ?thesis using False by (auto simp: bitmap_get_bit bitmap_set_def)
next
  case True
  have "j mod 8 = i mod 8 \<longleftrightarrow> j = i" using True by (metis div_mult_mod_eq)
  moreover have "j mod 8 < 8" by simp
  ultimately show ?thesis
    using True assms by (auto simp: bitmap_get_bit bitmap_set_def bit_simps)
qed

lemma length_bitmap_set [simp]: "length (bitmap_set bm i b) = length bm"
  by (simp add: bitmap_set_def)

definition free_bits :: "u8 list \<Rightarrow> nat \<Rightarrow> nat set" where
  "free_bits bm n = {i. i < n \<and> bitmap_get bm i}"

lemma finite_free_bits [simp]: "finite (free_bits bm n)"
  by (simp add: free_bits_def)

lemma free_bits_set:
  assumes "i < n" "n \<le> 8 * length bm"
  shows "free_bits (bitmap_set bm i b) n = (if b then insert i (free_bits bm n) else free_bits bm n - {i})"
proof -
  have "i div 8 < length bm" using assms by (simp add: less_mult_imp_div_less mult.commute)
  then show ?thesis using assms(1) by (auto simp: free_bits_def bitmap_set_get)
qed

lemma first_bit_spec:
  "case first_bit bm n i of None \<Rightarrow> \<forall>k. i \<le> k \<and> k < n \<longrightarrow> \<not> bitmap_get bm k
   | Some k \<Rightarrow> i \<le> k \<and> k < n \<and> bitmap_get bm k"
proof (induction bm n i rule: first_bit.induct)
  case (1 bm n i)
  show ?case
  proof (cases "i < n \<and> \<not> bitmap_get bm i")
    case True
    then have e: "first_bit bm n i = first_bit bm n (Suc i)" by (subst first_bit.simps) simp
    show ?thesis
    proof (cases "first_bit bm n (Suc i)")
      case None
      then have "\<not> bitmap_get bm k" if "i \<le> k" "k < n" for k
        using "1.IH" True that by (cases "k = i") auto
      then show ?thesis using None by (simp add: e)
    next
      case (Some k)
      then show ?thesis using "1.IH" True by (simp add: e)
    qed
  next
    case False
    then show ?thesis by (subst first_bit.simps) auto
  qed
qed

section \<open>Slab layout\<close>

definition sl_ord :: "slab \<Rightarrow> nat" where
  "sl_ord s = order_loop (sl_pages s) 0"

lemma order_loop_pow:
  assumes "j \<le> k" shows "order_loop (2 ^ k) j = k"
  using assms
proof (induction "k - j" arbitrary: j)
  case 0
  then show ?case by (subst order_loop.simps) simp
next
  case (Suc d)
  then have "j < k" by simp
  then have "(2::nat) ^ j < 2 ^ k" by simp
  then show ?case using Suc.hyps(1)[of "Suc j"] Suc.hyps(2) \<open>j < k\<close> by (subst order_loop.simps) simp
qed

lemma order_loop_ge: "pages \<le> 2 ^ order_loop pages j"
proof (induction pages j rule: order_loop.induct)
  case (1 pages j)
  then show ?case by (subst order_loop.simps) auto
qed

lemma order_loop_le:
  assumes "pages \<le> 2 ^ k" "j \<le> k" shows "order_loop pages j \<le> k"
  using assms
proof (induction pages j rule: order_loop.induct)
  case (1 pages j)
  show ?case
  proof (cases "2 ^ j < pages")
    case True
    have "(2::nat) ^ j < 2 ^ k" by (rule less_le_trans[OF True "1.prems"(1)])
    then have "Suc j \<le> k" by (simp add: Suc_le_eq)
    then show ?thesis using "1.IH"[OF True] True "1.prems" by (subst order_loop.simps) simp
  next
    case False
    then show ?thesis using "1.prems" by (subst order_loop.simps) simp
  qed
qed

definition slab_objects :: "nat \<Rightarrow> nat" where
  "slab_objects sz = (slab_pages sz * 4096 - slab_header) div sz"

lemma slab_header_val [simp]: "slab_header = 128"
  by (simp add: slab_header_def sizeof_slab_def)

lemma large_header_val [simp]: "large_header = 64"
  by (simp add: large_header_def sizeof_slab_def)

lemma class_cases:
  assumes "c < HEAP_CLASSES"
  shows "c = 0 \<or> c = 1 \<or> c = 2 \<or> c = 3 \<or> c = 4 \<or> c = 5 \<or> c = 6 \<or> c = 7 \<or> c = 8"
  using assms by linarith

lemma shrink_objects_idle:
  assumes "n \<le> 248" shows "shrink_objects slab_header n = n"
proof -
  have "(n + 7) div 8 \<le> 31" using assms by (simp add: less_mult_imp_div_less flip: less_Suc_eq_le)
  then have "\<not> slab_header - (n + 7) div 8 < sizeof_slab" by (simp add: sizeof_slab_def)
  then show ?thesis by (subst shrink_objects.simps) (simp only: simp_thms if_False)
qed

lemma slab_layout:
  assumes "c < HEAP_CLASSES"
  defines "sz \<equiv> k_sizes ! c"
  shows "0 < slab_objects sz" "slab_header + slab_objects sz * sz \<le> slab_pages sz * 4096"
    "shrink_objects slab_header (slab_objects sz) = slab_objects sz" "16 dvd sz" "16 \<le> sz"
    "slab_objects sz \<le> 248" "slab_pages sz = 1 \<or> slab_pages sz = 2"
proof -
  have "0 < slab_objects sz \<and> slab_header + slab_objects sz * sz \<le> slab_pages sz * 4096 \<and> 16 dvd sz \<and> 16 \<le> sz
      \<and> slab_objects sz \<le> 248 \<and> (slab_pages sz = 1 \<or> slab_pages sz = 2)"
    using class_cases[OF assms(1)] unfolding sz_def
    by (elim disjE) (simp_all add: k_sizes_def slab_objects_def slab_pages_def)
  then show "0 < slab_objects sz" "slab_header + slab_objects sz * sz \<le> slab_pages sz * 4096"
    "shrink_objects slab_header (slab_objects sz) = slab_objects sz" "16 dvd sz" "16 \<le> sz"
    "slab_objects sz \<le> 248" "slab_pages sz = 1 \<or> slab_pages sz = 2"
    using shrink_objects_idle[of "slab_objects sz"] by auto
qed

definition small_ok :: "nat \<Rightarrow> slab \<Rightarrow> bool" where
  "small_ok c s \<longleftrightarrow> sl_magic s = SLAB_MAGIC \<and> \<not> sl_large s \<and> sl_size s = k_sizes ! c
     \<and> sl_pages s = slab_pages (k_sizes ! c) \<and> sl_objects s = slab_objects (k_sizes ! c)
     \<and> sl_base s = HHDM_BASE + sl_phys s + 128
     \<and> length (sl_bitmap s) = (sl_objects s + 7) div 8
     \<and> sl_free_count s = card (free_bits (sl_bitmap s) (sl_objects s))"

definition large_ok :: "slab \<Rightarrow> bool" where
  "large_ok s \<longleftrightarrow> sl_magic s = SLAB_MAGIC \<and> sl_large s \<and> (\<exists>k\<le>PMM_MAX_ORDER. sl_pages s = 2 ^ k)
     \<and> sl_base s = HHDM_BASE + sl_phys s + 64 \<and> 0 < sl_size s \<and> 64 + sl_size s \<le> sl_pages s * 4096"

definition slab_ok :: "slab \<Rightarrow> bool" where
  "slab_ok s \<longleftrightarrow> (if sl_large s then large_ok s else \<exists>c<HEAP_CLASSES. small_ok c s)"

text \<open>The extents a slab has handed out: address and capacity.\<close>

definition slab_allocs :: "slab \<Rightarrow> (u64 \<times> nat) set" where
  "slab_allocs s =
     (if sl_large s then {(sl_base s, sl_size s)}
      else {(sl_base s + of_nat (i * sl_size s), sl_size s) |i.
              i < sl_objects s \<and> i \<notin> free_bits (sl_bitmap s) (sl_objects s)})"

abbreviation (input) HB :: nat where "HB \<equiv> 18446603336221196288"

definition mem_bounded :: "pmm \<Rightarrow> bool" where
  "mem_bounded pm \<longleftrightarrow> unat (g_phys_base pm) + g_nframes pm * 4096 \<le> 2 ^ 36"

lemma pmm_owned_bound:
  assumes i: "pmm_inv pm" and m: "mem_bounded pm" and o: "(a, k) \<in> pmm_owned pm"
  shows "unat a + 4096 * 2 ^ k \<le> 2 ^ 36"
proof -
  have c: "pmm_core pm {}" using i by (simp add: pmm_inv_def)
  obtain p x where p: "(p, k, x) \<in> alloc_set pm" "a = phys_of pm p" using o by (auto simp: pmm_owned_def)
  note b = alloc_set_block[OF c p(1)]
  have "p + 2 ^ k \<le> g_nframes pm" using core_block(4)[OF c b(2) _ b(1)] b(3) by auto
  then have "p * 4096 + 4096 * 2 ^ k \<le> g_nframes pm * 4096" by simp
  then have le: "unat (g_phys_base pm) + (p * 4096 + 4096 * 2 ^ k) \<le> 2 ^ 36" using m by (simp add: mem_bounded_def)
  then have "p * 4096 < 2 ^ 64" by simp
  then have "unat (of_nat (p * 4096) :: u64) = p * 4096" by (simp only: unat_of_nat) (simp add: take_bit_nat_eq_self)
  then have "unat a = unat (g_phys_base pm) + p * 4096"
    unfolding p(2) phys_of_nat using le by (simp add: unat_word_ariths)
  then show ?thesis using le by simp
qed

lemma page_ranges_apart:
  assumes "page_range a k \<inter> page_range b j = {}"
  shows "unat a + 4096 * 2 ^ k \<le> unat b \<or> unat b + 4096 * 2 ^ j \<le> unat a"
proof (rule ccontr)
  have *: "b \<in> page_range a k" if "unat a \<le> unat b" "unat b < unat a + 4096 * 2 ^ k" for a b :: u64 and k
  proof -
    have "b = a + of_nat (unat b - unat a)" using that(1) by (simp add: of_nat_diff)
    then show ?thesis using that unfolding page_range_def by (auto intro!: exI[of _ "unat b - unat a"])
  qed
  have self: "x \<in> page_range x l" for x l unfolding page_range_def by (auto intro!: exI[of _ 0])
  assume "\<not> ?thesis"
  then consider "unat a \<le> unat b" "unat b < unat a + 4096 * 2 ^ k"
    | "unat b \<le> unat a" "unat a < unat b + 4096 * 2 ^ j" by linarith
  then show False
    using * self assms by cases blast+
qed

section \<open>Slab geometry\<close>

lemma unat_vaddr:
  assumes "unat a + d \<le> 2 ^ 36" shows "unat (HHDM_BASE + a + of_nat d :: u64) = HB + unat a + d"
proof -
  have "unat (of_nat d :: u64) = d" using assms by (simp only: unat_of_nat) (simp add: take_bit_nat_eq_self)
  then show ?thesis using assms by (simp add: unat_word_ariths)
qed

lemma slab_pages_ord: "slab_ok s \<Longrightarrow> sl_pages s = 2 ^ sl_ord s \<and> sl_ord s \<le> PMM_MAX_ORDER"
  using slab_layout(7) order_loop_pow[of 0 0] order_loop_pow[of 0 1]
  by (fastforce simp: slab_ok_def small_ok_def large_ok_def sl_ord_def order_loop_pow split: if_splits)

definition slab_fits :: "slab \<Rightarrow> bool" where
  "slab_fits s \<longleftrightarrow> unat (sl_phys s) + 4096 * sl_pages s \<le> 2 ^ 36 \<and> unat (sl_phys s) mod 4096 = 0"

lemma small_addr:
  assumes "small_ok c s" "c < HEAP_CLASSES" "slab_fits s" "i < sl_objects s"
  shows "unat (sl_base s + of_nat (i * sl_size s)) = HB + unat (sl_phys s) + 128 + i * sl_size s"
    "128 + i * sl_size s + sl_size s \<le> 4096 * sl_pages s"
proof -
  note l = slab_layout[OF assms(2)]
  have "i * sl_size s + sl_size s \<le> sl_objects s * sl_size s"
    using assms(4) by (metis Suc_leI add.commute mult_Suc mult_le_mono1)
  then show b: "128 + i * sl_size s + sl_size s \<le> 4096 * sl_pages s"
    using l(2) assms(1) by (simp add: small_ok_def)
  have e: "sl_base s + of_nat (i * sl_size s) = HHDM_BASE + sl_phys s + of_nat (128 + i * sl_size s)"
    using assms(1) by (simp add: small_ok_def)
  have "unat (HHDM_BASE + sl_phys s + of_nat (128 + i * sl_size s)) = HB + unat (sl_phys s) + (128 + i * sl_size s)"
    by (rule unat_vaddr) (use assms(3) b in \<open>simp add: slab_fits_def\<close>)
  then show "unat (sl_base s + of_nat (i * sl_size s)) = HB + unat (sl_phys s) + 128 + i * sl_size s"
    unfolding e by (simp only: add.assoc)
qed

lemma large_addr:
  assumes "large_ok s" "slab_fits s"
  shows "unat (sl_base s) = HB + unat (sl_phys s) + 64"
proof -
  have "unat (HHDM_BASE + sl_phys s + of_nat 64) = HB + unat (sl_phys s) + 64"
    by (rule unat_vaddr) (use assms in \<open>auto simp: large_ok_def slab_fits_def\<close>)
  moreover have "sl_base s = HHDM_BASE + sl_phys s + of_nat 64" using assms(1) by (simp add: large_ok_def)
  ultimately show ?thesis by (simp only:)
qed

lemma slab_geom:
  assumes ok: "slab_ok s" and fit: "slab_fits s" and p: "(p, m) \<in> slab_allocs s"
  shows "HB + unat (sl_phys s) < unat p" "unat p + m \<le> HB + unat (sl_phys s) + 4096 * sl_pages s"
    "0 < m" "unat p mod 16 = 0"
proof -
  have "unat (sl_phys s) mod 16 = (unat (sl_phys s) mod 4096) mod 16" by (simp add: mod_mod_cancel)
  then have m16: "unat (sl_phys s) mod 16 = 0" using fit by (simp add: slab_fits_def)
  have "HB + unat (sl_phys s) < unat p \<and> unat p + m \<le> HB + unat (sl_phys s) + 4096 * sl_pages s
    \<and> 0 < m \<and> unat p mod 16 = 0"
  proof (cases "sl_large s")
    case True
    then have l: "large_ok s" "p = sl_base s" "m = sl_size s" using ok p by (auto simp: slab_ok_def slab_allocs_def)
    then show ?thesis using large_addr[OF l(1) fit] m16 by (auto simp: large_ok_def mod_add_eq)
  next
    case False
    then obtain c i where c: "c < HEAP_CLASSES" "small_ok c s" "i < sl_objects s"
      "p = sl_base s + of_nat (i * sl_size s)" "m = sl_size s"
      using ok p by (auto simp: slab_ok_def slab_allocs_def)
    note a = small_addr[OF c(2,1) fit c(3)] and l = slab_layout[OF c(1)]
    have "sl_size s mod 16 = 0" "16 \<le> sl_size s" using c(2) l by (auto simp: small_ok_def)
    then have "(HB + unat (sl_phys s) + 128 + i * sl_size s) mod 16 = 0"
      using m16 by (simp add: mod_eq_0_iff_dvd)
    then show ?thesis using a c(4,5) \<open>16 \<le> sl_size s\<close> by simp
  qed
  then show "HB + unat (sl_phys s) < unat p" "unat p + m \<le> HB + unat (sl_phys s) + 4096 * sl_pages s"
    "0 < m" "unat p mod 16 = 0" by auto
qed

lemma in_slab_small:
  assumes ok: "small_ok c s" "c < HEAP_CLASSES" and fit: "slab_fits s" and q: "unat q < HB + 2 ^ 36"
    and i: "in_slab s q = Some i"
  shows "i < sl_objects s \<and> q = sl_base s + of_nat (i * sl_size s)"
proof -
  have b: "sl_base s = sl_base s + of_nat (0 * sl_size s)" by simp
  have pos: "0 < sl_objects s" "16 \<le> sl_size s" "\<not> sl_large s"
    using ok slab_layout(1,5)[OF ok(2)] by (auto simp: small_ok_def)
  have ub: "unat (sl_base s) = HB + unat (sl_phys s) + 128"
    using small_addr(1)[OF ok fit pos(1)] by simp
  have ge: "\<not> q < sl_base s" using i by (auto simp: in_slab_def split: if_splits)
  let ?off = "unat (q - sl_base s)"
  have off: "?off = unat q - unat (sl_base s)" using ge by (intro unat_sub) simp
  then have "?off < 2 ^ 32 * 16" using q ub by simp
  then have "?off div 16 < 2 ^ 32" by (rule less_mult_imp_div_less)
  moreover have "?off div sl_size s \<le> ?off div 16" by (rule div_le_mono2) (use pos in simp_all)
  ultimately have lt: "?off div sl_size s < 2 ^ 32" by simp
  have ii: "?off mod sl_size s = 0" "i = ?off div sl_size s" "i < sl_objects s"
    using i lt pos(3) by (auto simp: in_slab_def Let_def split: if_splits)
  then have "i * sl_size s = ?off" using div_mult_mod_eq[of ?off "sl_size s"] by simp
  then have "q = sl_base s + of_nat (i * sl_size s)" by simp
  then show ?thesis using ii by simp
qed

lemma in_slab_hit:
  assumes ok: "small_ok c s" "c < HEAP_CLASSES" and fit: "slab_fits s" and i: "i < sl_objects s"
  shows "in_slab s (sl_base s + of_nat (i * sl_size s)) = Some i"
proof -
  have pos: "0 < sl_objects s" "16 \<le> sl_size s" "\<not> sl_large s" "sl_magic s = SLAB_MAGIC" "sl_objects s \<le> 248"
    using ok slab_layout(1,5,6)[OF ok(2)] by (auto simp: small_ok_def)
  note a = small_addr[OF ok fit i] and b = small_addr(1)[OF ok fit pos(1)]
  let ?q = "sl_base s + of_nat (i * sl_size s)"
  have "\<not> ?q < sl_base s" using a(1) b by (simp add: word_less_nat_alt)
  moreover have "unat (?q - sl_base s) = i * sl_size s"
  proof -
    have "i * sl_size s < 2 ^ 64" using a(2) fit by (simp add: slab_fits_def)
    then show ?thesis by (simp only: add_diff_cancel_left' unat_of_nat) (simp add: take_bit_nat_eq_self)
  qed
  moreover have "i * sl_size s div sl_size s = i" using pos(2) by simp
  moreover have "i < 2 ^ 32" using i pos(5) by simp
  ultimately show ?thesis using pos i by (simp add: in_slab_def Let_def)
qed

lemma in_slab_range:
  assumes ok: "slab_ok s" "slab_fits s" and q: "unat q < HB + 2 ^ 36" and i: "in_slab s q = Some i"
  shows "HB + unat (sl_phys s) < unat q" "unat q < HB + unat (sl_phys s) + 4096 * sl_pages s"
proof -
  have "HB + unat (sl_phys s) < unat q \<and> unat q < HB + unat (sl_phys s) + 4096 * sl_pages s"
  proof (cases "sl_large s")
    case True
    then have l: "large_ok s" "q = sl_base s" using ok i by (auto simp: slab_ok_def in_slab_def split: if_splits)
    then show ?thesis using large_addr[OF l(1) ok(2)] by (auto simp: large_ok_def)
  next
    case False
    then obtain c where c: "c < HEAP_CLASSES" "small_ok c s" using ok by (auto simp: slab_ok_def)
    note h = in_slab_small[OF c(2,1) ok(2) q i]
    have "16 \<le> sl_size s" using slab_layout(5)[OF c(1)] c(2) by (simp add: small_ok_def)
    moreover have "unat q = HB + unat (sl_phys s) + 128 + i * sl_size s"
      "128 + i * sl_size s + sl_size s \<le> 4096 * sl_pages s"
      using small_addr[OF c(2,1) ok(2), of i] h by auto
    ultimately show ?thesis by linarith
  qed
  then show "HB + unat (sl_phys s) < unat q" "unat q < HB + unat (sl_phys s) + 4096 * sl_pages s" by auto
qed

section \<open>The heap invariant\<close>

definition slabs_ok :: "pmm \<Rightarrow> slab list \<Rightarrow> bool" where
  "slabs_ok pm xs \<longleftrightarrow> distinct (map sl_phys xs)
     \<and> (\<forall>s\<in>set xs. slab_ok s \<and> (sl_phys s, sl_ord s) \<in> pmm_owned pm)"

definition allocs_of :: "slab list \<Rightarrow> (u64 \<times> nat) set" where
  "allocs_of xs = (\<Union>s\<in>set xs. slab_allocs s)"

definition all_slabs :: "kheap \<Rightarrow> slab list" where
  "all_slabs h = concat (g_classes h) @ g_large h"

definition heap_allocs :: "kheap \<Rightarrow> (u64 \<times> nat) set" where
  "heap_allocs h = allocs_of (all_slabs h)"

definition heap_inv :: "kheap \<Rightarrow> bool" where
  "heap_inv h \<longleftrightarrow> pmm_inv (h_pmm h) \<and> mem_bounded (h_pmm h) \<and> slabs_ok (h_pmm h) (all_slabs h)
     \<and> length (g_classes h) = HEAP_CLASSES
     \<and> (\<forall>c<HEAP_CLASSES. \<forall>s\<in>set (g_classes h ! c). small_ok c s)
     \<and> (\<forall>s\<in>set (g_large h). large_ok s)
     \<and> g_used h = of_nat (\<Sum>(p, m)\<in>heap_allocs h. m)"

lemma slabs_fit:
  assumes "pmm_inv pm" "mem_bounded pm" "slabs_ok pm xs" "s \<in> set xs"
  shows "slab_ok s" "slab_fits s" "sl_pages s = 2 ^ sl_ord s"
proof -
  have o: "slab_ok s" "(sl_phys s, sl_ord s) \<in> pmm_owned pm" using assms by (auto simp: slabs_ok_def)
  show "slab_ok s" "sl_pages s = 2 ^ sl_ord s" using o slab_pages_ord by auto
  then show "slab_fits s"
    using pmm_owned_bound[OF assms(1,2) o(2)] pmm.owned_valid[OF assms(1) o(2)] by (simp add: slab_fits_def)
qed

text \<open>Different slabs occupy different pages.\<close>

lemma slabs_apart:
  assumes i: "pmm_inv pm" and m: "mem_bounded pm" and ok: "slabs_ok pm xs"
    and s: "s \<in> set xs" "t \<in> set xs" "s \<noteq> t"
  shows "unat (sl_phys s) + 4096 * sl_pages s \<le> unat (sl_phys t)
    \<or> unat (sl_phys t) + 4096 * sl_pages t \<le> unat (sl_phys s)"
proof -
  have "inj_on sl_phys (set xs)" using ok by (simp add: slabs_ok_def distinct_map)
  then have "sl_phys s \<noteq> sl_phys t" using s by (auto dest: inj_onD)
  moreover have "(sl_phys s, sl_ord s) \<in> pmm_owned pm" "(sl_phys t, sl_ord t) \<in> pmm_owned pm"
    using ok s by (auto simp: slabs_ok_def)
  ultimately have "page_range (sl_phys s) (sl_ord s) \<inter> page_range (sl_phys t) (sl_ord t) = {}"
    using pmm.owned_disjoint[OF i] by blast
  from page_ranges_apart[OF this] show ?thesis
    using slabs_fit(3)[OF i m ok s(1)] slabs_fit(3)[OF i m ok s(2)] by simp
qed

lemma alloc_owner_unique:
  assumes i: "pmm_inv pm" and m: "mem_bounded pm" and ok: "slabs_ok pm xs"
    and s: "s \<in> set xs" "(p, l) \<in> slab_allocs s" and t: "t \<in> set xs" "in_slab t p = Some j"
  shows "s = t"
proof (rule ccontr)
  assume ne: "s \<noteq> t"
  note fs = slabs_fit[OF i m ok s(1)] and ft = slabs_fit[OF i m ok t(1)]
  note g = slab_geom[OF fs(1,2) s(2)]
  have "unat p < HB + 2 ^ 36" using g(2,3) fs(2) by (simp add: slab_fits_def)
  from in_slab_range[OF ft(1,2) this t(2)] show False
    using g slabs_apart[OF i m ok s(1) t(1) ne] by linarith
qed

lemma slab_allocs_apart:
  assumes ok: "slab_ok s" "slab_fits s" and p: "(p, k) \<in> slab_allocs s" "(q, l) \<in> slab_allocs s" "(p, k) \<noteq> (q, l)"
  shows "unat p + k \<le> unat q \<or> unat q + l \<le> unat p"
proof -
  have nl: "\<not> sl_large s" using p by (auto simp: slab_allocs_def)
  then obtain c where c: "c < HEAP_CLASSES" "small_ok c s" using ok by (auto simp: slab_ok_def)
  obtain i j where ij: "i < sl_objects s" "j < sl_objects s" "p = sl_base s + of_nat (i * sl_size s)"
    "q = sl_base s + of_nat (j * sl_size s)" "k = sl_size s" "l = sl_size s"
    using p nl by (auto simp: slab_allocs_def)
  have "i \<noteq> j" using p(3) ij by auto
  then consider "Suc i \<le> j" | "Suc j \<le> i" by linarith
  then have "i * sl_size s + sl_size s \<le> j * sl_size s \<or> j * sl_size s + sl_size s \<le> i * sl_size s"
    by cases (metis add.commute mult_Suc mult_le_mono1)+
  then show ?thesis
    using small_addr(1)[OF c(2,1) ok(2) ij(1)] small_addr(1)[OF c(2,1) ok(2) ij(2)] ij by auto
qed

lemma allocs_apart:
  assumes i: "pmm_inv pm" and m: "mem_bounded pm" and ok: "slabs_ok pm xs"
    and p: "(p, k) \<in> allocs_of xs" "(q, l) \<in> allocs_of xs" "(p, k) \<noteq> (q, l)"
  shows "unat p + k \<le> unat q \<or> unat q + l \<le> unat p"
proof -
  obtain s t where s: "s \<in> set xs" "(p, k) \<in> slab_allocs s" and t: "t \<in> set xs" "(q, l) \<in> slab_allocs t"
    using p by (auto simp: allocs_of_def)
  note fs = slabs_fit[OF i m ok s(1)] and ft = slabs_fit[OF i m ok t(1)]
  show ?thesis
  proof (cases "s = t")
    case True
    then show ?thesis using slab_allocs_apart[OF fs(1,2) s(2) _ p(3)] t by simp
  next
    case False
    then show ?thesis
      using slabs_apart[OF i m ok s(1) t(1) False] slab_geom[OF fs(1,2) s(2)] slab_geom[OF ft(1,2) t(2)]
      by linarith
  qed
qed

lemma finite_allocs: "finite (allocs_of xs)"
  by (auto simp: allocs_of_def slab_allocs_def)

lemma finite_heap_allocs [simp]: "finite (heap_allocs h)"
  by (simp add: heap_allocs_def finite_allocs)

section \<open>Single steps on slabs\<close>

lemma ram_upd [simp]:
  "pmm_inv (pm\<lparr>g_ram := r\<rparr>) = pmm_inv pm" "pmm_owned (pm\<lparr>g_ram := r\<rparr>) = pmm_owned pm"
  "mem_bounded (pm\<lparr>g_ram := r\<rparr>) = mem_bounded pm"
  by (simp_all add: pmm_inv_def pmm_owned_def mem_bounded_def phys_of_def)

lemma slabs_ok_ram [simp]: "slabs_ok (pm\<lparr>g_ram := r\<rparr>) xs = slabs_ok pm xs"
  by (simp add: slabs_ok_def)

lemma heap_fill_fields [simp]:
  "g_classes (heap_fill h p n v) = g_classes h" "g_large (heap_fill h p n v) = g_large h"
  "g_used (heap_fill h p n v) = g_used h" "g_heap_up (heap_fill h p n v) = g_heap_up h"
  "all_slabs (heap_fill h p n v) = all_slabs h" "heap_allocs (heap_fill h p n v) = heap_allocs h"
  "heap_inv (heap_fill h p n v) = heap_inv h"
  by (simp_all add: heap_fill_def all_slabs_def heap_allocs_def heap_inv_def)

lemma heap_fill_used: "(heap_fill h p n v)\<lparr>g_used := u\<rparr> = heap_fill (h\<lparr>g_used := u\<rparr>) p n v"
  by (simp add: heap_fill_def cong del: if_weak_cong)

lemma heap_allocs_used [simp]: "heap_allocs (h\<lparr>g_used := u\<rparr>) = heap_allocs h"
  by (simp add: heap_allocs_def all_slabs_def)

lemma put_slab_split:
  assumes "c < length (g_classes h)" "j < length (g_classes h ! c)"
  obtains A B where "all_slabs h = A @ (g_classes h ! c ! j) # B"
    "\<And>s'. all_slabs (put_slab h c j s') = A @ s' # B"
proof -
  let ?C = "g_classes h" and ?L = "g_classes h ! c"
  have "concat (?C[c := ys]) = concat (take c ?C) @ ys @ concat (drop (Suc c) ?C)" for ys
    using assms(1) by (simp add: upd_conv_take_nth_drop)
  moreover have "?C = ?C[c := ?L]" by simp
  moreover have "?L[j := s'] = take j ?L @ s' # drop (Suc j) ?L" for s'
    using assms(2) by (rule upd_conv_take_nth_drop)
  moreover have "?L = ?L[j := ?L ! j]" by simp
  ultimately have "concat ?C = (concat (take c ?C) @ take j ?L) @ (?L ! j) # (drop (Suc j) ?L @ concat (drop (Suc c) ?C))"
    "concat (?C[c := ?L[j := s']]) = (concat (take c ?C) @ take j ?L) @ s' # (drop (Suc j) ?L @ concat (drop (Suc c) ?C))" for s'
    by (metis append.assoc append_Cons)+
  then show thesis
    using that[of "concat (take c ?C) @ take j ?L" "drop (Suc j) ?L @ concat (drop (Suc c) ?C) @ g_large h"]
    by (simp add: all_slabs_def put_slab_def)
qed

lemma allocs_of_split: "allocs_of (A @ s # B) = slab_allocs s \<union> allocs_of (A @ B)"
  by (auto simp: allocs_of_def)

lemma slabs_ok_replace:
  assumes "slabs_ok pm (A @ s # B)" "slab_ok s'" "sl_phys s' = sl_phys s" "sl_pages s' = sl_pages s"
  shows "slabs_ok pm (A @ s' # B)"
  using assms by (auto simp: slabs_ok_def sl_ord_def)

lemma slab_allocs_other:
  assumes i: "pmm_inv pm" and m: "mem_bounded pm" and ok: "slabs_ok pm (A @ s # B)" and p: "(p, k) \<in> slab_allocs s"
  shows "(p, l) \<notin> allocs_of (A @ B)"
proof
  assume "(p, l) \<in> allocs_of (A @ B)"
  then obtain t where t: "t \<in> set (A @ B)" "(p, l) \<in> slab_allocs t" by (auto simp: allocs_of_def)
  have "s \<noteq> t" using ok t(1) by (auto simp: slabs_ok_def)
  then show False
    using slabs_apart[OF i m ok, of s t] slab_geom[OF slabs_fit(1,2)[OF i m ok] p]
      slab_geom[OF slabs_fit(1,2)[OF i m ok] t(2)] t(1) by auto
qed

lemma small_inj:
  assumes "small_ok c s" "c < HEAP_CLASSES" "slab_fits s" "i < sl_objects s" "j < sl_objects s"
    and "sl_base s + of_nat (i * sl_size s) = sl_base s + of_nat (j * sl_size s)"
  shows "i = j"
proof -
  have "16 \<le> sl_size s" using assms(1) slab_layout(5)[OF assms(2)] by (simp add: small_ok_def)
  moreover have "unat (sl_base s + of_nat (i * sl_size s)) = unat (sl_base s + of_nat (j * sl_size s))"
    by (simp only: assms(6))
  then have "i * sl_size s = j * sl_size s"
    using small_addr(1)[OF assms(1-4)] small_addr(1)[OF assms(1-3,5)] by linarith
  ultimately show ?thesis by simp
qed

lemma small_bitmap_len: "small_ok c s \<Longrightarrow> sl_objects s \<le> 8 * length (sl_bitmap s)"
  by (simp add: small_ok_def)

lemma small_claim:
  assumes ok: "small_ok c s" "c < HEAP_CLASSES" and i: "i \<in> free_bits (sl_bitmap s) (sl_objects s)"
    and fit: "slab_fits s"
  defines "s' \<equiv> s\<lparr>sl_bitmap := bitmap_set (sl_bitmap s) i False, sl_free_count := sl_free_count s - 1\<rparr>"
    and "p \<equiv> sl_base s + of_nat (i * sl_size s)"
  shows "small_ok c s'" "slab_allocs s' = insert (p, sl_size s) (slab_allocs s)" "(p, sl_size s) \<notin> slab_allocs s"
proof -
  have io: "i < sl_objects s" using i by (simp add: free_bits_def)
  note fb = free_bits_set[OF io small_bitmap_len[OF ok(1)], of False, simplified]
  have "sl_free_count s = card (free_bits (sl_bitmap s) (sl_objects s))" using ok(1) by (simp add: small_ok_def)
  then have c': "sl_free_count s' = card (free_bits (sl_bitmap s') (sl_objects s'))"
    using i by (simp add: s'_def fb)
  show "small_ok c s'" using ok(1) c' by (simp add: small_ok_def s'_def)
  have nl: "\<not> sl_large s" using ok by (simp add: small_ok_def)
  show "slab_allocs s' = insert (p, sl_size s) (slab_allocs s)"
    using nl io i by (auto simp: slab_allocs_def s'_def fb p_def)
  show "(p, sl_size s) \<notin> slab_allocs s"
    using nl i small_inj[OF ok fit io] by (auto simp: slab_allocs_def p_def)
qed

lemma small_release:
  assumes ok: "small_ok c s" "c < HEAP_CLASSES" and i: "i < sl_objects s" "i \<notin> free_bits (sl_bitmap s) (sl_objects s)"
    and fit: "slab_fits s"
  defines "s' \<equiv> s\<lparr>sl_bitmap := bitmap_set (sl_bitmap s) i True, sl_free_count := sl_free_count s + 1\<rparr>"
    and "p \<equiv> sl_base s + of_nat (i * sl_size s)"
  shows "small_ok c s'" "slab_allocs s' = slab_allocs s - {(p, sl_size s)}" "(p, sl_size s) \<in> slab_allocs s"
proof -
  note fb = free_bits_set[OF i(1) small_bitmap_len[OF ok(1)], of True, simplified]
  have "sl_free_count s = card (free_bits (sl_bitmap s) (sl_objects s))" using ok(1) by (simp add: small_ok_def)
  then have c': "sl_free_count s' = card (free_bits (sl_bitmap s') (sl_objects s'))"
    using i by (simp add: s'_def fb)
  show "small_ok c s'" using ok(1) c' by (simp add: small_ok_def s'_def)
  have nl: "\<not> sl_large s" using ok by (simp add: small_ok_def)
  show "slab_allocs s' = slab_allocs s - {(p, sl_size s)}"
    using nl i small_inj[OF ok fit _ i(1)] by (auto simp: slab_allocs_def s'_def fb p_def)
  show "(p, sl_size s) \<in> slab_allocs s"
    using nl i by (auto simp: slab_allocs_def p_def)
qed

section \<open>Allocation from a slab\<close>

lemma class_slab:
  assumes "heap_inv h" "c < HEAP_CLASSES" "j < length (g_classes h ! c)"
  shows "small_ok c (g_classes h ! c ! j)" "slab_fits (g_classes h ! c ! j)" "g_classes h ! c ! j \<in> set (all_slabs h)"
proof -
  have l: "c < length (g_classes h)" using assms by (simp add: heap_inv_def)
  show "small_ok c (g_classes h ! c ! j)" using assms by (simp add: heap_inv_def)
  show m: "g_classes h ! c ! j \<in> set (all_slabs h)"
    using put_slab_split[OF l assms(3)] by (metis in_set_conv_decomp)
  show "slab_fits (g_classes h ! c ! j)"
    using slabs_fit(2)[OF _ _ _ m, of "h_pmm h"] assms(1) by (simp add: heap_inv_def)
qed

lemma put_slab_fields [simp]:
  "h_pmm (put_slab h c j s) = h_pmm h" "g_large (put_slab h c j s) = g_large h"
  "g_used (put_slab h c j s) = g_used h" "g_heap_up (put_slab h c j s) = g_heap_up h"
  "length (g_classes (put_slab h c j s)) = length (g_classes h)"
  by (simp_all add: put_slab_def)

text \<open>Exchanging one slab of a class for its updated version.\<close>

lemma put_slab_inv:
  assumes i: "heap_inv h" and c: "c < HEAP_CLASSES" "j < length (g_classes h ! c)" and s': "small_ok c s'"
    "sl_phys s' = sl_phys (g_classes h ! c ! j)"
    and u: "u = of_nat (\<Sum>(p, m)\<in>heap_allocs (put_slab h c j s'). m)"
  shows "heap_inv ((put_slab h c j s')\<lparr>g_used := u\<rparr>)"
proof -
  have l: "c < length (g_classes h)" using i c by (simp add: heap_inv_def)
  obtain A B where ab: "all_slabs h = A @ (g_classes h ! c ! j) # B" "\<And>t. all_slabs (put_slab h c j t) = A @ t # B"
    using put_slab_split[OF l c(2)] by blast
  have so: "slab_ok s'" using s'(1) c(1) by (auto simp: slab_ok_def small_ok_def)
  have pg: "sl_pages s' = sl_pages (g_classes h ! c ! j)"
    using class_slab(1)[OF i c] s'(1) by (simp add: small_ok_def)
  have "slabs_ok (h_pmm h) (A @ s' # B)"
    using slabs_ok_replace[of "h_pmm h" A _ B, OF _ so s'(2) pg] i ab(1) by (simp add: heap_inv_def)
  moreover have "\<forall>d<HEAP_CLASSES. \<forall>s\<in>set (g_classes (put_slab h c j s') ! d). small_ok d s"
  proof (intro allI impI ballI)
    fix d s assume d: "d < HEAP_CLASSES" and s: "s \<in> set (g_classes (put_slab h c j s') ! d)"
    show "small_ok d s"
    proof (cases "d = c")
      case True
      then have "s \<in> set ((g_classes h ! c)[j := s'])" using s l by (simp add: put_slab_def)
      then have "s = s' \<or> s \<in> set (g_classes h ! c)" using set_update_subset_insert by fastforce
      then show ?thesis using True s'(1) i c(1) by (auto simp: heap_inv_def)
    next
      case False
      then have "s \<in> set (g_classes h ! d)" using s by (simp add: put_slab_def)
      then show ?thesis using i d by (auto simp: heap_inv_def)
    qed
  qed
  ultimately show ?thesis
    using i u ab(2) by (simp add: heap_inv_def all_slabs_def heap_allocs_def)
qed

lemma slab_take_ok:
  assumes i: "heap_inv h" and c: "c < HEAP_CLASSES" "j < length (g_classes h ! c)"
    and f: "sl_free_count (g_classes h ! c ! j) \<noteq> 0"
  obtains h' p where "slab_take h c j = (h', p)" "heap_inv h'" "p \<noteq> 0" "(p, k_sizes ! c) \<notin> heap_allocs h"
    "heap_allocs h' = insert (p, k_sizes ! c) (heap_allocs h)" "g_heap_up h' = g_heap_up h"
proof -
  let ?s = "g_classes h ! c ! j"
  note cs = class_slab[OF i c]
  have l: "c < length (g_classes h)" using i c by (simp add: heap_inv_def)
  have "free_bits (sl_bitmap ?s) (sl_objects ?s) \<noteq> {}" using f cs(1) by (auto simp: small_ok_def)
  then obtain b where b: "first_bit (sl_bitmap ?s) (sl_objects ?s) 0 = Some b"
    using first_bit_spec[where bm = "sl_bitmap ?s" and n = "sl_objects ?s" and i = 0]
    by (cases "first_bit (sl_bitmap ?s) (sl_objects ?s) 0") (auto simp: free_bits_def)
  have bf: "b \<in> free_bits (sl_bitmap ?s) (sl_objects ?s)"
    using first_bit_spec[where bm = "sl_bitmap ?s" and n = "sl_objects ?s" and i = 0] b by (simp add: free_bits_def)
  let ?s' = "?s\<lparr>sl_bitmap := bitmap_set (sl_bitmap ?s) b False, sl_free_count := sl_free_count ?s - 1\<rparr>"
  let ?p = "sl_base ?s + of_nat (b * sl_size ?s)"
  note cl = small_claim[OF cs(1) c(1) bf cs(2)]
  obtain A B where ab: "all_slabs h = A @ ?s # B" "\<And>t. all_slabs (put_slab h c j t) = A @ t # B"
    using put_slab_split[OF l c(2)] by blast
  have inv: "pmm_inv (h_pmm h)" "mem_bounded (h_pmm h)" "slabs_ok (h_pmm h) (A @ ?s # B)"
    using i ab by (auto simp: heap_inv_def)
  have sz: "sl_size ?s = k_sizes ! c" using cs(1) by (simp add: small_ok_def)
  have al: "heap_allocs (put_slab h c j ?s') = insert (?p, k_sizes ! c) (heap_allocs h)"
    using cl(2) sz by (simp add: heap_allocs_def ab allocs_of_split)
  have "slabs_ok (h_pmm h) (A @ ?s' # B)"
    using slabs_ok_replace[OF inv(3), of ?s'] cl(1) c(1) by (auto simp: slab_ok_def small_ok_def)
  from slab_allocs_other[OF inv(1,2) this, of ?p "k_sizes ! c" "k_sizes ! c"]
  have nin: "(?p, k_sizes ! c) \<notin> heap_allocs h"
    using cl(2,3) sz by (simp add: heap_allocs_def ab allocs_of_split)
  define h1 where "h1 = heap_fill (put_slab h c j ?s') ?p (sl_size ?s) POISON_UNINIT"
  let ?u = "g_used h1 + of_nat (sl_size ?s)"
  have r: "slab_take h c j = (h1\<lparr>g_used := ?u\<rparr>, ?p)"
    by (simp add: slab_take_def b Let_def h1_def)
  have "?u = of_nat (\<Sum>(p, m)\<in>heap_allocs (put_slab h c j ?s'). m)"
    unfolding al using nin i sz finite_heap_allocs[of h] by (simp add: h1_def heap_inv_def)
  then have "heap_inv ((put_slab h c j ?s')\<lparr>g_used := ?u\<rparr>)"
    by (intro put_slab_inv[OF i c cl(1)]) simp_all
  then have hi: "heap_inv (h1\<lparr>g_used := ?u\<rparr>)" unfolding h1_def heap_fill_used by simp
  have "16 \<le> sl_size ?s" using cs(1) slab_layout(5)[OF c(1)] by (simp add: small_ok_def)
  have "unat ?p \<noteq> 0"
    using small_addr(1)[OF cs(1) c(1) cs(2), of b] bf by (simp add: free_bits_def)
  then have "?p \<noteq> 0" by (metis unat_0)
  moreover have "heap_allocs (h1\<lparr>g_used := ?u\<rparr>) = insert (?p, k_sizes ! c) (heap_allocs h)"
    unfolding h1_def using al by simp
  ultimately show thesis using that[OF r hi] nin by (simp add: h1_def)
qed

section \<open>New slabs\<close>

lemma pmm_alloc_bounded:
  assumes "pmm_inv pm" "k \<le> PMM_MAX_ORDER" "pmm_alloc pm k f = (pm', pa)"
  shows "mem_bounded pm' = mem_bounded pm"
  using assms(1,2)
proof (cases rule: pmm_alloc_cases[where flags = f])
  case fail
  then show ?thesis using assms(3) by simp
next
  case (ok s' p)
  then show ?thesis using assms(3) by (simp add: mem_bounded_def)
qed

lemma pmm_free_bounded:
  assumes "pmm_inv pm" "(pa, k) \<in> pmm_owned pm" "pmm_free pm pa k = Ret pm'"
  shows "mem_bounded pm' = mem_bounded pm"
proof -
  obtain p x where p: "(p, k, x) \<in> alloc_set pm" "pa = phys_of pm p" using assms(2) by (auto simp: pmm_owned_def)
  obtain s' where "pmm_free pm (phys_of pm p) k = Ret s'" "g_nframes s' = g_nframes pm" "g_phys_base s' = g_phys_base pm"
    by (rule pmm_free_ok[OF assms(1) p(1)]) blast
  then show ?thesis using assms(3) p(2) by (simp add: mem_bounded_def)
qed

lemma slabs_ok_insert:
  assumes "slabs_ok pm (A @ B)" "slab_ok s" "pmm_owned pm' = insert (sl_phys s, sl_ord s) (pmm_owned pm)"
    "sl_phys s \<notin> fst ` pmm_owned pm"
  shows "slabs_ok pm' (A @ s # B)"
proof -
  have own: "sl_phys t \<in> fst ` pmm_owned pm" if "t \<in> set (A @ B)" for t
  proof -
    have "(sl_phys t, sl_ord t) \<in> pmm_owned pm" using assms(1) that by (simp add: slabs_ok_def)
    then show ?thesis by (rule rev_image_eqI) simp
  qed
  have "sl_phys s \<notin> sl_phys ` set (A @ B)"
  proof
    assume "sl_phys s \<in> sl_phys ` set (A @ B)"
    then obtain t where "sl_phys s = sl_phys t" "t \<in> set (A @ B)" by (rule imageE)
    then show False using own[of t] assms(4) by simp
  qed
  then have "distinct (map sl_phys (A @ s # B))" using assms(1) by (auto simp: slabs_ok_def)
  moreover have "\<forall>t\<in>set (A @ s # B). slab_ok t \<and> (sl_phys t, sl_ord t) \<in> pmm_owned pm'"
    using assms(1,2,3) by (simp add: slabs_ok_def)
  ultimately show ?thesis by (simp add: slabs_ok_def)
qed

lemma slabs_ok_remove:
  assumes "slabs_ok pm (A @ s # B)" "pmm_owned pm' = pmm_owned pm - {(sl_phys s, sl_ord s)}"
  shows "slabs_ok pm' (A @ B)"
proof -
  have "sl_phys t \<noteq> sl_phys s" if "t \<in> set (A @ B)" for t
    using assms(1) that by (auto simp: slabs_ok_def image_iff)
  then show ?thesis using assms by (auto simp: slabs_ok_def)
qed

lemma bitmap_get_full:
  assumes "i div 8 < n" shows "bitmap_get (replicate n 0xFF) i"
proof -
  have ff: "(0xFF :: u8) = mask 8" by (simp add: mask_numeral)
  have "bit (0xFF :: u8) (i mod 8)" unfolding ff by (simp only: bit_mask_iff) simp
  then show ?thesis using assms by (simp add: bitmap_get_bit)
qed

lemma free_bits_full: "free_bits (replicate ((n + 7) div 8) 0xFF) n = {..<n}"
proof -
  have "bitmap_get (replicate ((n + 7) div 8) 0xFF) i" if "i < n" for i
    using that by (intro bitmap_get_full) linarith
  then show ?thesis by (auto simp: free_bits_def)
qed

definition fresh_slab :: "nat \<Rightarrow> phys_t \<Rightarrow> slab" where
  "fresh_slab sz pa = \<lparr>sl_magic = SLAB_MAGIC, sl_size = sz, sl_objects = slab_objects sz,
     sl_free_count = slab_objects sz, sl_base = HHDM_BASE + pa + of_nat slab_header,
     sl_bitmap = replicate ((slab_objects sz + 7) div 8) 0xFF, sl_phys = pa,
     sl_pages = slab_pages sz, sl_large = False\<rparr>"

lemma fresh_slab_ok:
  assumes "c < HEAP_CLASSES"
  shows "small_ok c (fresh_slab (k_sizes ! c) pa)" "slab_allocs (fresh_slab (k_sizes ! c) pa) = {}"
    "sl_ord (fresh_slab (k_sizes ! c) pa) = (if slab_pages (k_sizes ! c) = 1 then 0 else 1)"
    "sl_free_count (fresh_slab (k_sizes ! c) pa) \<noteq> 0"
proof -
  note l = slab_layout[OF assms]
  show "small_ok c (fresh_slab (k_sizes ! c) pa)"
    by (simp add: small_ok_def fresh_slab_def free_bits_full)
  show "slab_allocs (fresh_slab (k_sizes ! c) pa) = {}"
    by (simp add: slab_allocs_def fresh_slab_def free_bits_full)
  show "sl_ord (fresh_slab (k_sizes ! c) pa) = (if slab_pages (k_sizes ! c) = 1 then 0 else 1)"
    using l(7) order_loop_pow[of 0 0] order_loop_pow[of 0 1] by (auto simp: sl_ord_def fresh_slab_def)
  show "sl_free_count (fresh_slab (k_sizes ! c) pa) \<noteq> 0" using l(1) by (simp add: fresh_slab_def)
qed

lemma slab_new_ok:
  assumes i: "heap_inv h" and c: "c < HEAP_CLASSES"
  obtains (none) "slab_new h (k_sizes ! c) = Ret (h, None)"
  | (some) h' pa where "slab_new h (k_sizes ! c) = Ret (h', Some (fresh_slab (k_sizes ! c) pa))"
      "heap_inv (h'\<lparr>g_classes := (g_classes h')[c := fresh_slab (k_sizes ! c) pa # g_classes h' ! c]\<rparr>)"
      "heap_allocs (h'\<lparr>g_classes := (g_classes h')[c := fresh_slab (k_sizes ! c) pa # g_classes h' ! c]\<rparr>) = heap_allocs h"
      "g_heap_up h' = g_heap_up h" "g_classes h' = g_classes h"
proof -
  let ?sz = "k_sizes ! c"
  let ?o = "if slab_pages ?sz = 1 then 0 else 1 :: nat"
  note l = slab_layout[OF c]
  have pi: "pmm_inv (h_pmm h)" "mem_bounded (h_pmm h)" "slabs_ok (h_pmm h) (all_slabs h)"
    and cl: "c < length (g_classes h)" using i c by (auto simp: heap_inv_def)
  obtain pm pa where al: "pmm_alloc (h_pmm h) ?o (PMM_KERNEL OR PMM_ZERO) = (pm, pa)" by fastforce
  have o18: "?o \<le> PMM_MAX_ORDER" by simp
  show thesis
  proof (cases "pa = PMM_INVALID")
    case True
    then have "pm = h_pmm h" using pmm.alloc_failed[OF pi(1) o18] al by blast
    then have "slab_new h ?sz = Ret (h, None)" using al True by (simp add: slab_new_def Let_def)
    then show thesis by (rule none)
  next
    case False
    let ?s = "fresh_slab ?sz pa" and ?h = "h\<lparr>h_pmm := pm\<rparr>"
    let ?h' = "?h\<lparr>g_classes := (g_classes ?h)[c := ?s # g_classes ?h ! c]\<rparr>"
    have a: "pmm_inv pm" "pmm_owned pm = insert (pa, ?o) (pmm_owned (h_pmm h))" "pa \<notin> fst ` pmm_owned (h_pmm h)"
      using pmm.alloc_ok[OF pi(1) o18 al False] by auto
    have "shrink_objects slab_header ((slab_pages ?sz * 4096 - slab_header) div ?sz) = slab_objects ?sz"
      using l(3) by (simp only: slab_objects_def)
    then have r: "slab_new h ?sz = Ret (?h, Some ?s)"
      using al False l(1) by (simp add: slab_new_def Let_def fresh_slab_def slab_objects_def)
    let ?A = "concat (take c (g_classes h))" and ?B = "g_classes h ! c @ concat (drop (Suc c) (g_classes h)) @ g_large h"
    have "concat (g_classes h) = ?A @ g_classes h ! c @ concat (drop (Suc c) (g_classes h))"
      by (subst id_take_nth_drop[OF cl]) simp
    then have ab: "all_slabs h = ?A @ ?B" "all_slabs ?h' = ?A @ ?s # ?B"
      using cl by (simp_all add: all_slabs_def upd_conv_take_nth_drop)
    note fs = fresh_slab_ok[OF c, of pa]
    have so: "slab_ok ?s" using fs(1) c by (auto simp: slab_ok_def fresh_slab_def)
    have "slabs_ok pm (?A @ ?s # ?B)"
      by (rule slabs_ok_insert[OF _ so]) (use pi(3) ab(1) a fs(3) in \<open>auto simp: fresh_slab_def\<close>)
    moreover have ha: "heap_allocs ?h' = heap_allocs h"
      unfolding heap_allocs_def ab allocs_of_split using fs(2) by simp
    moreover have "\<forall>d<HEAP_CLASSES. \<forall>s\<in>set (g_classes ?h' ! d). small_ok d s"
      using i fs(1) cl by (auto simp: heap_inv_def nth_list_update)
    ultimately have "heap_inv ?h'"
      unfolding heap_inv_def ab ha using i a(1) pmm_alloc_bounded[OF pi(1) o18 al] pi(2)
      by (simp add: heap_inv_def)
    then show thesis by (rule some[OF r _ ha]) simp_all
  qed
qed

section \<open>\<open>kalloc\<close> and \<open>kfree\<close>\<close>

lemma first_avail_spec:
  "case first_avail xs of None \<Rightarrow> \<forall>s\<in>set xs. sl_free_count s = 0
   | Some j \<Rightarrow> j < length xs \<and> sl_free_count (xs ! j) \<noteq> 0"
  by (induction xs) (auto split: option.splits)

lemma slab_alloc_ok:
  assumes i: "heap_inv h" and c: "c < HEAP_CLASSES"
  obtains (fail) "slab_alloc h c = Ret (h, 0)"
  | (ok) h' p where "slab_alloc h c = Ret (h', p)" "heap_inv h'" "p \<noteq> 0" "(p, k_sizes ! c) \<notin> heap_allocs h"
      "heap_allocs h' = insert (p, k_sizes ! c) (heap_allocs h)" "g_heap_up h' = g_heap_up h"
proof (cases "first_avail (g_classes h ! c)")
  case (Some j)
  then have j: "j < length (g_classes h ! c)" "sl_free_count (g_classes h ! c ! j) \<noteq> 0"
    using first_avail_spec[of "g_classes h ! c"] by auto
  obtain h' p where "slab_take h c j = (h', p)" "heap_inv h'" "p \<noteq> 0" "(p, k_sizes ! c) \<notin> heap_allocs h"
    "heap_allocs h' = insert (p, k_sizes ! c) (heap_allocs h)" "g_heap_up h' = g_heap_up h"
    by (rule slab_take_ok[OF i c j])
  then show thesis using Some by (intro ok[of h' p]) (simp_all add: slab_alloc_def)
next
  case None
  from i c show thesis
  proof (cases rule: slab_new_ok)
    case none
    then show thesis using None by (intro fail) (simp add: slab_alloc_def)
  next
    case (some h1 pa)
    let ?s = "fresh_slab (k_sizes ! c) pa"
    let ?h = "h1\<lparr>g_classes := (g_classes h1)[c := ?s # g_classes h1 ! c]\<rparr>"
    have "c < length (g_classes h1)" using some(5) i c by (simp add: heap_inv_def)
    then have g: "g_classes ?h ! c ! 0 = ?s" "0 < length (g_classes ?h ! c)" by simp_all
    have f: "sl_free_count (g_classes ?h ! c ! 0) \<noteq> 0" using g fresh_slab_ok(4)[OF c] by simp
    obtain h' p where "slab_take ?h c 0 = (h', p)" "heap_inv h'" "p \<noteq> 0" "(p, k_sizes ! c) \<notin> heap_allocs ?h"
      "heap_allocs h' = insert (p, k_sizes ! c) (heap_allocs ?h)" "g_heap_up h' = g_heap_up ?h"
      by (rule slab_take_ok[OF some(2) c g(2) f])
    then show thesis using None some(1,3,4) by (intro ok[of h' p]) (simp_all add: slab_alloc_def)
  qed
qed

lemma class_loop_spec:
  "case class_loop ks i n of None \<Rightarrow> \<forall>k\<in>set ks. k < n
   | Some c \<Rightarrow> i \<le> c \<and> c < i + length ks \<and> n \<le> ks ! (c - i)"
proof (induction ks arbitrary: i)
  case (Cons k ks)
  show ?case
  proof (cases "n \<le> k")
    case False
    then show ?thesis
      using Cons[of "Suc i"] by (auto simp: nth_Cons' Suc_diff_Suc Suc_le_eq split: option.splits)
  qed simp
qed simp

lemma class_of_spec:
  "case class_of n of None \<Rightarrow> 4096 < n | Some c \<Rightarrow> c < HEAP_CLASSES \<and> n \<le> k_sizes ! c"
  using class_loop_spec[where ks = k_sizes and i = 0 and n = n]
  by (auto simp: class_of_def k_sizes_def split: option.splits)

lemma large_pages:
  fixes n :: u64
  assumes "n \<le> 8 * 1024 * 1024"
  defines "pages \<equiv> unat (PAGE_ALIGN_UP (n + of_nat large_header)) div 4096"
  shows "64 + unat n \<le> pages * 4096" "order_loop pages 0 \<le> PMM_MAX_ORDER"
proof -
  have n: "unat n \<le> 8388608" using assms(1) by (simp add: word_le_nat_alt)
  have "PAGE_ALIGN_UP (n + of_nat large_header) = PAGE_ALIGN_DOWN (n + 64 + 0xFFF)"
    by (simp add: PAGE_ALIGN_UP_def PAGE_ALIGN_DOWN_def)
  then have "pages = unat (n + 64 + 0xFFF) div 4096" by (simp add: pages_def unat_PAGE_ALIGN_DOWN)
  moreover have "unat (n + 64 + 0xFFF) = unat n + 4159" using n by (simp add: unat_word_ariths)
  ultimately have p: "pages = (unat n + 4159) div 4096" by simp
  show "64 + unat n \<le> pages * 4096" unfolding p by linarith
  have "pages \<le> 4096" unfolding p using n by linarith
  then have "order_loop pages 0 \<le> 12" by (intro order_loop_le) simp_all
  then show "order_loop pages 0 \<le> PMM_MAX_ORDER" by simp
qed

lemma kalloc_cases:
  assumes i: "heap_inv h"
  obtains (fail) "kalloc h n = Ret (h, 0)"
  | (ok) h' p m where "kalloc h n = Ret (h', p)" "heap_inv h'" "p \<noteq> 0" "unat n \<le> m" "(p, m) \<notin> heap_allocs h"
      "heap_allocs h' = insert (p, m) (heap_allocs h)" "g_heap_up h' = g_heap_up h"
proof (cases "\<not> g_heap_up h \<or> n = 0 \<or> n > 8 * 1024 * 1024")
  case True
  then show thesis by (intro fail) (auto simp: kalloc_def)
next
  case False
  then have n: "n \<le> 8 * 1024 * 1024" "n \<noteq> 0" by auto
  show thesis
  proof (cases "class_of (unat n)")
    case (Some c)
    then have c: "c < HEAP_CLASSES" "unat n \<le> k_sizes ! c" using class_of_spec[of "unat n"] by auto
    have k: "kalloc h n = slab_alloc h c" using False Some by (simp add: kalloc_def)
    from i c(1) show thesis
    proof (cases rule: slab_alloc_ok)
      case fail
      then show thesis using k that(1) by simp
    next
      case (ok h' p)
      show thesis by (rule that(2)[OF _ ok(2,3) c(2) ok(4,5,6)]) (simp add: k ok(1))
    qed
  next
    case None
    let ?o = "order_loop (unat (PAGE_ALIGN_UP (n + of_nat large_header)) div 4096) 0"
    note lp = large_pages[OF n(1)]
    have pi: "pmm_inv (h_pmm h)" "mem_bounded (h_pmm h)" "slabs_ok (h_pmm h) (all_slabs h)"
      using i by (auto simp: heap_inv_def)
    obtain pm pa where al: "pmm_alloc (h_pmm h) ?o (PMM_KERNEL OR PMM_ZERO) = (pm, pa)" by fastforce
    show thesis
    proof (cases "pa = PMM_INVALID")
      case True
      then have "pm = h_pmm h" using pmm.alloc_failed[OF pi(1) lp(2)] al by blast
      then have "kalloc h n = Ret (h, 0)" using False None al True by (simp add: kalloc_def Let_def)
      then show thesis by (rule that(1))
    next
      case ne: False
      have a: "pmm_inv pm" "pmm_owned pm = insert (pa, ?o) (pmm_owned (h_pmm h))" "pa \<notin> fst ` pmm_owned (h_pmm h)"
        using pmm.alloc_ok[OF pi(1) lp(2) al ne] by auto
      define s where "s = \<lparr>sl_magic = SLAB_MAGIC, sl_size = unat n, sl_objects = 1, sl_free_count = 0,
        sl_base = HHDM_BASE + pa + of_nat large_header, sl_bitmap = [], sl_phys = pa,
        sl_pages = 2 ^ ?o, sl_large = True\<rparr>"
      let ?h = "h\<lparr>h_pmm := pm, g_large := s # g_large h, g_used := g_used h + n\<rparr>"
      have k: "kalloc h n = Ret (?h, sl_base s)"
        using False None al ne by (simp add: kalloc_def Let_def s_def)
      have "unat n \<noteq> 0" using n(2) by (simp add: unat_eq_0)
      moreover have "64 + unat n \<le> 2 ^ ?o * 4096"
        using lp(1) order_loop_ge[of "unat (PAGE_ALIGN_UP (n + of_nat large_header)) div 4096" 0] by linarith
      ultimately have lo: "large_ok s" using lp(2) by (auto simp: large_ok_def s_def)
      then have so: "slab_ok s" by (simp add: slab_ok_def s_def)
      have ord: "sl_ord s = ?o" by (simp add: sl_ord_def s_def order_loop_pow)
      have ab: "all_slabs h = concat (g_classes h) @ g_large h" "all_slabs ?h = concat (g_classes h) @ s # g_large h"
        by (simp_all add: all_slabs_def)
      have so': "slabs_ok pm (all_slabs ?h)"
        unfolding ab by (rule slabs_ok_insert[OF _ so]) (use pi(3) ab a ord in \<open>auto simp: s_def\<close>)
      have bd: "mem_bounded pm" using pmm_alloc_bounded[OF pi(1) lp(2) al] pi(2) by simp
      have sa: "slab_allocs s = {(sl_base s, unat n)}" by (simp add: slab_allocs_def s_def)
      then have ha: "heap_allocs ?h = insert (sl_base s, unat n) (heap_allocs h)"
        unfolding heap_allocs_def ab allocs_of_split by simp
      have nin: "(sl_base s, unat n) \<notin> heap_allocs h"
        using slab_allocs_other[OF a(1) bd so'[unfolded ab(2)]] sa by (simp add: heap_allocs_def ab(1))
      have "heap_inv ?h"
        unfolding heap_inv_def ha using i a(1) bd so' lo nin by (simp add: heap_inv_def)
      moreover have "sl_base s \<noteq> 0"
      proof -
        have "s \<in> set (all_slabs ?h)" by (simp add: ab(2))
        then have "unat (sl_base s) \<noteq> 0"
          using large_addr[OF lo slabs_fit(2)[OF a(1) bd so']] by simp
        then show ?thesis by (metis unat_0)
      qed
      ultimately show thesis using that(2)[OF k _ _ _ nin ha] by simp
    qed
  qed
qed

lemma find_slab_spec:
  "case find_slab ss p j0 of None \<Rightarrow> \<forall>s\<in>set ss. in_slab s p = None
   | Some (j, i) \<Rightarrow> j0 \<le> j \<and> j - j0 < length ss \<and> in_slab (ss ! (j - j0)) p = Some i"
proof (induction ss arbitrary: j0)
  case (Cons s ss)
  show ?case
  proof (cases "in_slab s p")
    case None
    then show ?thesis
      using Cons[of "Suc j0"] by (auto simp: nth_Cons' Suc_diff_Suc Suc_le_eq split: option.splits)
  qed simp
qed simp

lemma find_class_spec:
  "case find_class cs p c0 of None \<Rightarrow> \<forall>s\<in>set (concat cs). in_slab s p = None
   | Some (c, j, i) \<Rightarrow> c0 \<le> c \<and> c - c0 < length cs \<and> j < length (cs ! (c - c0))
       \<and> in_slab (cs ! (c - c0) ! j) p = Some i"
proof (induction cs arbitrary: c0)
  case (Cons ss cs)
  show ?case
  proof (cases "find_slab ss p 0")
    case None
    then show ?thesis
      using Cons[of "Suc c0"] find_slab_spec[where ss = ss and p = p and ?j0.0 = 0]
      by (auto simp: nth_Cons' Suc_diff_Suc Suc_le_eq split: option.splits)
  next
    case (Some a)
    then show ?thesis using find_slab_spec[where ss = ss and p = p and ?j0.0 = 0] by (cases a) simp
  qed
qed simp

lemma used_remove:
  assumes "heap_inv h" "(p, m) \<in> heap_allocs h"
  shows "g_used h - of_nat m = of_nat (\<Sum>(q, l)\<in>heap_allocs h - {(p, m)}. l)"
proof -
  have "(\<Sum>(q, l)\<in>heap_allocs h. l) = m + (\<Sum>(q, l)\<in>heap_allocs h - {(p, m)}. l)"
    using sum.remove[OF finite_heap_allocs assms(2), of "\<lambda>(q, l). l"] by simp
  then show ?thesis using assms(1) by (simp add: heap_inv_def)
qed

lemma kfree_small:
  assumes i: "heap_inv h" and c: "c < HEAP_CLASSES" "j < length (g_classes h ! c)"
    and f: "find_class (g_classes h) p 0 = Some (c, j, b)" "p \<noteq> 0" "unat p < HB + 2 ^ 36"
    and m: "(p, m) \<in> slab_allocs (g_classes h ! c ! j)"
  obtains h' where "kfree h p = Ret h'" "heap_inv h'" "heap_allocs h' = heap_allocs h - {(p, m)}" "g_heap_up h' = g_heap_up h"
proof -
  let ?s = "g_classes h ! c ! j"
  note cs = class_slab[OF i c]
  have l: "c < length (g_classes h)" using i c by (simp add: heap_inv_def)
  have ins: "in_slab ?s p = Some b"
    using find_class_spec[where cs = "g_classes h" and p = p and ?c0.0 = 0] f(1) by simp
  have b: "b < sl_objects ?s" "p = sl_base ?s + of_nat (b * sl_size ?s)"
    using in_slab_small[OF cs(1) c(1) cs(2) f(3) ins] by auto
  have nl: "\<not> sl_large ?s" using cs(1) by (simp add: small_ok_def)
  then obtain b' where b': "b' < sl_objects ?s" "b' \<notin> free_bits (sl_bitmap ?s) (sl_objects ?s)"
    "p = sl_base ?s + of_nat (b' * sl_size ?s)" "m = sl_size ?s"
    using m by (auto simp: slab_allocs_def)
  have "b' = b" by (rule small_inj[OF cs(1) c(1) cs(2) b'(1) b(1)]) (use b b' in simp)
  then have nb: "b \<notin> free_bits (sl_bitmap ?s) (sl_objects ?s)" using b' by simp
  then have ng: "\<not> bitmap_get (sl_bitmap ?s) b" using b(1) by (simp add: free_bits_def)
  let ?s' = "?s\<lparr>sl_bitmap := bitmap_set (sl_bitmap ?s) b True, sl_free_count := sl_free_count ?s + 1\<rparr>"
  note rl = small_release[OF cs(1) c(1) b(1) nb cs(2), folded b(2)]
  obtain A B where ab: "all_slabs h = A @ ?s # B" "\<And>t. all_slabs (put_slab h c j t) = A @ t # B"
    using put_slab_split[OF l c(2)] by blast
  have inv: "pmm_inv (h_pmm h)" "mem_bounded (h_pmm h)" "slabs_ok (h_pmm h) (A @ ?s # B)"
    using i ab by (auto simp: heap_inv_def)
  have "(p, m) \<notin> allocs_of (A @ B)" using slab_allocs_other[OF inv m] .
  then have al: "heap_allocs (put_slab h c j ?s') = heap_allocs h - {(p, m)}"
    unfolding heap_allocs_def ab allocs_of_split using rl(2) b'(4) by auto
  define h1 where "h1 = heap_fill (put_slab h c j ?s') p (sl_size ?s) POISON_FREE"
  let ?u = "g_used h1 - of_nat (sl_size ?s)"
  have r: "kfree h p = Ret (h1\<lparr>g_used := ?u\<rparr>)"
    using f(1,2) ng by (simp add: kfree_def Let_def h1_def)
  have mem: "(p, m) \<in> heap_allocs h" using m by (simp add: heap_allocs_def ab allocs_of_split)
  have "?u = of_nat (\<Sum>(p, m)\<in>heap_allocs (put_slab h c j ?s'). m)"
    unfolding al using used_remove[OF i mem] b'(4) by (simp add: h1_def)
  then have "heap_inv ((put_slab h c j ?s')\<lparr>g_used := ?u\<rparr>)"
    by (intro put_slab_inv[OF i c rl(1)]) simp_all
  then have "heap_inv (h1\<lparr>g_used := ?u\<rparr>)" unfolding h1_def heap_fill_used by simp
  moreover have "heap_allocs (h1\<lparr>g_used := ?u\<rparr>) = heap_allocs h - {(p, m)}"
    unfolding h1_def using al by simp
  ultimately show thesis using that[OF r] by (simp add: h1_def)
qed

lemma kfree_large:
  assumes i: "heap_inv h" and j: "j < length (g_large h)" "find_class (g_classes h) p 0 = None"
    and f: "find_slab (g_large h) p 0 = Some (j, b)" "p \<noteq> 0"
    and m: "(p, m) \<in> slab_allocs (g_large h ! j)"
  obtains h' where "kfree h p = Ret h'" "heap_inv h'" "heap_allocs h' = heap_allocs h - {(p, m)}" "g_heap_up h' = g_heap_up h"
proof -
  let ?s = "g_large h ! j"
  have lo: "large_ok ?s" using i j by (simp add: heap_inv_def)
  have sm: "slab_allocs ?s = {(p, m)}" "m = sl_size ?s"
    using m lo by (auto simp: slab_allocs_def large_ok_def)
  let ?A = "concat (g_classes h) @ take j (g_large h)" and ?B = "drop (Suc j) (g_large h)"
  have ab: "all_slabs h = ?A @ ?s # ?B"
    using id_take_nth_drop[OF j(1)] by (simp add: all_slabs_def)
  have inv: "pmm_inv (h_pmm h)" "mem_bounded (h_pmm h)" "slabs_ok (h_pmm h) (?A @ ?s # ?B)"
    using i ab by (auto simp: heap_inv_def)
  have ow: "(sl_phys ?s, sl_ord ?s) \<in> pmm_owned (h_pmm h)" using inv(3) by (simp add: slabs_ok_def)
  obtain pm where pm: "pmm_free (h_pmm h) (sl_phys ?s) (sl_ord ?s) = Ret pm" "pmm_inv pm"
    "pmm_owned pm = pmm_owned (h_pmm h) - {(sl_phys ?s, sl_ord ?s)}"
    using pmm.free_ok[OF inv(1) ow] by blast
  let ?h = "h\<lparr>g_large := take j (g_large h) @ ?B, g_used := g_used h - of_nat (sl_size ?s), h_pmm := pm\<rparr>"
  have r: "kfree h p = Ret ?h"
    using j(2) f pm(1) by (simp add: kfree_def Let_def sl_ord_def)
  have ab': "all_slabs ?h = ?A @ ?B" by (simp add: all_slabs_def)
  have so: "slabs_ok pm (?A @ ?B)" by (rule slabs_ok_remove[OF inv(3) pm(3)])
  have "(p, m) \<notin> allocs_of (?A @ ?B)" using slab_allocs_other[OF inv m] .
  then have al: "heap_allocs ?h = heap_allocs h - {(p, m)}"
    unfolding heap_allocs_def ab ab' allocs_of_split sm(1) by auto
  have mem: "(p, m) \<in> heap_allocs h" unfolding heap_allocs_def ab allocs_of_split using m by simp
  have "\<forall>s\<in>set (g_large ?h). large_ok s"
    using i by (auto simp: heap_inv_def dest: in_set_takeD in_set_dropD)
  then have "heap_inv ?h"
    unfolding heap_inv_def al ab' using i pm(2) so pmm_free_bounded[OF inv(1) ow pm(1)] inv(2)
      used_remove[OF i mem] sm(2) by (simp add: heap_inv_def)
  then show thesis by (rule that[OF r _ al]) simp
qed

lemma kfree_ok:
  assumes i: "heap_inv h" and m: "(p, m) \<in> heap_allocs h"
  obtains h' where "kfree h p = Ret h'" "heap_inv h'" "heap_allocs h' = heap_allocs h - {(p, m)}" "g_heap_up h' = g_heap_up h"
proof -
  have inv: "pmm_inv (h_pmm h)" "mem_bounded (h_pmm h)" "slabs_ok (h_pmm h) (all_slabs h)"
    using i by (auto simp: heap_inv_def)
  obtain s where s: "s \<in> set (all_slabs h)" "(p, m) \<in> slab_allocs s" using m by (auto simp: heap_allocs_def allocs_of_def)
  note fs = slabs_fit[OF inv s(1)]
  note g = slab_geom[OF fs(1,2) s(2)]
  have p0: "p \<noteq> 0" using g(1) by auto
  have pb: "unat p < HB + 2 ^ 36" using g(2,3) fs(2) by (simp add: slab_fits_def)
  note uniq = alloc_owner_unique[OF inv s]
  note fc = find_class_spec[where cs = "g_classes h" and p = p and ?c0.0 = 0]
    and fl = find_slab_spec[where ss = "g_large h" and p = p and ?j0.0 = 0]
  have len: "length (g_classes h) = HEAP_CLASSES" using i by (simp add: heap_inv_def)
  show thesis
  proof (cases "find_class (g_classes h) p 0")
    case (Some a)
    then obtain c j b where a: "find_class (g_classes h) p 0 = Some (c, j, b)" by (cases a) auto
    have c: "c < HEAP_CLASSES" "j < length (g_classes h ! c)" "in_slab (g_classes h ! c ! j) p = Some b"
      using fc a len by auto
    have "s = g_classes h ! c ! j" by (rule uniq[OF class_slab(3)[OF i c(1,2)] c(3)])
    then show thesis using kfree_small[OF i c(1,2) a p0 pb] s(2) that by blast
  next
    case None
    have lg: "s \<in> set (g_large h)"
    proof (rule ccontr)
      assume "s \<notin> set (g_large h)"
      then have sc: "s \<in> set (concat (g_classes h))" using s(1) by (simp add: all_slabs_def)
      then obtain ss where ss: "ss \<in> set (g_classes h)" "s \<in> set ss" by auto
      then obtain c where c: "c < HEAP_CLASSES" "ss = g_classes h ! c" using len by (metis in_set_conv_nth)
      then have ok: "small_ok c s" using i ss by (auto simp: heap_inv_def)
      then obtain b where "b < sl_objects s" "p = sl_base s + of_nat (b * sl_size s)"
        using s(2) by (auto simp: slab_allocs_def small_ok_def)
      then have "in_slab s p = Some b" using in_slab_hit[OF ok c(1) fs(2)] by simp
      then show False using fc None sc by auto
    qed
    have lo: "large_ok s" using i lg by (simp add: heap_inv_def)
    then have "p = sl_base s" using s(2) by (simp add: slab_allocs_def large_ok_def)
    then have "in_slab s p = Some 0" using lo by (simp add: in_slab_def large_ok_def)
    then obtain j b where a: "find_slab (g_large h) p 0 = Some (j, b)" using fl lg by (auto split: option.splits)
    then have j: "j < length (g_large h)" "in_slab (g_large h ! j) p = Some b" using fl by auto
    have "s = g_large h ! j" by (rule uniq[OF _ j(2)]) (simp add: all_slabs_def j(1))
    then show thesis using kfree_large[OF i j(1) None a p0] s(2) that by blast
  qed
qed

section \<open>The kernel heap as an interface\<close>

text \<open>
  What the object manager, the file system and the process code rely on: an
  allocation returns either 0 or a fresh extent that overlaps no live one, and
  releasing a live extent succeeds and removes exactly that extent.
\<close>

locale kernel_heap =
  fixes inv :: "'h \<Rightarrow> bool"
    and allocs :: "'h \<Rightarrow> (u64 \<times> nat) set"
    and alloc :: "'h \<Rightarrow> u64 \<Rightarrow> ('h \<times> u64) outcome"
    and free :: "'h \<Rightarrow> u64 \<Rightarrow> 'h outcome"
  assumes alloc_total: "inv h \<Longrightarrow> \<exists>h' p. alloc h n = Ret (h', p) \<and> inv h'
      \<and> (if p = 0 then allocs h' = allocs h
          else (\<exists>m. unat n \<le> m \<and> (p, m) \<notin> allocs h \<and> allocs h' = insert (p, m) (allocs h)))"
    and free_live: "inv h \<Longrightarrow> (p, m) \<in> allocs h \<Longrightarrow>
      \<exists>h'. free h p = Ret h' \<and> inv h' \<and> allocs h' = allocs h - {(p, m)}"
    and extents_apart: "inv h \<Longrightarrow> (p, m) \<in> allocs h \<Longrightarrow> (q, l) \<in> allocs h \<Longrightarrow> (p, m) \<noteq> (q, l) \<Longrightarrow>
      unat p + m \<le> unat q \<or> unat q + l \<le> unat p"
    and extent_valid: "inv h \<Longrightarrow> (p, m) \<in> allocs h \<Longrightarrow> p \<noteq> 0 \<and> 0 < m \<and> unat p mod 16 = 0"
begin

definition live :: "'h \<Rightarrow> u64 set" where
  "live h = fst ` allocs h"

lemma extent_unique: "inv h \<Longrightarrow> (p, m) \<in> allocs h \<Longrightarrow> (p, l) \<in> allocs h \<Longrightarrow> m = l"
  using extents_apart[of h p m p l] extent_valid[of h p m] extent_valid[of h p l] by auto

lemma alloc_live:
  assumes i: "inv h" and a: "alloc h n = Ret (h', p)"
  shows "inv h'" "p = 0 \<Longrightarrow> live h' = live h" "p \<noteq> 0 \<Longrightarrow> live h' = insert p (live h) \<and> p \<notin> live h"
proof -
  have al: "inv h'" "if p = 0 then allocs h' = allocs h
      else (\<exists>m. unat n \<le> m \<and> (p, m) \<notin> allocs h \<and> allocs h' = insert (p, m) (allocs h))"
    using alloc_total[OF i, of n] a by auto
  show "inv h'" by fact
  show "live h' = live h" if "p = 0" using al that by (simp add: live_def)
  show "live h' = insert p (live h) \<and> p \<notin> live h" if p: "p \<noteq> 0"
  proof -
    obtain m where m: "(p, m) \<notin> allocs h" "allocs h' = insert (p, m) (allocs h)" using al p by auto
    have "p \<notin> live h"
    proof
      assume "p \<in> live h"
      then obtain l where "(p, l) \<in> allocs h" by (auto simp: live_def)
      then show False using m extent_unique[OF al(1), of p m l] by auto
    qed
    then show ?thesis using m by (simp add: live_def)
  qed
qed

lemma free_live_set:
  assumes "inv h" "p \<in> live h"
  obtains h' where "free h p = Ret h'" "inv h'" "live h' = live h - {p}"
proof -
  obtain m where m: "(p, m) \<in> allocs h" using assms(2) by (auto simp: live_def)
  obtain h' where h': "free h p = Ret h'" "inv h'" "allocs h' = allocs h - {(p, m)}"
    using free_live[OF assms(1) m] by blast
  have "live h' = live h - {p}"
    using extent_unique[OF assms(1) m] unfolding live_def h'(3) by force
  then show thesis using that h' by blast
qed

lemma alloc_free_restores:
  assumes i: "inv h" and a: "alloc h n = Ret (h', p)" "p \<noteq> 0"
  obtains h'' where "free h' p = Ret h''" "inv h''" "live h'' = live h"
proof -
  note al = alloc_live[OF i a(1)]
  have "p \<in> live h'" using al(3) a(2) by simp
  from free_live_set[OF al(1) this] show thesis using al(3) a(2) that by auto
qed

end

lemma kalloc_total:
  assumes "heap_inv h"
  shows "\<exists>h' p. kalloc h n = Ret (h', p) \<and> heap_inv h'
    \<and> (if p = 0 then heap_allocs h' = heap_allocs h
       else (\<exists>m. unat n \<le> m \<and> (p, m) \<notin> heap_allocs h \<and> heap_allocs h' = insert (p, m) (heap_allocs h)))"
  using assms
proof (cases rule: kalloc_cases[where n = n])
  case fail
  then show ?thesis using assms by simp
next
  case (ok h' p m)
  then show ?thesis by auto
qed

lemma kalloc_zero_total:
  assumes "heap_inv h"
  shows "\<exists>h' p. kalloc_zero h n = Ret (h', p) \<and> heap_inv h'
    \<and> (if p = 0 then heap_allocs h' = heap_allocs h
       else (\<exists>m. unat n \<le> m \<and> (p, m) \<notin> heap_allocs h \<and> heap_allocs h' = insert (p, m) (heap_allocs h)))"
proof -
  obtain h' p where k: "kalloc h n = Ret (h', p)" "heap_inv h'"
    "if p = 0 then heap_allocs h' = heap_allocs h
     else (\<exists>m. unat n \<le> m \<and> (p, m) \<notin> heap_allocs h \<and> heap_allocs h' = insert (p, m) (heap_allocs h))"
    using kalloc_total[OF assms] by blast
  then show ?thesis by (cases "p = 0") (auto simp: kalloc_zero_def)
qed

lemma heap_extents_apart:
  assumes "heap_inv h" "(p, m) \<in> heap_allocs h" "(q, l) \<in> heap_allocs h" "(p, m) \<noteq> (q, l)"
  shows "unat p + m \<le> unat q \<or> unat q + l \<le> unat p"
  using allocs_apart[of "h_pmm h" "all_slabs h"] assms by (simp add: heap_inv_def heap_allocs_def)

lemma heap_extent_geom:
  assumes "heap_inv h" "(p, m) \<in> heap_allocs h"
  shows "p \<noteq> 0" "0 < m" "unat p mod 16 = 0" "unat p < HB + 2 ^ 36"
proof -
  have inv: "pmm_inv (h_pmm h)" "mem_bounded (h_pmm h)" "slabs_ok (h_pmm h) (all_slabs h)"
    using assms(1) by (auto simp: heap_inv_def)
  obtain s where s: "s \<in> set (all_slabs h)" "(p, m) \<in> slab_allocs s" using assms(2) by (auto simp: heap_allocs_def allocs_of_def)
  note fs = slabs_fit[OF inv s(1)]
  note g = slab_geom[OF fs(1,2) s(2)]
  show "p \<noteq> 0" "0 < m" "unat p mod 16 = 0" "unat p < HB + 2 ^ 36"
    using g fs(2) by (auto simp: slab_fits_def)
qed

interpretation kh: kernel_heap heap_inv heap_allocs kalloc kfree
proof (unfold_locales, goal_cases)
  case (1 h n)
  then show ?case by (rule kalloc_total)
next
  case (2 h p m)
  then show ?case using kfree_ok by metis
next
  case (3 h p m q l)
  then show ?case by (rule heap_extents_apart)
next
  case (4 h p m)
  then show ?case using heap_extent_geom by blast
qed

interpretation khz: kernel_heap heap_inv heap_allocs kalloc_zero kfree
  by unfold_locales (rule kalloc_zero_total kh.free_live kh.extents_apart kh.extent_valid; assumption)+

text \<open>\<open>kfree\<close> of an address of the direct map that is not a live extent never returns.\<close>

lemma kfree_foreign:
  assumes i: "heap_inv h" and p: "p \<noteq> 0" "p \<notin> fst ` heap_allocs h" "unat p < HB + 2 ^ 36"
  shows "kfree h p = Panic ''heap df'' \<or> kfree h p = Panic ''heap foreign''"
proof (cases "find_class (g_classes h) p 0")
  case (Some a)
  then obtain c j b where a: "find_class (g_classes h) p 0 = Some (c, j, b)" by (cases a) auto
  have c: "c < HEAP_CLASSES" "j < length (g_classes h ! c)" "in_slab (g_classes h ! c ! j) p = Some b"
    using find_class_spec[where cs = "g_classes h" and p = p and ?c0.0 = 0] a i by (auto simp: heap_inv_def)
  let ?s = "g_classes h ! c ! j"
  note cs = class_slab[OF i c(1,2)]
  have b: "b < sl_objects ?s" "p = sl_base ?s + of_nat (b * sl_size ?s)"
    using in_slab_small[OF cs(1) c(1) cs(2) p(3) c(3)] by auto
  have "bitmap_get (sl_bitmap ?s) b"
  proof (rule ccontr)
    assume "\<not> bitmap_get (sl_bitmap ?s) b"
    then have "(p, sl_size ?s) \<in> slab_allocs ?s"
      using b cs(1) by (auto simp: slab_allocs_def small_ok_def free_bits_def)
    then have "(p, sl_size ?s) \<in> heap_allocs h" using cs(3) by (auto simp: heap_allocs_def allocs_of_def)
    then show False using p(2) by force
  qed
  then show ?thesis using a p(1) by (simp add: kfree_def Let_def)
next
  case None
  have "find_slab (g_large h) p 0 = None"
  proof (rule ccontr)
    assume "find_slab (g_large h) p 0 \<noteq> None"
    then obtain j b where a: "find_slab (g_large h) p 0 = Some (j, b)" by auto
    then have j: "j < length (g_large h)" "in_slab (g_large h ! j) p = Some b"
      using find_slab_spec[where ss = "g_large h" and p = p and ?j0.0 = 0] by auto
    then have "large_ok (g_large h ! j)" using i by (simp add: heap_inv_def)
    then have "(p, sl_size (g_large h ! j)) \<in> slab_allocs (g_large h ! j)"
      using j(2) by (auto simp: slab_allocs_def large_ok_def in_slab_def split: if_splits)
    then have "(p, sl_size (g_large h ! j)) \<in> heap_allocs h"
      using j(1) by (auto simp: heap_allocs_def allocs_of_def all_slabs_def)
    then show False using p(2) by force
  qed
  then show ?thesis using None p(1) by (simp add: kfree_def)
qed

lemma heap_init_ok:
  assumes "pmm_inv pm" "mem_bounded pm"
  shows "heap_inv (heap_init pm)" "heap_allocs (heap_init pm) = {}"
  using assms
  by (simp_all add: heap_inv_def heap_init_def all_slabs_def slabs_ok_def heap_allocs_def allocs_of_def)

definition demo_heap :: kheap where
  "demo_heap = heap_init demo_pmm"

lemma demo_heap_inv: "heap_inv demo_heap"
  unfolding demo_heap_def
  by (rule heap_init_ok(1)[OF demo_pmm_inv]) (simp add: mem_bounded_def demo_pmm_eq demo_raw_def)

lemma demo_heap_alloc:
  obtains h' m where "kalloc demo_heap 100 = Ret (h', 0xFFFF800000100080)" "heap_inv h'"
    "(0xFFFF800000100080, m) \<in> heap_allocs h'"
proof -
  obtain pm pa where al: "pmm_alloc demo_pmm 0 (PMM_KERNEL OR PMM_ZERO) = (pm, pa)" by fastforce
  have "snd (pmm_alloc demo_pmm 0 (PMM_KERNEL OR PMM_ZERO)) = 0x100000"
    unfolding demo_pmm_eq demo_raw_def by (simp add: pmm_eval)
  then have al: "pmm_alloc demo_pmm 0 (PMM_KERNEL OR PMM_ZERO) = (pm, 0x100000)" using al by simp
  have "class_of 100 = Some 3" by (simp add: class_of_def k_sizes_def)
  moreover have "shrink_objects 128 31 = 31" using shrink_objects_idle[of 31] by simp
  ultimately obtain h1 where k: "kalloc demo_heap 100 = Ret (h1, 0xFFFF800000100080)"
    using al by (simp add: kalloc_def slab_alloc_def slab_new_def slab_take_def demo_heap_def heap_init_def
        k_sizes_def slab_pages_def Let_def first_bit.simps bitmap_get_full)
  from demo_heap_inv show thesis
  proof (cases rule: kalloc_cases[where n = 100])
    case fail
    then show thesis using k by simp
  next
    case (ok h' p m)
    then show thesis using k that[of h' m] by simp
  qed
qed

section \<open>Properties\<close>

text \<open>C4. \<open>kalloc\<close> never panics or hangs on a well-formed heap; it returns 0 and leaves
  the heap alone, or returns a 16-byte aligned extent of at least the requested
  size that overlaps no live extent.\<close>

theorem kalloc_fresh:
  assumes "heap_inv h"
  shows "\<exists>h' p. kalloc h n = Ret (h', p) \<and> heap_inv h' \<and>
    (if p = 0 then h' = h
     else (\<exists>m. unat n \<le> m \<and> unat p mod 16 = 0 \<and> heap_allocs h' = insert (p, m) (heap_allocs h)
       \<and> (\<forall>(q, l) \<in> heap_allocs h. unat p + m \<le> unat q \<or> unat q + l \<le> unat p)))"
  using assms
proof (cases rule: kalloc_cases[where n = n])
  case fail
  then show ?thesis using assms by simp
next
  case (ok h' p m)
  have "unat p + m \<le> unat q \<or> unat q + l \<le> unat p" if "(q, l) \<in> heap_allocs h" for q l
    using kh.extents_apart[OF ok(2), of p m q l] that ok(5,6) by auto
  moreover have "unat p mod 16 = 0" using kh.extent_valid[OF ok(2), of p m] ok(6) by simp
  ultimately show ?thesis using ok by auto
qed

theorem kalloc_fresh_witness:
  "\<exists>h' p. kalloc demo_heap 100 = Ret (h', p) \<and> heap_inv h' \<and>
    (if p = 0 then h' = demo_heap
     else (\<exists>m. unat (100::u64) \<le> m \<and> unat p mod 16 = 0 \<and> heap_allocs h' = insert (p, m) (heap_allocs demo_heap)
       \<and> (\<forall>(q, l) \<in> heap_allocs demo_heap. unat p + m \<le> unat q \<or> unat q + l \<le> unat p)))"
  by (rule kalloc_fresh[OF demo_heap_inv])

text \<open>C5. \<open>kfree\<close> of a live extent returns, keeps the heap well formed and removes
  exactly that extent, whether it came from a size class or from whole pages.\<close>

theorem kfree_exact:
  assumes "heap_inv h" "(p, m) \<in> heap_allocs h"
  shows "\<exists>h'. kfree h p = Ret h' \<and> heap_inv h' \<and> heap_allocs h' = heap_allocs h - {(p, m)}
    \<and> g_used h' = g_used h - of_nat m"
proof -
  obtain h' where h': "kfree h p = Ret h'" "heap_inv h'" "heap_allocs h' = heap_allocs h - {(p, m)}"
    using kfree_ok[OF assms] by blast
  then show ?thesis using used_remove[OF assms] by (auto simp: heap_inv_def)
qed

theorem kfree_exact_witness:
  "\<exists>h h' m. kalloc demo_heap 100 = Ret (h, 0xFFFF800000100080) \<and> kfree h 0xFFFF800000100080 = Ret h'
    \<and> heap_inv h' \<and> heap_allocs h' = heap_allocs h - {(0xFFFF800000100080, m)}"
proof -
  obtain h m where h: "kalloc demo_heap 100 = Ret (h, 0xFFFF800000100080)" "heap_inv h"
    "(0xFFFF800000100080, m) \<in> heap_allocs h" by (rule demo_heap_alloc)
  then show ?thesis using kfree_exact[OF h(2,3)] by blast
qed

text \<open>\<open>kfree\<close> of any other address of the direct map of up to 64 GiB of memory (a
  double free, an interior pointer, a foreign pointer) stops the machine.\<close>

theorem kfree_wild_panics:
  assumes "heap_inv h" "p \<noteq> 0" "p \<notin> fst ` heap_allocs h" "unat p < unat HHDM_BASE + 2 ^ 36"
  shows "kfree h p = Panic ''heap df'' \<or> kfree h p = Panic ''heap foreign''"
  using kfree_foreign[OF assms(1-3)] assms(4) by simp

theorem kfree_wild_panics_witness:
  "kfree demo_heap 0xFFFF800000100080 = Panic ''heap df''
    \<or> kfree demo_heap 0xFFFF800000100080 = Panic ''heap foreign''"
proof (rule kfree_wild_panics[OF demo_heap_inv])
  show "0xFFFF800000100080 \<notin> fst ` heap_allocs demo_heap"
    by (simp add: demo_heap_def heap_allocs_def allocs_of_def all_slabs_def heap_init_def)
qed simp_all

end
