(* ===== verification/Vmm.thy ===== *)
theory Vmm
  imports Heap_Correct
begin

text \<open>
  Address spaces, \<^verbatim>\<open>kernel/mm/vmm.c\<close> (hardware build): the array of virtual address
  descriptors (VADs), the four-level page tables kept in physical memory, demand-zero
  population, the copies between kernel and user memory, and the calls that
  reserve, release and re-protect user ranges.  The live prefix of \<open>vads\<close> is a HOL list, so
  \<open>vad_count\<close> is its length.  A pointer into a page table is the physical address of the
  entry; the direct map makes the two interchangeable.  TLB invalidation has no counterpart.
\<close>

section \<open>Data\<close>

abbreviation (input) PTE_P :: u64 where "PTE_P \<equiv> 0x1"
abbreviation (input) PTE_W :: u64 where "PTE_W \<equiv> 0x2"
abbreviation (input) PTE_U :: u64 where "PTE_U \<equiv> 0x4"
abbreviation (input) PTE_PS :: u64 where "PTE_PS \<equiv> 0x80"
abbreviation (input) PTE_G :: u64 where "PTE_G \<equiv> 0x100"
abbreviation (input) PTE_SW_COMMIT :: u64 where "PTE_SW_COMMIT \<equiv> 0x200"
abbreviation (input) PTE_NX :: u64 where "PTE_NX \<equiv> 0x8000000000000000"
abbreviation (input) PTE_ADDR :: u64 where "PTE_ADDR \<equiv> 0x000FFFFFFFFFF000"

abbreviation (input) PAGE_NOACCESS :: u32 where "PAGE_NOACCESS \<equiv> 0x01"
abbreviation (input) PAGE_READONLY :: u32 where "PAGE_READONLY \<equiv> 0x02"
abbreviation (input) PAGE_READWRITE :: u32 where "PAGE_READWRITE \<equiv> 0x04"
abbreviation (input) PAGE_EXECUTE :: u32 where "PAGE_EXECUTE \<equiv> 0x10"
abbreviation (input) PAGE_EXECUTE_READ :: u32 where "PAGE_EXECUTE_READ \<equiv> 0x20"
abbreviation (input) PAGE_EXECUTE_READWRITE :: u32 where "PAGE_EXECUTE_READWRITE \<equiv> 0x40"

abbreviation (input) MEM_COMMIT :: u32 where "MEM_COMMIT \<equiv> 0x1000"
abbreviation (input) MAX_VADS :: nat where "MAX_VADS \<equiv> 64"
abbreviation (input) UNMAP_BATCH :: nat where "UNMAP_BATCH \<equiv> 16"
abbreviation (input) KERNEL_PML4_START :: nat where "KERNEL_PML4_START \<equiv> 256"
abbreviation (input) COPY_MAX :: u64 where "COPY_MAX \<equiv> 0x100000"
abbreviation (input) USER_COMMIT_MAX :: u64 where "USER_COMMIT_MAX \<equiv> 0x2000000"
abbreviation (input) USER_STACK_SIZE :: u64 where "USER_STACK_SIZE \<equiv> 0x20000"
abbreviation (input) KERNEL_STACK_BASE :: u64 where "KERNEL_STACK_BASE \<equiv> 0xFFFFA00000000000"
abbreviation (input) KSTACK_SIZE :: u64 where "KSTACK_SIZE \<equiv> 0x4000"
abbreviation (input) KSTACK_STRIDE :: u64 where "KSTACK_STRIDE \<equiv> 0x8000"
abbreviation (input) MAX_THREADS :: u64 where "MAX_THREADS \<equiv> 256"
abbreviation (input) IST_STACK_BASE :: u64 where "IST_STACK_BASE \<equiv> 0xFFFFA00000800000"

record vad =
  v_start :: virt_t
  v_end :: virt_t
  v_prot :: u32
  v_type :: u32
  v_committed :: u32

record aspace =
  as_cr3 :: phys_t
  as_vads :: "vad list"
  as_committed :: u64
  as_brk :: virt_t
  as_stack_base :: virt_t

section \<open>The VAD array\<close>

definition vad_has :: "virt_t \<Rightarrow> vad \<Rightarrow> bool" where
  "vad_has page v \<longleftrightarrow> v_start v \<le> page \<and> page < v_end v"

fun find_index :: "('a \<Rightarrow> bool) \<Rightarrow> 'a list \<Rightarrow> nat \<Rightarrow> nat option" where
  "find_index P [] i = None"
| "find_index P (x # xs) i = (if P x then Some i else find_index P xs (Suc i))"

definition vad_lookup :: "aspace \<Rightarrow> virt_t \<Rightarrow> nat option" where
  "vad_lookup as page = find_index (vad_has page) (as_vads as) 0"

definition vad_contains_range :: "aspace \<Rightarrow> virt_t \<Rightarrow> virt_t \<Rightarrow> nat option" where
  "vad_contains_range as base e =
     (if e \<le> base then None
      else find_index (\<lambda>v. v_start v \<le> base \<and> e \<le> v_end v) (as_vads as) 0)"

text \<open>The loop of \<open>vad_run_covers\<close>: \<open>n\<close> counts the descriptors met and is cut off at \<open>MAX_VADS\<close>.\<close>

function run_loop :: "aspace \<Rightarrow> virt_t \<Rightarrow> virt_t \<Rightarrow> nat \<Rightarrow> nat option" where
  "run_loop as cur e n =
     (if cur < e then
        (case vad_lookup as cur of
           None \<Rightarrow> None
         | Some i \<Rightarrow>
             if v_end (as_vads as ! i) \<le> cur then None
             else if Suc n > MAX_VADS then None
             else run_loop as (v_end (as_vads as ! i)) e (Suc n))
      else Some n)"
  by pat_completeness auto
termination by (relation "measure (\<lambda>(as, cur, e, n). 64 - n)") auto

declare run_loop.simps [simp del]

definition vad_run_covers :: "aspace \<Rightarrow> virt_t \<Rightarrow> virt_t \<Rightarrow> (nat \<times> nat) option" where
  "vad_run_covers as base e =
     (if e \<le> base then None
      else case vad_lookup as (PAGE_ALIGN_DOWN base) of
             None \<Rightarrow> None
           | Some first \<Rightarrow> map_option (\<lambda>n. (first, n)) (run_loop as base e 0))"

definition vad_append :: "aspace \<Rightarrow> virt_t \<Rightarrow> virt_t \<Rightarrow> u32 \<Rightarrow> u32 \<Rightarrow> u32 \<Rightarrow> aspace" where
  "vad_append as s e prot typ com =
     as\<lparr>as_vads := as_vads as @
        [\<lparr>v_start = s, v_end = e, v_prot = prot, v_type = typ, v_committed = com\<rparr>]\<rparr>"

definition vad_remove_at :: "aspace \<Rightarrow> nat \<Rightarrow> aspace" where
  "vad_remove_at as i = as\<lparr>as_vads := butlast ((as_vads as)[i := last (as_vads as)])\<rparr>"

definition vad_joins :: "vad \<Rightarrow> vad \<Rightarrow> bool" where
  "vad_joins v w \<longleftrightarrow> v_end v = v_start w \<and> v_prot v = v_prot w \<and> v_type v = v_type w \<and>
     v_committed v = v_committed w"

text \<open>The double loop: for each \<open>i\<close> in turn, the first \<open>j\<close> different from \<open>i\<close> that continues it.\<close>

definition coalesce_at :: "vad list \<Rightarrow> nat \<Rightarrow> nat option" where
  "coalesce_at vs i = find_index (\<lambda>j. i \<noteq> j \<and> vad_joins (vs ! i) (vs ! j)) [0..<length vs] 0"

definition coalesce_pair :: "vad list \<Rightarrow> (nat \<times> nat) option" where
  "coalesce_pair vs =
     (case find_index (\<lambda>i. coalesce_at vs i \<noteq> None) [0..<length vs] 0 of
        None \<Rightarrow> None
      | Some i \<Rightarrow> map_option (\<lambda>j. (i, j)) (coalesce_at vs i))"

lemma find_index_Some:
  "find_index P xs k = Some i \<longleftrightarrow>
     k \<le> i \<and> i - k < length xs \<and> P (xs ! (i - k)) \<and> (\<forall>j<i - k. \<not> P (xs ! j))"
proof (induction xs arbitrary: k i)
  case (Cons x xs)
  show ?case
  proof (cases "P x")
    case True
    then show ?thesis by (auto simp: nth_Cons' intro: Nat.gr0I)
  next
    case False
    have "(Suc k \<le> i \<and> i - Suc k < length xs \<and> P (xs ! (i - Suc k)) \<and> (\<forall>j<i - Suc k. \<not> P (xs ! j))) \<longleftrightarrow>
          (k \<le> i \<and> i - k < length (x # xs) \<and> P ((x # xs) ! (i - k)) \<and> (\<forall>j<i - k. \<not> P ((x # xs) ! j)))"
      (is "?l \<longleftrightarrow> ?r")
    proof
      assume ?l
      moreover from \<open>?l\<close> obtain m where m: "i = Suc k + m" using le_Suc_ex by blast
      ultimately show ?r using False by (auto simp: nth_Cons' Suc_diff_le)
    next
      assume r: ?r
      then have "i \<noteq> k" using False by auto
      with r obtain m where "i = Suc k + m" using le_Suc_ex[of "Suc k" i] by auto
      with r show ?l by (auto simp: Suc_diff_le)
    qed
    then show ?thesis using False Cons.IH[of "Suc k" i] by simp
  qed
qed simp

lemma find_index_None: "find_index P xs k = None \<longleftrightarrow> (\<forall>x\<in>set xs. \<not> P x)"
  by (induction xs arbitrary: k) auto

lemma coalesce_pair_Some:
  assumes "coalesce_pair vs = Some (i, j)"
  shows "i < length vs" "j < length vs" "i \<noteq> j" "vad_joins (vs ! i) (vs ! j)"
  using assms unfolding coalesce_pair_def coalesce_at_def
  by (auto split: option.splits simp: find_index_Some)

function vad_coalesce :: "aspace \<Rightarrow> aspace" where
  "vad_coalesce as =
     (case coalesce_pair (as_vads as) of
        None \<Rightarrow> as
      | Some (i, j) \<Rightarrow>
          vad_coalesce (vad_remove_at
            (as\<lparr>as_vads := (as_vads as)[i := (as_vads as ! i)\<lparr>v_end := v_end (as_vads as ! j)\<rparr>]\<rparr>) j))"
  by pat_completeness auto
termination
  by (relation "measure (\<lambda>as. length (as_vads as))")
     (auto simp: vad_remove_at_def dest: coalesce_pair_Some)

declare vad_coalesce.simps [simp del]

section \<open>Page tables\<close>

definition pte_flags_from_prot :: "u32 \<Rightarrow> u64" where
  "pte_flags_from_prot prot =
     (let f = PTE_P OR PTE_U;
          f = (if prot AND (PAGE_READWRITE OR PAGE_EXECUTE_READWRITE) \<noteq> 0 then f OR PTE_W else f)
      in if prot AND (PAGE_EXECUTE OR PAGE_EXECUTE_READ OR PAGE_EXECUTE_READWRITE) = 0
         then f OR PTE_NX else f)"

text \<open>Little-endian 64-bit accesses to physical memory.\<close>

fun le_bytes :: "nat \<Rightarrow> (nat \<Rightarrow> u8) \<Rightarrow> u64" where
  "le_bytes 0 f = 0"
| "le_bytes (Suc n) f = le_bytes n f OR push_bit (8 * n) (ucast (f n))"

definition rd64 :: "(phys_t \<Rightarrow> u8) \<Rightarrow> phys_t \<Rightarrow> u64" where
  "rd64 m a = le_bytes 8 (\<lambda>i. m (a + of_nat i))"

definition wr64 :: "(phys_t \<Rightarrow> u8) \<Rightarrow> phys_t \<Rightarrow> u64 \<Rightarrow> phys_t \<Rightarrow> u8" where
  "wr64 m a v = (\<lambda>x. if unat (x - a) < 8 then ucast (drop_bit (8 * unat (x - a)) v) else m x)"

definition pte_get :: "pmm \<Rightarrow> phys_t \<Rightarrow> u64" where
  "pte_get pm a = rd64 (g_ram pm) a"

definition pte_put :: "pmm \<Rightarrow> phys_t \<Rightarrow> u64 \<Rightarrow> pmm" where
  "pte_put pm a v = pm\<lparr>g_ram := wr64 (g_ram pm) a v\<rparr>"

definition pt_alloc :: "pmm \<Rightarrow> pmm \<times> phys_t" where
  "pt_alloc pm = pmm_alloc pm 0 (PMM_KERNEL OR PMM_ZERO)"

text \<open>The entry of a table that level \<open>lv\<close> of the walk uses for \<open>va\<close> (4 is the root).\<close>

definition pt_index :: "nat \<Rightarrow> virt_t \<Rightarrow> u64" where
  "pt_index lv va = drop_bit (12 + 9 * (lv - 1)) va AND 0x1FF"

definition pt_slot :: "phys_t \<Rightarrow> nat \<Rightarrow> virt_t \<Rightarrow> phys_t" where
  "pt_slot table lv va = table + 8 * pt_index lv va"

definition table_user :: "virt_t \<Rightarrow> u64" where
  "table_user va = (if unat (pt_index 4 va) < KERNEL_PML4_START then PTE_U else 0)"

text \<open>One step of the walk: follow a present entry, or install a fresh table.\<close>

definition walk_step :: "pmm \<Rightarrow> phys_t \<Rightarrow> u64 \<Rightarrow> bool \<Rightarrow> pmm \<times> phys_t option" where
  "walk_step pm slot u create =
     (if pte_get pm slot AND PTE_P \<noteq> 0 then (pm, Some (pte_get pm slot AND PTE_ADDR))
      else if \<not> create then (pm, None)
      else let (pm1, n) = pt_alloc pm
           in if n = PMM_INVALID then (pm1, None)
              else let pm2 = pte_put pm1 slot (n OR PTE_P OR PTE_W OR u)
                   in (pm2, Some (pte_get pm2 slot AND PTE_ADDR)))"

definition walk_alloc :: "pmm \<Rightarrow> phys_t \<Rightarrow> virt_t \<Rightarrow> bool \<Rightarrow> pmm \<times> phys_t option" where
  "walk_alloc pm cr3 va create =
     (let u = table_user va
      in case walk_step pm (pt_slot cr3 4 va) u create of
           (pm1, None) \<Rightarrow> (pm1, None)
         | (pm1, Some pdpt) \<Rightarrow>
             (case walk_step pm1 (pt_slot pdpt 3 va) u create of
                (pm2, None) \<Rightarrow> (pm2, None)
              | (pm2, Some pd) \<Rightarrow>
                  if pte_get pm2 (pt_slot pd 2 va) AND PTE_PS \<noteq> 0 then (pm2, None)
                  else (case walk_step pm2 (pt_slot pd 2 va) u create of
                          (pm3, None) \<Rightarrow> (pm3, None)
                        | (pm3, Some pt) \<Rightarrow> (pm3, Some (pt_slot pt 1 va)))))"

text \<open>A walk that may not create tables leaves memory alone.\<close>

definition walk :: "pmm \<Rightarrow> phys_t \<Rightarrow> virt_t \<Rightarrow> phys_t option" where
  "walk pm cr3 va = snd (walk_alloc pm cr3 va False)"

definition walk_fill_one :: "pmm \<Rightarrow> phys_t \<Rightarrow> virt_t \<Rightarrow> phys_t \<Rightarrow> pmm \<times> bool" where
  "walk_fill_one pm cr3 va n =
     (let u = table_user va; ent = n OR PTE_P OR PTE_W OR u; s4 = pt_slot cr3 4 va
      in if pte_get pm s4 AND PTE_P = 0 then (pte_put pm s4 ent, True)
         else let s3 = pt_slot (pte_get pm s4 AND PTE_ADDR) 3 va
              in if pte_get pm s3 AND PTE_P = 0 then (pte_put pm s3 ent, True)
                 else let s2 = pt_slot (pte_get pm s3 AND PTE_ADDR) 2 va
                      in if pte_get pm s2 AND PTE_PS \<noteq> 0 then (pm, False)
                         else if pte_get pm s2 AND PTE_P = 0 then (pte_put pm s2 ent, True)
                              else (pm, False))"

fun ensure_loop :: "nat \<Rightarrow> pmm \<Rightarrow> phys_t \<Rightarrow> virt_t \<Rightarrow> (pmm \<times> status_t) outcome" where
  "ensure_loop 0 pm cr3 page = Ret (pm, STATUS_NO_MEMORY)"
| "ensure_loop (Suc t) pm cr3 page =
     (let (pm1, n) = pt_alloc pm
      in if n = PMM_INVALID then Ret (pm1, STATUS_NO_MEMORY)
         else let (pm2, used) = walk_fill_one pm1 cr3 page n;
                  found = walk pm2 cr3 page \<noteq> None
              in bind_outcome (if used then Ret pm2 else pmm_free pm2 n 0)
                   (\<lambda>pm3. if found then Ret (pm3, STATUS_SUCCESS) else ensure_loop t pm3 cr3 page))"

definition vmm_ensure_leaf :: "pmm \<Rightarrow> phys_t \<Rightarrow> virt_t \<Rightarrow> (pmm \<times> status_t) outcome" where
  "vmm_ensure_leaf pm cr3 page =
     (if walk pm cr3 page \<noteq> None then Ret (pm, STATUS_SUCCESS) else ensure_loop 16 pm cr3 page)"

text \<open>Clearing leaves: the frames found are collected, at most \<open>n\<close> of them.\<close>

fun collect_loop :: "nat \<Rightarrow> pmm \<Rightarrow> phys_t \<Rightarrow> virt_t \<Rightarrow> pmm \<times> phys_t list" where
  "collect_loop 0 pm cr3 page = (pm, [])"
| "collect_loop (Suc n) pm cr3 page =
     (case walk pm cr3 page of
        None \<Rightarrow> collect_loop n pm cr3 (page + PAGE_SIZE)
      | Some pte \<Rightarrow>
          let pa = pte_get pm pte AND PTE_ADDR;
              (pm1, fr) = collect_loop n (pte_put pm pte 0) cr3 (page + PAGE_SIZE)
          in (pm1, if pa \<noteq> 0 then pa # fr else fr))"

definition collect_clear_locked :: "pmm \<Rightarrow> phys_t \<Rightarrow> virt_t \<Rightarrow> nat \<Rightarrow> nat \<Rightarrow> pmm \<times> phys_t list \<times> nat" where
  "collect_clear_locked pm cr3 va n_pages cap =
     (let n = min n_pages cap; (pm1, fr) = collect_loop n pm cr3 va in (pm1, fr, n))"

fun pmm_free_list :: "pmm \<Rightarrow> phys_t list \<Rightarrow> pmm outcome" where
  "pmm_free_list pm [] = Ret pm"
| "pmm_free_list pm (f # fs) = bind_outcome (pmm_free pm f 0) (\<lambda>pm1. pmm_free_list pm1 fs)"

end
