(* ===== verification/Vmm_Ops.thy ===== *)
theory Vmm_Ops
  imports Vmm
begin

text \<open>
  The exported operations of \<^verbatim>\<open>kernel/mm/vmm.c\<close> (hardware build): boot mappings, kernel
  stacks, mapping and unmapping, teardown of an address space, demand-zero population,
  allocation, release and protection of user ranges, and the user copies.  Operations that only
  touch page tables take the physical allocator; those that use a scratch array take the heap.
\<close>

section \<open>Boot mappings\<close>

definition pt_put :: "phys_t \<Rightarrow> nat \<Rightarrow> u64 \<Rightarrow> pmm \<Rightarrow> pmm" where
  "pt_put table i v pm = pte_put pm (table + 8 * of_nat i) v"

definition fill_lo_pt :: "pmm \<Rightarrow> phys_t \<Rightarrow> phys_t \<Rightarrow> phys_t \<Rightarrow> phys_t \<Rightarrow> pmm" where
  "fill_lo_pt pm pt base rx_lo rx_hi =
     fold (\<lambda>i. let pa = base + of_nat i * PAGE_SIZE;
                   f = PTE_P OR PTE_G OR PTE_NX
               in pt_put pt i (pa OR (if pa < rx_lo \<or> pa \<ge> rx_hi then f OR PTE_W else f))) [0..<512] pm"

partial_function (option) split_loop ::
    "pmm \<Rightarrow> phys_t \<Rightarrow> phys_t \<Rightarrow> phys_t \<Rightarrow> phys_t \<Rightarrow> pmm outcome option" where
  "split_loop pm pd base rx_lo rx_hi =
     (if base < rx_hi then
        (let (pm1, ptp) = pt_alloc pm
         in if ptp = PMM_INVALID then Some (Panic ''vmm: hhdm split'')
            else split_loop
                   (pt_put pd (unat (drop_bit 21 base AND 0x1FF)) (ptp OR PTE_P OR PTE_W OR PTE_G)
                      (fill_lo_pt pm1 ptp base rx_lo rx_hi))
                   pd (base + 0x200000) rx_lo rx_hi)
      else Some (Ret pm))"

definition of_loop :: "'a outcome option \<Rightarrow> 'a outcome" where
  "of_loop r = (case r of None \<Rightarrow> Hang | Some x \<Rightarrow> x)"

definition kernel_pages2m :: "phys_t \<Rightarrow> u64 \<Rightarrow> u64" where
  "kernel_pages2m kphys ksize =
     (let k = (PAGE_ALIGN_UP (ksize + (kphys AND 0x1FFFFF)) + 0x1FFFFF) div 0x200000
      in if k < 2 then 2 else k)"

definition map_kernel_image :: "pmm \<Rightarrow> phys_t \<Rightarrow> phys_t \<Rightarrow> u64 \<Rightarrow> virt_t \<Rightarrow> pmm" where
  "map_kernel_image pm kpd kphys ksize rx_end =
     fold (\<lambda>i. let off = of_nat i * 0x200000; flags = PTE_P OR PTE_PS OR PTE_G;
                   fl = (if KERNEL_VMA + off \<ge> rx_end then flags OR PTE_W OR PTE_NX else flags)
               in pt_put kpd i (((kphys AND NOT 0x1FFFFF) + off) OR fl))
          [0..<min (unat (kernel_pages2m kphys ksize)) 512] pm"

text \<open>
  \<open>rx_end\<close> is the linker symbol \<open>_rx_end\<close>.  The result is the new physical memory and the
  kernel root table, which becomes \<open>g_kernel_cr3\<close> and the root of \<open>g_kernel_as\<close>.
\<close>

definition vmm_init :: "pmm \<Rightarrow> phys_t \<Rightarrow> u64 \<Rightarrow> virt_t \<Rightarrow> (pmm \<times> phys_t) outcome" where
  "vmm_init pm kphys ksize rx_end =
     (let (pm, cr3) = pt_alloc pm
      in if cr3 = PMM_INVALID then Panic ''vmm: cr3''
         else let rx_lo = PAGE_ALIGN_DOWN kphys;
                  rx_hi = PAGE_ALIGN_UP (rx_end - KERNEL_VMA);
                  (pm, pdpt_p) = pt_alloc pm;
                  (pm, pd_p) = pt_alloc pm
              in if pdpt_p = PMM_INVALID \<or> pd_p = PMM_INVALID then Panic ''vmm: hhdm''
                 else let pm = pt_put cr3 256 (pdpt_p OR PTE_P OR PTE_W OR PTE_G) pm;
                          pm = pt_put pdpt_p 0 (pd_p OR PTE_P OR PTE_W OR PTE_G) pm;
                          pm = fold (\<lambda>i. pt_put pd_p i (push_bit 21 (of_nat i) OR PTE_P OR PTE_W OR PTE_PS OR
                                                        PTE_G OR PTE_NX)) [0..<512] pm
      in bind_outcome (of_loop (split_loop pm pd_p (rx_lo AND NOT 0x1FFFFF) rx_lo rx_hi)) (\<lambda>pm.
         let (pm, id_pdpt) = pt_alloc pm; (pm, id_pd) = pt_alloc pm; (pm, id_pt) = pt_alloc pm
         in if id_pdpt = PMM_INVALID \<or> id_pd = PMM_INVALID \<or> id_pt = PMM_INVALID then Panic ''vmm: ident''
            else let pm = pt_put cr3 0 (id_pdpt OR PTE_P OR PTE_W OR PTE_G) pm;
                     pm = pt_put id_pdpt 0 (id_pd OR PTE_P OR PTE_W OR PTE_G) pm;
                     pm = pt_put id_pd 0 (id_pt OR PTE_P OR PTE_W OR PTE_G) pm;
                     pm = fill_lo_pt pm id_pt 0 rx_lo rx_hi;
                     (pm, kpdpt_p) = pt_alloc pm;
                     (pm, kpd_p) = pt_alloc pm
                 in if kpdpt_p = PMM_INVALID \<or> kpd_p = PMM_INVALID then Panic ''vmm: kmap''
                    else let pm = pt_put cr3 511 (kpdpt_p OR PTE_P OR PTE_W OR PTE_G) pm;
                             pm = pt_put kpdpt_p 510 (kpd_p OR PTE_P OR PTE_W OR PTE_G) pm;
                             pm = map_kernel_image pm kpd_p kphys ksize rx_end;
                             pm = pt_put cr3 510 (cr3 OR PTE_P OR PTE_W OR PTE_NX) pm;
                             pm = pmm_enter_hhdm pm
                         in case walk_alloc pm cr3 KERNEL_STACK_BASE True of
                              (pm, None) \<Rightarrow> Panic ''vmm: kstack slot''
                            | (pm, Some _) \<Rightarrow>
                                (case walk_alloc pm cr3 IST_STACK_BASE True of
                                   (pm, None) \<Rightarrow> Panic ''vmm: ist slot''
                                 | (pm, Some _) \<Rightarrow> Ret (pm, cr3))))"

section \<open>Mapping and unmapping\<close>

fun vmm_map_loop :: "nat \<Rightarrow> pmm \<Rightarrow> phys_t \<Rightarrow> virt_t \<Rightarrow> phys_t \<Rightarrow> u64 \<Rightarrow> (pmm \<times> status_t) outcome" where
  "vmm_map_loop 0 pm cr3 page pa flags = Ret (pm, STATUS_SUCCESS)"
| "vmm_map_loop (Suc n) pm cr3 page pa flags =
     bind_outcome (vmm_ensure_leaf pm cr3 page) (\<lambda>(pm1, st).
       if \<not> NT_SUCCESS st then Ret (pm1, st)
       else case walk pm1 cr3 page of
              None \<Rightarrow> Ret (pm1, STATUS_NO_MEMORY)
            | Some pte \<Rightarrow>
                vmm_map_loop n (pte_put pm1 pte (pa OR flags OR PTE_P)) cr3
                  (page + PAGE_SIZE) (pa + PAGE_SIZE) flags)"

definition vmm_map :: "pmm \<Rightarrow> aspace \<Rightarrow> virt_t \<Rightarrow> phys_t \<Rightarrow> u64 \<Rightarrow> u64 \<Rightarrow> (pmm \<times> status_t) outcome" where
  "vmm_map pm as va pa n_pages flags = vmm_map_loop (unat n_pages) pm (as_cr3 as) va pa flags"

function unmap_loop :: "pmm \<Rightarrow> phys_t \<Rightarrow> virt_t \<Rightarrow> nat \<Rightarrow> nat \<Rightarrow> pmm outcome" where
  "unmap_loop pm cr3 va todo cap =
     (if todo = 0 \<or> cr3 = 0 then Ret pm
      else let (pm1, fr, chunk) = collect_clear_locked pm cr3 va todo cap
           in case pmm_free_list pm1 fr of
                Ret pm2 \<Rightarrow> if min todo cap = 0 then Ret pm2
                           else unmap_loop pm2 cr3 (va + of_nat chunk * PAGE_SIZE) (todo - min todo cap) cap
              | Panic m \<Rightarrow> Panic m
              | Hang \<Rightarrow> Hang)"
  by pat_completeness auto
termination by (relation "measure (\<lambda>(pm, cr3, va, todo, cap). todo)") auto

declare unmap_loop.simps [simp del]

definition vmm_unmap :: "kheap \<Rightarrow> aspace \<Rightarrow> virt_t \<Rightarrow> u64 \<Rightarrow> kheap outcome" where
  "vmm_unmap h as va n_pages =
     (if n_pages = 0 then Ret h
      else bind_outcome (if unat n_pages > UNMAP_BATCH then kalloc h (n_pages * 8) else Ret (h, 0))
        (\<lambda>(h1, fr).
           let cap = (if fr \<noteq> 0 then unat (ucast n_pages :: u32) else UNMAP_BATCH)
           in bind_outcome (unmap_loop (h_pmm h1) (as_cr3 as) va (unat n_pages) cap) (\<lambda>pm.
                if fr \<noteq> 0 then kfree (h1\<lparr>h_pmm := pm\<rparr>) fr else Ret (h1\<lparr>h_pmm := pm\<rparr>))))"

text \<open>The stack is mapped from \<open>base + PAGE_SIZE\<close>, page by page; a failure unmaps what was mapped.\<close>

fun guarded_loop :: "nat \<Rightarrow> nat \<Rightarrow> kheap \<Rightarrow> aspace \<Rightarrow> virt_t \<Rightarrow> (kheap \<times> status_t) outcome" where
  "guarded_loop 0 i h kas base = Ret (h, STATUS_SUCCESS)"
| "guarded_loop (Suc n) i h kas base =
     (let (pm, pa) = pmm_alloc (h_pmm h) 0 (PMM_KERNEL OR PMM_ZERO)
      in if pa = PMM_INVALID
         then bind_outcome (vmm_unmap (h\<lparr>h_pmm := pm\<rparr>) kas (base + PAGE_SIZE) (of_nat i))
                (\<lambda>h1. Ret (h1, STATUS_NO_MEMORY))
         else bind_outcome
                (vmm_map pm kas (base + PAGE_SIZE + of_nat i * PAGE_SIZE) pa 1 (PTE_P OR PTE_W OR PTE_G OR PTE_NX))
                (\<lambda>(pm1, st).
                   if \<not> NT_SUCCESS st
                   then bind_outcome (pmm_free pm1 pa 0) (\<lambda>pm2.
                          bind_outcome (vmm_unmap (h\<lparr>h_pmm := pm2\<rparr>) kas (base + PAGE_SIZE) (of_nat i))
                            (\<lambda>h1. Ret (h1, st)))
                   else guarded_loop n (Suc i) (h\<lparr>h_pmm := pm1\<rparr>) kas base))"

definition vmm_map_guarded_stack ::
    "kheap \<Rightarrow> aspace \<Rightarrow> virt_t \<Rightarrow> u64 \<Rightarrow> (kheap \<times> status_t \<times> virt_t) outcome" where
  "vmm_map_guarded_stack h kas base sz =
     (if base = 0 \<or> sz = 0 \<or> sz AND PAGE_MASK \<noteq> 0 then Ret (h, STATUS_INVALID_PARAMETER, 0)
      else bind_outcome (guarded_loop (unat sz div 4096) 0 h kas base)
             (\<lambda>(h1, st). Ret (h1, st, if NT_SUCCESS st then base + PAGE_SIZE else 0)))"

definition kstack_base :: "u64 \<Rightarrow> virt_t" where
  "kstack_base tid = KERNEL_STACK_BASE + (tid - 1) * KSTACK_STRIDE"

definition vmm_map_kstack :: "kheap \<Rightarrow> aspace \<Rightarrow> u64 \<Rightarrow> (kheap \<times> status_t \<times> virt_t) outcome" where
  "vmm_map_kstack h kas tid =
     (if tid = 0 \<or> tid > MAX_THREADS then Ret (h, STATUS_INVALID_PARAMETER, 0)
      else vmm_map_guarded_stack h kas (kstack_base tid) KSTACK_SIZE)"

definition vmm_unmap_kstack :: "kheap \<Rightarrow> aspace \<Rightarrow> u64 \<Rightarrow> kheap outcome" where
  "vmm_unmap_kstack h kas tid =
     (if tid = 0 \<or> tid > MAX_THREADS then Ret h
      else vmm_unmap h kas (kstack_base tid + PAGE_SIZE) (KSTACK_SIZE div PAGE_SIZE))"

section \<open>Creating and destroying an address space\<close>

definition vmm_aspace_init :: "pmm \<Rightarrow> phys_t \<Rightarrow> (pmm \<times> aspace) outcome" where
  "vmm_aspace_init pm kcr3 =
     (let (pm1, cr3) = pt_alloc pm
      in if cr3 = PMM_INVALID then Panic ''vmm: user cr3''
         else let pm2 = pm1\<lparr>g_ram := (\<lambda>a. if unat (a - cr3) < 4096 then 0 else g_ram pm1 a)\<rparr>;
                  pm3 = fold (\<lambda>i pm. pt_put cr3 i (pte_get pm (kcr3 + 8 * of_nat i)) pm)
                          [KERNEL_PML4_START..<512] pm2
              in Ret (pm3, \<lparr>as_cr3 = cr3, as_vads = [], as_committed = 0, as_brk = USER_HEAP_BASE,
                            as_stack_base = USER_STACK_TOP - USER_STACK_SIZE\<rparr>))"

text \<open>
  One pass over the entries of a table below the root: each present entry that is not a large
  page is handed to \<open>release\<close> and cleared.
\<close>

fun table_loop :: "(pmm \<Rightarrow> phys_t \<Rightarrow> pmm outcome) \<Rightarrow> nat \<Rightarrow> nat \<Rightarrow> phys_t \<Rightarrow> bool \<Rightarrow> pmm \<Rightarrow> pmm outcome" where
  "table_loop release 0 i table clear pm = Ret pm"
| "table_loop release (Suc n) i table clear pm =
     (let e = pte_get pm (table + 8 * of_nat i)
      in if e AND PTE_P = 0 \<or> clear \<and> e AND PTE_PS \<noteq> 0
         then table_loop release n (Suc i) table clear pm
         else bind_outcome (release pm (e AND PTE_ADDR)) (\<lambda>pm1.
                table_loop release n (Suc i) table clear (if clear then pt_put table i 0 pm1 else pm1)))"

primrec free_user_tables :: "nat \<Rightarrow> pmm \<Rightarrow> phys_t \<Rightarrow> pmm outcome" where
  "free_user_tables 0 pm table = pmm_free pm table 0"
| "free_user_tables (Suc lv) pm table =
     (if table = 0 \<or> table = PMM_INVALID then Ret pm
      else bind_outcome
             (if Suc lv = 4 then table_loop (free_user_tables lv) KERNEL_PML4_START 0 table False pm
              else table_loop (free_user_tables lv) 512 0 table True pm)
             (\<lambda>pm1. pmm_free pm1 table 0))"

fun unmap_vads :: "kheap \<Rightarrow> aspace \<Rightarrow> vad list \<Rightarrow> kheap outcome" where
  "unmap_vads h as [] = Ret h"
| "unmap_vads h as (v # vs) =
     bind_outcome (vmm_unmap h as (v_start v) ((v_end v - v_start v) div PAGE_SIZE))
       (\<lambda>h1. unmap_vads h1 as vs)"

definition vmm_aspace_destroy :: "kheap \<Rightarrow> aspace \<Rightarrow> (kheap \<times> aspace) outcome" where
  "vmm_aspace_destroy h as =
     (if as_cr3 as = 0 then Ret (h, as)
      else let snap = take MAX_VADS (as_vads as);
               as1 = as\<lparr>as_vads := [], as_committed := 0\<rparr>
           in bind_outcome (unmap_vads h as1 snap) (\<lambda>h1.
              bind_outcome (free_user_tables 4 (h_pmm h1) (as_cr3 as)) (\<lambda>pm.
                Ret (h1\<lparr>h_pmm := pm\<rparr>, as1\<lparr>as_cr3 := 0\<rparr>))))"

section \<open>Probing and populating\<close>

definition prot_writable :: "u32 \<Rightarrow> bool" where
  "prot_writable prot \<longleftrightarrow> prot AND (PAGE_READWRITE OR PAGE_EXECUTE_READWRITE) \<noteq> 0"

definition prot_readable :: "u32 \<Rightarrow> bool" where
  "prot_readable prot \<longleftrightarrow> prot AND (PAGE_READONLY OR PAGE_READWRITE OR PAGE_EXECUTE OR
     PAGE_EXECUTE_READ OR PAGE_EXECUTE_READWRITE) \<noteq> 0"

definition page_ok :: "aspace \<Rightarrow> bool \<Rightarrow> virt_t \<Rightarrow> bool" where
  "page_ok as write page =
     (case vad_lookup as page of
        None \<Rightarrow> False
      | Some i \<Rightarrow> let prot = v_prot (as_vads as ! i)
                  in if write then prot_writable prot else prot_readable prot)"

function probe_loop :: "aspace \<Rightarrow> bool \<Rightarrow> nat \<Rightarrow> nat \<Rightarrow> bool" where
  "probe_loop as write p e =
     (if p < e then page_ok as write (of_nat p) \<and> probe_loop as write (p + 4096) e else True)"
  by pat_completeness auto
termination by (relation "measure (\<lambda>(as, w, p, e). e - p)") auto

declare probe_loop.simps [simp del]

text \<open>
  The guards make \<open>va + n\<close> small, so the page counter of the loop never wraps and is a natural number.
\<close>

definition vmm_probe_user :: "aspace \<Rightarrow> virt_t \<Rightarrow> u64 \<Rightarrow> bool \<Rightarrow> bool" where
  "vmm_probe_user as va n write =
     (if va > USER_CANONICAL_TOP \<or> n > COPY_MAX \<or> va + n < va then False
      else probe_loop as write (unat (PAGE_ALIGN_DOWN va)) (unat (va + n)))"

text \<open>
  The second look at the VAD, taken after the allocations with the lock held again, repeats the
  first one on the same array and is not written twice.
\<close>

definition vmm_populate_page :: "pmm \<Rightarrow> aspace \<Rightarrow> virt_t \<Rightarrow> bool \<Rightarrow> (pmm \<times> status_t) outcome" where
  "vmm_populate_page pm as page write =
     (case vad_lookup as page of
        None \<Rightarrow> Ret (pm, STATUS_ACCESS_VIOLATION)
      | Some i \<Rightarrow>
          let prot = v_prot (as_vads as ! i)
          in if prot AND PAGE_NOACCESS \<noteq> 0 then Ret (pm, STATUS_ACCESS_VIOLATION)
             else if write \<and> \<not> prot_writable prot then Ret (pm, STATUS_ACCESS_VIOLATION)
             else let present = (case walk pm (as_cr3 as) page of
                                   None \<Rightarrow> None
                                 | Some a \<Rightarrow> if pte_get pm a AND PTE_P \<noteq> 0 then Some (pte_get pm a) else None)
                  in case present of
                       Some e \<Rightarrow> Ret (pm, if write \<and> e AND PTE_W = 0 then STATUS_ACCESS_VIOLATION else STATUS_SUCCESS)
                     | None \<Rightarrow>
                         let (pm1, pa) = pmm_alloc pm 0 (PMM_USER OR PMM_ZERO)
                         in if pa = PMM_INVALID then Ret (pm1, STATUS_NO_MEMORY)
                            else bind_outcome (vmm_ensure_leaf pm1 (as_cr3 as) page) (\<lambda>(pm2, st).
                              if \<not> NT_SUCCESS st
                              then bind_outcome (pmm_free pm2 pa 0) (\<lambda>pm3. Ret (pm3, st))
                              else case walk pm2 (as_cr3 as) page of
                                     None \<Rightarrow> bind_outcome (pmm_free pm2 pa 0) (\<lambda>pm3. Ret (pm3, STATUS_NO_MEMORY))
                                   | Some pte \<Rightarrow>
                                       if pte_get pm2 pte AND PTE_P \<noteq> 0
                                       then bind_outcome (pmm_free pm2 pa 0) (\<lambda>pm3. Ret (pm3, STATUS_SUCCESS))
                                       else let parked = pte_get pm2 pte AND PTE_ADDR
                                            in if parked \<noteq> 0
                                               then bind_outcome
                                                      (pmm_free (pte_put pm2 pte (parked OR pte_flags_from_prot prot)) pa 0)
                                                      (\<lambda>pm3. Ret (pm3, STATUS_SUCCESS))
                                               else Ret (pte_put pm2 pte (pa OR pte_flags_from_prot prot), STATUS_SUCCESS)))"

definition vmm_handle_user_fault :: "pmm \<Rightarrow> aspace \<Rightarrow> virt_t \<Rightarrow> bool \<Rightarrow> (pmm \<times> bool) outcome" where
  "vmm_handle_user_fault pm as va write =
     (if va > USER_CANONICAL_TOP then Ret (pm, False)
      else bind_outcome (vmm_populate_page pm as (PAGE_ALIGN_DOWN va) write)
             (\<lambda>(pm1, st). Ret (pm1, NT_SUCCESS st)))"

section \<open>Copies\<close>

definition ram_read :: "(phys_t \<Rightarrow> u8) \<Rightarrow> phys_t \<Rightarrow> nat \<Rightarrow> u8 list" where
  "ram_read m a n = map (\<lambda>i. m (a + of_nat i)) [0..<n]"

definition ram_write :: "(phys_t \<Rightarrow> u8) \<Rightarrow> phys_t \<Rightarrow> u8 list \<Rightarrow> phys_t \<Rightarrow> u8" where
  "ram_write m a bs = (\<lambda>x. if unat (x - a) < length bs then bs ! unat (x - a) else m x)"

definition page_room :: "virt_t \<Rightarrow> nat" where
  "page_room va = 4096 - unat (va AND PAGE_MASK)"

text \<open>The frame that backs the page of \<open>va\<close> after population, or the status that stops the copy.\<close>

definition copy_frame :: "pmm \<Rightarrow> aspace \<Rightarrow> virt_t \<Rightarrow> (pmm \<times> (status_t + phys_t)) outcome" where
  "copy_frame pm as va =
     bind_outcome (vmm_populate_page pm as (PAGE_ALIGN_DOWN va) False) (\<lambda>(pm1, st).
       if \<not> NT_SUCCESS st then Ret (pm1, Inl st)
       else case walk pm1 (as_cr3 as) (PAGE_ALIGN_DOWN va) of
              None \<Rightarrow> Ret (pm1, Inl STATUS_ACCESS_VIOLATION)
            | Some pte \<Rightarrow>
                if pte_get pm1 pte AND PTE_P = 0 then Ret (pm1, Inl STATUS_ACCESS_VIOLATION)
                else Ret (pm1, Inr (pte_get pm1 pte AND PTE_ADDR)))"

lemma page_room_pos: "0 < page_room va"
proof -
  have "va AND PAGE_MASK = take_bit 12 va"
    by (simp add: take_bit_eq_mask mask_numeral)
  then have "unat (va AND PAGE_MASK) < 4096"
    by (simp add: unsigned_take_bit_eq take_bit_nat_def)
  then show ?thesis by (simp add: page_room_def)
qed

function write_loop :: "pmm \<Rightarrow> aspace \<Rightarrow> virt_t \<Rightarrow> u8 list \<Rightarrow> (pmm \<times> status_t) outcome" where
  "write_loop pm as va src =
     (if src = [] then Ret (pm, STATUS_SUCCESS)
      else case copy_frame pm as va of
             Ret (pm1, Inl st) \<Rightarrow> Ret (pm1, st)
           | Ret (pm1, Inr pa) \<Rightarrow>
               let chunk = min (length src) (page_room va)
               in write_loop (pm1\<lparr>g_ram := ram_write (g_ram pm1) (pa + (va AND PAGE_MASK)) (take chunk src)\<rparr>)
                    as (va + of_nat chunk) (drop chunk src)
           | Panic m \<Rightarrow> Panic m
           | Hang \<Rightarrow> Hang)"
  by pat_completeness auto
termination
  by (relation "measure (\<lambda>(pm, as, va, src). length src)") (auto simp: page_room_pos)

declare write_loop.simps [simp del]

definition vmm_write_aspace :: "pmm \<Rightarrow> aspace \<Rightarrow> virt_t \<Rightarrow> u8 list \<Rightarrow> (pmm \<times> status_t) outcome" where
  "vmm_write_aspace pm as va src =
     (if src = [] then Ret (pm, STATUS_INVALID_PARAMETER) else write_loop pm as va src)"

function read_loop :: "pmm \<Rightarrow> aspace \<Rightarrow> virt_t \<Rightarrow> nat \<Rightarrow> u8 list \<Rightarrow> (pmm \<times> status_t \<times> u8 list) outcome" where
  "read_loop pm as va n dst =
     (if n = 0 then Ret (pm, STATUS_SUCCESS, dst)
      else case copy_frame pm as va of
             Ret (pm1, Inl st) \<Rightarrow> Ret (pm1, st, dst)
           | Ret (pm1, Inr pa) \<Rightarrow>
               let chunk = min n (page_room va)
               in read_loop pm1 as (va + of_nat chunk) (n - chunk)
                    (dst @ ram_read (g_ram pm1) (pa + (va AND PAGE_MASK)) chunk)
           | Panic m \<Rightarrow> Panic m
           | Hang \<Rightarrow> Hang)"
  by pat_completeness auto
termination
  by (relation "measure (\<lambda>(pm, as, va, n, dst). n)") (auto simp: page_room_pos)

declare read_loop.simps [simp del]

text \<open>The bytes read so far are returned with the status: a failing read has filled a prefix of the buffer.\<close>

definition vmm_read_aspace :: "pmm \<Rightarrow> aspace \<Rightarrow> virt_t \<Rightarrow> nat \<Rightarrow> (pmm \<times> status_t \<times> u8 list) outcome" where
  "vmm_read_aspace pm as va n =
     (if n = 0 then Ret (pm, STATUS_INVALID_PARAMETER, []) else read_loop pm as va n [])"

definition copyin :: "pmm \<Rightarrow> aspace option \<Rightarrow> virt_t \<Rightarrow> u64 \<Rightarrow> (pmm \<times> status_t \<times> u8 list) outcome" where
  "copyin pm cur usrc n =
     (case cur of
        None \<Rightarrow> Ret (pm, STATUS_INVALID_PARAMETER, [])
      | Some as \<Rightarrow>
          if n = 0 then Ret (pm, STATUS_SUCCESS, [])
          else if n > COPY_MAX then Ret (pm, STATUS_INVALID_PARAMETER, [])
          else if \<not> vmm_probe_user as usrc n False then Ret (pm, STATUS_ACCESS_VIOLATION, [])
          else vmm_read_aspace pm as usrc (unat n))"

definition copyout :: "pmm \<Rightarrow> aspace option \<Rightarrow> virt_t \<Rightarrow> u8 list \<Rightarrow> (pmm \<times> status_t) outcome" where
  "copyout pm cur udst src =
     (case cur of
        None \<Rightarrow> Ret (pm, STATUS_INVALID_PARAMETER)
      | Some as \<Rightarrow>
          if src = [] then Ret (pm, STATUS_SUCCESS)
          else if length src > unat COPY_MAX then Ret (pm, STATUS_INVALID_PARAMETER)
          else if \<not> vmm_probe_user as udst (of_nat (length src)) True then Ret (pm, STATUS_ACCESS_VIOLATION)
          else vmm_write_aspace pm as udst src)"

fun copyinstr_loop :: "nat \<Rightarrow> pmm \<Rightarrow> aspace \<Rightarrow> virt_t \<Rightarrow> u8 list \<Rightarrow> (pmm \<times> status_t \<times> u8 list) outcome" where
  "copyinstr_loop 0 pm as usrc dst = Ret (pm, STATUS_NAME_TOO_LONG, butlast dst)"
| "copyinstr_loop (Suc n) pm as usrc dst =
     (if \<not> vmm_probe_user as usrc 1 False then Ret (pm, STATUS_ACCESS_VIOLATION, dst)
      else bind_outcome (vmm_read_aspace pm as usrc 1) (\<lambda>(pm1, st, bs).
        if \<not> NT_SUCCESS st then Ret (pm1, st, dst)
        else if hd bs = 0 then Ret (pm1, STATUS_SUCCESS, dst)
        else copyinstr_loop n pm1 as (usrc + 1) (dst @ bs)))"

text \<open>The result is the text without its terminating zero; an overlong string is cut to \<open>cap - 1\<close>.\<close>

definition copyinstr :: "pmm \<Rightarrow> aspace option \<Rightarrow> virt_t \<Rightarrow> nat \<Rightarrow> (pmm \<times> status_t \<times> u8 list) outcome" where
  "copyinstr pm cur usrc cap =
     (case cur of
        None \<Rightarrow> Ret (pm, STATUS_INVALID_PARAMETER, [])
      | Some as \<Rightarrow>
          if cap = 0 then Ret (pm, STATUS_INVALID_PARAMETER, [])
          else copyinstr_loop cap pm as usrc [])"

end
