(* ===== verification/Vmm_User.thy ===== *)
theory Vmm_User
  imports Vmm_Ops
begin

text \<open>
  \<open>vmm_alloc_user\<close>, \<open>vmm_free_user\<close> and \<open>vmm_protect_user\<close> of \<^verbatim>\<open>kernel/mm/vmm.c\<close>
  (hardware build): the calls behind \<open>NtAllocateVirtualMemory\<close>, \<open>NtFreeVirtualMemory\<close> and
  \<open>NtProtectVirtualMemory\<close>.
\<close>

section \<open>Release\<close>

definition free_target :: "aspace \<Rightarrow> virt_t \<Rightarrow> u64 \<Rightarrow> nat option" where
  "free_target as base sz =
     (if sz = 0 then find_index (\<lambda>v. v_start v = base) (as_vads as) 0
      else vad_contains_range as base (base + sz))"

text \<open>
  Clearing \<open>todo\<close> leaves from \<open>base\<close>: in one pass with a scratch array, otherwise in batches
  whose frames are released between passes.  The frames still to be released are returned.
\<close>

function free_collect :: "pmm \<Rightarrow> phys_t \<Rightarrow> virt_t \<Rightarrow> nat \<Rightarrow> nat \<Rightarrow> bool \<Rightarrow> (pmm \<times> phys_t list) outcome" where
  "free_collect pm cr3 base todo cap on_heap =
     (if todo = 0 then Ret (pm, [])
      else let (pm1, fr, chunk) = collect_clear_locked pm cr3 base todo cap
           in if min todo cap = 0 \<or> todo - min todo cap = 0 then Ret (pm1, fr)
              else if \<not> on_heap
                   then (case pmm_free_list pm1 fr of
                           Ret pm2 \<Rightarrow> free_collect pm2 cr3 (base + of_nat chunk * PAGE_SIZE) (todo - min todo cap) cap on_heap
                         | Panic m \<Rightarrow> Panic m
                         | Hang \<Rightarrow> Hang)
                   else Ret (pm1, fr))"
  by pat_completeness auto
termination by (relation "measure (\<lambda>(pm, cr3, base, todo, cap, oh). todo)") auto

declare free_collect.simps [simp del]

text \<open>What the release does to the VAD array.\<close>

definition free_vads :: "aspace \<Rightarrow> nat \<Rightarrow> virt_t \<Rightarrow> virt_t \<Rightarrow> nat \<Rightarrow> nat \<Rightarrow> aspace" where
  "free_vads as i base e n_left n_right =
     (let v = as_vads as ! i
      in if n_left \<noteq> 0 \<and> n_right \<noteq> 0
         then vad_append (as\<lparr>as_vads := (as_vads as)[i := v\<lparr>v_end := base\<rparr>]\<rparr>)
                e (v_end v) (v_prot v) (v_type v) (v_committed v)
         else if n_left \<noteq> 0 then as\<lparr>as_vads := (as_vads as)[i := v\<lparr>v_end := base\<rparr>]\<rparr>
         else if n_right \<noteq> 0 then as\<lparr>as_vads := (as_vads as)[i := v\<lparr>v_start := e\<rparr>]\<rparr>
         else vad_remove_at as i)"

definition sub_committed :: "aspace \<Rightarrow> nat \<Rightarrow> aspace" where
  "sub_committed as n =
     as\<lparr>as_committed := if unat (as_committed as) \<ge> n then as_committed as - of_nat n else 0\<rparr>"

definition n32 :: "u64 \<Rightarrow> nat" where "n32 x = unat (ucast x :: u32)"

definition vmm_free_user :: "kheap \<Rightarrow> aspace \<Rightarrow> virt_t \<Rightarrow> u64 \<Rightarrow> (kheap \<times> aspace \<times> status_t) outcome" where
  "vmm_free_user h as base0 sz0 =
     (let base = PAGE_ALIGN_DOWN base0; sz = (if sz0 \<noteq> 0 then PAGE_ALIGN_UP sz0 else 0)
      in if base > USER_CANONICAL_TOP then Ret (h, as, STATUS_CONFLICTING_ADDRESSES)
         else if sz \<noteq> 0 \<and> (base + sz < base \<or> base + sz - 1 > USER_CANONICAL_TOP)
              then Ret (h, as, STATUS_CONFLICTING_ADDRESSES)
         else case free_target as base sz of
                None \<Rightarrow> Ret (h, as, if sz = 0 then STATUS_INVALID_PARAMETER else STATUS_CONFLICTING_ADDRESSES)
              | Some i \<Rightarrow>
                  let a = v_start (as_vads as ! i); d = v_end (as_vads as ! i);
                      e = (if sz = 0 then d else base + sz);
                      n_left = (if sz = 0 then 0 else n32 ((base - a) div PAGE_SIZE));
                      n_mid = (if sz = 0 then n32 ((d - a) div PAGE_SIZE) else n32 (sz div PAGE_SIZE));
                      n_right = (if sz = 0 then 0 else n32 ((d - e) div PAGE_SIZE));
                      extra = (if n_left \<noteq> 0 \<and> n_right \<noteq> 0 then 1 else 0)
                  in if n_mid = 0 then Ret (h, as, STATUS_INVALID_PARAMETER)
                     else if length (as_vads as) + extra > MAX_VADS then Ret (h, as, STATUS_INSUFFICIENT_RESOURCES)
                     else bind_outcome (if n_mid > UNMAP_BATCH then kalloc h (of_nat n_mid * 8) else Ret (h, 0))
                       (\<lambda>(h1, fr).
                          bind_outcome
                            (free_collect (h_pmm h1) (as_cr3 as) base n_mid (if fr \<noteq> 0 then n_mid else UNMAP_BATCH) (fr \<noteq> 0))
                            (\<lambda>(pm, rest).
                               let as1 = sub_committed (free_vads as i base e n_left n_right) n_mid
                               in bind_outcome (pmm_free_list pm rest) (\<lambda>pm1.
                                  bind_outcome (kfree (h1\<lparr>h_pmm := pm1\<rparr>) fr) (\<lambda>h2.
                                    Ret (h2, as1, STATUS_SUCCESS))))))"

section \<open>Allocation\<close>

fun commit_loop :: "nat \<Rightarrow> pmm \<Rightarrow> phys_t \<Rightarrow> virt_t \<Rightarrow> (pmm \<times> bool) outcome" where
  "commit_loop 0 pm cr3 page = Ret (pm, True)"
| "commit_loop (Suc n) pm cr3 page =
     bind_outcome (vmm_ensure_leaf pm cr3 page) (\<lambda>(pm1, st).
       if \<not> NT_SUCCESS st then Ret (pm1, False)
       else case walk pm1 cr3 page of
              None \<Rightarrow> Ret (pm1, False)
            | Some pte \<Rightarrow>
                let e = pte_get pm1 pte;
                    pm2 = (if e AND PTE_P = 0 \<and> e AND PTE_ADDR = 0 then pte_put pm1 pte PTE_SW_COMMIT else pm1)
                in commit_loop n pm2 cr3 (page + PAGE_SIZE))"

definition vad_overlaps :: "virt_t \<Rightarrow> u64 \<Rightarrow> vad \<Rightarrow> bool" where
  "vad_overlaps va sz v \<longleftrightarrow> va < v_end v \<and> v_start v < va + sz"

definition vmm_alloc_user ::
    "kheap \<Rightarrow> aspace \<Rightarrow> virt_t \<Rightarrow> u64 \<Rightarrow> u32 \<Rightarrow> u32 \<Rightarrow> (kheap \<times> aspace \<times> virt_t \<times> status_t) outcome" where
  "vmm_alloc_user h as base sz0 prot typ =
     (if sz0 = 0 then Ret (h, as, base, STATUS_INVALID_PARAMETER)
      else let sz = PAGE_ALIGN_UP sz0; pages = sz div PAGE_SIZE; va = (if base = 0 then as_brk as else base)
           in if pages > USER_COMMIT_MAX div PAGE_SIZE then Ret (h, as, base, STATUS_INSUFFICIENT_RESOURCES)
              else if va > USER_CANONICAL_TOP \<or> va + sz < va \<or> (sz \<noteq> 0 \<and> va + sz - 1 > USER_CANONICAL_TOP)
                   then Ret (h, as, base, STATUS_CONFLICTING_ADDRESSES)
              else if length (as_vads as) \<ge> MAX_VADS then Ret (h, as, base, STATUS_INSUFFICIENT_RESOURCES)
              else if as_committed as + pages > USER_COMMIT_MAX div PAGE_SIZE
                   then Ret (h, as, base, STATUS_INSUFFICIENT_RESOURCES)
              else if list_ex (vad_overlaps va sz) (as_vads as) then Ret (h, as, base, STATUS_CONFLICTING_ADDRESSES)
              else let as1 = (vad_append as va (va + sz) prot typ 1)\<lparr>as_committed := as_committed as + pages\<rparr>;
                       as2 = (if base = 0 then as1\<lparr>as_brk := va + sz\<rparr> else as1)
                   in bind_outcome (commit_loop (unat pages) (h_pmm h) (as_cr3 as) va) (\<lambda>(pm, ok).
                        if ok then Ret (h\<lparr>h_pmm := pm\<rparr>, as2, va, STATUS_SUCCESS)
                        else bind_outcome (vmm_free_user (h\<lparr>h_pmm := pm\<rparr>) as2 va sz) (\<lambda>(h1, as3, st).
                               Ret (h1, as3, base, STATUS_NO_MEMORY))))"

section \<open>Protection\<close>

definition prot_legal :: "u32 \<Rightarrow> bool" where
  "prot_legal prot =
     (if prot AND PAGE_EXECUTE_READWRITE \<noteq> 0 then False
      else if prot AND PAGE_NOACCESS \<noteq> 0 then True
      else prot AND (PAGE_READONLY OR PAGE_READWRITE OR PAGE_EXECUTE OR PAGE_EXECUTE_READ) \<noteq> 0)"

fun apply_prot_loop :: "nat \<Rightarrow> pmm \<Rightarrow> phys_t \<Rightarrow> virt_t \<Rightarrow> u32 \<Rightarrow> pmm" where
  "apply_prot_loop 0 pm cr3 page prot = pm"
| "apply_prot_loop (Suc n) pm cr3 page prot =
     apply_prot_loop n
       (case walk pm cr3 page of
          None \<Rightarrow> pm
        | Some pte \<Rightarrow>
            let e = pte_get pm pte; pa = e AND PTE_ADDR
            in if prot AND PAGE_NOACCESS \<noteq> 0
               then (if e AND PTE_P \<noteq> 0 then pte_put pm pte (pa OR PTE_SW_COMMIT OR PTE_NX) else pm)
               else if e AND PTE_P \<noteq> 0 \<or> pa \<noteq> 0 then pte_put pm pte (pa OR pte_flags_from_prot prot)
               else pm)
       cr3 (page + PAGE_SIZE) prot"

definition apply_prot_range :: "pmm \<Rightarrow> aspace \<Rightarrow> virt_t \<Rightarrow> u64 \<Rightarrow> u32 \<Rightarrow> pmm" where
  "apply_prot_range pm as base sz prot = apply_prot_loop (unat sz div 4096) pm (as_cr3 as) base prot"

text \<open>The pieces of a hole-free run: each lies in the descriptor that holds its first byte.\<close>

function clip_loop :: "aspace \<Rightarrow> virt_t \<Rightarrow> virt_t \<Rightarrow> nat \<Rightarrow> (virt_t \<times> u64) list \<Rightarrow> status_t + (virt_t \<times> u64) list" where
  "clip_loop as cur e n acc =
     (if cur < e then
        if n < MAX_VADS then
          (case vad_lookup as cur of
             None \<Rightarrow> Inl STATUS_CONFLICTING_ADDRESSES
           | Some i \<Rightarrow>
               let hi = min (v_end (as_vads as ! i)) e
               in if hi \<le> cur then Inl STATUS_CONFLICTING_ADDRESSES
                  else clip_loop as hi e (Suc n) (acc @ [(cur, hi - cur)]))
        else Inl STATUS_INSUFFICIENT_RESOURCES
      else Inr acc)"
  by pat_completeness auto
termination by (relation "measure (\<lambda>(as, cur, e, n, acc). 64 - n)") auto

declare clip_loop.simps [simp del]

text \<open>The contained case: one descriptor is re-protected, split in up to three.\<close>

definition protect_split :: "aspace \<Rightarrow> nat \<Rightarrow> virt_t \<Rightarrow> virt_t \<Rightarrow> nat \<Rightarrow> nat \<Rightarrow> u32 \<Rightarrow> aspace" where
  "protect_split as i base e n_left n_right prot =
     (let v = as_vads as ! i;
          as1 = as\<lparr>as_vads := (as_vads as)[i := v\<lparr>v_start := base, v_end := e, v_prot := prot\<rparr>]\<rparr>;
          as2 = (if n_left \<noteq> 0 then vad_append as1 (v_start v) base (v_prot v) (v_type v) (v_committed v) else as1)
      in if n_right \<noteq> 0 then vad_append as2 e (v_end v) (v_prot v) (v_type v) (v_committed v) else as2)"

definition protect_contained :: "pmm \<Rightarrow> aspace \<Rightarrow> nat \<Rightarrow> virt_t \<Rightarrow> u64 \<Rightarrow> u32 \<Rightarrow> pmm \<times> aspace \<times> status_t" where
  "protect_contained pm as i base sz prot =
     (let v = as_vads as ! i; e = base + sz;
          n_left = n32 ((base - v_start v) div PAGE_SIZE);
          n_right = n32 ((v_end v - e) div PAGE_SIZE);
          extra = (if n_left \<noteq> 0 then 1 else 0) + (if n_right \<noteq> 0 then 1 else 0)
      in if length (as_vads as) + extra > MAX_VADS then (pm, as, STATUS_INSUFFICIENT_RESOURCES)
         else if extra = 0
              then let as1 = as\<lparr>as_vads := (as_vads as)[i := v\<lparr>v_prot := prot\<rparr>]\<rparr>
                   in (apply_prot_range pm as1 base sz prot, vad_coalesce as1, STATUS_SUCCESS)
         else let as1 = protect_split as i base e n_left n_right prot
              in (apply_prot_range pm as1 base sz prot, vad_coalesce as1, STATUS_SUCCESS))"

text \<open>
  The C function calls itself on every piece of a run and stops at the first failure; here the
  pieces still to be protected are a work list, and not returning is \<open>None\<close>.  One step either ends
  with a status or leaves the pieces its range falls into (none when it has been protected).
\<close>

definition protect_step ::
    "pmm \<Rightarrow> aspace \<Rightarrow> u32 \<Rightarrow> virt_t \<times> u64 \<Rightarrow> pmm \<times> aspace \<times> (status_t + (virt_t \<times> u64) list)" where
  "protect_step pm as prot job =
     (if snd job = 0 then (pm, as, Inl STATUS_INVALID_PARAMETER)
      else if \<not> prot_legal prot then (pm, as, Inl STATUS_INVALID_PAGE_PROTECTION)
      else let base = PAGE_ALIGN_DOWN (fst job); sz = PAGE_ALIGN_UP (snd job)
           in if base > USER_CANONICAL_TOP \<or> base + sz < base \<or> (sz \<noteq> 0 \<and> base + sz - 1 > USER_CANONICAL_TOP)
              then (pm, as, Inl STATUS_CONFLICTING_ADDRESSES)
              else case vad_contains_range as base (base + sz) of
                     Some i \<Rightarrow>
                       (case protect_contained pm as i base sz prot of
                          (pm1, as1, st) \<Rightarrow> (pm1, as1, if NT_SUCCESS st then Inr [] else Inl st))
                   | None \<Rightarrow>
                       (case vad_run_covers as base (base + sz) of
                          None \<Rightarrow> (pm, as, Inl STATUS_CONFLICTING_ADDRESSES)
                        | Some (first, nclip) \<Rightarrow>
                            if nclip < 2 then (pm, as, Inl STATUS_CONFLICTING_ADDRESSES)
                            else (pm, as, clip_loop as base (base + sz) 0 [])))"

partial_function (option) protect_work ::
    "pmm \<Rightarrow> aspace \<Rightarrow> u32 \<Rightarrow> (virt_t \<times> u64) list \<Rightarrow> (pmm \<times> aspace \<times> status_t) option" where
  "protect_work pm as prot work =
     (if work = [] then Some (pm, as, STATUS_SUCCESS)
      else let (pm1, as1, r) = protect_step pm as prot (hd work)
           in if isl r then Some (pm1, as1, projl r) else protect_work pm1 as1 prot (projr r @ tl work))"

definition old_prot_of :: "aspace \<Rightarrow> virt_t \<Rightarrow> u64 \<Rightarrow> u32" where
  "old_prot_of as base0 sz0 =
     (let base = PAGE_ALIGN_DOWN base0; e = base + PAGE_ALIGN_UP sz0
      in case vad_contains_range as base e of
           Some i \<Rightarrow> v_prot (as_vads as ! i)
         | None \<Rightarrow> (case vad_lookup as base of Some i \<Rightarrow> v_prot (as_vads as ! i) | None \<Rightarrow> 0))"

definition vmm_protect_user ::
    "pmm \<Rightarrow> aspace \<Rightarrow> virt_t \<Rightarrow> u64 \<Rightarrow> u32 \<Rightarrow> (pmm \<times> aspace \<times> status_t \<times> u32) outcome" where
  "vmm_protect_user pm as base sz prot =
     (case protect_work pm as prot [(base, sz)] of
        None \<Rightarrow> Hang
      | Some (pm1, as1, st) \<Rightarrow> Ret (pm1, as1, st, old_prot_of as base sz))"

end
