(* ===== verification/Kstate.thy ===== *)
theory Kstate
  imports Vmm_User
begin

text \<open>
  The kernel state: the structures of \<^verbatim>\<open>include/jasos/ob.h\<close>, \<^verbatim>\<open>ke.h\<close>, \<^verbatim>\<open>fs.h\<close> and
  \<^verbatim>\<open>io.h\<close> and the static variables of the files that own them.  A structure lives at the
  address the heap returned for it; each kind has a store from addresses to records, and an
  object's header and body share the address, as the C casts between \<open>object_t\<close> and the
  derived structures do.  Intrusive doubly linked lists are HOL lists of the addresses of their
  members.  Address 0 is \<open>NULL\<close>.
\<close>

section \<open>Dispatchers and wait blocks\<close>

datatype disp_type =
    DISP_NOTIFICATION_EVENT | DISP_SYNCHRONIZATION_EVENT | DISP_MUTANT | DISP_TIMER
  | DISP_THREAD | DISP_PROCESS

text \<open>
  Where a dispatcher is embedded: in an event, mutex, timer, thread or process, or as one of the
  two dispatchers of a pipe.
\<close>

datatype dref = Disp u64 | CanRead u64 | CanWrite u64

text \<open>The wait blocks of a thread: \<open>wait\<close> and the elements of \<open>wait_multi\<close>.\<close>

datatype wslot = WSingle | WMulti nat

type_synonym wref = "u64 \<times> wslot"

record dispatcher =
  d_type :: disp_type
  d_signal :: int
  d_waiters :: "wref list"

record wait_block =
  wb_object :: "dref option"
  wb_status :: status_t

section \<open>Objects\<close>

datatype object_kind =
    OBJ_DIRECTORY | OBJ_PROCESS | OBJ_THREAD | OBJ_SECTION | OBJ_FILE | OBJ_DEVICE | OBJ_EVENT
  | OBJ_MUTEX | OBJ_TIMER | OBJ_PIPE | OBJ_TOKEN

abbreviation (input) OBJ_PERMANENT :: u32 where "OBJ_PERMANENT \<equiv> 0x1"
abbreviation (input) OBJ_WAITABLE :: u32 where "OBJ_WAITABLE \<equiv> 0x10"
abbreviation (input) NAME_MAX :: nat where "NAME_MAX \<equiv> 64"
abbreviation (input) PATH_MAX :: nat where "PATH_MAX \<equiv> 512"

record object =
  o_kind :: object_kind
  o_name :: string
  o_directory :: u64
  o_pointers :: u64
  o_handles :: u64
  o_flags :: u32
  o_owner_pid :: u64
  o_wait :: "dref option"
  o_dir_hash :: nat

record directory_object =
  dir_buckets :: "u64 list list"
  dir_count :: u32

record mutex_object =
  m_owner :: u64
  m_recursion :: u32
  m_abandoned :: bool

record section_object =
  s_size :: u64
  s_prot :: u32
  s_kdata :: u64
  s_bytes :: "u8 list"

record timer_object =
  t_due_tick :: u64
  t_period :: u64
  t_armed :: bool

record token_object =
  tok_pid :: u64
  tok_integrity :: u32

record pipe_object =
  p_buf :: "u8 list"
  p_r :: nat
  p_w :: nat
  p_used :: nat
  p_readers :: u32
  p_writers :: u32
  p_writer_closed :: bool

record handle_entry =
  e_object :: u64
  e_access :: access_t
  e_inherit :: bool
  e_protect :: bool
  e_generation :: u32

record handle_table =
  ht_slots :: "handle_entry list"
  ht_used :: u32

section \<open>Files and devices\<close>

datatype vkind = VNODE_FILE | VNODE_DIR | VNODE_CHAR | VNODE_BLOCK

record vnode =
  vn_kind :: vkind
  vn_mode :: u32
  vn_size :: u64
  vn_name :: string
  vn_parent :: u64
  vn_children :: "u64 list"
  vn_data :: u64
  vn_bytes :: "u8 list"
  vn_cap :: u64
  vn_ref :: u64
  vn_device :: u64

record file_object =
  f_vnode :: u64
  f_offset :: u64
  f_access :: access_t

datatype driver = NoDriver | SerialDriver | RamdiskDriver

record device_object =
  dev_driver :: driver
  dev_ext :: u64
  dev_base :: u64
  dev_size :: u64
  dev_bytes :: "u8 list"

section \<open>Threads and processes\<close>

datatype thread_state = THR_UNUSED | THR_READY | THR_RUNNING | THR_WAITING | THR_TERMINATED

text \<open>The functions a thread can start in; \<open>NoEntry\<close> is a null pointer.\<close>

datatype thread_entry = NoEntry | IdleEntry | BuiltinEntry | UserLaunch | UserThreadEntry | KernelEntry u64

record thread =
  th_process :: u64
  th_tid :: u64
  th_state :: thread_state
  th_priority :: nat
  th_saved_priority :: nat
  th_quantum :: nat
  th_wait_boost :: bool
  th_kstack :: u64
  th_entry :: thread_entry
  th_arg :: u64
  th_wait :: wait_block
  th_multi :: "nat \<Rightarrow> wait_block"
  th_multi_count :: nat
  th_wait_all :: bool
  th_timeout_tick :: u64
  th_timed :: bool
  th_owned :: "u64 list"
  th_exit_status :: status_t
  th_name :: string
  th_user_rip :: virt_t
  th_user_rsp :: virt_t
  th_kill_pending :: bool

record process =
  pr_pid :: u64
  pr_aspace :: aspace
  pr_handles :: handle_table
  pr_primary :: u64
  pr_threads :: "u64 list"
  pr_exit_status :: status_t
  pr_terminating :: bool
  pr_image :: string
  pr_cwd :: string
  pr_thread_count :: u32
  pr_std_in :: handle_t
  pr_std_out :: handle_t
  pr_std_err :: handle_t
  pr_entry :: virt_t
  pr_stack :: virt_t
  pr_builtin :: bool
  pr_user_mode :: bool
  pr_argv :: "string list"
  pr_envv :: "string list"
  pr_token :: u64

section \<open>The kernel\<close>

abbreviation (input) PRIORITY_LEVELS :: nat where "PRIORITY_LEVELS \<equiv> 32"
abbreviation (input) PRIORITY_IDLE :: nat where "PRIORITY_IDLE \<equiv> 0"
abbreviation (input) PRIORITY_NORMAL :: nat where "PRIORITY_NORMAL \<equiv> 8"
abbreviation (input) PRIORITY_REALTIME :: nat where "PRIORITY_REALTIME \<equiv> 24"
abbreviation (input) QUANTUM_TICKS :: nat where "QUANTUM_TICKS \<equiv> 3"
abbreviation (input) HANDLE_TABLE_SLOTS :: nat where "HANDLE_TABLE_SLOTS \<equiv> 1024"
abbreviation (input) MAX_PROCESSES :: nat where "MAX_PROCESSES \<equiv> 64"
abbreviation (input) WAIT_OBJECTS_MAX :: nat where "WAIT_OBJECTS_MAX \<equiv> 16"

record kst =
  k_heap :: kheap
  k_obj :: "u64 \<Rightarrow> object"
  k_dir :: "u64 \<Rightarrow> directory_object"
  k_disp :: "dref \<Rightarrow> dispatcher"
  k_auto :: "u64 \<Rightarrow> bool"
  k_mutex :: "u64 \<Rightarrow> mutex_object"
  k_timer :: "u64 \<Rightarrow> timer_object"
  k_section :: "u64 \<Rightarrow> section_object"
  k_pipe :: "u64 \<Rightarrow> pipe_object"
  k_token :: "u64 \<Rightarrow> token_object"
  k_file :: "u64 \<Rightarrow> file_object"
  k_device :: "u64 \<Rightarrow> device_object"
  k_vnode :: "u64 \<Rightarrow> vnode"
  k_thread :: "u64 \<Rightarrow> thread"
  k_proc :: "u64 \<Rightarrow> process"
  g_ready :: "nat \<Rightarrow> u64 list"
  g_ready_mask :: u32
  g_idle :: u64
  g_system :: u64
  g_next_pid :: u64
  g_next_tid :: u64
  g_procs :: "u64 list"
  k_current :: u64
  k_current_process :: u64
  k_need_resched :: bool
  k_ticks :: u64
  g_timers :: "u64 list"
  g_timer_up :: bool
  g_root :: u64
  g_bno :: u64
  g_devices :: u64
  g_root_vnode :: u64
  g_kernel_as :: aspace
  g_ramdisk_dev :: u64
  g_ramdisk_size :: u64
  k_serial_out :: "u8 list"
  k_serial_in :: "u8 list"
  k_stale :: "u64 \<times> u64 \<times> string"

text \<open>
  \<open>k_serial_in\<close> and \<open>k_serial_out\<close> are the two directions of the serial console.  \<open>k_stale\<close> is what
  the stack holds where \<open>vfs_open\<close> keeps its local variables \<open>parent\<close>, \<open>v\<close> and \<open>leaf\<close> before it
  assigns them.  \<open>signal_state\<close> is an unbounded integer: two thousand million signals with no wait in between
  are out of the picture.
\<close>

text \<open>Updates of one record of a store.\<close>

definition upd_obj :: "u64 \<Rightarrow> (object \<Rightarrow> object) \<Rightarrow> kst \<Rightarrow> kst" where
  "upd_obj a f s = s\<lparr>k_obj := (k_obj s)(a := f (k_obj s a))\<rparr>"

definition upd_disp :: "dref \<Rightarrow> (dispatcher \<Rightarrow> dispatcher) \<Rightarrow> kst \<Rightarrow> kst" where
  "upd_disp a f s = s\<lparr>k_disp := (k_disp s)(a := f (k_disp s a))\<rparr>"

definition upd_thread :: "u64 \<Rightarrow> (thread \<Rightarrow> thread) \<Rightarrow> kst \<Rightarrow> kst" where
  "upd_thread a f s = s\<lparr>k_thread := (k_thread s)(a := f (k_thread s a))\<rparr>"

definition upd_proc :: "u64 \<Rightarrow> (process \<Rightarrow> process) \<Rightarrow> kst \<Rightarrow> kst" where
  "upd_proc a f s = s\<lparr>k_proc := (k_proc s)(a := f (k_proc s a))\<rparr>"

definition upd_mutex :: "u64 \<Rightarrow> (mutex_object \<Rightarrow> mutex_object) \<Rightarrow> kst \<Rightarrow> kst" where
  "upd_mutex a f s = s\<lparr>k_mutex := (k_mutex s)(a := f (k_mutex s a))\<rparr>"

definition upd_timer :: "u64 \<Rightarrow> (timer_object \<Rightarrow> timer_object) \<Rightarrow> kst \<Rightarrow> kst" where
  "upd_timer a f s = s\<lparr>k_timer := (k_timer s)(a := f (k_timer s a))\<rparr>"

definition upd_pipe :: "u64 \<Rightarrow> (pipe_object \<Rightarrow> pipe_object) \<Rightarrow> kst \<Rightarrow> kst" where
  "upd_pipe a f s = s\<lparr>k_pipe := (k_pipe s)(a := f (k_pipe s a))\<rparr>"

definition upd_vnode :: "u64 \<Rightarrow> (vnode \<Rightarrow> vnode) \<Rightarrow> kst \<Rightarrow> kst" where
  "upd_vnode a f s = s\<lparr>k_vnode := (k_vnode s)(a := f (k_vnode s a))\<rparr>"

definition upd_file :: "u64 \<Rightarrow> (file_object \<Rightarrow> file_object) \<Rightarrow> kst \<Rightarrow> kst" where
  "upd_file a f s = s\<lparr>k_file := (k_file s)(a := f (k_file s a))\<rparr>"

named_theorems kst_upd "definitions of the store updates"

lemmas upd_defs [kst_upd] =
  upd_obj_def upd_disp_def upd_thread_def upd_proc_def upd_mutex_def upd_timer_def upd_pipe_def
  upd_vnode_def upd_file_def

text \<open>
  A routine that can put the caller to sleep or end it: it has a result now, or the state it
  returns is the one after the switch away from the caller.
\<close>

datatype 'a flow = Now 'a | Sleeps | Exits

text \<open>Memory of the heap, seen by the routines that work on a kernel state.\<close>

definition k_alloc_zero :: "kst \<Rightarrow> u64 \<Rightarrow> (kst \<times> u64) outcome" where
  "k_alloc_zero s n = bind_outcome (kalloc_zero (k_heap s) n) (\<lambda>(h, p). Ret (s\<lparr>k_heap := h\<rparr>, p))"

definition k_alloc :: "kst \<Rightarrow> u64 \<Rightarrow> (kst \<times> u64) outcome" where
  "k_alloc s n = bind_outcome (kalloc (k_heap s) n) (\<lambda>(h, p). Ret (s\<lparr>k_heap := h\<rparr>, p))"

definition k_free :: "kst \<Rightarrow> u64 \<Rightarrow> kst outcome" where
  "k_free s p = bind_outcome (kfree (k_heap s) p) (\<lambda>h. Ret (s\<lparr>k_heap := h\<rparr>))"

text \<open>\<open>strlcpy\<close> into a buffer of \<open>cap\<close> bytes keeps at most \<open>cap - 1\<close> characters.\<close>

definition cut :: "nat \<Rightarrow> string \<Rightarrow> string" where
  "cut cap s = take (cap - 1) s"

end
