(* ===== verification/Sched.thy ===== *)
theory Sched
  imports Kstate
begin

text \<open>
  The dispatcher of \<^verbatim>\<open>kernel/ke/sched.c\<close>: 32 ready queues with a bit mask, readying and boosting
  a thread, and the choice of the next thread.  \<open>sched_reschedule\<close> returns the state after the
  switch: what follows it in the caller runs when the caller is current again.
\<close>

section \<open>Operations\<close>

definition ready_insert :: "u64 \<Rightarrow> kst \<Rightarrow> kst" where
  "ready_insert t s =
     (let p = th_priority (k_thread s t)
      in s\<lparr>g_ready := (g_ready s)(p := g_ready s p @ [t]), g_ready_mask := g_ready_mask s OR push_bit p 1\<rparr>)"

text \<open>\<open>31 - __builtin_clz(mask)\<close>: the highest set bit of a mask that is not 0.\<close>

definition top_bit :: "u32 \<Rightarrow> nat" where
  "top_bit m = (case find (bit m) (rev [0..<32]) of Some p \<Rightarrow> p | None \<Rightarrow> 0)"

definition ready_pop_highest :: "kst \<Rightarrow> kst \<times> u64" where
  "ready_pop_highest s =
     (if g_ready_mask s = 0 then (s, 0)
      else let prio = top_bit (g_ready_mask s)
           in case g_ready s prio of
                [] \<Rightarrow> (s\<lparr>g_ready_mask := g_ready_mask s AND NOT (push_bit prio 1)\<rparr>, 0)
              | t # ts \<Rightarrow>
                  (s\<lparr>g_ready := (g_ready s)(prio := ts),
                     g_ready_mask := if ts = [] then g_ready_mask s AND NOT (push_bit prio 1) else g_ready_mask s\<rparr>, t))"

definition outranks :: "kst \<Rightarrow> u64 \<Rightarrow> bool" where
  "outranks s t \<longleftrightarrow> k_current s \<noteq> 0 \<and> th_priority (k_thread s (k_current s)) < th_priority (k_thread s t)"

definition sched_ready :: "u64 \<Rightarrow> kst \<Rightarrow> kst" where
  "sched_ready t s =
     (if t = 0 \<or> th_state (k_thread s t) = THR_TERMINATED then s
      else if th_state (k_thread s t) = THR_READY \<or> th_state (k_thread s t) = THR_RUNNING then s
      else let s1 = ready_insert t (upd_thread t (\<lambda>x. x\<lparr>th_state := THR_READY\<rparr>) s)
           in if outranks s1 t then s1\<lparr>k_need_resched := True\<rparr> else s1)"

text \<open>The body of a boost: a ready thread moves to the tail of its new queue.\<close>

definition boost_to :: "u64 \<Rightarrow> nat \<Rightarrow> kst \<Rightarrow> kst" where
  "boost_to t np s =
     (let old = th_priority (k_thread s t)
      in if th_state (k_thread s t) = THR_READY
         then ready_insert t (upd_thread t (\<lambda>x. x\<lparr>th_priority := np\<rparr>)
                (s\<lparr>g_ready := (g_ready s)(old := remove1 t (g_ready s old)),
                   g_ready_mask := if remove1 t (g_ready s old) = [] then g_ready_mask s AND NOT (push_bit old 1)
                                   else g_ready_mask s\<rparr>))
         else upd_thread t (\<lambda>x. x\<lparr>th_priority := np\<rparr>) s)"

definition sched_boost :: "u64 \<Rightarrow> nat \<Rightarrow> kst \<Rightarrow> kst" where
  "sched_boost t new_prio s =
     (if t = 0 \<or> t = g_idle s then s
      else let np = (if new_prio \<ge> PRIORITY_LEVELS then PRIORITY_LEVELS - 1 else new_prio);
               old = th_priority (k_thread s t)
           in if old = np then s
              else let s1 = boost_to t np s
                   in if (t \<noteq> k_current s1 \<and> outranks s1 t) \<or> (k_current s1 = t \<and> np < old)
                      then s1\<lparr>k_need_resched := True\<rparr> else s1)"

definition quantum_of :: "nat \<Rightarrow> nat" where
  "quantum_of prio = (if prio \<ge> PRIORITY_REALTIME then 0xFFFF else QUANTUM_TICKS)"

text \<open>The running thread goes back to its queue; the idle thread has no queue.\<close>

definition put_back :: "u64 \<Rightarrow> kst \<Rightarrow> kst" where
  "put_back cur s =
     (if cur \<noteq> 0 \<and> th_state (k_thread s cur) = THR_RUNNING
      then let s1 = upd_thread cur (\<lambda>x. x\<lparr>th_state := THR_READY\<rparr>) s
           in if cur \<noteq> g_idle s then ready_insert cur s1 else s1
      else s)"

definition run_next :: "u64 \<Rightarrow> kst \<Rightarrow> kst" where
  "run_next nxt s =
     (let s1 = upd_thread nxt (\<lambda>x. x\<lparr>th_state := THR_RUNNING, th_quantum := quantum_of (th_priority x)\<rparr>) s
      in s1\<lparr>k_current := nxt, k_current_process := th_process (k_thread s1 nxt)\<rparr>)"

definition sched_reschedule :: "kst \<Rightarrow> kst" where
  "sched_reschedule s =
     (let (s1, popped) = ready_pop_highest (s\<lparr>k_need_resched := False\<rparr>);
          nxt = (if popped = 0 then g_idle s1 else popped)
      in if nxt = k_current s then s1 else run_next nxt (put_back (k_current s) s1))"

definition sched_yield :: "kst \<Rightarrow> kst" where
  "sched_yield s = sched_reschedule s"

section \<open>Well-formed ready queues\<close>

text \<open>
  The mask mirrors the queues, a queued thread is ready and queued at its own priority, no thread
  is queued twice, every ready thread but the idle one (and, between two steps of an operation,
  those of \<open>X\<close>) is queued, and only the current thread runs.
\<close>

definition queues_but :: "u64 set \<Rightarrow> kst \<Rightarrow> bool" where
  "queues_but X s \<longleftrightarrow>
     (\<forall>p<32. bit (g_ready_mask s) p \<longleftrightarrow> g_ready s p \<noteq> []) \<and>
     (\<forall>p t. t \<in> set (g_ready s p) \<longrightarrow> t \<noteq> 0 \<and> th_state (k_thread s t) = THR_READY \<and> th_priority (k_thread s t) = p) \<and>
     (\<forall>p. distinct (g_ready s p)) \<and>
     (\<forall>t. th_state (k_thread s t) = THR_READY \<longrightarrow> t \<noteq> g_idle s \<longrightarrow> t \<notin> X \<longrightarrow>
          t \<in> set (g_ready s (th_priority (k_thread s t)))) \<and>
     (\<forall>t. th_priority (k_thread s t) < 32) \<and> g_idle s \<noteq> 0"

abbreviation queues_ok :: "kst \<Rightarrow> bool" where "queues_ok \<equiv> queues_but {}"

definition running_ok :: "kst \<Rightarrow> bool" where
  "running_ok s \<longleftrightarrow> (\<forall>t. th_state (k_thread s t) = THR_RUNNING \<longrightarrow> t = k_current s \<and> t \<noteq> 0)"

definition sched_inv :: "kst \<Rightarrow> bool" where
  "sched_inv s \<longleftrightarrow> queues_ok s \<and> running_ok s"

lemma queues_butD:
  assumes "queues_but X s"
  shows "p < 32 \<Longrightarrow> bit (g_ready_mask s) p \<longleftrightarrow> g_ready s p \<noteq> []"
    and "t \<in> set (g_ready s p) \<Longrightarrow> t \<noteq> 0"
    and "t \<in> set (g_ready s p) \<Longrightarrow> th_state (k_thread s t) = THR_READY"
    and "t \<in> set (g_ready s p) \<Longrightarrow> th_priority (k_thread s t) = p"
    and "distinct (g_ready s p)"
    and "th_state (k_thread s t) = THR_READY \<Longrightarrow> t \<noteq> g_idle s \<Longrightarrow> t \<notin> X \<Longrightarrow>
           t \<in> set (g_ready s (th_priority (k_thread s t)))"
    and "th_priority (k_thread s t) < 32"
    and "g_idle s \<noteq> 0"
  using assms by (auto simp: queues_but_def)

lemma bit_push1 [simp]: "bit (push_bit p (1::u32)) q \<longleftrightarrow> q = p \<and> p < 32"
  by (auto simp: bit_simps)

lemma bit_pow2_u32 [simp]: "bit ((2::u32) ^ p) q \<longleftrightarrow> q = p \<and> p < 32"
  using bit_push1[of p q] by (simp add: push_bit_of_1)

lemma top_bit_find: "m \<noteq> 0 \<Longrightarrow> find (bit m) (rev [0..<32]) = Some (top_bit (m :: u32))"
proof -
  assume "m \<noteq> 0"
  then obtain n where "bit m n" by (auto simp: bit_eq_iff)
  moreover from this have "n < 32" using bit_imp_le_length[of m n] by simp
  ultimately have "find (bit m) (rev [0..<32]) \<noteq> None"
    by (auto simp: find_None_iff)
  then show ?thesis by (auto simp: top_bit_def)
qed

lemma find_rev_upt: "find P (rev [0..<n]) = Some p \<Longrightarrow> P p \<and> p < n \<and> (\<forall>q<n. p < q \<longrightarrow> \<not> P q)"
proof (induction n)
  case (Suc n)
  then show ?case by (cases "P n") (auto simp: less_Suc_eq)
qed simp

lemma top_bit:
  assumes "m \<noteq> (0 :: u32)"
  shows "bit m (top_bit m)" "top_bit m < 32" "top_bit m < q \<Longrightarrow> q < 32 \<Longrightarrow> \<not> bit m q"
  using find_rev_upt[OF top_bit_find[OF assms]] by auto


definition queued :: "kst \<Rightarrow> u64 \<Rightarrow> bool" where
  "queued s t \<longleftrightarrow> (\<exists>p. t \<in> set (g_ready s p))"

lemma queued_ready: "queues_but X s \<Longrightarrow> queued s t \<Longrightarrow> th_state (k_thread s t) = THR_READY"
  by (auto simp: queued_def queues_but_def)

lemma top_queue_none:
  assumes "queues_but X s" "g_ready_mask s = 0"
  shows "g_ready s p = []"
proof (rule ccontr)
  assume ne: "g_ready s p \<noteq> []"
  then obtain t where t: "t \<in> set (g_ready s p)" by (cases "g_ready s p") auto
  have "p < 32" using queues_butD(4)[OF assms(1) t] queues_butD(7)[OF assms(1), of t] by simp
  then show False using queues_butD(1)[OF assms(1)] ne assms(2) by auto
qed

lemma pop_cases:
  assumes q: "queues_but X s" and pop: "ready_pop_highest s = (s', t)"
  obtains (none) "s' = s" "t = 0" "\<forall>p. g_ready s p = []"
  | (some) p ts where "g_ready s p = t # ts" "p < 32" "\<forall>r>p. g_ready s r = []" "t \<noteq> 0"
      "th_priority (k_thread s t) = p" "th_state (k_thread s t) = THR_READY"
      "s' = s\<lparr>g_ready := (g_ready s)(p := ts),
              g_ready_mask := if ts = [] then g_ready_mask s AND NOT (push_bit p 1) else g_ready_mask s\<rparr>"
proof (cases "g_ready_mask s = 0")
  case True
  then show ?thesis using none top_queue_none[OF q True] pop by (simp add: ready_pop_highest_def)
next
  case False
  let ?p = "top_bit (g_ready_mask s)"
  note tb = top_bit[OF False]
  have "g_ready s ?p \<noteq> []" using queues_butD(1)[OF q tb(2)] tb(1) by simp
  then obtain u ts where u: "g_ready s ?p = u # ts" by (cases "g_ready s ?p") auto
  have ut: "u = t" "s' = s\<lparr>g_ready := (g_ready s)(?p := ts),
              g_ready_mask := if ts = [] then g_ready_mask s AND NOT (push_bit ?p 1) else g_ready_mask s\<rparr>"
    using pop False u by (auto simp: ready_pop_highest_def Let_def)
  have mem: "t \<in> set (g_ready s ?p)" using u ut by simp
  have high: "\<forall>r>?p. g_ready s r = []"
  proof (intro allI impI)
    fix r assume r: "?p < r"
    show "g_ready s r = []"
    proof (cases "r < 32")
      case True then show ?thesis using tb(3)[OF r True] queues_butD(1)[OF q True] by simp
    next
      case False
      { fix x assume "x \<in> set (g_ready s r)"
        then have "th_priority (k_thread s x) = r" using queues_butD(4)[OF q] by simp
        with False queues_butD(7)[OF q, of x] have False by simp }
      then show ?thesis by (cases "g_ready s r") auto
    qed
  qed
  show ?thesis
    using some[of ?p ts] u ut high tb(2) queues_butD(2,3,4)[OF q mem] by simp
qed

lemma queues_butI:
  assumes "\<And>p. p < 32 \<Longrightarrow> bit (g_ready_mask s) p \<longleftrightarrow> g_ready s p \<noteq> []"
    and "\<And>p t. t \<in> set (g_ready s p) \<Longrightarrow> t \<noteq> 0 \<and> th_state (k_thread s t) = THR_READY \<and> th_priority (k_thread s t) = p"
    and "\<And>p. distinct (g_ready s p)"
    and "\<And>t. th_state (k_thread s t) = THR_READY \<Longrightarrow> t \<noteq> g_idle s \<Longrightarrow> t \<notin> X \<Longrightarrow>
           t \<in> set (g_ready s (th_priority (k_thread s t)))"
    and "\<And>t. th_priority (k_thread s t) < 32" and "g_idle s \<noteq> 0"
  shows "queues_but X s"
  using assms by (simp add: queues_but_def)

text \<open>Taking a thread out of its queue, with the mask kept in step.\<close>

lemma dequeue_queues:
  assumes q: "queues_but X s" and mem: "t \<in> set (g_ready s p)"
    and s': "s' = s\<lparr>g_ready := (g_ready s)(p := remove1 t (g_ready s p)),
              g_ready_mask := if remove1 t (g_ready s p) = [] then g_ready_mask s AND NOT (push_bit p 1) else g_ready_mask s\<rparr>"
  shows "queues_but (insert t X) s'" "\<not> queued s' t"
proof -
  let ?q = "remove1 t (g_ready s p)"
  note D = queues_butD[OF q]
  have set_q: "set ?q = set (g_ready s p) - {t}" using D(5) by (simp add: set_remove1_eq)
  have p: "p < 32" using D(4)[OF mem] D(7)[of t] by simp
  show "queues_but (insert t X) s'"
  proof (rule queues_butI)
    fix r assume r: "(r::nat) < 32"
    show "bit (g_ready_mask s') r \<longleftrightarrow> g_ready s' r \<noteq> []"
    proof (cases "r = p")
      case True
      have "bit (g_ready_mask s) p" using D(1)[OF p] mem by (cases "g_ready s p") auto
      then show ?thesis using True p by (auto simp: s' bit_simps)
    next
      case False
      then show ?thesis using D(1)[OF r] r by (auto simp: s' bit_simps)
    qed
  next
    fix r u assume "u \<in> set (g_ready s' r)"
    then have "u \<in> set (g_ready s r)" using set_q by (auto simp: s' split: if_splits)
    then show "u \<noteq> 0 \<and> th_state (k_thread s' u) = THR_READY \<and> th_priority (k_thread s' u) = r"
      using D(2-4) by (simp add: s')
  next
    fix r show "distinct (g_ready s' r)" using D(5)[of r] D(5)[of p] by (simp add: s')
  next
    fix u assume u: "th_state (k_thread s' u) = THR_READY" "u \<noteq> g_idle s'" "u \<notin> insert t X"
    then have "u \<in> set (g_ready s (th_priority (k_thread s u)))" using D(6)[of u] by (simp add: s')
    then show "u \<in> set (g_ready s' (th_priority (k_thread s' u)))" using u(3) set_q by (auto simp: s')
  next
    fix u show "th_priority (k_thread s' u) < 32" using D(7) by (simp add: s')
  next
    show "g_idle s' \<noteq> 0" using D(8) by (simp add: s')
  qed
  show "\<not> queued s' t"
  proof
    assume "queued s' t"
    then obtain r where r: "t \<in> set (g_ready s' r)" by (auto simp: queued_def)
    have e: "g_ready s' = (g_ready s)(p := ?q)" by (simp add: s')
    have "r \<noteq> p" using r set_q by (cases "r = p") (simp_all add: e)
    then have "t \<in> set (g_ready s r)" using r by (simp add: e)
    then show False using D(4)[OF mem] D(4)[of t r] \<open>r \<noteq> p\<close> by simp
  qed
qed

lemma pop_queues:
  assumes q: "queues_but X s" and pop: "ready_pop_highest s = (s', t)" and nz: "t \<noteq> 0"
  shows "queues_but (insert t X) s'" "\<not> queued s' t"
proof -
  obtain p ts where g: "g_ready s p = t # ts"
    and s': "s' = s\<lparr>g_ready := (g_ready s)(p := ts),
              g_ready_mask := if ts = [] then g_ready_mask s AND NOT (push_bit p 1) else g_ready_mask s\<rparr>"
    using q pop
  proof (cases rule: pop_cases)
    case none
    then show ?thesis using nz by simp
  next
    case (some p ts)
    show ?thesis by (rule that[OF some(1,7)])
  qed
  show "queues_but (insert t X) s'" "\<not> queued s' t"
    using dequeue_queues[OF q, of t p s'] g s' by simp_all
qed

lemma enqueue_queues:
  assumes q: "queues_but X s" and nq: "\<not> queued s t" and nz: "t \<noteq> 0" and r: "th_state (k_thread s t) = THR_READY"
  shows "queues_but (X - {t}) (ready_insert t s)"
proof -
  let ?p = "th_priority (k_thread s t)" let ?s = "ready_insert t s"
  note D = queues_butD[OF q]
  have g: "g_ready ?s = (g_ready s)(?p := g_ready s ?p @ [t])" "g_ready_mask ?s = g_ready_mask s OR push_bit ?p 1"
    "k_thread ?s = k_thread s" "g_idle ?s = g_idle s"
    by (simp_all add: ready_insert_def Let_def)
  have nq': "t \<notin> set (g_ready s r)" for r using nq by (auto simp: queued_def)
  show ?thesis
  proof (rule queues_butI)
    fix r assume r: "(r::nat) < 32"
    show "bit (g_ready_mask ?s) r \<longleftrightarrow> g_ready ?s r \<noteq> []"
      using D(1)[OF r] r by (auto simp: g bit_simps)
  next
    fix r u assume "u \<in> set (g_ready ?s r)"
    then show "u \<noteq> 0 \<and> th_state (k_thread ?s u) = THR_READY \<and> th_priority (k_thread ?s u) = r"
      using D(2-4)[of u r] nz r by (auto simp: g split: if_splits)
  next
    fix r show "distinct (g_ready ?s r)" using D(5)[of r] D(5)[of ?p] nq' by (simp add: g)
  next
    fix u assume u: "th_state (k_thread ?s u) = THR_READY" "u \<noteq> g_idle ?s" "u \<notin> X - {t}"
    show "u \<in> set (g_ready ?s (th_priority (k_thread ?s u)))"
      using D(6)[of u] u by (cases "u = t") (auto simp: g)
  next
    fix u show "th_priority (k_thread ?s u) < 32" using D(7) by (simp add: g)
  next
    show "g_idle ?s \<noteq> 0" using D(8) by (simp add: g)
  qed
qed

text \<open>Changing a thread that is in no queue.\<close>

lemma upd_queues:
  assumes q: "queues_but X s" and nq: "\<not> queued s t" and pr: "th_priority (f (k_thread s t)) < 32"
  shows "queues_but (insert t X) (upd_thread t f s)"
    and "th_state (f (k_thread s t)) \<noteq> THR_READY \<Longrightarrow> queues_but (X - {t}) (upd_thread t f s)"
    and "\<not> queued (upd_thread t f s) t"
proof -
  note D = queues_butD[OF q]
  have nq': "t \<notin> set (g_ready s r)" for r using nq by (auto simp: queued_def)
  have c: "queues_but Y (upd_thread t f s)"
    if y: "\<And>u. u \<notin> Y \<Longrightarrow> u \<noteq> t \<Longrightarrow> u \<notin> X"
      "t \<notin> Y \<Longrightarrow> th_state (f (k_thread s t)) \<noteq> THR_READY" for Y
  proof (rule queues_butI)
    fix r u assume "u \<in> set (g_ready (upd_thread t f s) r)"
    then show "u \<noteq> 0 \<and> th_state (k_thread (upd_thread t f s) u) = THR_READY \<and>
               th_priority (k_thread (upd_thread t f s) u) = r"
      using D(2-4)[of u r] nq' by (auto simp: upd_thread_def)
  next
    fix u assume "th_state (k_thread (upd_thread t f s) u) = THR_READY" "u \<noteq> g_idle (upd_thread t f s)" "u \<notin> Y"
    then show "u \<in> set (g_ready (upd_thread t f s) (th_priority (k_thread (upd_thread t f s) u)))"
      using D(6)[of u] y by (cases "u = t") (auto simp: upd_thread_def)
  next
    fix u show "th_priority (k_thread (upd_thread t f s) u) < 32"
      using D(7)[of u] pr by (simp add: upd_thread_def)
  qed (use D(1,5,8) in \<open>simp_all add: upd_thread_def\<close>)
  show "queues_but (insert t X) (upd_thread t f s)" by (rule c) auto
  show "queues_but (X - {t}) (upd_thread t f s)" if "th_state (f (k_thread s t)) \<noteq> THR_READY"
    by (rule c) (use that in auto)
  show "\<not> queued (upd_thread t f s) t" using nq by (simp add: queued_def upd_thread_def)
qed

text \<open>The dispatcher looks at no other part of the state.\<close>

lemma queues_cong:
  assumes "g_ready s' = g_ready s" "g_ready_mask s' = g_ready_mask s" "k_thread s' = k_thread s" "g_idle s' = g_idle s"
  shows "queues_but X s' = queues_but X s" "queued s' t = queued s t"
  using assms by (simp_all add: queues_but_def queued_def)

lemma queues_need [simp]: "queues_but X (s\<lparr>k_need_resched := b\<rparr>) = queues_but X s"
  by (rule queues_cong) simp_all


section \<open>Preservation\<close>

lemma sched_ready_frame:
  "k_current (sched_ready t s) = k_current s" "g_idle (sched_ready t s) = g_idle s"
  "k_disp (sched_ready t s) = k_disp s" "k_mutex (sched_ready t s) = k_mutex s"
  "u \<noteq> t \<Longrightarrow> k_thread (sched_ready t s) u = k_thread s u"
  "th_priority (k_thread (sched_ready t s) u) = th_priority (k_thread s u)"
  by (auto simp: sched_ready_def ready_insert_def Let_def upd_thread_def)

lemma sched_ready_queues:
  assumes q: "queues_but X s"
  shows "queues_but X (sched_ready t s)"
proof (cases "t = 0 \<or> th_state (k_thread s t) \<in> {THR_TERMINATED, THR_READY, THR_RUNNING}")
  case True
  then show ?thesis using q by (auto simp: sched_ready_def)
next
  case False
  let ?s1 = "upd_thread t (\<lambda>x. x\<lparr>th_state := THR_READY\<rparr>) s"
  have nq: "\<not> queued s t" using queued_ready[OF q] False by auto
  note u = upd_queues[OF q nq, of "\<lambda>x. x\<lparr>th_state := THR_READY\<rparr>"]
  have "queues_but (insert t X - {t}) (ready_insert t ?s1)"
    by (rule enqueue_queues) (use u queues_butD(7)[OF q, of t] False in \<open>simp_all add: upd_thread_def\<close>)
  then have "queues_but X (ready_insert t ?s1)"
    by (auto simp: queues_but_def)
  then show ?thesis using False by (auto simp: sched_ready_def Let_def)
qed

lemma sched_ready_running: "running_ok s \<Longrightarrow> running_ok (sched_ready t s)"
  by (auto simp: running_ok_def sched_ready_def ready_insert_def Let_def upd_thread_def)

lemma sched_ready_inv: "sched_inv s \<Longrightarrow> sched_inv (sched_ready t s)"
  by (simp add: sched_inv_def sched_ready_queues sched_ready_running)


lemma queues_but_mono: "queues_but X s \<Longrightarrow> X \<subseteq> Y \<Longrightarrow> queues_but Y s"
  by (auto simp: queues_but_def)

lemma sched_boost_cases:
  obtains "sched_boost t np s = s"
  | b where "t \<noteq> 0" "t \<noteq> g_idle s"
      "sched_boost t np s = (boost_to t (min np 31) s)\<lparr>k_need_resched := b\<rparr>"
proof (cases "t = 0 \<or> t = g_idle s \<or> th_priority (k_thread s t) = min np 31")
  case True
  then show ?thesis using that(1) by (auto simp: sched_boost_def Let_def min_def)
next
  case False
  let ?s1 = "boost_to t (min np 31) s"
  have m: "(if 32 \<le> np then 32 - 1 else np) = min np 31" by (simp add: min_def)
  have w: "?s1\<lparr>k_need_resched := k_need_resched ?s1\<rparr> = ?s1" by simp
  have "sched_boost t np s = ?s1\<lparr>k_need_resched := True\<rparr> \<or> sched_boost t np s = ?s1"
    using False unfolding sched_boost_def m Let_def by (simp only: if_False if_True de_Morgan_disj) simp
  moreover have nz: "t \<noteq> 0" "t \<noteq> g_idle s" using False by blast+
  moreover have "sched_boost t np s = ?s1 \<Longrightarrow> sched_boost t np s = ?s1\<lparr>k_need_resched := k_need_resched ?s1\<rparr>"
    by (simp only: w)
  ultimately show ?thesis using that(2) by blast
qed

lemma boost_to_queues:
  assumes q: "queues_but X s" and np: "np < 32" and ni: "t \<notin> X" "t \<noteq> g_idle s" "t \<noteq> 0"
  shows "queues_but X (boost_to t np s)"
proof (cases "th_state (k_thread s t) = THR_READY")
  case True
  let ?old = "th_priority (k_thread s t)"
  let ?s0 = "s\<lparr>g_ready := (g_ready s)(?old := remove1 t (g_ready s ?old)),
               g_ready_mask := if remove1 t (g_ready s ?old) = [] then g_ready_mask s AND NOT (push_bit ?old 1)
                               else g_ready_mask s\<rparr>"
  let ?f = "\<lambda>x. x\<lparr>th_priority := np\<rparr>"
  have mem: "t \<in> set (g_ready s ?old)" using queues_butD(6)[OF q True] ni by simp
  note d = dequeue_queues[OF q mem refl]
  have t0: "k_thread ?s0 t = k_thread s t" by simp
  note u = upd_queues[OF d(1,2), of ?f]
  have "queues_but (insert t (insert t X) - {t}) (ready_insert t (upd_thread t ?f ?s0))"
    by (rule enqueue_queues[OF u(1) u(3)]) (use np ni True in \<open>simp_all add: upd_thread_def\<close>)
  then have "queues_but X (ready_insert t (upd_thread t ?f ?s0))"
    by (rule queues_but_mono) auto
  then show ?thesis using True by (simp add: boost_to_def Let_def)
next
  case False
  have nq: "\<not> queued s t" using queued_ready[OF q] False by auto
  have "queues_but (X - {t}) (upd_thread t (\<lambda>x. x\<lparr>th_priority := np\<rparr>) s)"
    by (rule upd_queues(2)[OF q nq]) (use np False in simp_all)
  then have "queues_but X (upd_thread t (\<lambda>x. x\<lparr>th_priority := np\<rparr>) s)"
    by (rule queues_but_mono) auto
  then show ?thesis using False by (simp add: boost_to_def Let_def)
qed

lemma boost_to_frame:
  "k_current (boost_to t np s) = k_current s" "g_idle (boost_to t np s) = g_idle s"
  "k_disp (boost_to t np s) = k_disp s" "k_mutex (boost_to t np s) = k_mutex s"
  "th_state (k_thread (boost_to t np s) u) = th_state (k_thread s u)"
  "u \<noteq> t \<Longrightarrow> k_thread (boost_to t np s) u = k_thread s u"
  "k_thread (boost_to t np s) t = (k_thread s t)\<lparr>th_priority := np\<rparr>"
  by (simp_all add: boost_to_def ready_insert_def Let_def upd_thread_def)

lemma sched_boost_inv:
  assumes "sched_inv s"
  shows "sched_inv (sched_boost t np s)"
proof (rule sched_boost_cases[of t np s])
  fix b assume a: "t \<noteq> 0" "t \<noteq> g_idle s" "sched_boost t np s = (boost_to t (min np 31) s)\<lparr>k_need_resched := b\<rparr>"
  have "queues_ok (boost_to t (min np 31) s)"
    using assms a by (intro boost_to_queues) (auto simp: sched_inv_def)
  moreover have "running_ok (boost_to t (min np 31) s)"
    using assms by (simp add: sched_inv_def running_ok_def boost_to_frame)
  ultimately show ?thesis by (simp add: a(3) sched_inv_def running_ok_def)
qed (use assms in simp)


lemma queues_but_idle: "queues_but (insert (g_idle s) X) s \<Longrightarrow> queues_but X s"
  by (auto simp: queues_but_def)

lemma put_back_frame:
  "g_idle (put_back c s) = g_idle s" "k_current (put_back c s) = k_current s"
  "u \<noteq> c \<Longrightarrow> k_thread (put_back c s) u = k_thread s u"
  "th_state (k_thread (put_back c s) u) =
     (if u = c \<and> c \<noteq> 0 \<and> th_state (k_thread s c) = THR_RUNNING then THR_READY else th_state (k_thread s u))"
  "th_priority (k_thread (put_back c s) u) = th_priority (k_thread s u)"
  by (simp_all add: put_back_def ready_insert_def Let_def upd_thread_def)

lemma put_back_queues:
  assumes q: "queues_but X s"
  shows "queues_but X (put_back c s)" "u \<noteq> c \<Longrightarrow> queued (put_back c s) u = queued s u"
proof -
  let ?f = "\<lambda>x. x\<lparr>th_state := THR_READY\<rparr>"
  show "queues_but X (put_back c s)"
  proof (cases "c \<noteq> 0 \<and> th_state (k_thread s c) = THR_RUNNING")
    case True
    have nq: "\<not> queued s c" using queued_ready[OF q] True by auto
    have pr: "th_priority (?f (k_thread s c)) < 32" using queues_butD(7)[OF q] by simp
    note u = upd_queues[OF q nq, of ?f]
    show ?thesis
    proof (cases "c = g_idle s")
      case True
      have gi: "g_idle (upd_thread c ?f s) = c" using True by (simp add: upd_thread_def)
      have "queues_but X (upd_thread c ?f s)"
        using u(1)[OF pr] queues_but_idle[of "upd_thread c ?f s" X] by (simp add: gi)
      then show ?thesis using True \<open>c \<noteq> 0 \<and> _\<close> by (simp add: put_back_def Let_def)
    next
      case False
      have "queues_but (insert c X - {c}) (ready_insert c (upd_thread c ?f s))"
        by (rule enqueue_queues[OF u(1)[OF pr] u(3)[OF pr]]) (use True in \<open>simp_all add: upd_thread_def\<close>)
      then have "queues_but X (ready_insert c (upd_thread c ?f s))" by (rule queues_but_mono) auto
      then show ?thesis using True False by (simp add: put_back_def Let_def)
    qed
  next
    case False
    then have "put_back c s = s" by (auto simp: put_back_def)
    then show ?thesis using q by simp
  qed
  show "queued (put_back c s) u = queued s u" if "u \<noteq> c"
  proof -
    have "u \<in> set (g_ready (put_back c s) r) \<longleftrightarrow> u \<in> set (g_ready s r)" for r
      using that by (simp add: put_back_def ready_insert_def Let_def upd_thread_def)
    then show ?thesis by (simp add: queued_def)
  qed
qed

lemma run_next_queues:
  assumes q: "queues_but X s" and nq: "\<not> queued s t"
  shows "queues_but (X - {t}) (run_next t s)"
proof -
  let ?f = "\<lambda>x. x\<lparr>th_state := THR_RUNNING, th_quantum := quantum_of (th_priority x)\<rparr>"
  have "queues_but (X - {t}) (upd_thread t ?f s)"
    by (rule upd_queues(2)[OF q nq]) (use queues_butD(7)[OF q] in simp_all)
  then show ?thesis by (simp add: run_next_def Let_def queues_but_def)
qed

lemma run_next_frame:
  "k_current (run_next t s) = t" "g_idle (run_next t s) = g_idle s" "g_ready (run_next t s) = g_ready s"
  "th_state (k_thread (run_next t s) u) = (if u = t then THR_RUNNING else th_state (k_thread s u))"
  "th_priority (k_thread (run_next t s) u) = th_priority (k_thread s u)"
  by (simp_all add: run_next_def Let_def upd_thread_def)

text \<open>The thread the dispatcher picks: the head of the highest queue that is not empty, else the idle thread.\<close>

definition picked :: "kst \<Rightarrow> u64 \<Rightarrow> bool" where
  "picked s t \<longleftrightarrow>
     (\<exists>p<32. g_ready s p \<noteq> [] \<and> t = hd (g_ready s p) \<and> (\<forall>r>p. g_ready s r = [])) \<or>
     (\<forall>p. g_ready s p = []) \<and> t = g_idle s"

lemma reschedule_switch:
  assumes i: "sched_inv s" and c: "th_state (k_thread s (k_current s)) \<noteq> THR_READY"
    and pop: "ready_pop_highest (s\<lparr>k_need_resched := False\<rparr>) = (s1, popped)"
    and nxt: "nxt = (if popped = 0 then g_idle s1 else popped)"
  shows "picked s nxt" "queues_but {nxt} s1" "nxt \<noteq> k_current s \<Longrightarrow> \<not> queued s1 nxt"
    "k_thread s1 = k_thread s" "k_current s1 = k_current s" "g_idle s1 = g_idle s" "nxt \<noteq> 0"
    "popped \<noteq> 0 \<Longrightarrow> nxt \<noteq> k_current s" "popped = 0 \<Longrightarrow> s1 = s\<lparr>k_need_resched := False\<rparr>"
proof -
  let ?s = "s\<lparr>k_need_resched := False\<rparr>"
  have q: "queues_ok ?s" using i by (simp add: sched_inv_def)
  have all: "picked s nxt \<and> queues_but {nxt} s1 \<and> (nxt \<noteq> k_current s \<longrightarrow> \<not> queued s1 nxt) \<and>
    k_thread s1 = k_thread s \<and> k_current s1 = k_current s \<and> g_idle s1 = g_idle s \<and> nxt \<noteq> 0 \<and>
    (popped \<noteq> 0 \<longrightarrow> nxt \<noteq> k_current s) \<and> (popped = 0 \<longrightarrow> s1 = ?s)"
    using q pop
  proof (cases rule: pop_cases)
    case none
    have "queues_but {nxt} s1" using q none(1) by (auto intro: queues_but_mono)
    moreover have "\<not> queued s1 nxt" using none by (simp add: queued_def)
    moreover have "g_idle s \<noteq> 0" using queues_butD(8)[OF q] by simp
    ultimately show ?thesis using none nxt by (simp add: picked_def)
  next
    case (some p ts)
    have n: "nxt = popped" using some(4) nxt by simp
    have "nxt \<noteq> k_current s" using some(6) c n by auto
    moreover have "queues_but {nxt} s1" "\<not> queued s1 nxt" using pop_queues[OF q pop some(4)] n by simp_all
    moreover have "picked s nxt" using some(1-3) n by (auto simp: picked_def)
    ultimately show ?thesis using some(4,7) n by simp
  qed
  then show "picked s nxt" "queues_but {nxt} s1" "nxt \<noteq> k_current s \<Longrightarrow> \<not> queued s1 nxt"
    "k_thread s1 = k_thread s" "k_current s1 = k_current s" "g_idle s1 = g_idle s" "nxt \<noteq> 0"
    "popped \<noteq> 0 \<Longrightarrow> nxt \<noteq> k_current s" "popped = 0 \<Longrightarrow> s1 = ?s" by blast+
qed

lemma sched_reschedule_ok:
  assumes i: "sched_inv s" and c: "th_state (k_thread s (k_current s)) \<noteq> THR_READY"
  shows "picked s (k_current (sched_reschedule s))" "sched_inv (sched_reschedule s)"
    "k_current (sched_reschedule s) \<noteq> k_current s \<Longrightarrow>
       th_state (k_thread (sched_reschedule s) (k_current (sched_reschedule s))) = THR_RUNNING"
proof -
  obtain s1 popped where pop: "ready_pop_highest (s\<lparr>k_need_resched := False\<rparr>) = (s1, popped)" by fastforce
  define nxt where nxt: "nxt = (if popped = 0 then g_idle s1 else popped)"
  note sw = reschedule_switch[OF i c pop nxt]
  have r: "sched_reschedule s = (if nxt = k_current s then s1 else run_next nxt (put_back (k_current s) s1))"
    by (simp add: sched_reschedule_def pop nxt)
  have all: "picked s (k_current (sched_reschedule s)) \<and> sched_inv (sched_reschedule s) \<and>
    (k_current (sched_reschedule s) \<noteq> k_current s \<longrightarrow>
       th_state (k_thread (sched_reschedule s) (k_current (sched_reschedule s))) = THR_RUNNING)"
  proof (cases "nxt = k_current s")
    case True
    then have "popped = 0" using sw(8) by blast
    then have "s1 = s\<lparr>k_need_resched := False\<rparr>" by (rule sw(9))
    then show ?thesis using True i sw(1) r by (simp add: sched_inv_def running_ok_def)
  next
    case False
    let ?s2 = "put_back (k_current s) s1"
    have "queues_but ({nxt} - {nxt}) (run_next nxt ?s2)"
      by (rule run_next_queues[OF put_back_queues(1)[OF sw(2)]])
         (use put_back_queues(2)[OF sw(2) False] sw(3)[OF False] in simp)
    moreover have "running_ok (run_next nxt ?s2)"
      using i sw(4,7) by (auto simp: running_ok_def sched_inv_def run_next_frame put_back_frame)
    ultimately show ?thesis using False sw(1) r by (simp add: sched_inv_def run_next_frame)
  qed
  then show "picked s (k_current (sched_reschedule s))" "sched_inv (sched_reschedule s)"
    "k_current (sched_reschedule s) \<noteq> k_current s \<Longrightarrow>
       th_state (k_thread (sched_reschedule s) (k_current (sched_reschedule s))) = THR_RUNNING" by blast+
qed

end
