(* ===== verification/Dispatch.thy ===== *)
theory Dispatch
  imports Sched
begin

text \<open>
  Dispatcher objects: the signalling half of \<^verbatim>\<open>kernel/ob/object.c\<close> (\<open>disp_init\<close>,
  \<open>disp_wake_one\<close>, \<open>disp_wake_all\<close>, \<open>disp_signal\<close>) and the ownership lists of mutexes of
  \<^verbatim>\<open>kernel/ke/wait.c\<close>.  A wait list holds references to wait blocks, oldest first.
\<close>

fun dref_obj :: "dref \<Rightarrow> u64" where
  "dref_obj (Disp a) = a"
| "dref_obj (CanRead a) = a"
| "dref_obj (CanWrite a) = a"

definition disp_init :: "dref \<Rightarrow> disp_type \<Rightarrow> int \<Rightarrow> kst \<Rightarrow> kst" where
  "disp_init d ty st s = s\<lparr>k_disp := (k_disp s)(d := \<lparr>d_type = ty, d_signal = st, d_waiters = []\<rparr>)\<rparr>"

section \<open>Mutex ownership lists\<close>

text \<open>\<open>list_remove(&m->owned_link)\<close>: the mutex leaves the list it is on, whoever owns that list.\<close>

definition unlink_owned :: "u64 \<Rightarrow> kst \<Rightarrow> kst" where
  "unlink_owned m s = s\<lparr>k_thread := (\<lambda>t. (k_thread s t)\<lparr>th_owned := remove1 m (th_owned (k_thread s t))\<rparr>)\<rparr>"

definition ke_mutex_own :: "u64 \<Rightarrow> u64 \<Rightarrow> kst \<Rightarrow> kst" where
  "ke_mutex_own m t s =
     (if m = 0 \<or> t = 0 then s
      else upd_thread t (\<lambda>x. x\<lparr>th_owned := th_owned x @ [m]\<rparr>) (unlink_owned m s))"

definition ke_mutex_disown :: "u64 \<Rightarrow> kst \<Rightarrow> kst" where
  "ke_mutex_disown m s = (if m = 0 then s else unlink_owned m s)"

section \<open>Waking\<close>

definition set_wb_status :: "wref \<Rightarrow> status_t \<Rightarrow> kst \<Rightarrow> kst" where
  "set_wb_status w st s =
     (case w of
        (t, WSingle) \<Rightarrow> upd_thread t (\<lambda>x. x\<lparr>th_wait := (th_wait x)\<lparr>wb_status := st\<rparr>\<rparr>) s
      | (t, WMulti i) \<Rightarrow> upd_thread t (\<lambda>x. x\<lparr>th_multi := (th_multi x)(i := (th_multi x i)\<lparr>wb_status := st\<rparr>)\<rparr>) s)"

text \<open>Ownership of a mutex passes to the woken thread inside the wake-up.\<close>

definition grant_mutex :: "dref \<Rightarrow> u64 \<Rightarrow> status_t \<Rightarrow> kst \<Rightarrow> kst" where
  "grant_mutex d t st s =
     ke_mutex_own (dref_obj d) t
       (upd_disp d (\<lambda>x. x\<lparr>d_signal := 0\<rparr>)
         (upd_mutex (dref_obj d) (\<lambda>m. m\<lparr>m_owner := t, m_recursion := 1, m_abandoned := (st = STATUS_ABANDONED)\<rparr>) s))"

definition disp_wake_one :: "dref \<Rightarrow> status_t \<Rightarrow> kst \<Rightarrow> kst" where
  "disp_wake_one d st s =
     (case d_waiters (k_disp s d) of
        [] \<Rightarrow> s
      | w # ws \<Rightarrow>
          let t = fst w;
              s1 = set_wb_status (t, WSingle) st (set_wb_status w st (upd_disp d (\<lambda>x. x\<lparr>d_waiters := ws\<rparr>) s));
              s2 = (if d_type (k_disp s d) = DISP_MUTANT then grant_mutex d t st s1 else s1)
          in if th_state (k_thread s2 t) = THR_WAITING then sched_ready t s2 else s2)"

lemma set_wb_status_frame [simp]:
  "k_disp (set_wb_status w st s) = k_disp s" "k_mutex (set_wb_status w st s) = k_mutex s"
  "k_current (set_wb_status w st s) = k_current s" "g_idle (set_wb_status w st s) = g_idle s"
  "g_ready (set_wb_status w st s) = g_ready s" "g_ready_mask (set_wb_status w st s) = g_ready_mask s"
  by (simp_all add: set_wb_status_def upd_thread_def split: prod.splits wslot.splits)

lemma ke_mutex_own_frame [simp]:
  "k_disp (ke_mutex_own m t s) = k_disp s" "k_mutex (ke_mutex_own m t s) = k_mutex s"
  "k_current (ke_mutex_own m t s) = k_current s" "g_idle (ke_mutex_own m t s) = g_idle s"
  "g_ready (ke_mutex_own m t s) = g_ready s" "g_ready_mask (ke_mutex_own m t s) = g_ready_mask s"
  by (simp_all add: ke_mutex_own_def upd_thread_def unlink_owned_def)

lemma grant_mutex_disp:
  "k_disp (grant_mutex d t st s) = (k_disp s)(d := (k_disp s d)\<lparr>d_signal := 0\<rparr>)"
  by (simp add: grant_mutex_def upd_disp_def upd_mutex_def)

lemma disp_wake_one_disp:
  "k_disp (disp_wake_one d st s) =
     (if d_waiters (k_disp s d) = [] then k_disp s
      else (k_disp s)(d := (k_disp s d)\<lparr>d_waiters := tl (d_waiters (k_disp s d)),
                                       d_signal := if d_type (k_disp s d) = DISP_MUTANT then 0
                                                   else d_signal (k_disp s d)\<rparr>))"
  by (simp add: disp_wake_one_def Let_def grant_mutex_disp sched_ready_frame upd_disp_def split: list.splits)

function disp_wake_all :: "dref \<Rightarrow> status_t \<Rightarrow> kst \<Rightarrow> kst" where
  "disp_wake_all d st s =
     (if d_waiters (k_disp s d) = [] then s else disp_wake_all d st (disp_wake_one d st s))"
  by pat_completeness auto
termination
  by (relation "measure (\<lambda>(d, st, s). length (d_waiters (k_disp s d)))") (auto simp: disp_wake_one_disp)

declare disp_wake_all.simps [simp del]

function signal_loop :: "dref \<Rightarrow> kst \<Rightarrow> kst" where
  "signal_loop d s =
     (if d_signal (k_disp s d) > 0 \<and> d_waiters (k_disp s d) \<noteq> []
      then signal_loop d
             (let s1 = disp_wake_one d STATUS_SUCCESS s
              in if d_type (k_disp s1 d) = DISP_SYNCHRONIZATION_EVENT \<or> d_type (k_disp s1 d) = DISP_MUTANT
                 then upd_disp d (\<lambda>x. x\<lparr>d_signal := d_signal x - 1\<rparr>) s1 else s1)
      else s)"
  by pat_completeness auto
termination
  by (relation "measure (\<lambda>(d, s). length (d_waiters (k_disp s d)))")
     (auto simp: disp_wake_one_disp Let_def upd_disp_def)

declare signal_loop.simps [simp del]

definition disp_signal :: "dref \<Rightarrow> int \<Rightarrow> kst \<Rightarrow> kst" where
  "disp_signal d inc s =
     (let s1 = upd_disp d (\<lambda>x. x\<lparr>d_signal := d_signal x + inc\<rparr>) s
      in if d_type (k_disp s1 d) = DISP_NOTIFICATION_EVENT then disp_wake_all d STATUS_SUCCESS s1
         else signal_loop d s1)"

section \<open>Abandoning the mutexes of a dying thread\<close>

definition abandon_one :: "u64 \<Rightarrow> kst \<Rightarrow> kst" where
  "abandon_one m s =
     (let s1 = upd_mutex m (\<lambda>x. x\<lparr>m_owner := 0, m_recursion := 0, m_abandoned := True\<rparr>) (unlink_owned m s)
      in if d_waiters (k_disp s1 (Disp m)) \<noteq> []
         then disp_wake_one (Disp m) STATUS_ABANDONED (upd_disp (Disp m) (\<lambda>x. x\<lparr>d_signal := 0\<rparr>) s1)
         else upd_disp (Disp m) (\<lambda>x. x\<lparr>d_signal := 1\<rparr>) s1)"

partial_function (option) abandon_loop :: "u64 \<Rightarrow> kst \<Rightarrow> kst option" where
  "abandon_loop t s =
     (if th_owned (k_thread s t) = [] then Some s
      else abandon_loop t (abandon_one (hd (th_owned (k_thread s t))) s))"

definition ke_mutex_abandon_owned :: "u64 \<Rightarrow> kst \<Rightarrow> kst outcome" where
  "ke_mutex_abandon_owned t s =
     (if t = 0 then Ret s else case abandon_loop t s of None \<Rightarrow> Hang | Some s1 \<Rightarrow> Ret s1)"

end
