(* ===== verification/Object.thy ===== *)
theory Object
  imports Dispatch
begin

text \<open>
  The object manager, \<^verbatim>\<open>kernel/ob/object.c\<close>: the type table, creation, reference counting and
  deletion, the name space of directories, and the constructors of events and mutexes.  The
  delete routines the type table points to live in other files and are placed here:
  \<open>vn_release\<close> and \<open>vfs_file_delete\<close> of \<^verbatim>\<open>kernel/fs/vfs.c\<close> and \<open>section_delete\<close> of
  \<^verbatim>\<open>kernel/ob/section.c\<close>.
\<close>

section \<open>Types\<close>

abbreviation (input) GENERIC_READ :: access_t where "GENERIC_READ \<equiv> 0x80000000"
abbreviation (input) GENERIC_WRITE :: access_t where "GENERIC_WRITE \<equiv> 0x40000000"
abbreviation (input) GENERIC_EXECUTE :: access_t where "GENERIC_EXECUTE \<equiv> 0x20000000"
abbreviation (input) GENERIC_ALL :: access_t where "GENERIC_ALL \<equiv> 0x10000000"
abbreviation (input) SYNCHRONIZE :: access_t where "SYNCHRONIZE \<equiv> 0x00100000"
abbreviation (input) PROCESS_TERMINATE :: access_t where "PROCESS_TERMINATE \<equiv> 0x0001"
abbreviation (input) PROCESS_CREATE_THREAD :: access_t where "PROCESS_CREATE_THREAD \<equiv> 0x0002"
abbreviation (input) PROCESS_VM_OPERATION :: access_t where "PROCESS_VM_OPERATION \<equiv> 0x0008"
abbreviation (input) PROCESS_VM_READ :: access_t where "PROCESS_VM_READ \<equiv> 0x0010"
abbreviation (input) PROCESS_VM_WRITE :: access_t where "PROCESS_VM_WRITE \<equiv> 0x0020"
abbreviation (input) PROCESS_DUP_HANDLE :: access_t where "PROCESS_DUP_HANDLE \<equiv> 0x0040"
abbreviation (input) PROCESS_QUERY_INFORMATION :: access_t where "PROCESS_QUERY_INFORMATION \<equiv> 0x0400"
abbreviation (input) PROCESS_ALL_ACCESS :: access_t where "PROCESS_ALL_ACCESS \<equiv> 0x1FFFFF"
abbreviation (input) TOKEN_QUERY :: access_t where "TOKEN_QUERY \<equiv> 0x0008"
abbreviation (input) TOKEN_DUPLICATE :: access_t where "TOKEN_DUPLICATE \<equiv> 0x0002"
abbreviation (input) TOKEN_ADJUST :: access_t where "TOKEN_ADJUST \<equiv> 0x0020"
abbreviation (input) TOKEN_ALL_ACCESS :: access_t where "TOKEN_ALL_ACCESS \<equiv> 0xF01FF"
abbreviation (input) THREAD_TERMINATE :: access_t where "THREAD_TERMINATE \<equiv> 0x0001"
abbreviation (input) THREAD_SUSPEND_RESUME :: access_t where "THREAD_SUSPEND_RESUME \<equiv> 0x0002"
abbreviation (input) THREAD_QUERY_INFORMATION :: access_t where "THREAD_QUERY_INFORMATION \<equiv> 0x0040"
abbreviation (input) THREAD_ALL_ACCESS :: access_t where "THREAD_ALL_ACCESS \<equiv> 0x1FFFFF"
abbreviation (input) FILE_READ_DATA :: access_t where "FILE_READ_DATA \<equiv> 0x0001"
abbreviation (input) FILE_WRITE_DATA :: access_t where "FILE_WRITE_DATA \<equiv> 0x0002"
abbreviation (input) FILE_APPEND_DATA :: access_t where "FILE_APPEND_DATA \<equiv> 0x0004"
abbreviation (input) FILE_EXECUTE :: access_t where "FILE_EXECUTE \<equiv> 0x0020"
abbreviation (input) FILE_ALL_ACCESS :: access_t where "FILE_ALL_ACCESS \<equiv> 0x1FFFFF"
abbreviation (input) DIRECTORY_QUERY :: access_t where "DIRECTORY_QUERY \<equiv> 0x0001"
abbreviation (input) DIRECTORY_TRAVERSE :: access_t where "DIRECTORY_TRAVERSE \<equiv> 0x0002"
abbreviation (input) DIRECTORY_CREATE_OBJECT :: access_t where "DIRECTORY_CREATE_OBJECT \<equiv> 0x0004"
abbreviation (input) EVENT_MODIFY_STATE :: access_t where "EVENT_MODIFY_STATE \<equiv> 0x0002"
abbreviation (input) MUTEX_MODIFY_STATE :: access_t where "MUTEX_MODIFY_STATE \<equiv> 0x0001"
abbreviation (input) TIMER_MODIFY_STATE :: access_t where "TIMER_MODIFY_STATE \<equiv> 0x0002"
abbreviation (input) SECTION_MAP_WRITE :: access_t where "SECTION_MAP_WRITE \<equiv> 0x0002"
abbreviation (input) SECTION_MAP_READ :: access_t where "SECTION_MAP_READ \<equiv> 0x0004"
abbreviation (input) SECTION_MAP_EXECUTE :: access_t where "SECTION_MAP_EXECUTE \<equiv> 0x0008"
abbreviation (input) SECTION_ALL_ACCESS :: access_t where "SECTION_ALL_ACCESS \<equiv> 0x1FFFF"

record object_type =
  ty_name :: string
  ty_size :: u64
  ty_waitable :: bool
  ty_read :: access_t
  ty_write :: access_t
  ty_execute :: access_t
  ty_all :: access_t

text \<open>
  The table \<open>ob_init\<close> and \<open>pipe_init_type\<close> fill in.  \<open>ty_size\<close> is the size of the whole structure
  on x86-64, header included (\<open>sizeof(object_t) + body_size\<close>).
\<close>

definition type_init :: "string \<Rightarrow> u64 \<Rightarrow> bool \<Rightarrow> access_t \<Rightarrow> access_t \<Rightarrow> access_t \<Rightarrow> access_t \<Rightarrow> object_type" where
  "type_init n sz w gr gw ge ga =
     \<lparr>ty_name = n, ty_size = sz, ty_waitable = w, ty_read = gr, ty_write = gw, ty_execute = ge, ty_all = ga\<rparr>"

fun g_types :: "object_kind \<Rightarrow> object_type" where
  "g_types OBJ_DIRECTORY = type_init ''Directory'' 768 False DIRECTORY_QUERY DIRECTORY_CREATE_OBJECT DIRECTORY_TRAVERSE 0x1F"
| "g_types OBJ_PROCESS = type_init ''Process'' 31728 True PROCESS_QUERY_INFORMATION PROCESS_VM_WRITE PROCESS_CREATE_THREAD PROCESS_ALL_ACCESS"
| "g_types OBJ_THREAD = type_init ''Thread'' 1952 True THREAD_QUERY_INFORMATION THREAD_SUSPEND_RESUME 0 THREAD_ALL_ACCESS"
| "g_types OBJ_SECTION = type_init ''Section'' 168 False SECTION_MAP_READ SECTION_MAP_WRITE SECTION_MAP_EXECUTE SECTION_ALL_ACCESS"
| "g_types OBJ_FILE = type_init ''File'' 168 False FILE_READ_DATA FILE_WRITE_DATA FILE_EXECUTE FILE_ALL_ACCESS"
| "g_types OBJ_DEVICE = type_init ''Device'' 208 False FILE_READ_DATA FILE_WRITE_DATA 0 FILE_ALL_ACCESS"
| "g_types OBJ_EVENT = type_init ''Event'' 200 True SYNCHRONIZE EVENT_MODIFY_STATE 0 (SYNCHRONIZE OR EVENT_MODIFY_STATE)"
| "g_types OBJ_MUTEX = type_init ''Mutant'' 224 True SYNCHRONIZE MUTEX_MODIFY_STATE 0 (SYNCHRONIZE OR MUTEX_MODIFY_STATE)"
| "g_types OBJ_TIMER = type_init ''Timer'' 232 True SYNCHRONIZE TIMER_MODIFY_STATE 0 (SYNCHRONIZE OR TIMER_MODIFY_STATE)"
| "g_types OBJ_TOKEN = type_init ''Token'' 160 False TOKEN_QUERY TOKEN_DUPLICATE 0 TOKEN_ALL_ACCESS"
| "g_types OBJ_PIPE = type_init ''Pipe'' 4392 True FILE_READ_DATA FILE_WRITE_DATA 0 FILE_ALL_ACCESS"

definition ob_kind_name :: "object_kind \<Rightarrow> string" where
  "ob_kind_name k = (if k = OBJ_PIPE then ''?'' else ty_name (g_types k))"

text \<open>One step of \<open>ob_map_generic\<close>: a generic right is replaced by the rights it stands for.\<close>

definition map_right :: "access_t \<Rightarrow> access_t \<Rightarrow> access_t \<Rightarrow> access_t" where
  "map_right g rights a = (if a AND g \<noteq> 0 then (a OR rights) AND NOT g else a)"

definition ob_map_generic :: "object_type \<Rightarrow> access_t \<Rightarrow> access_t" where
  "ob_map_generic ty access =
     map_right GENERIC_ALL (ty_all ty)
       (map_right GENERIC_EXECUTE (ty_execute ty)
         (map_right GENERIC_WRITE (ty_write ty)
           (map_right GENERIC_READ (ty_read ty) access)))"

section \<open>Zeroed structures\<close>

definition zero_wb :: wait_block where "zero_wb = \<lparr>wb_object = None, wb_status = 0\<rparr>"

definition zero_aspace :: aspace where
  "zero_aspace = \<lparr>as_cr3 = 0, as_vads = [], as_committed = 0, as_brk = 0, as_stack_base = 0\<rparr>"

definition zero_entry :: handle_entry where
  "zero_entry = \<lparr>e_object = 0, e_access = 0, e_inherit = False, e_protect = False, e_generation = 0\<rparr>"

definition ht_init :: handle_table where
  "ht_init = \<lparr>ht_slots = replicate HANDLE_TABLE_SLOTS zero_entry, ht_used = 0\<rparr>"

definition zero_thread :: thread where
  "zero_thread =
     \<lparr>th_process = 0, th_tid = 0, th_state = THR_UNUSED, th_priority = 0, th_saved_priority = 0, th_quantum = 0,
      th_wait_boost = False, th_kstack = 0, th_entry = NoEntry, th_arg = 0, th_wait = zero_wb, th_multi = (\<lambda>_. zero_wb),
      th_multi_count = 0, th_wait_all = False, th_timeout_tick = 0, th_timed = False, th_owned = [],
      th_exit_status = 0, th_name = [], th_user_rip = 0, th_user_rsp = 0, th_kill_pending = False\<rparr>"

definition zero_process :: process where
  "zero_process =
     \<lparr>pr_pid = 0, pr_aspace = zero_aspace, pr_handles = ht_init, pr_primary = 0, pr_threads = [], pr_exit_status = 0,
      pr_terminating = False, pr_image = [], pr_cwd = [], pr_thread_count = 0, pr_std_in = 0, pr_std_out = 0,
      pr_std_err = 0, pr_entry = 0, pr_stack = 0, pr_builtin = False, pr_user_mode = False, pr_argv = [],
      pr_envv = [], pr_token = 0\<rparr>"

definition zero_vnode :: vnode where
  "zero_vnode = \<lparr>vn_kind = VNODE_FILE, vn_mode = 0, vn_size = 0, vn_name = [], vn_parent = 0, vn_children = [],
     vn_data = 0, vn_bytes = [], vn_cap = 0, vn_ref = 0, vn_device = 0\<rparr>"

text \<open>The body of a fresh object is zero.\<close>

fun zero_body :: "object_kind \<Rightarrow> u64 \<Rightarrow> kst \<Rightarrow> kst" where
  "zero_body OBJ_DIRECTORY a s = s\<lparr>k_dir := (k_dir s)(a := \<lparr>dir_buckets = replicate 37 [], dir_count = 0\<rparr>)\<rparr>"
| "zero_body OBJ_PROCESS a s = s\<lparr>k_proc := (k_proc s)(a := zero_process)\<rparr>"
| "zero_body OBJ_THREAD a s = s\<lparr>k_thread := (k_thread s)(a := zero_thread)\<rparr>"
| "zero_body OBJ_SECTION a s = s\<lparr>k_section := (k_section s)(a := \<lparr>s_size = 0, s_prot = 0, s_kdata = 0, s_bytes = []\<rparr>)\<rparr>"
| "zero_body OBJ_FILE a s = s\<lparr>k_file := (k_file s)(a := \<lparr>f_vnode = 0, f_offset = 0, f_access = 0\<rparr>)\<rparr>"
| "zero_body OBJ_DEVICE a s = s\<lparr>k_device := (k_device s)(a :=
     \<lparr>dev_driver = NoDriver, dev_ext = 0, dev_base = 0, dev_size = 0, dev_bytes = []\<rparr>)\<rparr>"
| "zero_body OBJ_EVENT a s = s\<lparr>k_auto := (k_auto s)(a := False)\<rparr>"
| "zero_body OBJ_MUTEX a s = s\<lparr>k_mutex := (k_mutex s)(a := \<lparr>m_owner = 0, m_recursion = 0, m_abandoned = False\<rparr>)\<rparr>"
| "zero_body OBJ_TIMER a s = s\<lparr>k_timer := (k_timer s)(a := \<lparr>t_due_tick = 0, t_period = 0, t_armed = False\<rparr>)\<rparr>"
| "zero_body OBJ_PIPE a s = s\<lparr>k_pipe := (k_pipe s)(a :=
     \<lparr>p_buf = replicate 4096 0, p_r = 0, p_w = 0, p_used = 0, p_readers = 0, p_writers = 0, p_writer_closed = False\<rparr>)\<rparr>"
| "zero_body OBJ_TOKEN a s = s\<lparr>k_token := (k_token s)(a := \<lparr>tok_pid = 0, tok_integrity = 0\<rparr>)\<rparr>"

section \<open>Reference counts and deletion\<close>

definition ob_reference :: "u64 \<Rightarrow> kst \<Rightarrow> kst" where
  "ob_reference a s = (if a = 0 then s else upd_obj a (\<lambda>o'. o'\<lparr>o_pointers := o_pointers o' + 1\<rparr>) s)"

definition vn_release :: "u64 \<Rightarrow> kst \<Rightarrow> kst outcome" where
  "vn_release v s =
     (if v = 0 then Ret s
      else let old = vn_ref (k_vnode s v); s1 = upd_vnode v (\<lambda>x. x\<lparr>vn_ref := old - 1\<rparr>) s
           in if old = 0 then Panic ''vnode ref underflow''
              else if old \<noteq> 1 then Ret s1
              else let data = vn_data (k_vnode s v);
                       s2 = upd_vnode v (\<lambda>x. x\<lparr>vn_data := 0, vn_bytes := [], vn_cap := 0, vn_size := 0\<rparr>) s1
                   in bind_outcome (if data \<noteq> 0 then k_free s2 data else Ret s2) (\<lambda>s3. k_free s3 v))"

definition vfs_file_delete :: "u64 \<Rightarrow> kst \<Rightarrow> kst outcome" where
  "vfs_file_delete f s = vn_release (f_vnode (k_file s f)) (upd_file f (\<lambda>x. x\<lparr>f_vnode := 0\<rparr>) s)"

definition section_delete :: "u64 \<Rightarrow> kst \<Rightarrow> kst outcome" where
  "section_delete o' s =
     (let kd = s_kdata (k_section s o')
      in if kd \<noteq> 0
         then bind_outcome (k_free s kd) (\<lambda>s1.
                Ret (s1\<lparr>k_section := (k_section s1)(o' := (k_section s1 o')\<lparr>s_kdata := 0, s_bytes := []\<rparr>)\<rparr>))
         else Ret s)"

text \<open>
  The body of \<open>ob_dereference\<close>, with the delete routines as a parameter.  The only delete routine
  that dereferences another object is \<open>process_delete\<close>, which drops the token of the process;
  tokens have no delete routine of their own, so the recursion is unfolded once.
\<close>

definition deref_with :: "(u64 \<Rightarrow> kst \<Rightarrow> kst outcome) \<Rightarrow> u64 \<Rightarrow> kst \<Rightarrow> kst outcome" where
  "deref_with del a s =
     (if a = 0 then Ret s
      else let old = o_pointers (k_obj s a); s1 = upd_obj a (\<lambda>o'. o'\<lparr>o_pointers := old - 1\<rparr>) s
           in if old = 0 then Panic ''ob ref underflow''
              else if old = 1 \<and> o_handles (k_obj s1 a) = 0 \<and> o_flags (k_obj s1 a) AND OBJ_PERMANENT = 0
                   then bind_outcome (del a s1) (\<lambda>s2. k_free s2 a)
                   else Ret s1)"

definition leaf_delete :: "u64 \<Rightarrow> kst \<Rightarrow> kst outcome" where
  "leaf_delete a s =
     (case o_kind (k_obj s a) of
        OBJ_FILE \<Rightarrow> vfs_file_delete a s
      | OBJ_SECTION \<Rightarrow> section_delete a s
      | _ \<Rightarrow> Ret s)"

definition process_delete :: "u64 \<Rightarrow> kst \<Rightarrow> kst outcome" where
  "process_delete p s =
     (let tok = pr_token (k_proc s p)
      in if tok \<noteq> 0
         then bind_outcome (deref_with leaf_delete tok s) (\<lambda>s1. Ret (upd_proc p (\<lambda>x. x\<lparr>pr_token := 0\<rparr>) s1))
         else Ret s)"

definition ob_delete :: "u64 \<Rightarrow> kst \<Rightarrow> kst outcome" where
  "ob_delete a s = (if o_kind (k_obj s a) = OBJ_PROCESS then process_delete a s else leaf_delete a s)"

definition ob_dereference :: "u64 \<Rightarrow> kst \<Rightarrow> kst outcome" where
  "ob_dereference a s = deref_with ob_delete a s"

section \<open>Names\<close>

fun hash_loop :: "string \<Rightarrow> u32 \<Rightarrow> u32" where
  "hash_loop [] h = h"
| "hash_loop (c # cs) h = hash_loop cs ((h XOR of_char c) * 16777619)"

definition hash_name :: "string \<Rightarrow> nat" where
  "hash_name nm = unat (hash_loop nm 2166136261 mod 37)"

definition named :: "kst \<Rightarrow> string \<Rightarrow> u64 \<Rightarrow> bool" where
  "named s nm x \<longleftrightarrow> o_name (k_obj s x) = nm"

definition ob_insert_name :: "u64 \<Rightarrow> u64 \<Rightarrow> string \<Rightarrow> kst \<Rightarrow> kst \<times> status_t" where
  "ob_insert_name dir a nm s =
     (if dir = 0 \<or> a = 0 \<or> nm = [] \<or> length nm \<ge> NAME_MAX then (s, STATUS_INVALID_PARAMETER)
      else let h = hash_name nm; b = dir_buckets (k_dir s dir) ! h
           in if list_ex (named s nm) b then (s, STATUS_OBJECT_NAME_COLLISION)
              else let s1 = upd_obj a (\<lambda>o'. o'\<lparr>o_name := cut NAME_MAX nm, o_directory := dir, o_dir_hash := h\<rparr>) s
                   in (s1\<lparr>k_dir := (k_dir s1)(dir := \<lparr>dir_buckets = (dir_buckets (k_dir s1 dir))[h := b @ [a]],
                                                     dir_count = dir_count (k_dir s1 dir) + 1\<rparr>)\<rparr>, STATUS_SUCCESS))"

definition dir_lookup :: "u64 \<Rightarrow> string \<Rightarrow> kst \<Rightarrow> kst \<times> u64" where
  "dir_lookup dir nm s =
     (case find (named s nm) (dir_buckets (k_dir s dir) ! hash_name nm) of
        None \<Rightarrow> (s, 0)
      | Some x \<Rightarrow> (ob_reference x s, x))"

text \<open>
  The next component of a path: the characters up to a separator, at most \<open>NAME_MAX - 1\<close> of
  them, and the rest of the path with one separator skipped.
\<close>

definition next_comp :: "char \<Rightarrow> string \<Rightarrow> string \<times> string" where
  "next_comp sep p =
     (let comp = take (NAME_MAX - 1) (takeWhile (\<lambda>c. c \<noteq> sep) p); rest = drop (length comp) p
      in (comp, if rest \<noteq> [] \<and> hd rest = sep then tl rest else rest))"

lemma next_comp_shorter:
  assumes "next_comp sep p = (c, r)" "p \<noteq> []"
  shows "length r < length p"
proof (cases "hd p = sep")
  case True
  with assms show ?thesis by (cases p) (auto simp: next_comp_def Let_def)
next
  case False
  with assms(2) have "takeWhile (\<lambda>c. c \<noteq> sep) p \<noteq> []" by (cases p) auto
  then have "length (take 63 (takeWhile (\<lambda>c. c \<noteq> sep) p)) > 0" by simp
  then show ?thesis using assms by (auto simp: next_comp_def Let_def split: if_splits)
qed

function lookup_loop :: "string \<Rightarrow> u64 \<Rightarrow> kst \<Rightarrow> (kst \<times> (status_t + u64)) outcome" where
  "lookup_loop p cur s =
     (if p = [] then Ret (s, Inr cur)
      else let comp = fst (next_comp (CHR 0x5C) p); p' = snd (next_comp (CHR 0x5C) p)
           in if o_kind (k_obj s cur) \<noteq> OBJ_DIRECTORY
              then (case ob_dereference cur s of
                      Ret s1 \<Rightarrow> Ret (s1, Inl STATUS_OBJECT_PATH_NOT_FOUND) | Panic m \<Rightarrow> Panic m | Hang \<Rightarrow> Hang)
              else let (s1, nxt) = dir_lookup cur comp s
                   in case ob_dereference cur s1 of
                        Ret s2 \<Rightarrow> if nxt = 0 then Ret (s2, Inl STATUS_OBJECT_NAME_NOT_FOUND) else lookup_loop p' nxt s2
                      | Panic m \<Rightarrow> Panic m | Hang \<Rightarrow> Hang)"
  by pat_completeness auto
termination
  by (relation "measure (\<lambda>(p, cur, s). length p)") (auto simp: next_comp_shorter[OF prod.collapse[symmetric]])

declare lookup_loop.simps [simp del]

text \<open>\<open>expect\<close> is \<open>None\<close> where the code passes 0.\<close>

definition ob_lookup :: "string \<Rightarrow> object_kind option \<Rightarrow> kst \<Rightarrow> (kst \<times> status_t \<times> u64) outcome" where
  "ob_lookup path expect s =
     (if path = [] \<or> hd path \<noteq> CHR 0x5C then Ret (s, STATUS_OBJECT_NAME_INVALID, 0)
      else if tl path = []
           then if expect \<noteq> None \<and> expect \<noteq> Some OBJ_DIRECTORY then Ret (s, STATUS_OBJECT_TYPE_MISMATCH, 0)
                else Ret (ob_reference (g_root s) s, STATUS_SUCCESS, g_root s)
      else bind_outcome (lookup_loop (tl path) (g_root s) (ob_reference (g_root s) s)) (\<lambda>(s1, r).
             case r of
               Inl st \<Rightarrow> Ret (s1, st, 0)
             | Inr cur \<Rightarrow>
                 if expect \<noteq> None \<and> expect \<noteq> Some (o_kind (k_obj s1 cur))
                 then bind_outcome (ob_dereference cur s1) (\<lambda>s2. Ret (s2, STATUS_OBJECT_TYPE_MISMATCH, 0))
                 else Ret (s1, STATUS_SUCCESS, cur)))"

section \<open>Creation\<close>

definition cur_pid :: "kst \<Rightarrow> u64" where
  "cur_pid s = (if k_current_process s \<noteq> 0 then pr_pid (k_proc s (k_current_process s)) else 0)"

definition new_header :: "object_kind \<Rightarrow> string option \<Rightarrow> kst \<Rightarrow> object" where
  "new_header k nm s =
     \<lparr>o_kind = k, o_name = (case nm of None \<Rightarrow> [] | Some n \<Rightarrow> cut NAME_MAX n), o_directory = 0, o_pointers = 1,
      o_handles = 0, o_flags = (if ty_waitable (g_types k) then OBJ_WAITABLE else 0), o_owner_pid = cur_pid s,
      o_wait = None, o_dir_hash = 0\<rparr>"

definition ob_create :: "object_kind \<Rightarrow> string option \<Rightarrow> u64 \<Rightarrow> kst \<Rightarrow> (kst \<times> u64) outcome" where
  "ob_create k nm dir s =
     bind_outcome (k_alloc_zero s (ty_size (g_types k))) (\<lambda>(s1, a).
       if a = 0 then Ret (s1, 0)
       else let s2 = zero_body k a (s1\<lparr>k_obj := (k_obj s1)(a := new_header k nm s1)\<rparr>)
            in case nm of
                 None \<Rightarrow> Ret (s2, a)
               | Some n \<Rightarrow>
                   if dir \<noteq> 0 \<and> n \<noteq> []
                   then let (s3, st) = ob_insert_name dir a n s2
                        in if NT_SUCCESS st then Ret (s3, a)
                           else bind_outcome (k_free s3 a) (\<lambda>s4. Ret (s4, 0))
                   else Ret (s2, a))"

definition ob_set_wait :: "u64 \<Rightarrow> dref \<Rightarrow> kst \<Rightarrow> kst" where
  "ob_set_wait a d s = upd_obj a (\<lambda>o'. o'\<lparr>o_wait := Some d\<rparr>) s"

definition bno_dir :: "string option \<Rightarrow> kst \<Rightarrow> u64" where
  "bno_dir nm s = (if nm = None then 0 else g_bno s)"

definition ob_create_event :: "string option \<Rightarrow> bool \<Rightarrow> bool \<Rightarrow> kst \<Rightarrow> (kst \<times> status_t \<times> u64) outcome" where
  "ob_create_event nm auto_reset initial s =
     bind_outcome (ob_create OBJ_EVENT nm (bno_dir nm s) s) (\<lambda>(s1, a).
       if a = 0 then Ret (s1, STATUS_NO_MEMORY, 0)
       else let s2 = s1\<lparr>k_auto := (k_auto s1)(a := auto_reset)\<rparr>;
                s3 = disp_init (Disp a) (if auto_reset then DISP_SYNCHRONIZATION_EVENT else DISP_NOTIFICATION_EVENT)
                       (if initial then 1 else 0) s2
            in Ret (ob_set_wait a (Disp a) s3, STATUS_SUCCESS, a))"

definition ob_create_mutex :: "string option \<Rightarrow> bool \<Rightarrow> kst \<Rightarrow> (kst \<times> status_t \<times> u64) outcome" where
  "ob_create_mutex nm initial_owner s =
     bind_outcome (ob_create OBJ_MUTEX nm (bno_dir nm s) s) (\<lambda>(s1, a).
       if a = 0 then Ret (s1, STATUS_NO_MEMORY, 0)
       else let s2 = disp_init (Disp a) DISP_MUTANT (if initial_owner then 0 else 1) s1;
                owner = (if initial_owner then k_current s2 else 0);
                s3 = upd_mutex a (\<lambda>m. \<lparr>m_owner = owner, m_recursion = (if initial_owner then 1 else 0), m_abandoned = False\<rparr>) s2;
                s4 = ob_set_wait a (Disp a) s3
            in Ret (if owner \<noteq> 0 then ke_mutex_own a owner s4 else s4, STATUS_SUCCESS, a))"

definition make_dir :: "string \<Rightarrow> u64 \<Rightarrow> kst \<Rightarrow> (kst \<times> u64) outcome" where
  "make_dir nm parent s =
     bind_outcome (ob_create OBJ_DIRECTORY (Some nm) parent s) (\<lambda>(s1, a).
       if a = 0 then Panic ''ob: dir''
       else Ret (upd_obj a (\<lambda>o'. o'\<lparr>o_flags := o_flags o' OR OBJ_PERMANENT\<rparr>)
                  (s1\<lparr>k_dir := (k_dir s1)(a := \<lparr>dir_buckets = replicate 37 [], dir_count = 0\<rparr>)\<rparr>), a))"

definition ob_init :: "kst \<Rightarrow> kst outcome" where
  "ob_init s =
     bind_outcome (k_alloc_zero s (ty_size (g_types OBJ_DIRECTORY))) (\<lambda>(s1, r).
       if r = 0 then Panic ''ob: root''
       else let hdr = \<lparr>o_kind = OBJ_DIRECTORY, o_name = [CHR 0x5C], o_directory = 0, o_pointers = 1, o_handles = 0,
                       o_flags = OBJ_PERMANENT, o_owner_pid = 0, o_wait = None, o_dir_hash = 0\<rparr>;
                s2 = zero_body OBJ_DIRECTORY r (s1\<lparr>k_obj := (k_obj s1)(r := hdr), g_root := r\<rparr>)
            in bind_outcome (make_dir ''ObjectTypes'' r s2) (\<lambda>(s3, a).
               bind_outcome (make_dir ''BaseNamedObjects'' r s3) (\<lambda>(s4, b).
               bind_outcome (make_dir ''Devices'' r (s4\<lparr>g_bno := b\<rparr>)) (\<lambda>(s5, c).
               bind_outcome (make_dir ''??'' r (s5\<lparr>g_devices := c\<rparr>)) (\<lambda>(s6, d). Ret s6)))))"

end
