(* ===== verification/Handle.thy ===== *)
theory Handle
  imports Object
begin

text \<open>
  Handle tables, \<^verbatim>\<open>kernel/ob/handle.c\<close>, with the open and close hooks of pipes
  (\<^verbatim>\<open>kernel/ob/pipe.c\<close>), the only type that has them.  A table is embedded in a process; its
  pointer is the address of the process, 0 for \<open>NULL\<close>.
\<close>

section \<open>Handle values\<close>

definition HANDLE_VALUE :: "nat \<Rightarrow> u32 \<Rightarrow> handle_t" where
  "HANDLE_VALUE i g = push_bit 2 (of_nat i) OR push_bit 16 (ucast g)"

definition HANDLE_INDEX :: "handle_t \<Rightarrow> nat" where
  "HANDLE_INDEX h = unat (drop_bit 2 h AND 0x3FFF)"

definition HANDLE_GEN :: "handle_t \<Rightarrow> u32" where
  "HANDLE_GEN h = ucast (drop_bit 16 h)"

abbreviation (input) HANDLE_CURRENT :: handle_t where "HANDLE_CURRENT \<equiv> - 1"

text \<open>A generation is incremented past 0: 0 is never a live generation.\<close>

definition next_gen :: "u32 \<Rightarrow> u32" where
  "next_gen g = (if g + 1 = 0 then 1 else g + 1)"

section \<open>Pipe hooks\<close>

definition pipe_open :: "u64 \<Rightarrow> access_t \<Rightarrow> kst \<Rightarrow> kst" where
  "pipe_open a acc s =
     upd_pipe a (\<lambda>p. let p1 = (if acc AND FILE_WRITE_DATA \<noteq> 0
                               then p\<lparr>p_writers := p_writers p + 1, p_writer_closed := False\<rparr> else p)
                     in if acc AND FILE_READ_DATA \<noteq> 0 then p1\<lparr>p_readers := p_readers p1 + 1\<rparr> else p1) s"

definition pipe_close_counts :: "access_t \<Rightarrow> pipe_object \<Rightarrow> pipe_object" where
  "pipe_close_counts acc p =
     (let p1 = (if acc AND FILE_WRITE_DATA \<noteq> 0
                then let p0 = (if p_writers p \<noteq> 0 then p\<lparr>p_writers := p_writers p - 1\<rparr> else p)
                     in if p_writers p0 = 0 then p0\<lparr>p_writer_closed := True\<rparr> else p0
                else p)
      in if acc AND FILE_READ_DATA \<noteq> 0 \<and> p_readers p1 \<noteq> 0 then p1\<lparr>p_readers := p_readers p1 - 1\<rparr> else p1)"

definition pipe_close :: "u64 \<Rightarrow> access_t \<Rightarrow> kst \<Rightarrow> kst" where
  "pipe_close a acc s =
     (let s1 = upd_pipe a (pipe_close_counts acc) s
      in if p_writer_closed (k_pipe s1 a) then disp_signal (CanRead a) 1 s1 else s1)"

definition open_fn :: "u64 \<Rightarrow> access_t \<Rightarrow> kst \<Rightarrow> kst" where
  "open_fn a acc s = (if o_kind (k_obj s a) = OBJ_PIPE then pipe_open a acc s else s)"

definition close_fn :: "u64 \<Rightarrow> access_t \<Rightarrow> kst \<Rightarrow> kst" where
  "close_fn a acc s = (if o_kind (k_obj s a) = OBJ_PIPE then pipe_close a acc s else s)"

section \<open>Operations\<close>

definition slots :: "kst \<Rightarrow> u64 \<Rightarrow> handle_entry list" where
  "slots s t = ht_slots (pr_handles (k_proc s t))"

definition put_slot :: "u64 \<Rightarrow> nat \<Rightarrow> handle_entry \<Rightarrow> u32 \<Rightarrow> kst \<Rightarrow> kst" where
  "put_slot t i e used s =
     upd_proc t (\<lambda>p. p\<lparr>pr_handles := \<lparr>ht_slots = (ht_slots (pr_handles p))[i := e], ht_used = used\<rparr>\<rparr>) s"

definition ht_count :: "kst \<Rightarrow> u64 \<Rightarrow> u32" where
  "ht_count s t = ht_used (pr_handles (k_proc s t))"

text \<open>The first free slot from index 1 on.\<close>

definition free_slot :: "handle_entry list \<Rightarrow> nat option" where
  "free_slot es = find_index (\<lambda>e. e_object e = 0) (tl es) 1"

definition live_slot :: "handle_entry list \<Rightarrow> nat option" where
  "live_slot es = find_index (\<lambda>e. e_object e \<noteq> 0) (tl es) 1"

definition ht_insert_ex ::
    "u64 \<Rightarrow> u64 \<Rightarrow> access_t \<Rightarrow> bool \<Rightarrow> bool \<Rightarrow> kst \<Rightarrow> kst \<times> status_t \<times> handle_t" where
  "ht_insert_ex t a access0 inherit protect s =
     (if t = 0 \<or> a = 0 then (s, STATUS_INVALID_PARAMETER, 0)
      else let access = ob_map_generic (g_types (o_kind (k_obj s a))) access0
           in case free_slot (slots s t) of
                None \<Rightarrow> (s, STATUS_INSUFFICIENT_RESOURCES, 0)
              | Some i \<Rightarrow>
                  let s1 = upd_obj a (\<lambda>o'. o'\<lparr>o_handles := o_handles o' + 1\<rparr>) (ob_reference a s);
                      g = next_gen (e_generation (slots s t ! i));
                      e = \<lparr>e_object = a, e_access = access, e_inherit = inherit, e_protect = protect, e_generation = g\<rparr>;
                      s2 = put_slot t i e (ht_count s t + 1) s1
                  in (open_fn a access s2, STATUS_SUCCESS, HANDLE_VALUE i g))"

definition ht_insert :: "u64 \<Rightarrow> u64 \<Rightarrow> access_t \<Rightarrow> kst \<Rightarrow> kst \<times> status_t \<times> handle_t" where
  "ht_insert t a access s = ht_insert_ex t a access False False s"

text \<open>
  A lookup returns the object with a new reference and the granted rights.  \<open>expect\<close> is \<open>None\<close>
  where the code passes 0.
\<close>

definition ht_lookup_ex ::
    "u64 \<Rightarrow> handle_t \<Rightarrow> access_t \<Rightarrow> object_kind option \<Rightarrow> kst \<Rightarrow> kst \<times> status_t \<times> u64 \<times> access_t" where
  "ht_lookup_ex t h required expect s =
     (if t = 0 then (s, STATUS_INVALID_PARAMETER, 0, 0)
      else if h = 0 \<or> h AND 3 \<noteq> 0 then (s, STATUS_INVALID_HANDLE, 0, 0)
      else let i = HANDLE_INDEX h
           in if i = 0 \<or> i \<ge> HANDLE_TABLE_SLOTS then (s, STATUS_INVALID_HANDLE, 0, 0)
              else let e = slots s t ! i
                   in if e_object e = 0 \<or> e_generation e \<noteq> HANDLE_GEN h then (s, STATUS_INVALID_HANDLE, 0, 0)
                      else if required \<noteq> 0 \<and> e_access e AND required \<noteq> required then (s, STATUS_ACCESS_DENIED, 0, 0)
                      else if expect \<noteq> None \<and> expect \<noteq> Some (o_kind (k_obj s (e_object e)))
                           then (s, STATUS_OBJECT_TYPE_MISMATCH, 0, 0)
                      else (ob_reference (e_object e) s, STATUS_SUCCESS, e_object e, e_access e))"

definition ht_lookup ::
    "u64 \<Rightarrow> handle_t \<Rightarrow> access_t \<Rightarrow> object_kind option \<Rightarrow> kst \<Rightarrow> kst \<times> status_t \<times> u64" where
  "ht_lookup t h required expect s =
     (case ht_lookup_ex t h required expect s of (s1, st, a, g) \<Rightarrow> (s1, st, a))"

definition clear_entry :: "handle_entry \<Rightarrow> handle_entry" where
  "clear_entry e = e\<lparr>e_object := 0, e_access := 0, e_generation := next_gen (e_generation e)\<rparr>"

text \<open>What follows the removal of an entry: the close hook, the handle count and the reference.\<close>

definition drop_handle :: "u64 \<Rightarrow> access_t \<Rightarrow> kst \<Rightarrow> kst outcome" where
  "drop_handle a acc s =
     ob_dereference a (upd_obj a (\<lambda>o'. o'\<lparr>o_handles := o_handles o' - 1\<rparr>) (close_fn a acc s))"

definition handle_valid :: "kst \<Rightarrow> u64 \<Rightarrow> handle_t \<Rightarrow> bool" where
  "handle_valid s t h \<longleftrightarrow>
     HANDLE_INDEX h \<noteq> 0 \<and> HANDLE_INDEX h < HANDLE_TABLE_SLOTS \<and> h AND 3 = 0 \<and>
     e_object (slots s t ! HANDLE_INDEX h) \<noteq> 0 \<and> e_generation (slots s t ! HANDLE_INDEX h) = HANDLE_GEN h"

definition ht_close :: "u64 \<Rightarrow> handle_t \<Rightarrow> kst \<Rightarrow> (kst \<times> status_t) outcome" where
  "ht_close t h s =
     (if t = 0 then Ret (s, STATUS_INVALID_PARAMETER)
      else if \<not> handle_valid s t h then Ret (s, STATUS_INVALID_HANDLE)
      else let i = HANDLE_INDEX h; e = slots s t ! i
           in if e_protect e then Ret (s, STATUS_ACCESS_DENIED)
              else bind_outcome
                     (drop_handle (e_object e) (e_access e) (put_slot t i (clear_entry e) (ht_count s t - 1) s))
                     (\<lambda>s1. Ret (s1, STATUS_SUCCESS)))"

text \<open>
  Each turn of \<open>ht_destroy\<close> clears the first live slot.  The loop is given as many turns as the
  table has slots.
\<close>

fun destroy_loop :: "nat \<Rightarrow> u64 \<Rightarrow> kst \<Rightarrow> kst outcome" where
  "destroy_loop 0 t s = Hang"
| "destroy_loop (Suc n) t s =
     (case live_slot (slots s t) of
        None \<Rightarrow> Ret s
      | Some i \<Rightarrow>
          let e = slots s t ! i; used = ht_count s t
          in bind_outcome
               (drop_handle (e_object e) (e_access e)
                 (put_slot t i (clear_entry e) (if used \<noteq> 0 then used - 1 else used) s))
               (destroy_loop n t))"

definition ht_destroy :: "u64 \<Rightarrow> kst \<Rightarrow> kst outcome" where
  "ht_destroy t s = destroy_loop HANDLE_TABLE_SLOTS t s"

definition ht_duplicate :: "u64 \<Rightarrow> handle_t \<Rightarrow> u64 \<Rightarrow> access_t \<Rightarrow> kst \<Rightarrow> (kst \<times> status_t \<times> handle_t) outcome" where
  "ht_duplicate src h dst access s =
     (if src = 0 \<or> dst = 0 then Ret (s, STATUS_INVALID_PARAMETER, 0)
      else let (s1, st, a, granted) = ht_lookup_ex src h 0 None s
           in if \<not> NT_SUCCESS st then Ret (s1, st, 0)
              else let (s2, st2, h2) = ht_insert dst a (if access = 0 then granted else access) s1
                   in bind_outcome (ob_dereference a s2) (\<lambda>s3. Ret (s3, st2, h2)))"

definition ht_set_inherit :: "u64 \<Rightarrow> handle_t \<Rightarrow> bool \<Rightarrow> kst \<Rightarrow> kst \<times> status_t" where
  "ht_set_inherit t h inherit s =
     (if t = 0 then (s, STATUS_INVALID_PARAMETER)
      else if \<not> handle_valid s t h then (s, STATUS_INVALID_HANDLE)
      else let i = HANDLE_INDEX h
           in (put_slot t i ((slots s t ! i)\<lparr>e_inherit := inherit\<rparr>) (ht_count s t) s, STATUS_SUCCESS))"

definition inheritable :: "handle_entry list \<Rightarrow> (u64 \<times> access_t) list" where
  "inheritable es = map (\<lambda>e. (e_object e, e_access e)) (filter (\<lambda>e. e_object e \<noteq> 0 \<and> e_inherit e) (tl es))"

fun inherit_loop :: "u64 \<Rightarrow> (u64 \<times> access_t) list \<Rightarrow> status_t \<Rightarrow> kst \<Rightarrow> (kst \<times> status_t) outcome" where
  "inherit_loop dst [] st s = Ret (s, st)"
| "inherit_loop dst ((a, acc) # xs) st s =
     (let (s1, st1, h) = ht_insert_ex dst a acc True False s;
          st' = (if \<not> NT_SUCCESS st1 \<and> NT_SUCCESS st then st1 else st)
      in bind_outcome (ob_dereference a s1) (inherit_loop dst xs st'))"

definition ht_inherit_table :: "u64 \<Rightarrow> u64 \<Rightarrow> kst \<Rightarrow> (kst \<times> status_t) outcome" where
  "ht_inherit_table src dst s =
     (if src = 0 \<or> dst = 0 then Ret (s, STATUS_INVALID_PARAMETER)
      else let xs = inheritable (slots s src)
           in inherit_loop dst xs STATUS_SUCCESS (fold (\<lambda>x. ob_reference (fst x)) xs s))"

end
