(* ===== verification/Process.thy ===== *)
theory Process
  imports Handle
begin

text \<open>
  Threads and processes, the rest of \<^verbatim>\<open>kernel/ke/sched.c\<close>: creation, kill and exit of threads,
  creation of processes, boot of the dispatcher, and the process snapshot.  The lazy FPU switch
  is a component of its own.
\<close>

abbreviation (input) CREATE_SUSPENDED :: u32 where "CREATE_SUSPENDED \<equiv> 0x1"

section \<open>Exit and kill\<close>

definition drop_waiter :: "dref \<Rightarrow> wref \<Rightarrow> kst \<Rightarrow> kst" where
  "drop_waiter d w s = upd_disp d (\<lambda>x. x\<lparr>d_waiters := remove1 w (d_waiters x)\<rparr>) s"

definition unlink_multi :: "u64 \<Rightarrow> nat \<Rightarrow> kst \<Rightarrow> kst" where
  "unlink_multi t i s =
     (case wb_object (th_multi (k_thread s t) i) of
        None \<Rightarrow> s
      | Some d \<Rightarrow>
          upd_thread t (\<lambda>x. x\<lparr>th_multi := (th_multi x)(i := (th_multi x i)\<lparr>wb_object := None\<rparr>)\<rparr>)
            (drop_waiter d (t, WMulti i) s))"

definition thread_unlink_waits :: "u64 \<Rightarrow> kst \<Rightarrow> kst" where
  "thread_unlink_waits t s =
     (if th_multi_count (k_thread s t) \<noteq> 0
      then upd_thread t (\<lambda>x. x\<lparr>th_multi_count := 0\<rparr>)
             (fold (unlink_multi t) [0..<th_multi_count (k_thread s t)] s)
      else case wb_object (th_wait (k_thread s t)) of
             None \<Rightarrow> s
           | Some d \<Rightarrow>
               upd_thread t (\<lambda>x. x\<lparr>th_wait := (th_wait x)\<lparr>wb_object := None\<rparr>\<rparr>) (drop_waiter d (t, WSingle) s))"

text \<open>\<open>(u32)t->tid\<close>.\<close>

definition tid32 :: "u64 \<Rightarrow> u64" where
  "tid32 tid = ucast (ucast tid :: u32)"

definition release_kstack :: "u64 \<Rightarrow> kst \<Rightarrow> kst outcome" where
  "release_kstack t s =
     (if th_kstack (k_thread s t) \<noteq> 0
      then bind_outcome (vmm_unmap_kstack (k_heap s) (g_kernel_as s) (tid32 (th_tid (k_thread s t)))) (\<lambda>h.
             Ret (upd_thread t (\<lambda>x. x\<lparr>th_kstack := 0\<rparr>) (s\<lparr>k_heap := h\<rparr>)))
      else Ret s)"

text \<open>The last slot of \<open>g_procs\<close> moves into the place of the process that leaves.\<close>

definition procs_drop :: "u64 \<Rightarrow> kst \<Rightarrow> kst outcome" where
  "procs_drop p s =
     (case find_index (\<lambda>q. q = p) (g_procs s) 0 of
        None \<Rightarrow> Ret s
      | Some i \<Rightarrow> ob_dereference p (s\<lparr>g_procs := butlast ((g_procs s)[i := last (g_procs s)])\<rparr>))"

definition process_teardown :: "u64 \<Rightarrow> kst \<Rightarrow> kst outcome" where
  "process_teardown p s =
     (let s1 = disp_signal (Disp p) 1 s
      in bind_outcome (vmm_aspace_destroy (k_heap s1) (pr_aspace (k_proc s1 p))) (\<lambda>(h, as).
         let s2 = upd_proc p (\<lambda>x. x\<lparr>pr_aspace := as\<rparr>) (s1\<lparr>k_heap := h\<rparr>)
         in bind_outcome (ht_destroy p s2) (\<lambda>s3.
              if pr_pid (k_proc s3 p) \<noteq> 0 \<and> pr_pid (k_proc s3 p) \<noteq> 1 then procs_drop p s3 else Ret s3)))"

definition thread_leaves :: "u64 \<Rightarrow> status_t \<Rightarrow> kst \<Rightarrow> kst outcome" where
  "thread_leaves p st s =
     (if p = 0 then Ret s
      else let s1 = upd_proc p (\<lambda>x. x\<lparr>pr_thread_count := pr_thread_count x - 1\<rparr>) s
           in if pr_thread_count (k_proc s1 p) = 0
              then if pr_pid (k_proc s1 p) = 1 then Panic ''init died''
                   else process_teardown p (upd_proc p (\<lambda>x. x\<lparr>pr_exit_status := st, pr_terminating := True\<rparr>) s1)
              else Ret s1)"

text \<open>The state after the exit is the one after the switch away from the dead thread.\<close>

definition sched_exit_thread :: "status_t \<Rightarrow> kst \<Rightarrow> kst outcome" where
  "sched_exit_thread st s =
     (let t = k_current s
      in bind_outcome (ke_mutex_abandon_owned t (thread_unlink_waits t s)) (\<lambda>s1.
         bind_outcome (release_kstack t s1) (\<lambda>s2.
         let s3 = disp_signal (Disp t) 1 (upd_thread t (\<lambda>x. x\<lparr>th_exit_status := st, th_state := THR_TERMINATED\<rparr>) s2)
         in bind_outcome (thread_leaves (th_process (k_thread s3 t)) st s3) (\<lambda>s4.
              Ret (sched_reschedule (s4\<lparr>k_current := 0\<rparr>))))))"

definition sched_kill_thread :: "u64 \<Rightarrow> status_t \<Rightarrow> kst \<Rightarrow> (kst \<times> unit flow) outcome" where
  "sched_kill_thread t st s =
     (if t = 0 \<or> t = g_idle s then Ret (s, Now ())
      else if th_state (k_thread s t) = THR_TERMINATED then Ret (s, Now ())
      else if t = k_current s then bind_outcome (sched_exit_thread st s) (\<lambda>s1. Ret (s1, Exits))
      else let s1 = upd_thread t (\<lambda>x. x\<lparr>th_kill_pending := True, th_exit_status := st\<rparr>) s
           in Ret (if th_state (k_thread s1 t) = THR_WAITING then sched_ready t (thread_unlink_waits t s1) else s1, Now ()))"

text \<open>The first thing a thread does when it is switched in, on its first run and on every later one.\<close>

definition switched_in :: "kst \<Rightarrow> (kst \<times> unit flow) outcome" where
  "switched_in s =
     (if k_current s \<noteq> 0 \<and> th_kill_pending (k_thread s (k_current s))
      then bind_outcome (sched_exit_thread (th_exit_status (k_thread s (k_current s))) s) (\<lambda>s1. Ret (s1, Exits))
      else Ret (s, Now ()))"

section \<open>Creation\<close>

definition psp_create_thread ::
    "u64 \<Rightarrow> string option \<Rightarrow> thread_entry \<Rightarrow> u64 \<Rightarrow> nat \<Rightarrow> u32 \<Rightarrow> kst \<Rightarrow> (kst \<times> status_t \<times> u64) outcome" where
  "psp_create_thread p nm entry arg prio0 flags s =
     (if p = 0 \<or> entry = NoEntry then Ret (s, STATUS_INVALID_PARAMETER, 0)
      else let prio = (if prio0 \<ge> PRIORITY_LEVELS then PRIORITY_NORMAL else prio0)
           in bind_outcome (ob_create OBJ_THREAD nm 0 s) (\<lambda>(s1, t).
              if t = 0 then Ret (s1, STATUS_NO_MEMORY, 0)
              else let tid = g_next_tid s1;
                       s2 = upd_thread t (\<lambda>x. x\<lparr>th_process := p, th_tid := tid, th_state := THR_UNUSED, th_priority := prio,
                              th_saved_priority := prio, th_quantum := QUANTUM_TICKS, th_kill_pending := False,
                              th_wait_boost := False, th_owned := []\<rparr>) (s1\<lparr>g_next_tid := tid + 1\<rparr>)
                   in bind_outcome (vmm_map_kstack (k_heap s2) (g_kernel_as s2) (tid32 tid)) (\<lambda>(h, ks, stk).
                      let s3 = s2\<lparr>k_heap := h\<rparr>
                      in if \<not> NT_SUCCESS ks \<or> stk = 0
                         then bind_outcome (ob_dereference t s3) (\<lambda>s4. Ret (s4, STATUS_NO_MEMORY, 0))
                         else let s4 = upd_thread t (\<lambda>x. x\<lparr>th_kstack := stk, th_entry := entry, th_arg := arg,
                                         th_name := (case nm of None \<Rightarrow> th_name x | Some n \<Rightarrow> cut 32 n)\<rparr>) s3;
                                  s5 = ob_set_wait t (Disp t) (disp_init (Disp t) DISP_THREAD 0 s4);
                                  s6 = upd_proc p (\<lambda>x. x\<lparr>pr_threads := pr_threads x @ [t],
                                         pr_thread_count := pr_thread_count x + 1,
                                         pr_primary := (if pr_primary x = 0 then t else pr_primary x)\<rparr>) s5;
                                  s7 = ob_reference p s6
                              in Ret (if flags AND CREATE_SUSPENDED = 0 then sched_ready t s7 else s7, STATUS_SUCCESS, t))))"

text \<open>The integrity a new token gets: that of the parent, at most 1.\<close>

definition inherited_integrity :: "u64 \<Rightarrow> kst \<Rightarrow> u32" where
  "inherited_integrity parent s =
     (if parent \<noteq> 0 \<and> pr_token (k_proc s parent) \<noteq> 0
      then let i = tok_integrity (k_token s (pr_token (k_proc s parent))) in if i > 1 then 1 else i
      else 1)"

definition psp_create_process :: "string option \<Rightarrow> u64 \<Rightarrow> kst \<Rightarrow> (kst \<times> status_t \<times> u64) outcome" where
  "psp_create_process img parent s =
     bind_outcome (ob_create OBJ_PROCESS img 0 s) (\<lambda>(s1, p).
       if p = 0 then Ret (s1, STATUS_NO_MEMORY, 0)
       else bind_outcome (vmm_aspace_init (h_pmm (k_heap s1)) (as_cr3 (g_kernel_as s1))) (\<lambda>(pm, as).
       let pid = g_next_pid s1;
           s2 = s1\<lparr>g_next_pid := pid + 1, k_heap := (k_heap s1)\<lparr>h_pmm := pm\<rparr>\<rparr>;
           s3 = upd_proc p (\<lambda>x. x\<lparr>pr_pid := pid, pr_threads := [], pr_handles := ht_init, pr_aspace := as,
                  pr_image := cut 64 (case img of None \<Rightarrow> ''unknown'' | Some n \<Rightarrow> n),
                  pr_cwd := cut PATH_MAX (if parent \<noteq> 0 then pr_cwd (k_proc s2 parent) else ''/'')\<rparr>) s2;
           s4 = ob_set_wait p (Disp p) (disp_init (Disp p) DISP_PROCESS 0 s3)
       in bind_outcome (ob_create OBJ_TOKEN None 0 s4) (\<lambda>(s5, tok).
          if tok = 0
          then bind_outcome (vmm_aspace_destroy (k_heap s5) (pr_aspace (k_proc s5 p))) (\<lambda>(h, as1).
               bind_outcome (ob_dereference p (upd_proc p (\<lambda>x. x\<lparr>pr_aspace := as1\<rparr>) (s5\<lparr>k_heap := h\<rparr>))) (\<lambda>s6.
                 Ret (s6, STATUS_NO_MEMORY, 0)))
          else let s6 = s5\<lparr>k_token := (k_token s5)(tok := \<lparr>tok_pid = pid, tok_integrity = inherited_integrity parent s5\<rparr>)\<rparr>;
                   s7 = upd_proc p (\<lambda>x. x\<lparr>pr_token := tok\<rparr>) s6;
                   s8 = (if length (g_procs s7) < MAX_PROCESSES
                         then ob_reference p (s7\<lparr>g_procs := g_procs s7 @ [p]\<rparr>) else s7)
               in Ret (s8, STATUS_SUCCESS, p))))"

definition sched_init :: "kst \<Rightarrow> kst outcome" where
  "sched_init s =
     (let s0 = s\<lparr>g_ready := (\<lambda>_. []), g_ready_mask := 0\<rparr>
      in bind_outcome (k_alloc_zero s0 (ty_size (g_types OBJ_PROCESS))) (\<lambda>(s1, p).
         if p = 0 then Panic ''sched: system''
         else let hdr = \<lparr>o_kind = OBJ_PROCESS, o_name = ''System'', o_directory = 0, o_pointers = 1, o_handles = 0,
                         o_flags = OBJ_PERMANENT OR OBJ_WAITABLE, o_owner_pid = 0, o_wait = Some (Disp p), o_dir_hash = 0\<rparr>
              in bind_outcome (vmm_aspace_init (h_pmm (k_heap s1)) (as_cr3 (g_kernel_as s1))) (\<lambda>(pm, as).
         let s2 = s1\<lparr>k_heap := (k_heap s1)\<lparr>h_pmm := pm\<rparr>, k_obj := (k_obj s1)(p := hdr), g_system := p,
                     k_proc := (k_proc s1)(p := zero_process\<lparr>pr_image := ''System'', pr_aspace := as, pr_cwd := ''/''\<rparr>)\<rparr>;
             s3 = disp_init (Disp p) DISP_PROCESS 0 s2
         in bind_outcome (ob_create OBJ_TOKEN None 0 s3) (\<lambda>(s4, tok).
            if tok = 0 then Panic ''sched: system token''
            else let s5 = upd_proc p (\<lambda>x. x\<lparr>pr_token := tok\<rparr>)
                            (s4\<lparr>k_token := (k_token s4)(tok := \<lparr>tok_pid = 0, tok_integrity = 1\<rparr>), g_procs := g_procs s4 @ [p]\<rparr>)
                 in bind_outcome (psp_create_thread p (Some ''idle'') IdleEntry 0 PRIORITY_IDLE 0 s5) (\<lambda>(s6, st, idle).
                      if \<not> NT_SUCCESS st then Panic ''sched: idle''
                      else Ret (upd_thread idle (\<lambda>x. x\<lparr>th_state := THR_READY\<rparr>)
                                  (s6\<lparr>g_idle := idle, k_current_process := p\<rparr>)))))))"

definition sched_start :: "kst \<Rightarrow> kst" where
  "sched_start s = sched_reschedule (s\<lparr>k_current := 0\<rparr>)"

record sys_process_info =
  spi_pid :: u64
  spi_threads :: u32
  spi_image :: string
  spi_state :: string

definition psp_info :: "kst \<Rightarrow> u64 \<Rightarrow> sys_process_info" where
  "psp_info s p =
     \<lparr>spi_pid = pr_pid (k_proc s p), spi_threads = pr_thread_count (k_proc s p), spi_image = pr_image (k_proc s p),
      spi_state = (if pr_terminating (k_proc s p) then ''exit'' else ''run'')\<rparr>"

definition psp_snapshot :: "nat \<Rightarrow> kst \<Rightarrow> sys_process_info list" where
  "psp_snapshot mx s = take mx (map (psp_info s) (filter (\<lambda>p. p \<noteq> 0) (g_procs s)))"

end
