(* ===== verification/Wait.thy ===== *)
theory Wait
  imports Process
begin

text \<open>
  Waiting, \<^verbatim>\<open>kernel/ke/wait.c\<close>.  A wait that must block ends with the caller enqueued and
  another thread running (\<open>Sleeps\<close>); what the caller does when it runs again is a definition of its
  own (\<open>ke_wait_finish\<close>, \<open>ke_wait_multiple_finish\<close>).  Priority donation, recursion, abandonment and
  the time-out bookkeeping are as in the code.
\<close>

definition mutex_donate :: "u64 \<Rightarrow> u64 \<Rightarrow> kst \<Rightarrow> kst" where
  "mutex_donate m waiter s =
     (let owner = m_owner (k_mutex s m)
      in if owner = 0 \<or> waiter = 0 \<or> owner = waiter then s
         else if th_priority (k_thread s waiter) \<le> th_priority (k_thread s owner) then s
         else sched_boost owner (th_priority (k_thread s waiter))
                (upd_thread owner (\<lambda>x. x\<lparr>th_saved_priority := (if th_wait_boost x then th_saved_priority x else th_priority x),
                                         th_wait_boost := True\<rparr>) s))"

definition disp_satisfied :: "dref \<Rightarrow> u64 \<Rightarrow> kst \<Rightarrow> bool" where
  "disp_satisfied d t s =
     (if d_type (k_disp s d) = DISP_MUTANT \<and> m_owner (k_mutex s (dref_obj d)) = t then True
      else d_signal (k_disp s d) > 0)"

text \<open>
  The part of \<open>ke_wait_object\<close> before it may block: a status when the wait ends at once, \<open>None\<close>
  when the object is not available.
\<close>

definition wait_try :: "dref \<Rightarrow> u64 \<Rightarrow> kst \<Rightarrow> kst \<times> status_t option" where
  "wait_try d t s =
     (if d_type (k_disp s d) = DISP_MUTANT
      then let m = dref_obj d
           in if m_owner (k_mutex s m) = t
              then (upd_mutex m (\<lambda>x. x\<lparr>m_recursion := m_recursion x + 1\<rparr>) s, Some STATUS_SUCCESS)
              else if d_signal (k_disp s d) > 0
              then (ke_mutex_own m t
                      (upd_mutex m (\<lambda>x. x\<lparr>m_owner := t, m_recursion := 1, m_abandoned := False\<rparr>)
                        (upd_disp d (\<lambda>x. x\<lparr>d_signal := d_signal x - 1\<rparr>) s)),
                    Some (if m_abandoned (k_mutex s m) then STATUS_ABANDONED else STATUS_SUCCESS))
              else (mutex_donate m t s, None)
      else if d_signal (k_disp s d) > 0
      then (if d_type (k_disp s d) = DISP_SYNCHRONIZATION_EVENT \<or> d_type (k_disp s d) = DISP_TIMER
            then upd_disp d (\<lambda>x. x\<lparr>d_signal := 0\<rparr>) s else s, Some STATUS_SUCCESS)
      else (s, None))"

definition wait_deadline :: "u64 \<Rightarrow> kst \<Rightarrow> u64" where
  "wait_deadline timeout s = k_ticks s + (if timeout = - 1 then 0 else timeout)"

definition wait_block_on :: "dref \<Rightarrow> u64 \<Rightarrow> u64 \<Rightarrow> kst \<Rightarrow> kst" where
  "wait_block_on d t timeout s =
     upd_thread t (\<lambda>x. x\<lparr>th_wait := \<lparr>wb_object = Some d, wb_status = STATUS_TIMEOUT\<rparr>, th_state := THR_WAITING,
                         th_timed := (timeout \<noteq> - 1), th_timeout_tick := wait_deadline timeout s\<rparr>)
       (upd_disp d (\<lambda>x. x\<lparr>d_waiters := d_waiters x @ [(t, WSingle)]\<rparr>) s)"

text \<open>What the thread does once \<open>sched_reschedule\<close> has returned to it.\<close>

definition ke_wait_finish :: "u64 \<Rightarrow> kst \<Rightarrow> (kst \<times> status_t flow) outcome" where
  "ke_wait_finish t s =
     (if th_kill_pending (k_thread s t)
      then bind_outcome (sched_exit_thread (th_exit_status (k_thread s t)) s) (\<lambda>s1. Ret (s1, Exits))
      else Ret (s, Now (wb_status (th_wait (k_thread s t)))))"

definition ke_wait_object :: "dref option \<Rightarrow> u64 \<Rightarrow> kst \<Rightarrow> (kst \<times> status_t flow) outcome" where
  "ke_wait_object d' timeout s =
     (case d' of
        None \<Rightarrow> Ret (s, Now STATUS_INVALID_PARAMETER)
      | Some d \<Rightarrow>
          let t = k_current s
          in if t = 0 then Ret (s, Now STATUS_INVALID_PARAMETER)
             else if th_kill_pending (k_thread s t)
             then bind_outcome (sched_exit_thread (th_exit_status (k_thread s t)) s) (\<lambda>s1. Ret (s1, Exits))
             else case wait_try d t s of
                    (s1, Some st) \<Rightarrow> Ret (s1, Now st)
                  | (s1, None) \<Rightarrow>
                      if timeout = 0 then Ret (s1, Now STATUS_TIMEOUT)
                      else let s2 = sched_reschedule (wait_block_on d t timeout s1)
                           in if k_current s2 = t then ke_wait_finish t s2 else Ret (s2, Sleeps))"

section \<open>Events and mutexes\<close>

definition ke_set_event :: "u64 \<Rightarrow> kst \<Rightarrow> kst \<times> status_t" where
  "ke_set_event e s = (if e = 0 then (s, STATUS_INVALID_PARAMETER) else (disp_signal (Disp e) 1 s, STATUS_SUCCESS))"

definition ke_reset_event :: "u64 \<Rightarrow> kst \<Rightarrow> kst \<times> status_t" where
  "ke_reset_event e s =
     (if e = 0 then (s, STATUS_INVALID_PARAMETER) else (upd_disp (Disp e) (\<lambda>x. x\<lparr>d_signal := 0\<rparr>) s, STATUS_SUCCESS))"

definition ke_release_mutex :: "u64 \<Rightarrow> kst \<Rightarrow> kst \<times> status_t" where
  "ke_release_mutex m s =
     (if m = 0 then (s, STATUS_INVALID_PARAMETER)
      else let t = k_current s
           in if t = 0 \<or> m_owner (k_mutex s m) \<noteq> t \<or> m_recursion (k_mutex s m) = 0 then (s, STATUS_MUTANT_NOT_OWNED)
              else let s1 = upd_mutex m (\<lambda>x. x\<lparr>m_recursion := m_recursion x - 1\<rparr>) s
                   in if m_recursion (k_mutex s1 m) > 0 then (s1, STATUS_SUCCESS)
                      else let s2 = ke_mutex_disown m (upd_mutex m (\<lambda>x. x\<lparr>m_owner := 0\<rparr>) s1);
                               s3 = (if d_waiters (k_disp s2 (Disp m)) = []
                                     then upd_disp (Disp m) (\<lambda>x. x\<lparr>d_signal := 1\<rparr>) s2
                                     else disp_wake_one (Disp m) STATUS_SUCCESS s2)
                           in (if th_owned (k_thread s3 t) = [] \<and> th_wait_boost (k_thread s3 t)
                               then sched_boost t (th_saved_priority (k_thread s3 t))
                                      (upd_thread t (\<lambda>x. x\<lparr>th_wait_boost := False\<rparr>) s3)
                               else s3, STATUS_SUCCESS))"

definition ke_acquire_mutex :: "u64 \<Rightarrow> u64 \<Rightarrow> kst \<Rightarrow> (kst \<times> status_t flow) outcome" where
  "ke_acquire_mutex m timeout s = ke_wait_object (Some (Disp m)) timeout s"

section \<open>Waiting for several objects\<close>

text \<open>A wait with time-out 0 inside \<open>ke_wait_multiple\<close>, after its check of \<open>kill_pending\<close>.\<close>

definition wait_poll :: "u64 \<Rightarrow> dref \<Rightarrow> kst \<Rightarrow> kst \<times> status_t" where
  "wait_poll t d s = (case wait_try d t s of (s1, Some st) \<Rightarrow> (s1, st) | (s1, None) \<Rightarrow> (s1, STATUS_TIMEOUT))"

fun poll_any :: "u64 \<Rightarrow> nat \<Rightarrow> dref list \<Rightarrow> kst \<Rightarrow> kst \<times> status_t option" where
  "poll_any t i [] s = (s, None)"
| "poll_any t i (d # ds) s =
     (let (s1, st) = wait_poll t d s
      in if st \<noteq> STATUS_TIMEOUT then (s1, Some (if st = STATUS_SUCCESS then of_nat i else st))
         else poll_any t (Suc i) ds s1)"

definition consume_all :: "u64 \<Rightarrow> dref list \<Rightarrow> kst \<Rightarrow> kst" where
  "consume_all t ds s = fold (\<lambda>d s'. fst (wait_poll t d s')) ds s"

definition set_multi :: "u64 \<Rightarrow> nat \<Rightarrow> wait_block \<Rightarrow> kst \<Rightarrow> kst" where
  "set_multi t i w s = upd_thread t (\<lambda>x. x\<lparr>th_multi := (th_multi x)(i := w)\<rparr>) s"

text \<open>Enqueueing object after object; a signalled object met on the way ends a \<open>WAIT_ANY\<close>.\<close>

fun enqueue_loop :: "u64 \<Rightarrow> bool \<Rightarrow> dref list \<Rightarrow> nat \<Rightarrow> dref list \<Rightarrow> kst \<Rightarrow> kst \<times> status_t option" where
  "enqueue_loop t wait_all before i [] s = (s, None)"
| "enqueue_loop t wait_all before i (d # ds) s =
     (let s1 = set_multi t i \<lparr>wb_object = Some d, wb_status = STATUS_TIMEOUT\<rparr> s
      in if \<not> wait_all \<and> d_signal (k_disp s1 d) > 0
         then let s2 = fold (\<lambda>(j, d'). drop_waiter d' (t, WMulti j)) (zip [0..<i] before) s1;
                  s3 = upd_thread t (\<lambda>x. x\<lparr>th_multi_count := 0, th_wait := (th_wait x)\<lparr>wb_object := None\<rparr>\<rparr>) s2
              in (fst (wait_poll t d s3), Some (of_nat i))
         else let s2 = (if d_type (k_disp s1 d) = DISP_MUTANT then mutex_donate (dref_obj d) t s1 else s1);
                  s3 = upd_disp d (\<lambda>x. x\<lparr>d_waiters := d_waiters x @ [(t, WMulti i)]\<rparr>) s2
              in enqueue_loop t wait_all (before @ [d]) (Suc i) ds s3)"

text \<open>
  After the wake-up: the index of the last block that was signalled, and every block taken off
  its list.
\<close>

fun collect_multi :: "u64 \<Rightarrow> nat \<Rightarrow> dref list \<Rightarrow> nat \<Rightarrow> kst \<Rightarrow> kst \<times> nat" where
  "collect_multi t i [] which s = (s, which)"
| "collect_multi t i (d # ds) which s =
     (let s1 = drop_waiter d (t, WMulti i) s;
          which' = (if wb_status (th_multi (k_thread s1 t) i) \<noteq> STATUS_TIMEOUT then i else which);
          s2 = set_multi t i ((th_multi (k_thread s1 t) i)\<lparr>wb_object := None\<rparr>) s1
      in collect_multi t (Suc i) ds which' s2)"

definition ke_wait_multiple_finish :: "u64 \<Rightarrow> dref list \<Rightarrow> bool \<Rightarrow> kst \<Rightarrow> (kst \<times> status_t flow) outcome" where
  "ke_wait_multiple_finish t ds wait_all s =
     (if th_kill_pending (k_thread s t)
      then bind_outcome (sched_exit_thread (th_exit_status (k_thread s t)) s) (\<lambda>s1. Ret (s1, Exits))
      else let (s1, which) = collect_multi t 0 ds 0 s;
               s2 = upd_thread t (\<lambda>x. x\<lparr>th_multi_count := 0, th_wait := (th_wait x)\<lparr>wb_object := None\<rparr>\<rparr>) s1
           in if wb_status (th_wait (k_thread s2 t)) = STATUS_TIMEOUT then Ret (s2, Now STATUS_TIMEOUT)
              else if wait_all then Ret (consume_all t ds s2, Now STATUS_SUCCESS)
              else Ret (s2, Now (of_nat which)))"

definition ke_wait_multiple :: "dref option list \<Rightarrow> bool \<Rightarrow> u64 \<Rightarrow> kst \<Rightarrow> (kst \<times> status_t flow) outcome" where
  "ke_wait_multiple objs wait_all timeout s =
     (if objs = [] \<or> length objs > WAIT_OBJECTS_MAX then Ret (s, Now STATUS_INVALID_PARAMETER)
      else let t = k_current s
           in if t = 0 then Ret (s, Now STATUS_INVALID_PARAMETER)
              else if th_kill_pending (k_thread s t)
              then bind_outcome (sched_exit_thread (th_exit_status (k_thread s t)) s) (\<lambda>s1. Ret (s1, Exits))
              else if None \<in> set objs then Ret (s, Now STATUS_INVALID_PARAMETER)
              else let ds = map the objs;
                       (s1, fast) = (if \<not> wait_all then poll_any t 0 ds s
                                     else if list_all (\<lambda>d. disp_satisfied d t s) ds
                                     then (consume_all t ds s, Some STATUS_SUCCESS)
                                     else (s, None))
                   in case fast of
                        Some st \<Rightarrow> Ret (s1, Now st)
                      | None \<Rightarrow>
                          if timeout = 0 then Ret (s1, Now STATUS_TIMEOUT)
                          else let s2 = upd_thread t (\<lambda>x. x\<lparr>th_multi_count := length ds, th_wait_all := wait_all,
                                          th_wait := \<lparr>wb_object = Some (hd ds), wb_status = STATUS_TIMEOUT\<rparr>\<rparr>) s1
                               in case enqueue_loop t wait_all [] 0 ds s2 of
                                    (s3, Some st) \<Rightarrow> Ret (s3, Now st)
                                  | (s3, None) \<Rightarrow>
                                      let s4 = sched_reschedule
                                                 (upd_thread t (\<lambda>x. x\<lparr>th_state := THR_WAITING, th_timed := (timeout \<noteq> - 1),
                                                    th_timeout_tick := wait_deadline timeout s3\<rparr>) s3)
                                      in if k_current s4 = t then ke_wait_multiple_finish t ds wait_all s4
                                         else Ret (s4, Sleeps))"

end
