(* ===== verification/Timer.thy ===== *)
theory Timer
  imports Wait
begin

text \<open>
  Kernel timers, \<^verbatim>\<open>kernel/ke/timer.c\<close>, and the clock tick \<open>ke_on_tick\<close> of
  \<^verbatim>\<open>kernel/ke/sched.c\<close>: expired timers are signalled, timed waits that are due are ended, the quantum
  of the running thread is charged.
\<close>

section \<open>Timers\<close>

definition timer_init :: "kst \<Rightarrow> kst" where
  "timer_init s = s\<lparr>g_timers := [], g_timer_up := True\<rparr>"

definition ob_create_timer :: "string option \<Rightarrow> bool \<Rightarrow> kst \<Rightarrow> (kst \<times> status_t \<times> u64) outcome" where
  "ob_create_timer nm auto_reset s =
     bind_outcome (ob_create OBJ_TIMER nm (bno_dir nm s) s) (\<lambda>(s1, a).
       if a = 0 then Ret (s1, STATUS_NO_MEMORY, 0)
       else let s2 = disp_init (Disp a) (if auto_reset then DISP_SYNCHRONIZATION_EVENT else DISP_NOTIFICATION_EVENT) 0 s1;
                s3 = ob_set_wait a (Disp a) s2
            in Ret (upd_timer a (\<lambda>x. \<lparr>t_due_tick = 0, t_period = 0, t_armed = False\<rparr>) s3, STATUS_SUCCESS, a))"

definition disarm :: "u64 \<Rightarrow> kst \<Rightarrow> kst" where
  "disarm a s =
     (if t_armed (k_timer s a)
      then upd_timer a (\<lambda>x. x\<lparr>t_armed := False\<rparr>) (s\<lparr>g_timers := remove1 a (g_timers s)\<rparr>) else s)"

definition ke_set_timer :: "u64 \<Rightarrow> u64 \<Rightarrow> u64 \<Rightarrow> kst \<Rightarrow> kst \<times> status_t" where
  "ke_set_timer a due period s =
     (if a = 0 then (s, STATUS_INVALID_PARAMETER)
      else let s1 = disarm a (if g_timer_up s then s else timer_init s);
               s2 = upd_timer a (\<lambda>x. \<lparr>t_due_tick = k_ticks s1 + (if due \<noteq> 0 then due else 1), t_period = period, t_armed = True\<rparr>) s1;
               s3 = upd_disp (Disp a) (\<lambda>x. x\<lparr>d_signal := 0\<rparr>) s2
           in (s3\<lparr>g_timers := g_timers s3 @ [a]\<rparr>, STATUS_SUCCESS))"

definition ke_cancel_timer :: "u64 \<Rightarrow> kst \<Rightarrow> kst \<times> status_t" where
  "ke_cancel_timer a s =
     (if a = 0 then (s, STATUS_INVALID_PARAMETER)
      else (upd_disp (Disp a) (\<lambda>x. x\<lparr>d_signal := 0\<rparr>) (disarm a s), STATUS_SUCCESS))"

definition timer_due :: "u64 \<Rightarrow> kst \<Rightarrow> u64 \<Rightarrow> bool" where
  "timer_due now s a \<longleftrightarrow> t_armed (k_timer s a) \<and> t_due_tick (k_timer s a) \<le> now"

text \<open>One turn of \<open>timer_tick\<close> for the due timer \<open>a\<close>: signal it, and re-arm it if it is periodic.\<close>

definition timer_fire :: "u64 \<Rightarrow> u64 \<Rightarrow> kst \<Rightarrow> kst" where
  "timer_fire now a s =
     (let s1 = disp_signal (Disp a) 1 (disarm a s)
      in if t_period (k_timer s1 a) \<noteq> 0
         then let s2 = upd_timer a (\<lambda>x. x\<lparr>t_due_tick := now + t_period x, t_armed := True\<rparr>) s1
              in s2\<lparr>g_timers := g_timers s2 @ [a]\<rparr>
         else s1)"

partial_function (option) timer_loop :: "u64 \<Rightarrow> kst \<Rightarrow> kst option" where
  "timer_loop now s =
     (case find (timer_due now s) (g_timers s) of
        None \<Rightarrow> Some s
      | Some a \<Rightarrow> timer_loop now (timer_fire now a s))"

definition timer_tick :: "u64 \<Rightarrow> kst \<Rightarrow> kst outcome" where
  "timer_tick now s =
     (if \<not> g_timer_up s then Ret s
      else case timer_loop now s of None \<Rightarrow> Hang | Some s1 \<Rightarrow> Ret s1)"

section \<open>The clock tick\<close>

definition drop_multi :: "u64 \<Rightarrow> nat \<Rightarrow> kst \<Rightarrow> kst" where
  "drop_multi t k s =
     (case wb_object (th_multi (k_thread s t) k) of None \<Rightarrow> s | Some d \<Rightarrow> drop_waiter d (t, WMulti k) s)"

definition time_out :: "u64 \<Rightarrow> kst \<Rightarrow> kst" where
  "time_out t s =
     (let th = k_thread s t; ended = (\<lambda>x. x\<lparr>th_wait := (th_wait x)\<lparr>wb_status := STATUS_TIMEOUT\<rparr>, th_timed := False\<rparr>)
      in if th_multi_count th \<noteq> 0
         then let s1 = fold (drop_multi t) [0..<th_multi_count th] s;
                  s2 = upd_thread t (\<lambda>x. (ended x)\<lparr>th_multi_count := 0\<rparr>) s1
              in (sched_ready t s2)\<lparr>k_need_resched := True\<rparr>
         else let s1 = (case wb_object (th_wait th) of
                          None \<Rightarrow> s
                        | Some d \<Rightarrow> upd_thread t ended (drop_waiter d (t, WSingle) s))
              in (sched_ready t s1)\<lparr>k_need_resched := True\<rparr>)"

definition expired :: "kst \<Rightarrow> u64 \<Rightarrow> bool" where
  "expired s t \<longleftrightarrow>
     th_state (k_thread s t) = THR_WAITING \<and> th_timed (k_thread s t) \<and> th_timeout_tick (k_thread s t) \<le> k_ticks s"

definition scan_thread :: "u64 \<Rightarrow> kst \<Rightarrow> kst" where
  "scan_thread t s = (if expired s t then time_out t s else s)"

definition scan_process :: "u64 \<Rightarrow> kst \<Rightarrow> kst" where
  "scan_process p s =
     (if p = 0 \<or> pr_thread_count (k_proc s p) = 0 then s else fold scan_thread (pr_threads (k_proc s p)) s)"

definition charge_quantum :: "kst \<Rightarrow> kst" where
  "charge_quantum s =
     (let t = k_current s; th = k_thread s t
      in if th_quantum th \<noteq> 0 \<and> th_priority th < PRIORITY_REALTIME
         then let s1 = upd_thread t (\<lambda>x. x\<lparr>th_quantum := th_quantum x - 1\<rparr>) s
              in if th_quantum th = 1 then s1\<lparr>k_need_resched := True\<rparr> else s1
         else s)"

definition ke_on_tick :: "kst \<Rightarrow> kst outcome" where
  "ke_on_tick s =
     (let s0 = s\<lparr>k_ticks := k_ticks s + 1\<rparr>
      in bind_outcome (timer_tick (k_ticks s0) s0) (\<lambda>s1.
         let s2 = fold scan_process (g_procs s1) s1
         in if k_current s2 = 0 then Ret s2
            else let s3 = charge_quantum s2
                 in Ret (if k_need_resched s3 then sched_reschedule s3 else s3)))"

section \<open>System calls\<close>

definition NtCreateTimer :: "string option \<Rightarrow> bool \<Rightarrow> kst \<Rightarrow> (kst \<times> status_t \<times> handle_t) outcome" where
  "NtCreateTimer nm auto_reset s =
     bind_outcome (ob_create_timer nm auto_reset s) (\<lambda>(s1, st, a).
       if \<not> NT_SUCCESS st then Ret (s1, st, 0)
       else let p = k_current_process s1
            in if p = 0 then bind_outcome (ob_dereference a s1) (\<lambda>s2. Ret (s2, STATUS_INVALID_HANDLE, 0))
               else let (s2, st2, h) = ht_insert p a (SYNCHRONIZE OR TIMER_MODIFY_STATE) s1
                    in bind_outcome (ob_dereference a s2) (\<lambda>s3. Ret (s3, st2, h)))"

definition NtSetTimer :: "handle_t \<Rightarrow> u64 \<Rightarrow> u64 \<Rightarrow> kst \<Rightarrow> (kst \<times> status_t) outcome" where
  "NtSetTimer h due period s =
     (let p = k_current_process s
      in if p = 0 then Ret (s, STATUS_INVALID_HANDLE)
         else let (s1, st, a) = ht_lookup p h TIMER_MODIFY_STATE (Some OBJ_TIMER) s
              in if \<not> NT_SUCCESS st then Ret (s1, st)
                 else let (s2, st2) = ke_set_timer a due period s1
                      in bind_outcome (ob_dereference a s2) (\<lambda>s3. Ret (s3, st2)))"

definition NtCancelTimer :: "handle_t \<Rightarrow> kst \<Rightarrow> (kst \<times> status_t) outcome" where
  "NtCancelTimer h s =
     (let p = k_current_process s
      in if p = 0 then Ret (s, STATUS_INVALID_HANDLE)
         else let (s1, st, a) = ht_lookup p h TIMER_MODIFY_STATE (Some OBJ_TIMER) s
              in if \<not> NT_SUCCESS st then Ret (s1, st)
                 else let (s2, st2) = ke_cancel_timer a s1
                      in bind_outcome (ob_dereference a s2) (\<lambda>s3. Ret (s3, st2)))"

end
