(* ===== verification/Pipe.thy ===== *)
theory Pipe
  imports Timer
begin

text \<open>
  Byte pipes, \<^verbatim>\<open>kernel/ob/pipe.c\<close>: a ring of 4096 bytes with a dispatcher for each direction.
  One turn of a read or write loop ends the call, puts the caller to sleep, or goes on; a loop
  that goes on forever is \<open>Hang\<close>.
\<close>

abbreviation (input) PIPE_CAP :: nat where "PIPE_CAP \<equiv> 4096"

section \<open>The ring\<close>

fun ring_take :: "nat \<Rightarrow> pipe_object \<Rightarrow> u8 list \<times> pipe_object" where
  "ring_take 0 p = ([], p)"
| "ring_take (Suc n) p =
     (let (bs, p') = ring_take n (p\<lparr>p_r := (p_r p + 1) mod PIPE_CAP, p_used := p_used p - 1\<rparr>)
      in (p_buf p ! p_r p # bs, p'))"

fun ring_put :: "u8 list \<Rightarrow> pipe_object \<Rightarrow> pipe_object" where
  "ring_put [] p = p"
| "ring_put (b # bs) p =
     ring_put bs (p\<lparr>p_buf := (p_buf p)[p_w p := b], p_w := (p_w p + 1) mod PIPE_CAP, p_used := p_used p + 1\<rparr>)"

definition put_pipe :: "u64 \<Rightarrow> pipe_object \<Rightarrow> kst \<Rightarrow> kst" where
  "put_pipe a p s = s\<lparr>k_pipe := (k_pipe s)(a := p)\<rparr>"

section \<open>Reading\<close>

text \<open>
  One turn: \<open>Inl\<close> ends the call, \<open>Inr\<close> is the state and the bytes of the next turn.
\<close>

type_synonym 'a turn = "(kst \<times> 'a flow) outcome + (kst \<times> 'a)"

definition sleep_turn :: "dref \<Rightarrow> 'a \<Rightarrow> kst \<Rightarrow> 'a turn" where
  "sleep_turn d x s =
     (case ke_wait_object (Some d) (- 1) s of
        Ret (s1, Now st) \<Rightarrow> Inr (s1, x)
      | Ret (s1, Sleeps) \<Rightarrow> Inl (Ret (s1, Sleeps))
      | Ret (s1, Exits) \<Rightarrow> Inl (Ret (s1, Exits))
      | Panic m \<Rightarrow> Inl (Panic m)
      | Hang \<Rightarrow> Inl Hang)"

definition pipe_read_turn :: "u64 \<Rightarrow> nat \<Rightarrow> u8 list \<Rightarrow> kst \<Rightarrow> u8 list turn" where
  "pipe_read_turn a n got s =
     (let p = k_pipe s a
      in if length got \<ge> n then Inl (Ret (s, Now got))
         else if p_used p = 0
         then if got \<noteq> [] \<or> p_writer_closed p then Inl (Ret (s, Now got))
              else sleep_turn (CanRead a) got s
         else let (bs, p') = ring_take (min (n - length got) (p_used p)) p;
                  s1 = put_pipe a p' s;
                  s2 = (if p_used p' = 0 then upd_disp (CanRead a) (\<lambda>x. x\<lparr>d_signal := 0\<rparr>) s1 else s1);
                  s3 = upd_disp (CanWrite a) (\<lambda>x. x\<lparr>d_signal := 1\<rparr>) s2
              in Inr (disp_wake_one (CanWrite a) STATUS_SUCCESS s3, got @ bs))"

partial_function (option) pipe_read_loop ::
    "u64 \<Rightarrow> nat \<Rightarrow> u8 list \<Rightarrow> kst \<Rightarrow> (kst \<times> u8 list flow) outcome option" where
  "pipe_read_loop a n got s =
     (let r = pipe_read_turn a n got s
      in if isl r then Some (projl r) else pipe_read_loop a n (snd (projr r)) (fst (projr r)))"

definition read_status :: "u8 list \<Rightarrow> status_t" where
  "read_status bs = (if bs \<noteq> [] then STATUS_SUCCESS else STATUS_END_OF_FILE)"

text \<open>The bytes read; \<open>read_status\<close> is the status the call returns with them.\<close>

definition pipe_read :: "u64 \<Rightarrow> nat \<Rightarrow> kst \<Rightarrow> (kst \<times> u8 list flow) outcome" where
  "pipe_read a n s = of_loop (pipe_read_loop a n [] s)"

section \<open>Writing\<close>

definition pipe_write_turn :: "u64 \<Rightarrow> u8 list \<Rightarrow> nat \<Rightarrow> kst \<Rightarrow> nat turn" where
  "pipe_write_turn a src done s =
     (let p = k_pipe s a
      in if done \<ge> length src then Inl (Ret (s, Now done))
         else if p_used p = PIPE_CAP then sleep_turn (CanWrite a) done s
         else let k = min (length src - done) (PIPE_CAP - p_used p);
                  p' = ring_put (take k (drop done src)) p;
                  s1 = upd_disp (CanRead a) (\<lambda>x. x\<lparr>d_signal := 1\<rparr>) (put_pipe a p' s);
                  s2 = disp_wake_one (CanRead a) STATUS_SUCCESS s1
              in Inr (upd_disp (CanWrite a) (\<lambda>x. x\<lparr>d_signal := (if p_used p' < PIPE_CAP then 1 else 0)\<rparr>) s2, done + k))"

partial_function (option) pipe_write_loop ::
    "u64 \<Rightarrow> u8 list \<Rightarrow> nat \<Rightarrow> kst \<Rightarrow> (kst \<times> nat flow) outcome option" where
  "pipe_write_loop a src done s =
     (let r = pipe_write_turn a src done s
      in if isl r then Some (projl r) else pipe_write_loop a src (snd (projr r)) (fst (projr r)))"

definition pipe_write :: "u64 \<Rightarrow> u8 list \<Rightarrow> kst \<Rightarrow> (kst \<times> nat flow) outcome" where
  "pipe_write a src s = of_loop (pipe_write_loop a src 0 s)"

section \<open>Creation\<close>

definition pipe_setup :: "u64 \<Rightarrow> kst \<Rightarrow> kst" where
  "pipe_setup a s =
     ob_set_wait a (CanRead a)
       (disp_init (CanWrite a) DISP_NOTIFICATION_EVENT 1 (disp_init (CanRead a) DISP_NOTIFICATION_EVENT 0 s))"

definition NtCreatePipe :: "kst \<Rightarrow> (kst \<times> status_t \<times> handle_t \<times> handle_t) outcome" where
  "NtCreatePipe s =
     bind_outcome (ob_create OBJ_PIPE None 0 s) (\<lambda>(s1, a).
       if a = 0 then Ret (s1, STATUS_NO_MEMORY, 0, 0)
       else let s2 = pipe_setup a s1; t = k_current_process s2
            in if t = 0 then bind_outcome (ob_dereference a s2) (\<lambda>s3. Ret (s3, STATUS_INVALID_HANDLE, 0, 0))
               else let (s3, st, r) = ht_insert t a FILE_READ_DATA s2
                    in if \<not> NT_SUCCESS st
                       then bind_outcome (ob_dereference a s3) (\<lambda>s4. Ret (s4, st, 0, 0))
                       else let (s4, st2, w) = ht_insert t a FILE_WRITE_DATA s3
                            in bind_outcome (ob_dereference a s4) (\<lambda>s5. Ret (s5, st2, r, w)))"

end
