(* ===== verification/Section.thy ===== *)
theory Section
  imports Pipe
begin

text \<open>
  Section objects, \<^verbatim>\<open>kernel/ob/section.c\<close>: heap-backed blocks whose contents are copied into the
  address space they are mapped in.
\<close>

definition k_set_aspace :: "u64 \<Rightarrow> kheap \<Rightarrow> aspace \<Rightarrow> kst \<Rightarrow> kst" where
  "k_set_aspace p h as s = upd_proc p (\<lambda>x. x\<lparr>pr_aspace := as\<rparr>) (s\<lparr>k_heap := h\<rparr>)"

definition k_set_pmm :: "pmm \<Rightarrow> kst \<Rightarrow> kst" where
  "k_set_pmm pm s = s\<lparr>k_heap := (k_heap s)\<lparr>h_pmm := pm\<rparr>\<rparr>"

definition NtCreateSection :: "access_t \<Rightarrow> u64 \<Rightarrow> u32 \<Rightarrow> kst \<Rightarrow> (kst \<times> status_t \<times> handle_t) outcome" where
  "NtCreateSection access sz prot s =
     (if sz = 0 then Ret (s, STATUS_INVALID_PARAMETER, 0)
      else if sz > 16 * 1024 * 1024 then Ret (s, STATUS_INVALID_PARAMETER, 0)
      else bind_outcome (ob_create OBJ_SECTION None 0 s) (\<lambda>(s1, a).
        if a = 0 then Ret (s1, STATUS_NO_MEMORY, 0)
        else let n = PAGE_ALIGN_UP sz
             in bind_outcome (k_alloc_zero s1 n) (\<lambda>(s2, kd).
                let s3 = s2\<lparr>k_section := (k_section s2)(a := \<lparr>s_size = n, s_prot = (if prot \<noteq> 0 then prot else PAGE_READWRITE),
                                                          s_kdata = kd, s_bytes = replicate (unat n) 0\<rparr>)\<rparr>
                in if kd = 0 then bind_outcome (ob_dereference a s3) (\<lambda>s4. Ret (s4, STATUS_NO_MEMORY, 0))
                   else let p = k_current_process s3
                        in if p = 0 then bind_outcome (ob_dereference a s3) (\<lambda>s4. Ret (s4, STATUS_INVALID_HANDLE, 0))
                           else let (s4, st, h) = ht_insert p a (if access \<noteq> 0 then access else SECTION_ALL_ACCESS) s3
                                in bind_outcome (ob_dereference a s4) (\<lambda>s5. Ret (s5, st, h)))))"

text \<open>The process a handle argument names: the caller, or the one behind the handle, whose reference is dropped at once.\<close>

definition target_process :: "u64 \<Rightarrow> handle_t \<Rightarrow> access_t \<Rightarrow> kst \<Rightarrow> (kst \<times> status_t \<times> u64) outcome" where
  "target_process cur proc access s =
     (if proc = HANDLE_CURRENT then Ret (s, STATUS_SUCCESS, cur)
      else let (s1, st, po) = ht_lookup cur proc access (Some OBJ_PROCESS) s
           in if \<not> NT_SUCCESS st then Ret (s1, st, 0)
              else bind_outcome (ob_dereference po s1) (\<lambda>s2. Ret (s2, STATUS_SUCCESS, po)))"

definition NtMapViewOfSection ::
    "handle_t \<Rightarrow> handle_t \<Rightarrow> virt_t \<Rightarrow> u64 \<Rightarrow> u32 \<Rightarrow> kst \<Rightarrow> (kst \<times> status_t \<times> virt_t) outcome" where
  "NtMapViewOfSection sect proc base sz prot s =
     (let cur = k_current_process s
      in if cur = 0 then Ret (s, STATUS_INVALID_PARAMETER, base)
         else let (s1, st, so) = (case ht_lookup cur sect SECTION_MAP_READ (Some OBJ_SECTION) s of
                                    (s', st', so') \<Rightarrow>
                                      if NT_SUCCESS st' then (s', st', so')
                                      else ht_lookup cur sect 0 (Some OBJ_SECTION) s')
              in if \<not> NT_SUCCESS st then Ret (s1, st, base)
                 else bind_outcome (target_process cur proc PROCESS_VM_OPERATION s1) (\<lambda>(s2, st2, p).
                   if \<not> NT_SUCCESS st2 then bind_outcome (ob_dereference so s2) (\<lambda>s3. Ret (s3, st2, base))
                   else let sec = k_section s2 so;
                            want = (if sz \<noteq> 0 then PAGE_ALIGN_UP sz else s_size sec);
                            map_size = (if want > s_size sec then s_size sec else want);
                            pr = (if prot \<noteq> 0 then prot else s_prot sec)
                        in bind_outcome (vmm_alloc_user (k_heap s2) (pr_aspace (k_proc s2 p)) base map_size pr MEM_COMMIT)
                          (\<lambda>(h, as, va, st3).
                             let s3 = k_set_aspace p h as s2
                             in if \<not> NT_SUCCESS st3 then bind_outcome (ob_dereference so s3) (\<lambda>s4. Ret (s4, st3, base))
                                else bind_outcome
                                       (vmm_write_aspace (h_pmm h) as va (take (unat map_size) (s_bytes sec)))
                                       (\<lambda>(pm, st4).
                                          bind_outcome (ob_dereference so (k_set_pmm pm s3)) (\<lambda>s4. Ret (s4, st4, va))))))"

definition NtUnmapViewOfSection :: "handle_t \<Rightarrow> virt_t \<Rightarrow> kst \<Rightarrow> (kst \<times> status_t) outcome" where
  "NtUnmapViewOfSection proc base s =
     (let cur = k_current_process s
      in if cur = 0 then Ret (s, STATUS_INVALID_HANDLE)
         else bind_outcome (target_process cur proc PROCESS_VM_OPERATION s) (\<lambda>(s1, st, p).
           if \<not> NT_SUCCESS st then Ret (s1, st)
           else bind_outcome (vmm_free_user (k_heap s1) (pr_aspace (k_proc s1 p)) base 0) (\<lambda>(h, as, st2).
                  Ret (k_set_aspace p h as s1, st2))))"

end
