(* ===== verification/Irp.thy ===== *)
theory Irp
  imports Section
begin

text \<open>
  I/O request packets and the two drivers, \<^verbatim>\<open>kernel/io/irp.c\<close>.  A packet is allocated from the
  heap; while a request is under way its fields are a record.  Driver dispatch tables are the
  match on the driver in \<open>drv_dispatch\<close>.  A copy that would leave its buffer is \<open>Panic\<close>.
\<close>

abbreviation (input) IRP_MJ_CREATE :: nat where "IRP_MJ_CREATE \<equiv> 0"
abbreviation (input) IRP_MJ_CLOSE :: nat where "IRP_MJ_CLOSE \<equiv> 1"
abbreviation (input) IRP_MJ_READ :: nat where "IRP_MJ_READ \<equiv> 2"
abbreviation (input) IRP_MJ_WRITE :: nat where "IRP_MJ_WRITE \<equiv> 3"
abbreviation (input) IRP_MJ_MAX :: nat where "IRP_MJ_MAX \<equiv> 6"
abbreviation (input) RAMDISK_SIZE :: u64 where "RAMDISK_SIZE \<equiv> 0x100000"

record irp =
  i_addr :: u64
  i_major :: nat
  i_status :: status_t
  i_information :: u64
  i_buffer :: "u8 list option"
  i_length :: u64
  i_offset :: u64
  i_device :: u64
  i_ref :: u32

definition io_alloc_irp :: "nat \<Rightarrow> kst \<Rightarrow> (kst \<times> irp option) outcome" where
  "io_alloc_irp major s =
     bind_outcome (k_alloc_zero s 80) (\<lambda>(s1, a).
       Ret (s1, if a = 0 then None
                else Some \<lparr>i_addr = a, i_major = major, i_status = STATUS_PENDING, i_information = 0, i_buffer = None,
                           i_length = 0, i_offset = 0, i_device = 0, i_ref = 1\<rparr>))"

text \<open>\<open>atomic_dec32\<close> returns the decremented value.\<close>

definition io_free_irp :: "irp \<Rightarrow> kst \<Rightarrow> kst outcome" where
  "io_free_irp i s = (if i_ref i - 1 = 1 then k_free s (i_addr i) else Ret s)"

definition io_complete :: "irp \<Rightarrow> status_t \<Rightarrow> u64 \<Rightarrow> irp" where
  "io_complete i st info = i\<lparr>i_status := st, i_information := info\<rparr>"

definition serial_write_disp :: "irp \<Rightarrow> kst \<Rightarrow> (kst \<times> irp \<times> status_t) outcome" where
  "serial_write_disp i s =
     (case i_buffer i of
        None \<Rightarrow> if i_length i = 0 then Ret (s, io_complete i STATUS_SUCCESS 0, STATUS_SUCCESS) else Panic ''null buffer''
      | Some bs \<Rightarrow> Ret (s\<lparr>k_serial_out := k_serial_out s @ take (unat (i_length i)) bs\<rparr>,
                       io_complete i STATUS_SUCCESS (i_length i), STATUS_SUCCESS))"

definition splice :: "nat \<Rightarrow> 'a list \<Rightarrow> 'a list \<Rightarrow> 'a list" where
  "splice off bs xs = take off xs @ bs @ drop (off + length bs) xs"

definition upd_device :: "u64 \<Rightarrow> (device_object \<Rightarrow> device_object) \<Rightarrow> kst \<Rightarrow> kst" where
  "upd_device a f s = s\<lparr>k_device := (k_device s)(a := f (k_device s a))\<rparr>"

text \<open>
  A read request's buffer is given by its length and filled with what is read; a write request's
  buffer holds the bytes to write.
\<close>

definition ramdisk_rw :: "u64 \<Rightarrow> irp \<Rightarrow> bool \<Rightarrow> kst \<Rightarrow> (kst \<times> irp \<times> status_t) outcome" where
  "ramdisk_rw dev i write s =
     (let x = k_device s dev
      in if dev_ext x = 0 \<or> dev_base x = 0 then Ret (s, io_complete i STATUS_NO_SUCH_FILE 0, STATUS_NO_SUCH_FILE)
         else if i_offset i \<ge> dev_size x
         then let st = (if write then STATUS_INVALID_PARAMETER else STATUS_END_OF_FILE)
              in Ret (s, io_complete i st 0, st)
         else if i_offset i + i_length i > dev_size x \<and> write
         then Ret (s, io_complete i STATUS_DISK_FULL 0, STATUS_DISK_FULL)
         else let n = (if i_offset i + i_length i > dev_size x then dev_size x - i_offset i else i_length i);
                  off = unat (i_offset i)
              in case i_buffer i of
                   None \<Rightarrow>
                     if n \<noteq> 0 then Ret (s, io_complete i STATUS_INVALID_PARAMETER 0, STATUS_INVALID_PARAMETER)
                     else Ret (s, io_complete i STATUS_SUCCESS 0, STATUS_SUCCESS)
                 | Some bs \<Rightarrow>
                     if off + unat n > length (dev_bytes x) then Panic ''ramdisk copy''
                     else if write
                     then Ret (upd_device dev (\<lambda>d. d\<lparr>dev_bytes := splice off (take (unat n) bs) (dev_bytes d)\<rparr>) s,
                               io_complete i STATUS_SUCCESS n, STATUS_SUCCESS)
                     else Ret (s, io_complete (i\<lparr>i_buffer := Some (take (unat n) (drop off (dev_bytes x)))\<rparr>) STATUS_SUCCESS n,
                               STATUS_SUCCESS))"

definition drv_dispatch :: "u64 \<Rightarrow> irp \<Rightarrow> kst \<Rightarrow> (kst \<times> irp \<times> status_t) outcome option" where
  "drv_dispatch dev i s =
     (case dev_driver (k_device s dev) of
        NoDriver \<Rightarrow> None
      | SerialDriver \<Rightarrow> if i_major i = IRP_MJ_WRITE then Some (serial_write_disp i s) else None
      | RamdiskDriver \<Rightarrow>
          if i_major i = IRP_MJ_CREATE \<or> i_major i = IRP_MJ_CLOSE
          then Some (Ret (s, io_complete i STATUS_SUCCESS 0, STATUS_SUCCESS))
          else if i_major i = IRP_MJ_READ then Some (ramdisk_rw dev i False s)
          else if i_major i = IRP_MJ_WRITE then Some (ramdisk_rw dev i True s)
          else None)"

definition io_call_driver :: "u64 \<Rightarrow> irp \<Rightarrow> kst \<Rightarrow> (kst \<times> irp \<times> status_t) outcome" where
  "io_call_driver dev i s =
     (if dev = 0 \<or> dev_driver (k_device s dev) = NoDriver then Ret (s, i, STATUS_INVALID_PARAMETER)
      else if i_major i \<ge> IRP_MJ_MAX then Ret (s, i, STATUS_INVALID_PARAMETER)
      else case drv_dispatch dev (i\<lparr>i_device := dev\<rparr>) s of
             None \<Rightarrow> Ret (s, i, STATUS_NOT_IMPLEMENTED)
           | Some r \<Rightarrow> r)"

definition io_create_device :: "driver \<Rightarrow> u64 \<Rightarrow> string \<Rightarrow> kst \<Rightarrow> (kst \<times> status_t \<times> u64) outcome" where
  "io_create_device drv ext nm s =
     bind_outcome (ob_create OBJ_DEVICE (Some nm) 0 s) (\<lambda>(s1, d).
       if d = 0 then Ret (s1, STATUS_NO_MEMORY, 0)
       else bind_outcome (if ext \<noteq> 0 then k_alloc_zero s1 ext else Ret (s1, 0)) (\<lambda>(s2, x).
              Ret (upd_device d (\<lambda>y. y\<lparr>dev_driver := drv, dev_ext := x\<rparr>) s2, STATUS_SUCCESS, d)))"

definition serial_device_register :: "kst \<Rightarrow> kst outcome" where
  "serial_device_register s =
     bind_outcome (io_create_device SerialDriver 0 ''Serial0'' s) (\<lambda>(s1, st, d). Ret s1)"

text \<open>\<open>sizeof(ramdisk_ext_t)\<close> is 40.  The extension is dereferenced without a check.\<close>

definition ramdisk_init :: "kst \<Rightarrow> kst outcome" where
  "ramdisk_init s =
     bind_outcome (io_create_device RamdiskDriver 40 ''Ramdisk0'' s) (\<lambda>(s1, st, d).
       if \<not> NT_SUCCESS st \<or> d = 0 then Ret s1
       else if dev_ext (k_device s1 d) = 0 then Panic ''null extension''
       else bind_outcome (k_alloc_zero s1 RAMDISK_SIZE) (\<lambda>(s2, b).
              let s3 = upd_device d (\<lambda>y. y\<lparr>dev_size := RAMDISK_SIZE, dev_base := b,
                                          dev_bytes := (if b = 0 then [] else replicate (unat RAMDISK_SIZE) 0)\<rparr>) s2
              in Ret (s3\<lparr>g_ramdisk_dev := d, g_ramdisk_size := (if b = 0 then 0 else RAMDISK_SIZE)\<rparr>)))"

definition io_init :: "kst \<Rightarrow> kst outcome" where
  "io_init s = bind_outcome (serial_device_register s) ramdisk_init"

end
