(* ===== verification/Vfs.thy ===== *)
theory Vfs
  imports Irp
begin

text \<open>
  The file system, \<^verbatim>\<open>kernel/fs/vfs.c\<close>: path normalisation, the walk over the vnode tree, and the
  operations on files and directories of the RAM file system, the console and the RAM disk.  The
  contents of a file are kept with its vnode; a fresh buffer holds what the heap left in it.
\<close>

abbreviation (input) PATH_DEPTH_MAX :: nat where "PATH_DEPTH_MAX \<equiv> 32"
abbreviation (input) FILE_OPEN :: u32 where "FILE_OPEN \<equiv> 1"
abbreviation (input) FILE_CREATE :: u32 where "FILE_CREATE \<equiv> 2"
abbreviation (input) FILE_OPEN_IF :: u32 where "FILE_OPEN_IF \<equiv> 3"
abbreviation (input) FILE_DIRECTORY_FILE :: u32 where "FILE_DIRECTORY_FILE \<equiv> 0x1"
abbreviation (input) FILE_NON_DIRECTORY_FILE :: u32 where "FILE_NON_DIRECTORY_FILE \<equiv> 0x40"

abbreviation (input) SLASH :: char where "SLASH \<equiv> CHR ''/''"

section \<open>Vnodes\<close>

definition vn_alloc :: "string \<Rightarrow> vkind \<Rightarrow> kst \<Rightarrow> (kst \<times> u64) outcome" where
  "vn_alloc nm k s =
     bind_outcome (k_alloc_zero s 184) (\<lambda>(s1, v).
       if v = 0 then Ret (s1, 0)
       else Ret (s1\<lparr>k_vnode := (k_vnode s1)(v := zero_vnode\<lparr>vn_name := cut NAME_MAX nm, vn_kind := k,
                      vn_mode := (if k = VNODE_DIR then 0x1ED else 0x1A4), vn_ref := 1\<rparr>)\<rparr>, v))"

definition vn_attach :: "u64 \<Rightarrow> u64 \<Rightarrow> kst \<Rightarrow> kst" where
  "vn_attach parent child s =
     upd_vnode parent (\<lambda>x. x\<lparr>vn_children := vn_children x @ [child]\<rparr>) (upd_vnode child (\<lambda>x. x\<lparr>vn_parent := parent\<rparr>) s)"

text \<open>The child of a directory with a given name, 0 if there is none.\<close>

definition vn_child :: "kst \<Rightarrow> u64 \<Rightarrow> string \<Rightarrow> u64" where
  "vn_child s dir nm =
     (case find (\<lambda>c. vn_name (k_vnode s c) = nm) (vn_children (k_vnode s dir)) of Some c \<Rightarrow> c | None \<Rightarrow> 0)"

section \<open>Paths\<close>

text \<open>
  The absolute path before normalisation.  A working directory is never empty (it starts as \<open>/\<close>
  and only absolute normalised paths replace it), so \<open>tmp[strlen(tmp) - 1]\<close> is its last character.
\<close>

definition abs_path :: "string \<Rightarrow> string \<Rightarrow> string" where
  "abs_path cwd inp =
     (if inp \<noteq> [] \<and> hd inp = SLASH then cut PATH_MAX inp
      else let tmp = cut PATH_MAX cwd;
               tmp' = (if tmp = [] \<or> last tmp \<noteq> SLASH then cut PATH_MAX (tmp @ [SLASH]) else tmp)
           in cut PATH_MAX (tmp' @ inp))"

text \<open>The loop over the components; the stack \<open>parts\<close> grows at its end.\<close>

function norm_loop :: "string \<Rightarrow> string list \<Rightarrow> string list option" where
  "norm_loop p parts =
     (if p = [] then Some parts
      else let start = takeWhile (\<lambda>c. c \<noteq> SLASH) p; rest = drop (Suc (length start)) p
           in if start = [] \<or> start = ''.'' then norm_loop rest parts
              else if start = ''..'' then norm_loop rest (butlast parts)
              else if length parts \<ge> PATH_DEPTH_MAX then None
              else norm_loop rest (parts @ [start]))"
  by pat_completeness auto
termination by (relation "measure (\<lambda>(p, parts). length p)") auto

declare norm_loop.simps [simp del]

fun join_parts :: "string list \<Rightarrow> string" where
  "join_parts [] = []"
| "join_parts [p] = p"
| "join_parts (p # q # ps) = p @ SLASH # join_parts (q # ps)"

definition path_norm :: "string \<Rightarrow> string \<Rightarrow> nat \<Rightarrow> status_t \<times> string" where
  "path_norm cwd inp cap =
     (if cap < 2 then (STATUS_INVALID_PARAMETER, [])
      else let buf = abs_path cwd inp; s = (if buf \<noteq> [] \<and> hd buf = SLASH then tl buf else buf)
           in case norm_loop s [] of
                None \<Rightarrow> (STATUS_NAME_TOO_LONG, [])
              | Some parts \<Rightarrow> (STATUS_SUCCESS, cut cap (SLASH # join_parts parts)))"

text \<open>
  The walk: a status, or the parent, the leaf (0 if it does not exist) and the name of the leaf.
\<close>

function walk_loop :: "kst \<Rightarrow> u64 \<Rightarrow> string \<Rightarrow> bool \<Rightarrow> status_t + (u64 \<times> u64 \<times> string)" where
  "walk_loop s cur p must =
     (if p = [] then Inr (cur, cur, [])
      else let comp = take (NAME_MAX - 1) (takeWhile (\<lambda>c. c \<noteq> SLASH) p);
               more = (drop (length comp) p \<noteq> [] \<and> hd (drop (length comp) p) = SLASH);
               p1 = (if more then tl (drop (length comp) p) else drop (length comp) p);
               nxt = vn_child s cur comp
           in if p1 = [] \<and> \<not> more
              then if nxt = 0 \<and> must then Inl STATUS_NO_SUCH_FILE else Inr (cur, nxt, cut NAME_MAX comp)
              else if nxt = 0 \<or> vn_kind (k_vnode s nxt) \<noteq> VNODE_DIR then Inl STATUS_OBJECT_PATH_NOT_FOUND
              else let p2 = dropWhile (\<lambda>c. c = SLASH) p1
                   in if p2 = [] then Inr (cur, nxt, []) else walk_loop s nxt p2 must)"
  by pat_completeness auto
termination
proof (relation "measure (\<lambda>(s, cur, p, must). length p)", goal_cases)
  case (2 s cur p must comp more p1 nxt p2)
  have "length p1 < length p"
  proof (cases "hd p = SLASH")
    case True
    then show ?thesis using 2(1-4) by (cases p) auto
  next
    case False
    then have "takeWhile (\<lambda>c. c \<noteq> SLASH) p \<noteq> []" using 2(1) by (cases p) auto
    then have "0 < length comp" using 2(2) by simp
    then show ?thesis using 2(1,4) by (cases more) auto
  qed
  moreover have "length p2 \<le> length p1" using 2(8) by (simp add: length_dropWhile_le)
  ultimately show ?case by simp
qed auto

declare walk_loop.simps [simp del]

definition vfs_walk :: "kst \<Rightarrow> string \<Rightarrow> bool \<Rightarrow> status_t + (u64 \<times> u64 \<times> string)" where
  "vfs_walk s apath must =
     (if apath = [] \<or> hd apath \<noteq> SLASH then Inl STATUS_OBJECT_NAME_INVALID
      else walk_loop s (g_root_vnode s) (tl apath) must)"

definition cur_cwd :: "kst \<Rightarrow> string" where
  "cur_cwd s = (if k_current_process s \<noteq> 0 then pr_cwd (k_proc s (k_current_process s)) else ''/'')"

definition norm_cwd :: "string \<Rightarrow> kst \<Rightarrow> status_t \<times> string" where
  "norm_cwd path s = path_norm (cur_cwd s) path PATH_MAX"

section \<open>Directories and opening\<close>

definition ramfs_init :: "kst \<Rightarrow> kst outcome" where
  "ramfs_init s =
     bind_outcome (vn_alloc [] VNODE_DIR s) (\<lambda>(s1, r).
       if r = 0 then Panic ''ramfs root'' else Ret (s1\<lparr>g_root_vnode := r\<rparr>))"

definition vfs_mkdir :: "string \<Rightarrow> kst \<Rightarrow> (kst \<times> status_t) outcome" where
  "vfs_mkdir path s =
     (let (st, apath) = norm_cwd path s
      in if \<not> NT_SUCCESS st then Ret (s, st)
         else case vfs_walk s apath False of
                Inl st \<Rightarrow> Ret (s, st)
              | Inr (parent, exist, leaf) \<Rightarrow>
                  if exist \<noteq> 0 then Ret (s, STATUS_OBJECT_NAME_COLLISION)
                  else if leaf = [] then Ret (s, STATUS_INVALID_PARAMETER)
                  else bind_outcome (vn_alloc leaf VNODE_DIR s) (\<lambda>(s1, d).
                         if d = 0 then Ret (s1, STATUS_NO_MEMORY)
                         else if vn_child s1 parent leaf \<noteq> 0
                         then bind_outcome (k_free s1 d) (\<lambda>s2. Ret (s2, STATUS_OBJECT_NAME_COLLISION))
                         else Ret (vn_attach parent d s1, STATUS_SUCCESS)))"

definition vn_pin :: "u64 \<Rightarrow> kst \<Rightarrow> kst" where
  "vn_pin v s = upd_vnode v (\<lambda>x. x\<lparr>vn_ref := vn_ref x + 1\<rparr>) s"

definition fo_from_pinned :: "u64 \<Rightarrow> access_t \<Rightarrow> kst \<Rightarrow> (kst \<times> u64) outcome" where
  "fo_from_pinned v access s =
     bind_outcome (ob_create OBJ_FILE (Some (vn_name (k_vnode s v))) 0 s) (\<lambda>(s1, f).
       if f = 0 then bind_outcome (vn_release v s1) (\<lambda>s2. Ret (s2, 0))
       else Ret (upd_file f (\<lambda>x. \<lparr>f_vnode = v, f_offset = 0, f_access = access\<rparr>) s1, f))"

text \<open>
  The part of \<open>vfs_open\<close> between the walk and the file object: the vnode to open, pinned, or a
  status.
\<close>

definition open_vnode :: "u64 \<Rightarrow> u64 \<Rightarrow> string \<Rightarrow> u32 \<Rightarrow> u32 \<Rightarrow> kst \<Rightarrow> (kst \<times> (status_t + u64)) outcome" where
  "open_vnode parent v leaf disp opts s =
     (if v \<noteq> 0 \<and> vn_kind (k_vnode s v) = VNODE_DIR \<and> opts AND FILE_NON_DIRECTORY_FILE \<noteq> 0
      then Ret (s, Inl STATUS_FILE_IS_A_DIRECTORY)
      else if v \<noteq> 0 \<and> vn_kind (k_vnode s v) \<noteq> VNODE_DIR \<and> opts AND FILE_DIRECTORY_FILE \<noteq> 0
      then Ret (s, Inl STATUS_NOT_A_DIRECTORY)
      else if v = 0
      then if disp = FILE_OPEN then Ret (s, Inl STATUS_NO_SUCH_FILE)
           else if leaf = [] then Ret (s, Inl STATUS_INVALID_PARAMETER)
           else bind_outcome (vn_alloc leaf (if opts AND FILE_DIRECTORY_FILE \<noteq> 0 then VNODE_DIR else VNODE_FILE) s)
             (\<lambda>(s1, nv).
                if nv = 0 then Ret (s1, Inl STATUS_NO_MEMORY)
                else let race = vn_child s1 parent leaf
                     in if race \<noteq> 0
                        then bind_outcome (k_free (vn_pin race s1) nv) (\<lambda>s2. Ret (s2, Inr race))
                        else Ret (vn_pin nv (vn_attach parent nv s1), Inr nv))
      else if disp = FILE_CREATE then Ret (s, Inl STATUS_OBJECT_NAME_COLLISION)
      else if v \<noteq> g_root_vnode s \<and>
              (vn_parent (k_vnode s v) = 0 \<or> vn_child s (vn_parent (k_vnode s v)) (vn_name (k_vnode s v)) \<noteq> v)
      then Ret (s, Inl STATUS_NO_SUCH_FILE)
      else Ret (vn_pin v s, Inr v))"

text \<open>
  A failed walk ends the call only for \<open>FILE_OPEN\<close>; for the other dispositions the code goes on
  with the local variables as they were.
\<close>

definition vfs_open :: "string \<Rightarrow> access_t \<Rightarrow> u32 \<Rightarrow> u32 \<Rightarrow> kst \<Rightarrow> (kst \<times> status_t \<times> u64) outcome" where
  "vfs_open path access disp opts s =
     (let (st, apath) = norm_cwd path s
      in if \<not> NT_SUCCESS st then Ret (s, st, 0)
         else let r = vfs_walk s apath (disp = FILE_OPEN)
              in if isl r \<and> disp = FILE_OPEN then Ret (s, projl r, 0)
                 else let (parent, v, leaf) = (if isl r then k_stale s else projr r)
                      in bind_outcome (open_vnode parent v leaf disp opts s) (\<lambda>(s1, res).
                           case res of
                             Inl st \<Rightarrow> Ret (s1, st, 0)
                           | Inr v' \<Rightarrow>
                               bind_outcome (fo_from_pinned v' access s1) (\<lambda>(s2, f).
                                 if f = 0 then Ret (s2, STATUS_NO_MEMORY, 0) else Ret (s2, STATUS_SUCCESS, f))))"

definition vfs_create :: "string \<Rightarrow> kst \<Rightarrow> (kst \<times> status_t \<times> u64) outcome" where
  "vfs_create path s = vfs_open path (FILE_READ_DATA OR FILE_WRITE_DATA) FILE_CREATE FILE_NON_DIRECTORY_FILE s"

section \<open>Reading and writing\<close>

text \<open>The console: characters until one is missing, the count is reached or a line ends.\<close>

fun read_line :: "nat \<Rightarrow> u8 list \<Rightarrow> u8 list" where
  "read_line 0 inp = []"
| "read_line (Suc n) [] = []"
| "read_line (Suc n) (c # cs) = c # (if c = 10 then [] else read_line n cs)"

definition block_io :: "u64 \<Rightarrow> u64 \<Rightarrow> nat \<Rightarrow> u8 list \<Rightarrow> u64 \<Rightarrow> kst \<Rightarrow> (kst \<times> status_t \<times> irp option) outcome" where
  "block_io f dev major buf n s =
     (if dev = 0 then Ret (s, STATUS_NO_SUCH_FILE, None)
      else bind_outcome (io_alloc_irp major s) (\<lambda>(s1, io).
        case io of
          None \<Rightarrow> Ret (s1, STATUS_NO_MEMORY, None)
        | Some i \<Rightarrow>
            bind_outcome (io_call_driver dev (i\<lparr>i_buffer := Some buf, i_length := n, i_offset := f_offset (k_file s1 f)\<rparr>) s1)
              (\<lambda>(s2, i2, st).
                 let s3 = upd_file f (\<lambda>x. x\<lparr>f_offset := f_offset x + i_information i2\<rparr>) s2
                 in bind_outcome (io_free_irp i2 s3) (\<lambda>s4. Ret (s4, st, Some i2)))))"

definition vfs_read :: "u64 \<Rightarrow> u64 \<Rightarrow> kst \<Rightarrow> (kst \<times> status_t \<times> u8 list) outcome" where
  "vfs_read f n s =
     (if f = 0 then Ret (s, STATUS_INVALID_PARAMETER, [])
      else if f_access (k_file s f) AND FILE_READ_DATA = 0 \<and> f_access (k_file s f) AND GENERIC_READ = 0
      then Ret (s, STATUS_ACCESS_DENIED, [])
      else let v = f_vnode (k_file s f); vn = k_vnode s v
           in case vn_kind vn of
                VNODE_CHAR \<Rightarrow>
                  let bs = read_line (unat n) (k_serial_in s)
                  in Ret (s\<lparr>k_serial_in := drop (length bs) (k_serial_in s)\<rparr>, read_status bs, bs)
              | VNODE_BLOCK \<Rightarrow>
                  bind_outcome (block_io f (vn_device vn) IRP_MJ_READ [] n s) (\<lambda>(s1, st, io).
                    Ret (s1, st, case io of Some i \<Rightarrow> take (unat (i_information i)) (the (i_buffer i)) | None \<Rightarrow> []))
              | VNODE_DIR \<Rightarrow> Ret (s, STATUS_INVALID_PARAMETER, [])
              | VNODE_FILE \<Rightarrow>
                  let off = f_offset (k_file s f)
                  in if off \<ge> vn_size vn then Ret (s, STATUS_END_OF_FILE, [])
                     else let nread = min n (vn_size vn - off)
                          in Ret (upd_file f (\<lambda>x. x\<lparr>f_offset := f_offset x + nread\<rparr>) s, STATUS_SUCCESS,
                                  take (unat nread) (drop (unat off) (vn_bytes vn))))"

definition fresh_bytes :: "kst \<Rightarrow> u64 \<Rightarrow> u64 \<Rightarrow> u8 list" where
  "fresh_bytes s p n = ram_read (g_ram (h_pmm (k_heap s))) (p - HHDM_BASE) (unat n)"

definition grow_cap :: "u64 \<Rightarrow> u64 \<Rightarrow> u64" where
  "grow_cap need cap = PAGE_ALIGN_UP (max need (if cap \<noteq> 0 then cap * 2 else 256))"

text \<open>
  Making room for \<open>need\<close> bytes: the new buffer takes the old contents, and the old buffer is
  freed after the write.  \<open>None\<close> is an allocation failure.
\<close>

definition vn_reserve :: "u64 \<Rightarrow> u64 \<Rightarrow> kst \<Rightarrow> (kst \<times> u64 option) outcome" where
  "vn_reserve v need s =
     (if need > vn_cap (k_vnode s v)
      then let ncap = grow_cap need (vn_cap (k_vnode s v))
           in bind_outcome (k_alloc s ncap) (\<lambda>(s1, nd).
                if nd = 0 then Ret (s1, None)
                else let vn = k_vnode s1 v; sz = unat (vn_size vn);
                         old = (if vn_data vn \<noteq> 0 then take sz (vn_bytes vn) else [])
                     in Ret (upd_vnode v (\<lambda>x. x\<lparr>vn_data := nd, vn_cap := ncap,
                                           vn_bytes := old @ drop (length old) (fresh_bytes s1 nd ncap)\<rparr>) s1,
                             Some (vn_data vn)))
      else Ret (s, Some 0))"

definition file_write :: "u64 \<Rightarrow> u64 \<Rightarrow> u8 list \<Rightarrow> kst \<Rightarrow> (kst \<times> status_t \<times> u64) outcome" where
  "file_write f v buf s =
     (let append = (f_access (k_file s f) AND FILE_APPEND_DATA \<noteq> 0); n = of_nat (length buf);
          off = (if append then vn_size (k_vnode s v) else f_offset (k_file s f))
      in bind_outcome (vn_reserve v (off + n) s) (\<lambda>(s1, room).
           case room of
             None \<Rightarrow> Ret (s1, STATUS_NO_MEMORY, 0)
           | Some recycle \<Rightarrow>
               if unat off + length buf > length (vn_bytes (k_vnode s1 v)) then Panic ''file copy''
               else let s2 = upd_vnode v (\<lambda>x. x\<lparr>vn_bytes := splice (unat off) buf (vn_bytes x),
                                              vn_size := (if off + n > vn_size x then off + n else vn_size x)\<rparr>) s1;
                        s3 = upd_file f (\<lambda>x. x\<lparr>f_offset := off + n\<rparr>) s2
                    in bind_outcome (if recycle \<noteq> 0 then k_free s3 recycle else Ret s3) (\<lambda>s4. Ret (s4, STATUS_SUCCESS, n))))"

definition vfs_write :: "u64 \<Rightarrow> u8 list \<Rightarrow> kst \<Rightarrow> (kst \<times> status_t \<times> u64) outcome" where
  "vfs_write f buf s =
     (if f = 0 then Ret (s, STATUS_INVALID_PARAMETER, 0)
      else let acc = f_access (k_file s f)
           in if acc AND FILE_WRITE_DATA = 0 \<and> acc AND FILE_APPEND_DATA = 0 \<and> acc AND GENERIC_WRITE = 0
              then Ret (s, STATUS_ACCESS_DENIED, 0)
              else let v = f_vnode (k_file s f); vn = k_vnode s v; n = of_nat (length buf)
                   in case vn_kind vn of
                        VNODE_CHAR \<Rightarrow> Ret (s\<lparr>k_serial_out := k_serial_out s @ buf\<rparr>, STATUS_SUCCESS, n)
                      | VNODE_BLOCK \<Rightarrow>
                          bind_outcome (block_io f (vn_device vn) IRP_MJ_WRITE buf n s) (\<lambda>(s1, st, io).
                            Ret (s1, st, case io of Some i \<Rightarrow> i_information i | None \<Rightarrow> 0))
                      | VNODE_DIR \<Rightarrow> Ret (s, STATUS_FILE_IS_A_DIRECTORY, 0)
                      | VNODE_FILE \<Rightarrow> file_write f v buf s)"

section \<open>Directory listing, stat and unlink\<close>

text \<open>The entries from the file offset on, one per line, as many as fit; with the number listed.\<close>

fun list_loop :: "kst \<Rightarrow> nat \<Rightarrow> u64 list \<Rightarrow> string \<Rightarrow> nat \<Rightarrow> string \<times> nat" where
  "list_loop s cap [] text k = (text, k)"
| "list_loop s cap (c # cs) text k =
     (let nm = vn_name (k_vnode s c)
      in if length text + (length nm + 2) \<ge> cap then (text, k)
         else list_loop s cap cs (text @ (if text \<noteq> [] then [CHR 0x0A] else []) @ nm) (Suc k))"

definition vfs_readdir :: "u64 \<Rightarrow> nat \<Rightarrow> bool \<Rightarrow> kst \<Rightarrow> kst \<times> status_t \<times> string" where
  "vfs_readdir f cap restart s =
     (if f = 0 then (s, STATUS_INVALID_PARAMETER, [])
      else let v = f_vnode (k_file s f)
           in if vn_kind (k_vnode s v) \<noteq> VNODE_DIR then (s, STATUS_NOT_A_DIRECTORY, [])
              else let off = (if restart then 0 else f_offset (k_file s f));
                       (text, k) = list_loop s cap (drop (unat off) (vn_children (k_vnode s v))) [] 0
                   in (upd_file f (\<lambda>x. x\<lparr>f_offset := off + of_nat k\<rparr>) s,
                       if text \<noteq> [] then STATUS_SUCCESS else STATUS_END_OF_FILE, text))"

definition vfs_stat_path :: "string \<Rightarrow> kst \<Rightarrow> status_t \<times> u64" where
  "vfs_stat_path path s =
     (let (st, apath) = norm_cwd path s
      in if \<not> NT_SUCCESS st then (st, 0)
         else case vfs_walk s apath True of
                Inl st \<Rightarrow> (st, 0)
              | Inr (parent, v, leaf) \<Rightarrow> if v = 0 then (STATUS_NO_SUCH_FILE, 0) else (STATUS_SUCCESS, v))"

definition vn_detach :: "u64 \<Rightarrow> u64 \<Rightarrow> kst \<Rightarrow> kst" where
  "vn_detach parent v s =
     upd_vnode v (\<lambda>x. x\<lparr>vn_parent := 0\<rparr>) (upd_vnode parent (\<lambda>x. x\<lparr>vn_children := remove1 v (vn_children x)\<rparr>) s)"

definition vfs_unlink :: "string \<Rightarrow> kst \<Rightarrow> (kst \<times> status_t) outcome" where
  "vfs_unlink path s =
     (let (st, apath) = norm_cwd path s
      in if \<not> NT_SUCCESS st then Ret (s, st)
         else if apath = ''/'' then Ret (s, STATUS_ACCESS_DENIED)
         else case vfs_walk s apath True of
                Inl st \<Rightarrow> Ret (s, STATUS_NO_SUCH_FILE)
              | Inr (parent, v, leaf) \<Rightarrow>
                  if v = 0 then Ret (s, STATUS_NO_SUCH_FILE)
                  else if v = g_root_vnode s then Ret (s, STATUS_ACCESS_DENIED)
                  else if vn_kind (k_vnode s v) = VNODE_CHAR \<or> vn_kind (k_vnode s v) = VNODE_BLOCK
                  then Ret (s, STATUS_ACCESS_DENIED)
                  else if parent = 0 \<or> vn_child s parent leaf \<noteq> v then Ret (s, STATUS_NO_SUCH_FILE)
                  else if vn_kind (k_vnode s v) = VNODE_DIR \<and> vn_children (k_vnode s v) \<noteq> []
                  then Ret (s, STATUS_CANNOT_DELETE)
                  else bind_outcome (vn_release v (vn_detach parent v s)) (\<lambda>s1. Ret (s1, STATUS_SUCCESS)))"

section \<open>Whole files and the initial tree\<close>

definition vfs_write_bytes :: "string \<Rightarrow> u8 list \<Rightarrow> kst \<Rightarrow> (kst \<times> status_t) outcome" where
  "vfs_write_bytes path data s =
     bind_outcome (vfs_open path FILE_WRITE_DATA FILE_OPEN_IF FILE_NON_DIRECTORY_FILE s) (\<lambda>(s1, st, f).
       if \<not> NT_SUCCESS st then Ret (s1, st)
       else bind_outcome (vfs_write f data s1) (\<lambda>(s2, st2, put).
            bind_outcome (ob_dereference f s2) (\<lambda>s3. Ret (s3, st2))))"

text \<open>The buffer is returned as its address and its contents.\<close>

definition vfs_read_all :: "string \<Rightarrow> kst \<Rightarrow> (kst \<times> status_t \<times> u64 \<times> u8 list) outcome" where
  "vfs_read_all path s =
     bind_outcome (vfs_open path FILE_READ_DATA FILE_OPEN FILE_NON_DIRECTORY_FILE s) (\<lambda>(s1, st, f).
       if \<not> NT_SUCCESS st then Ret (s1, st, 0, [])
       else let v = f_vnode (k_file s1 f)
            in bind_outcome (k_alloc s1 (vn_size (k_vnode s1 v) + 1)) (\<lambda>(s2, buf).
               if buf = 0 then bind_outcome (ob_dereference f s2) (\<lambda>s3. Ret (s3, STATUS_NO_MEMORY, 0, []))
               else let vn = k_vnode s2 v;
                        bs = (if vn_size vn \<noteq> 0 \<and> vn_data vn \<noteq> 0 then take (unat (vn_size vn)) (vn_bytes vn)
                              else fresh_bytes s2 buf (vn_size vn))
                    in bind_outcome (ob_dereference f s2) (\<lambda>s3. Ret (s3, STATUS_SUCCESS, buf, bs))))"

definition bytes_of :: "string \<Rightarrow> u8 list" where
  "bytes_of t = map of_char t"

definition seed_file :: "string \<Rightarrow> string \<Rightarrow> kst \<Rightarrow> (kst \<times> status_t) outcome" where
  "seed_file path text s =
     bind_outcome (vfs_open path FILE_WRITE_DATA FILE_CREATE FILE_NON_DIRECTORY_FILE s) (\<lambda>(s1, st, f).
     bind_outcome (if NT_SUCCESS st then Ret (s1, st, f)
                   else vfs_open path FILE_WRITE_DATA FILE_OPEN_IF FILE_NON_DIRECTORY_FILE s1) (\<lambda>(s2, st2, f2).
       if \<not> NT_SUCCESS st2 then Ret (s2, st2)
       else bind_outcome (vfs_write f2 (bytes_of text) s2) (\<lambda>(s3, st3, n).
            bind_outcome (ob_dereference f2 s3) (\<lambda>s4. Ret (s4, st3)))))"

fun seq_all :: "(kst \<Rightarrow> (kst \<times> status_t) outcome) list \<Rightarrow> kst \<Rightarrow> kst outcome" where
  "seq_all [] s = Ret s"
| "seq_all (c # cs) s = bind_outcome (c s) (\<lambda>(s1, st). seq_all cs s1)"

definition seed_devices :: "kst \<Rightarrow> kst outcome" where
  "seed_devices s =
     (case vfs_walk s ''/dev'' True of
        Inl st \<Rightarrow> Ret s
      | Inr (parent, v, leaf) \<Rightarrow>
          if v = 0 then Ret s
          else bind_outcome (vn_alloc ''console'' VNODE_CHAR s) (\<lambda>(s1, con).
               let s2 = (if con \<noteq> 0 then vn_attach v con s1 else s1)
               in bind_outcome (vn_alloc ''ram0'' VNODE_BLOCK s2) (\<lambda>(s3, rd).
                    Ret (if rd \<noteq> 0
                         then vn_attach v rd (upd_vnode rd (\<lambda>x. x\<lparr>vn_device := g_ramdisk_dev s3, vn_size := g_ramdisk_size s3\<rparr>) s3)
                         else s3))))"

text \<open>
  The program images are headers the build generates; \<open>blob\<close> is the image where the header
  exists, and a program without one gets the stand-in \<open>other\<close>.
\<close>

definition seed_program ::
    "string \<Rightarrow> u8 list option \<Rightarrow> (kst \<Rightarrow> (kst \<times> status_t) outcome) \<Rightarrow> kst \<Rightarrow> (kst \<times> status_t) outcome" where
  "seed_program path blob other s =
     (case blob of
        Some b \<Rightarrow> if length b > 64 then vfs_write_bytes path b s else other s
      | None \<Rightarrow> other s)"

definition vfs_seed_initrd :: "(string \<Rightarrow> u8 list option) \<Rightarrow> u8 list \<Rightarrow> string \<Rightarrow> string \<Rightarrow> kst \<Rightarrow> kst outcome" where
  "vfs_seed_initrd blobs mini motd version s =
     bind_outcome (seq_all (map vfs_mkdir [''/bin'', ''/etc'', ''/tmp'', ''/proc'', ''/dev'', ''/usr'', ''/usr/share'']) s) (\<lambda>s1.
     bind_outcome (seed_devices s1) (\<lambda>s2.
       seq_all
         ([seed_file ''/etc/motd'' motd, seed_file ''/etc/hostname'' (''aegis'' @ [CHR 0x0A]), seed_file ''/etc/version'' version,
           seed_file ''/usr/share/welcome''
             (''Welcome to jasOS.'' @ [CHR 0x0A] @ ''This is an operating system, not a website.'' @ [CHR 0x0A]),
           seed_file ''/bin/sh'' (''BUILTIN'' @ [CHR 0x0A]),
           seed_program ''/bin/hello'' (blobs ''hello'') (vfs_write_bytes ''/bin/hello'' mini)] @
          map (\<lambda>n. seed_program (''/bin/'' @ n) (blobs n) (seed_file (''/bin/'' @ n) (''MISSING_ELF'' @ [CHR 0x0A])))
            [''echo'', ''ls'', ''cat'', ''ps'', ''crash'']) s2))"

end
