(* ===== verification/Elf.thy ===== *)
theory Elf
  imports Vfs
begin

text \<open>
  The ELF64 loader, \<^verbatim>\<open>kernel/fs/elf.c\<close>: the checks of the header and of the program headers, the
  mapping of the segments, and the built-in minimal image.  The image is a list of bytes; an
  access outside it is \<open>Panic\<close>, since the code would touch other heap memory there.
\<close>

abbreviation (input) PF_X :: u32 where "PF_X \<equiv> 1"
abbreviation (input) PF_W :: u32 where "PF_W \<equiv> 2"
abbreviation (input) PT_LOAD :: u32 where "PT_LOAD \<equiv> 1"
abbreviation (input) PT_DYNAMIC :: u32 where "PT_DYNAMIC \<equiv> 2"
abbreviation (input) PT_INTERP :: u32 where "PT_INTERP \<equiv> 3"
abbreviation (input) PT_GNU_STACK :: u32 where "PT_GNU_STACK \<equiv> 0x6474E551"

section \<open>Headers\<close>

fun le_val :: "u8 list \<Rightarrow> nat" where
  "le_val [] = 0"
| "le_val (b # bs) = unat b + 256 * le_val bs"

definition field :: "u8 list \<Rightarrow> nat \<Rightarrow> nat \<Rightarrow> nat" where
  "field img off len = le_val (take len (drop off img))"

record elf64_ehdr =
  e_ident :: "u8 list"
  e_type :: u16
  e_machine :: u16
  e_entry :: u64
  e_phoff :: u64
  e_phentsize :: u16
  e_phnum :: u16

record elf64_phdr =
  p_type :: u32
  p_flags :: u32
  p_offset :: u64
  p_vaddr :: u64
  p_filesz :: u64
  p_memsz :: u64

definition ehdr_at :: "u8 list \<Rightarrow> elf64_ehdr" where
  "ehdr_at img =
     \<lparr>e_ident = take 16 img, e_type = of_nat (field img 16 2), e_machine = of_nat (field img 18 2),
      e_entry = of_nat (field img 24 8), e_phoff = of_nat (field img 32 8),
      e_phentsize = of_nat (field img 54 2), e_phnum = of_nat (field img 56 2)\<rparr>"

definition phdr_at :: "u8 list \<Rightarrow> nat \<Rightarrow> elf64_phdr" where
  "phdr_at img o' =
     \<lparr>p_type = of_nat (field img o' 4), p_flags = of_nat (field img (o' + 4) 4), p_offset = of_nat (field img (o' + 8) 8),
      p_vaddr = of_nat (field img (o' + 16) 8), p_filesz = of_nat (field img (o' + 32) 8),
      p_memsz = of_nat (field img (o' + 40) 8)\<rparr>"

definition check_ehdr :: "elf64_ehdr \<Rightarrow> u64 \<Rightarrow> status_t" where
  "check_ehdr eh len =
     (if e_ident eh ! 0 \<noteq> 0x7F \<or> e_ident eh ! 1 \<noteq> 0x45 \<or> e_ident eh ! 2 \<noteq> 0x4C \<or> e_ident eh ! 3 \<noteq> 0x46
      then STATUS_INVALID_IMAGE_FORMAT
      else if e_ident eh ! 4 \<noteq> 2 \<or> e_ident eh ! 5 \<noteq> 1 then STATUS_INVALID_IMAGE_FORMAT
      else if e_machine eh \<noteq> 62 then STATUS_INVALID_IMAGE_FORMAT
      else if e_type eh = 3 then STATUS_NOT_SUPPORTED
      else if e_type eh \<noteq> 2 then STATUS_INVALID_IMAGE_FORMAT
      else if e_phentsize eh \<noteq> 56 \<or> e_phnum eh = 0 \<or> e_phnum eh > 32 then STATUS_INVALID_IMAGE_FORMAT
      else if e_phoff eh + ucast (e_phnum eh) * 56 > len then STATUS_INVALID_IMAGE_FORMAT
      else if e_entry eh > USER_CANONICAL_TOP then STATUS_INVALID_IMAGE_FORMAT
      else STATUS_SUCCESS)"

text \<open>The policy for one program header.\<close>

definition check_phdr :: "elf64_phdr \<Rightarrow> u64 \<Rightarrow> status_t" where
  "check_phdr ph len =
     (if p_type ph = PT_INTERP \<or> p_type ph = PT_DYNAMIC then STATUS_NOT_SUPPORTED
      else if p_type ph = PT_GNU_STACK
      then (if p_flags ph AND PF_X \<noteq> 0 then STATUS_INVALID_IMAGE_FORMAT else STATUS_SUCCESS)
      else if p_type ph \<noteq> PT_LOAD then STATUS_SUCCESS
      else if p_flags ph AND (PF_W OR PF_X) = (PF_W OR PF_X) then STATUS_INVALID_IMAGE_FORMAT
      else if p_vaddr ph > USER_CANONICAL_TOP then STATUS_ACCESS_VIOLATION
      else if p_memsz ph < p_filesz ph then STATUS_INVALID_IMAGE_FORMAT
      else if p_offset ph + p_filesz ph > len then STATUS_INVALID_IMAGE_FORMAT
      else STATUS_SUCCESS)"

fun check_phdrs :: "elf64_phdr list \<Rightarrow> u64 \<Rightarrow> status_t" where
  "check_phdrs [] len = STATUS_SUCCESS"
| "check_phdrs (ph # phs) len =
     (if NT_SUCCESS (check_phdr ph len) then check_phdrs phs len else check_phdr ph len)"

section \<open>Loading\<close>

definition seg_prot :: "u32 \<Rightarrow> u32" where
  "seg_prot flags =
     (if flags AND PF_X \<noteq> 0 then PAGE_EXECUTE_READ else if flags AND PF_W \<noteq> 0 then PAGE_READWRITE else PAGE_READONLY)"

definition load_segment :: "u64 \<Rightarrow> u8 list \<Rightarrow> elf64_phdr \<Rightarrow> kst \<Rightarrow> (kst \<times> status_t) outcome" where
  "load_segment p img ph s =
     (let va = PAGE_ALIGN_DOWN (p_vaddr ph); sz = PAGE_ALIGN_UP (p_vaddr ph + p_memsz ph) - va
      in bind_outcome (vmm_alloc_user (k_heap s) (pr_aspace (k_proc s p)) va sz (seg_prot (p_flags ph)) MEM_COMMIT)
           (\<lambda>(h, as, base, st).
              let s1 = k_set_aspace p h as s
              in if \<not> NT_SUCCESS st then Ret (s1, st)
                 else if p_filesz ph = 0 then Ret (s1, STATUS_SUCCESS)
                 else if unat (p_offset ph) + unat (p_filesz ph) > length img then Panic ''elf image copy''
                 else bind_outcome
                        (vmm_write_aspace (h_pmm h) as (p_vaddr ph)
                          (take (unat (p_filesz ph)) (drop (unat (p_offset ph)) img)))
                        (\<lambda>(pm, st2). Ret (k_set_pmm pm s1, st2))))"

fun load_segments :: "u64 \<Rightarrow> u8 list \<Rightarrow> elf64_phdr list \<Rightarrow> kst \<Rightarrow> (kst \<times> status_t) outcome" where
  "load_segments p img [] s = Ret (s, STATUS_SUCCESS)"
| "load_segments p img (ph # phs) s =
     (if p_type ph \<noteq> PT_LOAD then load_segments p img phs s
      else bind_outcome (load_segment p img ph s) (\<lambda>(s1, st).
             if NT_SUCCESS st then load_segments p img phs s1 else Ret (s1, st)))"

definition elf_load :: "u64 \<Rightarrow> u8 list \<Rightarrow> kst \<Rightarrow> (kst \<times> status_t \<times> virt_t) outcome" where
  "elf_load p img s =
     (if p = 0 \<or> length img < 64 then Ret (s, STATUS_INVALID_IMAGE_FORMAT, 0)
      else let eh = ehdr_at img; len = of_nat (length img); st = check_ehdr eh len
           in if \<not> NT_SUCCESS st then Ret (s, st, 0)
              else if unat (e_phoff eh) + unat (e_phnum eh) * 56 > length img then Panic ''elf header read''
              else let phs = map (\<lambda>i. phdr_at img (unat (e_phoff eh) + 56 * i)) [0..<unat (e_phnum eh)];
                       st2 = check_phdrs phs len
                   in if \<not> NT_SUCCESS st2 then Ret (s, st2, 0)
                      else bind_outcome (load_segments p img phs s) (\<lambda>(s1, st3).
                             Ret (s1, st3, if NT_SUCCESS st3 then e_entry eh else 0)))"

section \<open>The built-in image\<close>

text \<open>The stores of \<open>elf_make_minimal_hello\<close> into the zeroed buffer, in program order.\<close>

definition mini_stores :: "(nat \<times> u8) list" where
  "mini_stores =
     [(0, 0x7F), (1, 0x45), (2, 0x4C), (3, 0x46), (4, 2), (5, 1), (6, 1), (16, 2), (17, 0), (18, 62), (19, 0),
      (20, 1), (21, 0), (22, 0), (23, 0), (24, 0), (25, 0), (26, 0x40), (27, 0), (32, 64), (52, 64), (53, 0),
      (54, 56), (55, 0), (56, 1), (57, 0), (64, 1), (68, 5), (80, 0), (81, 0), (82, 0x40), (83, 0), (88, 0), (89, 0),
      (90, 0x40), (91, 0), (96, 0x80), (104, 0x80), (112, 0), (113, 0x10), (24, 0x70), (0x70, 0xC3)]"

definition elf_make_minimal_hello :: "nat \<Rightarrow> u8 list" where
  "elf_make_minimal_hello cap =
     (if cap < 0x80 then [] else fold (\<lambda>(i, b) out. out[i := b]) mini_stores (replicate cap 0))"

end
