(* ===== verification/Exec.thy ===== *)
theory Exec
  imports Elf
begin

text \<open>
  Spawning images and the calls of \<^verbatim>\<open>kernel/ke/exec.c\<close>: the argument block on the initial user
  stack, process creation, thread termination, handle duplication and the directory objects.
\<close>

abbreviation (input) USER_ARGC_MAX :: nat where "USER_ARGC_MAX \<equiv> 16"
abbreviation (input) USER_ARG_LEN :: nat where "USER_ARG_LEN \<equiv> 128"
abbreviation (input) USER_ENVC_MAX :: nat where "USER_ENVC_MAX \<equiv> 16"
abbreviation (input) CREATE_NO_IMAGE :: u32 where "CREATE_NO_IMAGE \<equiv> 0x2"
abbreviation (input) DUPLICATE_CLOSE_SOURCE :: u32 where "DUPLICATE_CLOSE_SOURCE \<equiv> 0x1"
abbreviation (input) DUPLICATE_SAME_ACCESS :: u32 where "DUPLICATE_SAME_ACCESS \<equiv> 0x2"
abbreviation (input) DUPLICATE_INHERIT :: u32 where "DUPLICATE_INHERIT \<equiv> 0x4"

section \<open>Arguments\<close>

definition builtin_lookup :: "string \<Rightarrow> bool" where
  "builtin_lookup path \<longleftrightarrow> path = ''/bin/sh''"

text \<open>An argument vector: \<open>None\<close> is a null vector, a \<open>None\<close> element a null string.\<close>

type_synonym arg_vector = "string option list option"

definition arg_text :: "string option \<Rightarrow> string" where
  "arg_text a = (case a of None \<Rightarrow> [] | Some x \<Rightarrow> cut USER_ARG_LEN x)"

definition psp_copy_argv :: "u64 \<Rightarrow> arg_vector \<Rightarrow> nat \<Rightarrow> kst \<Rightarrow> kst \<times> status_t" where
  "psp_copy_argv p argv argc s =
     (if p = 0 \<or> argc > USER_ARGC_MAX \<or> (argc \<noteq> 0 \<and> argv = None) then (s, STATUS_INVALID_PARAMETER)
      else if argc = 0
      then (upd_proc p (\<lambda>x. x\<lparr>pr_argv := [cut USER_ARG_LEN (if pr_image x \<noteq> [] then pr_image x else ''unknown'')]\<rparr>) s, STATUS_SUCCESS)
      else (upd_proc p (\<lambda>x. x\<lparr>pr_argv := map arg_text (take argc (the argv))\<rparr>) s, STATUS_SUCCESS))"

definition psp_copy_envp :: "u64 \<Rightarrow> arg_vector \<Rightarrow> nat \<Rightarrow> kst \<Rightarrow> kst \<times> status_t" where
  "psp_copy_envp p envp envc s =
     (if p = 0 \<or> envc > USER_ENVC_MAX \<or> (envc \<noteq> 0 \<and> envp = None) then (s, STATUS_INVALID_PARAMETER)
      else (upd_proc p (\<lambda>x. x\<lparr>pr_envv := (if envc = 0 then [] else map arg_text (take envc (the envp)))\<rparr>) s, STATUS_SUCCESS))"

section \<open>The initial stack\<close>

definition c_string :: "string \<Rightarrow> u8 list" where
  "c_string t = bytes_of t @ [0]"

definition le8 :: "u64 \<Rightarrow> u8 list" where
  "le8 v = map (\<lambda>i. ucast (drop_bit (8 * i) v)) [0..<8]"

text \<open>The strings, high addresses first; the result is the lowest address and the string addresses in order.\<close>

fun push_strings :: "pmm \<Rightarrow> aspace \<Rightarrow> virt_t \<Rightarrow> string list \<Rightarrow> (pmm \<times> (virt_t \<times> virt_t list) option) outcome" where
  "push_strings pm as sp [] = Ret (pm, Some (sp, []))"
| "push_strings pm as sp (t # ts) =
     (let bs = c_string t; sp1 = sp - of_nat ((length bs + 7) div 8 * 8)
      in bind_outcome (vmm_write_aspace pm as sp1 bs) (\<lambda>(pm1, st).
           if \<not> NT_SUCCESS st then Ret (pm1, None)
           else bind_outcome (push_strings pm1 as sp1 ts) (\<lambda>(pm2, r).
                  Ret (pm2, case r of None \<Rightarrow> None | Some (sp2, vas) \<Rightarrow> Some (sp2, sp1 # vas)))))"

text \<open>Eight-byte words, each below the one before.\<close>

fun push_words :: "pmm \<Rightarrow> aspace \<Rightarrow> virt_t \<Rightarrow> u64 list \<Rightarrow> (pmm \<times> virt_t option) outcome" where
  "push_words pm as sp [] = Ret (pm, Some sp)"
| "push_words pm as sp (w # ws) =
     bind_outcome (vmm_write_aspace pm as (sp - 8) (le8 w)) (\<lambda>(pm1, st).
       if \<not> NT_SUCCESS st then Ret (pm1, None) else push_words pm1 as (sp - 8) ws)"

definition psp_write_initial_stack :: "u64 \<Rightarrow> kst \<Rightarrow> (kst \<times> virt_t) outcome" where
  "psp_write_initial_stack p s =
     (if p = 0 \<or> \<not> pr_user_mode (k_proc s p) then Ret (s, 0)
      else let s1 = (if pr_argv (k_proc s p) = []
                     then upd_proc p (\<lambda>x. x\<lparr>pr_argv := [cut USER_ARG_LEN (pr_image x)]\<rparr>) s else s);
               x = k_proc s1 p; av = take USER_ARGC_MAX (pr_argv x); ev = take USER_ENVC_MAX (pr_envv x);
               as = pr_aspace x
           in bind_outcome (push_strings (h_pmm (k_heap s1)) as (USER_STACK_TOP - 16) av) (\<lambda>(pm1, r1).
              case r1 of
                None \<Rightarrow> Ret (k_set_pmm pm1 s1, 0)
              | Some (sp1, avs) \<Rightarrow>
                  bind_outcome (push_strings pm1 as sp1 ev) (\<lambda>(pm2, r2).
                    case r2 of
                      None \<Rightarrow> Ret (k_set_pmm pm2 s1, 0)
                    | Some (sp2, evs) \<Rightarrow>
                        bind_outcome (push_words pm2 as sp2 ([0] @ rev evs @ [0] @ rev avs @ [of_nat (length av)])) (\<lambda>(pm3, r3).
                          case r3 of
                            None \<Rightarrow> Ret (k_set_pmm pm3 s1, 0)
                          | Some sp \<Rightarrow> Ret (upd_proc p (\<lambda>x. x\<lparr>pr_stack := sp\<rparr>) (k_set_pmm pm3 s1), sp)))))"

definition psp_exec_image :: "u64 \<Rightarrow> u8 list \<Rightarrow> kst \<Rightarrow> (kst \<times> status_t) outcome" where
  "psp_exec_image p img s =
     bind_outcome (elf_load p img s) (\<lambda>(s1, st, entry).
       if \<not> NT_SUCCESS st then Ret (s1, st)
       else bind_outcome
              (vmm_alloc_user (k_heap s1) (pr_aspace (k_proc s1 p)) (USER_STACK_TOP - USER_STACK_SIZE + PAGE_SIZE)
                 (USER_STACK_SIZE - PAGE_SIZE) PAGE_READWRITE MEM_COMMIT)
              (\<lambda>(h, as, base, st2).
                 let s2 = k_set_aspace p h as s1
                 in if \<not> NT_SUCCESS st2 then Ret (s2, st2)
                    else bind_outcome
                           (psp_write_initial_stack p (upd_proc p (\<lambda>x. x\<lparr>pr_entry := entry, pr_user_mode := True\<rparr>) s2))
                           (\<lambda>(s3, sp). Ret (s3, if sp = 0 then STATUS_NO_MEMORY else STATUS_SUCCESS))))"

section \<open>Process creation\<close>

definition open_console :: "kst \<Rightarrow> (kst \<times> status_t \<times> u64) outcome" where
  "open_console s = vfs_open ''/dev/console'' (FILE_READ_DATA OR FILE_WRITE_DATA) FILE_OPEN FILE_NON_DIRECTORY_FILE s"

text \<open>
  The results of the second and third open are not checked; where one fails the code inserts an
  uninitialised pointer, here \<open>Panic\<close>.
\<close>

definition seed_stdio :: "u64 \<Rightarrow> kst \<Rightarrow> kst outcome" where
  "seed_stdio p s =
     bind_outcome (open_console s) (\<lambda>(s1, st, fin).
       if \<not> NT_SUCCESS st then Ret s1
       else bind_outcome (open_console s1) (\<lambda>(s2, st2, fout).
            bind_outcome (open_console s2) (\<lambda>(s3, st3, ferr).
              if \<not> NT_SUCCESS st2 \<or> \<not> NT_SUCCESS st3 then Panic ''uninitialised file''
              else let rw = FILE_READ_DATA OR FILE_WRITE_DATA;
                       (s4, u, h0) = ht_insert p fin rw s3;
                       (s5, u, h1) = ht_insert p fout rw s4;
                       (s6, u, h2) = ht_insert p ferr rw s5;
                       s7 = upd_proc p (\<lambda>x. x\<lparr>pr_std_in := h0, pr_std_out := h1, pr_std_err := h2\<rparr>) s6
                   in bind_outcome (ob_dereference fin s7) (\<lambda>s8.
                      bind_outcome (ob_dereference fout s8) (ob_dereference ferr)))))"

record process_create_info =
  ci_argc :: nat
  ci_argv :: arg_vector
  ci_envc :: nat
  ci_envp :: arg_vector

definition is_elf :: "u8 list \<Rightarrow> bool" where
  "is_elf bs \<longleftrightarrow> length bs \<ge> 4 \<and> take 4 bs = [0x7F, 0x45, 0x4C, 0x46]"

text \<open>A failure after the process exists drops the creator's reference.\<close>

definition fail_process :: "u64 \<Rightarrow> status_t \<Rightarrow> kst \<Rightarrow> (kst \<times> status_t \<times> handle_t) outcome" where
  "fail_process p st s = bind_outcome (ob_dereference p s) (\<lambda>s1. Ret (s1, st, 0))"

definition start_process ::
    "u64 \<Rightarrow> u64 \<Rightarrow> access_t \<Rightarrow> u32 \<Rightarrow> bool \<Rightarrow> bool \<Rightarrow> kst \<Rightarrow> (kst \<times> status_t \<times> handle_t) outcome" where
  "start_process p parent access flags blt elf s =
     bind_outcome
       (if flags AND CREATE_SUSPENDED \<noteq> 0 then Ret (s, STATUS_SUCCESS, 0)
        else if blt then psp_create_thread p (Some (pr_image (k_proc s p))) BuiltinEntry 0 PRIORITY_NORMAL 0 s
        else if elf then psp_create_thread p (Some (pr_image (k_proc s p))) UserLaunch 0 PRIORITY_NORMAL 0 s
        else Ret (s, STATUS_SUCCESS, 0))
       (\<lambda>(s1, st, t).
          if \<not> NT_SUCCESS st then fail_process p st s1
          else let (s2, st2, h) = ht_insert parent p (if access \<noteq> 0 then access else PROCESS_ALL_ACCESS) s1
               in bind_outcome (ob_dereference p s2) (\<lambda>s3. Ret (s3, st2, h)))"

definition NtCreateProcess2 ::
    "access_t \<Rightarrow> string \<Rightarrow> u32 \<Rightarrow> process_create_info option \<Rightarrow> kst \<Rightarrow> (kst \<times> status_t \<times> handle_t) outcome" where
  "NtCreateProcess2 access img flags info s =
     (let (argc, argv, envc, envp) =
            (case info of None \<Rightarrow> (0, None, 0, None) | Some i \<Rightarrow> (ci_argc i, ci_argv i, ci_envc i, ci_envp i))
      in if argc > USER_ARGC_MAX \<or> (argc \<noteq> 0 \<and> argv = None) \<or> envc > USER_ENVC_MAX \<or> (envc \<noteq> 0 \<and> envp = None)
         then Ret (s, STATUS_INVALID_PARAMETER, 0)
         else let parent = (if k_current_process s \<noteq> 0 then k_current_process s else g_system s)
              in bind_outcome (vfs_read_all img s) (\<lambda>(s1, st1, buf, bytes).
                 if \<not> NT_SUCCESS st1 then Ret (s1, st1, 0)
                 else bind_outcome (psp_create_process (Some img) parent s1) (\<lambda>(s2, st2, p).
                 if \<not> NT_SUCCESS st2 then bind_outcome (k_free s2 buf) (\<lambda>s3. Ret (s3, st2, 0))
                 else let (s3, st3) = psp_copy_argv p argv argc s2
                 in if \<not> NT_SUCCESS st3 then bind_outcome (k_free s3 buf) (fail_process p st3)
                 else let (s4, st4) = psp_copy_envp p envp envc s3
                 in if \<not> NT_SUCCESS st4 then bind_outcome (k_free s4 buf) (fail_process p st4)
                 else bind_outcome (seed_stdio p s4) (\<lambda>s5.
                 bind_outcome (if parent \<noteq> 0 then ht_inherit_table parent p s5 else Ret (s5, STATUS_SUCCESS)) (\<lambda>(s6, st6).
                 let blt = builtin_lookup img; elf = is_elf bytes
                 in bind_outcome (if elf then psp_exec_image p bytes s6 else Ret (s6, STATUS_SUCCESS)) (\<lambda>(s7, st7).
                 bind_outcome (k_free s7 buf) (\<lambda>s8.
                   if \<not> NT_SUCCESS st7 then fail_process p st7 s8
                   else if \<not> elf \<and> \<not> blt \<and> flags AND CREATE_NO_IMAGE = 0
                   then fail_process p STATUS_INVALID_IMAGE_FORMAT s8
                   else start_process p parent access flags blt elf
                          (upd_proc p (\<lambda>x. x\<lparr>pr_builtin := blt\<rparr>) s8))))))))"

definition NtCreateProcessEx ::
    "access_t \<Rightarrow> string \<Rightarrow> u32 \<Rightarrow> arg_vector \<Rightarrow> nat \<Rightarrow> kst \<Rightarrow> (kst \<times> status_t \<times> handle_t) outcome" where
  "NtCreateProcessEx access img flags argv argc s =
     NtCreateProcess2 access img flags (Some \<lparr>ci_argc = argc, ci_argv = argv, ci_envc = 0, ci_envp = None\<rparr>) s"

definition NtCreateProcess :: "access_t \<Rightarrow> string \<Rightarrow> u32 \<Rightarrow> kst \<Rightarrow> (kst \<times> status_t \<times> handle_t) outcome" where
  "NtCreateProcess access img flags s = NtCreateProcessEx access img flags None 0 s"

section \<open>Other calls\<close>

definition NtTerminateThread :: "handle_t \<Rightarrow> status_t \<Rightarrow> kst \<Rightarrow> (kst \<times> status_t flow) outcome" where
  "NtTerminateThread h code s =
     (if h = HANDLE_CURRENT then bind_outcome (sched_exit_thread code s) (\<lambda>s1. Ret (s1, Exits))
      else let (s1, st, t) = ht_lookup (k_current_process s) h THREAD_TERMINATE (Some OBJ_THREAD) s
           in if \<not> NT_SUCCESS st then Ret (s1, Now st)
              else bind_outcome (sched_kill_thread t code s1) (\<lambda>(s2, fl).
                     case fl of
                       Now u \<Rightarrow> bind_outcome (ob_dereference t s2) (\<lambda>s3. Ret (s3, Now STATUS_SUCCESS))
                     | Sleeps \<Rightarrow> Ret (s2, Sleeps)
                     | Exits \<Rightarrow> Ret (s2, Exits)))"

text \<open>A process argument whose reference is kept: the process and the reference to drop, 0 for the caller itself.\<close>

definition held_process :: "handle_t \<Rightarrow> access_t \<Rightarrow> kst \<Rightarrow> kst \<times> status_t \<times> u64 \<times> u64" where
  "held_process proc access s =
     (if proc = HANDLE_CURRENT then (s, STATUS_SUCCESS, k_current_process s, 0)
      else let (s1, st, a) = ht_lookup (k_current_process s) proc access (Some OBJ_PROCESS) s
           in if NT_SUCCESS st then (s1, st, a, a) else (s1, st, 0, 0))"

definition NtDuplicateObject ::
    "handle_t \<Rightarrow> handle_t \<Rightarrow> handle_t \<Rightarrow> access_t \<Rightarrow> u32 \<Rightarrow> kst \<Rightarrow> (kst \<times> status_t \<times> handle_t) outcome" where
  "NtDuplicateObject src_proc src dst_proc access flags s =
     (let (s1, st1, sp, so) = held_process src_proc PROCESS_DUP_HANDLE s
      in if \<not> NT_SUCCESS st1 then Ret (s1, st1, 0)
         else let (s2, st2, dp, dobj) = held_process dst_proc PROCESS_DUP_HANDLE s1
              in if \<not> NT_SUCCESS st2 then bind_outcome (ob_dereference so s2) (\<lambda>s3. Ret (s3, st2, 0))
                 else bind_outcome
                        (if sp = 0 \<or> dp = 0 then Ret (s2, STATUS_INVALID_HANDLE, 0)
                         else bind_outcome (ht_duplicate sp src dp (if flags AND DUPLICATE_SAME_ACCESS \<noteq> 0 then 0 else access) s2)
                           (\<lambda>(s3, st3, h).
                              let s4 = (if NT_SUCCESS st3 \<and> flags AND DUPLICATE_INHERIT \<noteq> 0
                                        then fst (ht_set_inherit dp h True s3) else s3)
                              in if NT_SUCCESS st3 \<and> flags AND DUPLICATE_CLOSE_SOURCE \<noteq> 0
                                 then bind_outcome (ht_close sp src s4) (\<lambda>(s5, st5). Ret (s5, st3, h))
                                 else Ret (s4, st3, h)))
                        (\<lambda>(s5, st5, h).
                           bind_outcome (ob_dereference so s5) (\<lambda>s6.
                           bind_outcome (ob_dereference dobj s6) (\<lambda>s7. Ret (s7, st5, h)))))"

record object_basic_information =
  obi_kind :: object_kind
  obi_pointer_count :: u64
  obi_handle_count :: u64
  obi_type_name :: string
  obi_name :: string

text \<open>\<open>sizeof(object_basic_information_t)\<close> is a parameter of the length check.\<close>

definition NtQueryObject :: "handle_t \<Rightarrow> bool \<Rightarrow> kst \<Rightarrow> (kst \<times> status_t \<times> object_basic_information option) outcome" where
  "NtQueryObject h fits s =
     (if \<not> fits then Ret (s, STATUS_INFO_LENGTH_MISMATCH, None)
      else let (s1, st, a) = ht_lookup (k_current_process s) h 0 None s
           in if \<not> NT_SUCCESS st then Ret (s1, st, None)
              else let o' = k_obj s1 a;
                       info = \<lparr>obi_kind = o_kind o', obi_pointer_count = o_pointers o', obi_handle_count = o_handles o',
                              obi_type_name = ty_name (g_types (o_kind o')), obi_name = o_name o'\<rparr>
                   in bind_outcome (ob_dereference a s1) (\<lambda>s2. Ret (s2, STATUS_SUCCESS, Some info)))"

definition NtCreateDirectoryObject :: "string option \<Rightarrow> kst \<Rightarrow> (kst \<times> status_t \<times> handle_t) outcome" where
  "NtCreateDirectoryObject nm s =
     bind_outcome (ob_create OBJ_DIRECTORY nm (bno_dir nm s) s) (\<lambda>(s1, a).
       if a = 0 then Ret (s1, STATUS_NO_MEMORY, 0)
       else let s2 = s1\<lparr>k_dir := (k_dir s1)(a := \<lparr>dir_buckets = replicate 37 [], dir_count = 0\<rparr>)\<rparr>;
                (s3, st, h) = ht_insert (k_current_process s2) a
                                (DIRECTORY_QUERY OR DIRECTORY_TRAVERSE OR DIRECTORY_CREATE_OBJECT) s2
            in bind_outcome (ob_dereference a s3) (\<lambda>s4. Ret (s4, st, h)))"

definition NtOpenDirectoryObject :: "string \<Rightarrow> kst \<Rightarrow> (kst \<times> status_t \<times> handle_t) outcome" where
  "NtOpenDirectoryObject path s =
     bind_outcome (ob_lookup path (Some OBJ_DIRECTORY) s) (\<lambda>(s1, st, a).
       if \<not> NT_SUCCESS st then Ret (s1, st, 0)
       else let (s2, st2, h) = ht_insert (k_current_process s1) a (DIRECTORY_QUERY OR DIRECTORY_TRAVERSE) s1
            in bind_outcome (ob_dereference a s2) (\<lambda>s3. Ret (s3, st2, h)))"

definition NtFreeVirtualMemory :: "handle_t \<Rightarrow> virt_t \<Rightarrow> u64 \<Rightarrow> kst \<Rightarrow> (kst \<times> status_t) outcome" where
  "NtFreeVirtualMemory proc base sz s =
     bind_outcome (target_process (k_current_process s) proc PROCESS_VM_OPERATION s) (\<lambda>(s1, st, p).
       if \<not> NT_SUCCESS st then Ret (s1, st)
       else if p = 0 then Ret (s1, STATUS_INVALID_HANDLE)
       else bind_outcome (vmm_free_user (k_heap s1) (pr_aspace (k_proc s1 p)) base sz) (\<lambda>(h, as, st2).
              Ret (k_set_aspace p h as s1, st2)))"

end
