(* ===== verification/Syscall.thy ===== *)
theory Syscall
  imports Exec
begin

text \<open>
  The system services of \<^verbatim>\<open>kernel/ke/syscall.c\<close>, lines 91 to 556: one definition per service, on
  kernel-side arguments.  Services that can block or end the caller return a \<open>flow\<close>.  Where the
  code casts the object behind a handle to a file without looking at its type, an object of
  another type gives \<open>Panic\<close>: the code would read the fields of a file from an unrelated structure.
\<close>

section \<open>Running a service that may block\<close>

text \<open>The rest of a service runs only if the part before it has a result now.\<close>

definition bind_flow ::
    "(kst \<times> 'a flow) outcome \<Rightarrow> (kst \<Rightarrow> 'a \<Rightarrow> (kst \<times> 'b flow) outcome) \<Rightarrow> (kst \<times> 'b flow) outcome" where
  "bind_flow m k =
     bind_outcome m (\<lambda>(s, fl). case fl of Now x \<Rightarrow> k s x | Sleeps \<Rightarrow> Ret (s, Sleeps) | Exits \<Rightarrow> Ret (s, Exits))"

definition now :: "(kst \<times> 'a) outcome \<Rightarrow> (kst \<times> 'a flow) outcome" where
  "now m = bind_outcome m (\<lambda>(s, x). Ret (s, Now x))"

text \<open>An object reference that is dropped when the service is done.\<close>

definition deref_now :: "u64 \<Rightarrow> 'a \<Rightarrow> kst \<Rightarrow> (kst \<times> 'a flow) outcome" where
  "deref_now a x s = bind_outcome (ob_dereference a s) (\<lambda>s1. Ret (s1, Now x))"

text \<open>A thread that gives up the processor has its result now only if it is picked again at once.\<close>

definition yield_now :: "kst \<Rightarrow> (kst \<times> status_t flow) outcome" where
  "yield_now s =
     (let s1 = sched_yield s in Ret (s1, if k_current s1 = k_current s then Now STATUS_SUCCESS else Sleeps))"

section \<open>Handles and files\<close>

definition NtClose :: "handle_t \<Rightarrow> kst \<Rightarrow> (kst \<times> status_t) outcome" where
  "NtClose h s =
     (if k_current_process s = 0 then Ret (s, STATUS_INVALID_HANDLE) else ht_close (k_current_process s) h s)"

definition NtCreateFile :: "access_t \<Rightarrow> string \<Rightarrow> u32 \<Rightarrow> u32 \<Rightarrow> kst \<Rightarrow> (kst \<times> status_t \<times> handle_t) outcome" where
  "NtCreateFile access path disp opts s =
     bind_outcome (vfs_open path access disp opts s) (\<lambda>(s1, st, f).
       if \<not> NT_SUCCESS st then Ret (s1, st, 0)
       else let (s2, st2, h) = ht_insert (k_current_process s1) f access s1
            in bind_outcome (ob_dereference f s2) (\<lambda>s3. Ret (s3, st2, h)))"

definition NtDeleteFile :: "string \<Rightarrow> kst \<Rightarrow> (kst \<times> status_t) outcome" where
  "NtDeleteFile path s = (if path = [] then Ret (s, STATUS_INVALID_PARAMETER) else vfs_unlink path s)"

definition seek_to :: "u64 \<Rightarrow> u64 \<Rightarrow> kst \<Rightarrow> kst" where
  "seek_to f off s = (if off \<noteq> - 1 then upd_file f (\<lambda>x. x\<lparr>f_offset := off\<rparr>) s else s)"

definition NtReadFile :: "handle_t \<Rightarrow> u64 \<Rightarrow> u64 \<Rightarrow> kst \<Rightarrow> (kst \<times> (status_t \<times> u8 list) flow) outcome" where
  "NtReadFile h n off s =
     (let (s1, st, a) = ht_lookup (k_current_process s) h FILE_READ_DATA None s
      in if \<not> NT_SUCCESS st then Ret (s1, Now (st, []))
         else if o_kind (k_obj s1 a) = OBJ_PIPE
         then bind_flow (pipe_read a (unat n) s1) (\<lambda>s2 bs. deref_now a (read_status bs, bs) s2)
         else if o_kind (k_obj s1 a) \<noteq> OBJ_FILE then Panic ''not a file''
         else bind_outcome (vfs_read a n (seek_to a off s1)) (\<lambda>(s2, st2, bs). deref_now a (st2, bs) s2))"

definition NtWriteFile :: "handle_t \<Rightarrow> u8 list \<Rightarrow> u64 \<Rightarrow> kst \<Rightarrow> (kst \<times> (status_t \<times> u64) flow) outcome" where
  "NtWriteFile h buf off s =
     (let (s1, st, a) = ht_lookup (k_current_process s) h FILE_WRITE_DATA None s
      in if \<not> NT_SUCCESS st then Ret (s1, Now (st, 0))
         else if o_kind (k_obj s1 a) = OBJ_PIPE
         then bind_flow (pipe_write a buf s1) (\<lambda>s2 put. deref_now a (STATUS_SUCCESS, of_nat put) s2)
         else if o_kind (k_obj s1 a) \<noteq> OBJ_FILE then Panic ''not a file''
         else bind_outcome (vfs_write a buf (seek_to a off s1)) (\<lambda>(s2, st2, put). deref_now a (st2, put) s2))"

definition NtQueryDirectoryFile :: "handle_t \<Rightarrow> nat \<Rightarrow> bool \<Rightarrow> kst \<Rightarrow> (kst \<times> status_t \<times> string) outcome" where
  "NtQueryDirectoryFile h n restart s =
     (let (s1, st, a) = (case ht_lookup (k_current_process s) h (FILE_READ_DATA OR DIRECTORY_QUERY) None s of
                           (s', st', a') \<Rightarrow> if NT_SUCCESS st' then (s', st', a')
                                            else ht_lookup (k_current_process s) h 0 (Some OBJ_FILE) s')
      in if \<not> NT_SUCCESS st then Ret (s1, st, [])
         else if o_kind (k_obj s1 a) \<noteq> OBJ_FILE then Panic ''not a file''
         else let (s2, st2, text) = vfs_readdir a n restart s1
              in bind_outcome (ob_dereference a s2) (\<lambda>s3. Ret (s3, st2, text)))"

definition NtSetCwd :: "string \<Rightarrow> kst \<Rightarrow> kst \<times> status_t" where
  "NtSetCwd path s =
     (let p = k_current_process s
      in if p = 0 then (s, STATUS_INVALID_PARAMETER)
         else let (st, v) = vfs_stat_path path s
              in if \<not> NT_SUCCESS st then (s, st)
                 else if vn_kind (k_vnode s v) \<noteq> VNODE_DIR then (s, STATUS_NOT_A_DIRECTORY)
                 else let (st2, apath) = path_norm (pr_cwd (k_proc s p)) path PATH_MAX
                      in if \<not> NT_SUCCESS st2 then (s, st2)
                         else (upd_proc p (\<lambda>x. x\<lparr>pr_cwd := cut PATH_MAX apath\<rparr>) s, STATUS_SUCCESS))"

definition NtGetCwd :: "nat \<Rightarrow> kst \<Rightarrow> status_t \<times> string" where
  "NtGetCwd cap s =
     (if k_current_process s = 0 \<or> cap = 0 then (STATUS_INVALID_PARAMETER, [])
      else (STATUS_SUCCESS, cut cap (pr_cwd (k_proc s (k_current_process s)))))"

section \<open>Termination and time\<close>

definition NtTerminateProcess :: "handle_t \<Rightarrow> status_t \<Rightarrow> kst \<Rightarrow> (kst \<times> status_t flow) outcome" where
  "NtTerminateProcess h code s =
     bind_outcome (target_process (k_current_process s) h PROCESS_TERMINATE s) (\<lambda>(s1, st, p).
       if \<not> NT_SUCCESS st then Ret (s1, Now st)
       else if p = 0 then Ret (s1, Now STATUS_INVALID_HANDLE)
       else if pr_pid (k_proc s1 p) = 1 then Panic ''init died''
       else bind_outcome (sched_exit_thread code (upd_proc p (\<lambda>x. x\<lparr>pr_terminating := True, pr_exit_status := code\<rparr>) s1))
              (\<lambda>s2. Ret (s2, Exits)))"

definition NtYieldExecution :: "kst \<Rightarrow> (kst \<times> status_t flow) outcome" where
  "NtYieldExecution s = yield_now s"

text \<open>After the wait, at once or when the thread runs again: the timer is cancelled and its reference dropped.\<close>

definition delay_finish :: "u64 \<Rightarrow> kst \<Rightarrow> status_t \<Rightarrow> (kst \<times> status_t flow) outcome" where
  "delay_finish t s st =
     deref_now t (if st = STATUS_TIMEOUT then STATUS_SUCCESS else st) (fst (ke_cancel_timer t s))"

definition NtDelayExecution :: "u64 \<Rightarrow> kst \<Rightarrow> (kst \<times> status_t flow) outcome" where
  "NtDelayExecution ticks s =
     (if ticks = 0 then yield_now s
      else bind_outcome (ob_create_timer None True s) (\<lambda>(s1, st, t).
        if \<not> NT_SUCCESS st then Ret (s1, Now st)
        else bind_flow (ke_wait_object (Some (Disp t)) (ticks + 2) (fst (ke_set_timer t ticks 0 s1))) (delay_finish t)))"

definition NtRaiseException :: "status_t \<Rightarrow> kst \<Rightarrow> (kst \<times> status_t flow) outcome" where
  "NtRaiseException code s = bind_outcome (sched_exit_thread code s) (\<lambda>s1. Ret (s1, Exits))"

section \<open>System information\<close>

text \<open>
  The buffer the service fills, as bytes; what it does not write keeps the bytes it had.  A
  structure field of text is a string and its terminating zero, the rest of the field is untouched.
\<close>

definition put_bytes :: "nat \<Rightarrow> u8 list \<Rightarrow> u8 list \<Rightarrow> u8 list" where
  "put_bytes off bs buf = take (length buf) (splice off bs buf)"

definition put_text :: "nat \<Rightarrow> nat \<Rightarrow> string \<Rightarrow> u8 list \<Rightarrow> u8 list" where
  "put_text off cap t buf = put_bytes off (c_string (cut cap t)) buf"

definition le4 :: "u32 \<Rightarrow> u8 list" where
  "le4 v = map (\<lambda>i. ucast (drop_bit (8 * i) v)) [0..<4]"

abbreviation (input) SIZEOF_PROCESS_INFO :: nat where "SIZEOF_PROCESS_INFO \<equiv> 96"
abbreviation (input) SIZEOF_MEM_INFO :: nat where "SIZEOF_MEM_INFO \<equiv> 32"

definition put_process_info :: "nat \<Rightarrow> sys_process_info \<Rightarrow> u8 list \<Rightarrow> u8 list" where
  "put_process_info off i buf =
     put_text (off + 76) 16 (spi_state i)
       (put_text (off + 12) 64 (spi_image i)
         (put_bytes (off + 8) (le4 (spi_threads i)) (put_bytes off (le8 (spi_pid i)) buf)))"

fun put_snapshot :: "nat \<Rightarrow> sys_process_info list \<Rightarrow> u8 list \<Rightarrow> u8 list" where
  "put_snapshot off [] buf = buf"
| "put_snapshot off (i # is) buf = put_snapshot (off + SIZEOF_PROCESS_INFO) is (put_process_info off i buf)"

definition NtQuerySystemInformation :: "u32 \<Rightarrow> u8 list \<Rightarrow> kst \<Rightarrow> status_t \<times> nat \<times> u8 list" where
  "NtQuerySystemInformation cls buf s =
     (if cls = 0
      then if length buf < SIZEOF_MEM_INFO then (STATUS_INFO_LENGTH_MISMATCH, 0, buf)
           else (STATUS_SUCCESS, SIZEOF_MEM_INFO,
                 put_bytes 0 (le8 (g_total_avail (h_pmm (k_heap s))) @ le8 (g_free_pages (h_pmm (k_heap s)))
                              @ le8 (g_used (k_heap s)) @ le8 (k_ticks s)) buf)
      else if cls = 5
      then let infos = psp_snapshot (length buf div SIZEOF_PROCESS_INFO) s
           in (STATUS_SUCCESS, length infos * SIZEOF_PROCESS_INFO, put_snapshot 0 infos buf)
      else (STATUS_INVALID_INFO_CLASS, 0, buf))"

definition NtQueryInformationProcess :: "handle_t \<Rightarrow> bool \<Rightarrow> kst \<Rightarrow> (kst \<times> status_t \<times> sys_process_info option) outcome" where
  "NtQueryInformationProcess h fits s =
     bind_outcome (target_process (k_current_process s) h PROCESS_QUERY_INFORMATION s) (\<lambda>(s1, st, p).
       if \<not> NT_SUCCESS st then Ret (s1, st, None)
       else if p = 0 \<or> \<not> fits then Ret (s1, STATUS_INVALID_PARAMETER, None)
       else Ret (s1, STATUS_SUCCESS, Some (psp_info s1 p)))"

section \<open>Events, mutexes and waiting\<close>

definition NtCreateEvent :: "string option \<Rightarrow> bool \<Rightarrow> bool \<Rightarrow> kst \<Rightarrow> (kst \<times> status_t \<times> handle_t) outcome" where
  "NtCreateEvent nm auto_reset initial s =
     bind_outcome (ob_create_event nm auto_reset initial s) (\<lambda>(s1, st, e).
       if \<not> NT_SUCCESS st then Ret (s1, st, 0)
       else let (s2, st2, h) = ht_insert (k_current_process s1) e (SYNCHRONIZE OR EVENT_MODIFY_STATE) s1
            in bind_outcome (ob_dereference e s2) (\<lambda>s3. Ret (s3, st2, h)))"

definition NtCreateMutex :: "string option \<Rightarrow> bool \<Rightarrow> kst \<Rightarrow> (kst \<times> status_t \<times> handle_t) outcome" where
  "NtCreateMutex nm owner s =
     bind_outcome (ob_create_mutex nm owner s) (\<lambda>(s1, st, m).
       if \<not> NT_SUCCESS st then Ret (s1, st, 0)
       else let (s2, st2, h) = ht_insert (k_current_process s1) m (SYNCHRONIZE OR MUTEX_MODIFY_STATE) s1
            in bind_outcome (ob_dereference m s2) (\<lambda>s3. Ret (s3, st2, h)))"

text \<open>Set, reset and release: look the object up, act, drop the reference.\<close>

definition with_object ::
    "handle_t \<Rightarrow> access_t \<Rightarrow> object_kind \<Rightarrow> (u64 \<Rightarrow> kst \<Rightarrow> kst \<times> status_t) \<Rightarrow> kst \<Rightarrow> (kst \<times> status_t) outcome" where
  "with_object h required kind act s =
     (let (s1, st, a) = ht_lookup (k_current_process s) h required (Some kind) s
      in if \<not> NT_SUCCESS st then Ret (s1, st)
         else let (s2, st2) = act a s1
              in bind_outcome (ob_dereference a s2) (\<lambda>s3. Ret (s3, st2)))"

definition NtSetEvent :: "handle_t \<Rightarrow> kst \<Rightarrow> (kst \<times> status_t) outcome" where
  "NtSetEvent h s = with_object h EVENT_MODIFY_STATE OBJ_EVENT ke_set_event s"

definition NtResetEvent :: "handle_t \<Rightarrow> kst \<Rightarrow> (kst \<times> status_t) outcome" where
  "NtResetEvent h s = with_object h EVENT_MODIFY_STATE OBJ_EVENT ke_reset_event s"

definition NtReleaseMutex :: "handle_t \<Rightarrow> kst \<Rightarrow> (kst \<times> status_t) outcome" where
  "NtReleaseMutex h s = with_object h MUTEX_MODIFY_STATE OBJ_MUTEX ke_release_mutex s"

text \<open>A handle without the right to synchronise is looked up again with no right required.\<close>

definition wait_lookup :: "u64 \<Rightarrow> handle_t \<Rightarrow> kst \<Rightarrow> kst \<times> status_t \<times> u64" where
  "wait_lookup t h s =
     (case ht_lookup t h SYNCHRONIZE None s of
        (s1, st, a) \<Rightarrow> if NT_SUCCESS st then (s1, st, a) else ht_lookup t h 0 None s1)"

definition NtWaitForSingleObject :: "handle_t \<Rightarrow> u64 \<Rightarrow> kst \<Rightarrow> (kst \<times> status_t flow) outcome" where
  "NtWaitForSingleObject h timeout s =
     (let (s1, st, a) = wait_lookup (k_current_process s) h s
      in if \<not> NT_SUCCESS st then Ret (s1, Now st)
         else if o_wait (k_obj s1 a) = None then deref_now a STATUS_INVALID_PARAMETER s1
         else bind_flow (ke_wait_object (o_wait (k_obj s1 a)) timeout s1) (\<lambda>s2 st2. deref_now a st2 s2))"

fun deref_list :: "u64 list \<Rightarrow> kst \<Rightarrow> kst outcome" where
  "deref_list [] s = Ret s"
| "deref_list (a # as) s = bind_outcome (ob_dereference a s) (deref_list as)"

text \<open>The objects behind the handles, all or none; \<open>seen\<close> are those already referenced.\<close>

fun wait_objects ::
    "u64 \<Rightarrow> handle_t list \<Rightarrow> u64 list \<Rightarrow> kst \<Rightarrow> (kst \<times> (status_t + u64 list)) outcome" where
  "wait_objects t [] seen s = Ret (s, Inr seen)"
| "wait_objects t (h # hs) seen s =
     (case wait_lookup t h s of
        (s1, st, a) \<Rightarrow>
          if \<not> NT_SUCCESS st then bind_outcome (deref_list seen s1) (\<lambda>s2. Ret (s2, Inl st))
          else if o_wait (k_obj s1 a) = None
          then bind_outcome (deref_list (seen @ [a]) s1) (\<lambda>s2. Ret (s2, Inl STATUS_INVALID_PARAMETER))
          else wait_objects t hs (seen @ [a]) s1)"

definition NtWaitForMultipleObjects ::
    "handle_t list \<Rightarrow> bool \<Rightarrow> u64 \<Rightarrow> kst \<Rightarrow> (kst \<times> status_t flow) outcome" where
  "NtWaitForMultipleObjects hs wait_all timeout s =
     (if hs = [] \<or> length hs > WAIT_OBJECTS_MAX then Ret (s, Now STATUS_INVALID_PARAMETER)
      else bind_outcome (wait_objects (k_current_process s) hs [] s) (\<lambda>(s1, r).
        case r of
          Inl st \<Rightarrow> Ret (s1, Now st)
        | Inr objs \<Rightarrow>
            bind_flow (ke_wait_multiple (map (\<lambda>a. o_wait (k_obj s1 a)) objs) wait_all timeout s1)
              (\<lambda>s2 st. bind_outcome (deref_list objs s2) (\<lambda>s3. Ret (s3, Now st)))))"

section \<open>Threads and memory\<close>

definition NtCreateThread :: "u64 \<Rightarrow> u64 \<Rightarrow> nat \<Rightarrow> kst \<Rightarrow> (kst \<times> status_t \<times> handle_t) outcome" where
  "NtCreateThread entry arg prio s =
     (let p = k_current_process s
      in if entry = 0 \<or> p = 0 then Ret (s, STATUS_INVALID_PARAMETER, 0)
         else if pr_user_mode (k_proc s p)
         then if entry > USER_CANONICAL_TOP then Ret (s, STATUS_ACCESS_VIOLATION, 0)
              else bind_outcome (vmm_alloc_user (k_heap s) (pr_aspace (k_proc s p)) 0 (USER_STACK_SIZE - PAGE_SIZE)
                                   PAGE_READWRITE MEM_COMMIT) (\<lambda>(h, as, base, st).
                let s1 = k_set_aspace p h as s
                in if \<not> NT_SUCCESS st then Ret (s1, st, 0)
                   else bind_outcome (psp_create_thread p (Some ''user'') UserThreadEntry 0 prio CREATE_SUSPENDED s1)
                     (\<lambda>(s2, st2, t).
                        if \<not> NT_SUCCESS st2 then Ret (s2, st2, 0)
                        else let s3 = sched_ready t
                                        (upd_thread t (\<lambda>x. x\<lparr>th_user_rip := entry,
                                            th_user_rsp := base + (USER_STACK_SIZE - PAGE_SIZE) - 16\<rparr>) s2)
                             in Ret (ht_insert p t THREAD_ALL_ACCESS s3)))
         else bind_outcome (psp_create_thread p (Some ''user'') (KernelEntry entry) arg prio 0 s) (\<lambda>(s1, st, t).
                if \<not> NT_SUCCESS st then Ret (s1, st, 0) else Ret (ht_insert p t THREAD_ALL_ACCESS s1)))"

definition NtAllocateVirtualMemory ::
    "handle_t \<Rightarrow> virt_t \<Rightarrow> u64 \<Rightarrow> u32 \<Rightarrow> kst \<Rightarrow> (kst \<times> status_t \<times> virt_t) outcome" where
  "NtAllocateVirtualMemory proc base sz prot s =
     bind_outcome (target_process (k_current_process s) proc PROCESS_VM_OPERATION s) (\<lambda>(s1, st, p).
       if \<not> NT_SUCCESS st then Ret (s1, st, base)
       else if p = 0 \<or> sz = 0 then Ret (s1, STATUS_INVALID_PARAMETER, base)
       else bind_outcome (vmm_alloc_user (k_heap s1) (pr_aspace (k_proc s1 p)) base sz
                            (if prot \<noteq> 0 then prot else PAGE_READWRITE) MEM_COMMIT) (\<lambda>(h, as, va, st2).
              Ret (k_set_aspace p h as s1, st2, va)))"

definition NtProtectVirtualMemory ::
    "handle_t \<Rightarrow> virt_t \<Rightarrow> u64 \<Rightarrow> u32 \<Rightarrow> kst \<Rightarrow> (kst \<times> status_t \<times> u32) outcome" where
  "NtProtectVirtualMemory proc base sz prot s =
     (let (s1, st, p, held) = held_process proc PROCESS_VM_OPERATION s
      in if \<not> NT_SUCCESS st then Ret (s1, st, 0)
         else if p = 0 \<or> sz = 0 then bind_outcome (ob_dereference held s1) (\<lambda>s2. Ret (s2, STATUS_INVALID_PARAMETER, 0))
         else bind_outcome (vmm_protect_user (h_pmm (k_heap s1)) (pr_aspace (k_proc s1 p)) base sz prot)
                (\<lambda>(pm, as, st2, old).
                   bind_outcome (ob_dereference held (k_set_aspace p ((k_heap s1)\<lparr>h_pmm := pm\<rparr>) as s1)) (\<lambda>s2.
                     Ret (s2, st2, old))))"

record memory_basic_information =
  mbi_base :: virt_t
  mbi_alloc_base :: virt_t
  mbi_region_size :: u64
  mbi_prot :: u32
  mbi_type :: u32
  mbi_state :: u32

abbreviation (input) MEM_RESERVE :: u32 where "MEM_RESERVE \<equiv> 0x2000"

definition memory_info :: "aspace \<Rightarrow> virt_t \<Rightarrow> memory_basic_information" where
  "memory_info as addr =
     (case vad_lookup as addr of
        Some i \<Rightarrow>
          let v = as_vads as ! i
          in \<lparr>mbi_base = v_start v, mbi_alloc_base = v_start v, mbi_region_size = v_end v - v_start v, mbi_prot = v_prot v,
              mbi_type = v_type v, mbi_state = (if v_committed v \<noteq> 0 then MEM_COMMIT else MEM_RESERVE)\<rparr>
      | None \<Rightarrow>
          \<lparr>mbi_base = PAGE_ALIGN_DOWN addr, mbi_alloc_base = 0, mbi_region_size = PAGE_SIZE, mbi_prot = 0,
           mbi_type = 0, mbi_state = 0\<rparr>)"

definition NtQueryVirtualMemory ::
    "handle_t \<Rightarrow> virt_t \<Rightarrow> bool \<Rightarrow> kst \<Rightarrow> (kst \<times> status_t \<times> memory_basic_information option) outcome" where
  "NtQueryVirtualMemory proc addr fits s =
     (if \<not> fits then Ret (s, STATUS_INFO_LENGTH_MISMATCH, None)
      else bind_outcome (target_process (k_current_process s) proc PROCESS_QUERY_INFORMATION s) (\<lambda>(s1, st, p).
        if \<not> NT_SUCCESS st then Ret (s1, st, None)
        else if p = 0 then Ret (s1, STATUS_INVALID_HANDLE, None)
        else Ret (s1, STATUS_SUCCESS, Some (memory_info (pr_aspace (k_proc s1 p)) addr))))"

section \<open>Tokens\<close>

definition NtOpenProcessToken :: "handle_t \<Rightarrow> access_t \<Rightarrow> kst \<Rightarrow> (kst \<times> status_t \<times> handle_t) outcome" where
  "NtOpenProcessToken proc access s =
     (if access = 0 then Ret (s, STATUS_INVALID_PARAMETER, 0)
      else let (s1, st, p, held) = held_process proc PROCESS_QUERY_INFORMATION s
           in if \<not> NT_SUCCESS st then Ret (s1, st, 0)
              else let (s2, st2, h) =
                         (if p = 0 then (s1, STATUS_INVALID_HANDLE, 0)
                          else if pr_token (k_proc s1 p) = 0 then (s1, STATUS_NO_TOKEN, 0)
                          else ht_insert (k_current_process s1) (pr_token (k_proc s1 p)) access s1)
                   in bind_outcome (ob_dereference held s2) (\<lambda>s3. Ret (s3, st2, h)))"

definition NtQueryInformationToken :: "handle_t \<Rightarrow> bool \<Rightarrow> kst \<Rightarrow> (kst \<times> status_t \<times> token_object option) outcome" where
  "NtQueryInformationToken h fits s =
     (if \<not> fits then Ret (s, STATUS_INFO_LENGTH_MISMATCH, None)
      else let (s1, st, a) = ht_lookup (k_current_process s) h TOKEN_QUERY (Some OBJ_TOKEN) s
           in if \<not> NT_SUCCESS st then Ret (s1, st, None)
              else bind_outcome (ob_dereference a s1) (\<lambda>s2. Ret (s2, STATUS_SUCCESS, Some (k_token s1 a))))"

definition upd_token :: "u64 \<Rightarrow> (token_object \<Rightarrow> token_object) \<Rightarrow> kst \<Rightarrow> kst" where
  "upd_token a f s = s\<lparr>k_token := (k_token s)(a := f (k_token s a))\<rparr>"

definition NtDuplicateToken :: "handle_t \<Rightarrow> access_t \<Rightarrow> kst \<Rightarrow> (kst \<times> status_t \<times> handle_t) outcome" where
  "NtDuplicateToken src access s =
     (if access = 0 then Ret (s, STATUS_INVALID_PARAMETER, 0)
      else let (s1, st, a) = ht_lookup (k_current_process s) src TOKEN_DUPLICATE (Some OBJ_TOKEN) s
           in if \<not> NT_SUCCESS st then Ret (s1, st, 0)
              else bind_outcome (ob_create OBJ_TOKEN None 0 s1) (\<lambda>(s2, c).
                if c = 0 then bind_outcome (ob_dereference a s2) (\<lambda>s3. Ret (s3, STATUS_NO_MEMORY, 0))
                else let s3 = upd_token c (\<lambda>x. \<lparr>tok_pid = tok_pid (k_token s2 a),
                                              tok_integrity = tok_integrity (k_token s2 a)\<rparr>) s2;
                         (s4, st4, h) = ht_insert (k_current_process s3) c access s3
                     in bind_outcome (ob_dereference c s4) (\<lambda>s5.
                        bind_outcome (ob_dereference a s5) (\<lambda>s6. Ret (s6, st4, h)))))"

text \<open>Integrity can only be lowered.\<close>

definition NtSetInformationToken :: "handle_t \<Rightarrow> u32 \<Rightarrow> kst \<Rightarrow> (kst \<times> status_t) outcome" where
  "NtSetInformationToken h integrity s =
     (if integrity > 1 then Ret (s, STATUS_INVALID_PARAMETER)
      else let (s1, st, a) = ht_lookup (k_current_process s) h TOKEN_ADJUST (Some OBJ_TOKEN) s
           in if \<not> NT_SUCCESS st then Ret (s1, st)
              else if integrity > tok_integrity (k_token s1 a)
              then bind_outcome (ob_dereference a s1) (\<lambda>s2. Ret (s2, STATUS_ACCESS_DENIED))
              else bind_outcome (ob_dereference a (upd_token a (\<lambda>x. x\<lparr>tok_integrity := integrity\<rparr>) s1)) (\<lambda>s2.
                     Ret (s2, STATUS_SUCCESS)))"

end
