(* ===== verification/Syscall_Dispatch.thy ===== *)
theory Syscall_Dispatch
  imports Syscall
begin

text \<open>
  The system-call dispatcher of \<^verbatim>\<open>kernel/ke/syscall.c\<close>, lines 9 to 89 and 558 to 960, for callers
  in user mode, the ones the entry stub lets in: copying of arguments and results between user
  memory and the services.  The branches for callers in kernel mode, which pass kernel pointers to the same
  services, have no counterpart here.  A result that cannot be copied out is handled as in the code: some
  services close the new handle again, most ignore the failure.
\<close>

abbreviation (input) SYSCALL_COPY_MAX :: u64 where "SYSCALL_COPY_MAX \<equiv> 0x10000"

section \<open>User memory\<close>

definition caller_as :: "kst \<Rightarrow> aspace option" where
  "caller_as s =
     (if k_current_process s = 0 then None else Some (pr_aspace (k_proc s (k_current_process s))))"

definition u_copyin :: "virt_t \<Rightarrow> u64 \<Rightarrow> kst \<Rightarrow> (kst \<times> status_t \<times> u8 list) outcome" where
  "u_copyin usrc n s =
     bind_outcome (copyin (h_pmm (k_heap s)) (caller_as s) usrc n) (\<lambda>(pm, st, bs). Ret (k_set_pmm pm s, st, bs))"

definition u_copyout :: "virt_t \<Rightarrow> u8 list \<Rightarrow> kst \<Rightarrow> (kst \<times> status_t) outcome" where
  "u_copyout udst bs s =
     bind_outcome (copyout (h_pmm (k_heap s)) (caller_as s) udst bs) (\<lambda>(pm, st). Ret (k_set_pmm pm s, st))"

definition text_of :: "u8 list \<Rightarrow> string" where
  "text_of bs = map (\<lambda>b. char_of (unat b)) bs"

definition u_copyinstr :: "virt_t \<Rightarrow> nat \<Rightarrow> kst \<Rightarrow> (kst \<times> status_t \<times> string) outcome" where
  "u_copyinstr usrc cap s =
     bind_outcome (copyinstr (h_pmm (k_heap s)) (caller_as s) usrc cap) (\<lambda>(pm, st, bs).
       Ret (k_set_pmm pm s, st, text_of bs))"

definition sys_path :: "virt_t \<Rightarrow> nat \<Rightarrow> kst \<Rightarrow> (kst \<times> status_t \<times> string) outcome" where
  "sys_path up cap s = (if up = 0 then Ret (s, STATUS_INVALID_PARAMETER, []) else u_copyinstr up cap s)"

definition sys_opt_path :: "virt_t \<Rightarrow> nat \<Rightarrow> kst \<Rightarrow> (kst \<times> status_t \<times> string option) outcome" where
  "sys_opt_path up cap s =
     (if up = 0 then Ret (s, STATUS_SUCCESS, None)
      else bind_outcome (sys_path up cap s) (\<lambda>(s1, st, t). Ret (s1, st, if NT_SUCCESS st then Some t else None)))"

definition sys_put_u64 :: "virt_t \<Rightarrow> u64 \<Rightarrow> kst \<Rightarrow> (kst \<times> status_t) outcome" where
  "sys_put_u64 up v s = (if up = 0 then Ret (s, STATUS_INVALID_PARAMETER) else u_copyout up (le8 v) s)"

definition sys_put_handle :: "virt_t \<Rightarrow> handle_t \<Rightarrow> kst \<Rightarrow> (kst \<times> status_t) outcome" where
  "sys_put_handle up h s = sys_put_u64 up h s"

definition sys_get_u64 :: "virt_t \<Rightarrow> kst \<Rightarrow> (kst \<times> status_t \<times> u64) outcome" where
  "sys_get_u64 up s =
     (if up = 0 then Ret (s, STATUS_INVALID_PARAMETER, 0)
      else bind_outcome (u_copyin up 8 s) (\<lambda>(s1, st, bs). Ret (s1, st, of_nat (le_val bs))))"

definition words_of :: "nat \<Rightarrow> u8 list \<Rightarrow> u64 list" where
  "words_of n bs = map (\<lambda>i. of_nat (field bs (8 * i) 8)) [0..<n]"

fun copy_strings :: "virt_t list \<Rightarrow> nat \<Rightarrow> string list \<Rightarrow> kst \<Rightarrow> (kst \<times> status_t \<times> string list) outcome" where
  "copy_strings [] cap acc s = Ret (s, STATUS_SUCCESS, acc)"
| "copy_strings (u # us) cap acc s =
     bind_outcome (u_copyinstr u cap s) (\<lambda>(s1, st, t).
       if \<not> NT_SUCCESS st then Ret (s1, st, acc) else copy_strings us cap (acc @ [t]) s1)"

definition sys_copy_strvec ::
    "virt_t \<Rightarrow> nat \<Rightarrow> nat \<Rightarrow> nat \<Rightarrow> kst \<Rightarrow> (kst \<times> status_t \<times> string list) outcome" where
  "sys_copy_strvec uarray n nmax cap s =
     (if n > nmax then Ret (s, STATUS_INVALID_PARAMETER, [])
      else if n \<noteq> 0 \<and> uarray = 0 then Ret (s, STATUS_INVALID_PARAMETER, [])
      else if n = 0 then Ret (s, STATUS_SUCCESS, [])
      else if n > USER_ARGC_MAX then Ret (s, STATUS_INVALID_PARAMETER, [])
      else bind_outcome (u_copyin uarray (of_nat n * 8) s) (\<lambda>(s1, st, bs).
             if \<not> NT_SUCCESS st then Ret (s1, st, []) else copy_strings (words_of n bs) cap [] s1))"

section \<open>Returning a handle\<close>

text \<open>The failure to store the handle is ignored: the caller never learns it, and the slot stays taken.\<close>

definition put_ignored :: "virt_t \<Rightarrow> kst \<times> status_t \<times> u64 \<Rightarrow> (kst \<times> status_t) outcome" where
  "put_ignored up r =
     (case r of (s, st, v) \<Rightarrow>
        if NT_SUCCESS st then bind_outcome (sys_put_u64 up v s) (\<lambda>(s1, st1). Ret (s1, st)) else Ret (s, st))"

text \<open>The failure to store the handle closes it.\<close>

definition put_or_close :: "virt_t \<Rightarrow> kst \<times> status_t \<times> handle_t \<Rightarrow> (kst \<times> status_t) outcome" where
  "put_or_close up r =
     (case r of (s, st, h) \<Rightarrow>
        if NT_SUCCESS st
        then bind_outcome (sys_put_handle up h s) (\<lambda>(s1, st1).
               if NT_SUCCESS st1 then Ret (s1, st) else bind_outcome (NtClose h s1) (\<lambda>(s2, st2). Ret (s2, st1)))
        else Ret (s, st))"

text \<open>The failure to store the handle is returned, and the handle stays open.\<close>

definition put_or_fail :: "virt_t \<Rightarrow> kst \<times> status_t \<times> handle_t \<Rightarrow> (kst \<times> status_t) outcome" where
  "put_or_fail up r =
     (case r of (s, st, h) \<Rightarrow>
        if NT_SUCCESS st
        then bind_outcome (sys_put_handle up h s) (\<lambda>(s1, st1). Ret (s1, if NT_SUCCESS st1 then st else st1))
        else Ret (s, st))"

section \<open>Files\<close>

definition sc_create_file :: "u64 \<Rightarrow> u64 \<Rightarrow> u64 \<Rightarrow> u64 \<Rightarrow> u64 \<Rightarrow> kst \<Rightarrow> (kst \<times> status_t) outcome" where
  "sc_create_file a0 a1 a2 a3 a4 s =
     bind_outcome (sys_path a2 PATH_MAX s) (\<lambda>(s1, st, path).
       if \<not> NT_SUCCESS st then Ret (s1, st)
       else bind_outcome (NtCreateFile (ucast a1) path (ucast a3) (ucast a4) s1) (put_or_close a0))"

text \<open>
  Reads and writes go through a kernel buffer of at most 64 KiB per turn.  A turn ends the call
  (\<open>Inl\<close>, with a flag that says whether the tail of the call still runs) or goes on with the state,
  the total and the position (\<open>Inr\<close>).
\<close>

definition chunk_of :: "u64 \<Rightarrow> u64 \<Rightarrow> u64" where
  "chunk_of n tot = (if n - tot > SYSCALL_COPY_MAX then SYSCALL_COPY_MAX else n - tot)"

definition step_pos :: "u64 \<Rightarrow> u64 \<Rightarrow> u64" where
  "step_pos pos k = (if pos \<noteq> - 1 then pos + k else pos)"

definition read_turn ::
    "handle_t \<Rightarrow> virt_t \<Rightarrow> u64 \<Rightarrow> u64 \<Rightarrow> u64 \<Rightarrow> kst \<Rightarrow>
     (kst \<times> (status_t \<times> u64 \<times> u64 \<times> bool \<times> bool) flow) outcome" where
  "read_turn h ubuf n tot pos s =
     (let chunk = chunk_of n tot
      in bind_outcome (k_alloc s chunk) (\<lambda>(s1, kbuf).
         if kbuf = 0 then Ret (s1, Now (STATUS_NO_MEMORY, tot, pos, True, False))
         else bind_flow (NtReadFile h chunk pos s1) (\<lambda>s2 (st, bs).
           let got = of_nat (length bs) :: u64
           in bind_outcome (if bs = [] then Ret (s2, STATUS_SUCCESS) else u_copyout (ubuf + tot) bs s2) (\<lambda>(s3, c).
              bind_outcome (k_free s3 kbuf) (\<lambda>s4.
                if \<not> NT_SUCCESS c then Ret (s4, Now (c, tot, pos, True, False))
                else Ret (s4, Now (st, tot + got, step_pos pos got,
                                   (\<not> NT_SUCCESS st \<and> st \<noteq> STATUS_END_OF_FILE) \<or> got < chunk, True)))))))"

text \<open>The last two components of a turn: the loop stops, and the tail of the call is to run.\<close>

partial_function (option) read_file_loop ::
    "handle_t \<Rightarrow> virt_t \<Rightarrow> u64 \<Rightarrow> status_t \<Rightarrow> u64 \<Rightarrow> u64 \<Rightarrow> kst \<Rightarrow> (kst \<times> (status_t \<times> u64 \<times> bool) flow) outcome option" where
  "read_file_loop h ubuf n st tot pos s =
     (if \<not> tot < n then Some (Ret (s, Now (st, tot, True)))
      else case read_turn h ubuf n tot pos s of
             Panic m \<Rightarrow> Some (Panic m)
           | Hang \<Rightarrow> Some Hang
           | Ret r \<Rightarrow>
               (case snd r of
                  Sleeps \<Rightarrow> Some (Ret (fst r, Sleeps))
                | Exits \<Rightarrow> Some (Ret (fst r, Exits))
                | Now x \<Rightarrow>
                    if fst (snd (snd (snd x)))
                    then Some (Ret (fst r, Now (fst x, fst (snd x), snd (snd (snd (snd x))))))
                    else read_file_loop h ubuf n (fst x) (fst (snd x)) (fst (snd (snd x))) (fst r)))"

definition sc_read_file :: "u64 \<Rightarrow> u64 \<Rightarrow> u64 \<Rightarrow> u64 \<Rightarrow> u64 \<Rightarrow> kst \<Rightarrow> (kst \<times> status_t flow) outcome" where
  "sc_read_file a0 a1 a2 a3 a4 s =
     (if a2 > COPY_MAX then Ret (s, Now STATUS_INVALID_PARAMETER)
      else bind_flow (of_loop (read_file_loop a0 a1 a2 STATUS_SUCCESS 0 a3 s)) (\<lambda>s1 (st, tot, tail).
        if \<not> tail then Ret (s1, Now st)
        else bind_outcome (if a4 \<noteq> 0 then sys_put_u64 a4 tot s1 else Ret (s1, STATUS_SUCCESS)) (\<lambda>(s2, st2).
               Ret (s2, Now (if tot \<noteq> 0 \<and> st = STATUS_END_OF_FILE then STATUS_SUCCESS else st)))))"

definition write_turn ::
    "handle_t \<Rightarrow> virt_t \<Rightarrow> u64 \<Rightarrow> u64 \<Rightarrow> u64 \<Rightarrow> kst \<Rightarrow>
     (kst \<times> (status_t \<times> u64 \<times> u64 \<times> bool \<times> bool) flow) outcome" where
  "write_turn h ubuf n tot pos s =
     (let chunk = chunk_of n tot
      in bind_outcome (k_alloc s chunk) (\<lambda>(s1, kbuf).
         if kbuf = 0 then Ret (s1, Now (STATUS_NO_MEMORY, tot, pos, True, False))
         else bind_outcome (u_copyin (ubuf + tot) chunk s1) (\<lambda>(s2, st, bs).
              bind_flow (if NT_SUCCESS st then NtWriteFile h bs pos s2 else Ret (s2, Now (st, 0))) (\<lambda>s3 (st3, put).
                bind_outcome (k_free s3 kbuf) (\<lambda>s4.
                  Ret (s4, Now (st3, tot + put, step_pos pos put, \<not> NT_SUCCESS st3 \<or> put < chunk, True)))))))"

partial_function (option) write_file_loop ::
    "handle_t \<Rightarrow> virt_t \<Rightarrow> u64 \<Rightarrow> status_t \<Rightarrow> u64 \<Rightarrow> u64 \<Rightarrow> kst \<Rightarrow> (kst \<times> (status_t \<times> u64 \<times> bool) flow) outcome option" where
  "write_file_loop h ubuf n st tot pos s =
     (if \<not> tot < n then Some (Ret (s, Now (st, tot, True)))
      else case write_turn h ubuf n tot pos s of
             Panic m \<Rightarrow> Some (Panic m)
           | Hang \<Rightarrow> Some Hang
           | Ret r \<Rightarrow>
               (case snd r of
                  Sleeps \<Rightarrow> Some (Ret (fst r, Sleeps))
                | Exits \<Rightarrow> Some (Ret (fst r, Exits))
                | Now x \<Rightarrow>
                    if fst (snd (snd (snd x)))
                    then Some (Ret (fst r, Now (fst x, fst (snd x), snd (snd (snd (snd x))))))
                    else write_file_loop h ubuf n (fst x) (fst (snd x)) (fst (snd (snd x))) (fst r)))"

definition sc_write_file :: "u64 \<Rightarrow> u64 \<Rightarrow> u64 \<Rightarrow> u64 \<Rightarrow> u64 \<Rightarrow> kst \<Rightarrow> (kst \<times> status_t flow) outcome" where
  "sc_write_file a0 a1 a2 a3 a4 s =
     (if a2 > COPY_MAX then Ret (s, Now STATUS_INVALID_PARAMETER)
      else bind_flow (of_loop (write_file_loop a0 a1 a2 STATUS_SUCCESS 0 a3 s)) (\<lambda>s1 (st, tot, tail).
        if \<not> tail then Ret (s1, Now st)
        else bind_outcome (if a4 \<noteq> 0 then sys_put_u64 a4 tot s1 else Ret (s1, STATUS_SUCCESS)) (\<lambda>(s2, st2).
               Ret (s2, Now st))))"

definition sc_query_directory :: "u64 \<Rightarrow> u64 \<Rightarrow> u64 \<Rightarrow> u64 \<Rightarrow> kst \<Rightarrow> (kst \<times> status_t) outcome" where
  "sc_query_directory a0 a1 a2 a3 s =
     (if a2 = 0 \<or> a2 > SYSCALL_COPY_MAX then Ret (s, STATUS_INVALID_PARAMETER)
      else bind_outcome (k_alloc s a2) (\<lambda>(s1, kbuf).
        if kbuf = 0 then Ret (s1, STATUS_NO_MEMORY)
        else bind_outcome (NtQueryDirectoryFile a0 (unat a2) (a3 \<noteq> 0) s1) (\<lambda>(s2, st, text).
             bind_outcome (if NT_SUCCESS st \<or> st = STATUS_END_OF_FILE
                           then u_copyout a1 (take (unat a2) (c_string text)) s2 else Ret (s2, STATUS_SUCCESS)) (\<lambda>(s3, c).
             bind_outcome (k_free s3 kbuf) (\<lambda>s4. Ret (s4, st))))))"

definition sc_set_cwd :: "u64 \<Rightarrow> kst \<Rightarrow> (kst \<times> status_t) outcome" where
  "sc_set_cwd a0 s =
     bind_outcome (sys_path a0 PATH_MAX s) (\<lambda>(s1, st, path).
       if \<not> NT_SUCCESS st then Ret (s1, st) else Ret (NtSetCwd path s1))"

definition sc_get_cwd :: "u64 \<Rightarrow> u64 \<Rightarrow> kst \<Rightarrow> (kst \<times> status_t) outcome" where
  "sc_get_cwd a0 a1 s =
     (let (st, path) = NtGetCwd PATH_MAX s
      in if \<not> NT_SUCCESS st then Ret (s, st)
         else if unat a1 < length path + 1 then Ret (s, STATUS_BUFFER_TOO_SMALL)
         else u_copyout a0 (c_string path) s)"

definition sc_delete_file :: "u64 \<Rightarrow> kst \<Rightarrow> (kst \<times> status_t) outcome" where
  "sc_delete_file a0 s =
     bind_outcome (sys_path a0 PATH_MAX s) (\<lambda>(s1, st, path).
       if \<not> NT_SUCCESS st then Ret (s1, st) else NtDeleteFile path s1)"

section \<open>Processes\<close>

definition sc_create_process :: "u64 \<Rightarrow> u64 \<Rightarrow> u64 \<Rightarrow> u64 \<Rightarrow> u64 \<Rightarrow> u64 \<Rightarrow> kst \<Rightarrow> (kst \<times> status_t) outcome" where
  "sc_create_process a0 a1 a2 a3 a4 a5 s =
     bind_outcome (sys_path a2 PATH_MAX s) (\<lambda>(s1, st, path).
       if \<not> NT_SUCCESS st then Ret (s1, st)
       else let argc = unat (ucast a5 :: u32)
            in if argc > USER_ARGC_MAX \<or> (argc \<noteq> 0 \<and> a4 = 0) then Ret (s1, STATUS_INVALID_PARAMETER)
               else if argc = 0
               then bind_outcome (NtCreateProcess (ucast a1) path (ucast a3) s1) (put_or_fail a0)
               else bind_outcome (u_copyin a4 (of_nat argc * 8) s1) (\<lambda>(s2, st2, bs).
                    if \<not> NT_SUCCESS st2 then Ret (s2, st2)
                    else bind_outcome (copy_strings (words_of argc bs) USER_ARG_LEN [] s2) (\<lambda>(s3, st3, args).
                         if \<not> NT_SUCCESS st3 then Ret (s3, st3)
                         else bind_outcome (NtCreateProcessEx (ucast a1) path (ucast a3) (Some (map Some args)) argc s3)
                                (put_or_fail a0))))"

text \<open>\<open>process_create_info_t\<close> in user memory: two counts and two pointers.\<close>

definition sc_create_process2 :: "u64 \<Rightarrow> u64 \<Rightarrow> u64 \<Rightarrow> u64 \<Rightarrow> u64 \<Rightarrow> kst \<Rightarrow> (kst \<times> status_t) outcome" where
  "sc_create_process2 a0 a1 a2 a3 a4 s =
     bind_outcome (sys_path a2 PATH_MAX s) (\<lambda>(s1, st, path).
       if \<not> NT_SUCCESS st then Ret (s1, st)
       else bind_outcome (if a4 \<noteq> 0 then u_copyin a4 24 s1 else Ret (s1, STATUS_SUCCESS, replicate 24 0)) (\<lambda>(s2, st2, info').
         if \<not> NT_SUCCESS st2 then Ret (s2, st2)
         else let argc = field info' 0 4; envc = field info' 4 4; argv = of_nat (field info' 8 8); envp = of_nat (field info' 16 8)
              in if argc > USER_ARGC_MAX \<or> envc > USER_ENVC_MAX then Ret (s2, STATUS_INVALID_PARAMETER)
                 else bind_outcome (sys_copy_strvec argv argc USER_ARGC_MAX USER_ARG_LEN s2) (\<lambda>(s3, st3, av).
                   if \<not> NT_SUCCESS st3 then Ret (s3, st3)
                   else bind_outcome (sys_copy_strvec envp envc USER_ENVC_MAX USER_ARG_LEN s3) (\<lambda>(s4, st4, ev).
                     if \<not> NT_SUCCESS st4 then Ret (s4, st4)
                     else let info = \<lparr>ci_argc = argc, ci_argv = (if argc \<noteq> 0 then Some (map Some av) else None),
                                      ci_envc = envc, ci_envp = (if envc \<noteq> 0 then Some (map Some ev) else None)\<rparr>
                          in bind_outcome (NtCreateProcess2 (ucast a1) path (ucast a3) (Some info) s4) (put_or_close a0)))))"

definition sc_create_thread :: "u64 \<Rightarrow> u64 \<Rightarrow> u64 \<Rightarrow> u64 \<Rightarrow> kst \<Rightarrow> (kst \<times> status_t) outcome" where
  "sc_create_thread a0 a1 a2 a3 s =
     bind_outcome (NtCreateThread a1 a2 (unat (ucast a3 :: u32)) s) (put_ignored a0)"

section \<open>Queries\<close>

text \<open>
  The buffer comes from the heap and is not cleared: the bytes the service does not write are those the heap
  left there.
\<close>

definition sc_query_system :: "u64 \<Rightarrow> u64 \<Rightarrow> u64 \<Rightarrow> u64 \<Rightarrow> kst \<Rightarrow> (kst \<times> status_t) outcome" where
  "sc_query_system a0 a1 a2 a3 s =
     (if a2 = 0 \<or> a2 > SYSCALL_COPY_MAX then Ret (s, STATUS_INVALID_PARAMETER)
      else bind_outcome (k_alloc s a2) (\<lambda>(s1, kbuf).
        if kbuf = 0 then Ret (s1, STATUS_NO_MEMORY)
        else let (st, got, buf) = NtQuerySystemInformation (ucast a0) (fresh_bytes s1 kbuf a2) s1
             in bind_outcome (if NT_SUCCESS st \<and> got \<noteq> 0 then u_copyout a1 (take got buf) s1 else Ret (s1, STATUS_SUCCESS))
                  (\<lambda>(s2, c).
                bind_outcome (if a3 \<noteq> 0 then sys_put_u64 a3 (of_nat got) s2 else Ret (s2, STATUS_SUCCESS)) (\<lambda>(s3, c3).
                bind_outcome (k_free s3 kbuf) (\<lambda>s4. Ret (s4, st))))))"

text \<open>The information of a query goes out only with a success; the result of the copy is ignored.\<close>

definition put_info :: "virt_t \<Rightarrow> ('a \<Rightarrow> u8 list) \<Rightarrow> kst \<times> status_t \<times> 'a option \<Rightarrow> (kst \<times> status_t) outcome" where
  "put_info up enc r =
     (case r of (s, st, info') \<Rightarrow>
        (case info' of
           None \<Rightarrow> Ret (s, st)
         | Some i \<Rightarrow>
             if NT_SUCCESS st then bind_outcome (u_copyout up (enc i) s) (\<lambda>(s1, c). Ret (s1, st)) else Ret (s, st)))"

definition process_info_bytes :: "sys_process_info \<Rightarrow> u8 list" where
  "process_info_bytes i = put_process_info 0 i (replicate SIZEOF_PROCESS_INFO 0)"

definition sc_query_process :: "u64 \<Rightarrow> u64 \<Rightarrow> u64 \<Rightarrow> kst \<Rightarrow> (kst \<times> status_t) outcome" where
  "sc_query_process a0 a1 a2 s =
     (if a2 < of_nat SIZEOF_PROCESS_INFO \<or> a2 > SYSCALL_COPY_MAX then Ret (s, STATUS_INFO_LENGTH_MISMATCH)
      else bind_outcome (NtQueryInformationProcess a0 True s) (put_info a1 process_info_bytes))"

fun kind_number :: "object_kind \<Rightarrow> u32" where
  "kind_number OBJ_DIRECTORY = 1"
| "kind_number OBJ_PROCESS = 2"
| "kind_number OBJ_THREAD = 3"
| "kind_number OBJ_SECTION = 4"
| "kind_number OBJ_FILE = 5"
| "kind_number OBJ_DEVICE = 6"
| "kind_number OBJ_EVENT = 7"
| "kind_number OBJ_MUTEX = 8"
| "kind_number OBJ_TIMER = 9"
| "kind_number OBJ_PIPE = 10"
| "kind_number OBJ_TOKEN = 11"

definition object_info_bytes :: "object_basic_information \<Rightarrow> u8 list" where
  "object_info_bytes i =
     put_text 56 64 (obi_name i) (put_text 24 32 (obi_type_name i)
       (put_bytes 16 (le8 (obi_handle_count i)) (put_bytes 8 (le8 (obi_pointer_count i))
         (put_bytes 0 (le4 (kind_number (obi_kind i))) (replicate 120 0)))))"

definition sc_query_object :: "u64 \<Rightarrow> u64 \<Rightarrow> kst \<Rightarrow> (kst \<times> status_t) outcome" where
  "sc_query_object a0 a1 s = bind_outcome (NtQueryObject a0 True s) (put_info a1 object_info_bytes)"

definition memory_info_bytes :: "memory_basic_information \<Rightarrow> u8 list" where
  "memory_info_bytes i =
     le8 (mbi_base i) @ le8 (mbi_alloc_base i) @ le8 (mbi_region_size i) @ le4 (mbi_prot i) @ le4 (mbi_type i)
     @ le4 (mbi_state i) @ replicate 4 0"

definition sc_query_memory :: "u64 \<Rightarrow> u64 \<Rightarrow> u64 \<Rightarrow> kst \<Rightarrow> (kst \<times> status_t) outcome" where
  "sc_query_memory a0 a1 a2 s =
     bind_outcome (NtQueryVirtualMemory a0 a1 True s) (\<lambda>(s1, st, info').
       case info' of
         None \<Rightarrow> Ret (s1, st)
       | Some i \<Rightarrow> if \<not> NT_SUCCESS st then Ret (s1, st) else u_copyout a2 (memory_info_bytes i) s1)"

definition token_info_bytes :: "token_object \<Rightarrow> u8 list" where
  "token_info_bytes t = le8 (tok_pid t) @ le4 (tok_integrity t) @ replicate 4 0"

definition sc_query_token :: "u64 \<Rightarrow> u64 \<Rightarrow> u64 \<Rightarrow> kst \<Rightarrow> (kst \<times> status_t) outcome" where
  "sc_query_token a0 a1 a2 s =
     (if a2 < 16 \<or> a2 > SYSCALL_COPY_MAX then Ret (s, STATUS_INFO_LENGTH_MISMATCH)
      else bind_outcome (NtQueryInformationToken a0 True s) (put_info a1 token_info_bytes))"

section \<open>Objects and memory\<close>

text \<open>A service that creates a named object and returns its handle.\<close>

definition sc_named ::
    "u64 \<Rightarrow> u64 \<Rightarrow> (string option \<Rightarrow> kst \<Rightarrow> (kst \<times> status_t \<times> handle_t) outcome) \<Rightarrow> kst \<Rightarrow> (kst \<times> status_t) outcome" where
  "sc_named a0 a1 create s =
     bind_outcome (sys_opt_path a1 NAME_MAX s) (\<lambda>(s1, st, nm).
       if \<not> NT_SUCCESS st then Ret (s1, st) else bind_outcome (create nm s1) (put_ignored a0))"

definition sc_open_directory :: "u64 \<Rightarrow> u64 \<Rightarrow> kst \<Rightarrow> (kst \<times> status_t) outcome" where
  "sc_open_directory a0 a1 s =
     bind_outcome (sys_path a1 PATH_MAX s) (\<lambda>(s1, st, path).
       if \<not> NT_SUCCESS st then Ret (s1, st) else bind_outcome (NtOpenDirectoryObject path s1) (put_ignored a0))"

definition sc_create_pipe :: "u64 \<Rightarrow> u64 \<Rightarrow> kst \<Rightarrow> (kst \<times> status_t) outcome" where
  "sc_create_pipe a0 a1 s =
     bind_outcome (NtCreatePipe s) (\<lambda>(s1, st, r, w).
       if NT_SUCCESS st
       then bind_outcome (sys_put_handle a0 r s1) (\<lambda>(s2, c).
            bind_outcome (sys_put_handle a1 w s2) (\<lambda>(s3, c3). Ret (s3, st)))
       else Ret (s1, st))"

definition sc_wait_multiple :: "u64 \<Rightarrow> u64 \<Rightarrow> u64 \<Rightarrow> u64 \<Rightarrow> kst \<Rightarrow> (kst \<times> status_t flow) outcome" where
  "sc_wait_multiple a0 a1 a2 a3 s =
     (if a1 = 0 \<or> a1 > of_nat WAIT_OBJECTS_MAX then Ret (s, Now STATUS_INVALID_PARAMETER)
      else bind_outcome (u_copyin a0 (a1 * 8) s) (\<lambda>(s1, st, bs).
        if \<not> NT_SUCCESS st then Ret (s1, Now st)
        else NtWaitForMultipleObjects (words_of (unat a1) bs) (a2 \<noteq> 0) a3 s1))"

definition sc_alloc_memory :: "u64 \<Rightarrow> u64 \<Rightarrow> u64 \<Rightarrow> u64 \<Rightarrow> kst \<Rightarrow> (kst \<times> status_t) outcome" where
  "sc_alloc_memory a0 a1 a2 a3 s =
     bind_outcome (sys_get_u64 a1 s) (\<lambda>(s1, st, base).
       if \<not> NT_SUCCESS st then Ret (s1, st)
       else bind_outcome (NtAllocateVirtualMemory a0 base a2 (ucast a3) s1) (put_ignored a1))"

definition sc_protect_memory :: "u64 \<Rightarrow> u64 \<Rightarrow> u64 \<Rightarrow> u64 \<Rightarrow> u64 \<Rightarrow> kst \<Rightarrow> (kst \<times> status_t) outcome" where
  "sc_protect_memory a0 a1 a2 a3 a4 s =
     bind_outcome (NtProtectVirtualMemory a0 a1 a2 (ucast a3) s) (\<lambda>(s1, st, old).
       if NT_SUCCESS st \<and> a4 \<noteq> 0
       then bind_outcome (u_copyout a4 (le4 old) s1) (\<lambda>(s2, c). Ret (s2, st)) else Ret (s1, st))"

definition sc_map_view :: "u64 \<Rightarrow> u64 \<Rightarrow> u64 \<Rightarrow> u64 \<Rightarrow> u64 \<Rightarrow> kst \<Rightarrow> (kst \<times> status_t) outcome" where
  "sc_map_view a0 a1 a2 a3 a4 s =
     bind_outcome (sys_get_u64 a2 s) (\<lambda>(s1, st, base).
       if \<not> NT_SUCCESS st then Ret (s1, st)
       else bind_outcome (NtMapViewOfSection a0 a1 base a3 (ucast a4) s1) (put_ignored a2))"

section \<open>The dispatcher\<close>

definition syscall_dispatch ::
    "u64 \<Rightarrow> u64 \<Rightarrow> u64 \<Rightarrow> u64 \<Rightarrow> u64 \<Rightarrow> u64 \<Rightarrow> u64 \<Rightarrow> kst \<Rightarrow> (kst \<times> status_t flow) outcome" where
  "syscall_dispatch nr a0 a1 a2 a3 a4 a5 s =
     (if nr = 0 then now (NtClose a0 s)
      else if nr = 1 then now (bind_outcome (NtDuplicateObject a0 a1 a2 (ucast a4) (ucast a5) s) (put_ignored a3))
      else if nr = 2 then now (sc_create_file a0 a1 a2 a3 a4 s)
      else if nr = 3 then sc_read_file a0 a1 a2 a3 a4 s
      else if nr = 4 then sc_write_file a0 a1 a2 a3 a4 s
      else if nr = 5 then now (sc_query_directory a0 a1 a2 a3 s)
      else if nr = 6 then now (sc_create_process a0 a1 a2 a3 a4 a5 s)
      else if nr = 7 then now (sc_create_thread a0 a1 a2 a3 s)
      else if nr = 8 then NtTerminateProcess a0 (ucast a1) s
      else if nr = 9 then NtTerminateThread a0 (ucast a1) s
      else if nr = 10 then NtWaitForSingleObject a0 a1 s
      else if nr = 11 then now (sc_named a0 a1 (\<lambda>nm. NtCreateEvent nm (a2 \<noteq> 0) (a3 \<noteq> 0)) s)
      else if nr = 12 then now (NtSetEvent a0 s)
      else if nr = 13 then now (NtResetEvent a0 s)
      else if nr = 14 then now (sc_named a0 a1 (\<lambda>nm. NtCreateMutex nm (a2 \<noteq> 0)) s)
      else if nr = 15 then now (NtReleaseMutex a0 s)
      else if nr = 16 then now (sc_query_system a0 a1 a2 a3 s)
      else if nr = 17 then now (sc_query_process a0 a1 a2 s)
      else if nr = 18 then NtYieldExecution s
      else if nr = 19 then NtDelayExecution a0 s
      else if nr = 20 then now (sc_query_object a0 a1 s)
      else if nr = 21 then now (bind_outcome (NtCreateSection (ucast a1) a2 (ucast a3) s) (put_ignored a0))
      else if nr = 22 then now (sc_map_view a0 a1 a2 a3 a4 s)
      else if nr = 23 then now (NtUnmapViewOfSection a0 a1 s)
      else if nr = 24 then now (sc_alloc_memory a0 a1 a2 a3 s)
      else if nr = 25 then now (NtFreeVirtualMemory a0 a1 a2 s)
      else if nr = 26 then now (sc_query_memory a0 a1 a2 s)
      else if nr = 27 then now (sc_named a0 a1 NtCreateDirectoryObject s)
      else if nr = 28 then now (sc_open_directory a0 a1 s)
      else if nr = 29 then NtRaiseException (ucast a0) s
      else if nr = 30 then now (sc_get_cwd a0 a1 s)
      else if nr = 31 then now (sc_set_cwd a0 s)
      else if nr = 32 then now (sc_create_pipe a0 a1 s)
      else if nr = 33 then now (sc_named a0 a1 (\<lambda>nm. NtCreateTimer nm (a2 \<noteq> 0)) s)
      else if nr = 34 then now (NtSetTimer a0 a1 a2 s)
      else if nr = 35 then now (NtCancelTimer a0 s)
      else if nr = 36 then sc_wait_multiple a0 a1 a2 a3 s
      else if nr = 37 then now (sc_protect_memory a0 a1 a2 a3 a4 s)
      else if nr = 38 then now (bind_outcome (NtOpenProcessToken a0 (ucast a1) s) (put_or_close a2))
      else if nr = 39 then now (sc_query_token a0 a1 a2 s)
      else if nr = 40 then now (bind_outcome (NtDuplicateToken a0 (ucast a1) s) (put_or_close a2))
      else if nr = 41 then now (NtSetInformationToken a0 (ucast a1) s)
      else if nr = 42 then now (sc_delete_file a0 s)
      else if nr = 43 then now (sc_create_process2 a0 a1 a2 a3 a4 s)
      else Ret (s, Now STATUS_INVALID_SYSTEM_SERVICE))"

end
