(* ===== verification/Klist.thy ===== *)
theory Klist
  imports Prelude
begin

text \<open>
  The intrusive doubly linked lists of \<^verbatim>\<open>include/jasos/types.h\<close>.  The other theories use HOL
  lists of addresses in their place; here the pointer manipulations are modelled on a memory of
  links and shown to implement the list operations the other theories use.
\<close>

section \<open>Operations\<close>

record lmem =
  l_next :: "u64 \<Rightarrow> u64"
  l_prev :: "u64 \<Rightarrow> u64"

definition set_next :: "u64 \<Rightarrow> u64 \<Rightarrow> lmem \<Rightarrow> lmem" where
  "set_next a v m = m\<lparr>l_next := (l_next m)(a := v)\<rparr>"

definition set_prev :: "u64 \<Rightarrow> u64 \<Rightarrow> lmem \<Rightarrow> lmem" where
  "set_prev a v m = m\<lparr>l_prev := (l_prev m)(a := v)\<rparr>"

definition list_init :: "u64 \<Rightarrow> lmem \<Rightarrow> lmem" where
  "list_init h m = set_prev h h (set_next h h m)"

definition list_empty :: "u64 \<Rightarrow> lmem \<Rightarrow> bool" where
  "list_empty h m \<longleftrightarrow> l_next m h = h"

definition list_insert_tail :: "u64 \<Rightarrow> u64 \<Rightarrow> lmem \<Rightarrow> lmem" where
  "list_insert_tail h e m =
     (let m1 = set_next e h m;
          m2 = set_prev e (l_prev m1 h) m1;
          m3 = set_next (l_prev m2 h) e m2
      in set_prev h e m3)"

definition list_insert_head :: "u64 \<Rightarrow> u64 \<Rightarrow> lmem \<Rightarrow> lmem" where
  "list_insert_head h e m =
     (let m1 = set_next e (l_next m h) m;
          m2 = set_prev e h m1;
          m3 = set_prev (l_next m2 h) e m2
      in set_next h e m3)"

definition list_remove :: "u64 \<Rightarrow> lmem \<Rightarrow> lmem" where
  "list_remove e m =
     (let m1 = set_prev (l_next m e) (l_prev m e) m;
          m2 = set_next (l_prev m1 e) (l_next m1 e) m1
      in set_prev e e (set_next e e m2))"

text \<open>The traversal of \<open>LIST_FOR_EACH_SAFE\<close>, the entries in order, with a bound on their number.\<close>

fun list_walk :: "nat \<Rightarrow> u64 \<Rightarrow> u64 \<Rightarrow> lmem \<Rightarrow> u64 list option" where
  "list_walk 0 h e m = (if e = h then Some [] else None)"
| "list_walk (Suc n) h e m = (if e = h then Some [] else map_option ((#) e) (list_walk n h (l_next m e) m))"

definition list_entries :: "nat \<Rightarrow> u64 \<Rightarrow> lmem \<Rightarrow> u64 list option" where
  "list_entries n h m = list_walk n h (l_next m h) m"

section \<open>What the memory represents\<close>

fun linked :: "lmem \<Rightarrow> u64 list \<Rightarrow> bool" where
  "linked m [] \<longleftrightarrow> True"
| "linked m [a] \<longleftrightarrow> True"
| "linked m (a # b # r) \<longleftrightarrow> l_next m a = b \<and> l_prev m b = a \<and> linked m (b # r)"

definition is_list :: "lmem \<Rightarrow> u64 \<Rightarrow> u64 list \<Rightarrow> bool" where
  "is_list m h xs \<longleftrightarrow> distinct (h # xs) \<and> linked m (h # xs @ [h])"

named_theorems link_simps "reading a link after a write"

lemma next_set [link_simps]:
  "l_next (set_next a v m) = (l_next m)(a := v)" "l_next (set_prev a v m) = l_next m"
  by (simp_all add: set_next_def set_prev_def)

lemma prev_set [link_simps]:
  "l_prev (set_prev a v m) = (l_prev m)(a := v)" "l_prev (set_next a v m) = l_prev m"
  by (simp_all add: set_next_def set_prev_def)

lemma linked_append: "linked m (xs @ a # ys) \<longleftrightarrow> linked m (xs @ [a]) \<and> linked m (a # ys)"
  by (induction xs rule: linked.induct[where ?a0.0 = m]) (cases ys; auto)+

lemma linked_cong:
  assumes "\<And>a. a \<in> set (butlast xs) \<Longrightarrow> l_next m' a = l_next m a"
    and "\<And>b. b \<in> set (tl xs) \<Longrightarrow> l_prev m' b = l_prev m b"
  shows "linked m' xs \<longleftrightarrow> linked m xs"
  using assms
proof (induction m xs rule: linked.induct)
  case (3 m a b r)
  have "linked m' (b # r) \<longleftrightarrow> linked m (b # r)"
    by (rule "3.IH") (use "3.prems" in \<open>auto dest: list.set_sel(2)\<close>)
  then show ?case using "3.prems"(1)[of a] "3.prems"(2)[of b] by simp
qed auto

text \<open>A list cut at one link: what is before, the two ends of the link, what is after.\<close>

lemma is_list_cut:
  assumes l: "is_list m h (as @ bs)"
  obtains ys p q zs where "h # as = ys @ [p]" "bs @ [h] = q # zs" "l_next m p = q" "l_prev m q = p"
    "linked m (ys @ [p])" "linked m (q # zs)"
proof -
  define ys p q zs where d: "ys = butlast (h # as)" "p = last (h # as)" "q = hd (bs @ [h])" "zs = tl (bs @ [h])"
  have e1: "h # as = ys @ [p]" unfolding d by (rule append_butlast_last_id[symmetric]) simp
  have e2: "bs @ [h] = q # zs" unfolding d by (cases bs) auto
  have "linked m ((h # as) @ (bs @ [h]))" using l by (simp add: is_list_def)
  then have "linked m (ys @ p # (q # zs))" unfolding e1 e2 by simp
  then have "linked m (ys @ [p])" "linked m (p # q # zs)" using linked_append[of m ys p "q # zs"] by blast+
  then show thesis using that e1 e2 by simp
qed

lemma cut_ends:
  assumes "h # as = ys @ [p]" "bs @ [h] = q # zs" "distinct (h # as @ bs)"
  shows "p \<notin> set ys" "q \<notin> set zs" "h \<notin> set (tl (ys @ [p]))" "h \<notin> set (butlast (q # zs))"
    "set (tl (ys @ [p])) = set as" "set (butlast (q # zs)) = set bs" "p \<in> set (h # as)" "q \<in> insert h (set bs)"
    "set zs \<subseteq> insert h (set bs)" "set ys \<subseteq> set (h # as)" "q \<notin> set as" "p \<notin> set bs"
proof -
  have "distinct (h # as)" "distinct (bs @ [h])" using assms(3) by auto
  then have d1: "distinct (ys @ [p])" and d2: "distinct (q # zs)" by (simp_all only: assms(1,2))
  have t: "tl (ys @ [p]) = as" using assms(1) by (metis list.sel(3))
  have b: "butlast (q # zs) = bs" using assms(2) by (metis butlast_snoc)
  show "p \<notin> set ys" "q \<notin> set zs" using d1 d2 by auto
  show "h \<notin> set (tl (ys @ [p]))" "h \<notin> set (butlast (q # zs))" unfolding t b using assms(3) by auto
  show "set (tl (ys @ [p])) = set as" "set (butlast (q # zs)) = set bs" unfolding t b by auto
  have s1: "set (ys @ [p]) = set (h # as)" by (simp only: assms(1))
  have s2: "set (q # zs) = insert h (set bs)" by (simp flip: assms(2))
  show "p \<in> set (h # as)" "set ys \<subseteq> set (h # as)" using s1 by auto
  show "q \<in> insert h (set bs)" "set zs \<subseteq> insert h (set bs)" using s2 by auto
  then show "q \<notin> set as" using assms(3) by auto
  have "p \<in> set (h # as)" using s1 by auto
  then show "p \<notin> set bs" using assms(3) by auto
qed


text \<open>Linking \<open>e\<close> between the two ends of a link, and cutting it out again.\<close>

lemma is_list_link:
  assumes l: "is_list m h (as @ bs)" and e: "e \<notin> set (h # as @ bs)"
    and p: "p = last (h # as)" and q: "q = hd (bs @ [h])"
    and n': "l_next m' = (l_next m)(p := e, e := q)" and p': "l_prev m' = (l_prev m)(q := e, e := p)"
  shows "is_list m' h (as @ e # bs)"
proof -
  obtain ys p0 q0 zs where c: "h # as = ys @ [p0]" "bs @ [h] = q0 # zs"
    and k: "l_next m p0 = q0" "l_prev m q0 = p0" "linked m (ys @ [p0])" "linked m (q0 # zs)"
    using l by (rule is_list_cut)
  have pq: "p0 = p" "q0 = q" unfolding p q c by simp_all
  have dist: "distinct (h # as @ bs)" using l by (simp add: is_list_def)
  note ends = cut_ends[OF c dist, unfolded pq]
  have ne: "p \<noteq> e" "q \<noteq> e" using ends(7,8) e by auto
  have 1: "linked m' (ys @ [p])"
    using k(3)[unfolded pq] by (subst linked_cong[where m = m]) (use ends e n' p' in \<open>auto simp: butlast_append\<close>)
  have 2: "linked m' (q # zs)"
    using k(4)[unfolded pq] by (subst linked_cong[where m = m]) (use ends e n' p' in auto)
  have "linked m' (p # e # q # zs)" using 2 n' p' ne by simp
  then have "linked m' (ys @ p # e # q # zs)" using 1 linked_append by blast
  then have "linked m' ((ys @ [p]) @ e # (q # zs))" by simp
  then have "linked m' (h # as @ e # bs @ [h])" by (simp flip: c[unfolded pq])
  moreover have "distinct (h # as @ e # bs)" using dist e by auto
  ultimately show ?thesis by (simp add: is_list_def)
qed

lemma is_list_unlink:
  assumes l: "is_list m h (as @ e # bs)"
  shows "is_list (list_remove e m) h (as @ bs)"
    and "l_next (list_remove e m) e = e" and "l_prev (list_remove e m) e = e"
proof -
  obtain ys p0 e0 zs' where c: "h # as = ys @ [p0]" "(e # bs) @ [h] = e0 # zs'"
    and k: "l_next m p0 = e0" "l_prev m e0 = p0" "linked m (ys @ [p0])" "linked m (e0 # zs')"
    using l by (rule is_list_cut)
  have e0: "e0 = e" "zs' = bs @ [h]" using c(2) by auto
  obtain q zs where q: "bs @ [h] = q # zs" by (cases bs) auto
  have dist: "distinct (h # as @ e # bs)" using l by (simp add: is_list_def)
  then have dist': "distinct (h # as @ bs)" and en: "e \<notin> set (h # as @ bs)" by auto
  note ends = cut_ends[OF c(1) q dist']
  have k4: "l_next m e = q" "l_prev m q = e" "linked m (q # zs)" using k(4) e0 q by simp_all
  have ne: "p0 \<noteq> e" "q \<noteq> e" using ends(7,8) en by auto
  define m' where "m' = list_remove e m"
  have n': "l_next m' = (l_next m)(p0 := q, e := e)" and p': "l_prev m' = (l_prev m)(q := p0, e := e)"
    using k(2) k4(1) ne unfolding m'_def e0 list_remove_def Let_def by (auto simp: link_simps)
  have 1: "linked m' (ys @ [p0])"
    using k(3) by (subst linked_cong[where m = m]) (use ends en n' p' in \<open>auto simp: butlast_append\<close>)
  have 2: "linked m' (q # zs)"
    using k4(3) by (subst linked_cong[where m = m]) (use ends en n' p' in auto)
  have "linked m' (p0 # q # zs)" using 2 n' p' ne by simp
  then have "linked m' (ys @ p0 # q # zs)" using 1 linked_append by blast
  then have "linked m' ((ys @ [p0]) @ (q # zs))" by simp
  then have "linked m' (h # as @ bs @ [h])" by (simp flip: c(1) q)
  then show "is_list (list_remove e m) h (as @ bs)" using dist' by (simp add: is_list_def m'_def)
  show "l_next (list_remove e m) e = e" "l_prev (list_remove e m) e = e"
    using n' p' by (simp_all add: m'_def)
qed

section \<open>The operations implement the list operations\<close>

lemma list_init_ok: "is_list (list_init h m) h []"
  by (simp add: is_list_def list_init_def link_simps)

lemma list_empty_iff:
  assumes "is_list m h xs"
  shows "list_empty h m \<longleftrightarrow> xs = []"
  using assms by (cases xs) (auto simp: is_list_def list_empty_def)

lemma list_insert_tail_ok:
  assumes l: "is_list m h xs" and e: "e \<notin> set (h # xs)"
  shows "is_list (list_insert_tail h e m) h (xs @ [e])"
proof -
  obtain ys p q zs where c: "h # xs = ys @ [p]" "[] @ [h] = q # zs" and k: "l_prev m q = p"
    by (rule is_list_cut[of m h xs "[]"]) (use l in auto)
  have p: "l_prev m h = last (h # xs)" and pe: "last (h # xs) \<noteq> e"
    using c k e last_in_set[of "h # xs"] by (auto simp del: last.simps)
  have he: "h \<noteq> e" using e by auto
  show ?thesis
  proof (rule is_list_link[of m h xs "[]", simplified])
    show "l_next (list_insert_tail h e m) = (l_next m)(last (h # xs) := e, e := h)"
      using p pe he by (auto simp: list_insert_tail_def Let_def link_simps fun_eq_iff)
    show "l_prev (list_insert_tail h e m) = (l_prev m)(h := e, e := last (h # xs))"
      using p he by (auto simp: list_insert_tail_def Let_def link_simps fun_eq_iff)
  qed (use l e in auto)
qed

lemma list_insert_head_ok:
  assumes l: "is_list m h xs" and e: "e \<notin> set (h # xs)"
  shows "is_list (list_insert_head h e m) h (e # xs)"
proof -
  have q: "l_next m h = hd (xs @ [h])" using l by (cases xs) (auto simp: is_list_def)
  have qe: "hd (xs @ [h]) \<noteq> e" using e by (cases xs) auto
  have he: "h \<noteq> e" using e by auto
  show ?thesis
  proof (rule is_list_link[of m h "[]" xs, simplified])
    show "l_next (list_insert_head h e m) = (l_next m)(h := e, e := hd (xs @ [h]))"
      using q he by (auto simp: list_insert_head_def Let_def link_simps fun_eq_iff)
    show "l_prev (list_insert_head h e m) = (l_prev m)(hd (xs @ [h]) := e, e := h)"
      using q qe he by (auto simp: list_insert_head_def Let_def link_simps fun_eq_iff)
  qed (use l e in auto)
qed

lemma klist_remove_ok:
  assumes l: "is_list m h xs" and e: "e \<in> set xs"
  shows "is_list (list_remove e m) h (remove1 e xs)"
    and "l_next (list_remove e m) e = e" and "l_prev (list_remove e m) e = e"
proof -
  obtain as bs where x: "xs = as @ e # bs" using e by (meson split_list)
  moreover have "e \<notin> set as" using l x by (auto simp: is_list_def)
  ultimately have r: "remove1 e xs = as @ bs" by (simp add: remove1_append)
  show "is_list (list_remove e m) h (remove1 e xs)" "l_next (list_remove e m) e = e" "l_prev (list_remove e m) e = e"
    using is_list_unlink[OF l[unfolded x]] unfolding r by auto
qed

lemma list_remove_again:
  assumes "l_next m e = e" "l_prev m e = e"
  shows "list_remove e m = m"
proof -
  have "l_next (list_remove e m) = l_next m" "l_prev (list_remove e m) = l_prev m"
    using assms by (simp_all add: list_remove_def Let_def link_simps fun_upd_idem)
  then show ?thesis by simp
qed

lemma list_walk_ok:
  "linked m (a # xs @ [h]) \<Longrightarrow> h \<notin> set xs \<Longrightarrow> length xs \<le> n \<Longrightarrow> list_walk n h (l_next m a) m = Some xs"
proof (induction xs arbitrary: a n)
  case (Cons x xs)
  obtain k where n: "n = Suc k" using Cons.prems(3) by (cases n) auto
  have "list_walk k h (l_next m x) m = Some xs" by (rule Cons.IH) (use Cons.prems n in auto)
  then show ?case using Cons.prems n by auto
next
  case Nil
  then show ?case by (cases n) auto
qed

lemma list_entries_ok:
  assumes "is_list m h xs" "length xs \<le> n"
  shows "list_entries n h m = Some xs"
  using assms by (simp add: is_list_def list_entries_def list_walk_ok)

text \<open>The pointer lists implement HOL lists: on a memory that represents the list \<open>xs\<close> at head \<open>h\<close>,
  the emptiness test is exact, traversal yields the entries in order, inserting an entry that is
  not on the list appends or prepends it, removing an entry drops exactly that one and leaves it linked to itself,
  and removing it once more changes nothing.\<close>

theorem klist_refines:
  assumes l: "is_list m h xs"
  shows "(list_empty h m \<longleftrightarrow> xs = [])
    \<and> (length xs \<le> n \<longrightarrow> list_entries n h m = Some xs)
    \<and> (e \<notin> set (h # xs) \<longrightarrow> is_list (list_insert_tail h e m) h (xs @ [e])
                          \<and> is_list (list_insert_head h e m) h (e # xs))
    \<and> (e \<in> set xs \<longrightarrow> is_list (list_remove e m) h (remove1 e xs)
                     \<and> list_remove e (list_remove e m) = list_remove e m)"
proof (intro conjI impI)
  show "list_empty h m \<longleftrightarrow> xs = []" using l by (rule list_empty_iff)
  show "list_entries n h m = Some xs" if "length xs \<le> n" using l that by (rule list_entries_ok)
  show "is_list (list_insert_tail h e m) h (xs @ [e])" if "e \<notin> set (h # xs)" using l that by (rule list_insert_tail_ok)
  show "is_list (list_insert_head h e m) h (e # xs)" if "e \<notin> set (h # xs)" using l that by (rule list_insert_head_ok)
  show "is_list (list_remove e m) h (remove1 e xs)" if "e \<in> set xs" using l that by (rule klist_remove_ok)
  show "list_remove e (list_remove e m) = list_remove e m" if "e \<in> set xs"
    by (rule list_remove_again) (rule klist_remove_ok[OF l that])+
qed

theorem klist_refines_witness:
  "is_list (list_insert_tail 1 3 (list_insert_tail 1 2 (list_init 1 \<lparr>l_next = (\<lambda>_. 0), l_prev = (\<lambda>_. 0)\<rparr>))) 1 [2, 3]"
proof -
  let ?m = "list_init 1 \<lparr>l_next = (\<lambda>_. 0), l_prev = (\<lambda>_. 0)\<rparr>"
  have "is_list (list_insert_tail 1 2 ?m) 1 ([] @ [2])"
    using klist_refines[OF list_init_ok, of 1 _ 0 2] by simp
  from klist_refines[OF this, of 0 3] show ?thesis by simp
qed

end
