(* ===== verification/Spin.thy ===== *)
theory Spin
  imports Prelude
begin

text \<open>
  Ranked spin locks, \<^verbatim>\<open>kernel/ke/spin.c\<close>.  The processor keeps the stack of the ranks it holds;
  a lock may only be taken when its rank is above the top of the stack.  On one processor a lock
  that is found taken is never released, which is \<open>Hang\<close>.  The other theories leave the locks
  out: their critical sections are atomic, which is what this discipline buys.
\<close>

abbreviation (input) LOCK_DEPTH_MAX :: nat where "LOCK_DEPTH_MAX \<equiv> 8"

record spin_state =
  sp_locked :: "u64 \<Rightarrow> bool"
  sp_rank :: "u64 \<Rightarrow> nat"
  rank_stack :: "nat list"
  held_rank :: nat
  g_panic_in_progress :: bool

section \<open>Operations\<close>

definition spin_init :: "u64 \<Rightarrow> nat \<Rightarrow> spin_state \<Rightarrow> spin_state" where
  "spin_init l r s = s\<lparr>sp_locked := (sp_locked s)(l := False), sp_rank := (sp_rank s)(l := r)\<rparr>"

definition push_rank :: "u64 \<Rightarrow> spin_state \<Rightarrow> spin_state" where
  "push_rank l s = s\<lparr>sp_locked := (sp_locked s)(l := True), rank_stack := rank_stack s @ [sp_rank s l], held_rank := sp_rank s l\<rparr>"

text \<open>During a panic the lock is taken if it is free and ignored after a bounded wait if it is not.\<close>

definition spin_lock :: "u64 \<Rightarrow> spin_state \<Rightarrow> spin_state outcome" where
  "spin_lock l s =
     (if g_panic_in_progress s then Ret (s\<lparr>sp_locked := (sp_locked s)(l := True)\<rparr>)
      else if rank_stack s \<noteq> [] \<and> sp_rank s l \<le> held_rank s then Panic ''lock rank''
      else if rank_stack s \<noteq> [] \<and> length (rank_stack s) \<ge> LOCK_DEPTH_MAX then Panic ''lock nest overflow''
      else if sp_locked s l then Hang
      else Ret (push_rank l s))"

text \<open>The search from the top of the stack: the last occurrence of the rank goes.\<close>

definition drop_last :: "nat \<Rightarrow> nat list \<Rightarrow> nat list" where
  "drop_last r rs = rev (remove1 r (rev rs))"

definition spin_unlock :: "u64 \<Rightarrow> spin_state \<Rightarrow> spin_state" where
  "spin_unlock l s =
     (let s1 = s\<lparr>sp_locked := (sp_locked s)(l := False)\<rparr>
      in if rank_stack s1 = [] then s1
         else let rs = (if last (rank_stack s1) = sp_rank s1 l then butlast (rank_stack s1)
                        else drop_last (sp_rank s1 l) (rank_stack s1))
              in s1\<lparr>rank_stack := rs, held_rank := (if rs \<noteq> [] then last rs else 0)\<rparr>)"

definition spin_try :: "u64 \<Rightarrow> spin_state \<Rightarrow> spin_state \<times> bool" where
  "spin_try l s =
     (if sp_locked s l then (s, False)
      else if length (rank_stack s) < LOCK_DEPTH_MAX
      then if rank_stack s \<noteq> [] \<and> sp_rank s l \<le> held_rank s then (s, False) else (push_rank l s, True)
      else (s\<lparr>sp_locked := (sp_locked s)(l := True)\<rparr>, True))"

section \<open>The discipline\<close>

text \<open>
  \<open>held\<close> are the locks the processor holds, in the order it took them: the stack has their ranks, the ranks
  increase, and no other lock is taken.
\<close>

definition lock_inv :: "spin_state \<Rightarrow> u64 list \<Rightarrow> bool" where
  "lock_inv s held \<longleftrightarrow>
     rank_stack s = map (sp_rank s) held \<and> sorted_wrt (<) (rank_stack s)
     \<and> held_rank s = (if held = [] then 0 else sp_rank s (last held))
     \<and> (\<forall>l. sp_locked s l \<longleftrightarrow> l \<in> set held) \<and> length held \<le> LOCK_DEPTH_MAX"

text \<open>What the processor may do: take a lock, try one while the stack has room, release one it holds.\<close>

inductive lock_step :: "spin_state \<Rightarrow> u64 list \<Rightarrow> spin_state \<Rightarrow> u64 list \<Rightarrow> bool" where
  take: "spin_lock l s = Ret s' \<Longrightarrow> lock_step s held s' (held @ [l])"
| tried: "spin_try l s = (s', True) \<Longrightarrow> length (rank_stack s) < LOCK_DEPTH_MAX \<Longrightarrow> lock_step s held s' (held @ [l])"
| refused: "spin_try l s = (s', False) \<Longrightarrow> lock_step s held s' held"
| release: "l \<in> set held \<Longrightarrow> lock_step s held (spin_unlock l s) (remove1 l held)"

inductive lock_reach :: "spin_state \<Rightarrow> u64 list \<Rightarrow> spin_state \<Rightarrow> u64 list \<Rightarrow> bool" where
  start: "lock_reach s held s held"
| step: "lock_reach s held s1 held1 \<Longrightarrow> lock_step s1 held1 s2 held2 \<Longrightarrow> lock_reach s held s2 held2"

lemma strict_sorted_le_last: "sorted_wrt (<) xs \<Longrightarrow> x \<in> set xs \<Longrightarrow> x \<le> (last xs :: nat)"
  by (induction xs) (auto intro: less_imp_le)

lemma held_distinct: "lock_inv s held \<Longrightarrow> distinct held"
  unfolding lock_inv_def by (metis distinct_map strict_sorted_iff)

lemma push_rank_inv:
  assumes i: "lock_inv s held" and r: "held \<noteq> [] \<Longrightarrow> held_rank s < sp_rank s l"
    and d: "length held < LOCK_DEPTH_MAX"
  shows "lock_inv (push_rank l s) (held @ [l])"
proof -
  have "\<forall>x\<in>set held. sp_rank s x < sp_rank s l"
  proof
    fix x assume x: "x \<in> set held"
    then have "sp_rank s x \<le> last (rank_stack s)"
      using i strict_sorted_le_last[of "rank_stack s" "sp_rank s x"] by (auto simp: lock_inv_def)
    also have "\<dots> = held_rank s" using i x by (auto simp: lock_inv_def last_map)
    also have "\<dots> < sp_rank s l" using r x by (cases held) auto
    finally show "sp_rank s x < sp_rank s l" .
  qed
  then show ?thesis using i d by (auto simp: lock_inv_def push_rank_def sorted_wrt_append)
qed

lemma last_below_held: "lock_inv s held \<Longrightarrow> l \<in> set held \<Longrightarrow> sp_rank s l \<le> held_rank s"
  using strict_sorted_le_last[of "rank_stack s" "sp_rank s l"] by (auto simp: lock_inv_def last_map)

lemma spin_lock_cases:
  assumes i: "lock_inv s held" and p: "\<not> g_panic_in_progress s"
  shows "spin_lock l s =
     (if held \<noteq> [] \<and> sp_rank s l \<le> held_rank s then Panic ''lock rank''
      else if held \<noteq> [] \<and> length held \<ge> LOCK_DEPTH_MAX then Panic ''lock nest overflow''
      else Ret (push_rank l s))"
proof -
  have "\<not> sp_locked s l" if "held = [] \<or> held_rank s < sp_rank s l"
    using that i last_below_held[OF i, of l] by (auto simp: lock_inv_def)
  then show ?thesis using i p unfolding spin_lock_def by (auto simp: lock_inv_def)
qed

lemma drop_last_map:
  assumes "sorted_wrt (<) (map f xs)" "x \<in> set xs"
  shows "drop_last (f x) (map f xs :: nat list) = map f (remove1 x xs)"
proof -
  have d: "distinct (map f xs)" using assms(1) strict_sorted_iff by blast
  obtain as bs where x: "xs = as @ x # bs" using assms(2) by (meson split_list)
  have "f x \<notin> set (map f bs)" "x \<notin> set as" using d x by auto
  then show ?thesis using x by (simp add: drop_last_def remove1_append)
qed

lemma butlast_drop_last: "xs \<noteq> [] \<Longrightarrow> last xs = r \<Longrightarrow> butlast xs = drop_last r xs"
  by (cases xs rule: rev_cases) (auto simp: drop_last_def)

lemma sorted_remove1: "sorted_wrt (<) (map f xs) \<Longrightarrow> sorted_wrt (<) (map f (remove1 x xs) :: nat list)"
  by (induction xs) (auto dest: notin_set_remove1)

lemma spin_unlock_inv:
  assumes i: "lock_inv s held" and l: "l \<in> set held"
  shows "lock_inv (spin_unlock l s) (remove1 l held)"
proof -
  have st: "rank_stack s = map (sp_rank s) held" "sorted_wrt (<) (map (sp_rank s) held)" using i by (auto simp: lock_inv_def)
  have ne: "rank_stack s \<noteq> []" using st l by auto
  have rs: "(if last (rank_stack s) = sp_rank s l then butlast (rank_stack s) else drop_last (sp_rank s l) (rank_stack s))
            = map (sp_rank s) (remove1 l held)"
    using butlast_drop_last[OF ne] drop_last_map[OF st(2) l] st(1) by simp
  have d: "distinct held" using i by (rule held_distinct)
  let ?rs = "map (sp_rank s) (remove1 l held)"
  have e: "spin_unlock l s =
      s\<lparr>sp_locked := (sp_locked s)(l := False), rank_stack := ?rs, held_rank := (if ?rs \<noteq> [] then last ?rs else 0)\<rparr>"
  proof -
    define s1 where "s1 = s\<lparr>sp_locked := (sp_locked s)(l := False)\<rparr>"
    have f: "rank_stack s1 = rank_stack s" "sp_rank s1 = sp_rank s" by (simp_all add: s1_def)
    show ?thesis
      unfolding spin_unlock_def Let_def s1_def[symmetric] f rs using ne by (simp only: if_False)
  qed
  have "sorted_wrt (<) ?rs" using st(2) by (rule sorted_remove1)
  moreover have "length (remove1 l held) \<le> LOCK_DEPTH_MAX" using i by (auto simp: lock_inv_def length_remove1)
  moreover have "(l' \<in> set held \<and> l' \<noteq> l) \<longleftrightarrow> l' \<in> set (remove1 l held)" for l' using d by auto
  ultimately show ?thesis using i unfolding e by (auto simp: lock_inv_def last_map)
qed

lemma spin_try_inv:
  assumes i: "lock_inv s held" and t: "spin_try l s = (s', ok)" and d: "ok \<Longrightarrow> length (rank_stack s) < LOCK_DEPTH_MAX"
  shows "lock_inv s' (if ok then held @ [l] else held)"
  using t i d push_rank_inv[OF i, of l] unfolding spin_try_def by (auto simp: lock_inv_def split: if_splits)

lemma lock_step_inv:
  assumes "lock_step s held s' held'" "lock_inv s held" "\<not> g_panic_in_progress s"
  shows "lock_inv s' held' \<and> \<not> g_panic_in_progress s'"
  using assms(1)
proof cases
  case (take l)
  note 1 = this
  have "s' = push_rank l s" "held = [] \<or> held_rank s < sp_rank s l" "held = [] \<or> length held < LOCK_DEPTH_MAX"
    using 1 spin_lock_cases[OF assms(2,3), of l] by (auto split: if_splits)
  then show ?thesis using 1 push_rank_inv[OF assms(2), of l] assms(3) by (auto simp: push_rank_def)
next
  case (tried l)
  then show ?thesis using spin_try_inv[OF assms(2) tried(2)] assms(3)
    by (auto simp: spin_try_def push_rank_def split: if_splits)
next
  case (refused l)
  then show ?thesis using spin_try_inv[OF assms(2) refused(2)] assms(3)
    by (auto simp: spin_try_def push_rank_def split: if_splits)
next
  case (release l)
  then show ?thesis using spin_unlock_inv[OF assms(2), of l] assms(3) by (auto simp: spin_unlock_def Let_def)
qed

lemma lock_reach_inv:
  "lock_reach s held s' held' \<Longrightarrow> lock_inv s held \<Longrightarrow> \<not> g_panic_in_progress s
   \<Longrightarrow> lock_inv s' held' \<and> \<not> g_panic_in_progress s'"
  by (induction rule: lock_reach.induct) (use lock_step_inv in auto)



end
