(* ===== verification/Strings.thy ===== *)
theory Strings
  imports Prelude
begin

text \<open>
  The memory and string routines of \<^verbatim>\<open>kernel/lib/string.c\<close> on a byte-addressed memory, with the loops
  of the code, and their specifications: block moves for \<open>memcpy\<close>, \<open>memmove\<close> and \<open>memset\<close>, and
  operations on zero-terminated strings for the rest.  The component theories use the
  specifications (\<open>cut\<close> for \<open>strlcpy\<close>, \<open>@\<close> and \<open>cut\<close> for \<open>strlcat\<close>, equality for \<open>strcmp\<close>).  A loop that
  finds no terminating zero is \<open>None\<close>.
\<close>

type_synonym bytes = "u64 \<Rightarrow> u8"

section \<open>Blocks\<close>

fun copy_up :: "nat \<Rightarrow> u64 \<Rightarrow> u64 \<Rightarrow> bytes \<Rightarrow> bytes" where
  "copy_up 0 d s m = m"
| "copy_up (Suc n) d s m = copy_up n (d + 1) (s + 1) (m(d := m s))"

fun copy_down :: "nat \<Rightarrow> u64 \<Rightarrow> u64 \<Rightarrow> bytes \<Rightarrow> bytes" where
  "copy_down 0 d s m = m"
| "copy_down (Suc n) d s m = copy_down n d s (m(d + of_nat n := m (s + of_nat n)))"

definition memcpy :: "u64 \<Rightarrow> u64 \<Rightarrow> nat \<Rightarrow> bytes \<Rightarrow> bytes" where
  "memcpy d s n m = copy_up n d s m"

definition memmove :: "u64 \<Rightarrow> u64 \<Rightarrow> nat \<Rightarrow> bytes \<Rightarrow> bytes" where
  "memmove d s n m =
     (if d = s \<or> n = 0 then m else if d < s then copy_up n d s m else copy_down n d s m)"

fun memset_loop :: "nat \<Rightarrow> u64 \<Rightarrow> u8 \<Rightarrow> bytes \<Rightarrow> bytes" where
  "memset_loop 0 d c m = m"
| "memset_loop (Suc n) d c m = memset_loop n (d + 1) c (m(d := c))"

definition memset :: "u64 \<Rightarrow> u32 \<Rightarrow> nat \<Rightarrow> bytes \<Rightarrow> bytes" where
  "memset d c n m = memset_loop n d (ucast c) m"

fun memcmp :: "nat \<Rightarrow> u64 \<Rightarrow> u64 \<Rightarrow> bytes \<Rightarrow> int" where
  "memcmp 0 a b m = 0"
| "memcmp (Suc n) a b m = (if m a \<noteq> m b then uint (m a) - uint (m b) else memcmp n (a + 1) (b + 1) m)"

section \<open>Strings\<close>

partial_function (option) strlen_loop :: "u64 \<Rightarrow> nat \<Rightarrow> bytes \<Rightarrow> nat option" where
  "strlen_loop s n m = (if m s = 0 then Some n else strlen_loop (s + 1) (Suc n) m)"

definition strlen :: "u64 \<Rightarrow> bytes \<Rightarrow> nat option" where
  "strlen s m = (if s = 0 then Some 0 else strlen_loop s 0 m)"

partial_function (option) strcmp :: "u64 \<Rightarrow> u64 \<Rightarrow> bytes \<Rightarrow> int option" where
  "strcmp a b m =
     (if m a \<noteq> 0 \<and> m a = m b then strcmp (a + 1) (b + 1) m else Some (uint (m a) - uint (m b)))"

fun strncmp :: "nat \<Rightarrow> u64 \<Rightarrow> u64 \<Rightarrow> bytes \<Rightarrow> int" where
  "strncmp 0 a b m = 0"
| "strncmp (Suc n) a b m =
     (if m a \<noteq> 0 \<and> m a = m b then strncmp n (a + 1) (b + 1) m else uint (m a) - uint (m b))"

partial_function (option) strchr :: "u64 \<Rightarrow> u8 \<Rightarrow> bytes \<Rightarrow> u64 option" where
  "strchr s c m =
     (if m s = 0 then Some (if c = 0 then s else 0) else if m s = c then Some s else strchr (s + 1) c m)"

partial_function (option) strrchr_loop :: "u64 \<Rightarrow> u8 \<Rightarrow> u64 \<Rightarrow> bytes \<Rightarrow> u64 option" where
  "strrchr_loop s c last_hit m =
     (let hit = (if m s = c then s else last_hit)
      in if m s = 0 then Some hit else strrchr_loop (s + 1) c hit m)"

definition strrchr :: "u64 \<Rightarrow> u8 \<Rightarrow> bytes \<Rightarrow> u64 option" where
  "strrchr s c m = (if s = 0 then Some 0 else strrchr_loop s c 0 m)"

text \<open>The copy loop of \<open>strlcpy\<close>: the memory and the index where it stops.\<close>

partial_function (option) lcpy_loop :: "u64 \<Rightarrow> u64 \<Rightarrow> nat \<Rightarrow> nat \<Rightarrow> bytes \<Rightarrow> (bytes \<times> nat) option" where
  "lcpy_loop d s cap n m =
     (if m (s + of_nat n) \<noteq> 0 \<and> n + 1 < cap
      then lcpy_loop d s cap (Suc n) (m(d + of_nat n := m (s + of_nat n))) else Some (m, n))"

definition strlcpy :: "u64 \<Rightarrow> u64 \<Rightarrow> nat \<Rightarrow> bytes \<Rightarrow> (bytes \<times> nat) option" where
  "strlcpy d s cap m =
     (if d = 0 \<or> cap = 0 then map_option (\<lambda>n. (m, n)) (if s \<noteq> 0 then strlen s m else Some 0)
      else if s = 0 then Some (m(d := 0), 0)
      else case lcpy_loop d s cap 0 m of
             None \<Rightarrow> None
           | Some (m1, n) \<Rightarrow>
               let m2 = m1(d + of_nat n := 0)
               in map_option (\<lambda>k. (m2, k)) (strlen_loop (s + of_nat n) n m2))"

definition strlcat :: "u64 \<Rightarrow> u64 \<Rightarrow> nat \<Rightarrow> bytes \<Rightarrow> (bytes \<times> nat) option" where
  "strlcat d s cap m =
     (case (if d \<noteq> 0 then strlen d m else Some 0) of
        None \<Rightarrow> None
      | Some k \<Rightarrow>
          if d = 0 \<or> cap = 0 then map_option (\<lambda>n. (m, k + n)) (if s \<noteq> 0 then strlen s m else Some 0)
          else if s = 0 then map_option (\<lambda>(m1, n). (m1, k + n)) (if cap > k then Some (m(d + of_nat k := 0), 0) else Some (m, 0))
          else map_option (\<lambda>(m1, n). (m1, k + n)) (strlcpy (d + of_nat k) s (if cap > k then cap - k else 0) m))"

section \<open>Specifications\<close>

text \<open>The block of \<open>n\<close> bytes at \<open>s\<close> copied to \<open>d\<close>, all bytes read before any is written.\<close>

definition moved :: "u64 \<Rightarrow> u64 \<Rightarrow> nat \<Rightarrow> bytes \<Rightarrow> bytes" where
  "moved d s n m = (\<lambda>x. if unat (x - d) < n then m (s + (x - d)) else m x)"

text \<open>A zero-terminated string in memory.\<close>

fun cstr :: "bytes \<Rightarrow> u64 \<Rightarrow> u8 list \<Rightarrow> bool" where
  "cstr m a [] \<longleftrightarrow> m a = 0"
| "cstr m a (c # cs) \<longleftrightarrow> c \<noteq> 0 \<and> m a = c \<and> cstr m (a + 1) cs"

lemma unat_sub_Suc:
  fixes x d :: u64
  assumes "x \<noteq> d"
  shows "unat (x - d) = Suc (unat (x - (d + 1)))"
proof -
  have "x - d \<noteq> 0" using assms by simp
  then have "unat (x - d - 1) = unat (x - d) - 1" by (rule unat_minus_one)
  moreover have "0 < unat (x - d)" using \<open>x - d \<noteq> 0\<close> by (simp add: unat_gt_0)
  ultimately show ?thesis by (simp add: diff_diff_add)
qed

lemma unat_nat64: "n < 2 ^ 64 \<Longrightarrow> unat (of_nat n :: u64) = n"
  by (simp add: unat_of_nat take_bit_nat_eq_self)

lemma len64: "LENGTH(64) = 64"
  by simp

lemma unat_before: "unat (d - (d + 1) :: u64) = 2 ^ 64 - 1"
proof -
  have "d - (d + 1) = (- 1 :: u64)" by simp
  then show ?thesis by (simp only: unsigned_minus_1_eq_mask) (simp add: mask_eq_exp_minus_1)
qed

lemma sum_wrap_zero:
  fixes a b :: u64
  assumes "a + b = 0" "b \<noteq> 0"
  shows "unat a + unat b = 2 ^ 64"
proof -
  have "unat a < 2 ^ 64" "unat b < 2 ^ 64" using unsigned_less[of a] unsigned_less[of b] by simp_all
  then have "unat a + unat b < 2 * 2 ^ 64" by simp
  moreover have "(unat a + unat b) mod 2 ^ 64 = 0" using arg_cong[OF assms(1), of unat] by (simp add: unat_word_ariths)
  moreover have "0 < unat b" using assms(2) by (simp add: unat_gt_0)
  ultimately show ?thesis by (auto simp: mod_eq_0_iff_dvd dvd_def)
qed

text \<open>The distance from target to source decides which direction is safe.\<close>

lemma copy_up_moved:
  "unat (s - d) + n \<le> 2 ^ 64 \<Longrightarrow> copy_up n d s m = moved d s n m"
proof (induction n arbitrary: d s m)
  case 0
  then show ?case by (simp add: moved_def)
next
  case (Suc n)
  let ?m = "m(d := m s)"
  have "copy_up n (d + 1) (s + 1) ?m = moved (d + 1) (s + 1) n ?m" by (rule Suc.IH) (use Suc.prems in simp)
  then have "copy_up (Suc n) d s m = moved (d + 1) (s + 1) n ?m" by (simp only: copy_up.simps)
  also have "\<dots> = moved d s (Suc n) m"
  proof
    fix x
    show "moved (d + 1) (s + 1) n ?m x = moved d s (Suc n) m x"
    proof (cases "x = d")
      case True
      have "unat (d - (d + 1)) = 2 ^ 64 - 1" by (rule unat_before)
      then show ?thesis using True Suc.prems by (simp add: moved_def)
    next
      case False
      have u: "unat (x - d) = Suc (unat (x - (d + 1)))" using False by (rule unat_sub_Suc)
      have "s + (x - d) \<noteq> d" if "unat (x - d) < Suc n"
      proof
        assume "s + (x - d) = d"
        then have "(s - d) + (x - d) = 0" by (simp add: algebra_simps)
        then have "unat (s - d) + unat (x - d) = 2 ^ 64" by (rule sum_wrap_zero) (use False in simp)
        then show False using that Suc.prems by simp
      qed
      moreover have "s + 1 + (x - (d + 1)) = s + (x - d)" by simp
      ultimately show ?thesis using False u by (simp add: moved_def)
    qed
  qed
  finally show ?case .
qed

lemma copy_down_moved:
  "unat (d - s) + n \<le> 2 ^ 64 \<Longrightarrow> copy_down n d s m = moved d s n m"
proof (induction n arbitrary: m)
  case 0
  then show ?case by (simp add: moved_def)
next
  case (Suc n)
  let ?m = "m(d + of_nat n := m (s + of_nat n))"
  have n: "unat (of_nat n :: u64) = n" using Suc.prems by (intro unat_nat64) simp
  have "copy_down n d s ?m = moved d s n ?m" by (rule Suc.IH) (use Suc.prems in simp)
  then have "copy_down (Suc n) d s m = moved d s n ?m" by (simp only: copy_down.simps)
  also have "\<dots> = moved d s (Suc n) m"
  proof
    fix x
    show "moved d s n ?m x = moved d s (Suc n) m x"
    proof (cases "x = d + of_nat n")
      case True
      then show ?thesis using n by (simp add: moved_def)
    next
      case False
      then have u: "unat (x - d) \<noteq> n" using n by (metis add_diff_cancel_left' diff_add_cancel word_unat_eq_iff add.commute)
      have "s + (x - d) \<noteq> d + of_nat n" if "unat (x - d) < n"
      proof
        assume "s + (x - d) = d + of_nat n"
        then have "x - d = (d - s) + of_nat n" by (simp add: algebra_simps)
        then have "unat (x - d) = unat ((d - s) + of_nat n)" by (rule arg_cong)
        also have "\<dots> = (unat (d - s) + unat (of_nat n :: u64)) mod 2 ^ 64" by (simp only: unat_word_ariths(1) len64)
        also have "\<dots> = unat (d - s) + n" using n Suc.prems by simp
        finally have "unat (x - d) = unat (d - s) + n" .
        then show False using that by simp
      qed
      then show ?thesis using False u by (auto simp: moved_def)
    qed
  qed
  finally show ?case .
qed

lemma moved_same: "moved d d n m = m"
  by (auto simp: moved_def)

lemma memset_loop_spec:
  "n \<le> 2 ^ 64 \<Longrightarrow> memset_loop n d c m = (\<lambda>x. if unat (x - d) < n then c else m x)"
proof (induction n arbitrary: d m)
  case (Suc n)
  have "unat (d - (d + 1)) = 2 ^ 64 - 1" by (rule unat_before)
  then have "(if unat (x - (d + 1)) < n then c else (m(d := c)) x) = (if unat (x - d) < Suc n then c else m x)" for x
    using Suc.prems unat_sub_Suc[of x d] by (cases "x = d") auto
  then show ?case using Suc by (simp add: fun_eq_iff)
qed auto

section \<open>Strings in memory\<close>

lemma cstr_iff:
  "cstr m a t \<longleftrightarrow> (\<forall>i<length t. m (a + of_nat i) = t ! i \<and> t ! i \<noteq> 0) \<and> m (a + of_nat (length t)) = 0"
proof (induction t arbitrary: a)
  case (Cons c t)
  have "(\<forall>i<length (c # t). m (a + of_nat i) = (c # t) ! i \<and> (c # t) ! i \<noteq> 0)
        \<longleftrightarrow> (m a = c \<and> c \<noteq> 0) \<and> (\<forall>i<length t. m (a + 1 + of_nat i) = t ! i \<and> t ! i \<noteq> 0)"
    by (auto simp: All_less_Suc2 add.assoc)
  then show ?case using Cons by (auto simp: add.assoc)
qed simp

lemma cstr_drop: "cstr m a t \<Longrightarrow> k \<le> length t \<Longrightarrow> cstr m (a + of_nat k) (drop k t)"
proof (induction t arbitrary: a k)
  case (Cons c t)
  show ?case
  proof (cases k)
    case (Suc j)
    then show ?thesis using Cons.IH[of "a + 1" j] Cons.prems by (simp add: add.assoc)
  qed (use Cons.prems in simp)
qed simp

lemma strlen_loop_cstr: "cstr m s t \<Longrightarrow> strlen_loop s n m = Some (n + length t)"
  by (induction t arbitrary: s n) (subst strlen_loop.simps, simp)+

lemma strcmp_cstr:
  "cstr m a t \<Longrightarrow> cstr m b u \<Longrightarrow>
   \<exists>r. strcmp a b m = Some r \<and> (r = 0 \<longleftrightarrow> t = u) \<and> (r < 0 \<longleftrightarrow> (t, u) \<in> lexord {(x, y). x < y})"
proof (induction t arbitrary: a b u)
  case Nil
  then show ?case
    by (subst strcmp.simps) (cases u; simp add: word_less_def uint_0_iff order.strict_iff_order)
next
  case (Cons c t)
  show ?case
  proof (cases u)
    case Nil
    then show ?thesis using Cons.prems by (subst strcmp.simps) (auto simp: uint_0_iff)
  next
    case (Cons e v)
    note u = this
    show ?thesis
    proof (cases "c = e")
      case True
      have "strcmp a b m = strcmp (a + 1) (b + 1) m" using Cons.prems u True by (subst strcmp.simps) simp
      then show ?thesis using Cons.IH[of "a + 1" "b + 1" v] Cons.prems u True by simp
    next
      case False
      have "strcmp a b m = Some (uint c - uint e)" using Cons.prems u False by (subst strcmp.simps) simp
      then show ?thesis using u False by (auto simp: word_less_def word_uint_eq_iff)
    qed
  qed
qed

text \<open>The target buffer does not touch the source string.\<close>

definition apart :: "u64 \<Rightarrow> nat \<Rightarrow> u64 \<Rightarrow> nat \<Rightarrow> bool" where
  "apart d cap s len \<longleftrightarrow> (\<forall>j<cap. \<forall>i\<le>len. d + of_nat j \<noteq> s + of_nat i)"

lemma unat_off: "unat (x - d :: u64) = j \<longleftrightarrow> j < 2 ^ 64 \<and> x = d + of_nat j"
proof
  show "j < 2 ^ 64 \<and> x = d + of_nat j" if "unat (x - d) = j"
    using that unsigned_less[of "x - d"] by (auto simp: algebra_simps)
qed (auto intro: unat_nat64)

lemma moved_apart:
  assumes "apart d cap s len" "k \<le> cap" "i \<le> len"
  shows "moved d s k m (s + of_nat i) = m (s + of_nat i)"
proof -
  have "\<not> unat (s + of_nat i - d) < k"
  proof
    let ?j = "unat (s + of_nat i - d)"
    assume "?j < k"
    then have "d + of_nat ?j \<noteq> s + of_nat i"
      using assms(2,3) assms(1)[unfolded apart_def, rule_format, of ?j i] by simp
    then show False using unat_off[of "s + of_nat i" d ?j] by simp
  qed
  then show ?thesis by (simp add: moved_def)
qed

lemma moved_Suc:
  "n < 2 ^ 64 \<Longrightarrow> (moved d s n m)(d + of_nat n := m (s + of_nat n)) = moved d s (Suc n) m"
  using unat_off[of _ d n] by (auto simp: moved_def fun_eq_iff less_Suc_eq)

lemma lcpy_loop_cstr:
  assumes t: "cstr m s t" and a: "apart d cap s (length t)" and c: "0 < cap" "cap \<le> 2 ^ 64"
    and k: "k = min (length t) (cap - 1)"
  shows "n \<le> k \<Longrightarrow> lcpy_loop d s cap n (moved d s n m) = Some (moved d s k m, k)"
proof (induction "k - n" arbitrary: n)
  case 0
  then have "n = k" by simp
  moreover have "moved d s k m (s + of_nat k) = m (s + of_nat k)"
    by (rule moved_apart[OF a]) (use k in auto)
  moreover have "m (s + of_nat k) = 0 \<or> \<not> k + 1 < cap"
    using t k unfolding cstr_iff by (cases "length t \<le> cap - 1") (auto simp: min_def)
  ultimately show ?case by (subst lcpy_loop.simps) auto
next
  case (Suc x)
  then have n: "n < length t" "n + 1 < cap" "n < 2 ^ 64" using k c by auto
  have e: "moved d s n m (s + of_nat n) = m (s + of_nat n)"
    by (rule moved_apart[OF a]) (use n in auto)
  have "m (s + of_nat n) \<noteq> 0" using t n(1) unfolding cstr_iff by auto
  then have "lcpy_loop d s cap n (moved d s n m) = lcpy_loop d s cap (Suc n) (moved d s (Suc n) m)"
    using n e by (subst lcpy_loop.simps) (simp add: moved_Suc)
  also have "\<dots> = Some (moved d s k m, k)" by (rule Suc.hyps(1)) (use Suc.hyps(2) in auto)
  finally show ?case .
qed

lemma strlcpy_cstr:
  assumes t: "cstr m s t" and a: "apart d cap s (length t)" and c: "0 < cap" "cap \<le> 2 ^ 64" and nz: "d \<noteq> 0" "s \<noteq> 0"
    and k: "k = min (length t) (cap - 1)"
  shows "strlcpy d s cap m = Some ((moved d s k m)(d + of_nat k := 0), length t)"
proof -
  let ?m = "(moved d s k m)(d + of_nat k := 0)"
  have kb: "k < cap" "k \<le> length t" using k c by auto
  have same: "?m (s + of_nat i) = m (s + of_nat i)" if "i \<le> length t" for i
  proof -
    have "s + of_nat i \<noteq> d + of_nat k" using a that kb unfolding apart_def by metis
    then show ?thesis using moved_apart[OF a _ that, of k] kb by simp
  qed
  have "cstr ?m s t" using t same unfolding cstr_iff by auto
  then have "strlen_loop (s + of_nat k) k ?m = Some (length t)"
    using strlen_loop_cstr[OF cstr_drop[OF _ kb(2)], of ?m s k] kb by simp
  moreover have "lcpy_loop d s cap 0 m = Some (moved d s k m, k)"
    using lcpy_loop_cstr[OF t a c k, of 0] by (simp add: moved_def)
  ultimately show ?thesis using nz c by (simp add: strlcpy_def)
qed

lemma moved_cstr:
  assumes t: "cstr m s t" and k: "k \<le> length t" "k < 2 ^ 64"
  shows "cstr ((moved d s k m)(d + of_nat k := 0)) d (take k t)"
proof -
  have "((moved d s k m)(d + of_nat k := 0)) (d + of_nat i) = take k t ! i \<and> take k t ! i \<noteq> 0" if "i < k" for i
  proof -
    have u: "unat (of_nat i :: u64) = i" using that k by (intro unat_nat64) simp
    have "(of_nat i :: u64) \<noteq> of_nat k" using that k u unat_nat64[of k] by auto
    then show ?thesis using t that k u unfolding cstr_iff by (simp add: moved_def)
  qed
  then show ?thesis using k unfolding cstr_iff by simp
qed

text \<open>Overlapping or not, \<open>memmove\<close> copies the block as it was before the call: for blocks that do not
  wrap around the end of the address space, every target byte has the source byte's old value and
  no other byte changes.\<close>

theorem memmove_spec:
  assumes "unat d + n \<le> 2 ^ 64" "unat s + n \<le> 2 ^ 64"
  shows "memmove d s n m = moved d s n m"
proof -
  have "unat (s - d) + n \<le> 2 ^ 64" if "d < s" using assms that by (simp add: unat_sub_if' word_less_nat_alt)
  moreover have "unat (d - s) + n \<le> 2 ^ 64" if "s < d" using assms that by (simp add: unat_sub_if' word_less_nat_alt)
  ultimately show ?thesis
    using copy_up_moved[of s d n m] copy_down_moved[of d s n m]
    by (auto simp: memmove_def moved_same moved_def not_less_iff_gr_or_eq dest: order.not_eq_order_implies_strict)
qed

theorem memmove_spec_witness:
  "memmove 11 10 3 (\<lambda>x. ucast x) = moved 11 10 3 (\<lambda>x. ucast x) \<and> memmove 11 10 3 (\<lambda>x. ucast x) 13 = (12 :: u8)"
proof
  show e: "memmove 11 10 3 (\<lambda>x. ucast x) = moved 11 10 3 (\<lambda>x. ucast x)" by (rule memmove_spec) simp_all
  show "memmove 11 10 3 (\<lambda>x. ucast x) 13 = (12 :: u8)" by (simp add: e moved_def)
qed

text \<open>\<open>strlcpy\<close> stays in its buffer and reports truncation: with a source string \<open>t\<close> outside the buffer of
  \<open>cap\<close> bytes, it returns the length of \<open>t\<close>, leaves in the buffer the string of the first \<open>cap - 1\<close>
  bytes of \<open>t\<close>, and changes no byte outside the buffer; so the result was cut exactly if the
  returned length is not below \<open>cap\<close>.\<close>

theorem strlcpy_spec:
  assumes "cstr m s t" "apart d cap s (length t)" "0 < cap" "cap \<le> 2 ^ 64" "d \<noteq> 0" "s \<noteq> 0"
  shows "\<exists>m'. strlcpy d s cap m = Some (m', length t) \<and> cstr m' d (take (cap - 1) t)
    \<and> (\<forall>x. (\<forall>j<cap. x \<noteq> d + of_nat j) \<longrightarrow> m' x = m x)
    \<and> (take (cap - 1) t = t \<longleftrightarrow> length t < cap)"
proof -
  define k where "k = min (length t) (cap - 1)"
  let ?m = "(moved d s k m)(d + of_nat k := 0)"
  have kb: "k < cap" "k \<le> length t" "k < 2 ^ 64" using assms(3,4) by (auto simp: k_def)
  have 1: "strlcpy d s cap m = Some (?m, length t)" by (rule strlcpy_cstr[OF assms k_def])
  have tk: "take k t = take (cap - 1) t" by (auto simp: k_def min_def)
  have 2: "cstr ?m d (take (cap - 1) t)" using moved_cstr[OF assms(1) kb(2,3), of d] unfolding tk .
  have 3: "?m x = m x" if x: "\<forall>j<cap. x \<noteq> d + of_nat j" for x
  proof -
    have "x = d + of_nat (unat (x - d))" using unat_off by blast
    then have "\<not> unat (x - d) < k" using x kb(1) order.strict_trans by blast
    then show ?thesis using x kb(1) by (simp add: moved_def)
  qed
  have 4: "take (cap - 1) t = t \<longleftrightarrow> length t < cap" using assms(3) by auto
  show ?thesis using 1 2 3 4 by blast
qed

theorem strlcpy_spec_witness:
  "\<exists>m'. strlcpy 100 10 3 (\<lambda>x. if x = 10 then 65 else if x = 11 then 66 else if x = 12 then 67 else 0) = Some (m', 3)
      \<and> cstr m' 100 [65, 66]"
proof -
  let ?m = "\<lambda>x :: u64. if x = 10 then 65 else if x = 11 then 66 else if x = 12 then 67 else 0 :: u8"
  have 1: "cstr ?m 10 [65, 66, 67]" by simp
  have "(of_nat j :: u64) + 100 \<noteq> of_nat i + 10" if "j < 3" "i \<le> 3" for i j :: nat
    using that by (auto simp: less_Suc_eq le_Suc_eq numeral_3_eq_3)
  then have 2: "apart 100 3 10 (length [65, 66, 67 :: u8])" by (auto simp: apart_def add.commute)
  show ?thesis using strlcpy_spec[OF 1 2] by auto
qed

end
