(* ===== verification/Fpu.thy ===== *)
theory Fpu
  imports Prelude
begin

text \<open>
  Lazy switching of the FPU, \<^verbatim>\<open>kernel/ke/fpu.c\<close>.  The register file is its FXSAVE image, 512 bytes:
  control words in the first 32, the x87 and XMM registers behind them.  \<open>fxsave\<close> and \<open>fxrstor\<close> copy the image,
  \<open>fninit\<close> resets the x87 control part and keeps the registers, \<open>ldmxcsr\<close> sets the SSE control word, as the
  processor manual has it.
\<close>

record fpu_state =
  g_fpu_owner :: u64
  cr0_ts :: bool
  fpu_regs :: "u8 list"
  fpu_image :: "u64 \<Rightarrow> u8 list"
  fpu_used :: "u64 \<Rightarrow> bool"

definition cr0_set_ts :: "bool \<Rightarrow> fpu_state \<Rightarrow> fpu_state" where
  "cr0_set_ts on s = s\<lparr>cr0_ts := on\<rparr>"

definition fninit :: "u8 list \<Rightarrow> u8 list" where
  "fninit r = [0x7F, 0x03] @ replicate 22 0 @ drop 24 r"

definition ldmxcsr :: "u8 list \<Rightarrow> u8 list" where
  "ldmxcsr r = take 24 r @ [0x80, 0x1F, 0, 0] @ drop 28 r"

definition fpu_init :: "fpu_state \<Rightarrow> fpu_state" where
  "fpu_init s = cr0_set_ts True (s\<lparr>fpu_regs := ldmxcsr (fninit (fpu_regs s)), g_fpu_owner := 0\<rparr>)"

definition fxsave :: "u64 \<Rightarrow> fpu_state \<Rightarrow> fpu_state" where
  "fxsave t s = s\<lparr>fpu_image := (fpu_image s)(t := fpu_regs s)\<rparr>"

definition fxrstor :: "u64 \<Rightarrow> fpu_state \<Rightarrow> fpu_state" where
  "fxrstor t s = s\<lparr>fpu_regs := fpu_image s t\<rparr>"

definition first_use :: "u64 \<Rightarrow> fpu_state \<Rightarrow> fpu_state" where
  "first_use t s =
     s\<lparr>fpu_regs := ldmxcsr (fninit (fpu_regs s)),
       fpu_image := (fpu_image s)(t := [0x7F, 0x03] @ replicate 510 0),
       fpu_used := (fpu_used s)(t := True)\<rparr>"

text \<open>The device-not-available trap of thread \<open>t\<close>.\<close>

definition fpu_nm :: "u64 \<Rightarrow> fpu_state \<Rightarrow> fpu_state outcome" where
  "fpu_nm t s =
     (if t = 0 then Panic ''#NM with no current thread''
      else let s1 = cr0_set_ts False s;
               s2 = (if g_fpu_owner s1 \<noteq> 0 \<and> g_fpu_owner s1 \<noteq> t then fxsave (g_fpu_owner s1) s1 else s1);
               s3 = (if fpu_used s2 t then fxrstor t s2 else first_use t s2)
           in Ret (s3\<lparr>g_fpu_owner := t\<rparr>))"

definition fpu_lazy_switch :: "fpu_state \<Rightarrow> fpu_state" where
  "fpu_lazy_switch s = cr0_set_ts True s"

definition fpu_drop :: "u64 \<Rightarrow> fpu_state \<Rightarrow> fpu_state" where
  "fpu_drop t s =
     (if t = 0 \<or> g_fpu_owner s \<noteq> t then s
      else let s1 = (if \<not> cr0_ts s then fxsave t s else s)
           in cr0_set_ts True (s1\<lparr>g_fpu_owner := 0\<rparr>))"

section \<open>What a thread sees\<close>

text \<open>The FPU contents of a thread that has used the FPU: the registers if it owns them, else its saved image.\<close>

definition fpu_view :: "fpu_state \<Rightarrow> u64 \<Rightarrow> u8 list" where
  "fpu_view s t = (if g_fpu_owner s = t then fpu_regs s else fpu_image s t)"

lemmas fpu_defs = fpu_nm_def fpu_view_def fxsave_def fxrstor_def first_use_def cr0_set_ts_def fpu_lazy_switch_def Let_def

text \<open>C40. A thread that takes the FPU over from another finds its own contents: when thread \<open>t\<close>, which has used the
  FPU before and does not own it, traps on its first instruction, the trap returns, the registers hold
  what \<open>t\<close> left, the unit is enabled, and every other thread's contents are preserved, those of the
  previous owner in its image.\<close>

theorem fpu_nm_handover:
  assumes "t \<noteq> 0" "g_fpu_owner s \<noteq> t" "fpu_used s t"
  shows "\<exists>s'. fpu_nm t s = Ret s' \<and> g_fpu_owner s' = t \<and> \<not> cr0_ts s' \<and> fpu_regs s' = fpu_view s t
    \<and> (\<forall>u. u \<noteq> 0 \<longrightarrow> fpu_view s' u = fpu_view s u)"
  using assms by (auto simp: fpu_defs)

theorem fpu_nm_handover_witness:
  "\<exists>s'. fpu_nm 2 \<lparr>g_fpu_owner = 1, cr0_ts = True, fpu_regs = [7], fpu_image = (\<lambda>u. [ucast u]), fpu_used = (\<lambda>u. True)\<rparr>
      = Ret s' \<and> fpu_regs s' = [2] \<and> fpu_view s' 1 = [7]"
proof -
  let ?s = "\<lparr>g_fpu_owner = 1, cr0_ts = True, fpu_regs = [7], fpu_image = (\<lambda>u. [ucast u]), fpu_used = (\<lambda>u. True)\<rparr> :: fpu_state"
  obtain s' where s': "fpu_nm 2 ?s = Ret s'" "fpu_regs s' = fpu_view ?s 2"
      "\<forall>u. u \<noteq> 0 \<longrightarrow> fpu_view s' u = fpu_view ?s u"
    using fpu_nm_handover[of 2 ?s] by auto
  have "fpu_view s' 1 = fpu_view ?s 1" using s'(3) by simp
  then have "fpu_view s' 1 = [7]" by (simp add: fpu_view_def)
  moreover have "fpu_regs s' = [2]" using s'(2) by (simp add: fpu_view_def)
  ultimately show ?thesis using s'(1) by blast
qed

text \<open>A thread that still owns the FPU loses its contents at a context switch: if it is switched out and in again
  with no other use of the FPU in between, its next FPU instruction traps, and the trap reloads
  the registers from the image saved at some earlier time, since the registers of an owner are
  not saved before its image is restored.\<close>

theorem fpu_nm_owner_loses:
  assumes "t \<noteq> 0" "g_fpu_owner s = t" "fpu_used s t"
  shows "\<exists>s'. fpu_nm t (fpu_lazy_switch s) = Ret s' \<and> fpu_regs s' = fpu_image s t"
  using assms by (auto simp: fpu_defs)

theorem fpu_nm_owner_loses_witness:
  "let s = \<lparr>g_fpu_owner = 1, cr0_ts = False, fpu_regs = [42], fpu_image = (\<lambda>u. [0x7F]), fpu_used = (\<lambda>u. True)\<rparr>
   in fpu_view s 1 = [42] \<and> (\<exists>s'. fpu_nm 1 (fpu_lazy_switch s) = Ret s' \<and> fpu_regs s' = [0x7F])"
  using fpu_nm_owner_loses[of 1 "\<lparr>g_fpu_owner = 1, cr0_ts = False, fpu_regs = [42], fpu_image = (\<lambda>u. [0x7F]), fpu_used = (\<lambda>u. True)\<rparr>"]
  by (simp add: fpu_view_def)

lemma first_use_keeps_registers:
  assumes "t \<noteq> 0" "\<not> fpu_used s t" "length (fpu_regs s) = 512"
  shows "\<exists>s'. fpu_nm t s = Ret s' \<and> drop 32 (fpu_regs s') = drop 32 (fpu_regs s)"
  using assms by (auto simp: fpu_defs ldmxcsr_def fninit_def drop_Cons')

end
