(* ===== verification/Fifo.thy ===== *)
theory Fifo
  imports Prelude
begin

text \<open>
  Bounded queues: the contract, and the facts on ring buffers with which the pipe and the keyboard
  buffer meet it.
\<close>

locale bounded_fifo =
  fixes ok :: "'s \<Rightarrow> bool"
    and contents :: "'s \<Rightarrow> 'a list"
    and put :: "'a \<Rightarrow> 's \<Rightarrow> 's"
    and get :: "'s \<Rightarrow> 'a \<times> 's"
    and cap :: nat
  assumes bound: "ok s \<Longrightarrow> length (contents s) \<le> cap"
    and put_law: "ok s \<Longrightarrow> length (contents s) < cap \<Longrightarrow> ok (put x s) \<and> contents (put x s) = contents s @ [x]"
    and get_law: "ok s \<Longrightarrow> contents s = x # xs \<Longrightarrow> fst (get s) = x \<and> ok (snd (get s)) \<and> contents (snd (get s)) = xs"
begin

fun puts :: "'a list \<Rightarrow> 's \<Rightarrow> 's" where
  "puts [] s = s"
| "puts (x # xs) s = puts xs (put x s)"

fun gets :: "nat \<Rightarrow> 's \<Rightarrow> 'a list \<times> 's" where
  "gets 0 s = ([], s)"
| "gets (Suc n) s = (let (xs, s') = gets n (snd (get s)) in (fst (get s) # xs, s'))"

lemma puts_contents:
  "ok s \<Longrightarrow> length (contents s) + length xs \<le> cap \<Longrightarrow> ok (puts xs s) \<and> contents (puts xs s) = contents s @ xs"
proof (induction xs arbitrary: s)
  case (Cons x xs)
  have "ok (put x s) \<and> contents (put x s) = contents s @ [x]" using put_law Cons.prems by simp
  then show ?case using Cons.IH[of "put x s"] Cons.prems(2) by simp
qed simp

lemma gets_contents:
  "ok s \<Longrightarrow> n \<le> length (contents s) \<Longrightarrow>
     fst (gets n s) = take n (contents s) \<and> ok (snd (gets n s)) \<and> contents (snd (gets n s)) = drop n (contents s)"
proof (induction n arbitrary: s)
  case (Suc n)
  obtain x xs where c: "contents s = x # xs" using Suc.prems(2) by (cases "contents s") auto
  have g: "fst (get s) = x \<and> ok (snd (get s)) \<and> contents (snd (get s)) = xs" using get_law[OF Suc.prems(1) c] .
  then show ?case using Suc.IH[of "snd (get s)"] Suc.prems(2) c by (auto simp: Let_def split: prod.splits)
qed simp

lemma puts_gets:
  assumes "ok s" "contents s = []" "length xs \<le> cap"
  shows "fst (gets (length xs) (puts xs s)) = xs"
  using puts_contents[of s xs] gets_contents[of "puts xs s" "length xs"] assms by simp

end

section \<open>Rings\<close>

definition ring_list :: "'a list \<Rightarrow> nat \<Rightarrow> nat \<Rightarrow> 'a list" where
  "ring_list buf r n = map (\<lambda>i. buf ! ((r + i) mod length buf)) [0..<n]"

lemma length_ring_list [simp]: "length (ring_list buf r n) = n"
  by (simp add: ring_list_def)

lemma ring_index_inj:
  assumes "(r + i) mod c = (r + n) mod c" "i \<le> n" "n < c"
  shows "i = (n :: nat)"
proof -
  have "c dvd (r + n) - (r + i)" by (rule mod_eq_dvd_iff_nat[THEN iffD1]) (use assms in auto)
  then have "c dvd n - i" by simp
  then show ?thesis using assms(2,3) by (auto dest!: dvd_imp_le)
qed

lemma ring_append:
  assumes "n < length buf"
  shows "ring_list (buf[(r + n) mod length buf := x]) r (Suc n) = ring_list buf r n @ [x]"
proof -
  have "buf[(r + n) mod length buf := x] ! ((r + i) mod length buf) = buf ! ((r + i) mod length buf)" if "i < n" for i
  proof (rule nth_list_update_neq)
    show "(r + n) mod length buf \<noteq> (r + i) mod length buf"
      using ring_index_inj[of r i "length buf" n] that assms by auto
  qed
  moreover have "(r + n) mod length buf < length buf" by (rule mod_less_divisor) (use assms in linarith)
  ultimately show ?thesis by (auto simp: ring_list_def)
qed

lemma ring_tail:
  "ring_list buf r (Suc n) = buf ! (r mod length buf) # ring_list buf (Suc r mod length buf) n"
proof (rule nth_equalityI)
  fix i assume "i < length (ring_list buf r (Suc n))"
  then show "ring_list buf r (Suc n) ! i = (buf ! (r mod length buf) # ring_list buf (Suc r mod length buf) n) ! i"
    by (cases i) (simp_all add: ring_list_def mod_simps del: upt_Suc)
qed simp

lemma ring_list_Cons:
  assumes "ring_list buf r n = x # xs" "r < length buf"
  shows "buf ! r = x" "n = Suc (n - 1)" "ring_list buf (Suc r mod length buf) (n - 1) = xs"
proof -
  have "length (ring_list buf r n) = Suc (length xs)" using assms(1) by simp
  then obtain k where k: "n = Suc k" by simp
  then show "buf ! r = x" "n = Suc (n - 1)" "ring_list buf (Suc r mod length buf) (n - 1) = xs"
    using assms by (simp_all add: ring_tail)
qed

end
