(* ===== verification/Kbd.thy ===== *)
theory Kbd
  imports Fifo
begin

text \<open>
  The PS/2 keyboard, \<^verbatim>\<open>kernel/hal/kbd.c\<close>: the scan code tables, the interrupt routine, which appends a
  character to a ring of 32, and \<open>kbd_getchar\<close>, which takes one from it.  The byte read from port \<open>0x60\<close> is the
  argument of the interrupt routine.
\<close>

abbreviation (input) KBD_BUF :: nat where "KBD_BUF \<equiv> 32"

record kbd_state =
  g_kbd :: "u8 list"
  g_kbd_r :: nat
  g_kbd_w :: nat
  g_shift :: bool

definition codes :: "string \<Rightarrow> u8 list" where
  "codes cs = map of_char cs"

definition kbd_map :: "u8 list" where
  "kbd_map = [0, 27] @ codes ''1234567890-='' @ [8, 9] @ codes ''qwertyuiop[]'' @ [10, 0] @ codes ''asdfghjkl;''
     @ [39, 96, 0, 92] @ codes ''zxcvbnm,./'' @ [0, 42, 0, 32] @ replicate 70 0"

definition kbd_map_shift :: "u8 list" where
  "kbd_map_shift = [0, 27] @ codes ''!@#$%^&*()_+'' @ [8, 9] @ codes ''QWERTYUIOP{}'' @ [10, 0] @ codes ''ASDFGHJKL:''
     @ [34, 126, 0, 124] @ codes ''ZXCVBNM<>?'' @ [0, 42, 0, 32] @ replicate 70 0"

definition kbd_put :: "u8 \<Rightarrow> kbd_state \<Rightarrow> kbd_state" where
  "kbd_put c k =
     (let n = (g_kbd_w k + 1) mod KBD_BUF
      in if n \<noteq> g_kbd_r k then k\<lparr>g_kbd := (g_kbd k)[g_kbd_w k := c], g_kbd_w := n\<rparr> else k)"

definition kbd_isr :: "u8 \<Rightarrow> kbd_state \<Rightarrow> kbd_state" where
  "kbd_isr sc k =
     (if sc = 0x2A \<or> sc = 0x36 then k\<lparr>g_shift := True\<rparr>
      else if sc = 0xAA \<or> sc = 0xB6 then k\<lparr>g_shift := False\<rparr>
      else if sc AND 0x80 \<noteq> 0 then k
      else let c = (if g_shift k then kbd_map_shift else kbd_map) ! unat sc
           in if c \<noteq> 0 then kbd_put c k else k)"

definition kbd_getchar :: "kbd_state \<Rightarrow> kbd_state \<times> int" where
  "kbd_getchar k =
     (if g_kbd_r k = g_kbd_w k then (k, - 1)
      else (k\<lparr>g_kbd_r := (g_kbd_r k + 1) mod KBD_BUF\<rparr>, uint (g_kbd k ! g_kbd_r k)))"

section \<open>The typeahead buffer is a queue\<close>

definition kbd_ok :: "kbd_state \<Rightarrow> bool" where
  "kbd_ok k \<longleftrightarrow> length (g_kbd k) = KBD_BUF \<and> g_kbd_r k < KBD_BUF \<and> g_kbd_w k < KBD_BUF"

definition kbd_count :: "kbd_state \<Rightarrow> nat" where
  "kbd_count k = (g_kbd_w k + KBD_BUF - g_kbd_r k) mod KBD_BUF"

definition kbd_chars :: "kbd_state \<Rightarrow> u8 list" where
  "kbd_chars k = ring_list (g_kbd k) (g_kbd_r k) (kbd_count k)"

definition kbd_get :: "kbd_state \<Rightarrow> u8 \<times> kbd_state" where
  "kbd_get k = (word_of_int (snd (kbd_getchar k)), fst (kbd_getchar k))"

lemma kbd_write_index: "kbd_ok k \<Longrightarrow> g_kbd_w k = (g_kbd_r k + kbd_count k) mod KBD_BUF"
  by (auto simp: kbd_ok_def kbd_count_def mod_if)

lemma kbd_full: "kbd_ok k \<Longrightarrow> (g_kbd_w k + 1) mod KBD_BUF \<noteq> g_kbd_r k \<longleftrightarrow> kbd_count k < KBD_BUF - 1"
  by (auto simp: kbd_ok_def kbd_count_def mod_if)

lemma kbd_put_ok:
  assumes ok: "kbd_ok k" and room: "kbd_count k < KBD_BUF - 1"
  shows "kbd_ok (kbd_put c k)" "kbd_chars (kbd_put c k) = kbd_chars k @ [c]" "g_shift (kbd_put c k) = g_shift k"
proof -
  have len: "length (g_kbd k) = 32" using ok by (simp add: kbd_ok_def)
  have p: "kbd_put c k = k\<lparr>g_kbd := (g_kbd k)[g_kbd_w k := c], g_kbd_w := (g_kbd_w k + 1) mod 32\<rparr>"
    using room kbd_full[OF ok] by (simp add: kbd_put_def Let_def)
  show "kbd_ok (kbd_put c k)" "g_shift (kbd_put c k) = g_shift k" using ok by (simp_all add: p kbd_ok_def)
  have n: "kbd_count (kbd_put c k) = Suc (kbd_count k)"
    using ok room by (auto simp: p kbd_ok_def kbd_count_def mod_if)
  show "kbd_chars (kbd_put c k) = kbd_chars k @ [c]"
    using ring_append[of "kbd_count k" "g_kbd k" "g_kbd_r k" c] kbd_write_index[OF ok] room
    unfolding kbd_chars_def n by (simp add: p len)
qed

lemma kbd_get_ok:
  assumes ok: "kbd_ok k" and c: "kbd_chars k = x # xs"
  shows "kbd_getchar k = (snd (kbd_get k), uint x)" "fst (kbd_get k) = x" "kbd_ok (snd (kbd_get k))"
    "kbd_chars (snd (kbd_get k)) = xs"
proof -
  have r: "g_kbd_r k < length (g_kbd k)" "length (g_kbd k) = 32" using ok by (simp_all add: kbd_ok_def)
  note R = ring_list_Cons[OF c[unfolded kbd_chars_def] r(1)]
  have "g_kbd_r k \<noteq> g_kbd_w k" using R(2) ok by (auto simp: kbd_count_def kbd_ok_def)
  then have g: "kbd_getchar k = (k\<lparr>g_kbd_r := (g_kbd_r k + 1) mod 32\<rparr>, uint x)" using R(1) by (simp add: kbd_getchar_def)
  then show "kbd_getchar k = (snd (kbd_get k), uint x)" "fst (kbd_get k) = x" "kbd_ok (snd (kbd_get k))"
    using ok by (simp_all add: kbd_get_def kbd_ok_def)
  have "kbd_count (snd (kbd_get k)) = kbd_count k - 1"
    using ok R(2) by (auto simp: g kbd_get_def kbd_ok_def kbd_count_def mod_if)
  then show "kbd_chars (snd (kbd_get k)) = xs"
    using R(3) by (simp add: g kbd_get_def kbd_chars_def r(2))
qed

interpretation kbd: bounded_fifo kbd_ok kbd_chars kbd_put kbd_get "KBD_BUF - 1"
proof unfold_locales
  fix k show "length (kbd_chars k) \<le> 32 - 1"
    using mod_less_divisor[of 32 "g_kbd_w k + 32 - g_kbd_r k"] by (simp add: kbd_chars_def kbd_count_def)
next
  fix k x assume "kbd_ok k" "length (kbd_chars k) < 32 - 1"
  then show "kbd_ok (kbd_put x k) \<and> kbd_chars (kbd_put x k) = kbd_chars k @ [x]"
    using kbd_put_ok[of k x] by (simp add: kbd_chars_def)
next
  fix k x xs assume "kbd_ok k" "kbd_chars k = x # xs"
  then show "fst (kbd_get k) = x \<and> kbd_ok (snd (kbd_get k)) \<and> kbd_chars (snd (kbd_get k)) = xs"
    using kbd_get_ok by simp
qed

section \<open>Typing and reading\<close>

text \<open>The keys that give a character without shift, and what reading \<open>n\<close> characters returns.\<close>

definition typed :: "u8 \<Rightarrow> bool" where
  "typed sc \<longleftrightarrow> sc AND 0x80 = 0 \<and> sc \<notin> {0x2A, 0x36} \<and> kbd_map ! unat sc \<noteq> 0"

fun kbd_read :: "nat \<Rightarrow> kbd_state \<Rightarrow> int list" where
  "kbd_read 0 k = []"
| "kbd_read (Suc n) k = (let (k', c) = kbd_getchar k in c # kbd_read n k')"

lemma kbd_isr_typed: "typed sc \<Longrightarrow> \<not> g_shift k \<Longrightarrow> kbd_isr sc k = kbd_put (kbd_map ! unat sc) k"
  by (auto simp: typed_def kbd_isr_def Let_def)

lemma kbd_put_shift [simp]: "g_shift (kbd_put c k) = g_shift k"
  by (simp add: kbd_put_def Let_def)

lemma kbd_fold:
  "list_all typed scs \<Longrightarrow> \<not> g_shift k \<Longrightarrow> fold kbd_isr scs k = kbd.puts (map (\<lambda>sc. kbd_map ! unat sc) scs) k"
  by (induction scs arbitrary: k) (simp_all add: kbd_isr_typed)

lemma kbd_read_gets:
  "kbd_ok k \<Longrightarrow> n \<le> length (kbd_chars k) \<Longrightarrow> kbd_read n k = map uint (fst (kbd.gets n k))"
proof (induction n arbitrary: k)
  case (Suc n)
  obtain x xs where c: "kbd_chars k = x # xs" using Suc.prems(2) by (cases "kbd_chars k") auto
  note G = kbd_get_ok[OF Suc.prems(1) c]
  have "kbd_read n (snd (kbd_get k)) = map uint (fst (kbd.gets n (snd (kbd_get k))))"
    using Suc.IH[OF G(3)] Suc.prems(2) by (simp add: G(4) c)
  then show ?case using G(1,2) by (simp add: Let_def split: prod.splits)
qed simp

text \<open>Characters are read in the order in which they were typed: up to 31 keys pressed while
  the typeahead buffer is empty and no shift key is down come out of \<open>kbd_getchar\<close> as the characters the table gives for
  them, in order, and the next call returns -1.\<close>

theorem kbd_typeahead:
  assumes "kbd_ok k" "kbd_chars k = []" "\<not> g_shift k" "list_all typed scs" "length scs < KBD_BUF"
  shows "kbd_read (Suc (length scs)) (fold kbd_isr scs k) = map (\<lambda>sc. uint (kbd_map ! unat sc)) scs @ [- 1]"
proof -
  let ?cs = "map (\<lambda>sc. kbd_map ! unat sc) scs" let ?k = "kbd.puts ?cs k"
  have p: "kbd_ok ?k" "kbd_chars ?k = ?cs" using kbd.puts_contents[of k ?cs] assms by simp_all
  have g: "fst (kbd.gets (length scs) ?k) = ?cs" "kbd_ok (snd (kbd.gets (length scs) ?k))"
    "kbd_chars (snd (kbd.gets (length scs) ?k)) = []"
    using kbd.gets_contents[OF p(1), of "length scs"] p(2) by simp_all
  have snoc: "kbd_read (Suc n) k' = kbd_read n k' @ [snd (kbd_getchar (snd (kbd.gets n k')))]"
    if "kbd_ok k'" "n \<le> length (kbd_chars k')" for n k'
    using that
  proof (induction n arbitrary: k')
    case 0
    then show ?case by (simp add: Let_def split: prod.splits)
  next
    case (Suc n)
    obtain x xs where c: "kbd_chars k' = x # xs" using Suc.prems(2) by (cases "kbd_chars k'") auto
    note G = kbd_get_ok[OF Suc.prems(1) c]
    have "kbd_read (Suc n) (snd (kbd_get k')) = kbd_read n (snd (kbd_get k')) @ [snd (kbd_getchar (snd (kbd.gets n (snd (kbd_get k')))))]"
      by (rule Suc.IH) (use G c Suc.prems(2) in simp_all)
    then show ?case using G(1) by (simp only: kbd_read.simps kbd.gets.simps) (simp add: Let_def split: prod.splits)
  qed
  have "kbd_count (snd (kbd.gets (length scs) ?k)) = 0"
    using arg_cong[OF g(3), of length] by (simp add: kbd_chars_def)
  then have "snd (kbd_getchar (snd (kbd.gets (length scs) ?k))) = - 1"
    using kbd_write_index[OF g(2)] g(2) by (simp add: kbd_getchar_def kbd_ok_def)
  then show ?thesis
    using snoc[OF p(1), of "length scs"] kbd_read_gets[OF p(1), of "length scs"] p(2) g(1) kbd_fold[OF assms(4,3)] by (simp add: o_def)
qed

lemma unat_codes: "unat (0x23 :: u8) = 35" "unat (0x17 :: u8) = 23" "unat (0x1C :: u8) = 28"
  "uint (104 :: u8) = 104" "uint (105 :: u8) = 105" "uint (10 :: u8) = 10"
  by simp_all

definition kbd_zero :: kbd_state where
  "kbd_zero = \<lparr>g_kbd = replicate 32 0, g_kbd_r = 0, g_kbd_w = 0, g_shift = False\<rparr>"

theorem kbd_typeahead_witness:
  "kbd_read 4 (fold kbd_isr [0x23, 0x17, 0x1C] kbd_zero) = [104, 105, 10, - 1]"
proof -
  have "list_all typed [0x23, 0x17, 0x1C]" by (simp add: typed_def kbd_map_def codes_def)
  moreover have "kbd_ok kbd_zero" "kbd_chars kbd_zero = []" "\<not> g_shift kbd_zero"
    by (simp_all add: kbd_zero_def kbd_ok_def kbd_chars_def kbd_count_def ring_list_def)
  ultimately have "kbd_read (Suc (length [0x23, 0x17, 0x1C :: u8])) (fold kbd_isr [0x23, 0x17, 0x1C] kbd_zero)
      = map (\<lambda>sc. uint (kbd_map ! unat sc)) [0x23, 0x17, 0x1C :: u8] @ [- 1]"
    using kbd_typeahead[of kbd_zero "[0x23, 0x17, 0x1C]"] by simp
  moreover have "Suc (Suc (Suc (Suc 0))) = (4 :: nat)" by simp
  moreover have "kbd_map ! 35 = 104" "kbd_map ! 23 = 105" "kbd_map ! 28 = 10" by (simp_all add: kbd_map_def codes_def)
  ultimately show ?thesis by (simp only: list.size add_Suc_right add_0_right list.map append.simps unat_codes)
qed

end
