(* ===== verification/Frames.thy ===== *)
theory Frames
  imports Handle Heap_Correct
begin

text \<open>
  What the routines shared by all components leave alone: waking threads changes only the
  dispatchers, threads, mutexes and ready queues, and dropping a reference leaves the tables of
  the processes as they are.
\<close>

section \<open>Waking\<close>

definition only_wakes :: "kst \<Rightarrow> kst \<Rightarrow> bool" where
  "only_wakes s s' \<longleftrightarrow>
     s' = s\<lparr>k_disp := k_disp s', k_thread := k_thread s', k_mutex := k_mutex s', g_ready := g_ready s',
            g_ready_mask := g_ready_mask s', k_need_resched := k_need_resched s'\<rparr>"

named_theorems wakes "operations that only wake threads"

lemma only_wakes_refl [wakes]: "only_wakes s s"
  by (simp add: only_wakes_def)

lemma only_wakes_trans:
  assumes "only_wakes s s1" "only_wakes s1 s2"
  shows "only_wakes s s2"
proof -
  have e: "s1 = s\<lparr>k_disp := k_disp s1, k_thread := k_thread s1, k_mutex := k_mutex s1, g_ready := g_ready s1,
            g_ready_mask := g_ready_mask s1, k_need_resched := k_need_resched s1\<rparr>"
    using assms(1) by (simp only: only_wakes_def)
  have "s2 = s1\<lparr>k_disp := k_disp s2, k_thread := k_thread s2, k_mutex := k_mutex s2, g_ready := g_ready s2,
            g_ready_mask := g_ready_mask s2, k_need_resched := k_need_resched s2\<rparr>"
    using assms(2) by (simp only: only_wakes_def)
  also have "\<dots> = s\<lparr>k_disp := k_disp s2, k_thread := k_thread s2, k_mutex := k_mutex s2, g_ready := g_ready s2,
            g_ready_mask := g_ready_mask s2, k_need_resched := k_need_resched s2\<rparr>"
    by (subst e) simp
  finally show ?thesis by (simp only: only_wakes_def)
qed

lemma only_wakes_fields:
  assumes "only_wakes s s'"
  shows "k_heap s' = k_heap s" "k_obj s' = k_obj s" "k_dir s' = k_dir s" "k_auto s' = k_auto s"
    "k_timer s' = k_timer s" "k_section s' = k_section s" "k_pipe s' = k_pipe s" "k_token s' = k_token s"
    "k_file s' = k_file s" "k_device s' = k_device s" "k_vnode s' = k_vnode s" "k_proc s' = k_proc s"
    "g_idle s' = g_idle s" "k_current s' = k_current s" "k_current_process s' = k_current_process s"
    "k_ticks s' = k_ticks s" "g_timers s' = g_timers s" "g_root s' = g_root s" "g_procs s' = g_procs s"
  using arg_cong[OF assms[unfolded only_wakes_def], of k_heap] arg_cong[OF assms[unfolded only_wakes_def], of k_obj]
    arg_cong[OF assms[unfolded only_wakes_def], of k_dir] arg_cong[OF assms[unfolded only_wakes_def], of k_auto]
    arg_cong[OF assms[unfolded only_wakes_def], of k_timer] arg_cong[OF assms[unfolded only_wakes_def], of k_section]
    arg_cong[OF assms[unfolded only_wakes_def], of k_pipe] arg_cong[OF assms[unfolded only_wakes_def], of k_token]
    arg_cong[OF assms[unfolded only_wakes_def], of k_file] arg_cong[OF assms[unfolded only_wakes_def], of k_device]
    arg_cong[OF assms[unfolded only_wakes_def], of k_vnode] arg_cong[OF assms[unfolded only_wakes_def], of k_proc]
    arg_cong[OF assms[unfolded only_wakes_def], of g_idle] arg_cong[OF assms[unfolded only_wakes_def], of k_current]
    arg_cong[OF assms[unfolded only_wakes_def], of k_current_process] arg_cong[OF assms[unfolded only_wakes_def], of k_ticks]
    arg_cong[OF assms[unfolded only_wakes_def], of g_timers] arg_cong[OF assms[unfolded only_wakes_def], of g_root]
    arg_cong[OF assms[unfolded only_wakes_def], of g_procs]
  by simp_all

lemma wakes_upd_disp [wakes]: "only_wakes s (upd_disp d f s)"
  by (simp add: only_wakes_def upd_disp_def)

lemma wakes_upd_mutex [wakes]: "only_wakes s (upd_mutex m f s)"
  by (simp add: only_wakes_def upd_mutex_def)

lemma wakes_upd_thread [wakes]: "only_wakes s (upd_thread t f s)"
  by (simp add: only_wakes_def upd_thread_def)

lemma wakes_set_wb_status [wakes]: "only_wakes s (set_wb_status w st s)"
  by (simp add: set_wb_status_def wakes split: prod.splits wslot.splits)

lemma wakes_unlink [wakes]: "only_wakes s (unlink_owned m s)"
  by (simp add: only_wakes_def unlink_owned_def)

lemma wakes_mutex_own [wakes]: "only_wakes s (ke_mutex_own m t s)"
  using only_wakes_trans[OF wakes_unlink wakes_upd_thread] by (simp add: ke_mutex_own_def wakes)

lemma wakes_grant [wakes]: "only_wakes s (grant_mutex d t st s)"
  unfolding grant_mutex_def
  by (rule only_wakes_trans[OF only_wakes_trans[OF wakes_upd_mutex wakes_upd_disp] wakes_mutex_own])

lemma wakes_ready_insert [wakes]: "only_wakes s (ready_insert t s)"
  by (simp add: only_wakes_def ready_insert_def Let_def)

lemma wakes_need [wakes]: "only_wakes s (s\<lparr>k_need_resched := b\<rparr>)"
  by (simp add: only_wakes_def)

lemma wakes_sched_ready [wakes]: "only_wakes s (sched_ready t s)"
  using only_wakes_trans[OF wakes_upd_thread wakes_ready_insert]
    only_wakes_trans[OF only_wakes_trans[OF wakes_upd_thread wakes_ready_insert] wakes_need]
  by (simp add: sched_ready_def Let_def wakes)

lemma wakes_boost_to [wakes]: "only_wakes s (boost_to t np s)"
proof -
  have "only_wakes s (s\<lparr>g_ready := r, g_ready_mask := m\<rparr>)" for r m by (simp add: only_wakes_def)
  from only_wakes_trans[OF only_wakes_trans[OF this wakes_upd_thread] wakes_ready_insert]
  show ?thesis by (simp add: boost_to_def Let_def wakes)
qed

lemma wakes_sched_boost [wakes]: "only_wakes s (sched_boost t np s)"
  by (rule sched_boost_cases[of t np s])
     (simp_all add: wakes only_wakes_trans[OF wakes_boost_to wakes_need])

lemma wakes_wake_one [wakes]: "only_wakes s (disp_wake_one d st s)"
proof (cases "d_waiters (k_disp s d)")
  case Nil
  then show ?thesis by (simp add: disp_wake_one_def wakes)
next
  case (Cons w ws)
  define s1 where "s1 = set_wb_status (fst w, WSingle) st (set_wb_status w st (upd_disp d (\<lambda>x. x\<lparr>d_waiters := ws\<rparr>) s))"
  define s2 where "s2 = (if d_type (k_disp s d) = DISP_MUTANT then grant_mutex d (fst w) st s1 else s1)"
  have "only_wakes s s1"
    unfolding s1_def by (rule only_wakes_trans[OF only_wakes_trans[OF wakes_upd_disp wakes_set_wb_status] wakes_set_wb_status])
  then have "only_wakes s s2" unfolding s2_def by (simp add: only_wakes_trans[OF _ wakes_grant])
  moreover have "disp_wake_one d st s = (if th_state (k_thread s2 (fst w)) = THR_WAITING then sched_ready (fst w) s2 else s2)"
    using Cons by (simp add: disp_wake_one_def s1_def s2_def Let_def)
  ultimately show ?thesis by (simp add: only_wakes_trans[OF _ wakes_sched_ready])
qed

lemma wakes_wake_all [wakes]: "only_wakes s (disp_wake_all d st s)"
proof (induction d st s rule: disp_wake_all.induct)
  case (1 d st s)
  show ?case
  proof (cases "d_waiters (k_disp s d) = []")
    case True
    then show ?thesis by (simp add: disp_wake_all.simps[of d st s] wakes)
  next
    case False
    then show ?thesis
      using only_wakes_trans[OF wakes_wake_one 1[OF False]] by (simp add: disp_wake_all.simps[of d st s])
  qed
qed

definition signal_turn :: "dref \<Rightarrow> kst \<Rightarrow> kst" where
  "signal_turn d s =
     (let s1 = disp_wake_one d STATUS_SUCCESS s
      in if d_type (k_disp s1 d) = DISP_SYNCHRONIZATION_EVENT \<or> d_type (k_disp s1 d) = DISP_MUTANT
         then upd_disp d (\<lambda>x. x\<lparr>d_signal := d_signal x - 1\<rparr>) s1 else s1)"

lemma signal_loop_turn:
  "signal_loop d s = (if d_signal (k_disp s d) > 0 \<and> d_waiters (k_disp s d) \<noteq> [] then signal_loop d (signal_turn d s) else s)"
  by (subst signal_loop.simps) (simp only: signal_turn_def)

lemma wakes_signal_turn [wakes]: "only_wakes s (signal_turn d s)"
  using only_wakes_trans[OF wakes_wake_one wakes_upd_disp] by (simp add: signal_turn_def Let_def wakes)

lemma wakes_signal_loop [wakes]: "only_wakes s (signal_loop d s)"
proof (induction d s rule: signal_loop.induct)
  case (1 d s)
  show ?case
  proof (cases "d_signal (k_disp s d) > 0 \<and> d_waiters (k_disp s d) \<noteq> []")
    case True
    have "only_wakes (signal_turn d s) (signal_loop d (signal_turn d s))"
      using 1[OF True] by (simp only: signal_turn_def)
    then show ?thesis using True only_wakes_trans[OF wakes_signal_turn] by (simp add: signal_loop_turn[of d s])
  next
    case False
    then have "signal_loop d s = s" by (subst signal_loop_turn) (simp only: if_False)
    then show ?thesis by (simp add: wakes)
  qed
qed

lemma wakes_disp_signal [wakes]: "only_wakes s (disp_signal d i s)"
  using only_wakes_trans[OF wakes_upd_disp wakes_wake_all] only_wakes_trans[OF wakes_upd_disp wakes_signal_loop]
  by (simp add: disp_signal_def Let_def)

section \<open>Reference counts\<close>

text \<open>A dereference that leaves a reference behind only counts.\<close>

lemma ob_dereference_keeps:
  assumes "a \<noteq> 0" "unat (o_pointers (k_obj s a)) > 1"
  shows "ob_dereference a s = Ret (upd_obj a (\<lambda>o'. o'\<lparr>o_pointers := o_pointers o' - 1\<rparr>) s)"
proof -
  have "o_pointers (k_obj s a) \<noteq> 0" "o_pointers (k_obj s a) \<noteq> 1" using assms(2) by auto
  then show ?thesis using assms(1) by (simp add: ob_dereference_def deref_with_def Let_def upd_obj_def)
qed

definition tables :: "kst \<Rightarrow> u64 \<Rightarrow> handle_table" where
  "tables s t = pr_handles (k_proc s t)"

lemma k_free_fields:
  assumes "k_free s p = Ret s'"
  shows "k_obj s' = k_obj s" "k_proc s' = k_proc s" "k_pipe s' = k_pipe s" "k_dir s' = k_dir s" "k_vnode s' = k_vnode s"
  using assms by (auto simp: k_free_def)

lemma vn_release_proc: "vn_release v s = Ret s' \<Longrightarrow> k_proc s' = k_proc s"
  by (auto simp: vn_release_def Let_def upd_vnode_def k_free_fields split: if_splits)

lemma leaf_delete_proc: "leaf_delete a s = Ret s' \<Longrightarrow> k_proc s' = k_proc s"
  by (auto simp: leaf_delete_def vfs_file_delete_def section_delete_def Let_def upd_file_def k_free_fields
        split: object_kind.splits if_splits dest!: vn_release_proc)

lemma deref_with_tables:
  assumes d: "deref_with del a s = Ret s'" and del: "\<And>s1 s2. del a s1 = Ret s2 \<Longrightarrow> tables s2 = tables s1"
  shows "tables s' = tables s"
proof -
  have u: "tables (upd_obj a f s) = tables s" for f by (simp add: fun_eq_iff tables_def upd_obj_def)
  consider "s' = s" | f where "s' = upd_obj a f s"
    | f s2 where "del a (upd_obj a f s) = Ret s2" "k_free s2 a = Ret s'"
    using d by (auto simp: deref_with_def Let_def split: if_splits)
  then show ?thesis
  proof cases
    case (3 f s2)
    have "tables s' = tables s2" using k_free_fields(2)[OF 3(2)] by (simp add: fun_eq_iff tables_def)
    then show ?thesis using del[OF 3(1)] u by simp
  qed (simp_all add: u)
qed

lemma ob_dereference_tables:
  assumes "ob_dereference a s = Ret s'"
  shows "tables s' = tables s"
proof (rule deref_with_tables[OF assms[unfolded ob_dereference_def]])
  have leaf: "tables s2 = tables s1" if "leaf_delete x s1 = Ret s2" for x s1 s2
    using leaf_delete_proc[OF that] by (simp add: fun_eq_iff tables_def)
  fix s1 s2 assume d: "ob_delete a s1 = Ret s2"
  show "tables s2 = tables s1"
  proof (cases "o_kind (k_obj s1 a) = OBJ_PROCESS \<and> pr_token (k_proc s1 a) \<noteq> 0")
    case True
    then obtain s3 where s3: "deref_with leaf_delete (pr_token (k_proc s1 a)) s1 = Ret s3"
      "s2 = upd_proc a (\<lambda>x. x\<lparr>pr_token := 0\<rparr>) s3"
      using d by (auto simp: ob_delete_def process_delete_def Let_def)
    have "tables s2 = tables s3" by (simp add: s3(2) fun_eq_iff tables_def upd_proc_def)
    also have "\<dots> = tables s1" by (rule deref_with_tables[OF s3(1)]) (rule leaf)
    finally show ?thesis .
  next
    case False
    then show ?thesis using d leaf
      by (cases "o_kind (k_obj s1 a) = OBJ_PROCESS") (auto simp: ob_delete_def process_delete_def Let_def)
  qed
qed

section \<open>A kernel state with nothing in it\<close>

text \<open>The state of the static variables before anything is set up, with a working heap: every record is zero.\<close>

definition zero_object :: object where
  "zero_object =
     \<lparr>o_kind = OBJ_EVENT, o_name = [], o_directory = 0, o_pointers = 0, o_handles = 0, o_flags = 0, o_owner_pid = 0,
      o_wait = None, o_dir_hash = 0\<rparr>"

definition zero_kst :: kst where
  "zero_kst =
     \<lparr>k_heap = demo_heap, k_obj = (\<lambda>_. zero_object), k_dir = (\<lambda>_. \<lparr>dir_buckets = replicate 37 [], dir_count = 0\<rparr>),
      k_disp = (\<lambda>_. \<lparr>d_type = DISP_NOTIFICATION_EVENT, d_signal = 0, d_waiters = []\<rparr>), k_auto = (\<lambda>_. False),
      k_mutex = (\<lambda>_. \<lparr>m_owner = 0, m_recursion = 0, m_abandoned = False\<rparr>),
      k_timer = (\<lambda>_. \<lparr>t_due_tick = 0, t_period = 0, t_armed = False\<rparr>),
      k_section = (\<lambda>_. \<lparr>s_size = 0, s_prot = 0, s_kdata = 0, s_bytes = []\<rparr>),
      k_pipe = (\<lambda>_. \<lparr>p_buf = replicate 4096 0, p_r = 0, p_w = 0, p_used = 0, p_readers = 0, p_writers = 0,
                     p_writer_closed = False\<rparr>),
      k_token = (\<lambda>_. \<lparr>tok_pid = 0, tok_integrity = 0\<rparr>), k_file = (\<lambda>_. \<lparr>f_vnode = 0, f_offset = 0, f_access = 0\<rparr>),
      k_device = (\<lambda>_. \<lparr>dev_driver = NoDriver, dev_ext = 0, dev_base = 0, dev_size = 0, dev_bytes = []\<rparr>),
      k_vnode = (\<lambda>_. zero_vnode), k_thread = (\<lambda>_. zero_thread), k_proc = (\<lambda>_. zero_process),
      g_ready = (\<lambda>_. []), g_ready_mask = 0, g_idle = 0, g_system = 0, g_next_pid = 1, g_next_tid = 1, g_procs = [],
      k_current = 0, k_current_process = 0, k_need_resched = False, k_ticks = 0, g_timers = [], g_timer_up = False,
      g_root = 0, g_bno = 0, g_devices = 0, g_root_vnode = 0, g_kernel_as = zero_aspace, g_ramdisk_dev = 0,
      g_ramdisk_size = 0, k_serial_out = [], k_serial_in = [], k_stale = (0, 0, [])\<rparr>"

end
