(* ===== verification/Handle_Correct.thy ===== *)
theory Handle_Correct
  imports Frames
begin

text \<open>
  Correctness of handle tables.  A table is a partial map from keys (slot index and generation) to
  an object and its granted rights; the locale \<open>handle_space\<close> states what its operations promise
  about the map and about the reuse of keys, and its interpretation is the proof that the
  operations of \<^verbatim>\<open>handle.c\<close> keep the promise.
\<close>

section \<open>The interface\<close>

text \<open>\<open>dist s k\<close> bounds from below the number of operations after which the key \<open>k\<close> can be issued.\<close>

locale handle_space =
  fixes ok :: "'s \<Rightarrow> bool"
    and view :: "'s \<Rightarrow> 'k \<Rightarrow> 'v option"
    and dist :: "'s \<Rightarrow> 'k \<Rightarrow> nat"
    and key :: "'h \<Rightarrow> 'k"
    and val :: "'s \<Rightarrow> 'x \<Rightarrow> 'v"
    and ins :: "'x \<Rightarrow> 's \<Rightarrow> ('s \<times> 'h) option"
    and del :: "'h \<Rightarrow> 's \<Rightarrow> 's option"
    and period :: nat
  assumes ins_law: "ok s \<Longrightarrow> ins x s = Some (s', h) \<Longrightarrow>
      ok s' \<and> view s (key h) = None \<and> view s' = (view s)(key h := Some (val s x)) \<and> dist s (key h) \<le> 1"
    and ins_dist: "ok s \<Longrightarrow> ins x s = Some (s', h) \<Longrightarrow> dist s k \<le> dist s' k + 1"
    and del_law: "ok s \<Longrightarrow> del h s = Some s' \<Longrightarrow>
      ok s' \<and> view s (key h) \<noteq> None \<and> view s' = (view s)(key h := None) \<and> period \<le> dist s' (key h)"
    and del_dist: "ok s \<Longrightarrow> del h s = Some s' \<Longrightarrow> dist s k \<le> dist s' k + 1"
begin

definition stale :: "'k \<Rightarrow> nat \<Rightarrow> 's \<Rightarrow> bool" where
  "stale k n s \<longleftrightarrow> ok s \<and> view s k = None \<and> n < dist s k"

lemma del_stale:
  assumes "ok s" "del h s = Some s'" "n < period"
  shows "stale (key h) n s'"
  using del_law[OF assms(1,2)] assms(3) by (simp add: stale_def)

lemma ins_keeps_stale:
  assumes "stale k (Suc n) s" "ins x s = Some (s', h)"
  shows "stale k n s'"
proof -
  have ok: "ok s" and v: "view s k = None" and d: "Suc n < dist s k" using assms(1) by (auto simp: stale_def)
  note L = ins_law[OF ok assms(2)]
  have "key h \<noteq> k" using L d by auto
  then show ?thesis using L v d ins_dist[OF ok assms(2), of k] by (simp add: stale_def)
qed

lemma del_keeps_stale:
  assumes "stale k (Suc n) s" "del h s = Some s'"
  shows "stale k n s'"
proof -
  have ok: "ok s" and v: "view s k = None" and d: "Suc n < dist s k" using assms(1) by (auto simp: stale_def)
  show ?thesis using del_law[OF ok assms(2)] v d del_dist[OF ok assms(2), of k] by (simp add: stale_def)
qed

lemma stale_mono: "stale k (Suc n) s \<Longrightarrow> stale k n s"
  by (simp add: stale_def)

end

section \<open>Handle values\<close>

lemma handle_index_word:
  assumes "i < 2 ^ 14"
  shows "drop_bit 2 (HANDLE_VALUE i g) AND 0x3FFF = of_nat i"
proof (rule bit_eqI)
  fix n assume "possible_bit TYPE(u64) n"
  have m: "(0x3FFF :: u64) = mask 14" by (simp add: mask_eq_exp_minus_1)
  have b: "bit (of_nat i :: u64) n \<longleftrightarrow> n < 64 \<and> bit i n" for n by (simp add: bit_simps)
  have hi: "\<not> bit i n" if "14 \<le> n" for n
  proof -
    have "i < 2 ^ n" using assms that order_less_le_trans[OF assms power_increasing[OF that]] by simp
    then show ?thesis by (simp add: bit_iff_odd)
  qed
  show "bit (drop_bit 2 (HANDLE_VALUE i g) AND 0x3FFF) n \<longleftrightarrow> bit (of_nat i :: u64) n"
    using hi[of n] by (cases "n < 14") (auto simp: HANDLE_VALUE_def m bit_simps)
qed

lemma handle_fields [simp]:
  assumes "i < 2 ^ 14"
  shows "HANDLE_INDEX (HANDLE_VALUE i g) = i" "HANDLE_GEN (HANDLE_VALUE i g) = g" "HANDLE_VALUE i g AND 3 = 0"
proof -
  have "i < 2 ^ 64" using assms by simp
  then show "HANDLE_INDEX (HANDLE_VALUE i g) = i"
    by (simp add: HANDLE_INDEX_def handle_index_word[OF assms] unat_of_nat take_bit_nat_eq_self)
  have hi: "\<not> bit i n" if "14 \<le> n" for n
  proof -
    have "i < 2 ^ n" using assms that order_less_le_trans[OF assms power_increasing[OF that]] by simp
    then show ?thesis by (simp add: bit_iff_odd)
  qed
  show "HANDLE_GEN (HANDLE_VALUE i g) = g"
    by (rule bit_eqI) (auto simp: HANDLE_GEN_def HANDLE_VALUE_def bit_simps hi)
  have m: "(3 :: u64) = mask 2" by (simp add: mask_eq_exp_minus_1)
  show "HANDLE_VALUE i g AND 3 = 0"
    by (rule bit_eqI) (auto simp: HANDLE_VALUE_def m bit_simps)
qed

lemma handle_nonzero: "i < 2 ^ 14 \<Longrightarrow> i \<noteq> 0 \<Longrightarrow> HANDLE_VALUE i g \<noteq> 0"
  using handle_fields(1)[of i g] by (auto simp: HANDLE_INDEX_def)

section \<open>Generations\<close>

text \<open>Generations run through \<open>1 \<dots> 2^32 - 1\<close> and start over; the distance is the number of steps to a generation.\<close>

definition gen_dist :: "u32 \<Rightarrow> u32 \<Rightarrow> nat" where
  "gen_dist c g = nat ((uint g - uint c - 1) mod (2 ^ 32 - 1)) + 1"

lemma next_gen_uint: "uint (next_gen c) mod (2 ^ 32 - 1) = (uint c + 1) mod (2 ^ 32 - 1)"
proof (cases "c + 1 = 0")
  case True
  then have "c = - 1" by (metis add_eq_0_iff2)
  then have "uint c = 2 ^ 32 - 1" by (simp add: unsigned_minus_1_eq_mask mask_eq_exp_minus_1)
  then show ?thesis using True by (simp add: next_gen_def)
next
  case False
  have e: "uint (c + 1) = (uint c + 1) mod 2 ^ 32" by (simp add: uint_word_ariths)
  have "uint c + 1 \<noteq> 2 ^ 32" using False e by (metis mod_self uint_0_iff)
  moreover have "uint c < 2 ^ 32" using uint_lt2p[of c] by simp
  ultimately have "uint (c + 1) = uint c + 1" using e by simp
  then show ?thesis using False by (simp add: next_gen_def)
qed

lemma gen_dist_pos [simp]: "0 < gen_dist c g"
  by (simp add: gen_dist_def)

lemma gen_dist_next: "gen_dist c g \<le> gen_dist (next_gen c) g + 1"
proof -
  let ?M = "2 ^ 32 - 1 :: int" and ?x = "uint g - uint c - 1"
  have "(uint g - 1 - uint (next_gen c)) mod ?M = (uint g - 1 - (uint c + 1)) mod ?M"
    by (rule mod_diff_cong[OF refl next_gen_uint])
  then have e: "(uint g - uint (next_gen c) - 1) mod ?M = (?x - 1) mod ?M" by (simp add: algebra_simps)
  have "?x mod ?M \<le> (?x - 1) mod ?M + 1"
  proof -
    have "((?x - 1) mod ?M + 1) mod ?M = ?x mod ?M" by (simp add: mod_add_left_eq)
    then show ?thesis using zmod_le_nonneg_dividend[of "(?x - 1) mod ?M + 1" ?M] by simp
  qed
  moreover have "0 \<le> (?x - 1) mod ?M" by simp
  ultimately show ?thesis unfolding gen_dist_def e by linarith
qed

lemma gen_dist_issue: "gen_dist c (next_gen c) = 1"
proof -
  have "(uint (next_gen c) - (uint c + 1)) mod (2 ^ 32 - 1) = (uint c + 1 - (uint c + 1)) mod (2 ^ 32 - 1)"
    by (rule mod_diff_cong[OF next_gen_uint refl])
  then show ?thesis by (simp add: gen_dist_def diff_diff_eq)
qed

lemma gen_dist_self: "2 ^ 32 - 2 \<le> gen_dist (next_gen g) g"
  using gen_dist_next[of g g] by (simp add: gen_dist_def)

section \<open>Tables as maps\<close>

type_synonym hkey = "nat \<times> u32"

definition ht_ok :: "u64 \<Rightarrow> kst \<Rightarrow> bool" where
  "ht_ok t s \<longleftrightarrow> t \<noteq> 0 \<and> length (slots s t) = HANDLE_TABLE_SLOTS"

definition ht_key :: "handle_t \<Rightarrow> hkey" where
  "ht_key h = (HANDLE_INDEX h, HANDLE_GEN h)"

definition ht_view :: "u64 \<Rightarrow> kst \<Rightarrow> hkey \<Rightarrow> (u64 \<times> access_t) option" where
  "ht_view t s k =
     (let e = slots s t ! fst k
      in if fst k \<noteq> 0 \<and> fst k < HANDLE_TABLE_SLOTS \<and> e_object e \<noteq> 0 \<and> e_generation e = snd k
         then Some (e_object e, e_access e) else None)"

definition ht_dist :: "u64 \<Rightarrow> kst \<Rightarrow> hkey \<Rightarrow> nat" where
  "ht_dist t s k = gen_dist (e_generation (slots s t ! fst k)) (snd k)"

definition ht_val :: "kst \<Rightarrow> u64 \<times> access_t \<times> bool \<times> bool \<Rightarrow> u64 \<times> access_t" where
  "ht_val s x = (case x of (a, acc, _, _) \<Rightarrow> (a, ob_map_generic (g_types (o_kind (k_obj s a))) acc))"

definition ht_ins :: "u64 \<Rightarrow> u64 \<times> access_t \<times> bool \<times> bool \<Rightarrow> kst \<Rightarrow> (kst \<times> handle_t) option" where
  "ht_ins t x s =
     (case x of (a, acc, inh, prot) \<Rightarrow>
        case ht_insert_ex t a acc inh prot s of (s', st, h) \<Rightarrow> if st = STATUS_SUCCESS then Some (s', h) else None)"

definition ht_del :: "u64 \<Rightarrow> handle_t \<Rightarrow> kst \<Rightarrow> kst option" where
  "ht_del t h s =
     (case ht_close t h s of Ret (s', st) \<Rightarrow> if st = STATUS_SUCCESS then Some s' else None | _ \<Rightarrow> None)"

lemma slots_tables: "slots s t = ht_slots (tables s t)" "ht_count s t = ht_used (tables s t)"
  by (simp_all add: slots_def tables_def ht_count_def)

lemma slots_upd_obj [simp]: "slots (upd_obj a f s) t = slots s t" "slots (ob_reference a s) t = slots s t"
  by (simp_all add: slots_def upd_obj_def ob_reference_def)

lemma slots_put_slot [simp]:
  "slots (put_slot t i e n s) u = (if u = t then (slots s t)[i := e] else slots s u)"
  by (simp add: slots_def put_slot_def upd_proc_def)

lemma slots_wakes: "only_wakes s s' \<Longrightarrow> slots s' t = slots s t"
  by (simp add: slots_def only_wakes_fields)

lemma slots_open_fn [simp]: "slots (open_fn a acc s) t = slots s t"
  by (simp add: slots_def open_fn_def pipe_open_def upd_pipe_def)

lemma slots_close_fn [simp]: "slots (close_fn a acc s) t = slots s t"
  using slots_wakes[OF wakes_disp_signal]
  by (simp add: close_fn_def pipe_close_def Let_def) (simp add: slots_def upd_pipe_def)

lemma slots_drop_handle:
  assumes "drop_handle a acc s = Ret s'"
  shows "slots s' t = slots s t"
proof -
  let ?s1 = "upd_obj a (\<lambda>o'. o'\<lparr>o_handles := o_handles o' - 1\<rparr>) (close_fn a acc s)"
  have "slots s' t = slots ?s1 t"
    unfolding slots_tables(1) ob_dereference_tables[OF assms[unfolded drop_handle_def]] ..
  then show ?thesis by simp
qed

lemma free_slot_spec:
  assumes "free_slot es = Some i"
  shows "0 < i" "i < length es" "e_object (es ! i) = 0"
  using assms by (cases es; auto simp: free_slot_def find_index_Some)+

text \<open>An insertion that succeeds fills one free slot.\<close>

lemma ht_insert_slot:
  assumes "ht_ok t s" "ht_insert_ex t a acc inh prot s = (s', STATUS_SUCCESS, h)"
  obtains i where "0 < i" "i < HANDLE_TABLE_SLOTS" "e_object (slots s t ! i) = 0" "a \<noteq> 0"
    "h = HANDLE_VALUE i (next_gen (e_generation (slots s t ! i)))"
    "slots s' t = (slots s t)[i := \<lparr>e_object = a, e_access = ob_map_generic (g_types (o_kind (k_obj s a))) acc,
       e_inherit = inh, e_protect = prot, e_generation = next_gen (e_generation (slots s t ! i))\<rparr>]"
    "\<And>u. u \<noteq> t \<Longrightarrow> slots s' u = slots s u"
proof -
  have "a \<noteq> 0" using assms by (auto simp: ht_insert_ex_def)
  moreover obtain i where i: "free_slot (slots s t) = Some i"
    using assms by (auto simp: ht_insert_ex_def Let_def split: if_splits option.splits)
  ultimately show ?thesis
    using that[of i] assms free_slot_spec[OF i]
    by (auto simp: ht_insert_ex_def Let_def ht_ok_def)
qed

lemma ht_close_slot:
  assumes "ht_close t h s = Ret (s', STATUS_SUCCESS)"
  shows "handle_valid s t h" "slots s' t = (slots s t)[HANDLE_INDEX h := clear_entry (slots s t ! HANDLE_INDEX h)]"
    "u \<noteq> t \<Longrightarrow> slots s' u = slots s u"
proof -
  let ?i = "HANDLE_INDEX h" and ?e = "slots s t ! HANDLE_INDEX h"
  show v: "handle_valid s t h" using assms by (auto simp: ht_close_def split: if_splits)
  have d: "drop_handle (e_object ?e) (e_access ?e) (put_slot t ?i (clear_entry ?e) (ht_count s t - 1) s) = Ret s'"
    using assms v by (auto simp: ht_close_def Let_def split: if_splits)
  show "slots s' t = (slots s t)[?i := clear_entry ?e]" "u \<noteq> t \<Longrightarrow> slots s' u = slots s u"
    using slots_drop_handle[OF d] by simp_all
qed

interpretation ht: handle_space "ht_ok t" "ht_view t" "ht_dist t" ht_key ht_val "ht_ins t" "ht_del t" "2 ^ 32 - 2" for t
proof unfold_locales
  fix s x s' h k assume ok: "ht_ok t s" and ins: "ht_ins t x s = Some (s', h)"
  obtain a acc inh prot where x: "x = (a, acc, inh, prot)" by (cases x)
  have "ht_insert_ex t a acc inh prot s = (s', STATUS_SUCCESS, h)"
    using ins by (auto simp: ht_ins_def x split: prod.splits if_splits)
  from ht_insert_slot[OF ok this] obtain i where i: "0 < i" "i < 1024" "e_object (slots s t ! i) = 0" "a \<noteq> 0"
    "h = HANDLE_VALUE i (next_gen (e_generation (slots s t ! i)))"
    "slots s' t = (slots s t)[i := \<lparr>e_object = a, e_access = ob_map_generic (g_types (o_kind (k_obj s a))) acc,
       e_inherit = inh, e_protect = prot, e_generation = next_gen (e_generation (slots s t ! i))\<rparr>]"
    by blast
  have len: "length (slots s t) = 1024" using ok by (simp add: ht_ok_def)
  have key: "ht_key h = (i, next_gen (e_generation (slots s t ! i)))" using i(2) by (simp add: i(5) ht_key_def)
  show "ht_ok t s' \<and> ht_view t s (ht_key h) = None \<and> ht_view t s' = (ht_view t s)(ht_key h := Some (ht_val s x)) \<and>
        ht_dist t s (ht_key h) \<le> 1"
    using ok i(1-4) len
    by (auto simp: key ht_ok_def i(6) ht_view_def Let_def ht_val_def x fun_eq_iff ht_dist_def gen_dist_issue nth_list_update)
  show "ht_dist t s k \<le> ht_dist t s' k + 1"
    using i(2) len gen_dist_next by (cases "fst k = i") (simp_all add: ht_dist_def i(6))
next
  fix s h s' k assume ok: "ht_ok t s" and del: "ht_del t h s = Some s'"
  have c: "ht_close t h s = Ret (s', STATUS_SUCCESS)"
    using del by (auto simp: ht_del_def split: outcome.splits prod.splits if_splits)
  note S = ht_close_slot[OF c]
  have len: "length (slots s t) = 1024" using ok by (simp add: ht_ok_def)
  have i: "HANDLE_INDEX h \<noteq> 0" "HANDLE_INDEX h < 1024" "e_object (slots s t ! HANDLE_INDEX h) \<noteq> 0"
    "e_generation (slots s t ! HANDLE_INDEX h) = HANDLE_GEN h"
    using S(1) by (simp_all add: handle_valid_def)
  show "ht_ok t s' \<and> ht_view t s (ht_key h) \<noteq> None \<and> ht_view t s' = (ht_view t s)(ht_key h := None) \<and>
        2 ^ 32 - 2 \<le> ht_dist t s' (ht_key h)"
    using ok i len gen_dist_self[of "HANDLE_GEN h"]
    by (auto simp: ht_key_def ht_ok_def S(2) ht_view_def Let_def fun_eq_iff ht_dist_def clear_entry_def nth_list_update)
  show "ht_dist t s k \<le> ht_dist t s' k + 1"
    using i(2) len gen_dist_next by (cases "fst k = HANDLE_INDEX h") (simp_all add: ht_dist_def S(2) clear_entry_def)
qed

section \<open>Insert and lookup\<close>

lemma obj_open_fn [simp]: "k_obj (open_fn a acc s) = k_obj s"
  by (simp add: open_fn_def pipe_open_def upd_pipe_def)

lemma obj_close_fn [simp]: "k_obj (close_fn a acc s) = k_obj s"
  using only_wakes_fields(2)[OF wakes_disp_signal]
  by (simp add: close_fn_def pipe_close_def Let_def) (simp add: upd_pipe_def)

lemma obj_put_slot [simp]: "k_obj (put_slot t i e n s) = k_obj s"
  by (simp add: put_slot_def upd_proc_def)

lemma ht_insert_kind:
  assumes "ht_insert_ex t a acc inh prot s = (s', st, h)"
  shows "o_kind (k_obj s' x) = o_kind (k_obj s x)"
  using assms by (auto simp: ht_insert_ex_def Let_def upd_obj_def ob_reference_def split: if_splits option.splits)

lemma ht_insert_total:
  assumes "ht_ok t s" "a \<noteq> 0" "0 < j" "j < HANDLE_TABLE_SLOTS" "e_object (slots s t ! j) = 0"
  obtains s' h where "ht_insert_ex t a acc inh prot s = (s', STATUS_SUCCESS, h)"
proof -
  have j: "j - 1 < length (tl (slots s t))" "tl (slots s t) ! (j - 1) = slots s t ! j"
    using assms(1,3,4) by (auto simp: ht_ok_def nth_tl)
  have "free_slot (slots s t) \<noteq> None"
    unfolding free_slot_def find_index_None using j assms(5) nth_mem[OF j(1)] by auto
  then show ?thesis using that assms(1,2) by (auto simp: ht_insert_ex_def Let_def ht_ok_def)
qed

lemma ht_lookup_view:
  assumes "t \<noteq> 0" "h AND 3 = 0" "ht_view t s (ht_key h) = Some (a, g)"
  shows "ht_lookup_ex t h req exp s =
    (if req \<noteq> 0 \<and> g AND req \<noteq> req then (s, STATUS_ACCESS_DENIED, 0, 0)
     else if exp \<noteq> None \<and> exp \<noteq> Some (o_kind (k_obj s a)) then (s, STATUS_OBJECT_TYPE_MISMATCH, 0, 0)
     else (ob_reference a s, STATUS_SUCCESS, a, g))"
proof -
  have v: "HANDLE_INDEX h \<noteq> 0" "HANDLE_INDEX h < 1024" "e_object (slots s t ! HANDLE_INDEX h) = a" "a \<noteq> 0"
    "e_generation (slots s t ! HANDLE_INDEX h) = HANDLE_GEN h" "e_access (slots s t ! HANDLE_INDEX h) = g"
    using assms(3) by (auto simp: ht_view_def ht_key_def Let_def split: if_splits)
  have "h \<noteq> 0" using v(1) by (auto simp: HANDLE_INDEX_def)
  then show ?thesis using v assms(1,2) by (simp add: ht_lookup_ex_def Let_def)
qed

lemma ht_lookup_none:
  assumes "t \<noteq> 0" "ht_view t s (ht_key h) = None"
  shows "ht_lookup_ex t h req exp s = (s, STATUS_INVALID_HANDLE, 0, 0)"
  using assms by (auto simp: ht_lookup_ex_def ht_view_def ht_key_def Let_def split: if_splits)

text \<open>C16. A handle that was inserted finds its object: while the table has a free slot, \<open>ht_insert_ex\<close> succeeds, and a
  lookup of the handle it returns gives the object, with a reference taken and the mapped
  rights, exactly for the rights that were granted and the kind the object has; a request for a right that was
  not granted is refused, and so is one for another kind.  No handle that was valid before changes its meaning.\<close>

theorem handle_roundtrip:
  assumes "ht_ok t s" "a \<noteq> 0" "0 < j" "j < HANDLE_TABLE_SLOTS" "e_object (slots s t ! j) = 0"
    and "g = ob_map_generic (g_types (o_kind (k_obj s a))) acc"
  shows "\<exists>s' h. ht_insert_ex t a acc inh prot s = (s', STATUS_SUCCESS, h)
    \<and> (\<forall>req exp. ht_lookup_ex t h req exp s' =
         (if g AND req \<noteq> req then (s', STATUS_ACCESS_DENIED, 0, 0)
          else if exp \<notin> {None, Some (o_kind (k_obj s a))} then (s', STATUS_OBJECT_TYPE_MISMATCH, 0, 0)
          else (ob_reference a s', STATUS_SUCCESS, a, g)))
    \<and> (\<forall>k. ht_view t s k \<noteq> None \<longrightarrow> ht_view t s' k = ht_view t s k)"
proof -
  obtain s' h where ins: "ht_insert_ex t a acc inh prot s = (s', STATUS_SUCCESS, h)"
    by (rule ht_insert_total[OF assms(1-5)])
  have i: "ht_ins t (a, acc, inh, prot) s = Some (s', h)" by (simp add: ht_ins_def ins)
  note L = ht.ins_law[OF assms(1) i]
  have al: "h AND 3 = 0" by (rule ht_insert_slot[OF assms(1) ins]) simp
  have "ht_view t s' (ht_key h) = Some (a, g)" using L by (simp add: ht_val_def assms(6))
  from ht_lookup_view[OF _ al this] assms(1) L ins ht_insert_kind[OF ins, of a] show ?thesis
    by (intro exI[of _ s'] exI[of _ h]) (auto simp: ht_ok_def)
qed

lemma zero_slots: "slots zero_kst t = replicate 1024 zero_entry"
  by (simp add: slots_def zero_kst_def zero_process_def ht_init_def)

lemma zero_ht_ok: "t \<noteq> 0 \<Longrightarrow> ht_ok t zero_kst"
  by (simp add: ht_ok_def zero_slots)

theorem handle_roundtrip_witness:
  "\<exists>s' h. ht_insert_ex 0x1000 0x2000 GENERIC_ALL False False zero_kst = (s', STATUS_SUCCESS, h)
     \<and> ht_lookup_ex 0x1000 h SYNCHRONIZE (Some OBJ_EVENT) s' = (ob_reference 0x2000 s', STATUS_SUCCESS, 0x2000, 0x100002)
     \<and> ht_lookup_ex 0x1000 h SYNCHRONIZE (Some OBJ_FILE) s' = (s', STATUS_OBJECT_TYPE_MISMATCH, 0, 0)"
proof -
  have g: "0x100002 = ob_map_generic (g_types (o_kind (k_obj zero_kst 0x2000))) GENERIC_ALL"
    by (simp add: zero_kst_def zero_object_def ob_map_generic_def map_right_def type_init_def)
  have e: "e_object (slots zero_kst 0x1000 ! 1) = 0" by (simp add: zero_slots zero_entry_def)
  have k: "o_kind (k_obj zero_kst 0x2000) = OBJ_EVENT" by (simp add: zero_kst_def zero_object_def)
  show ?thesis
    using handle_roundtrip[OF zero_ht_ok _ _ _ e g, where inh = False and prot = False] unfolding k by fastforce
qed

section \<open>Stale handles\<close>

text \<open>What the kernel does to handle tables, one call at a time.\<close>

inductive ht_step :: "kst \<Rightarrow> kst \<Rightarrow> bool" where
  insert: "ht_insert_ex u a acc inh prot s = (s', st, h) \<Longrightarrow> ht_step s s'"
| close: "ht_close u h s = Ret (s', st) \<Longrightarrow> ht_step s s'"
| lookup: "ht_lookup_ex u h req exp s = (s', st, a, g) \<Longrightarrow> ht_step s s'"
| inherit: "ht_set_inherit u h b s = (s', st) \<Longrightarrow> ht_step s s'"
| deref: "ob_dereference a s = Ret s' \<Longrightarrow> ht_step s s'"

inductive ht_run :: "nat \<Rightarrow> kst \<Rightarrow> kst \<Rightarrow> bool" where
  none: "ht_run 0 s s"
| more: "ht_step s s1 \<Longrightarrow> ht_run n s1 s2 \<Longrightarrow> ht_run (Suc n) s s2"

lemma stale_slots:
  assumes "slots s' t = slots s t" "ht.stale t k n s"
  shows "ht.stale t k n s'"
  using assms by (simp add: ht.stale_def ht_ok_def ht_view_def ht_dist_def)

lemma ht_insert_other:
  assumes "ht_insert_ex u a acc inh prot s = (s', st, h)" "u \<noteq> t \<or> st \<noteq> STATUS_SUCCESS"
  shows "slots s' t = slots s t"
  using assms by (auto simp: ht_insert_ex_def Let_def split: if_splits option.splits)

lemma ht_close_other:
  assumes "ht_close u h s = Ret (s', st)" "u \<noteq> t \<or> st \<noteq> STATUS_SUCCESS"
  shows "slots s' t = slots s t"
proof (cases "st = STATUS_SUCCESS")
  case True
  then show ?thesis using ht_close_slot(3)[of u h s s' t] assms by auto
next
  case False
  then show ?thesis using assms(1) by (auto simp: ht_close_def Let_def split: if_splits)
qed

lemma ht_set_inherit_stale:
  assumes "ht_set_inherit u h b s = (s', st)" "ht.stale t k n s"
  shows "ht.stale t k n s'"
proof (cases "s' = s")
  case False
  let ?i = "HANDLE_INDEX h"
  have e: "slots s' t = (if u = t then (slots s t)[?i := (slots s t ! ?i)\<lparr>e_inherit := b\<rparr>] else slots s t)"
    using assms(1) False by (auto simp: ht_set_inherit_def Let_def split: if_splits)
  have "e_object (slots s' t ! i) = e_object (slots s t ! i) \<and> e_access (slots s' t ! i) = e_access (slots s t ! i)
      \<and> e_generation (slots s' t ! i) = e_generation (slots s t ! i)" for i
    by (cases "?i < length (slots s t)") (auto simp: e nth_list_update list_update_beyond)
  then have "ht_view t s' k = ht_view t s k" "ht_dist t s' k = ht_dist t s k"
    by (simp_all add: ht_view_def ht_dist_def Let_def)
  moreover have "length (slots s' t) = length (slots s t)" by (simp add: e)
  ultimately show ?thesis using assms(2) by (simp add: ht.stale_def ht_ok_def)
qed (use assms(2) in simp)

lemma ht_step_stale:
  assumes "ht_step s s'" "ht.stale t k (Suc n) s"
  shows "ht.stale t k n s'"
  using assms(1)
proof cases
  case (insert u a acc inh prot st h)
  show ?thesis
  proof (cases "u = t \<and> st = STATUS_SUCCESS")
    case True
    then have "ht_ins t (a, acc, inh, prot) s = Some (s', h)" using insert by (simp add: ht_ins_def)
    then show ?thesis by (rule ht.ins_keeps_stale[OF assms(2)])
  next
    case False
    then show ?thesis using ht_insert_other[OF insert] stale_slots ht.stale_mono[OF assms(2)] by blast
  qed
next
  case (close u h st)
  show ?thesis
  proof (cases "u = t \<and> st = STATUS_SUCCESS")
    case True
    then have "ht_del t h s = Some s'" using close by (simp add: ht_del_def)
    then show ?thesis by (rule ht.del_keeps_stale[OF assms(2)])
  next
    case False
    then show ?thesis using ht_close_other[OF close] stale_slots ht.stale_mono[OF assms(2)] by blast
  qed
next
  case (lookup u h req exp st a g)
  then have "slots s' t = slots s t" by (auto simp: ht_lookup_ex_def Let_def split: if_splits)
  then show ?thesis using stale_slots ht.stale_mono[OF assms(2)] by blast
next
  case (inherit u h b st)
  then show ?thesis using ht_set_inherit_stale ht.stale_mono[OF assms(2)] by blast
next
  case (deref a)
  then have "slots s' t = slots s t" by (simp add: slots_tables(1) ob_dereference_tables)
  then show ?thesis using stale_slots ht.stale_mono[OF assms(2)] by blast
qed

lemma ht_run_stale: "ht_run n s s' \<Longrightarrow> ht.stale t k n s \<Longrightarrow> ht.stale t k 0 s'"
  by (induction rule: ht_run.induct) (auto intro: ht_step_stale)

text \<open>C17. A closed handle stays invalid: after \<open>ht_close\<close> succeeds, every lookup of the handle fails with
  \<open>STATUS_INVALID_HANDLE\<close>, whatever is done to the handle tables in between, for up to \<open>2^32 - 3\<close> calls; only then can the
  generation of the slot come round again.\<close>

theorem closed_handle_invalid:
  assumes "ht_ok t s" "ht_close t h s = Ret (s1, STATUS_SUCCESS)" "ht_run n s1 s2" "n \<le> 2 ^ 32 - 3"
  shows "ht_lookup_ex t h req exp s2 = (s2, STATUS_INVALID_HANDLE, 0, 0)"
proof -
  have "ht_del t h s = Some s1" by (simp add: ht_del_def assms(2))
  then have "ht.stale t (ht_key h) n s1" by (rule ht.del_stale[OF assms(1)]) (use assms(4) in simp)
  from ht_run_stale[OF assms(3) this] show ?thesis
    by (intro ht_lookup_none) (auto simp: ht.stale_def ht_ok_def)
qed

lemma drop_handle_keeps:
  assumes "a \<noteq> 0" "1 < unat (o_pointers (k_obj s a))"
  shows "drop_handle a acc s = Ret (upd_obj a (\<lambda>o'. o'\<lparr>o_pointers := o_pointers o' - 1\<rparr>)
    (upd_obj a (\<lambda>o'. o'\<lparr>o_handles := o_handles o' - 1\<rparr>) (close_fn a acc s)))"
  unfolding drop_handle_def by (rule ob_dereference_keeps) (use assms in \<open>simp_all add: upd_obj_def\<close>)

text \<open>A process with one handle to an event that has two more references.\<close>

definition demo_handles :: kst where
  "demo_handles =
     put_slot 0x1000 1 \<lparr>e_object = 0x2000, e_access = 0x100002, e_inherit = False, e_protect = False, e_generation = 1\<rparr> 1
       (zero_kst\<lparr>k_obj := (\<lambda>_. zero_object\<lparr>o_pointers := 3, o_handles := 1\<rparr>)\<rparr>)"

lemma slots_demo: "slots demo_handles 0x1000 = (replicate 1024 zero_entry)[1 :=
    \<lparr>e_object = 0x2000, e_access = 0x100002, e_inherit = False, e_protect = False, e_generation = 1\<rparr>]"
  unfolding demo_handles_def
  by (simp only: slots_put_slot if_True) (simp add: slots_def zero_kst_def zero_process_def ht_init_def)

lemma obj_demo: "k_obj demo_handles = (\<lambda>_. zero_object\<lparr>o_pointers := 3, o_handles := 1\<rparr>)"
  by (simp add: demo_handles_def)

lemma demo_ht_ok: "ht_ok 0x1000 demo_handles"
  by (simp add: ht_ok_def slots_demo)

lemma demo_close: "\<exists>s1. ht_close 0x1000 0x10004 demo_handles = Ret (s1, STATUS_SUCCESS)"
proof -
  have h: "HANDLE_INDEX 0x10004 = 1" "HANDLE_GEN 0x10004 = 1" by (simp_all add: HANDLE_INDEX_def HANDLE_GEN_def)
  have n: "slots demo_handles 0x1000 ! 1 =
    \<lparr>e_object = 0x2000, e_access = 0x100002, e_inherit = False, e_protect = False, e_generation = 1\<rparr>"
    by (simp add: slots_demo)
  have v: "handle_valid demo_handles 0x1000 0x10004" unfolding handle_valid_def h n by simp
  have "drop_handle 0x2000 0x100002 (put_slot 0x1000 1 e n demo_handles) =
    Ret (upd_obj 0x2000 (\<lambda>o'. o'\<lparr>o_pointers := o_pointers o' - 1\<rparr>)
    (upd_obj 0x2000 (\<lambda>o'. o'\<lparr>o_handles := o_handles o' - 1\<rparr>) (close_fn 0x2000 0x100002 (put_slot 0x1000 1 e n demo_handles))))"
    for e n by (rule drop_handle_keeps) (simp_all add: obj_demo)
  then show ?thesis using v by (simp add: ht_close_def h n Let_def del: One_nat_def)
qed

theorem closed_handle_invalid_witness:
  "\<exists>s1 s2. ht_close 0x1000 0x10004 demo_handles = Ret (s1, STATUS_SUCCESS)
     \<and> (\<exists>h. ht_insert_ex 0x1000 0x2000 SYNCHRONIZE False False s1 = (s2, STATUS_SUCCESS, h))
     \<and> ht_lookup_ex 0x1000 0x10004 0 None s2 = (s2, STATUS_INVALID_HANDLE, 0, 0)"
proof -
  obtain s1 where c: "ht_close 0x1000 0x10004 demo_handles = Ret (s1, STATUS_SUCCESS)" using demo_close by blast
  have ok: "ht_ok 0x1000 s1" using ht_close_slot(2)[OF c] demo_ht_ok by (simp add: ht_ok_def)
  have "HANDLE_INDEX 0x10004 = 1" by (simp add: HANDLE_INDEX_def)
  then have free: "e_object (slots s1 0x1000 ! 1) = 0"
    using ht_close_slot(2)[OF c] by (simp add: slots_demo clear_entry_def)
  have nz: "(0x2000 :: u64) \<noteq> 0" by simp
  obtain s2 h where i: "ht_insert_ex 0x1000 0x2000 SYNCHRONIZE False False s1 = (s2, STATUS_SUCCESS, h)"
    by (rule ht_insert_total[OF ok nz _ _ free]) simp_all
  have "ht_run 1 s1 s2" using ht_run.more[OF ht_step.insert[OF i] ht_run.none] by simp
  then have "ht_lookup_ex 0x1000 0x10004 0 None s2 = (s2, STATUS_INVALID_HANDLE, 0, 0)"
    by (rule closed_handle_invalid[OF demo_ht_ok c]) simp
  then show ?thesis using c i by blast
qed

section \<open>Destruction\<close>

definition slot_refs :: "handle_entry list \<Rightarrow> u64 \<Rightarrow> nat" where
  "slot_refs es a = length (filter (\<lambda>e. e_object e = a) (tl es))"

definition live_count :: "handle_entry list \<Rightarrow> nat" where
  "live_count es = length (filter (\<lambda>e. e_object e \<noteq> 0) (tl es))"

lemma filter_length_update:
  assumes "i < length xs"
  shows "length (filter P (xs[i := y])) + (if P (xs ! i) then 1 else 0) = length (filter P xs) + (if P y then 1 else 0)"
  using assms
proof (induction xs arbitrary: i)
  case (Cons x xs)
  show ?case
  proof (cases i)
    case (Suc j)
    then have "length (filter P (xs[j := y])) + (if P (xs ! j) then 1 else 0) = length (filter P xs) + (if P y then 1 else 0)"
      using Cons by simp
    then show ?thesis using Suc by simp
  qed simp
qed simp

lemma live_slot_spec:
  assumes "live_slot es = Some i"
  shows "0 < i" "i < length es" "e_object (es ! i) \<noteq> 0"
  using assms by (cases es; auto simp: live_slot_def find_index_Some)+

lemma tl_update: "0 < i \<Longrightarrow> tl (es[i := y]) = (tl es)[i - 1 := y]"
  by (cases es) (auto split: nat.splits)

lemma clear_counts:
  assumes "0 < i" "i < length es" "e_object (es ! i) = a" "a \<noteq> 0"
  shows "live_count (es[i := clear_entry (es ! i)]) + 1 = live_count es"
    "b \<noteq> 0 \<Longrightarrow> slot_refs (es[i := clear_entry (es ! i)]) b + (if b = a then 1 else 0) = slot_refs es b"
proof -
  have i: "i - 1 < length (tl es)" "tl es ! (i - 1) = es ! i" using assms(1,2) by (auto simp: nth_tl)
  show "live_count (es[i := clear_entry (es ! i)]) + 1 = live_count es"
    using filter_length_update[OF i(1), of "\<lambda>e. e_object e \<noteq> 0" "clear_entry (es ! i)"] i assms
    by (simp add: live_count_def tl_update clear_entry_def)
  show "slot_refs (es[i := clear_entry (es ! i)]) b + (if b = a then 1 else 0) = slot_refs es b" if "b \<noteq> 0"
    using filter_length_update[OF i(1), of "\<lambda>e. e_object e = b" "clear_entry (es ! i)"] i assms that
    by (cases "b = a") (simp_all add: slot_refs_def tl_update clear_entry_def)
qed

lemma live_none:
  assumes "live_slot es = None" "0 < i" "i < length es"
  shows "e_object (es ! i) = 0"
proof -
  have i: "i - 1 < length (tl es)" "tl es ! (i - 1) = es ! i" using assms(2,3) by (auto simp: nth_tl)
  have "es ! i \<in> set (tl es)" using nth_mem[OF i(1)] by (simp only: i(2))
  then show ?thesis using assms(1) by (simp only: find_index_None live_slot_def) blast
qed

lemma destroy_loop_ok:
  assumes "live_count (slots s t) < n" "length (slots s t) = 1024"
    "\<And>a. a \<noteq> 0 \<Longrightarrow> slot_refs (slots s t) a < unat (o_pointers (k_obj s a))"
  shows "\<exists>s'. destroy_loop n t s = Ret s' \<and> (\<forall>i. 0 < i \<longrightarrow> i < 1024 \<longrightarrow> e_object (slots s' t ! i) = 0)
    \<and> (\<forall>a. a \<noteq> 0 \<longrightarrow> unat (o_pointers (k_obj s' a)) + slot_refs (slots s t) a = unat (o_pointers (k_obj s a)))"
  using assms
proof (induction n arbitrary: s)
  case (Suc n)
  show ?case
  proof (cases "live_slot (slots s t)")
    case None
    have z: "e_object (slots s t ! i) = 0" if "0 < i" "i < 1024" for i
      using live_none[OF None] Suc.prems(2) that by simp
    have "slot_refs (slots s t) a = 0" if "a \<noteq> 0" for a
      using None that by (auto simp: slot_refs_def live_slot_def find_index_None filter_empty_conv)
    then show ?thesis using None z by simp
  next
    case (Some i)
    note L = live_slot_spec[OF Some]
    let ?e = "slots s t ! i" let ?a = "e_object ?e"
    let ?u = "if ht_count s t \<noteq> 0 then ht_count s t - 1 else ht_count s t"
    let ?s0 = "put_slot t i (clear_entry ?e) ?u s"
    define s1 where "s1 = upd_obj ?a (\<lambda>o'. o'\<lparr>o_pointers := o_pointers o' - 1\<rparr>)
        (upd_obj ?a (\<lambda>o'. o'\<lparr>o_handles := o_handles o' - 1\<rparr>) (close_fn ?a (e_access ?e) ?s0))"
    have "1 \<le> slot_refs (slots s t) ?a" using clear_counts(2)[OF L(1,2) refl L(3) L(3)] by simp
    then have p: "1 < unat (o_pointers (k_obj s ?a))" using Suc.prems(3)[OF L(3)] by simp
    have d: "drop_handle ?a (e_access ?e) ?s0 = Ret s1"
      unfolding s1_def by (rule drop_handle_keeps[OF L(3)]) (use p in simp)
    have sl: "slots s1 t = (slots s t)[i := clear_entry ?e]" by (simp add: s1_def)
    have pt: "unat (o_pointers (k_obj s1 b)) + (if b = ?a then 1 else 0) = unat (o_pointers (k_obj s b))" for b
    proof -
      have "o_pointers (k_obj s ?a) \<noteq> 0" using p by auto
      from unat_minus_one[OF this] p show ?thesis by (auto simp: s1_def upd_obj_def)
    qed
    note C = clear_counts[OF L(1,2) refl L(3)]
    have "\<exists>s'. destroy_loop n t s1 = Ret s' \<and> (\<forall>i. 0 < i \<longrightarrow> i < 1024 \<longrightarrow> e_object (slots s' t ! i) = 0)
      \<and> (\<forall>a. a \<noteq> 0 \<longrightarrow> unat (o_pointers (k_obj s' a)) + slot_refs (slots s1 t) a = unat (o_pointers (k_obj s1 a)))"
    proof (rule Suc.IH)
      show "live_count (slots s1 t) < n" using Suc.prems(1) C(1) by (simp add: sl)
      show "length (slots s1 t) = 1024" using Suc.prems(2) by (simp add: sl)
      fix b :: u64 assume b: "b \<noteq> 0"
      show "slot_refs (slots s1 t) b < unat (o_pointers (k_obj s1 b))"
        using Suc.prems(3)[OF b] C(2)[OF b] pt[of b] by (simp only: sl)
    qed
    then obtain s' where s': "destroy_loop n t s1 = Ret s'" "\<forall>i. 0 < i \<longrightarrow> i < 1024 \<longrightarrow> e_object (slots s' t ! i) = 0"
      "\<forall>a. a \<noteq> 0 \<longrightarrow> unat (o_pointers (k_obj s' a)) + slot_refs (slots s1 t) a = unat (o_pointers (k_obj s1 a))"
      by blast
    have "destroy_loop (Suc n) t s = Ret s'" using d s'(1) by (simp add: Some Let_def)
    moreover have "unat (o_pointers (k_obj s' b)) + slot_refs (slots s t) b = unat (o_pointers (k_obj s b))"
      if b: "b \<noteq> 0" for b
      using s'(3)[rule_format, OF b] C(2)[OF b] pt[of b] unfolding sl by linarith
    ultimately show ?thesis using s'(2) by blast
  qed
qed simp



section \<open>Duplication\<close>

lemma view_slots: "slots s' t = slots s t \<Longrightarrow> ht_view t s' = ht_view t s"
  by (simp add: ht_view_def fun_eq_iff)

lemma ht_insert_pointers:
  assumes "ht_insert_ex t a acc inh prot s = (s', STATUS_SUCCESS, h)"
  shows "o_pointers (k_obj s' a) = o_pointers (k_obj s a) + 1"
  using assms by (auto simp: ht_insert_ex_def Let_def upd_obj_def ob_reference_def split: if_splits option.splits)

text \<open>C37. Duplicating a handle does not bound the rights of the copy by those of the original: from any valid handle,
  even one that grants nothing, \<open>ht_duplicate\<close> with a nonzero \<open>access\<close> makes a handle to the same object that
  grants everything asked for.\<close>

theorem ht_duplicate_escalates:
  assumes "ht_ok src s" "ht_ok dst s" "h AND 3 = 0" "ht_view src s (ht_key h) = Some (a, granted)" "access \<noteq> 0"
    and "0 < j" "j < HANDLE_TABLE_SLOTS" "e_object (slots s dst ! j) = 0"
    and "0 < unat (o_pointers (k_obj s a))" "unat (o_pointers (k_obj s a)) < 2 ^ 63"
  shows "\<exists>s' h'. ht_duplicate src h dst access s = Ret (s', STATUS_SUCCESS, h')
    \<and> ht_view dst s' (ht_key h') = Some (a, ob_map_generic (g_types (o_kind (k_obj s a))) access)"
proof -
  have nz: "src \<noteq> 0" "dst \<noteq> 0" using assms(1,2) by (auto simp: ht_ok_def)
  have a: "a \<noteq> 0" using assms(4) by (auto simp: ht_view_def Let_def split: if_splits)
  let ?s1 = "ob_reference a s"
  have l: "ht_lookup_ex src h 0 None s = (?s1, STATUS_SUCCESS, a, granted)"
    using ht_lookup_view[OF nz(1) assms(3,4)] by simp
  have ok1: "ht_ok dst ?s1" using assms(2) by (simp add: ht_ok_def)
  have free: "e_object (slots ?s1 dst ! j) = 0" using assms(8) by simp
  obtain s2 h2 where i: "ht_insert_ex dst a access False False ?s1 = (s2, STATUS_SUCCESS, h2)"
    by (rule ht_insert_total[OF ok1 a assms(6,7) free])
  have ins: "ht_ins dst (a, access, False, False) ?s1 = Some (s2, h2)" by (simp add: ht_ins_def i)
  have v: "ht_view dst s2 (ht_key h2) = Some (a, ob_map_generic (g_types (o_kind (k_obj s a))) access)"
    using ht.ins_law[OF ok1 ins] a by (simp add: ht_val_def ob_reference_def upd_obj_def)
  have "o_pointers (k_obj s2 a) = o_pointers (k_obj s a) + 1 + 1"
    using ht_insert_pointers[OF i] a by (simp add: ob_reference_def upd_obj_def)
  then have "unat (o_pointers (k_obj s2 a)) = unat (o_pointers (k_obj s a)) + 2"
    using assms(10) by (simp add: unat_word_ariths)
  then have "ob_dereference a s2 = Ret (upd_obj a (\<lambda>o'. o'\<lparr>o_pointers := o_pointers o' - 1\<rparr>) s2)"
    by (intro ob_dereference_keeps[OF a]) simp
  then have "ht_duplicate src h dst access s =
      Ret (upd_obj a (\<lambda>o'. o'\<lparr>o_pointers := o_pointers o' - 1\<rparr>) s2, STATUS_SUCCESS, h2)"
    using nz assms(5) i by (simp add: ht_duplicate_def l ht_insert_def NT_SUCCESS_def)
  then show ?thesis using v view_slots[OF slots_upd_obj(1)] by auto
qed

text \<open>The table of \<open>demo_handles\<close> with the rights taken away.\<close>

definition demo_powerless :: kst where
  "demo_powerless =
     put_slot 0x1000 1 \<lparr>e_object = 0x2000, e_access = 0, e_inherit = False, e_protect = False, e_generation = 1\<rparr> 1 demo_handles"

theorem ht_duplicate_escalates_witness:
  "\<exists>s' h'. ht_lookup_ex 0x1000 0x10004 SYNCHRONIZE None demo_powerless = (demo_powerless, STATUS_ACCESS_DENIED, 0, 0)
     \<and> ht_duplicate 0x1000 0x10004 0x1000 GENERIC_ALL demo_powerless = Ret (s', STATUS_SUCCESS, h')
     \<and> ht_view 0x1000 s' (ht_key h') = Some (0x2000, 0x100002)"
proof -
  have len: "length (slots demo_powerless 0x1000) = 1024"
    unfolding demo_powerless_def by (simp add: slots_demo)
  have n: "slots demo_powerless 0x1000 ! 1 =
    \<lparr>e_object = 0x2000, e_access = 0, e_inherit = False, e_protect = False, e_generation = 1\<rparr>"
    "slots demo_powerless 0x1000 ! 2 = zero_entry"
    unfolding demo_powerless_def by (simp_all add: slots_demo)
  have ok: "ht_ok 0x1000 demo_powerless" by (simp add: ht_ok_def len)
  have h: "HANDLE_INDEX 0x10004 = 1" "HANDLE_GEN 0x10004 = 1" by (simp_all add: HANDLE_INDEX_def HANDLE_GEN_def)
  have v: "ht_view 0x1000 demo_powerless (ht_key 0x10004) = Some (0x2000, 0)"
    unfolding ht_view_def ht_key_def h Let_def fst_conv snd_conv n by simp
  have nz: "(0x1000 :: u64) \<noteq> 0" and al: "(0x10004 :: u64) AND 3 = 0" and acc: "GENERIC_ALL \<noteq> 0" by simp_all
  have free: "e_object (slots demo_powerless 0x1000 ! 2) = 0" unfolding n by (simp add: zero_entry_def)
  have o': "k_obj demo_powerless = (\<lambda>_. zero_object\<lparr>o_pointers := 3, o_handles := 1\<rparr>)"
    by (simp add: demo_powerless_def obj_demo)
  have g: "ob_map_generic (g_types (o_kind (k_obj demo_powerless 0x2000))) GENERIC_ALL = 0x100002"
    unfolding o' by (simp add: zero_object_def ob_map_generic_def map_right_def type_init_def)
  have d: "ht_lookup_ex 0x1000 0x10004 SYNCHRONIZE None demo_powerless = (demo_powerless, STATUS_ACCESS_DENIED, 0, 0)"
    using ht_lookup_view[OF nz al v] by simp
  have "\<exists>s' h'. ht_duplicate 0x1000 0x10004 0x1000 GENERIC_ALL demo_powerless = Ret (s', STATUS_SUCCESS, h')
    \<and> ht_view 0x1000 s' (ht_key h') = Some (0x2000, ob_map_generic (g_types (o_kind (k_obj demo_powerless 0x2000))) GENERIC_ALL)"
    by (rule ht_duplicate_escalates[OF ok ok al v acc _ _ free]) (simp_all add: o')
  with d show ?thesis unfolding g by blast
qed

end
