(* ===== verification/Object_Correct.thy ===== *)
theory Object_Correct
  imports Frames
begin

text \<open>
  Correctness of the object manager: generic rights, reference counts and the name space.
\<close>

section \<open>Generic rights\<close>

lemma map_right_bit:
  assumes "m < 32"
  shows "bit (map_right (push_bit m 1) r a) n \<longleftrightarrow> n \<noteq> m \<and> (bit a n \<or> bit a m \<and> bit (r :: u32) n)"
proof -
  have "a AND push_bit m 1 = (if bit a m then push_bit m 1 else 0)"
    by (rule bit_eqI) (use assms in \<open>auto simp: bit_and_iff\<close>)
  moreover have "push_bit m 1 \<noteq> (0 :: u32)" using bit_push1[of m m] assms by (metis bit_0_eq bot_apply bot_bool_def)
  ultimately have "a AND push_bit m 1 \<noteq> 0 \<longleftrightarrow> bit a m" by simp
  then show ?thesis using assms bit_imp_le_length[of a n] bit_imp_le_length[of r n]
    by (auto simp: map_right_def bit_simps)
qed

lemmas map_right_bits =
  map_right_bit[of 31, simplified] map_right_bit[of 30, simplified] map_right_bit[of 29, simplified]
  map_right_bit[of 28, simplified]

definition if_right :: "nat \<Rightarrow> access_t \<Rightarrow> access_t \<Rightarrow> access_t" where
  "if_right m acc r = (if bit acc m then r else 0)"

lemma type_rights_low:
  "28 \<le> n \<Longrightarrow> \<not> bit (ty_read (g_types k)) n \<and> \<not> bit (ty_write (g_types k)) n
     \<and> \<not> bit (ty_execute (g_types k)) n \<and> \<not> bit (ty_all (g_types k)) n"
proof -
  have low: "\<not> bit w n" if "w = take_bit 28 w" "28 \<le> n" for w :: u32 and n
    using that by (metis bit_take_bit_iff not_less)
  show "28 \<le> n \<Longrightarrow> \<not> bit (ty_read (g_types k)) n \<and> \<not> bit (ty_write (g_types k)) n
     \<and> \<not> bit (ty_execute (g_types k)) n \<and> \<not> bit (ty_all (g_types k)) n"
    by (intro conjI low; cases k; simp add: type_init_def)
qed

text \<open>Mapping generic rights yields specific rights only, exactly those asked for: for every object type the
  result is the specific rights of the request, with what the type defines for each generic right that was
  requested, and no generic bit.\<close>

theorem ob_map_generic_exact:
  "ob_map_generic (g_types k) acc =
     acc AND 0x0FFFFFFF OR if_right 31 acc (ty_read (g_types k)) OR if_right 30 acc (ty_write (g_types k))
       OR if_right 29 acc (ty_execute (g_types k)) OR if_right 28 acc (ty_all (g_types k))"
proof (rule bit_eqI)
  fix n assume "possible_bit TYPE(u32) n"
  then have n: "n < 32" by simp
  have m: "bit (acc AND 0x0FFFFFFF) n \<longleftrightarrow> n < 28 \<and> bit acc n"
  proof -
    have m: "(0x0FFFFFFF :: u32) = mask 28" by (simp add: mask_eq_exp_minus_1)
    show ?thesis unfolding m bit_and_iff bit_mask_iff using n by auto
  qed
  have cases: "n < 28 \<or> n = 28 \<or> n = 29 \<or> n = 30 \<or> n = 31" using n by auto
  show "bit (ob_map_generic (g_types k) acc) n \<longleftrightarrow>
    bit (acc AND 0x0FFFFFFF OR if_right 31 acc (ty_read (g_types k)) OR if_right 30 acc (ty_write (g_types k))
       OR if_right 29 acc (ty_execute (g_types k)) OR if_right 28 acc (ty_all (g_types k))) n"
    using cases type_rights_low[of n k] type_rights_low[of 28 k] type_rights_low[of 29 k] type_rights_low[of 30 k] type_rights_low[of 31 k]
    unfolding ob_map_generic_def map_right_bits bit_or_iff m if_right_def
    by (elim disjE) auto
qed

section \<open>Reference counts\<close>

text \<open>Objects whose type has no delete routine.\<close>

definition plain_kind :: "object_kind \<Rightarrow> bool" where
  "plain_kind k \<longleftrightarrow> k \<notin> {OBJ_PROCESS, OBJ_FILE, OBJ_SECTION}"

lemma plain_delete: "plain_kind (o_kind (k_obj s a)) \<Longrightarrow> ob_delete a s = Ret s"
  by (auto simp: plain_kind_def ob_delete_def leaf_delete_def split: object_kind.splits)



section \<open>Names\<close>

definition dir_find :: "kst \<Rightarrow> u64 \<Rightarrow> string \<Rightarrow> u64 option" where
  "dir_find s dir nm = find (named s nm) (dir_buckets (k_dir s dir) ! hash_name nm)"

definition dir_ok :: "kst \<Rightarrow> u64 \<Rightarrow> bool" where
  "dir_ok s dir \<longleftrightarrow> length (dir_buckets (k_dir s dir)) = 37"

definition in_dir :: "kst \<Rightarrow> u64 \<Rightarrow> u64 \<Rightarrow> bool" where
  "in_dir s dir a \<longleftrightarrow> (\<exists>b\<in>set (dir_buckets (k_dir s dir)). a \<in> set b)"

lemma dir_lookup_find:
  "dir_lookup dir nm s = (case dir_find s dir nm of None \<Rightarrow> (s, 0) | Some x \<Rightarrow> (ob_reference x s, x))"
  by (simp add: dir_lookup_def dir_find_def)

lemma hash_name_bound: "hash_name nm < 37"
proof -
  have "hash_loop nm 2166136261 mod 37 < 37" by (rule word_mod_less_divisor) simp
  then show ?thesis by (simp add: hash_name_def word_less_nat_alt)
qed

lemma find_named_frame:
  assumes "\<And>x. x \<in> set xs \<Longrightarrow> o_name (k_obj s' x) = o_name (k_obj s x)"
  shows "find (named s' nm) xs = find (named s nm) xs"
  using assms by (induction xs) (auto simp: named_def)

lemma find_append: "find P (xs @ ys) = (case find P xs of None \<Rightarrow> find P ys | Some x \<Rightarrow> Some x)"
  by (induction xs) auto

lemma ob_insert_name_ok:
  assumes "dir_ok s dir" "dir \<noteq> 0" "a \<noteq> 0" "nm \<noteq> []" "length nm < NAME_MAX" "dir_find s dir nm = None" "\<not> in_dir s dir a"
  obtains s' where "ob_insert_name dir a nm s = (s', STATUS_SUCCESS)" "dir_ok s' dir"
    "dir_find s' dir = (dir_find s dir)(nm \<mapsto> a)" "\<And>d nm. d \<noteq> dir \<Longrightarrow> \<not> in_dir s d a \<Longrightarrow> dir_ok s d \<Longrightarrow> dir_find s' d nm = dir_find s d nm"
proof -
  let ?h = "hash_name nm" let ?b = "dir_buckets (k_dir s dir)"
  define s1 where "s1 = upd_obj a (\<lambda>o'. o'\<lparr>o_name := cut NAME_MAX nm, o_directory := dir, o_dir_hash := ?h\<rparr>) s"
  define s' where "s' = s1\<lparr>k_dir := (k_dir s1)(dir := \<lparr>dir_buckets = (dir_buckets (k_dir s1 dir))[?h := ?b ! ?h @ [a]],
                                                     dir_count = dir_count (k_dir s1 dir) + 1\<rparr>)\<rparr>"
  have len: "length ?b = 37" using assms(1) by (simp add: dir_ok_def)
  have none: "\<not> list_ex (named s nm) (?b ! ?h)"
    using assms(6) by (auto simp: dir_find_def find_None_iff list_ex_iff)
  have ins: "ob_insert_name dir a nm s = (s', STATUS_SUCCESS)"
    using assms(2-5) none by (simp add: ob_insert_name_def s'_def s1_def Let_def)
  have nm: "o_name (k_obj s' x) = (if x = a then nm else o_name (k_obj s x))" for x
    using assms(5) by (simp add: s'_def s1_def upd_obj_def cut_def)
  have b: "dir_buckets (k_dir s' d) = (if d = dir then ?b[?h := ?b ! ?h @ [a]] else dir_buckets (k_dir s d))" for d
    by (simp add: s'_def s1_def upd_obj_def)
  have out: "a \<notin> set (dir_buckets (k_dir s d) ! i)" if "\<not> in_dir s d a" "i < 37" "dir_ok s d" for d i
    using that nth_mem[of i "dir_buckets (k_dir s d)"] by (auto simp: in_dir_def dir_ok_def)
  have same: "find (named s' k) (dir_buckets (k_dir s d) ! hash_name k) = dir_find s d k"
    if "\<not> in_dir s d a" "dir_ok s d" for d k
    unfolding dir_find_def by (rule find_named_frame) (use out[OF that(1) hash_name_bound that(2)] nm in auto)
  have hl: "?h < length ?b" using hash_name_bound len by simp
  have "dir_find s' dir k = ((dir_find s dir)(nm \<mapsto> a)) k" for k
  proof (cases "hash_name k = ?h")
    case True
    have "dir_find s' dir k = find (named s' k) (?b ! ?h @ [a])" using hl by (simp add: dir_find_def b True)
    also have "\<dots> = (case dir_find s dir k of None \<Rightarrow> if k = nm then Some a else None | Some x \<Rightarrow> Some x)"
      using same[OF assms(7,1), of k] by (simp add: find_append True named_def nm split: option.splits)
    finally show ?thesis using assms(6) by (auto split: option.splits)
  next
    case False
    then have "dir_find s' dir k = find (named s' k) (?b ! hash_name k)" by (simp add: dir_find_def b)
    moreover have "k \<noteq> nm" using False by auto
    ultimately show ?thesis using same[OF assms(7,1), of k] by simp
  qed
  moreover have "dir_ok s' dir" using len by (simp add: dir_ok_def b)
  moreover have "dir_find s' d k = dir_find s d k" if "d \<noteq> dir" "\<not> in_dir s d a" "dir_ok s d" for d k
    using same[OF that(2,3), of k] that(1) by (simp add: dir_find_def b)
  ultimately show ?thesis using that[OF ins] by blast
qed

text \<open>C30. A name that was entered in a directory is found: for a legal name the directory does not hold, and an object
  that is in no bucket of it, \<open>ob_insert_name\<close> succeeds; a lookup of the name then returns the object with a
  reference taken, a lookup of any other name returns what it returned before, and entering the name once more
  is refused as a collision.\<close>

theorem ob_name_roundtrip:
  assumes "dir_ok s dir" "dir \<noteq> 0" "a \<noteq> 0" "nm \<noteq> []" "length nm < NAME_MAX" "dir_find s dir nm = None" "\<not> in_dir s dir a"
  shows "\<exists>s'. ob_insert_name dir a nm s = (s', STATUS_SUCCESS) \<and> dir_lookup dir nm s' = (ob_reference a s', a)
    \<and> (\<forall>k. k \<noteq> nm \<longrightarrow> snd (dir_lookup dir k s') = snd (dir_lookup dir k s))
    \<and> (\<forall>b. b \<noteq> 0 \<longrightarrow> ob_insert_name dir b nm s' = (s', STATUS_OBJECT_NAME_COLLISION))"
proof -
  obtain s' where s': "ob_insert_name dir a nm s = (s', STATUS_SUCCESS)" "dir_ok s' dir"
    "dir_find s' dir = (dir_find s dir)(nm \<mapsto> a)" by (rule ob_insert_name_ok[OF assms]) blast
  have "find (named s' nm) (dir_buckets (k_dir s' dir) ! hash_name nm) = Some a"
    using fun_cong[OF s'(3), of nm] by (simp add: dir_find_def)
  then have "list_ex (named s' nm) (dir_buckets (k_dir s' dir) ! hash_name nm)"
    by (auto simp: list_ex_iff find_Some_iff)
  then have "ob_insert_name dir b nm s' = (s', STATUS_OBJECT_NAME_COLLISION)" if "b \<noteq> 0" for b
    using assms(2,4,5) that by (simp add: ob_insert_name_def Let_def)
  then show ?thesis using s' by (auto simp: dir_lookup_find split: option.splits)
qed

theorem ob_name_roundtrip_witness:
  "\<exists>s'. ob_insert_name 0x1000 0x2000 ''Start'' zero_kst = (s', STATUS_SUCCESS)
     \<and> dir_lookup 0x1000 ''Start'' s' = (ob_reference 0x2000 s', 0x2000) \<and> snd (dir_lookup 0x1000 ''Stop'' s') = 0"
proof -
  have b: "dir_buckets (k_dir zero_kst 0x1000) = replicate 37 []" by (simp add: zero_kst_def)
  have f: "dir_find zero_kst 0x1000 k = None" for k
    unfolding dir_find_def b using hash_name_bound[of k] by simp
  have "\<exists>s'. ob_insert_name 0x1000 0x2000 ''Start'' zero_kst = (s', STATUS_SUCCESS)
    \<and> dir_lookup 0x1000 ''Start'' s' = (ob_reference 0x2000 s', 0x2000)
    \<and> (\<forall>k. k \<noteq> ''Start'' \<longrightarrow> snd (dir_lookup 0x1000 k s') = snd (dir_lookup 0x1000 k zero_kst))
    \<and> (\<forall>b. b \<noteq> 0 \<longrightarrow> ob_insert_name 0x1000 b ''Start'' s' = (s', STATUS_OBJECT_NAME_COLLISION))"
    by (rule ob_name_roundtrip) (simp_all add: dir_ok_def b f in_dir_def)
  moreover have "snd (dir_lookup 0x1000 ''Stop'' zero_kst) = 0" by (simp add: dir_lookup_find f)
  moreover have "''Stop'' \<noteq> ''Start''" by simp
  ultimately show ?thesis by metis
qed

end
