(* ===== verification/Pipe_Correct.thy ===== *)
theory Pipe_Correct
  imports Pipe Frames Fifo
begin

text \<open>
  Correctness of pipes: the ring of a pipe is a bounded queue of bytes, and what one call writes
  another reads.
\<close>

section \<open>The ring is a queue\<close>

definition ring_ok :: "pipe_object \<Rightarrow> bool" where
  "ring_ok p \<longleftrightarrow> length (p_buf p) = PIPE_CAP \<and> p_r p < PIPE_CAP \<and> p_used p \<le> PIPE_CAP
     \<and> p_w p = (p_r p + p_used p) mod PIPE_CAP"

definition ring_bytes :: "pipe_object \<Rightarrow> u8 list" where
  "ring_bytes p = ring_list (p_buf p) (p_r p) (p_used p)"

definition put_byte :: "u8 \<Rightarrow> pipe_object \<Rightarrow> pipe_object" where
  "put_byte b p = p\<lparr>p_buf := (p_buf p)[p_w p := b], p_w := (p_w p + 1) mod PIPE_CAP, p_used := p_used p + 1\<rparr>"

definition take_byte :: "pipe_object \<Rightarrow> u8 \<times> pipe_object" where
  "take_byte p = (p_buf p ! p_r p, p\<lparr>p_r := (p_r p + 1) mod PIPE_CAP, p_used := p_used p - 1\<rparr>)"

interpretation ring: bounded_fifo ring_ok ring_bytes put_byte take_byte PIPE_CAP
proof unfold_locales
  fix p assume "ring_ok p" then show "length (ring_bytes p) \<le> 4096" by (simp add: ring_ok_def ring_bytes_def)
next
  fix p b assume ok: "ring_ok p" and room: "length (ring_bytes p) < 4096"
  have len: "length (p_buf p) = 4096" "p_w p = (p_r p + p_used p) mod 4096" using ok by (simp_all add: ring_ok_def)
  have "ring_ok (put_byte b p)"
    using ok room by (simp add: ring_ok_def put_byte_def ring_bytes_def mod_simps)
  moreover have "ring_bytes (put_byte b p) = ring_bytes p @ [b]"
    using ring_append[of "p_used p" "p_buf p" "p_r p" b] room len by (simp add: ring_bytes_def put_byte_def)
  ultimately show "ring_ok (put_byte b p) \<and> ring_bytes (put_byte b p) = ring_bytes p @ [b]" ..
next
  fix p x xs assume ok: "ring_ok p" and c: "ring_bytes p = x # xs"
  have r: "p_r p < length (p_buf p)" "length (p_buf p) = 4096" using ok by (simp_all add: ring_ok_def)
  note R = ring_list_Cons[OF c[unfolded ring_bytes_def] r(1)]
  obtain n where n: "p_used p = Suc n" using R(2) by blast
  have "p_w p = (Suc (p_r p) mod 4096 + n) mod 4096" using ok n by (simp add: ring_ok_def mod_simps)
  then have "ring_ok (snd (take_byte p))" using ok n by (simp add: ring_ok_def take_byte_def)
  then show "fst (take_byte p) = x \<and> ring_ok (snd (take_byte p)) \<and> ring_bytes (snd (take_byte p)) = xs"
    using R r by (simp add: take_byte_def ring_bytes_def)
qed

lemma ring_put_puts: "ring_put bs p = ring.puts bs p"
  by (induction bs arbitrary: p) (simp_all add: put_byte_def)

lemma ring_take_gets: "ring_take n p = ring.gets n p"
  by (induction n arbitrary: p) (simp_all add: take_byte_def)

lemma ring_put_ok:
  assumes "ring_ok p" "length (ring_bytes p) + length bs \<le> PIPE_CAP"
  shows "ring_ok (ring_put bs p)" "ring_bytes (ring_put bs p) = ring_bytes p @ bs"
  using ring.puts_contents[OF assms] by (simp_all add: ring_put_puts)

lemma ring_take_ok:
  assumes "ring_ok p" "n \<le> length (ring_bytes p)"
  shows "fst (ring_take n p) = take n (ring_bytes p)" "ring_ok (snd (ring_take n p))"
    "ring_bytes (snd (ring_take n p)) = drop n (ring_bytes p)"
  using ring.gets_contents[OF assms] by (simp_all add: ring_take_gets)

lemma ring_used [simp]: "length (ring_bytes p) = p_used p"
  by (simp add: ring_bytes_def)

lemma ring_put_flags [simp]: "p_writer_closed (ring_put bs p) = p_writer_closed p"
  by (induction bs arbitrary: p) simp_all

section \<open>Calls\<close>

lemma wake_pipe [simp]: "k_pipe (disp_wake_one d st s) = k_pipe s" "k_pipe (upd_disp d f s) = k_pipe s"
  using only_wakes_fields(7)[OF wakes_wake_one] only_wakes_fields(7)[OF wakes_upd_disp] by simp_all

lemma put_pipe_get [simp]: "k_pipe (put_pipe a p s) = (k_pipe s)(a := p)"
  by (simp add: put_pipe_def)

lemma pipe_write_done: "length src \<le> n \<Longrightarrow> pipe_write_loop a src n s = Some (Ret (s, Now n))"
  by (subst pipe_write_loop.simps) (simp add: pipe_write_turn_def Let_def)

lemma pipe_write_room:
  assumes "ring_ok (k_pipe s a)" "p_used (k_pipe s a) + length src \<le> PIPE_CAP"
  obtains s' where "pipe_write a src s = Ret (s', Now (length src))" "k_pipe s' = (k_pipe s)(a := ring_put src (k_pipe s a))"
proof (cases "src = []")
  case True
  then show ?thesis using that[of s] pipe_write_done[of src 0 a s] by (simp add: pipe_write_def of_loop_def)
next
  case False
  then have l: "0 < length src" by simp
  then have t: "p_used (k_pipe s a) \<noteq> 4096" "min (length src - 0) (4096 - p_used (k_pipe s a)) = length src"
    using assms(2) by auto
  define s' where "s' = fst (projr (pipe_write_turn a src 0 s))"
  have turn: "pipe_write_turn a src 0 s = Inr (s', length src)"
    using t l by (simp add: pipe_write_turn_def Let_def s'_def)
  have "k_pipe s' = (k_pipe s)(a := ring_put src (k_pipe s a))"
    using t l by (simp add: s'_def pipe_write_turn_def Let_def)
  moreover have "pipe_write_loop a src 0 s = Some (Ret (s', Now (length src)))"
    by (subst pipe_write_loop.simps) (simp add: turn pipe_write_done)
  ultimately show ?thesis using that[of s'] by (simp add: pipe_write_def of_loop_def)
qed

lemma pipe_read_data:
  assumes ok: "ring_ok (k_pipe s a)" and n: "0 < n" "0 < p_used (k_pipe s a)"
  obtains s' where "pipe_read a n s = Ret (s', Now (take n (ring_bytes (k_pipe s a))))"
    "ring_ok (k_pipe s' a)" "ring_bytes (k_pipe s' a) = drop n (ring_bytes (k_pipe s a))"
proof -
  let ?p = "k_pipe s a" let ?m = "min n (p_used ?p)"
  have T: "fst (ring_take ?m ?p) = take ?m (ring_bytes ?p)" "ring_ok (snd (ring_take ?m ?p))"
    "ring_bytes (snd (ring_take ?m ?p)) = drop ?m (ring_bytes ?p)"
    using ring_take_ok[OF ok, of ?m] by simp_all
  have cut: "take ?m (ring_bytes ?p) = take n (ring_bytes ?p)" "drop ?m (ring_bytes ?p) = drop n (ring_bytes ?p)"
    by (simp_all add: min_def)
  define s' where "s' = fst (projr (pipe_read_turn a n [] s))"
  have turn: "pipe_read_turn a n [] s = Inr (s', take n (ring_bytes ?p))" and p': "k_pipe s' a = snd (ring_take ?m ?p)"
    using n T(1) cut(1) by (auto simp: pipe_read_turn_def Let_def s'_def split: prod.splits)
  have used: "p_used (k_pipe s' a) = p_used ?p - n"
    using arg_cong[OF T(3), of length] by (simp add: p')
  have ne: "take n (ring_bytes ?p) \<noteq> []" using n by (metis length_greater_0_conv length_take min_less_iff_conj ring_used)
  have "pipe_read_turn a n (take n (ring_bytes ?p)) s' = Inl (Ret (s', Now (take n (ring_bytes ?p))))"
    using used ne by (cases "n \<le> p_used ?p") (simp_all add: pipe_read_turn_def Let_def min_def)
  then have "pipe_read_loop a n (take n (ring_bytes ?p)) s' = Some (Ret (s', Now (take n (ring_bytes ?p))))"
    by (subst pipe_read_loop.simps) simp
  then have "pipe_read_loop a n [] s = Some (Ret (s', Now (take n (ring_bytes ?p))))"
    by (subst pipe_read_loop.simps) (simp add: turn)
  then show ?thesis using that[of s'] T(2,3) cut(2) by (simp add: pipe_read_def of_loop_def p')
qed

text \<open>C19. A pipe is a queue of bytes: as long as the bytes fit, \<open>pipe_write\<close> returns at once with all of them written behind what
  the pipe held, and \<open>pipe_read\<close> returns the oldest bytes, as many as asked for or as there are, and leaves
  the rest.\<close>

theorem pipe_transfer:
  assumes "ring_ok (k_pipe s a)" "length (ring_bytes (k_pipe s a)) + length src \<le> PIPE_CAP"
    and "ring_bytes (k_pipe s a) @ src \<noteq> []" "0 < n"
  shows "\<exists>s1 s2. pipe_write a src s = Ret (s1, Now (length src))
    \<and> ring_bytes (k_pipe s1 a) = ring_bytes (k_pipe s a) @ src
    \<and> pipe_read a n s1 = Ret (s2, Now (take n (ring_bytes (k_pipe s a) @ src)))
    \<and> ring_ok (k_pipe s2 a) \<and> ring_bytes (k_pipe s2 a) = drop n (ring_bytes (k_pipe s a) @ src)"
proof -
  obtain s1 where w: "pipe_write a src s = Ret (s1, Now (length src))"
      "k_pipe s1 = (k_pipe s)(a := ring_put src (k_pipe s a))"
    using pipe_write_room[of s a src] assms(1,2) by auto
  have p: "ring_ok (k_pipe s1 a)" "ring_bytes (k_pipe s1 a) = ring_bytes (k_pipe s a) @ src"
    using ring_put_ok[OF assms(1,2)] by (simp_all add: w(2))
  have "length (ring_bytes (k_pipe s1 a)) > 0" unfolding p(2) using assms(3) by blast
  then have u: "0 < p_used (k_pipe s1 a)" by simp
  obtain s2 where "pipe_read a n s1 = Ret (s2, Now (take n (ring_bytes (k_pipe s1 a))))" "ring_ok (k_pipe s2 a)"
    "ring_bytes (k_pipe s2 a) = drop n (ring_bytes (k_pipe s1 a))"
    by (rule pipe_read_data[OF p(1) assms(4) u])
  then show ?thesis using w(1) p(2) by auto
qed

theorem pipe_transfer_witness:
  "\<exists>s1 s2. pipe_write 0x1000 [1, 2, 3] zero_kst = Ret (s1, Now 3) \<and> pipe_read 0x1000 2 s1 = Ret (s2, Now [1, 2])
     \<and> ring_bytes (k_pipe s2 0x1000) = [3]"
proof -
  have z: "ring_ok (k_pipe zero_kst 0x1000)" "ring_bytes (k_pipe zero_kst 0x1000) = []"
    by (simp_all add: ring_ok_def ring_bytes_def ring_list_def zero_kst_def)
  show ?thesis
    using pipe_transfer[where s = zero_kst and a = "0x1000" and src = "[1, 2, 3]" and n = 2] z by fastforce
qed

text \<open>A reader that finds the pipe empty after the last writer has closed is told so: \<open>pipe_read\<close> returns no bytes, for which the status
  is \<open>STATUS_END_OF_FILE\<close>, and changes nothing.\<close>

lemma pipe_eof:
  assumes "ring_bytes (k_pipe s a) = []" "p_writer_closed (k_pipe s a)"
  shows "pipe_read a n s = Ret (s, Now []) \<and> read_status [] = STATUS_END_OF_FILE"
proof -
  have "p_used (k_pipe s a) = 0" using arg_cong[OF assms(1), of length] by simp
  then have "pipe_read_turn a n [] s = Inl (Ret (s, Now []))" using assms(2) by (simp add: pipe_read_turn_def Let_def)
  then have "pipe_read_loop a n [] s = Some (Ret (s, Now []))" by (subst pipe_read_loop.simps) simp
  then show ?thesis by (simp add: pipe_read_def of_loop_def read_status_def)
qed

end
