(* ===== verification/Sched_Correct.thy ===== *)
theory Sched_Correct
  imports Timer Frames
begin

text \<open>
  The dispatcher at work: the invariant of the ready queues and of the running thread under waits,
  signals, releases, yields and time-outs, and the choice of the next thread.
\<close>

section \<open>The invariant of a processor\<close>

text \<open>On top of \<open>sched_inv\<close>, the current thread is the one that runs.\<close>

definition cpu_inv :: "kst \<Rightarrow> bool" where
  "cpu_inv s \<longleftrightarrow> sched_inv s \<and> th_state (k_thread s (k_current s)) = THR_RUNNING"

text \<open>Changes that leave states, priorities and queues alone.\<close>

definition same_sched :: "kst \<Rightarrow> kst \<Rightarrow> bool" where
  "same_sched s s' \<longleftrightarrow>
     g_ready s' = g_ready s \<and> g_ready_mask s' = g_ready_mask s \<and> g_idle s' = g_idle s \<and> k_current s' = k_current s
     \<and> (\<forall>t. th_state (k_thread s' t) = th_state (k_thread s t) \<and> th_priority (k_thread s' t) = th_priority (k_thread s t))"

lemma same_sched_refl: "same_sched s s" by (simp add: same_sched_def)

lemma same_sched_trans: "same_sched s s1 \<Longrightarrow> same_sched s1 s2 \<Longrightarrow> same_sched s s2"
  by (simp add: same_sched_def)

lemma same_sched_inv:
  assumes "same_sched s s'"
  shows "sched_inv s' = sched_inv s" "cpu_inv s' = cpu_inv s"
  using assms by (simp_all add: same_sched_def sched_inv_def queues_but_def running_ok_def cpu_inv_def)

lemma same_upd_thread:
  assumes "\<And>x. th_state (f x) = th_state x" "\<And>x. th_priority (f x) = th_priority x"
  shows "same_sched s (upd_thread t f s)"
  using assms by (simp add: same_sched_def upd_thread_def)

lemma same_upd_disp: "same_sched s (upd_disp d f s)" by (simp add: same_sched_def upd_disp_def)

lemma same_upd_mutex: "same_sched s (upd_mutex m f s)" by (simp add: same_sched_def upd_mutex_def)

lemma same_unlink: "same_sched s (unlink_owned m s)" by (simp add: same_sched_def unlink_owned_def)

lemma same_set_wb: "same_sched s (set_wb_status w st s)"
  by (auto simp: set_wb_status_def intro: same_upd_thread split: prod.splits wslot.splits)

lemma same_mutex_own: "same_sched s (ke_mutex_own m t s)"
  using same_sched_trans[OF same_unlink same_upd_thread] by (simp add: ke_mutex_own_def same_sched_refl)

lemma same_grant: "same_sched s (grant_mutex d t st s)"
  unfolding grant_mutex_def
  by (rule same_sched_trans[OF same_sched_trans[OF same_upd_mutex same_upd_disp] same_mutex_own])

lemma cpu_need: "cpu_inv (s\<lparr>k_need_resched := b\<rparr>) = cpu_inv s"
  by (rule same_sched_inv(2)) (simp add: same_sched_def)

lemma sched_ready_cpu:
  assumes "cpu_inv s" shows "cpu_inv (sched_ready t s)"
proof (cases "t = k_current s")
  case True
  then have "sched_ready t s = s" using assms by (simp add: sched_ready_def cpu_inv_def)
  then show ?thesis using assms by simp
next
  case False
  then show ?thesis using assms sched_ready_inv[of s t] by (simp add: cpu_inv_def sched_ready_frame)
qed

lemma sched_boost_cpu:
  assumes "cpu_inv s" shows "cpu_inv (sched_boost t np s)"
proof (rule sched_boost_cases[of t np s])
  fix b assume e: "sched_boost t np s = (boost_to t (min np 31) s)\<lparr>k_need_resched := b\<rparr>"
  show ?thesis using assms sched_boost_inv[of s t np] by (simp add: cpu_inv_def e boost_to_frame)
qed (use assms in simp)

lemma disp_wake_one_cpu:
  assumes "cpu_inv s" shows "cpu_inv (disp_wake_one d st s)"
proof (cases "d_waiters (k_disp s d)")
  case Nil
  then show ?thesis using assms by (simp add: disp_wake_one_def)
next
  case (Cons w ws)
  define s1 where "s1 = set_wb_status (fst w, WSingle) st (set_wb_status w st (upd_disp d (\<lambda>x. x\<lparr>d_waiters := ws\<rparr>) s))"
  define s2 where "s2 = (if d_type (k_disp s d) = DISP_MUTANT then grant_mutex d (fst w) st s1 else s1)"
  have "same_sched s s1"
    unfolding s1_def by (rule same_sched_trans[OF same_sched_trans[OF same_upd_disp same_set_wb] same_set_wb])
  then have "same_sched s s2" unfolding s2_def by (simp add: same_sched_trans[OF _ same_grant])
  then have "cpu_inv s2" using assms same_sched_inv(2) by blast
  moreover have "disp_wake_one d st s = (if th_state (k_thread s2 (fst w)) = THR_WAITING then sched_ready (fst w) s2 else s2)"
    using Cons by (simp add: disp_wake_one_def s1_def s2_def Let_def)
  ultimately show ?thesis using sched_ready_cpu by simp
qed

lemma disp_wake_all_cpu: "cpu_inv s \<Longrightarrow> cpu_inv (disp_wake_all d st s)"
proof (induction d st s rule: disp_wake_all.induct)
  case (1 d st s)
  then show ?case
    by (cases "d_waiters (k_disp s d) = []") (simp_all add: disp_wake_all.simps[of d st s] disp_wake_one_cpu)
qed

lemma signal_turn_cpu: "cpu_inv s \<Longrightarrow> cpu_inv (signal_turn d s)"
  using disp_wake_one_cpu same_sched_inv(2)[OF same_upd_disp] by (simp add: signal_turn_def Let_def)

lemma signal_loop_cpu: "cpu_inv s \<Longrightarrow> cpu_inv (signal_loop d s)"
proof (induction d s rule: signal_loop.induct)
  case (1 d s)
  show ?case
  proof (cases "d_signal (k_disp s d) > 0 \<and> d_waiters (k_disp s d) \<noteq> []")
    case True
    have "cpu_inv (signal_loop d (signal_turn d s))"
      using 1(1)[OF True] signal_turn_cpu[OF 1(2), of d] by (simp only: signal_turn_def)
    then show ?thesis using True by (simp add: signal_loop_turn[of d s])
  next
    case False
    then have "signal_loop d s = s" by (subst signal_loop_turn) (simp only: if_False)
    then show ?thesis using 1(2) by simp
  qed
qed

lemma disp_signal_cpu: "cpu_inv s \<Longrightarrow> cpu_inv (disp_signal d i s)"
  using disp_wake_all_cpu signal_loop_cpu same_sched_inv(2)[OF same_upd_disp] by (simp add: disp_signal_def Let_def)

lemma mutex_donate_cpu:
  assumes "cpu_inv s" shows "cpu_inv (mutex_donate m t s)"
proof -
  let ?f = "\<lambda>x. x\<lparr>th_saved_priority := (if th_wait_boost x then th_saved_priority x else th_priority x), th_wait_boost := True\<rparr>"
  have "same_sched s (upd_thread u ?f s)" for u by (rule same_upd_thread) simp_all
  then have "cpu_inv (upd_thread u ?f s)" for u using assms same_sched_inv(2) by blast
  then show ?thesis using assms sched_boost_cpu by (simp add: mutex_donate_def Let_def)
qed

lemma ke_release_mutex_cpu:
  assumes "cpu_inv s" shows "cpu_inv (fst (ke_release_mutex m s))"
proof -
  have d: "same_sched x (ke_mutex_disown m x)" for x by (simp add: ke_mutex_disown_def same_sched_refl same_unlink)
  have b: "same_sched x (upd_thread u (\<lambda>x. x\<lparr>th_wait_boost := False\<rparr>) x)" for x u by (rule same_upd_thread) simp_all
  note i = same_sched_inv(2)[OF same_upd_mutex] same_sched_inv(2)[OF same_upd_disp] same_sched_inv(2)[OF d] same_sched_inv(2)[OF b]
  show ?thesis
    using assms by (simp add: ke_release_mutex_def Let_def i disp_wake_one_cpu sched_boost_cpu)
qed

lemma sched_reschedule_cpu:
  assumes "cpu_inv s" shows "cpu_inv (sched_reschedule s)"
proof -
  have i: "sched_inv s" and r: "th_state (k_thread s (k_current s)) = THR_RUNNING" using assms by (auto simp: cpu_inv_def)
  have c: "th_state (k_thread s (k_current s)) \<noteq> THR_READY" using r by simp
  note O = sched_reschedule_ok[OF i c]
  show ?thesis
  proof (cases "k_current (sched_reschedule s) = k_current s")
    case False
    then show ?thesis using O by (simp add: cpu_inv_def)
  next
    case True
    obtain s1 popped where pop: "ready_pop_highest (s\<lparr>k_need_resched := False\<rparr>) = (s1, popped)" by fastforce
    define nxt where nxt: "nxt = (if popped = 0 then g_idle s1 else popped)"
    note sw = reschedule_switch[OF i c pop nxt]
    have e: "sched_reschedule s = (if nxt = k_current s then s1 else run_next nxt (put_back (k_current s) s1))"
      by (simp add: sched_reschedule_def pop nxt)
    have "nxt = k_current s" using True e by (auto simp: run_next_frame split: if_splits)
    then show ?thesis using O(2) r sw(4,5) e by (simp add: cpu_inv_def)
  qed
qed

section \<open>Waiting\<close>

lemma wait_try_cpu:
  assumes "cpu_inv s" "wait_try d t s = (s1, r)"
  shows "cpu_inv s1" "k_current s1 = k_current s" "g_idle s1 = g_idle s"
proof -
  have o: "same_sched s (ke_mutex_own m t (upd_mutex m f (upd_disp d g s)))" for m f g
    by (rule same_sched_trans[OF same_sched_trans[OF same_upd_disp same_upd_mutex] same_mutex_own])
  consider "same_sched s s1" | m where "s1 = mutex_donate m t s"
    using assms(2) o
    by (auto simp: wait_try_def Let_def same_sched_refl same_upd_mutex same_upd_disp split: if_splits)
  then show "cpu_inv s1" "k_current s1 = k_current s" "g_idle s1 = g_idle s"
  proof (atomize (full), cases)
    case 1
    then show "cpu_inv s1 \<and> k_current s1 = k_current s \<and> g_idle s1 = g_idle s"
      using assms(1) same_sched_inv(2)[OF 1] by (simp add: same_sched_def)
  next
    case (2 m)
    have "only_wakes s (mutex_donate m t s)"
      using only_wakes_trans[OF wakes_upd_thread wakes_sched_boost] by (simp add: mutex_donate_def Let_def wakes)
    then show "cpu_inv s1 \<and> k_current s1 = k_current s \<and> g_idle s1 = g_idle s"
      using mutex_donate_cpu[OF assms(1)] only_wakes_fields(13,14) unfolding 2 by blast
  qed
qed

lemma block_current:
  assumes i: "cpu_inv s" and ni: "k_current s \<noteq> g_idle s"
    and f: "\<And>x. th_state (f x) = THR_WAITING" "\<And>x. th_priority (f x) = th_priority x"
    and s1: "s1 = upd_thread (k_current s) f s"
  shows "k_current (sched_reschedule s1) \<noteq> k_current s" "cpu_inv (sched_reschedule s1)"
proof -
  let ?t = "k_current s"
  have q: "queues_ok s" and ru: "running_ok s" and r: "th_state (k_thread s ?t) = THR_RUNNING"
    using i by (auto simp: cpu_inv_def sched_inv_def)
  have c1: "k_current s1 = ?t" "g_idle s1 = g_idle s" "th_state (k_thread s1 ?t) = THR_WAITING"
    by (simp_all add: s1 upd_thread_def f)
  have nq: "\<not> queued s ?t" using queued_ready[OF q] r by auto
  have "queues_but ({} - {?t}) s1"
    unfolding s1 by (rule upd_queues(2)[OF q nq]) (use queues_butD(7)[OF q] f in simp_all)
  moreover have "running_ok s1" using ru by (auto simp: running_ok_def s1 upd_thread_def f)
  ultimately have i1: "sched_inv s1" by (simp add: sched_inv_def)
  have nr: "th_state (k_thread s1 (k_current s1)) \<noteq> THR_READY" using c1 by simp
  note O = sched_reschedule_ok[OF i1 nr]
  have "\<not> picked s1 ?t"
  proof
    assume "picked s1 ?t"
    then obtain p where "g_ready s1 p \<noteq> []" "?t = hd (g_ready s1 p)" using ni c1(2) by (auto simp: picked_def)
    then have "?t \<in> set (g_ready s1 p)" using hd_in_set by simp
    then have "th_state (k_thread s1 ?t) = THR_READY" using i1 queues_butD(3) by (auto simp: sched_inv_def)
    then show False using c1(3) by simp
  qed
  then show ne: "k_current (sched_reschedule s1) \<noteq> ?t" using O(1) by auto
  show "cpu_inv (sched_reschedule s1)" using O(2,3) ne c1(1) by (simp add: cpu_inv_def)
qed

lemma ke_wait_object_cpu:
  assumes i: "cpu_inv s" and k: "\<not> th_kill_pending (k_thread s (k_current s))" and ni: "k_current s \<noteq> g_idle s"
    and w: "ke_wait_object (Some d) timeout s = Ret (s', fl)"
  shows "cpu_inv s'"
proof (cases "k_current s = 0")
  case True
  then show ?thesis using w i by (auto simp: ke_wait_object_def)
next
  case False
  let ?t = "k_current s"
  obtain s1 r where t: "wait_try d ?t s = (s1, r)" by fastforce
  note T = wait_try_cpu[OF i t]
  show ?thesis
  proof (cases "r = None \<and> timeout \<noteq> 0")
    case False
    then have "s' = s1" using w k t \<open>?t \<noteq> 0\<close> by (auto simp: ke_wait_object_def Let_def split: option.splits)
    then show ?thesis using T(1) by simp
  next
    case True
    let ?x = "upd_disp d (\<lambda>x. x\<lparr>d_waiters := d_waiters x @ [(?t, WSingle)]\<rparr>) s1"
    have ci: "cpu_inv ?x" using T(1) same_sched_inv(2)[OF same_upd_disp] by blast
    have cu: "k_current ?x = ?t" "g_idle ?x = g_idle s" using T(2,3) by (simp_all add: upd_disp_def)
    have b: "wait_block_on d ?t timeout s1 = upd_thread (k_current ?x)
        (\<lambda>x. x\<lparr>th_wait := \<lparr>wb_object = Some d, wb_status = STATUS_TIMEOUT\<rparr>, th_state := THR_WAITING,
               th_timed := (timeout \<noteq> - 1), th_timeout_tick := wait_deadline timeout s1\<rparr>) ?x"
      by (simp add: wait_block_on_def cu)
    have nx: "k_current ?x \<noteq> g_idle ?x" using ni cu by simp
    note B = block_current[OF ci nx _ _ b]
    have "k_current (sched_reschedule (wait_block_on d ?t timeout s1)) \<noteq> ?t" using B(1) cu(1) by simp
    then have "s' = sched_reschedule (wait_block_on d ?t timeout s1)"
      using w k t True \<open>?t \<noteq> 0\<close> by (simp add: ke_wait_object_def Let_def)
    then show ?thesis using B(2) by simp
  qed
qed

section \<open>The clock\<close>

lemma same_drop_waiter: "same_sched s (drop_waiter d w s)"
  by (simp add: drop_waiter_def same_upd_disp)

lemma time_out_cpu:
  assumes "cpu_inv s" shows "cpu_inv (time_out t s)"
proof -
  have m: "same_sched x (drop_multi t k x)" for x k
    by (simp add: drop_multi_def same_sched_refl same_drop_waiter split: option.splits)
  have fd: "same_sched x (fold (drop_multi t) ks x)" for x ks
    by (induction ks arbitrary: x) (auto simp: same_sched_refl intro: same_sched_trans[OF m])
  have e: "same_sched x (upd_thread t (\<lambda>x. x\<lparr>th_wait := (th_wait x)\<lparr>wb_status := STATUS_TIMEOUT\<rparr>, th_timed := False\<rparr>) x)"
    "same_sched x (upd_thread t (\<lambda>x. x\<lparr>th_wait := (th_wait x)\<lparr>wb_status := STATUS_TIMEOUT\<rparr>, th_timed := False, th_multi_count := 0\<rparr>) x)" for x
    by (rule same_upd_thread; simp)+
  note c = same_sched_inv(2)[OF m] same_sched_inv(2)[OF fd] same_sched_inv(2)[OF e(1)] same_sched_inv(2)[OF e(2)]
    same_sched_inv(2)[OF same_drop_waiter]
  show ?thesis
    using assms sched_ready_cpu by (auto simp: time_out_def Let_def cpu_need c split: option.splits)
qed

lemma scan_process_cpu: "cpu_inv s \<Longrightarrow> cpu_inv (scan_process p s)"
proof -
  have "cpu_inv x \<Longrightarrow> cpu_inv (fold scan_thread ts x)" for ts x
    by (induction ts arbitrary: x) (simp_all add: scan_thread_def time_out_cpu)
  then show "cpu_inv s \<Longrightarrow> cpu_inv (scan_process p s)" by (simp add: scan_process_def)
qed

lemma timer_fire_cpu:
  assumes "cpu_inv s" shows "cpu_inv (timer_fire now a s)"
proof -
  have u: "same_sched x (upd_timer b f x)" for x b f by (simp add: same_sched_def upd_timer_def)
  have g: "same_sched x (x\<lparr>g_timers := l\<rparr>)" for x l by (simp add: same_sched_def)
  have "same_sched s (disarm a s)"
    using same_sched_trans[OF g u] by (simp add: disarm_def same_sched_refl)
  then have "cpu_inv (disp_signal (Disp a) 1 (disarm a s))" using assms same_sched_inv(2) disp_signal_cpu by blast
  then show ?thesis
    by (simp add: timer_fire_def Let_def same_sched_inv(2)[OF u] same_sched_inv(2)[OF g])
qed

lemma timer_loop_cpu:
  assumes "timer_loop now s = Some s'" "cpu_inv s"
  shows "cpu_inv s'"
proof -
  have "cpu_inv s \<longrightarrow> cpu_inv s'"
  proof (rule timer_loop.raw_induct[of "\<lambda>now s s'. cpu_inv s \<longrightarrow> cpu_inv s'", OF _ assms(1)])
    fix f now s s'
    assume "\<And>now s s'. f now s = Some s' \<Longrightarrow> cpu_inv s \<longrightarrow> cpu_inv s'"
      "(case find (timer_due now s) (g_timers s) of None \<Rightarrow> Some s | Some a \<Rightarrow> f now (timer_fire now a s)) = Some s'"
    then show "cpu_inv s \<longrightarrow> cpu_inv s'" by (auto split: option.splits intro: timer_fire_cpu)
  qed
  then show ?thesis using assms(2) by simp
qed

lemma ke_on_tick_cpu:
  assumes "ke_on_tick s = Ret s'" "cpu_inv s"
  shows "cpu_inv s'"
proof -
  let ?s0 = "s\<lparr>k_ticks := k_ticks s + 1\<rparr>"
  have i0: "cpu_inv ?s0" using assms(2) same_sched_inv(2)[of s ?s0] by (simp add: same_sched_def)
  obtain s1 where s1: "timer_tick (k_ticks ?s0) ?s0 = Ret s1"
    using assms(1) by (auto simp: ke_on_tick_def Let_def)
  then have i1: "cpu_inv s1" using i0 timer_loop_cpu by (auto simp: timer_tick_def split: if_splits option.splits)
  define s2 where "s2 = fold scan_process (g_procs s1) s1"
  have "cpu_inv x \<Longrightarrow> cpu_inv (fold scan_process ps x)" for ps x
    by (induction ps arbitrary: x) (simp_all add: scan_process_cpu)
  then have i2: "cpu_inv s2" using i1 by (simp add: s2_def)
  have "same_sched s2 (charge_quantum s2)"
    using same_upd_thread[of "\<lambda>x. x\<lparr>th_quantum := th_quantum x - 1\<rparr>"]
    by (auto simp: charge_quantum_def Let_def same_sched_refl same_sched_def)
  then have i3: "cpu_inv (charge_quantum s2)" using i2 same_sched_inv(2) by blast
  have "s' = (if k_current s2 = 0 then s2 else if k_need_resched (charge_quantum s2) then sched_reschedule (charge_quantum s2)
      else charge_quantum s2)"
    using assms(1) s1 by (simp add: ke_on_tick_def s2_def Let_def split: if_splits)
  then show ?thesis using i2 i3 sched_reschedule_cpu by simp
qed

section \<open>Runs\<close>

text \<open>The calls through which threads, interrupts and other components drive the dispatcher.\<close>

inductive cpu_step :: "kst \<Rightarrow> kst \<Rightarrow> bool" where
  wait: "ke_wait_object (Some d) timeout s = Ret (s', fl) \<Longrightarrow> \<not> th_kill_pending (k_thread s (k_current s)) \<Longrightarrow>
    k_current s \<noteq> g_idle s \<Longrightarrow> cpu_step s s'"
| set_event: "ke_set_event e s = (s', st) \<Longrightarrow> cpu_step s s'"
| reset_event: "ke_reset_event e s = (s', st) \<Longrightarrow> cpu_step s s'"
| release: "ke_release_mutex m s = (s', st) \<Longrightarrow> cpu_step s s'"
| wake: "disp_wake_one d st s = s' \<Longrightarrow> cpu_step s s'"
| boost: "sched_boost t p s = s' \<Longrightarrow> cpu_step s s'"
| yield: "sched_yield s = s' \<Longrightarrow> cpu_step s s'"
| tick: "ke_on_tick s = Ret s' \<Longrightarrow> cpu_step s s'"

inductive cpu_run :: "kst \<Rightarrow> kst \<Rightarrow> bool" where
  none: "cpu_run s s"
| more: "cpu_run s s1 \<Longrightarrow> cpu_step s1 s2 \<Longrightarrow> cpu_run s s2"

lemma cpu_step_inv:
  assumes "cpu_step s s'" "cpu_inv s" shows "cpu_inv s'"
  using assms(1)
proof cases
  case (wait d timeout fl)
  then show ?thesis using ke_wait_object_cpu[OF assms(2) wait(2,3,1)] by blast
next
  case (set_event e st)
  then show ?thesis using assms(2) disp_signal_cpu by (auto simp: ke_set_event_def split: if_splits)
next
  case (reset_event e st)
  then show ?thesis using assms(2) same_sched_inv(2)[OF same_upd_disp] by (auto simp: ke_reset_event_def split: if_splits)
next
  case (release m st)
  then show ?thesis using ke_release_mutex_cpu[OF assms(2), of m] by simp
next
  case (wake d st)
  then show ?thesis using disp_wake_one_cpu[OF assms(2)] by blast
next
  case (boost t p)
  then show ?thesis using sched_boost_cpu[OF assms(2)] by blast
next
  case yield
  then show ?thesis using sched_reschedule_cpu[OF assms(2)] by (simp add: sched_yield_def)
next
  case tick
  then show ?thesis using ke_on_tick_cpu assms(2) by blast
qed

lemma cpu_run_inv: "cpu_run s s' \<Longrightarrow> cpu_inv s \<Longrightarrow> cpu_inv s'"
  by (induction rule: cpu_run.induct) (auto intro: cpu_step_inv)


text \<open>Two threads: the idle one and one that runs.\<close>

definition demo_sched :: kst where
  "demo_sched = zero_kst\<lparr>k_thread := (\<lambda>t. if t = 1 then zero_thread\<lparr>th_state := THR_READY\<rparr>
       else if t = 2 then zero_thread\<lparr>th_state := THR_RUNNING, th_priority := 8\<rparr> else zero_thread),
     g_idle := 1, k_current := 2\<rparr>"

lemma demo_sched_fields:
  "k_thread demo_sched t = (if t = 1 then zero_thread\<lparr>th_state := THR_READY\<rparr>
       else if t = 2 then zero_thread\<lparr>th_state := THR_RUNNING, th_priority := 8\<rparr> else zero_thread)"
  "g_idle demo_sched = 1" "k_current demo_sched = 2" "g_ready demo_sched p = []" "g_ready_mask demo_sched = 0"
  by (simp_all add: demo_sched_def zero_kst_def)

lemma demo_sched_inv: "cpu_inv demo_sched"
  by (auto simp: cpu_inv_def sched_inv_def queues_but_def running_ok_def demo_sched_fields zero_thread_def)


section \<open>The choice of the next thread\<close>

lemma reschedule_shape:
  assumes "cpu_inv s"
  obtains s1 nxt where "picked s nxt" "k_thread s1 = k_thread s" "g_idle s1 = g_idle s"
    "\<forall>p. g_ready s1 p = g_ready s p \<or> g_ready s p = nxt # g_ready s1 p"
    "sched_reschedule s = (if nxt = k_current s then s1 else run_next nxt (put_back (k_current s) s1))"
    "k_current s1 = k_current s"
proof -
  have i: "sched_inv s" and c: "th_state (k_thread s (k_current s)) \<noteq> THR_READY" using assms by (auto simp: cpu_inv_def)
  obtain s1 popped where pop: "ready_pop_highest (s\<lparr>k_need_resched := False\<rparr>) = (s1, popped)" by fastforce
  define nxt where nxt: "nxt = (if popped = 0 then g_idle s1 else popped)"
  note sw = reschedule_switch[OF i c pop nxt]
  have e: "sched_reschedule s = (if nxt = k_current s then s1 else run_next nxt (put_back (k_current s) s1))"
    by (simp add: sched_reschedule_def pop nxt)
  have q: "queues_ok (s\<lparr>k_need_resched := False\<rparr>)" using i by (simp add: sched_inv_def)
  have "g_ready s1 p = g_ready s p \<or> g_ready s p = nxt # g_ready s1 p" for p
    using q pop
  proof (cases rule: pop_cases)
    case none
    then show ?thesis by simp
  next
    case (some p' ts)
    then show ?thesis using nxt by simp
  qed
  then show ?thesis using that[OF sw(1,4,6) _ e sw(5)] by blast
qed



text \<open>A reschedule gives the processor to a thread of lower priority: a running thread that outranks every
  ready thread is put back in its queue only after the next thread was chosen, so when its quantum ends, or when it
  yields, the best of the others runs, or the idle thread, although the thread that gave way is ready and has
  the higher priority.\<close>

theorem reschedule_demotes:
  assumes "cpu_inv s" "k_current s \<noteq> g_idle s"
    and "\<forall>p \<ge> th_priority (k_thread s (k_current s)). g_ready s p = []"
    and "th_priority (k_thread s (g_idle s)) < th_priority (k_thread s (k_current s))"
  shows "th_state (k_thread (sched_reschedule s) (k_current s)) = THR_READY
    \<and> th_priority (k_thread (sched_reschedule s) (k_current (sched_reschedule s)))
        < th_priority (k_thread (sched_reschedule s) (k_current s))"
proof -
  let ?c = "k_current s"
  have r: "th_state (k_thread s ?c) = THR_RUNNING" and nz: "?c \<noteq> 0" and q: "queues_ok s"
    using assms(1) by (auto simp: cpu_inv_def sched_inv_def running_ok_def)
  obtain s1 nxt where S: "picked s nxt" "k_thread s1 = k_thread s" "g_idle s1 = g_idle s"
    "\<forall>p. g_ready s1 p = g_ready s p \<or> g_ready s p = nxt # g_ready s1 p"
    "sched_reschedule s = (if nxt = ?c then s1 else run_next nxt (put_back ?c s1))" "k_current s1 = ?c"
    by (rule reschedule_shape[OF assms(1)])
  have lo: "th_priority (k_thread s nxt) < th_priority (k_thread s ?c)"
  proof (cases "nxt = g_idle s")
    case False
    then obtain p where p: "g_ready s p \<noteq> []" "nxt = hd (g_ready s p)" using S(1) by (auto simp: picked_def)
    then have "th_priority (k_thread s nxt) = p" using queues_butD(4)[OF q] hd_in_set by simp
    moreover have "p < th_priority (k_thread s ?c)" using p(1) assms(3) not_less by blast
    ultimately show ?thesis by simp
  qed (use assms(4) in simp)
  then have ne: "nxt \<noteq> ?c" by auto
  then show ?thesis using S(2,5) r nz lo by (simp add: run_next_frame put_back_frame)
qed

theorem reschedule_demotes_witness:
  "th_state (k_thread (sched_reschedule demo_sched) 2) = THR_READY
    \<and> th_priority (k_thread (sched_reschedule demo_sched) (k_current (sched_reschedule demo_sched)))
        < th_priority (k_thread (sched_reschedule demo_sched) 2)"
  using reschedule_demotes[OF demo_sched_inv] by (simp add: demo_sched_fields zero_thread_def)

end
