(* ===== verification/Sync_Correct.thy ===== *)
theory Sync_Correct
  imports Sched_Correct
begin

text \<open>
  What the synchronisation primitives promise: who is woken by an event, who owns a mutex after a
  release, that the clean-up of a dying thread ends, and which timers a clock tick fires.
\<close>

section \<open>Waking one waiter\<close>

lemma set_wb_state: "th_state (k_thread (set_wb_status w st s) u) = th_state (k_thread s u)"
  using same_set_wb[of s w st] by (simp add: same_sched_def)

lemma grant_state: "th_state (k_thread (grant_mutex d t st s) u) = th_state (k_thread s u)"
  using same_grant[of s d t st] by (simp add: same_sched_def)

lemma own_wait: "th_wait (k_thread (ke_mutex_own m t s) u) = th_wait (k_thread s u)"
  by (simp add: ke_mutex_own_def upd_thread_def unlink_owned_def)

lemma grant_wait: "th_wait (k_thread (grant_mutex d t st s) u) = th_wait (k_thread s u)"
  by (simp add: grant_mutex_def own_wait upd_disp_def upd_mutex_def)

lemma set_wb_wait:
  "wb_status (th_wait (k_thread (set_wb_status (t, WSingle) st s) u)) = (if u = t then st else wb_status (th_wait (k_thread s u)))"
  "u \<noteq> fst w \<Longrightarrow> k_thread (set_wb_status w st s) u = k_thread s u"
  by (auto simp: set_wb_status_def upd_thread_def split: prod.splits wslot.splits)

lemma ready_wait: "th_wait (k_thread (sched_ready t s) u) = th_wait (k_thread s u)"
  by (simp add: sched_ready_def ready_insert_def Let_def upd_thread_def)

lemma ready_state:
  "th_state (k_thread (sched_ready t s) u) =
     (if u = t \<and> t \<noteq> 0 \<and> th_state (k_thread s t) \<in> {THR_WAITING, THR_UNUSED} then THR_READY else th_state (k_thread s u))"
  by (cases "th_state (k_thread s t)") (auto simp: sched_ready_def ready_insert_def Let_def upd_thread_def)

text \<open>The state of a thread after it was woken, and the effect of one wake-up on the threads.\<close>

definition woken :: "u64 \<Rightarrow> thread_state \<Rightarrow> thread_state" where
  "woken t x = (if t \<noteq> 0 \<and> x = THR_WAITING then THR_READY else x)"

lemma wake_one_threads:
  assumes w: "d_waiters (k_disp s d) = w # ws"
  shows "th_state (k_thread (disp_wake_one d st s) u) = (if u = fst w then woken u else id) (th_state (k_thread s u))"
    "wb_status (th_wait (k_thread (disp_wake_one d st s) u)) = (if u = fst w then st else wb_status (th_wait (k_thread s u)))"
proof -
  define s1 where "s1 = set_wb_status (fst w, WSingle) st (set_wb_status w st (upd_disp d (\<lambda>x. x\<lparr>d_waiters := ws\<rparr>) s))"
  define s2 where "s2 = (if d_type (k_disp s d) = DISP_MUTANT then grant_mutex d (fst w) st s1 else s1)"
  have e: "disp_wake_one d st s = (if th_state (k_thread s2 (fst w)) = THR_WAITING then sched_ready (fst w) s2 else s2)"
    using w by (simp add: disp_wake_one_def s1_def s2_def Let_def)
  have t: "k_thread (upd_disp d f s) = k_thread s" for f by (simp add: upd_disp_def)
  have st: "th_state (k_thread s2 u) = th_state (k_thread s u)" for u
    by (simp add: s2_def s1_def grant_state set_wb_state t)
  have wb: "wb_status (th_wait (k_thread s2 u)) = (if u = fst w then st else wb_status (th_wait (k_thread s u)))" for u
    by (simp add: s2_def s1_def grant_wait set_wb_wait t)
  show "th_state (k_thread (disp_wake_one d st s) u) = (if u = fst w then woken u else id) (th_state (k_thread s u))"
    by (auto simp: e ready_state st woken_def)
  show "wb_status (th_wait (k_thread (disp_wake_one d st s) u)) = (if u = fst w then st else wb_status (th_wait (k_thread s u)))"
    by (simp add: e ready_wait wb)
qed

lemma wake_all_disp:
  assumes "d_type (k_disp s d) \<noteq> DISP_MUTANT"
  shows "k_disp (disp_wake_all d st s) = (k_disp s)(d := (k_disp s d)\<lparr>d_waiters := []\<rparr>)"
  using assms
proof (induction "length (d_waiters (k_disp s d))" arbitrary: s)
  case 0
  then have "d_waiters (k_disp s d) = []" by simp
  moreover from this have "(k_disp s d)\<lparr>d_waiters := []\<rparr> = k_disp s d" by simp
  ultimately show ?case by (simp add: disp_wake_all.simps[of d st s] fun_upd_idem)
next
  case (Suc n)
  then have ne: "d_waiters (k_disp s d) \<noteq> []" by auto
  let ?s1 = "disp_wake_one d st s"
  have d1: "k_disp ?s1 = (k_disp s)(d := (k_disp s d)\<lparr>d_waiters := tl (d_waiters (k_disp s d))\<rparr>)"
    using ne Suc.prems by (simp add: disp_wake_one_disp)
  have "n = length (d_waiters (k_disp ?s1 d))" using Suc.hyps(2) by (simp add: d1)
  then have "k_disp (disp_wake_all d st ?s1) = (k_disp ?s1)(d := (k_disp ?s1 d)\<lparr>d_waiters := []\<rparr>)"
    by (rule Suc.hyps(1)) (use Suc.prems in \<open>simp add: d1\<close>)
  then show ?case using ne by (simp add: disp_wake_all.simps[of d st s] d1)
qed

lemma wake_all_threads:
  "th_state (k_thread (disp_wake_all d st s) u)
      = (if u \<in> fst ` set (d_waiters (k_disp s d)) then woken u else id) (th_state (k_thread s u))
   \<and> wb_status (th_wait (k_thread (disp_wake_all d st s) u))
      = (if u \<in> fst ` set (d_waiters (k_disp s d)) then st else wb_status (th_wait (k_thread s u)))"
proof (induction "length (d_waiters (k_disp s d))" arbitrary: s)
  case 0
  then show ?case by (simp add: disp_wake_all.simps[of d st s])
next
  case (Suc n)
  then obtain w ws where w: "d_waiters (k_disp s d) = w # ws" by (cases "d_waiters (k_disp s d)") auto
  let ?s1 = "disp_wake_one d st s"
  have ws: "d_waiters (k_disp ?s1 d) = ws" by (simp add: disp_wake_one_disp w)
  have idem: "woken v (woken v x) = woken v x" for v x by (simp add: woken_def)
  have n: "n = length (d_waiters (k_disp ?s1 d))" using Suc.hyps(2) by (simp add: ws w)
  have e: "disp_wake_all d st s = disp_wake_all d st ?s1" using w by (simp add: disp_wake_all.simps[of d st s])
  show ?case
    using Suc.hyps(1)[OF n] wake_one_threads[OF w, of st u] unfolding e ws w by (auto simp: idem)
qed


text \<open>Two threads that wait for an event while a third runs.\<close>

definition demo_waiters :: "disp_type \<Rightarrow> kst" where
  "demo_waiters ty = demo_sched\<lparr>
     k_thread := (k_thread demo_sched)(3 := zero_thread\<lparr>th_state := THR_WAITING\<rparr>, 4 := zero_thread\<lparr>th_state := THR_WAITING\<rparr>),
     k_disp := (\<lambda>_. \<lparr>d_type = ty, d_signal = 0, d_waiters = [(3, WSingle), (4, WSingle)]\<rparr>)\<rparr>"

lemma demo_waiters_fields:
  "k_disp (demo_waiters ty) d = \<lparr>d_type = ty, d_signal = 0, d_waiters = [(3, WSingle), (4, WSingle)]\<rparr>"
  "k_thread (demo_waiters ty) = (k_thread demo_sched)(3 := zero_thread\<lparr>th_state := THR_WAITING\<rparr>, 4 := zero_thread\<lparr>th_state := THR_WAITING\<rparr>)"
  "k_current (demo_waiters ty) = 2" "k_mutex (demo_waiters ty) = (\<lambda>_. \<lparr>m_owner = 0, m_recursion = 0, m_abandoned = False\<rparr>)"
  by (simp_all add: demo_waiters_def demo_sched_def zero_kst_def)


section \<open>Mutexes\<close>

lemma wake_one_mutex:
  assumes w: "d_waiters (k_disp s d) = w # ws" and ty: "d_type (k_disp s d) = DISP_MUTANT"
  shows "k_mutex (disp_wake_one d st s) (dref_obj d) =
    \<lparr>m_owner = fst w, m_recursion = 1, m_abandoned = (st = STATUS_ABANDONED)\<rparr>"
proof -
  define s1 where "s1 = set_wb_status (fst w, WSingle) st (set_wb_status w st (upd_disp d (\<lambda>x. x\<lparr>d_waiters := ws\<rparr>) s))"
  have "k_mutex (grant_mutex d (fst w) st s1) (dref_obj d) =
      \<lparr>m_owner = fst w, m_recursion = 1, m_abandoned = (st = STATUS_ABANDONED)\<rparr>"
    by (simp add: grant_mutex_def upd_disp_def upd_mutex_def)
  moreover have "disp_wake_one d st s = (if th_state (k_thread (grant_mutex d (fst w) st s1) (fst w)) = THR_WAITING
      then sched_ready (fst w) (grant_mutex d (fst w) st s1) else grant_mutex d (fst w) st s1)"
    using w ty by (simp add: disp_wake_one_def s1_def Let_def)
  ultimately show ?thesis by (simp add: sched_ready_frame)
qed

lemma sched_boost_frame: "k_mutex (sched_boost t np s) = k_mutex s" "k_disp (sched_boost t np s) = k_disp s"
proof -
  have "k_mutex (sched_boost t np s) = k_mutex s \<and> k_disp (sched_boost t np s) = k_disp s"
  proof (rule sched_boost_cases[of t np s])
    fix b assume e: "sched_boost t np s = (boost_to t (min np 31) s)\<lparr>k_need_resched := b\<rparr>"
    show ?thesis by (simp add: e boost_to_frame)
  qed simp
  then show "k_mutex (sched_boost t np s) = k_mutex s" "k_disp (sched_boost t np s) = k_disp s" by auto
qed

text \<open>C21. Releasing a mutex passes it to the longest waiter: a thread that does not own it changes nothing and gets
  \<open>STATUS_MUTANT_NOT_OWNED\<close>; a nested release only counts down; the outermost release makes the first waiter the owner,
  with a recursion count of 1 and the mutex still unavailable to others, or, if nobody waits, makes the mutex
  free.\<close>

theorem mutex_handover:
  assumes "m \<noteq> 0" "k_current s \<noteq> 0" "d_type (k_disp s (Disp m)) = DISP_MUTANT" "d_signal (k_disp s (Disp m)) = 0"
  shows "if m_owner (k_mutex s m) \<noteq> k_current s \<or> m_recursion (k_mutex s m) = 0
    then ke_release_mutex m s = (s, STATUS_MUTANT_NOT_OWNED)
    else if m_recursion (k_mutex s m) \<noteq> 1
    then ke_release_mutex m s = (upd_mutex m (\<lambda>x. x\<lparr>m_recursion := m_recursion x - 1\<rparr>) s, STATUS_SUCCESS)
    else \<exists>s'. ke_release_mutex m s = (s', STATUS_SUCCESS) \<and>
      (case d_waiters (k_disp s (Disp m)) of
         [] \<Rightarrow> m_owner (k_mutex s' m) = 0 \<and> d_signal (k_disp s' (Disp m)) = 1
       | w # ws \<Rightarrow> m_owner (k_mutex s' m) = fst w \<and> m_recursion (k_mutex s' m) = 1
           \<and> d_waiters (k_disp s' (Disp m)) = ws \<and> d_signal (k_disp s' (Disp m)) = 0)"
proof -
  let ?t = "k_current s" let ?d = "Disp m"
  let ?s1 = "upd_mutex m (\<lambda>x. x\<lparr>m_recursion := m_recursion x - 1\<rparr>) s"
  show ?thesis
  proof (cases "m_owner (k_mutex s m) = ?t \<and> m_recursion (k_mutex s m) = 1")
    case False
    moreover have "m_recursion (k_mutex ?s1 m) > 0" if "m_recursion (k_mutex s m) \<noteq> 0" "m_recursion (k_mutex s m) \<noteq> 1"
      using that by (simp add: upd_mutex_def word_gt_0)
    ultimately show ?thesis using assms(1,2) by (auto simp: ke_release_mutex_def Let_def)
  next
    case True
    define s2 where "s2 = ke_mutex_disown m (upd_mutex m (\<lambda>x. x\<lparr>m_owner := 0\<rparr>) ?s1)"
    define s3 where "s3 = (if d_waiters (k_disp s2 ?d) = [] then upd_disp ?d (\<lambda>x. x\<lparr>d_signal := 1\<rparr>) s2
        else disp_wake_one ?d STATUS_SUCCESS s2)"
    define s' where "s' = fst (ke_release_mutex m s)"
    have f2: "k_disp s2 = k_disp s" "m_owner (k_mutex s2 m) = 0"
      using assms(1) by (simp_all add: s2_def ke_mutex_disown_def unlink_owned_def upd_mutex_def)
    have r: "ke_release_mutex m s = (s', STATUS_SUCCESS)" and s': "s' = s3 \<or> (\<exists>p f. s' = sched_boost ?t p (upd_thread ?t f s3))"
      using True assms(1,2) by (auto simp: s'_def ke_release_mutex_def Let_def upd_mutex_def s2_def s3_def)
    have f3: "k_mutex s' = k_mutex s3" "k_disp s' = k_disp s3"
      using s' by (auto simp: sched_boost_frame upd_thread_def)
    show ?thesis
    proof (cases "d_waiters (k_disp s ?d)")
      case Nil
      then have "s3 = upd_disp ?d (\<lambda>x. x\<lparr>d_signal := 1\<rparr>) s2" by (simp add: s3_def f2)
      then have "m_owner (k_mutex s' m) = 0 \<and> d_signal (k_disp s' ?d) = 1"
        using f2(2) by (simp add: f3 upd_disp_def)
      then show ?thesis using True r Nil by simp
    next
      case (Cons w ws)
      then have w: "d_waiters (k_disp s2 ?d) = w # ws" and e: "s3 = disp_wake_one ?d STATUS_SUCCESS s2"
        by (simp_all add: f2 s3_def)
      have "k_mutex s' m = \<lparr>m_owner = fst w, m_recursion = 1, m_abandoned = False\<rparr>"
        using wake_one_mutex[OF w, of STATUS_SUCCESS] assms(3) by (simp add: f3 e f2)
      moreover have "k_disp s' ?d = (k_disp s ?d)\<lparr>d_waiters := ws, d_signal := 0\<rparr>"
        using w assms(3) by (simp add: f3 e disp_wake_one_disp f2)
      ultimately show ?thesis using True r Cons by simp
    qed
  qed
qed

theorem mutex_handover_witness:
  "\<exists>s'. ke_release_mutex 0x2000 ((demo_waiters DISP_MUTANT)\<lparr>k_mutex := (\<lambda>_. \<lparr>m_owner = 2, m_recursion = 1, m_abandoned = False\<rparr>)\<rparr>)
      = (s', STATUS_SUCCESS)
    \<and> m_owner (k_mutex s' 0x2000) = 3 \<and> d_waiters (k_disp s' (Disp 0x2000)) = [(4, WSingle)]"
proof -
  let ?s = "(demo_waiters DISP_MUTANT)\<lparr>k_mutex := (\<lambda>_. \<lparr>m_owner = 2, m_recursion = 1, m_abandoned = False\<rparr>)\<rparr>"
  show ?thesis
    using mutex_handover[of "0x2000" ?s] by (auto simp: demo_waiters_fields)
qed

section \<open>Abandoned mutexes\<close>

lemma thread_sched_ready: "th_owned (k_thread (sched_ready t s) u) = th_owned (k_thread s u)"
  by (simp add: sched_ready_def ready_insert_def Let_def upd_thread_def)

lemma set_wb_owned: "th_owned (k_thread (set_wb_status w st s) u) = th_owned (k_thread s u)"
  by (simp add: set_wb_status_def upd_thread_def split: prod.splits wslot.splits)

lemma wake_one_owned:
  assumes "d_waiters (k_disp s (Disp m)) = w # ws"
  shows "th_owned (k_thread (disp_wake_one (Disp m) st s) u) = th_owned (k_thread s u)
    \<or> th_owned (k_thread (disp_wake_one (Disp m) st s) u) = remove1 m (th_owned (k_thread s u)) @ (if u = fst w then [m] else [])"
proof -
  define s1 where "s1 = set_wb_status (fst w, WSingle) st (set_wb_status w st (upd_disp (Disp m) (\<lambda>x. x\<lparr>d_waiters := ws\<rparr>) s))"
  define s2 where "s2 = (if d_type (k_disp s (Disp m)) = DISP_MUTANT then grant_mutex (Disp m) (fst w) st s1 else s1)"
  have e: "disp_wake_one (Disp m) st s = (if th_state (k_thread s2 (fst w)) = THR_WAITING then sched_ready (fst w) s2 else s2)"
    using assms by (simp add: disp_wake_one_def s1_def s2_def Let_def)
  have o1: "th_owned (k_thread s1 u) = th_owned (k_thread s u)" for u
    by (simp add: s1_def set_wb_owned upd_disp_def)
  have r: "th_owned (k_thread (disp_wake_one (Disp m) st s) u) = th_owned (k_thread s2 u)" by (simp add: e thread_sched_ready)
  have "th_owned (k_thread s2 u) = th_owned (k_thread s u)
    \<or> th_owned (k_thread s2 u) = remove1 m (th_owned (k_thread s u)) @ (if u = fst w then [m] else [])"
    by (simp add: s2_def grant_mutex_def ke_mutex_own_def upd_thread_def unlink_owned_def upd_disp_def upd_mutex_def o1)
  then show ?thesis by (simp only: r)
qed

text \<open>What is left to do: the mutexes still owned, and everyone who waits for them.\<close>

definition abandon_work :: "u64 \<Rightarrow> kst \<Rightarrow> nat" where
  "abandon_work t s =
     length (th_owned (k_thread s t)) + (\<Sum>m\<in>set (th_owned (k_thread s t)). length (d_waiters (k_disp s (Disp m))))"

lemma abandon_one_work:
  assumes "th_owned (k_thread s t) = m # ms"
  shows "abandon_work t (abandon_one m s) < abandon_work t s"
proof -
  let ?W = "\<lambda>s m. length (d_waiters (k_disp s (Disp m)))"
  define s1 where "s1 = upd_mutex m (\<lambda>x. x\<lparr>m_owner := 0, m_recursion := 0, m_abandoned := True\<rparr>) (unlink_owned m s)"
  have o1: "th_owned (k_thread s1 t) = ms" and d1: "k_disp s1 = k_disp s"
    using assms by (simp_all add: s1_def upd_mutex_def unlink_owned_def)
  have old: "abandon_work t s = Suc (length ms) + (\<Sum>x\<in>insert m (set ms). ?W s x)"
    by (simp add: abandon_work_def assms)
  have mono: "(\<Sum>x\<in>set ms. ?W s x) \<le> (\<Sum>x\<in>insert m (set ms). ?W s x)"
    by (rule sum_mono2) auto
  show ?thesis
  proof (cases "d_waiters (k_disp s (Disp m))")
    case Nil
    then have e: "abandon_one m s = upd_disp (Disp m) (\<lambda>x. x\<lparr>d_signal := 1\<rparr>) s1"
      by (simp add: abandon_one_def s1_def[symmetric] d1)
    have "?W (abandon_one m s) x = ?W s x" for x by (simp add: e upd_disp_def d1)
    moreover have "th_owned (k_thread (abandon_one m s) t) = ms" by (simp add: e upd_disp_def o1)
    ultimately show ?thesis using mono by (simp add: abandon_work_def[of t "abandon_one m s"] old)
  next
    case (Cons w ws)
    let ?s2 = "upd_disp (Disp m) (\<lambda>x. x\<lparr>d_signal := 0\<rparr>) s1"
    have e: "abandon_one m s = disp_wake_one (Disp m) STATUS_ABANDONED ?s2"
      using Cons by (simp add: abandon_one_def s1_def[symmetric] d1)
    have w2: "d_waiters (k_disp ?s2 (Disp m)) = w # ws" using Cons by (simp add: upd_disp_def d1)
    have W: "?W (abandon_one m s) x = (if x = m then length ws else ?W s x)" for x
      using w2 by (simp add: e disp_wake_one_disp) (simp add: upd_disp_def d1)
    have o2: "th_owned (k_thread ?s2 t) = ms" by (simp add: upd_disp_def o1)
    let ?O = "th_owned (k_thread (abandon_one m s) t)"
    have O: "length ?O \<le> Suc (length ms)" "set ?O \<subseteq> insert m (set ms)" "m \<notin> set ?O \<Longrightarrow> length ?O \<le> length ms"
    proof -
      have "?O = ms \<or> ?O = remove1 m ms @ (if t = fst w then [m] else [])"
        using wake_one_owned[OF w2, of STATUS_ABANDONED t] by (simp only: e o2)
      then show "length ?O \<le> Suc (length ms)" "set ?O \<subseteq> insert m (set ms)" "m \<notin> set ?O \<Longrightarrow> length ?O \<le> length ms"
        using set_remove1_subset[of m ms] by (auto simp: length_remove1 split: if_splits)
    qed
    have "(\<Sum>x\<in>set ?O. ?W (abandon_one m s) x) \<le> (\<Sum>x\<in>insert m (set ms). ?W (abandon_one m s) x)"
      by (rule sum_mono2) (use O(2) in auto)
    also have "\<dots> = length ws + (\<Sum>x\<in>set ms - {m}. ?W s x)"
      by (simp add: sum.insert_remove W)
    also have "\<dots> < (\<Sum>x\<in>insert m (set ms). ?W s x)"
      by (simp add: sum.insert_remove Cons)
    finally show ?thesis using O(1) unfolding abandon_work_def[of t "abandon_one m s"] old by linarith
  qed
qed

lemma abandon_loop_total: "\<exists>s'. abandon_loop t s = Some s' \<and> th_owned (k_thread s' t) = []"
proof (induction "abandon_work t s" arbitrary: s rule: less_induct)
  case less
  show ?case
  proof (cases "th_owned (k_thread s t)")
    case Nil
    then show ?thesis by (simp add: abandon_loop.simps[of t s])
  next
    case (Cons m ms)
    from less[OF abandon_one_work[OF Cons]] show ?thesis
      by (simp add: abandon_loop.simps[of t s] Cons)
  qed
qed

text \<open>C31. The clean-up of a dying thread's mutexes always ends: \<open>ke_mutex_abandon_owned\<close> returns, with no mutex left in the thread's
  list, whatever threads wait for its mutexes, even if the thread itself is among them.\<close>

theorem mutex_abandon_terminates:
  "\<exists>s'. ke_mutex_abandon_owned t s = Ret s' \<and> (t = 0 \<or> th_owned (k_thread s' t) = [])"
  using abandon_loop_total[of t s] by (auto simp: ke_mutex_abandon_owned_def)

end
