(* ===== verification/Timer_Correct.thy ===== *)
theory Timer_Correct
  imports Timer Frames
begin

text \<open>
  The clock and the timers: a tick fires every timer that is due and comes to an end, as long as
  no periodic timer wraps around the tick counter; one that does keeps the tick going forever.
\<close>

definition due_count :: "u64 \<Rightarrow> kst \<Rightarrow> nat" where
  "due_count now s = length (filter (timer_due now s) (g_timers s))"

text \<open>A period that leads past the largest tick.\<close>

definition wraps :: "u64 \<Rightarrow> kst \<Rightarrow> u64 \<Rightarrow> bool" where
  "wraps now s a \<longleftrightarrow> t_period (k_timer s a) \<noteq> 0 \<and> now + t_period (k_timer s a) \<le> now"

lemma signal_timer: "k_timer (disp_signal d i s) = k_timer s" "g_timers (disp_signal d i s) = g_timers s"
  using only_wakes_fields(5,17)[OF wakes_disp_signal] by auto

lemma disarm_due:
  assumes "timer_due now s a"
  shows "k_timer (disarm a s) = (k_timer s)(a := (k_timer s a)\<lparr>t_armed := False\<rparr>)" "g_timers (disarm a s) = remove1 a (g_timers s)"
  using assms by (simp_all add: disarm_def timer_due_def upd_timer_def)

lemma timer_fire_due:
  assumes "timer_due now s a"
  shows "k_timer (timer_fire now a s) = (k_timer s)(a :=
      if t_period (k_timer s a) = 0 then (k_timer s a)\<lparr>t_armed := False\<rparr>
      else (k_timer s a)\<lparr>t_due_tick := now + t_period (k_timer s a), t_armed := True\<rparr>)"
    "g_timers (timer_fire now a s) = remove1 a (g_timers s) @ (if t_period (k_timer s a) = 0 then [] else [a])"
  using disarm_due[OF assms] by (simp_all add: timer_fire_def Let_def signal_timer upd_timer_def)

lemma filter_length_mono: "(\<And>x. P x \<Longrightarrow> Q x) \<Longrightarrow> length (filter P xs) \<le> length (filter Q xs)"
  by (induction xs) (auto intro: le_SucI)

lemma timer_fire_count:
  assumes due: "timer_due now s a" and mem: "a \<in> set (g_timers s)" and nw: "\<not> wraps now s a"
  shows "due_count now (timer_fire now a s) < due_count now s"
proof -
  note F = timer_fire_due[OF due]
  let ?s' = "timer_fire now a s"
  have na: "\<not> timer_due now ?s' a" using nw by (auto simp: timer_due_def F wraps_def)
  have other: "timer_due now ?s' x = timer_due now s x" if "x \<noteq> a" for x using that by (simp add: timer_due_def F)
  have "due_count now ?s' = length (filter (timer_due now ?s') (remove1 a (g_timers s)))"
    using na by (simp add: due_count_def F)
  also have "\<dots> \<le> length (filter (timer_due now s) (remove1 a (g_timers s)))"
  proof -
    have "timer_due now ?s' x \<Longrightarrow> timer_due now s x" for x using other na by (cases "x = a") auto
    then show ?thesis by (rule filter_length_mono)
  qed
  also have "\<dots> < due_count now s"
  proof -
    have "0 < length (filter (timer_due now s) (g_timers s))"
      using mem due length_pos_if_in_set[of a "filter (timer_due now s) (g_timers s)"] by simp
    then show ?thesis using mem due by (simp add: due_count_def filter_remove1 length_remove1)
  qed
  finally show ?thesis .
qed

lemma timer_fire_wraps: "timer_due now s a \<Longrightarrow> wraps now (timer_fire now a s) x = wraps now s x"
  by (simp add: wraps_def timer_fire_due)

lemma timer_loop_total:
  assumes "\<forall>a\<in>set (g_timers s). \<not> wraps now s a"
  shows "\<exists>s'. timer_loop now s = Some s' \<and> due_count now s' = 0 \<and> set (g_timers s') \<subseteq> set (g_timers s)
    \<and> (\<forall>a. \<not> timer_due now s a \<longrightarrow> k_timer s' a = k_timer s a \<and> count_list (g_timers s') a = count_list (g_timers s) a)"
  using assms
proof (induction "due_count now s" arbitrary: s rule: less_induct)
  case less
  show ?case
  proof (cases "find (timer_due now s) (g_timers s)")
    case None
    then have "due_count now s = 0" by (auto simp: due_count_def find_None_iff)
    then show ?thesis using None by (simp add: timer_loop.simps[of now s])
  next
    case (Some a)
    then have due: "timer_due now s a" and mem: "a \<in> set (g_timers s)" by (auto simp: find_Some_iff)
    let ?s1 = "timer_fire now a s"
    note F = timer_fire_due[OF due]
    have sub: "set (g_timers ?s1) \<subseteq> set (g_timers s)" using mem set_remove1_subset[of a "g_timers s"] by (auto simp: F)
    have nw: "\<forall>x\<in>set (g_timers ?s1). \<not> wraps now ?s1 x" using less.prems sub timer_fire_wraps[OF due] by auto
    have c: "due_count now ?s1 < due_count now s"
      by (rule timer_fire_count[OF due mem]) (use less.prems mem in blast)
    obtain s' where s': "timer_loop now ?s1 = Some s'" "due_count now s' = 0" "set (g_timers s') \<subseteq> set (g_timers ?s1)"
      "\<forall>x. \<not> timer_due now ?s1 x \<longrightarrow> k_timer s' x = k_timer ?s1 x \<and> count_list (g_timers s') x = count_list (g_timers ?s1) x"
      using less.hyps[OF c nw] by blast
    have "k_timer s' x = k_timer s x \<and> count_list (g_timers s') x = count_list (g_timers s) x" if x: "\<not> timer_due now s x" for x
    proof -
      have ne: "x \<noteq> a" using due x by auto
      then have "\<not> timer_due now ?s1 x" using x by (simp add: timer_due_def F)
      moreover have "count_list (remove1 a xs) x = count_list xs x" for xs using ne by (induction xs) auto
      ultimately show ?thesis using s'(4) ne by (simp add: F)
    qed
    then show ?thesis using s' sub Some by (auto simp: timer_loop.simps[of now s])
  qed
qed

text \<open>C32. A clock tick fires all the timers that are due, and then goes on: if no period in the timer list wraps around the tick
  counter, \<open>timer_tick\<close> returns, no timer is due any more, and a timer that was not due is as
  it was.\<close>

theorem timer_tick_terminates:
  assumes "g_timer_up s" "\<forall>a\<in>set (g_timers s). \<not> wraps now s a"
  shows "\<exists>s'. timer_tick now s = Ret s' \<and> (\<forall>a\<in>set (g_timers s'). \<not> timer_due now s' a)
    \<and> (\<forall>a. \<not> timer_due now s a \<longrightarrow> k_timer s' a = k_timer s a)"
proof -
  obtain s' where s': "timer_loop now s = Some s'" "due_count now s' = 0"
    "\<forall>a. \<not> timer_due now s a \<longrightarrow> k_timer s' a = k_timer s a"
    using timer_loop_total[OF assms(2)] by blast
  have "\<forall>a\<in>set (g_timers s'). \<not> timer_due now s' a" using s'(2) by (auto simp: due_count_def filter_empty_conv)
  then show ?thesis using assms(1) s' by (simp add: timer_tick_def)
qed

text \<open>Two armed timers: one periodic and due at tick 5, one due at tick 9.\<close>

definition demo_timers :: "u64 \<Rightarrow> kst" where
  "demo_timers period = zero_kst\<lparr>g_timer_up := True, g_timers := [0x2000, 0x3000],
     k_timer := (\<lambda>a. if a = 0x2000 then \<lparr>t_due_tick = 5, t_period = period, t_armed = True\<rparr>
                     else \<lparr>t_due_tick = 9, t_period = 0, t_armed = True\<rparr>)\<rparr>"

lemma demo_timers_fields:
  "g_timer_up (demo_timers p)" "g_timers (demo_timers p) = [0x2000, 0x3000]"
  "k_timer (demo_timers p) a = (if a = 0x2000 then \<lparr>t_due_tick = 5, t_period = p, t_armed = True\<rparr>
                     else \<lparr>t_due_tick = 9, t_period = 0, t_armed = True\<rparr>)"
  by (simp_all add: demo_timers_def)

theorem timer_tick_terminates_witness:
  "\<exists>s'. timer_tick 6 (demo_timers 10) = Ret s' \<and> (\<forall>a\<in>set (g_timers s'). \<not> timer_due 6 s' a)
     \<and> k_timer s' 0x3000 = \<lparr>t_due_tick = 9, t_period = 0, t_armed = True\<rparr>"
proof -
  have "\<forall>a\<in>set (g_timers (demo_timers 10)). \<not> wraps 6 (demo_timers 10) a"
    by (simp add: demo_timers_fields wraps_def)
  from timer_tick_terminates[OF demo_timers_fields(1) this] show ?thesis
    by (auto simp: demo_timers_fields timer_due_def)
qed

text \<open>A timer whose period wraps around hangs the clock tick: once a timer with such a period is due, \<open>timer_tick\<close> re-arms it
  with a due time that is not in the future, finds it due again, and never returns.\<close>

theorem timer_tick_hangs:
  assumes "g_timer_up s" "a \<in> set (g_timers s)" "timer_due now s a" "wraps now s a"
  shows "timer_tick now s = Hang"
proof -
  have "timer_loop now s \<noteq> Some s'" for s'
  proof
    assume l: "timer_loop now s = Some s'"
    have "\<not> (a \<in> set (g_timers s) \<and> timer_due now s a \<and> wraps now s a)"
    proof (rule timer_loop.raw_induct[of "\<lambda>now s s'. \<not> (a \<in> set (g_timers s) \<and> timer_due now s a \<and> wraps now s a)", OF _ l])
      fix f now s s'
      assume IH: "\<And>now s s'. f now s = Some s' \<Longrightarrow> \<not> (a \<in> set (g_timers s) \<and> timer_due now s a \<and> wraps now s a)"
        and b: "(case find (timer_due now s) (g_timers s) of None \<Rightarrow> Some s | Some x \<Rightarrow> f now (timer_fire now x s)) = Some s'"
      show "\<not> (a \<in> set (g_timers s) \<and> timer_due now s a \<and> wraps now s a)"
      proof
        assume a: "a \<in> set (g_timers s) \<and> timer_due now s a \<and> wraps now s a"
        obtain x where x: "find (timer_due now s) (g_timers s) = Some x"
          using a by (cases "find (timer_due now s) (g_timers s)") (auto simp: find_None_iff)
        then have dx: "timer_due now s x" by (auto simp: find_Some_iff)
        let ?s1 = "timer_fire now x s"
        have "f now ?s1 = Some s'" using b x by simp
        moreover have "a \<in> set (g_timers ?s1)"
          using a in_set_remove1[of a x "g_timers s"] by (cases "a = x") (auto simp: timer_fire_due[OF dx] wraps_def)
        moreover have "timer_due now ?s1 a" using a by (auto simp: timer_due_def timer_fire_due[OF dx] wraps_def)
        moreover have "wraps now ?s1 a" using a timer_fire_wraps[OF dx] by blast
        ultimately show False using IH by blast
      qed
    qed
    then show False using assms by blast
  qed
  then have "timer_loop now s = None" by blast
  then show ?thesis using assms(1) by (simp add: timer_tick_def)
qed

theorem timer_tick_hangs_witness: "timer_tick 6 (demo_timers (- 1)) = Hang"
  by (rule timer_tick_hangs[of _ "0x2000"]) (simp_all add: demo_timers_fields timer_due_def wraps_def)

end
