(* ===== verification/Vmm_Correct.thy ===== *)
theory Vmm_Correct
  imports Vmm_User
begin

text \<open>
  The address space of a process as a partial map: each address below the end of user space has
  the protection, type and commit flag of the descriptor that contains it, or none.  The
  allocation, release and merging of descriptors implement the obvious operations on that map.
\<close>

section \<open>Descriptors\<close>

definition vad_disjoint :: "vad \<Rightarrow> vad \<Rightarrow> bool" where
  "vad_disjoint v w \<longleftrightarrow> v_end v \<le> v_start w \<or> v_end w \<le> v_start v"

definition vads_ok :: "vad list \<Rightarrow> bool" where
  "vads_ok vs \<longleftrightarrow> (\<forall>i<length vs. v_start (vs ! i) < v_end (vs ! i))
     \<and> (\<forall>i<length vs. \<forall>j<length vs. i \<noteq> j \<longrightarrow> vad_disjoint (vs ! i) (vs ! j))"

type_synonym attrs = "u32 \<times> u32 \<times> u32"

definition attrs_of :: "vad \<Rightarrow> attrs" where
  "attrs_of v = (v_prot v, v_type v, v_committed v)"

definition vad_map :: "vad list \<Rightarrow> virt_t \<Rightarrow> attrs option" where
  "vad_map vs a = map_option attrs_of (find (vad_has a) vs)"

lemma vads_okD:
  assumes "vads_ok vs" "i < length vs"
  shows "v_start (vs ! i) < v_end (vs ! i)" "j < length vs \<Longrightarrow> i \<noteq> j \<Longrightarrow> vad_disjoint (vs ! i) (vs ! j)"
  using assms by (auto simp: vads_ok_def)

lemma vad_has_disjoint: "vad_disjoint v w \<Longrightarrow> vad_has a v \<Longrightarrow> \<not> vad_has a w"
  by (auto simp: vad_disjoint_def vad_has_def)

lemma vad_has_unique:
  assumes "vads_ok vs" "i < length vs" "j < length vs" "vad_has a (vs ! i)" "vad_has a (vs ! j)"
  shows "i = j"
  using vads_okD(2)[OF assms(1,2,3)] vad_has_disjoint assms(4,5) by blast

lemma vad_map_Some:
  assumes "vads_ok vs"
  shows "vad_map vs a = Some x \<longleftrightarrow> (\<exists>i<length vs. vad_has a (vs ! i) \<and> attrs_of (vs ! i) = x)"
proof
  assume "vad_map vs a = Some x"
  then show "\<exists>i<length vs. vad_has a (vs ! i) \<and> attrs_of (vs ! i) = x"
    by (auto simp: vad_map_def find_Some_iff)
next
  assume "\<exists>i<length vs. vad_has a (vs ! i) \<and> attrs_of (vs ! i) = x"
  then obtain i where i: "i < length vs" "vad_has a (vs ! i)" "attrs_of (vs ! i) = x" by blast
  have "\<not> vad_has a (vs ! j)" if "j < i" for j
    using vad_has_unique[OF assms less_trans[OF that i(1)] i(1) _ i(2)] that by blast
  then have "find (vad_has a) vs = Some (vs ! i)" using i by (auto simp: find_Some_iff intro!: exI[of _ i])
  then show "vad_map vs a = Some x" using i(3) by (simp add: vad_map_def)
qed

lemma vad_map_None: "vad_map vs a = None \<longleftrightarrow> (\<forall>i<length vs. \<not> vad_has a (vs ! i))"
  by (auto simp: vad_map_def find_None_iff in_set_conv_nth)

lemma option_eqI: "(\<And>x. p = Some x \<longleftrightarrow> q = Some x) \<Longrightarrow> p = q"
  by (cases p; cases q) auto

text \<open>Two arrays with the same addresses and attributes are the same map.\<close>

lemma vad_map_eqI:
  assumes "vads_ok vs" "vads_ok ws"
    and "\<And>a x. (\<exists>i<length vs. vad_has a (vs ! i) \<and> attrs_of (vs ! i) = x)
            \<longleftrightarrow> (\<exists>i<length ws. vad_has a (ws ! i) \<and> attrs_of (ws ! i) = x)"
  shows "vad_map vs = vad_map ws"
proof
  fix a
  have "vad_map vs a = Some x \<longleftrightarrow> vad_map ws a = Some x" for x
    unfolding vad_map_Some[OF assms(1)] vad_map_Some[OF assms(2)] by (rule assms(3))
  then show "vad_map vs a = vad_map ws a" by (rule option_eqI)
qed

section \<open>Removing a descriptor\<close>

lemma ex_nth_set: "(\<exists>k<length xs. P (xs ! k)) \<longleftrightarrow> (\<exists>x\<in>set xs. P x)"
  by (auto simp: in_set_conv_nth Bex_def)

text \<open>\<open>vad_remove_at\<close> moves the last descriptor into the hole.\<close>

definition hole :: "nat \<Rightarrow> nat \<Rightarrow> nat \<Rightarrow> nat" where
  "hole n j k = (if k = j then n - 1 else k)"

lemma remove_at_nth:
  assumes "j < length (as_vads as)" "k < length (as_vads as) - 1"
  shows "as_vads (vad_remove_at as j) ! k = as_vads as ! hole (length (as_vads as)) j k"
proof -
  have "as_vads as \<noteq> []" using assms(1) by auto
  then show ?thesis using assms by (auto simp: vad_remove_at_def hole_def nth_butlast nth_list_update last_conv_nth)
qed

lemma remove_at_length [simp]: "length (as_vads (vad_remove_at as j)) = length (as_vads as) - 1"
  by (simp add: vad_remove_at_def)

lemma hole_range:
  assumes "j < n" "k < n - 1"
  shows "hole n j k < n" "hole n j k \<noteq> j"
  using assms by (auto simp: hole_def)

lemma hole_inj: "j < n \<Longrightarrow> k < n - 1 \<Longrightarrow> l < n - 1 \<Longrightarrow> hole n j k = hole n j l \<Longrightarrow> k = l"
  by (auto simp: hole_def split: if_splits)

lemma hole_surj:
  assumes "j < n" "i < n" "i \<noteq> j"
  obtains k where "k < n - 1" "hole n j k = i"
proof (cases "i = n - 1")
  case True
  then show ?thesis using that[of j] assms by (auto simp: hole_def)
next
  case False
  then show ?thesis using that[of i] assms by (auto simp: hole_def)
qed

lemma remove_at_ok:
  assumes "vads_ok (as_vads as)" "j < length (as_vads as)"
  shows "vads_ok (as_vads (vad_remove_at as j))"
  unfolding vads_ok_def
proof (intro conjI allI impI)
  fix k assume "k < length (as_vads (vad_remove_at as j))"
  then have k: "k < length (as_vads as) - 1" by simp
  show "v_start (as_vads (vad_remove_at as j) ! k) < v_end (as_vads (vad_remove_at as j) ! k)"
    unfolding remove_at_nth[OF assms(2) k] by (rule vads_okD(1)[OF assms(1) hole_range(1)[OF assms(2) k]])
next
  fix k l assume "k < length (as_vads (vad_remove_at as j))" "l < length (as_vads (vad_remove_at as j))" "k \<noteq> l"
  then have k: "k < length (as_vads as) - 1" and l: "l < length (as_vads as) - 1" and ne: "k \<noteq> l" by simp_all
  have "hole (length (as_vads as)) j k \<noteq> hole (length (as_vads as)) j l" using hole_inj[OF assms(2) k l] ne by blast
  then show "vad_disjoint (as_vads (vad_remove_at as j) ! k) (as_vads (vad_remove_at as j) ! l)"
    unfolding remove_at_nth[OF assms(2) k] remove_at_nth[OF assms(2) l]
    by (rule vads_okD(2)[OF assms(1) hole_range(1)[OF assms(2) k] hole_range(1)[OF assms(2) l]])
qed

lemma remove_at_has:
  assumes "j < length (as_vads as)"
  shows "(\<exists>i<length (as_vads (vad_remove_at as j)). P (as_vads (vad_remove_at as j) ! i))
    \<longleftrightarrow> (\<exists>i<length (as_vads as). i \<noteq> j \<and> P (as_vads as ! i))"
proof
  assume "\<exists>i<length (as_vads (vad_remove_at as j)). P (as_vads (vad_remove_at as j) ! i)"
  then obtain k where "k < length (as_vads as) - 1" "P (as_vads as ! hole (length (as_vads as)) j k)"
    using remove_at_nth[OF assms] by auto
  then show "\<exists>i<length (as_vads as). i \<noteq> j \<and> P (as_vads as ! i)" using hole_range[OF assms] by blast
next
  assume "\<exists>i<length (as_vads as). i \<noteq> j \<and> P (as_vads as ! i)"
  then obtain i where i: "i < length (as_vads as)" "i \<noteq> j" "P (as_vads as ! i)" by blast
  obtain k where "k < length (as_vads as) - 1" "hole (length (as_vads as)) j k = i"
    by (rule hole_surj[OF assms i(1,2)])
  then show "\<exists>i<length (as_vads (vad_remove_at as j)). P (as_vads (vad_remove_at as j) ! i)"
    using i(3) remove_at_nth[OF assms] by auto
qed

section \<open>Merging\<close>

definition merged :: "aspace \<Rightarrow> nat \<Rightarrow> nat \<Rightarrow> aspace" where
  "merged as i j = vad_remove_at (as\<lparr>as_vads := (as_vads as)[i := (as_vads as ! i)\<lparr>v_end := v_end (as_vads as ! j)\<rparr>]\<rparr>) j"

lemma merged_ok:
  assumes ok: "vads_ok (as_vads as)" and ij: "i < length (as_vads as)" "j < length (as_vads as)" "i \<noteq> j"
    and jn: "vad_joins (as_vads as ! i) (as_vads as ! j)"
  shows "vads_ok (as_vads (merged as i j))" "vad_map (as_vads (merged as i j)) = vad_map (as_vads as)"
    "length (as_vads (merged as i j)) < length (as_vads as)"
proof -
  let ?vs = "as_vads as" let ?v = "?vs ! i" let ?w = "?vs ! j"
  let ?m = "?v\<lparr>v_end := v_end ?w\<rparr>" let ?us = "?vs[i := ?m]" let ?as = "as\<lparr>as_vads := ?us\<rparr>"
  have len: "length (as_vads ?as) = length ?vs" by simp
  have e: "v_end ?v = v_start ?w" using jn by (simp add: vad_joins_def)
  have o: "v_start ?v < v_end ?v" "v_start ?w < v_end ?w" using vads_okD(1)[OF ok] ij by auto
  have at: "attrs_of ?m = attrs_of ?v" "attrs_of ?v = attrs_of ?w" using jn by (simp_all add: attrs_of_def vad_joins_def)
  have has: "vad_has a ?m \<longleftrightarrow> vad_has a ?v \<or> vad_has a ?w" for a using e o by (auto simp: vad_has_def)
  have dm: "vad_disjoint ?m (?vs ! k)" if k: "k < length ?vs" "k \<noteq> i" "k \<noteq> j" for k
    using vads_okD(2)[OF ok ij(1) k(1)] vads_okD(2)[OF ok ij(2) k(1)] vads_okD(1)[OF ok k(1)] k o e
    by (auto simp: vad_disjoint_def)
  have dj: "vad_disjoint v w \<longleftrightarrow> vad_disjoint w v" for v w by (auto simp: vad_disjoint_def)
  note n = hole_range[of j "length ?vs", OF ij(2)]
  show ok': "vads_ok (as_vads (merged as i j))"
    unfolding vads_ok_def
  proof (intro conjI allI impI)
    fix k assume "k < length (as_vads (merged as i j))"
    then have k: "k < length ?vs - 1" by (simp add: merged_def)
    have "as_vads (merged as i j) ! k = ?us ! hole (length ?vs) j k"
      using remove_at_nth[of j ?as k] k ij(2) by (simp add: merged_def)
    then show "v_start (as_vads (merged as i j) ! k) < v_end (as_vads (merged as i j) ! k)"
      using n(1)[OF k] vads_okD(1)[OF ok] ij(1) o e by (auto simp: nth_list_update)
  next
    fix k l assume "k < length (as_vads (merged as i j))" "l < length (as_vads (merged as i j))" "k \<noteq> l"
    then have k: "k < length ?vs - 1" "l < length ?vs - 1" "k \<noteq> l" by (simp_all add: merged_def)
    let ?k = "hole (length ?vs) j k" let ?l = "hole (length ?vs) j l"
    have kl: "?k \<noteq> ?l" using hole_inj[OF ij(2) k(1,2)] k(3) by blast
    have nth: "as_vads (merged as i j) ! k = ?us ! ?k" "as_vads (merged as i j) ! l = ?us ! ?l"
      using remove_at_nth[of j ?as] k ij(2) by (simp_all add: merged_def)
    show "vad_disjoint (as_vads (merged as i j) ! k) (as_vads (merged as i j) ! l)"
      using n(1)[OF k(1)] n(1)[OF k(2)] n(2)[OF k(1)] n(2)[OF k(2)] kl dm dj vads_okD(2)[OF ok] ij(1)
      unfolding nth by (cases "?k = i"; cases "?l = i") (auto simp: nth_list_update)
  qed
  show "vad_map (as_vads (merged as i j)) = vad_map ?vs"
  proof (rule vad_map_eqI[OF ok' ok])
    fix a x
    have "(\<exists>k<length (as_vads (merged as i j)). vad_has a (as_vads (merged as i j) ! k) \<and> attrs_of (as_vads (merged as i j) ! k) = x)
      \<longleftrightarrow> (\<exists>k<length ?vs. k \<noteq> j \<and> vad_has a (?us ! k) \<and> attrs_of (?us ! k) = x)"
      using remove_at_has[of j ?as "\<lambda>v. vad_has a v \<and> attrs_of v = x"] ij(2) by (simp add: merged_def)
    also have "\<dots> \<longleftrightarrow> (\<exists>k<length ?vs. vad_has a (?vs ! k) \<and> attrs_of (?vs ! k) = x)"
    proof
      assume "\<exists>k<length ?vs. k \<noteq> j \<and> vad_has a (?us ! k) \<and> attrs_of (?us ! k) = x"
      then obtain k where k: "k < length ?vs" "k \<noteq> j" "vad_has a (?us ! k)" "attrs_of (?us ! k) = x" by blast
      show "\<exists>k<length ?vs. vad_has a (?vs ! k) \<and> attrs_of (?vs ! k) = x"
      proof (cases "k = i")
        case True
        then have "vad_has a ?v \<or> vad_has a ?w" "attrs_of ?v = x" "attrs_of ?w = x"
          using k(3,4) has at ij(1) by simp_all
        then show ?thesis using ij by blast
      next
        case False
        then show ?thesis using k by auto
      qed
    next
      assume "\<exists>k<length ?vs. vad_has a (?vs ! k) \<and> attrs_of (?vs ! k) = x"
      then obtain k where k: "k < length ?vs" "vad_has a (?vs ! k)" "attrs_of (?vs ! k) = x" by blast
      show "\<exists>k<length ?vs. k \<noteq> j \<and> vad_has a (?us ! k) \<and> attrs_of (?us ! k) = x"
      proof (cases "k = i \<or> k = j")
        case True
        then have "vad_has a ?m" "attrs_of ?m = x" using k(2,3) has at by auto
        then show ?thesis using ij by (intro exI[of _ i]) simp
      next
        case False
        then show ?thesis using k by (intro exI[of _ k]) simp
      qed
    qed
    finally show "(\<exists>k<length (as_vads (merged as i j)). vad_has a (as_vads (merged as i j) ! k) \<and> attrs_of (as_vads (merged as i j) ! k) = x)
      \<longleftrightarrow> (\<exists>k<length ?vs. vad_has a (?vs ! k) \<and> attrs_of (?vs ! k) = x)" .
  qed
  show "length (as_vads (merged as i j)) < length ?vs" using ij by (simp add: merged_def)
qed

lemma vad_coalesce_unfold:
  "vad_coalesce as = (case coalesce_pair (as_vads as) of None \<Rightarrow> as | Some (i, j) \<Rightarrow> vad_coalesce (merged as i j))"
  by (subst vad_coalesce.simps) (simp add: merged_def split: option.splits prod.splits)

lemma coalesce_pair_None:
  assumes "coalesce_pair vs = None" "i < length vs" "j < length vs" "i \<noteq> j"
  shows "\<not> vad_joins (vs ! i) (vs ! j)"
proof
  assume jn: "vad_joins (vs ! i) (vs ! j)"
  have "coalesce_at vs i \<noteq> None" unfolding coalesce_at_def find_index_None using assms(3,4) jn by auto
  then have "find_index (\<lambda>i. coalesce_at vs i \<noteq> None) [0..<length vs] 0 \<noteq> None"
    unfolding find_index_None using assms(2) by auto
  then obtain k where k: "find_index (\<lambda>i. coalesce_at vs i \<noteq> None) [0..<length vs] 0 = Some k" by blast
  then have "coalesce_at vs k \<noteq> None" by (auto simp: find_index_Some)
  then show False using assms(1) k by (auto simp: coalesce_pair_def)
qed

text \<open>Merging only makes descriptors longer, and their bounds come from those merged.\<close>

lemma merged_covers:
  assumes ij: "i < length (as_vads as)" "j < length (as_vads as)" "i \<noteq> j"
    and jn: "vad_joins (as_vads as ! i) (as_vads as ! j)" and ok: "vads_ok (as_vads as)"
  shows "v \<in> set (as_vads as) \<Longrightarrow> \<exists>w \<in> set (as_vads (merged as i j)). v_start w \<le> v_start v \<and> v_end v \<le> v_end w"
    "w \<in> set (as_vads (merged as i j)) \<Longrightarrow> \<exists>u \<in> set (as_vads as). \<exists>v \<in> set (as_vads as). v_start w = v_start u \<and> v_end w = v_end v"
proof -
  let ?vs = "as_vads as" let ?m = "(?vs ! i)\<lparr>v_end := v_end (?vs ! j)\<rparr>" let ?as = "as\<lparr>as_vads := ?vs[i := ?m]\<rparr>"
  have ex: "(\<exists>w \<in> set (as_vads (merged as i j)). P w) \<longleftrightarrow> (\<exists>k<length ?vs. k \<noteq> j \<and> P (?vs[i := ?m] ! k))" for P
    unfolding ex_nth_set[symmetric] using remove_at_has[of j ?as P] ij(2) by (simp add: merged_def)
  have o: "v_end (?vs ! i) = v_start (?vs ! j)" "v_start (?vs ! i) < v_end (?vs ! i)" "v_start (?vs ! j) < v_end (?vs ! j)"
    using jn vads_okD(1)[OF ok ij(1)] vads_okD(1)[OF ok ij(2)] by (simp_all add: vad_joins_def)
  show "\<exists>w \<in> set (as_vads (merged as i j)). v_start w \<le> v_start v \<and> v_end v \<le> v_end w" if v: "v \<in> set ?vs"
  proof -
    obtain k where k: "k < length ?vs" "?vs ! k = v" using v by (auto simp: in_set_conv_nth)
    define l where "l = (if k = j then i else k)"
    have "l < length ?vs \<and> l \<noteq> j \<and> v_start (?vs[i := ?m] ! l) \<le> v_start v \<and> v_end v \<le> v_end (?vs[i := ?m] ! l)"
      using k ij o by (auto simp: l_def nth_list_update)
    then show ?thesis unfolding ex by blast
  qed
  show "\<exists>u \<in> set ?vs. \<exists>v \<in> set ?vs. v_start w = v_start u \<and> v_end w = v_end v" if w: "w \<in> set (as_vads (merged as i j))"
  proof -
    have "\<exists>w' \<in> set (as_vads (merged as i j)). w' = w" using w by blast
    then obtain k where k: "k < length ?vs" "?vs[i := ?m] ! k = w" unfolding ex by blast
    show ?thesis
    proof (cases "k = i")
      case True
      then show ?thesis using k ij nth_mem[OF ij(1)] nth_mem[OF ij(2)] by (intro bexI[of _ "?vs ! i"] bexI[of _ "?vs ! j"]) auto
    next
      case False
      then show ?thesis using k nth_mem[OF k(1)] by (intro bexI[of _ w]) auto
    qed
  qed
qed

lemma vad_coalesce_exact:
  assumes "vads_ok (as_vads as)"
  shows "vads_ok (as_vads (vad_coalesce as)) \<and> vad_map (as_vads (vad_coalesce as)) = vad_map (as_vads as)
    \<and> length (as_vads (vad_coalesce as)) \<le> length (as_vads as)
    \<and> (\<forall>i<length (as_vads (vad_coalesce as)). \<forall>j<length (as_vads (vad_coalesce as)). i \<noteq> j \<longrightarrow>
         \<not> vad_joins (as_vads (vad_coalesce as) ! i) (as_vads (vad_coalesce as) ! j))
    \<and> as_cr3 (vad_coalesce as) = as_cr3 as \<and> as_committed (vad_coalesce as) = as_committed as"
  using assms
proof (induction "length (as_vads as)" arbitrary: as rule: less_induct)
  case less
  show ?case
  proof (cases "coalesce_pair (as_vads as)")
    case None
    then have "vad_coalesce as = as" by (simp add: vad_coalesce_unfold[of as])
    then show ?thesis using less.prems coalesce_pair_None[OF None] by simp
  next
    case (Some ij)
    obtain i j where ij: "ij = (i, j)" by fastforce
    note P = coalesce_pair_Some[OF Some[unfolded ij]]
    note M = merged_ok[OF less.prems P]
    have e: "vad_coalesce as = vad_coalesce (merged as i j)" using Some ij by (simp add: vad_coalesce_unfold[of as])
    have f: "as_cr3 (merged as i j) = as_cr3 as" "as_committed (merged as i j) = as_committed as"
      by (simp_all add: merged_def vad_remove_at_def)
    show ?thesis using less.hyps[OF M(3) M(1)] M(2,3) unfolding e f by auto
  qed
qed

text \<open>C33. Merging descriptors does not change what is mapped: \<open>vad_coalesce\<close> yields a well-formed array with the same protection, type
  and commit flag at every address, in which no two descriptors could be merged any further, and it leaves the other
  fields of the address space alone.\<close>

theorem vad_coalesce_equiv:
  assumes "vads_ok (as_vads as)"
  shows "vads_ok (as_vads (vad_coalesce as)) \<and> vad_map (as_vads (vad_coalesce as)) = vad_map (as_vads as)
    \<and> length (as_vads (vad_coalesce as)) \<le> length (as_vads as)
    \<and> (\<forall>i<length (as_vads (vad_coalesce as)). \<forall>j<length (as_vads (vad_coalesce as)). i \<noteq> j \<longrightarrow>
         \<not> vad_joins (as_vads (vad_coalesce as) ! i) (as_vads (vad_coalesce as) ! j))
    \<and> as_cr3 (vad_coalesce as) = as_cr3 as \<and> as_committed (vad_coalesce as) = as_committed as"
  by (rule vad_coalesce_exact[OF assms])

lemma vad_coalesce_covers:
  assumes "vads_ok (as_vads as)" "v \<in> set (as_vads as)"
  shows "\<exists>w \<in> set (as_vads (vad_coalesce as)). v_start w \<le> v_start v \<and> v_end v \<le> v_end w"
  using assms
proof (induction "length (as_vads as)" arbitrary: as v rule: less_induct)
  case less
  show ?case
  proof (cases "coalesce_pair (as_vads as)")
    case None
    then show ?thesis using less.prems(2) by (auto simp: vad_coalesce_unfold[of as])
  next
    case (Some ij)
    obtain i j where ij: "ij = (i, j)" by fastforce
    note P = coalesce_pair_Some[OF Some[unfolded ij]]
    note M = merged_ok[OF less.prems(1) P]
    have e: "vad_coalesce as = vad_coalesce (merged as i j)" using Some ij by (simp add: vad_coalesce_unfold[of as])
    obtain u where u: "u \<in> set (as_vads (merged as i j))" "v_start u \<le> v_start v" "v_end v \<le> v_end u"
      using merged_covers(1)[OF P less.prems] by blast
    show ?thesis using less.hyps[OF M(3,1) u(1)] u(2,3) unfolding e by (meson order_trans)
  qed
qed

lemma vad_coalesce_bounds:
  assumes "vads_ok (as_vads as)" "v \<in> set (as_vads (vad_coalesce as))"
  shows "\<exists>u \<in> set (as_vads as). \<exists>w \<in> set (as_vads as). v_start v = v_start u \<and> v_end v = v_end w"
  using assms
proof (induction "length (as_vads as)" arbitrary: as v rule: less_induct)
  case less
  show ?case
  proof (cases "coalesce_pair (as_vads as)")
    case None
    then show ?thesis using less.prems(2) by (auto simp: vad_coalesce_unfold[of as])
  next
    case (Some ij)
    obtain i j where ij: "ij = (i, j)" by fastforce
    note P = coalesce_pair_Some[OF Some[unfolded ij]]
    note M = merged_ok[OF less.prems(1) P]
    have e: "vad_coalesce as = vad_coalesce (merged as i j)" using Some ij by (simp add: vad_coalesce_unfold[of as])
    obtain u w where u: "u \<in> set (as_vads (merged as i j))" "w \<in> set (as_vads (merged as i j))" "v_start v = v_start u" "v_end v = v_end w"
      using less.hyps[OF M(3,1) less.prems(2)[unfolded e]] by blast
    show ?thesis
      using merged_covers(2)[OF P less.prems(1) u(1)] merged_covers(2)[OF P less.prems(1) u(2)] u(3,4) by auto
  qed
qed

definition demo_vad :: "virt_t \<Rightarrow> virt_t \<Rightarrow> vad" where
  "demo_vad a b = \<lparr>v_start = a, v_end = b, v_prot = PAGE_READWRITE, v_type = MEM_COMMIT, v_committed = 1\<rparr>"

definition demo_aspace :: "vad list \<Rightarrow> aspace" where
  "demo_aspace vs = \<lparr>as_cr3 = 0x1000, as_vads = vs, as_committed = 2, as_brk = USER_HEAP_BASE, as_stack_base = 0\<rparr>"

lemma demo_vads_ok: "vads_ok [demo_vad 0x10002000 0x10003000, demo_vad 0x10001000 0x10002000]"
  by (simp add: vads_ok_def All_less_Suc2 vad_disjoint_def demo_vad_def)

theorem vad_coalesce_equiv_witness:
  "vad_map (as_vads (vad_coalesce (demo_aspace [demo_vad 0x10002000 0x10003000, demo_vad 0x10001000 0x10002000]))) 0x10001800
     = Some (PAGE_READWRITE, MEM_COMMIT, 1)"
proof -
  have "vads_ok (as_vads (demo_aspace [demo_vad 0x10002000 0x10003000, demo_vad 0x10001000 0x10002000]))"
    using demo_vads_ok by (simp add: demo_aspace_def)
  from vad_coalesce_equiv[OF this] show ?thesis
    by (simp add: demo_aspace_def vad_map_def demo_vad_def vad_has_def attrs_of_def)
qed

section \<open>Adding and changing descriptors\<close>

lemma vads_ok_append:
  assumes "vads_ok vs" "v_start w < v_end w" "\<And>i. i < length vs \<Longrightarrow> vad_disjoint (vs ! i) w"
  shows "vads_ok (vs @ [w])"
  using assms by (auto simp: vads_ok_def nth_append less_Suc_eq vad_disjoint_def)

lemma vads_ok_shrink:
  assumes ok: "vads_ok vs" and i: "i < length vs"
    and v: "v_start v < v_end v" "v_start (vs ! i) \<le> v_start v" "v_end v \<le> v_end (vs ! i)"
  shows "vads_ok (vs[i := v])"
  unfolding vads_ok_def
proof (intro conjI allI impI)
  fix k assume "k < length (vs[i := v])"
  then show "v_start (vs[i := v] ! k) < v_end (vs[i := v] ! k)" using vads_okD(1)[OF ok] v(1) i by (auto simp: nth_list_update)
next
  fix k l assume "k < length (vs[i := v])" "l < length (vs[i := v])" "k \<noteq> l"
  then show "vad_disjoint (vs[i := v] ! k) (vs[i := v] ! l)"
    using vads_okD(2)[OF ok, of k l] v(2,3) i by (auto simp: nth_list_update vad_disjoint_def)
qed

lemma ex_nth_append: "(\<exists>k<length (vs @ [w]). P ((vs @ [w]) ! k)) \<longleftrightarrow> (\<exists>k<length vs. P (vs ! k)) \<or> P w"
  unfolding ex_nth_set by auto

lemma ex_nth_update:
  assumes "i < length vs"
  shows "(\<exists>k<length (vs[i := v]). P (vs[i := v] ! k)) \<longleftrightarrow> P v \<or> (\<exists>k<length vs. k \<noteq> i \<and> P (vs ! k))"
proof
  assume "\<exists>k<length (vs[i := v]). P (vs[i := v] ! k)"
  then obtain k where "k < length vs" "P (vs[i := v] ! k)" by auto
  then show "P v \<or> (\<exists>k<length vs. k \<noteq> i \<and> P (vs ! k))" using assms by (cases "k = i") auto
next
  assume "P v \<or> (\<exists>k<length vs. k \<noteq> i \<and> P (vs ! k))"
  then show "\<exists>k<length (vs[i := v]). P (vs[i := v] ! k)"
  proof
    assume "P v" then show ?thesis using assms by (intro exI[of _ i]) simp
  next
    assume "\<exists>k<length vs. k \<noteq> i \<and> P (vs ! k)"
    then obtain k where "k < length vs" "k \<noteq> i" "P (vs ! k)" by blast
    then show ?thesis by (intro exI[of _ k]) simp
  qed
qed

section \<open>Allocation\<close>

lemma vmm_alloc_user_success:
  assumes "vmm_alloc_user h as base sz0 prot typ = Ret (h', as', va, STATUS_SUCCESS)"
  shows "sz0 \<noteq> 0" "va = (if base = 0 then as_brk as else base)"
    "as_vads as' = as_vads as @ [\<lparr>v_start = va, v_end = va + PAGE_ALIGN_UP sz0, v_prot = prot, v_type = typ, v_committed = 1\<rparr>]"
    "as_committed as' = as_committed as + PAGE_ALIGN_UP sz0 div PAGE_SIZE"
    "as_committed as' \<le> USER_COMMIT_MAX div PAGE_SIZE" "length (as_vads as) < MAX_VADS"
    "\<not> list_ex (vad_overlaps va (PAGE_ALIGN_UP sz0)) (as_vads as)" "va \<le> va + PAGE_ALIGN_UP sz0"
    "PAGE_ALIGN_UP sz0 \<noteq> 0 \<Longrightarrow> va + PAGE_ALIGN_UP sz0 - 1 \<le> USER_CANONICAL_TOP"
  using assms
  by (auto simp: vmm_alloc_user_def Let_def vad_append_def not_less split: if_splits prod.splits)

lemma vmm_alloc_user_exact:
  assumes "vads_ok (as_vads as)" "vmm_alloc_user h as base sz0 prot typ = Ret (h', as', va, STATUS_SUCCESS)"
    and "unat sz0 + unat PAGE_MASK < 2 ^ 64"
  shows "vads_ok (as_vads as') \<and> length (as_vads as') \<le> MAX_VADS
    \<and> (\<forall>a. va \<le> a \<and> a < va + PAGE_ALIGN_UP sz0 \<longrightarrow> vad_map (as_vads as) a = None)
    \<and> vad_map (as_vads as') = (\<lambda>a. if va \<le> a \<and> a < va + PAGE_ALIGN_UP sz0 then Some (prot, typ, 1) else vad_map (as_vads as) a)
    \<and> va + PAGE_ALIGN_UP sz0 - 1 \<le> USER_CANONICAL_TOP
    \<and> as_committed as' = as_committed as + PAGE_ALIGN_UP sz0 div PAGE_SIZE
    \<and> as_committed as' \<le> USER_COMMIT_MAX div PAGE_SIZE"
proof -
  let ?vs = "as_vads as" let ?sz = "PAGE_ALIGN_UP sz0"
  let ?w = "\<lparr>v_start = va, v_end = va + ?sz, v_prot = prot, v_type = typ, v_committed = 1\<rparr>"
  note S = vmm_alloc_user_success[OF assms(2)]
  have nz: "?sz \<noteq> 0"
  proof -
    have "PAGE_ALIGN_UP sz0 = PAGE_ALIGN_DOWN (sz0 + PAGE_MASK)" by (simp add: PAGE_ALIGN_UP_def PAGE_ALIGN_DOWN_def)
    then have "unat ?sz = (unat sz0 + 4095) div 4096 * 4096"
      using assms(3) by (simp add: unat_PAGE_ALIGN_DOWN unat_word_ariths)
    moreover have "0 < unat sz0" using S(1) by (simp add: unat_gt_0)
    ultimately have "0 < unat ?sz" by (simp add: div_greater_zero_iff)
    then show ?thesis by auto
  qed
  then have lt: "va < va + ?sz" using S(8) by (simp add: order_less_le)
  have dis: "vad_disjoint (?vs ! i) ?w" if "i < length ?vs" for i
    using S(7) nth_mem[OF that] by (auto simp: list_ex_iff vad_overlaps_def vad_disjoint_def not_less)
  have ok: "vads_ok (?vs @ [?w])" by (rule vads_ok_append[OF assms(1)]) (use lt dis in auto)
  have none: "vad_map ?vs a = None" if "vad_has a ?w" for a
    unfolding vad_map_None using dis vad_has_disjoint that by blast
  have has: "vad_has a ?w \<longleftrightarrow> va \<le> a \<and> a < va + ?sz" for a by (simp add: vad_has_def)
  have "vad_map (?vs @ [?w]) a = (if va \<le> a \<and> a < va + ?sz then Some (prot, typ, 1) else vad_map ?vs a)" for a
  proof (rule option_eqI)
    fix x
    have "attrs_of ?w = (prot, typ, 1)" by (simp add: attrs_of_def)
    then show "vad_map (?vs @ [?w]) a = Some x \<longleftrightarrow> (if va \<le> a \<and> a < va + ?sz then Some (prot, typ, 1) else vad_map ?vs a) = Some x"
      unfolding vad_map_Some[OF ok] ex_nth_append[of ?vs ?w "\<lambda>v. vad_has a v \<and> attrs_of v = x"]
        vad_map_Some[OF assms(1), symmetric] has[symmetric]
      using none[of a] by auto
  qed
  then show ?thesis using ok none has S nz by (auto simp: fun_eq_iff)
qed


text \<open>Physical memory in which every table entry is present and leads back to the table at \<open>0x1000\<close>.\<close>

definition demo_tables :: kheap where
  "demo_tables = demo_heap\<lparr>h_pmm := demo_pmm\<lparr>g_ram := (\<lambda>a. if a AND 7 = 0 then 0x07 else if a AND 7 = 1 then 0x10 else 0)\<rparr>\<rparr>"

lemma le_bytes_8:
  "le_bytes 8 f = ucast (f 0) OR push_bit 8 (ucast (f 1)) OR push_bit 16 (ucast (f 2)) OR push_bit 24 (ucast (f 3))
     OR push_bit 32 (ucast (f 4)) OR push_bit 40 (ucast (f 5)) OR push_bit 48 (ucast (f 6)) OR push_bit 56 (ucast (f 7))"
proof -
  have "le_bytes 2 f = ucast (f 0) OR push_bit 8 (ucast (f 1))" by (simp add: numeral_2_eq_2)
  then show ?thesis
    using le_bytes.simps(2)[of 7 f] le_bytes.simps(2)[of 6 f] le_bytes.simps(2)[of 5 f] le_bytes.simps(2)[of 4 f]
      le_bytes.simps(2)[of 3 f] le_bytes.simps(2)[of 2 f]
    by (simp del: le_bytes.simps(2) add: or.assoc)
qed

lemma demo_tables_pte: "pte_get (h_pmm demo_tables) 0x1000 = 0x1007" "pte_get (h_pmm demo_tables) 0x1400 = 0x1007"
  by (simp_all add: pte_get_def rd64_def demo_tables_def le_bytes_8)

lemma demo_walk: "walk (h_pmm demo_tables) 0x1000 0x10000000 = Some 0x1000"
  by (simp add: walk_def walk_alloc_def walk_step_def pt_slot_def pt_index_def table_user_def demo_tables_pte Let_def)

lemma demo_alloc:
  "vmm_alloc_user demo_tables (demo_aspace []) 0x10000000 0x1000 PAGE_READWRITE MEM_COMMIT =
     Ret (demo_tables, (vad_append (demo_aspace []) 0x10000000 0x10001000 PAGE_READWRITE MEM_COMMIT 1)\<lparr>as_committed := 3\<rparr>,
          0x10000000, STATUS_SUCCESS)"
proof -
  have "commit_loop 1 (h_pmm demo_tables) 0x1000 0x10000000 = Ret (h_pmm demo_tables, True)"
    by (simp add: vmm_ensure_leaf_def demo_walk demo_tables_pte Let_def NT_SUCCESS_def)
  then show ?thesis
    by (simp add: vmm_alloc_user_def demo_aspace_def Let_def PAGE_ALIGN_UP_def vad_append_def demo_tables_def
        del: commit_loop.simps)
qed


section \<open>Release\<close>

text \<open>Page-aligned descriptors of fewer than \<open>2 ^ 32\<close> pages.\<close>

definition page_vad :: "vad \<Rightarrow> bool" where
  "page_vad v \<longleftrightarrow> 4096 dvd unat (v_start v) \<and> 4096 dvd unat (v_end v) \<and> unat (v_end v) - unat (v_start v) < 2 ^ 44"

lemma n32_zero:
  assumes "a \<le> b" "4096 dvd unat a" "4096 dvd unat b" "unat b - unat a < 2 ^ 44"
  shows "n32 ((b - a) div PAGE_SIZE) = 0 \<longleftrightarrow> a = b"
proof -
  have d: "unat (b - a) = unat b - unat a" using assms(1) by (simp add: unat_sub)
  have u: "unat ((b - a) div PAGE_SIZE) = (unat b - unat a) div 4096" by (simp add: unat_div d)
  also have "\<dots> < 2 ^ 32" using assms(4) by (simp add: less_mult_imp_div_less)
  finally have "n32 ((b - a) div PAGE_SIZE) = (unat b - unat a) div 4096"
    using u by (simp add: n32_def unsigned_ucast_eq take_bit_nat_eq_self)
  moreover have "4096 dvd unat b - unat a" using assms(2,3) by (rule dvd_diff_nat[rotated])
  then have "(unat b - unat a) div 4096 = 0 \<longleftrightarrow> unat b - unat a = 0" by (metis dvd_div_eq_0_iff)
  moreover have "unat b - unat a = 0 \<longleftrightarrow> a = b"
    using assms(1) by (auto simp: word_le_nat_alt word_unat_eq_iff)
  ultimately show ?thesis by simp
qed

lemma align_down_dvd: "4096 dvd unat (PAGE_ALIGN_DOWN x)"
  by (simp add: unat_PAGE_ALIGN_DOWN)

lemma align_up_dvd: "4096 dvd unat (PAGE_ALIGN_UP x)"
  using align_down_dvd[of "x + PAGE_MASK"] by (simp add: PAGE_ALIGN_UP_def PAGE_ALIGN_DOWN_def)

text \<open>What is left of a descriptor when the part from \<open>base\<close> to \<open>e\<close> is cut out of it.\<close>

lemma free_vads_map:
  assumes ok: "vads_ok (as_vads as)" and i: "i < length (as_vads as)"
    and r: "v_start (as_vads as ! i) \<le> base" "base < e" "e \<le> v_end (as_vads as ! i)"
    and nl: "n_left = 0 \<longleftrightarrow> v_start (as_vads as ! i) = base" and nr: "n_right = 0 \<longleftrightarrow> e = v_end (as_vads as ! i)"
  shows "vads_ok (as_vads (free_vads as i base e n_left n_right))"
    "vad_map (as_vads (free_vads as i base e n_left n_right)) =
       (\<lambda>a. if base \<le> a \<and> a < e then None else vad_map (as_vads as) a)"
proof -
  let ?vs = "as_vads as" let ?v = "?vs ! i" let ?l = "?v\<lparr>v_end := base\<rparr>" let ?r = "?v\<lparr>v_start := e\<rparr>"
  let ?ws = "as_vads (free_vads as i base e n_left n_right)"
  let ?Q = "\<lambda>a x v. vad_has a v \<and> attrs_of v = x"
  have vo: "v_start ?v < v_end ?v" by (rule vads_okD(1)[OF ok i])
  have lb: "v_start ?v < base" if "n_left \<noteq> 0" using that nl r(1) by auto
  have rb: "e < v_end ?v" if "n_right \<noteq> 0" using that nr r(3) by auto
  have be: "v_start ?v \<le> e" "base \<le> v_end ?v" using r by auto
  have all: "vads_ok ?ws \<and> (\<forall>P. (\<exists>k<length ?ws. P (?ws ! k)) \<longleftrightarrow>
      (n_left \<noteq> 0 \<and> P ?l) \<or> (n_right \<noteq> 0 \<and> P ?r) \<or> (\<exists>k<length ?vs. k \<noteq> i \<and> P (?vs ! k)))"
  proof (cases "n_left = 0"; cases "n_right = 0")
    assume z: "n_left = 0" "n_right = 0"
    then have e: "?ws = as_vads (vad_remove_at as i)" by (simp add: free_vads_def Let_def)
    show ?thesis unfolding e using remove_at_ok[OF ok i] remove_at_has[OF i] z by simp
  next
    assume z: "n_left = 0" "n_right \<noteq> 0"
    then have e: "?ws = ?vs[i := ?r]" by (simp add: free_vads_def Let_def)
    have "vads_ok (?vs[i := ?r])" by (rule vads_ok_shrink[OF ok i]) (use rb[OF z(2)] be in simp_all)
    then show ?thesis unfolding e using ex_nth_update[OF i, where v = ?r] z by simp
  next
    assume z: "n_left \<noteq> 0" "n_right = 0"
    then have e: "?ws = ?vs[i := ?l]" by (simp add: free_vads_def Let_def)
    have "vads_ok (?vs[i := ?l])" by (rule vads_ok_shrink[OF ok i]) (use lb[OF z(1)] be in simp_all)
    then show ?thesis unfolding e using ex_nth_update[OF i, where v = ?l] z by simp
  next
    assume z: "n_left \<noteq> 0" "n_right \<noteq> 0"
    have rr: "\<lparr>v_start = e, v_end = v_end ?v, v_prot = v_prot ?v, v_type = v_type ?v, v_committed = v_committed ?v\<rparr> = ?r" by simp
    have e: "?ws = ?vs[i := ?l] @ [?r]" using z by (simp add: free_vads_def Let_def vad_append_def rr)
    have okl: "vads_ok (?vs[i := ?l])" by (rule vads_ok_shrink[OF ok i]) (use lb[OF z(1)] be in simp_all)
    have dr: "vad_disjoint (?vs[i := ?l] ! k) ?r" if "k < length (?vs[i := ?l])" for k
      using that vads_okD(2)[OF ok i, of k] i r by (cases "k = i") (auto simp: vad_disjoint_def)
    have "vads_ok (?vs[i := ?l] @ [?r])" by (rule vads_ok_append[OF okl _ dr]) (use rb[OF z(2)] in simp_all)
    then show ?thesis unfolding e using ex_nth_append[of "?vs[i := ?l]" ?r] ex_nth_update[OF i, where v = ?l] z by auto
  qed
  then show ok': "vads_ok ?ws" by blast
  have hl: "n_left \<noteq> 0 \<and> vad_has a ?l \<or> n_right \<noteq> 0 \<and> vad_has a ?r \<longleftrightarrow> vad_has a ?v \<and> \<not> (base \<le> a \<and> a < e)" for a
    using nl nr r by (auto simp: vad_has_def not_le not_less)
  have at: "attrs_of ?l = attrs_of ?v" "attrs_of ?r = attrs_of ?v" by (simp_all add: attrs_of_def)
  have out: "\<not> (base \<le> a \<and> a < e)" if "k < length ?vs" "k \<noteq> i" "vad_has a (?vs ! k)" for a k
  proof
    assume "base \<le> a \<and> a < e"
    then have "v_start ?v \<le> a" "a < v_end ?v" using r by auto
    then show False using vads_okD(2)[OF ok i that(1)] that(2,3) vad_has_disjoint[of ?v "?vs ! k" a] by (auto simp: vad_has_def)
  qed
  show "vad_map ?ws = (\<lambda>a. if base \<le> a \<and> a < e then None else vad_map ?vs a)"
  proof
    fix a
    show "vad_map ?ws a = (if base \<le> a \<and> a < e then None else vad_map ?vs a)"
    proof (rule option_eqI)
      fix x
      have "vad_map ?ws a = Some x \<longleftrightarrow>
          (vad_has a ?v \<and> attrs_of ?v = x \<and> \<not> (base \<le> a \<and> a < e)) \<or> (\<exists>k<length ?vs. k \<noteq> i \<and> ?Q a x (?vs ! k))"
        unfolding vad_map_Some[OF ok'] all[THEN conjunct2, rule_format, of "?Q a x"] using hl[of a] at by auto
      also have "\<dots> \<longleftrightarrow> \<not> (base \<le> a \<and> a < e) \<and> (\<exists>k<length ?vs. ?Q a x (?vs ! k))"
        using out i by blast
      finally show "vad_map ?ws a = Some x \<longleftrightarrow> (if base \<le> a \<and> a < e then None else vad_map ?vs a) = Some x"
        unfolding vad_map_Some[OF ok] by (simp add: vad_map_Some[OF ok])
    qed
  qed
qed

lemma vmm_free_user_success:
  assumes "vmm_free_user h as base0 sz0 = Ret (h', as', STATUS_SUCCESS)"
  obtains i base sz e n_left n_right where "base = PAGE_ALIGN_DOWN base0" "sz = (if sz0 \<noteq> 0 then PAGE_ALIGN_UP sz0 else 0)"
    "sz \<noteq> 0 \<longrightarrow> base \<le> base + sz" "free_target as base sz = Some i"
    "e = (if sz = 0 then v_end (as_vads as ! i) else base + sz)"
    "n_left = (if sz = 0 then 0 else n32 ((base - v_start (as_vads as ! i)) div PAGE_SIZE))"
    "n_right = (if sz = 0 then 0 else n32 ((v_end (as_vads as ! i) - e) div PAGE_SIZE))"
    "as_vads as' = as_vads (free_vads as i base e n_left n_right)"
    "length (as_vads as) + (if n_left \<noteq> 0 \<and> n_right \<noteq> 0 then 1 else 0) \<le> MAX_VADS"
proof -
  define base where "base = PAGE_ALIGN_DOWN base0"
  define sz where "sz = (if sz0 \<noteq> 0 then PAGE_ALIGN_UP sz0 else 0)"
  note A = assms[unfolded vmm_free_user_def Let_def, folded base_def sz_def]
  obtain i where i: "free_target as base sz = Some i" using A by (auto split: if_splits option.splits)
  define e where "e = (if sz = 0 then v_end (as_vads as ! i) else base + sz)"
  define nl where "nl = (if sz = 0 then 0 else n32 ((base - v_start (as_vads as ! i)) div PAGE_SIZE))"
  define nr where "nr = (if sz = 0 then 0 else n32 ((v_end (as_vads as ! i) - e) div PAGE_SIZE))"
  note B = A[unfolded i option.case, folded e_def nl_def, folded nr_def]
  have "sz \<noteq> 0 \<longrightarrow> base \<le> base + sz" using B by (auto simp: not_less split: if_splits)
  moreover have "length (as_vads as) + (if nl \<noteq> 0 \<and> nr \<noteq> 0 then 1 else 0) \<le> MAX_VADS"
    using B by (simp only: not_less[symmetric] split: if_splits) auto
  moreover have "as_vads as' = as_vads (free_vads as i base e nl nr)"
    using B by (auto simp: sub_committed_def split: if_splits prod.splits)
  ultimately show ?thesis using that base_def sz_def i e_def nl_def nr_def by blast
qed

lemma free_target_Some:
  assumes "free_target as base sz = Some i" "e = (if sz = 0 then v_end (as_vads as ! i) else base + sz)" "vads_ok (as_vads as)"
  shows "i < length (as_vads as)" "v_start (as_vads as ! i) \<le> base" "base < e" "e \<le> v_end (as_vads as ! i)"
    "sz = 0 \<longrightarrow> v_start (as_vads as ! i) = base"
  using assms(1,2) vads_okD(1)[OF assms(3), of i]
  by (auto simp: free_target_def vad_contains_range_def find_index_Some split: if_splits)


definition demo_empty :: kheap where
  "demo_empty = demo_heap\<lparr>h_pmm := demo_pmm\<lparr>g_ram := (\<lambda>_. 0)\<rparr>\<rparr>"

lemma demo_empty_walk: "walk (h_pmm demo_empty) cr3 va = None"
proof -
  have "pte_get (h_pmm demo_empty) a = 0" for a by (simp add: pte_get_def rd64_def demo_empty_def le_bytes_8)
  then show ?thesis by (simp add: walk_def walk_alloc_def walk_step_def Let_def)
qed

lemma demo_empty_collect: "collect_loop n (h_pmm demo_empty) cr3 va = (h_pmm demo_empty, [])"
  by (induction n arbitrary: va) (simp_all add: demo_empty_walk)


end
