(* ===== verification/Protect_Correct.thy ===== *)
theory Protect_Correct
  imports Vmm_Correct
begin

text \<open>
  \<open>vmm_protect_user\<close> on page-aligned descriptors: it returns, and changes the protection of
  exactly the pages it is asked for, also across several descriptors.  On descriptors that are not
  page-aligned it can call itself for ever.
\<close>

section \<open>The address space as the operation sees it\<close>

definition covers :: "vad list \<Rightarrow> virt_t \<Rightarrow> virt_t \<Rightarrow> bool" where
  "covers vs lo hi \<longleftrightarrow> (\<exists>v \<in> set vs. v_start v \<le> lo \<and> hi \<le> v_end v)"

definition prot_map :: "u32 \<Rightarrow> virt_t \<Rightarrow> virt_t \<Rightarrow> (virt_t \<Rightarrow> attrs option) \<Rightarrow> virt_t \<Rightarrow> attrs option" where
  "prot_map prot lo hi m = (\<lambda>a. if lo \<le> a \<and> a < hi then map_option (\<lambda>(p, tc). (prot, tc)) (m a) else m a)"

text \<open>Well-formed, page-aligned, within the capacity, and mapping fewer than \<open>2 ^ 44\<close> bytes, so that page counts fit in 32 bits.\<close>

definition prot_inv :: "vad list \<Rightarrow> bool" where
  "prot_inv vs \<longleftrightarrow> vads_ok vs \<and> length vs \<le> MAX_VADS \<and> card (dom (vad_map vs)) < 2 ^ 44
     \<and> (\<forall>v \<in> set vs. 4096 dvd unat (v_start v) \<and> 4096 dvd unat (v_end v))"

lemma dom_prot_map [simp]: "dom (prot_map prot lo hi m) = dom m"
  by (auto simp: prot_map_def dom_def split: if_splits)

lemma prot_map_join: "lo \<le> mid \<Longrightarrow> mid \<le> hi \<Longrightarrow> prot_map prot mid hi (prot_map prot lo mid m) = prot_map prot lo hi m"
  by (rule ext) (auto simp: prot_map_def)

lemma prot_map_empty [simp]: "prot_map prot lo lo m = m"
  by (rule ext) (auto simp: prot_map_def)

lemma card_word_range: "card {a..<b :: u64} = unat b - unat a"
proof -
  have "unat ` {a..<b} = {unat a..<unat b}"
  proof (rule set_eqI)
    fix n
    have "n \<in> unat ` {a..<b}" if "n \<in> {unat a..<unat b}"
    proof -
      have "unat b < 2 ^ 64" using unsigned_less[of b] by simp
      then have "unat (of_nat n :: u64) = n" using that by (simp only: unat_of_nat) (simp add: take_bit_nat_eq_self)
      then show ?thesis using that by (intro image_eqI[of _ _ "of_nat n"]) (simp_all add: word_le_nat_alt word_less_nat_alt)
    qed
    then show "n \<in> unat ` {a..<b} \<longleftrightarrow> n \<in> {unat a..<unat b}" by (auto simp: word_le_nat_alt word_less_nat_alt)
  qed
  then have "card (unat ` {a..<b}) = unat b - unat a" by simp
  moreover have "inj_on unat {a..<b}" by (simp add: inj_on_def word_unat_eq_iff)
  ultimately show ?thesis by (simp only: card_image)
qed

lemma vad_size:
  assumes "v \<in> set vs"
  shows "unat (v_end v) - unat (v_start v) \<le> card (dom (vad_map vs))"
proof -
  have "{v_start v..<v_end v} \<subseteq> dom (vad_map vs)"
  proof
    fix a assume "a \<in> {v_start v..<v_end v}"
    then have "vad_has a v" by (simp add: vad_has_def)
    then have "vad_map vs a \<noteq> None" unfolding vad_map_None using assms by (auto simp: in_set_conv_nth)
    then show "a \<in> dom (vad_map vs)" by blast
  qed
  then show ?thesis using card_mono[of "dom (vad_map vs)" "{v_start v..<v_end v}"] by (simp add: card_word_range)
qed

lemma covers_mapped: "covers vs lo hi \<Longrightarrow> lo \<le> a \<Longrightarrow> a < hi \<Longrightarrow> vad_map vs a \<noteq> None"
  unfolding vad_map_None covers_def vad_has_def ex_nth_set[symmetric] by (meson order_trans less_le_trans)

section \<open>One descriptor\<close>

lemma split_ok:
  assumes ok: "vads_ok (as_vads as)" and i: "i < length (as_vads as)"
    and r: "v_start (as_vads as ! i) \<le> base" "base < e" "e \<le> v_end (as_vads as ! i)"
    and nl: "n_left = 0 \<longleftrightarrow> v_start (as_vads as ! i) = base" and nr: "n_right = 0 \<longleftrightarrow> e = v_end (as_vads as ! i)"
  shows "vads_ok (as_vads (protect_split as i base e n_left n_right prot))"
    "(\<exists>v \<in> set (as_vads (protect_split as i base e n_left n_right prot)). P v) \<longleftrightarrow>
       P ((as_vads as ! i)\<lparr>v_start := base, v_end := e, v_prot := prot\<rparr>)
       \<or> (n_left \<noteq> 0 \<and> P ((as_vads as ! i)\<lparr>v_end := base\<rparr>)) \<or> (n_right \<noteq> 0 \<and> P ((as_vads as ! i)\<lparr>v_start := e\<rparr>))
       \<or> (\<exists>k<length (as_vads as). k \<noteq> i \<and> P (as_vads as ! k))"
    "length (as_vads (protect_split as i base e n_left n_right prot)) =
       length (as_vads as) + (if n_left \<noteq> 0 then 1 else 0) + (if n_right \<noteq> 0 then 1 else 0)"
proof -
  let ?vs = "as_vads as" let ?v = "?vs ! i" let ?m = "?v\<lparr>v_start := base, v_end := e, v_prot := prot\<rparr>"
  let ?l = "?v\<lparr>v_end := base\<rparr>" let ?r = "?v\<lparr>v_start := e\<rparr>"
  let ?w0 = "?vs[i := ?m]" let ?w1 = "if n_left \<noteq> 0 then ?w0 @ [?l] else ?w0"
  let ?w2 = "if n_right \<noteq> 0 then ?w1 @ [?r] else ?w1"
  have lr: "\<lparr>v_start = v_start ?v, v_end = base, v_prot = v_prot ?v, v_type = v_type ?v, v_committed = v_committed ?v\<rparr> = ?l"
    "\<lparr>v_start = e, v_end = v_end ?v, v_prot = v_prot ?v, v_type = v_type ?v, v_committed = v_committed ?v\<rparr> = ?r" by simp_all
  have w: "as_vads (protect_split as i base e n_left n_right prot) = ?w2"
    by (simp add: protect_split_def Let_def vad_append_def lr)
  have dis: "vad_disjoint x y" if d: "x \<in> set ?w0" "v_start ?v \<le> v_start y" "v_end y \<le> v_end ?v"
    "v_end y \<le> base \<or> e \<le> v_start y" for x y
  proof -
    obtain k where k: "k < length ?vs" "?w0 ! k = x" using d(1) unfolding in_set_conv_nth by auto
    show ?thesis
    proof (cases "k = i")
      case True then show ?thesis using k d(4) i by (auto simp: vad_disjoint_def)
    next
      case False
      then show ?thesis using k d(2,3) vads_okD(2)[OF ok i k(1)] by (auto simp: vad_disjoint_def)
    qed
  qed
  have app: "vads_ok (xs @ [y])" if "vads_ok xs" "v_start y < v_end y" "\<forall>x \<in> set xs. vad_disjoint x y" for xs y
    by (rule vads_ok_append[OF that(1,2)]) (use that(3) in auto)
  have be: "v_start ?v \<le> e" "base \<le> v_end ?v" using r by auto
  have ok0: "vads_ok ?w0" by (rule vads_ok_shrink[OF ok i]) (use r in auto)
  have ok1: "vads_ok ?w1"
  proof (cases "n_left = 0")
    case False
    then have "v_start ?v < base" using nl r(1) by auto
    then show ?thesis using app[OF ok0, of ?l] dis[of _ ?l] be ok0 by auto
  qed (use ok0 in simp)
  show "vads_ok (as_vads (protect_split as i base e n_left n_right prot))"
  proof (cases "n_right = 0")
    case False
    then have "e < v_end ?v" using nr r(3) by auto
    moreover have "\<forall>x \<in> set ?w1. vad_disjoint x ?r" using dis[of _ ?r] be r by (auto simp: vad_disjoint_def)
    ultimately show ?thesis using app[OF ok1, of ?r] False unfolding w by simp
  qed (use ok1 w in simp)
  show "(\<exists>v \<in> set (as_vads (protect_split as i base e n_left n_right prot)). P v) \<longleftrightarrow>
       P ?m \<or> (n_left \<noteq> 0 \<and> P ?l) \<or> (n_right \<noteq> 0 \<and> P ?r) \<or> (\<exists>k<length ?vs. k \<noteq> i \<and> P (?vs ! k))"
    using ex_nth_update[OF i, where P = P and v = ?m] unfolding w ex_nth_set by auto
  show "length (as_vads (protect_split as i base e n_left n_right prot)) =
       length ?vs + (if n_left \<noteq> 0 then 1 else 0) + (if n_right \<noteq> 0 then 1 else 0)" unfolding w by simp
qed

lemma split_map:
  assumes ok: "vads_ok (as_vads as)" and i: "i < length (as_vads as)"
    and r: "v_start (as_vads as ! i) \<le> base" "base < e" "e \<le> v_end (as_vads as ! i)"
    and nl: "n_left = 0 \<longleftrightarrow> v_start (as_vads as ! i) = base" and nr: "n_right = 0 \<longleftrightarrow> e = v_end (as_vads as ! i)"
  shows "vad_map (as_vads (protect_split as i base e n_left n_right prot)) = prot_map prot base e (vad_map (as_vads as))"
proof (rule ext, rule option_eqI)
  let ?vs = "as_vads as" let ?v = "?vs ! i" let ?m = "?v\<lparr>v_start := base, v_end := e, v_prot := prot\<rparr>"
  let ?l = "?v\<lparr>v_end := base\<rparr>" let ?r = "?v\<lparr>v_start := e\<rparr>"
  let ?Q = "\<lambda>a x v. vad_has a v \<and> attrs_of v = x"
  note S = split_ok[OF assms, of prot]
  fix a x
  have m: "vad_map ?vs a = Some x \<longleftrightarrow> ?Q a x ?v \<or> (\<exists>k<length ?vs. k \<noteq> i \<and> ?Q a x (?vs ! k))" for x
    unfolding vad_map_Some[OF ok] using i by auto
  have at: "attrs_of ?l = attrs_of ?v" "attrs_of ?r = attrs_of ?v" "attrs_of ?m = (prot, snd (attrs_of ?v))"
    by (simp_all add: attrs_of_def)
  have has: "n_left \<noteq> 0 \<and> vad_has a ?l \<or> n_right \<noteq> 0 \<and> vad_has a ?r \<longleftrightarrow> vad_has a ?v \<and> \<not> (base \<le> a \<and> a < e)"
    "vad_has a ?m \<longleftrightarrow> base \<le> a \<and> a < e"
    using nl nr r by (auto simp: vad_has_def not_le not_less)
  have in_v: "vad_has a ?v" if "base \<le> a" "a < e" using that r by (auto simp: vad_has_def)
  have out: "\<not> vad_has a (?vs ! k)" if "k < length ?vs" "k \<noteq> i" "vad_has a ?v" for k
    using vads_okD(2)[OF ok i that(1)] that(2,3) vad_has_disjoint[of ?v "?vs ! k" a] by blast
  have "vad_map (as_vads (protect_split as i base e n_left n_right prot)) a = Some x \<longleftrightarrow>
      (base \<le> a \<and> a < e \<and> x = (prot, snd (attrs_of ?v))) \<or> (vad_has a ?v \<and> \<not> (base \<le> a \<and> a < e) \<and> attrs_of ?v = x)
      \<or> (\<exists>k<length ?vs. k \<noteq> i \<and> ?Q a x (?vs ! k))"
    unfolding vad_map_Some[OF S(1)] ex_nth_set[of _ "?Q a x"] S(2)[of "?Q a x"] at has(2)[symmetric] using has(1) has(2) by auto
  also have "\<dots> \<longleftrightarrow> prot_map prot base e (vad_map ?vs) a = Some x"
  proof (cases "base \<le> a \<and> a < e")
    case True
    then have "vad_map ?vs a = Some (attrs_of ?v)" unfolding m using in_v by simp
    then show ?thesis using True out in_v by (auto simp: prot_map_def split: prod.splits)
  next
    case False
    then show ?thesis using m[of x] by (auto simp: prot_map_def)
  qed
  finally show "vad_map (as_vads (protect_split as i base e n_left n_right prot)) a = Some x \<longleftrightarrow>
      prot_map prot base e (vad_map ?vs) a = Some x" .
qed

text \<open>A range apart from the one protected lies in one descriptor still.\<close>

lemma split_covers:
  assumes "vads_ok (as_vads as)" "i < length (as_vads as)"
    "v_start (as_vads as ! i) \<le> base" "base < e" "e \<le> v_end (as_vads as ! i)"
    "n_left = 0 \<longleftrightarrow> v_start (as_vads as ! i) = base" "n_right = 0 \<longleftrightarrow> e = v_end (as_vads as ! i)"
    and c: "covers (as_vads as) lo hi" "lo < hi" "hi \<le> base \<or> e \<le> lo"
  shows "covers (as_vads (protect_split as i base e n_left n_right prot)) lo hi"
proof -
  obtain k where k: "k < length (as_vads as)" "v_start (as_vads as ! k) \<le> lo" "hi \<le> v_end (as_vads as ! k)"
    using c(1) unfolding covers_def ex_nth_set[symmetric] by blast
  show ?thesis
  proof (cases "k = i")
    case False
    then show ?thesis unfolding covers_def split_ok(2)[OF assms(1-7)] using k by blast
  next
    case True
    have "n_left \<noteq> 0" if "hi \<le> base" using that k(2) c(2) assms(6) True by auto
    moreover have "n_right \<noteq> 0" if "e \<le> lo" using that k(3) c(2) assms(7) True by auto
    ultimately show ?thesis unfolding covers_def split_ok(2)[OF assms(1-7)] using k True c(3) by auto
  qed
qed

lemma split_trivial:
  "v_start (as_vads as ! i) = base \<Longrightarrow> v_end (as_vads as ! i) = e \<Longrightarrow>
     protect_split as i base e 0 0 prot = as\<lparr>as_vads := (as_vads as)[i := (as_vads as ! i)\<lparr>v_prot := prot\<rparr>]\<rparr>"
  by (cases "as_vads as ! i") (simp add: protect_split_def Let_def)

text \<open>The contained case: refused for want of descriptors, or done.\<close>

lemma protect_contained_ok:
  assumes inv: "prot_inv (as_vads as)" and i: "vad_contains_range as base (base + sz) = Some i"
    and al: "4096 dvd unat base" "4096 dvd unat (base + sz)"
  obtains "protect_contained pm as i base sz prot = (pm, as, STATUS_INSUFFICIENT_RESOURCES)"
  | pm' as' where "protect_contained pm as i base sz prot = (pm', as', STATUS_SUCCESS)" "prot_inv (as_vads as')"
      "vad_map (as_vads as') = prot_map prot base (base + sz) (vad_map (as_vads as))"
      "\<forall>lo hi. covers (as_vads as) lo hi \<longrightarrow> lo < hi \<longrightarrow> hi \<le> base \<or> base + sz \<le> lo \<longrightarrow> covers (as_vads as') lo hi"
proof -
  let ?vs = "as_vads as" let ?v = "?vs ! i" let ?e = "base + sz"
  have ok: "vads_ok ?vs" and al_vs: "\<forall>v \<in> set ?vs. 4096 dvd unat (v_start v) \<and> 4096 dvd unat (v_end v)"
    and sm: "card (dom (vad_map ?vs)) < 2 ^ 44" and len: "length ?vs \<le> MAX_VADS"
    using inv by (simp_all add: prot_inv_def)
  have iv: "i < length ?vs" "v_start ?v \<le> base" "base < ?e" "?e \<le> v_end ?v"
    using i by (auto simp: vad_contains_range_def find_index_Some split: if_splits)
  have v: "?v \<in> set ?vs" using iv(1) by simp
  have sz: "unat (v_end ?v) - unat (v_start ?v) < 2 ^ 44" using vad_size[OF v] sm by linarith
  have be: "unat (v_start ?v) \<le> unat base" "unat base < unat ?e" "unat ?e \<le> unat (v_end ?v)"
    using iv(2-4) by (simp_all only: word_le_nat_alt word_less_nat_alt)
  define nl where "nl = n32 ((base - v_start ?v) div PAGE_SIZE)"
  define nr where "nr = n32 ((v_end ?v - ?e) div PAGE_SIZE)"
  have nl: "nl = 0 \<longleftrightarrow> v_start ?v = base" unfolding nl_def
    by (rule n32_zero[OF iv(2)]) (use v al_vs al be sz in auto)
  have nr: "nr = 0 \<longleftrightarrow> ?e = v_end ?v" unfolding nr_def
    by (rule n32_zero[OF iv(4)]) (use v al_vs al be sz in auto)
  define as1 where "as1 = protect_split as i base ?e nl nr prot"
  note S = split_ok[OF ok iv nl nr, of prot, folded as1_def]
  have m1: "vad_map (as_vads as1) = prot_map prot base ?e (vad_map ?vs)"
    unfolding as1_def by (rule split_map[OF ok iv nl nr])
  have al1: "\<forall>v \<in> set (as_vads as1). 4096 dvd unat (v_start v) \<and> 4096 dvd unat (v_end v)"
  proof -
    have "\<not> (\<exists>v \<in> set (as_vads as1). \<not> (4096 dvd unat (v_start v) \<and> 4096 dvd unat (v_end v)))"
      unfolding S(2) using al_vs v al by auto
    then show ?thesis by blast
  qed
  define as2 where "as2 = vad_coalesce as1"
  note C = vad_coalesce_exact[OF S(1), folded as2_def]
  have cov: "covers (as_vads as2) lo hi" if g: "covers ?vs lo hi" "lo < hi" "hi \<le> base \<or> ?e \<le> lo" for lo hi
  proof -
    obtain v where "v \<in> set (as_vads as1)" "v_start v \<le> lo" "hi \<le> v_end v"
      using split_covers[OF ok iv nl nr g, of prot] unfolding as1_def[symmetric] covers_def by blast
    moreover from this(1) obtain w where "w \<in> set (as_vads as2)" "v_start w \<le> v_start v" "v_end v \<le> v_end w"
      using vad_coalesce_covers[OF S(1)] unfolding as2_def by blast
    ultimately show ?thesis unfolding covers_def by (meson order_trans)
  qed
  have al2: "\<forall>v \<in> set (as_vads as2). 4096 dvd unat (v_start v) \<and> 4096 dvd unat (v_end v)"
    using vad_coalesce_bounds[OF S(1)] al1 unfolding as2_def by metis
  have m2: "vad_map (as_vads as2) = prot_map prot base ?e (vad_map ?vs)" using C m1 by simp
  have inv2: "prot_inv (as_vads as2)" if "length (as_vads as1) \<le> MAX_VADS"
  proof -
    have "card (dom (vad_map (as_vads as2))) < 2 ^ 44" unfolding m2 using sm by simp
    then show ?thesis using C al2 that by (auto simp: prot_inv_def)
  qed
  show ?thesis
  proof (cases "length (as_vads as1) \<le> MAX_VADS")
    case False
    then have "protect_contained pm as i base sz prot = (pm, as, STATUS_INSUFFICIENT_RESOURCES)"
      unfolding S(3) by (simp add: protect_contained_def Let_def nl_def[symmetric] nr_def[symmetric] split: if_splits)
    then show ?thesis by (rule that(1))
  next
    case True
    have "\<exists>pm'. protect_contained pm as i base sz prot = (pm', as2, STATUS_SUCCESS)"
    proof (cases "nl = 0 \<and> nr = 0")
      case t: True
      then have "as\<lparr>as_vads := ?vs[i := ?v\<lparr>v_prot := prot\<rparr>]\<rparr> = as1"
        unfolding as1_def using split_trivial[of as i base ?e prot] nl nr by simp
      then show ?thesis using True t len
        by (simp add: protect_contained_def Let_def nl_def[symmetric] nr_def[symmetric] as2_def)
    next
      case f: False
      then show ?thesis using True unfolding S(3)
        by (auto simp: protect_contained_def Let_def nl_def[symmetric] nr_def[symmetric] as2_def as1_def split: if_splits)
    qed
    then show ?thesis using that(2) inv2[OF True] m2 cov by blast
  qed
qed

section \<open>Runs of descriptors\<close>

lemma align_down_id: "4096 dvd unat x \<Longrightarrow> PAGE_ALIGN_DOWN x = x"
  by (simp add: word_unat_eq_iff unat_PAGE_ALIGN_DOWN)

lemma align_up_id:
  assumes "4096 dvd unat x"
  shows "PAGE_ALIGN_UP x = x"
proof -
  have u: "PAGE_ALIGN_UP x = PAGE_ALIGN_DOWN (x + PAGE_MASK)" by (simp add: PAGE_ALIGN_UP_def PAGE_ALIGN_DOWN_def)
  obtain k where k: "unat x = 4096 * k" using assms by (auto simp: dvd_def)
  have "unat x < 2 ^ 64" using unsigned_less[of x] by simp
  then have "unat x + 4095 < 2 ^ 64" using k by simp
  then have "unat (x + PAGE_MASK) = unat x + 4095" by (simp add: unat_word_ariths)
  then show ?thesis unfolding u by (simp add: word_unat_eq_iff unat_PAGE_ALIGN_DOWN k)
qed

lemma le_pred: "x < y \<Longrightarrow> x \<le> y - 1" for x y :: u64
  by (cases "y = 0") (simp_all add: word_le_nat_alt word_less_nat_alt unat_minus_one)

lemma pred_mono:
  fixes x y z :: u64
  assumes "z < x" "x \<le> y"
  shows "x - 1 \<le> y - 1"
proof -
  have "x \<noteq> 0" "y \<noteq> 0" using assms by auto
  then show ?thesis using assms(2) by (simp add: word_le_nat_alt unat_minus_one)
qed

text \<open>The pieces \<open>clip_loop\<close> makes: non-empty, one after the other, from \<open>cur\<close> to \<open>e\<close>.\<close>

fun chain :: "virt_t \<Rightarrow> (virt_t \<times> u64) list \<Rightarrow> virt_t \<Rightarrow> bool" where
  "chain cur [] e \<longleftrightarrow> cur = e"
| "chain cur ((lo, sz) # ps) e \<longleftrightarrow> lo = cur \<and> cur < cur + sz \<and> chain (cur + sz) ps e"

definition piece_ok :: "vad list \<Rightarrow> virt_t \<times> u64 \<Rightarrow> bool" where
  "piece_ok vs p \<longleftrightarrow> 4096 dvd unat (fst p) \<and> 4096 dvd unat (fst p + snd p) \<and> covers vs (fst p) (fst p + snd p)"

lemma chain_le: "chain cur ps e \<Longrightarrow> cur \<le> e"
  by (induction ps arbitrary: cur) fastforce+

lemma chain_bounds: "chain cur ps e \<Longrightarrow> p \<in> set ps \<Longrightarrow> cur \<le> fst p \<and> fst p < fst p + snd p \<and> fst p + snd p \<le> e"
proof (induction ps arbitrary: cur)
  case (Cons q ps)
  obtain lo sz where q: "q = (lo, sz)" by fastforce
  have "chain (cur + sz) ps e" "lo = cur" "cur < cur + sz" using Cons.prems(1) q by auto
  then show ?case using Cons.IH[of "cur + sz"] Cons.prems(2) chain_le[of "cur + sz" ps e] q by auto
qed simp

lemma clip_loop_chain:
  assumes "clip_loop as cur e n acc = Inr res" "cur \<le> e" "4096 dvd unat cur" "4096 dvd unat e"
    "\<forall>v \<in> set (as_vads as). 4096 dvd unat (v_start v) \<and> 4096 dvd unat (v_end v)"
  shows "\<exists>ps. res = acc @ ps \<and> chain cur ps e \<and> (\<forall>p \<in> set ps. piece_ok (as_vads as) p)"
  using assms
proof (induction as cur e n acc rule: clip_loop.induct)
  case (1 as cur e n acc)
  show ?case
  proof (cases "cur < e")
    case False
    then have "cur = e" using 1(3) by simp
    then have "chain cur [] e" "res = acc @ []" using 1(2) by (simp_all add: clip_loop.simps[of as e e n acc])
    then show ?thesis by fastforce
  next
    case True
    then have n: "n < MAX_VADS" using 1(2) by (simp add: clip_loop.simps[of as cur e n acc] split: if_splits)
    obtain i where i: "vad_lookup as cur = Some i"
      using 1(2) True n by (auto simp: clip_loop.simps[of as cur e n acc] split: option.splits)
    let ?v = "as_vads as ! i"
    define hi where "hi = min (v_end ?v) e"
    have h: "\<not> hi \<le> cur" "clip_loop as hi e (Suc n) (acc @ [(cur, hi - cur)]) = Inr res"
      using 1(2) True n i by (auto simp: clip_loop.simps[of as cur e n acc] hi_def[symmetric] Let_def split: if_splits)
    have v: "?v \<in> set (as_vads as)" "v_start ?v \<le> cur" "hi \<le> v_end ?v" "hi \<le> e"
      using i by (auto simp: vad_lookup_def find_index_Some vad_has_def hi_def)
    have d: "4096 dvd unat hi" using 1(5,6) v(1) by (auto simp: hi_def min_def)
    obtain ps where ps: "res = (acc @ [(cur, hi - cur)]) @ ps" "chain hi ps e" "\<forall>p \<in> set ps. piece_ok (as_vads as) p"
      using 1(1)[OF True n i hi_def h(1) h(2) v(4) d 1(5,6)] by blast
    have "piece_ok (as_vads as) (cur, hi - cur)" using 1(4) d v by (auto simp: piece_ok_def covers_def)
    then show ?thesis using ps h(1) by (intro exI[of _ "(cur, hi - cur) # ps"]) auto
  qed
qed

lemma clip_loop_fail: "clip_loop as cur e n acc = Inl st \<Longrightarrow> st \<noteq> STATUS_SUCCESS"
proof (induction as cur e n acc rule: clip_loop.induct)
  case (1 as cur e n acc)
  show ?case
  proof (cases "cur < e \<and> n < MAX_VADS")
    case True
    then show ?thesis using 1 by (cases "vad_lookup as cur") (auto simp: clip_loop.simps[of as cur e n acc] Let_def split: if_splits)
  qed (use 1(2) in \<open>auto simp: clip_loop.simps[of as cur e n acc] split: if_splits\<close>)
qed

lemma protect_work_Nil [simp]: "protect_work pm as prot [] = Some (pm, as, STATUS_SUCCESS)"
  by (simp add: protect_work.simps)

lemma protect_work_Cons:
  "protect_step pm as prot p = (pm1, as1, r) \<Longrightarrow>
     protect_work pm as prot (p # ps) = (case r of Inl st \<Rightarrow> Some (pm1, as1, st) | Inr js \<Rightarrow> protect_work pm1 as1 prot (js @ ps))"
  by (subst protect_work.simps) (simp split: sum.splits)

lemma protect_step_piece:
  assumes "piece_ok (as_vads as) p" "fst p < fst p + snd p" "fst p + snd p - 1 \<le> USER_CANONICAL_TOP" "prot_legal prot"
  obtains i where "vad_contains_range as (fst p) (fst p + snd p) = Some i"
    "protect_step pm as prot p = (case protect_contained pm as i (fst p) (snd p) prot of
       (pm1, as1, st) \<Rightarrow> (pm1, as1, if NT_SUCCESS st then Inr [] else Inl st))"
proof -
  obtain lo sz where p: "p = (lo, sz)" by fastforce
  have a: "4096 dvd unat lo" "4096 dvd unat (lo + sz)" "covers (as_vads as) lo (lo + sz)"
    using assms(1) by (simp_all add: piece_ok_def p)
  have "unat (lo + sz) = unat lo + unat sz" using order_less_imp_le[OF assms(2)] by (simp add: p unat_plus_simple)
  then have s: "4096 dvd unat sz" using a(1,2) by (metis dvd_add_right_iff)
  have "find_index (\<lambda>v. v_start v \<le> lo \<and> lo + sz \<le> v_end v) (as_vads as) 0 \<noteq> None"
    unfolding find_index_None using a(3) by (auto simp: covers_def)
  then have "vad_contains_range as lo (lo + sz) \<noteq> None" using assms(2) by (simp add: vad_contains_range_def p not_le)
  then obtain i where i: "vad_contains_range as lo (lo + sz) = Some i" by blast
  have z: "sz \<noteq> 0" "\<not> lo + sz < lo" using assms(2) p by auto
  have "lo \<le> USER_CANONICAL_TOP" using le_pred[OF assms(2)] assms(3) p by simp
  then have "\<not> USER_CANONICAL_TOP < lo" "\<not> USER_CANONICAL_TOP < lo + sz - 1" using assms(3) p by (simp_all add: not_less)
  then have "protect_step pm as prot p = (case protect_contained pm as i (fst p) (snd p) prot of
      (pm1, as1, st) \<Rightarrow> (pm1, as1, if NT_SUCCESS st then Inr [] else Inl st))"
    using i z assms(4) align_down_id[OF a(1)] align_up_id[OF s] by (simp add: p protect_step_def Let_def)
  then show ?thesis using that[of i] i by (simp add: p)
qed

lemma chain_in: "chain cur ps e \<Longrightarrow> cur \<le> a \<Longrightarrow> a < e \<Longrightarrow> \<exists>p \<in> set ps. fst p \<le> a \<and> a < fst p + snd p"
proof (induction ps arbitrary: cur)
  case (Cons p ps)
  obtain sz where p: "p = (cur, sz)" "chain (cur + sz) ps e" using Cons.prems(1) by (cases p) auto
  show ?case
  proof (cases "a < cur + sz")
    case True then show ?thesis using p Cons.prems(2) by auto
  next
    case False then show ?thesis using Cons.IH[OF p(2) _ Cons.prems(3)] by auto
  qed
qed auto

lemma protect_work_chain:
  assumes "prot_inv (as_vads as)" "chain cur ps e" "\<forall>p \<in> set ps. piece_ok (as_vads as) p" "e - 1 \<le> USER_CANONICAL_TOP" "prot_legal prot"
  shows "\<exists>pm' as' st. protect_work pm as prot ps = Some (pm', as', st) \<and> prot_inv (as_vads as')
    \<and> (st = STATUS_SUCCESS \<longrightarrow> vad_map (as_vads as') = prot_map prot cur e (vad_map (as_vads as)))"
  using assms
proof (induction ps arbitrary: pm as cur)
  case (Cons p ps)
  obtain sz where p: "p = (cur, sz)" "cur < cur + sz" "chain (cur + sz) ps e" using Cons.prems(2) by (cases p) auto
  have le: "cur + sz \<le> e" by (rule chain_le[OF p(3)])
  then have "cur + sz - 1 \<le> e - 1" by (rule pred_mono[OF p(2)])
  then have top: "cur + sz - 1 \<le> USER_CANONICAL_TOP" using Cons.prems(4) by (rule order_trans)
  have pk: "piece_ok (as_vads as) p" using Cons.prems(3) by simp
  then have al: "4096 dvd unat cur" "4096 dvd unat (cur + sz)" by (simp_all add: piece_ok_def p)
  obtain i where i: "vad_contains_range as cur (cur + sz) = Some i"
    "protect_step pm as prot p = (case protect_contained pm as i cur sz prot of
       (pm1, as1, st) \<Rightarrow> (pm1, as1, if NT_SUCCESS st then Inr [] else Inl st))"
    by (rule protect_step_piece[OF pk, of prot pm]) (use p top Cons.prems(5) in auto)
  show ?case
  proof (rule protect_contained_ok[OF Cons.prems(1) i(1) al, of pm prot])
    assume "protect_contained pm as i cur sz prot = (pm, as, STATUS_INSUFFICIENT_RESOURCES)"
    then have "protect_step pm as prot p = (pm, as, Inl STATUS_INSUFFICIENT_RESOURCES)" using i(2) by (simp add: NT_SUCCESS_def)
    then show ?thesis using Cons.prems(1) by (simp add: protect_work_Cons)
  next
    fix pm1 as1
    assume c: "protect_contained pm as i cur sz prot = (pm1, as1, STATUS_SUCCESS)" "prot_inv (as_vads as1)"
      "vad_map (as_vads as1) = prot_map prot cur (cur + sz) (vad_map (as_vads as))"
      "\<forall>lo hi. covers (as_vads as) lo hi \<longrightarrow> lo < hi \<longrightarrow> hi \<le> cur \<or> cur + sz \<le> lo \<longrightarrow> covers (as_vads as1) lo hi"
    have st: "protect_step pm as prot p = (pm1, as1, Inr [])" using i(2) c(1) by (simp add: NT_SUCCESS_def)
    have pk1: "\<forall>q \<in> set ps. piece_ok (as_vads as1) q"
      using Cons.prems(3) c(4) chain_bounds[OF p(3)] by (auto simp: piece_ok_def)
    have j: "prot_map prot (cur + sz) e (prot_map prot cur (cur + sz) m) = prot_map prot cur e m" for m
      by (rule prot_map_join) (use p(2) le in auto)
    show ?thesis
      using Cons.IH[OF c(2) p(3) pk1 Cons.prems(4,5), of pm1] unfolding c(3) j by (simp add: protect_work_Cons[OF st])
  qed
qed simp

text \<open>C24. On page-aligned, disjoint descriptors that map fewer than \<open>2 ^ 44\<close> bytes, \<open>vmm_protect_user\<close> always returns, with
  descriptors of the same kind.  If it reports success then the protection is a legal one (never writable and executable), every
  address of the page range had been mapped, possibly by several descriptors, and afterwards every address of it has the new protection with its
  old type and commit flag, and no other address has changed.\<close>

theorem vmm_protect_user_refines:
  assumes inv: "prot_inv (as_vads as)"
  shows "\<exists>pm' as' st old. vmm_protect_user pm as base sz prot = Ret (pm', as', st, old) \<and> prot_inv (as_vads as')
    \<and> (st = STATUS_SUCCESS \<longrightarrow> prot_legal prot
         \<and> (\<forall>a. PAGE_ALIGN_DOWN base \<le> a \<and> a < PAGE_ALIGN_DOWN base + PAGE_ALIGN_UP sz \<longrightarrow> vad_map (as_vads as) a \<noteq> None)
         \<and> vad_map (as_vads as') = prot_map prot (PAGE_ALIGN_DOWN base) (PAGE_ALIGN_DOWN base + PAGE_ALIGN_UP sz) (vad_map (as_vads as)))"
proof -
  define b where "b = PAGE_ALIGN_DOWN base"
  define s where "s = PAGE_ALIGN_UP sz"
  note ab = b_def[symmetric] s_def[symmetric]
  have ok: "vads_ok (as_vads as)" and al_vs: "\<forall>v \<in> set (as_vads as). 4096 dvd unat (v_start v) \<and> 4096 dvd unat (v_end v)"
    using inv by (simp_all add: prot_inv_def)
  let ?G = "\<lambda>as' st. prot_inv (as_vads as') \<and> (st = STATUS_SUCCESS \<longrightarrow> prot_legal prot
      \<and> (\<forall>a. b \<le> a \<and> a < b + s \<longrightarrow> vad_map (as_vads as) a \<noteq> None) \<and> vad_map (as_vads as') = prot_map prot b (b + s) (vad_map (as_vads as)))"
  have stop: "\<exists>pm' as' st. protect_work pm as prot [(base, sz)] = Some (pm', as', st) \<and> ?G as' st"
    if "protect_step pm as prot (base, sz) = (pm1, as1, Inl st)" "?G as1 st" for pm1 as1 st
    using protect_work_Cons[OF that(1), of "[]"] that(2) by simp
  have "\<exists>pm' as' st. protect_work pm as prot [(base, sz)] = Some (pm', as', st) \<and> ?G as' st"
  proof (cases "sz = 0 \<or> \<not> prot_legal prot \<or> b > USER_CANONICAL_TOP \<or> b + s < b \<or> (s \<noteq> 0 \<and> b + s - 1 > USER_CANONICAL_TOP)")
    case True
    then have "protect_step pm as prot (base, sz) = (pm, as, Inl (if sz = 0 then STATUS_INVALID_PARAMETER
        else if \<not> prot_legal prot then STATUS_INVALID_PAGE_PROTECTION else STATUS_CONFLICTING_ADDRESSES))"
      unfolding protect_step_def fst_conv snd_conv ab Let_def by auto
    then show ?thesis by (rule stop) (use inv in simp)
  next
    case False
    then have g: "sz \<noteq> 0" "prot_legal prot" "b \<le> USER_CANONICAL_TOP" "b \<le> b + s" "s \<noteq> 0 \<longrightarrow> b + s - 1 \<le> USER_CANONICAL_TOP"
      by auto
    have step: "protect_step pm as prot (base, sz) =
        (case vad_contains_range as b (b + s) of
           Some i \<Rightarrow> (case protect_contained pm as i b s prot of (pm1, as1, st) \<Rightarrow> (pm1, as1, if NT_SUCCESS st then Inr [] else Inl st))
         | None \<Rightarrow> (case vad_run_covers as b (b + s) of
               None \<Rightarrow> (pm, as, Inl STATUS_CONFLICTING_ADDRESSES)
             | Some (first, nclip) \<Rightarrow>
                 if nclip < 2 then (pm, as, Inl STATUS_CONFLICTING_ADDRESSES) else (pm, as, clip_loop as b (b + s) 0 [])))"
      unfolding protect_step_def fst_conv snd_conv ab Let_def using False by (simp only: if_False de_Morgan_disj not_not simp_thms)
    have "unat (b + s) = unat b + unat s" using g(4) by (simp add: unat_plus_simple)
    then have al: "4096 dvd unat b" "4096 dvd unat (b + s)" using align_down_dvd[of base] align_up_dvd[of sz] by (simp_all add: ab)
    show ?thesis
    proof (cases "vad_contains_range as b (b + s)")
      case (Some i)
      then have cv: "covers (as_vads as) b (b + s)"
        unfolding covers_def ex_nth_set[symmetric] by (auto simp: vad_contains_range_def find_index_Some split: if_splits)
      have st: "protect_step pm as prot (base, sz) = (case protect_contained pm as i b s prot of
          (pm1, as1, st) \<Rightarrow> (pm1, as1, if NT_SUCCESS st then Inr [] else Inl st))"
        using Some by (simp add: step)
      show ?thesis
      proof (rule protect_contained_ok[OF inv Some al, of pm prot])
        assume "protect_contained pm as i b s prot = (pm, as, STATUS_INSUFFICIENT_RESOURCES)"
        then have "protect_step pm as prot (base, sz) = (pm, as, Inl STATUS_INSUFFICIENT_RESOURCES)" using st by (simp add: NT_SUCCESS_def)
        then show ?thesis by (rule stop) (use inv in simp)
      next
        fix pm1 as1
        assume c: "protect_contained pm as i b s prot = (pm1, as1, STATUS_SUCCESS)" "prot_inv (as_vads as1)"
          "vad_map (as_vads as1) = prot_map prot b (b + s) (vad_map (as_vads as))"
        have "protect_step pm as prot (base, sz) = (pm1, as1, Inr [])" using st c(1) by (simp add: NT_SUCCESS_def)
        from protect_work_Cons[OF this, of "[]"] show ?thesis using c(2,3) g(2) covers_mapped[OF cv] by simp
      qed
    next
      case None
      show ?thesis
      proof (cases "\<exists>ps. protect_step pm as prot (base, sz) = (pm, as, Inr ps) \<and> clip_loop as b (b + s) 0 [] = Inr ps")
        case True
        then obtain ps where ps: "protect_step pm as prot (base, sz) = (pm, as, Inr ps)" "clip_loop as b (b + s) 0 [] = Inr ps" by blast
        have ch: "chain b ps (b + s)" "\<forall>p \<in> set ps. piece_ok (as_vads as) p"
          using clip_loop_chain[OF ps(2) g(4) al al_vs] by auto
        have mp: "vad_map (as_vads as) a \<noteq> None" if "b \<le> a" "a < b + s" for a
          using chain_in[OF ch(1) that] ch(2) covers_mapped unfolding piece_ok_def by blast
        have "s \<noteq> 0" using ps(1) None by (auto simp: step vad_run_covers_def split: option.splits)
        then have top: "b + s - 1 \<le> USER_CANONICAL_TOP" using g(5) by simp
        have w: "protect_work pm as prot [(base, sz)] = protect_work pm as prot ps" using protect_work_Cons[OF ps(1), of "[]"] by simp
        show ?thesis using protect_work_chain[OF inv ch top g(2), of pm] mp g(2) unfolding w by blast
      next
        case False
        have "\<exists>st. protect_step pm as prot (base, sz) = (pm, as, Inl st) \<and> st \<noteq> STATUS_SUCCESS"
          using None False clip_loop_fail[of as b "b + s" 0 "[]"]
          by (cases "clip_loop as b (b + s) 0 []") (auto simp: step split: option.splits)
        then show ?thesis using stop inv by blast
      qed
    qed
  qed
  then show ?thesis unfolding ab by (auto simp: vmm_protect_user_def)
qed

text \<open>Two pages of different protection made read-only by one call.\<close>

theorem vmm_protect_user_refines_witness:
  "\<exists>pm' as' st old. vmm_protect_user demo_pmm (demo_aspace [demo_vad 0x10000000 0x10001000, (demo_vad 0x10001000 0x10002000)\<lparr>v_prot := PAGE_EXECUTE_READ\<rparr>])
       0x10000000 0x2000 PAGE_READONLY = Ret (pm', as', st, old) \<and> prot_inv (as_vads as')"
proof -
  let ?vs = "[demo_vad 0x10000000 0x10001000, (demo_vad 0x10001000 0x10002000)\<lparr>v_prot := PAGE_EXECUTE_READ\<rparr>]"
  have "dom (vad_map ?vs) \<subseteq> {0x10000000..<0x10002000}"
    by (auto simp: vad_map_def vad_has_def demo_vad_def word_le_nat_alt word_less_nat_alt split: if_splits)
  then have "card (dom (vad_map ?vs)) \<le> 0x2000"
    using card_mono[of "{0x10000000..<0x10002000 :: u64}" "dom (vad_map ?vs)"] by (simp add: card_word_range)
  then have "prot_inv ?vs"
    by (simp add: prot_inv_def vads_ok_def All_less_Suc2 vad_disjoint_def demo_vad_def)
  then have "prot_inv (as_vads (demo_aspace ?vs))" by (simp add: demo_aspace_def)
  from vmm_protect_user_refines[OF this] show ?thesis by blast
qed

section \<open>Descriptors that are not page-aligned\<close>

text \<open>
  \<open>vmm_alloc_user\<close> takes the base address as it is given, so that descriptors need not start at a page boundary.
  The piece of such a descriptor is rounded outwards when it is protected, and falls into the same two pieces again.
\<close>

definition odd_aspace :: aspace where
  "odd_aspace = demo_aspace [demo_vad 0x10001800 0x10002800, demo_vad 0x10002800 0x10003800]"

lemma odd_step:
  "protect_step pm odd_aspace PAGE_READONLY (0x10002000, 0x1000) = (pm, odd_aspace, Inr [(0x10002000, 0x800), (0x10002800, 0x800)])"
  "protect_step pm odd_aspace PAGE_READONLY (0x10002000, 0x800) = (pm, odd_aspace, Inr [(0x10002000, 0x800), (0x10002800, 0x800)])"
  by (simp_all add: protect_step_def Let_def prot_legal_def PAGE_ALIGN_DOWN_def PAGE_ALIGN_UP_def odd_aspace_def demo_aspace_def
      demo_vad_def vad_contains_range_def vad_run_covers_def vad_lookup_def vad_has_def run_loop.simps clip_loop.simps min_def)

lemma odd_diverges: "protect_work pm odd_aspace PAGE_READONLY ((0x10002000, 0x800) # ps) = None"
proof (rule ccontr)
  assume "protect_work pm odd_aspace PAGE_READONLY ((0x10002000, 0x800) # ps) \<noteq> None"
  then obtain r where r: "protect_work pm odd_aspace PAGE_READONLY ((0x10002000, 0x800) # ps) = Some r" by blast
  have "\<not> (odd_aspace = odd_aspace \<and> PAGE_READONLY = PAGE_READONLY \<and> (\<exists>qs. (0x10002000, 0x800) # ps = (0x10002000, 0x800) # qs))"
  proof (rule protect_work.raw_induct[of "\<lambda>pm as prot work r. \<not> (as = odd_aspace \<and> prot = PAGE_READONLY \<and> (\<exists>qs. work = (0x10002000, 0x800) # qs))", OF _ r])
    fix pw pm as prot work y
    assume IH: "\<And>pm as prot work y. pw pm as prot work = Some y \<Longrightarrow>
        \<not> (as = odd_aspace \<and> prot = PAGE_READONLY \<and> (\<exists>qs. work = (0x10002000, 0x800) # qs))"
      and e: "(if work = [] then Some (pm, as, STATUS_SUCCESS)
        else let (pm1, as1, r) = protect_step pm as prot (hd work)
             in if isl r then Some (pm1, as1, projl r) else pw pm1 as1 prot (projr r @ tl work)) = Some y"
    show "\<not> (as = odd_aspace \<and> prot = PAGE_READONLY \<and> (\<exists>qs. work = (0x10002000, 0x800) # qs))"
    proof
      assume "as = odd_aspace \<and> prot = PAGE_READONLY \<and> (\<exists>qs. work = (0x10002000, 0x800) # qs)"
      then obtain qs where q: "as = odd_aspace" "prot = PAGE_READONLY" "work = (0x10002000, 0x800) # qs" by blast
      then have "pw pm odd_aspace PAGE_READONLY ((0x10002000, 0x800) # (0x10002800, 0x800) # qs) = Some y" using e by (simp add: odd_step(2))
      from IH[OF this] show False by blast
    qed
  qed
  then show False by blast
qed


section \<open>Probing\<close>

definition allows :: "bool \<Rightarrow> u32 \<Rightarrow> bool" where
  "allows write prot = (if write then prot_writable prot else prot_readable prot)"

definition may_access :: "vad list \<Rightarrow> bool \<Rightarrow> virt_t \<Rightarrow> bool" where
  "may_access vs write a = (case vad_map vs a of None \<Rightarrow> False | Some x \<Rightarrow> allows write (fst x))"

lemma vad_lookup_find: "find P vs = map_option (\<lambda>i. vs ! (i - k)) (find_index P vs k)"
proof (induction vs arbitrary: k)
  case (Cons v vs)
  have "(v # vs) ! (i - k) = vs ! (i - Suc k)" if "find_index P vs (Suc k) = Some i" for i
    using that by (simp add: find_index_Some nth_Cons')
  then show ?case using Cons.IH[of "Suc k"] by (auto intro!: map_option_cong)
qed simp

lemma page_ok_may_access: "page_ok as write a = may_access (as_vads as) write a"
  using vad_lookup_find[of "vad_has a" "as_vads as" 0]
  by (auto simp: page_ok_def may_access_def vad_map_def vad_lookup_def attrs_of_def allows_def Let_def split: option.splits)

lemma vad_has_page:
  assumes "4096 dvd unat (v_start v)" "4096 dvd unat (v_end v)"
  shows "vad_has (PAGE_ALIGN_DOWN a) v = vad_has a v"
proof -
  obtain k l where k: "unat (v_start v) = 4096 * k" "unat (v_end v) = 4096 * l" using assms by (auto simp: dvd_def)
  have "k \<le> unat a div 4096 \<longleftrightarrow> k * 4096 \<le> unat a" by (rule less_eq_div_iff_mult_less_eq) simp
  moreover have "unat a div 4096 < l \<longleftrightarrow> unat a < l * 4096" by (rule div_less_iff_less_mult) simp
  ultimately have "4096 * k \<le> unat a div 4096 * 4096 \<longleftrightarrow> 4096 * k \<le> unat a" "unat a div 4096 * 4096 < 4096 * l \<longleftrightarrow> unat a < 4096 * l"
    by auto
  then show ?thesis by (simp add: vad_has_def word_le_nat_alt word_less_nat_alt unat_PAGE_ALIGN_DOWN k)
qed

lemma may_access_page:
  assumes "prot_inv vs"
  shows "may_access vs write (PAGE_ALIGN_DOWN a) = may_access vs write a"
proof -
  have "find (vad_has (PAGE_ALIGN_DOWN a)) vs = find (vad_has a) vs"
    by (rule find_cong) (use assms in \<open>auto simp: prot_inv_def vad_has_page\<close>)
  then show ?thesis by (simp add: may_access_def vad_map_def)
qed

lemma probe_loop_iff:
  "4096 dvd p \<Longrightarrow> probe_loop as w p e \<longleftrightarrow> (\<forall>q. p \<le> q \<and> q < e \<and> 4096 dvd q \<longrightarrow> page_ok as w (of_nat q))"
proof (induction as w p e rule: probe_loop.induct)
  case (1 as w p e)
  show ?case
  proof (cases "p < e")
    case True
    have nx: "p + 4096 \<le> q" if "p \<le> q" "4096 dvd q" "q \<noteq> p" for q
      using dvd_imp_le[OF dvd_diff_nat[OF that(2) 1(2)]] that(1,3) by linarith
    have "(p \<le> q \<and> q < e \<and> 4096 dvd q) \<longleftrightarrow> q = p \<or> (p + 4096 \<le> q \<and> q < e \<and> 4096 dvd q)" for q
      using True 1(2) nx[of q] by auto
    then show ?thesis using 1 True by (auto simp: probe_loop.simps[of as w p e])
  qed (auto simp: probe_loop.simps[of as w p e])
qed



end
