(* ===== verification/Elf_Correct.thy ===== *)
theory Elf_Correct
  imports Elf Protect_Correct Frames
begin

text \<open>
  What a successful \<open>elf_load\<close> leaves in the address space of the process: one descriptor for each
  loadable segment, in user space, with the protection the segment asks for, never writable and
  executable at once.
\<close>

definition prot_executable :: "u32 \<Rightarrow> bool" where
  "prot_executable prot \<longleftrightarrow> prot AND (PAGE_EXECUTE OR PAGE_EXECUTE_READ OR PAGE_EXECUTE_READWRITE) \<noteq> 0"

definition elf_phdrs :: "u8 list \<Rightarrow> elf64_phdr list" where
  "elf_phdrs img = map (\<lambda>i. phdr_at img (unat (e_phoff (ehdr_at img)) + 56 * i)) [0..<unat (e_phnum (ehdr_at img))]"

definition elf_loads :: "elf64_phdr list \<Rightarrow> elf64_phdr list" where
  "elf_loads phs = filter (\<lambda>ph. p_type ph = PT_LOAD) phs"

abbreviation proc_vads :: "kst \<Rightarrow> u64 \<Rightarrow> vad list" where
  "proc_vads s p \<equiv> as_vads (pr_aspace (k_proc s p))"

text \<open>The descriptor made for a segment.  A segment in page zero is placed by the allocator.\<close>

definition seg_placed :: "elf64_phdr \<Rightarrow> vad \<Rightarrow> bool" where
  "seg_placed ph w \<longleftrightarrow> v_prot w = seg_prot (p_flags ph) \<and> v_end w - 1 \<le> USER_CANONICAL_TOP
     \<and> (PAGE_ALIGN_DOWN (p_vaddr ph) \<noteq> 0 \<longrightarrow>
          v_start w = PAGE_ALIGN_DOWN (p_vaddr ph) \<and> v_end w = PAGE_ALIGN_UP (p_vaddr ph + p_memsz ph))"

lemma alloc_status: "vmm_alloc_user h as base sz prot typ = Ret (h', as', va, st) \<Longrightarrow> NT_SUCCESS st \<Longrightarrow> st = STATUS_SUCCESS"
  by (auto simp: vmm_alloc_user_def Let_def NT_SUCCESS_def split: if_splits)

lemma sub_aligned:
  assumes "4096 dvd unat a" "4096 dvd unat b"
  shows "4096 dvd unat (a - b :: u64)"
proof -
  have u: "4096 dvd unat x \<longleftrightarrow> 4096 dvd uint x" for x :: u64
    using int_dvd_int_iff[of 4096 "unat x"] by simp
  have "uint (a - b) = (uint a - uint b) mod 2 ^ 64" using uint_word_ariths(2)[of a b] by simp
  moreover have "(4096 :: int) dvd 2 ^ 64" by simp
  ultimately show ?thesis using assms unfolding u by (simp add: dvd_mod)
qed

lemma load_segment_vads:
  assumes ok: "vads_ok (proc_vads s p)" and ld: "load_segment p img ph s = Ret (s', st)" "NT_SUCCESS st"
  obtains w where "proc_vads s' p = proc_vads s p @ [w]" "seg_placed ph w" "vads_ok (proc_vads s' p)"
proof -
  define va where "va = PAGE_ALIGN_DOWN (p_vaddr ph)"
  define sz where "sz = PAGE_ALIGN_UP (p_vaddr ph + p_memsz ph) - va"
  obtain h as base st1 where al: "vmm_alloc_user (k_heap s) (pr_aspace (k_proc s p)) va sz (seg_prot (p_flags ph)) MEM_COMMIT = Ret (h, as, base, st1)"
    using ld(1) by (cases "vmm_alloc_user (k_heap s) (pr_aspace (k_proc s p)) va sz (seg_prot (p_flags ph)) MEM_COMMIT")
      (auto simp: load_segment_def Let_def va_def[symmetric] sz_def[symmetric])
  note L = ld(1)[unfolded load_segment_def Let_def, folded va_def, folded sz_def, unfolded al bind_outcome.simps prod.case]
  have st1: "NT_SUCCESS st1" using L ld(2) by (auto split: if_splits)
  have vs: "proc_vads s' p = as_vads as" using L st1
    by (auto simp: k_set_aspace_def k_set_pmm_def upd_proc_def split: if_splits)
  have ok1: "vmm_alloc_user (k_heap s) (pr_aspace (k_proc s p)) va sz (seg_prot (p_flags ph)) MEM_COMMIT = Ret (h, as, base, STATUS_SUCCESS)"
    using al alloc_status[OF al st1] by simp
  have d: "4096 dvd unat sz" unfolding sz_def va_def by (rule sub_aligned[OF align_up_dvd align_down_dvd])
  then obtain k where k: "unat sz = 4096 * k" by (auto simp: dvd_def)
  have "unat sz < 2 ^ 64" using unsigned_less[of sz] by simp
  then have small: "unat sz + unat PAGE_MASK < 2 ^ 64" using k by simp
  note X = vmm_alloc_user_exact[OF ok ok1 small] vmm_alloc_user_success(2,3)[OF ok1]
  have top: "base + sz - 1 \<le> USER_CANONICAL_TOP" using X(1) unfolding align_up_id[OF d] by blast
  have end_: "va + sz = PAGE_ALIGN_UP (p_vaddr ph + p_memsz ph)" by (simp add: sz_def)
  show ?thesis
  proof (rule that)
    show "proc_vads s' p = proc_vads s p @ [\<lparr>v_start = base, v_end = base + sz, v_prot = seg_prot (p_flags ph), v_type = MEM_COMMIT, v_committed = 1\<rparr>]"
      unfolding vs X(3) align_up_id[OF d] ..
    show "vads_ok (proc_vads s' p)" unfolding vs using X(1) by blast
    show "seg_placed ph \<lparr>v_start = base, v_end = base + sz, v_prot = seg_prot (p_flags ph), v_type = MEM_COMMIT, v_committed = 1\<rparr>"
      using top end_ X(2) by (simp add: seg_placed_def va_def[symmetric])
  qed
qed

lemma load_segments_vads:
  assumes "vads_ok (proc_vads s p)" "load_segments p img phs s = Ret (s', st)" "NT_SUCCESS st"
  shows "vads_ok (proc_vads s' p) \<and> (\<exists>ws. proc_vads s' p = proc_vads s p @ ws \<and> list_all2 seg_placed (elf_loads phs) ws)"
  using assms
proof (induction phs arbitrary: s)
  case Nil
  then show ?case by (simp add: elf_loads_def)
next
  case (Cons ph phs)
  show ?case
  proof (cases "p_type ph = PT_LOAD")
    case False
    then show ?thesis using Cons by (simp add: elf_loads_def)
  next
    case True
    obtain s1 st1 where l: "load_segment p img ph s = Ret (s1, st1)"
      using Cons.prems(2) True by (cases "load_segment p img ph s") auto
    then have st1: "NT_SUCCESS st1" and r: "load_segments p img phs s1 = Ret (s', st)"
      using Cons.prems(2,3) True by (auto split: if_splits)
    obtain w where w: "proc_vads s1 p = proc_vads s p @ [w]" "seg_placed ph w" "vads_ok (proc_vads s1 p)"
      by (rule load_segment_vads[OF Cons.prems(1) l st1])
    obtain ws where ws: "proc_vads s' p = proc_vads s1 p @ ws" "list_all2 seg_placed (elf_loads phs) ws" "vads_ok (proc_vads s' p)"
      using Cons.IH[OF w(3) r Cons.prems(3)] by blast
    have "list_all2 seg_placed (elf_loads (ph # phs)) (w # ws)" using w(2) ws(2) True by (simp add: elf_loads_def)
    then show ?thesis using w(1) ws(1,3) by auto
  qed
qed

lemma check_phdrs_ok: "check_phdrs phs len = st \<Longrightarrow> NT_SUCCESS st \<Longrightarrow> \<forall>ph \<in> set phs. NT_SUCCESS (check_phdr ph len)"
  by (induction phs) (auto split: if_splits)

lemma and_1_or_2:
  fixes f :: u32
  shows "f AND 1 = (if bit f 0 then 1 else 0)" "f AND 2 = (if bit f 1 then 2 else 0)" "f AND 3 = (f AND 1) OR (f AND 2)"
proof -
  show "f AND 1 = (if bit f 0 then 1 else 0)" by (rule bit_eqI) (auto simp: bit_and_iff bit_1_iff intro: Suc_leI gr0I)
  show "f AND 2 = (if bit f 1 then 2 else 0)" by (rule bit_eqI) (auto simp: bit_and_iff bit_2_iff)
  have "f AND (1 OR 2) = (f AND 1) OR (f AND 2)" by (rule bit.conj_disj_distrib)
  then show "f AND 3 = (f AND 1) OR (f AND 2)" by simp
qed

text \<open>The protection of an accepted segment is the one its flags ask for.\<close>

lemma check_phdr_prot:
  assumes "NT_SUCCESS (check_phdr ph len)" "p_type ph = PT_LOAD"
  shows "\<not> (p_flags ph AND PF_W \<noteq> 0 \<and> p_flags ph AND PF_X \<noteq> 0)"
    "prot_writable (seg_prot (p_flags ph)) \<longleftrightarrow> p_flags ph AND PF_W \<noteq> 0"
    "prot_executable (seg_prot (p_flags ph)) \<longleftrightarrow> p_flags ph AND PF_X \<noteq> 0"
    "p_vaddr ph \<le> USER_CANONICAL_TOP"
  using assms by (auto simp: check_phdr_def NT_SUCCESS_def seg_prot_def prot_writable_def prot_executable_def and_1_or_2 split: if_splits)

text \<open>C25. A successful \<open>elf_load\<close> returns an entry point in user space and adds to the descriptors of the process, which stay disjoint,
  exactly one for each loadable segment of the image, in order: in user space, over the pages of the segment, writable exactly when the
  segment is flagged writable and executable exactly when it is flagged executable, and no segment is both.\<close>

theorem elf_load_safe:
  assumes "vads_ok (proc_vads s p)" "elf_load p img s = Ret (s', STATUS_SUCCESS, entry)"
  shows "entry = e_entry (ehdr_at img) \<and> entry \<le> USER_CANONICAL_TOP \<and> vads_ok (proc_vads s' p)
    \<and> (\<exists>ws. proc_vads s' p = proc_vads s p @ ws \<and> list_all2 seg_placed (elf_loads (elf_phdrs img)) ws)
    \<and> (\<forall>ph \<in> set (elf_loads (elf_phdrs img)).
         (prot_writable (seg_prot (p_flags ph)) \<longleftrightarrow> p_flags ph AND PF_W \<noteq> 0)
         \<and> (prot_executable (seg_prot (p_flags ph)) \<longleftrightarrow> p_flags ph AND PF_X \<noteq> 0)
         \<and> \<not> (p_flags ph AND PF_W \<noteq> 0 \<and> p_flags ph AND PF_X \<noteq> 0) \<and> p_vaddr ph \<le> USER_CANONICAL_TOP)"
proof -
  let ?eh = "ehdr_at img" let ?len = "of_nat (length img) :: u64"
  have S0: "NT_SUCCESS STATUS_SUCCESS" by (simp add: NT_SUCCESS_def)
  have E: "NT_SUCCESS (check_ehdr ?eh ?len)" "NT_SUCCESS (check_phdrs (elf_phdrs img) ?len)"
    "\<exists>s1 st3. load_segments p img (elf_phdrs img) s = Ret (s1, st3) \<and> s1 = s' \<and> st3 = STATUS_SUCCESS \<and> entry = e_entry ?eh"
    using assms(2) by (auto simp: elf_load_def Let_def elf_phdrs_def NT_SUCCESS_def split: if_splits)
  have "entry \<le> USER_CANONICAL_TOP" using E(1,3) by (auto simp: check_ehdr_def NT_SUCCESS_def split: if_splits)
  moreover have "\<forall>ph \<in> set (elf_loads (elf_phdrs img)). NT_SUCCESS (check_phdr ph ?len) \<and> p_type ph = PT_LOAD"
    using check_phdrs_ok[OF refl E(2)] by (simp add: elf_loads_def)
  ultimately show ?thesis
    using E(3) load_segments_vads[OF assms(1) _ S0, of img "elf_phdrs img" s'] check_phdr_prot by blast
qed

text \<open>An image with one executable segment of a page of zeros.\<close>

definition demo_elf :: "u8 list" where
  "demo_elf =
     [0x7f, 0x45, 0x4c, 0x46, 2, 1, 1, 0, 0, 0, 0, 0, 0, 0, 0, 0, 2, 0, 0x3e, 0, 1, 0, 0, 0,
      0, 0, 0x40, 0, 0, 0, 0, 0, 0x40, 0, 0, 0, 0, 0, 0, 0, 0, 0, 0, 0, 0, 0, 0, 0,
      0, 0, 0, 0, 0x40, 0, 0x38, 0, 1, 0, 0, 0, 0, 0, 0, 0, 1, 0, 0, 0, 5, 0, 0, 0,
      0, 0, 0, 0, 0, 0, 0, 0, 0, 0, 0x40, 0, 0, 0, 0, 0, 0, 0, 0, 0, 0, 0, 0, 0,
      0, 0, 0, 0, 0, 0, 0, 0, 0, 0x10, 0, 0, 0, 0, 0, 0, 0, 0, 0, 0, 0, 0, 0, 0]"

definition demo_loader :: kst where
  "demo_loader = zero_kst\<lparr>k_heap := demo_tables, k_proc := (\<lambda>_. zero_process\<lparr>pr_aspace := demo_aspace []\<rparr>)\<rparr>"

lemma demo_elf_ehdr:
  "ehdr_at demo_elf = \<lparr>e_ident = [0x7F, 0x45, 0x4C, 0x46, 2, 1, 1, 0, 0, 0, 0, 0, 0, 0, 0, 0], e_type = 2, e_machine = 62,
     e_entry = 0x400000, e_phoff = 64, e_phentsize = 56, e_phnum = 1\<rparr>"
  by (simp add: ehdr_at_def field_def demo_elf_def)

lemma demo_elf_phdr:
  "phdr_at demo_elf 64 = \<lparr>p_type = PT_LOAD, p_flags = 5, p_offset = 0, p_vaddr = 0x400000, p_filesz = 0, p_memsz = 0x1000\<rparr>"
  by (simp add: phdr_at_def field_def demo_elf_def)

lemma demo_elf_length: "length demo_elf = 120"
  by (simp add: demo_elf_def)

lemma demo_elf_phdrs: "elf_phdrs demo_elf = [phdr_at demo_elf 64]"
  by (simp add: elf_phdrs_def demo_elf_ehdr)

lemma demo_loader_alloc:
  "\<exists>h as. vmm_alloc_user demo_tables (demo_aspace []) 0x400000 0x1000 PAGE_EXECUTE_READ MEM_COMMIT = Ret (h, as, 0x400000, STATUS_SUCCESS)"
proof -
  have p: "pte_get (h_pmm demo_tables) 0x1010 = 0x1007" by (simp add: pte_get_def rd64_def demo_tables_def le_bytes_8)
  then have w: "walk (h_pmm demo_tables) 0x1000 0x400000 = Some 0x1000"
    by (simp add: walk_def walk_alloc_def walk_step_def pt_slot_def pt_index_def table_user_def demo_tables_pte Let_def)
  have "commit_loop 1 (h_pmm demo_tables) 0x1000 0x400000 = Ret (h_pmm demo_tables, True)"
    by (simp add: vmm_ensure_leaf_def w demo_tables_pte Let_def NT_SUCCESS_def)
  then show ?thesis
    by (simp add: vmm_alloc_user_def demo_aspace_def Let_def PAGE_ALIGN_UP_def vad_append_def del: commit_loop.simps)
qed

theorem elf_load_safe_witness:
  "\<exists>s' w. elf_load 8 demo_elf demo_loader = Ret (s', STATUS_SUCCESS, 0x400000) \<and> proc_vads s' 8 = [w]
     \<and> v_start w = 0x400000 \<and> v_end w = 0x401000 \<and> v_prot w = PAGE_EXECUTE_READ"
proof -
  obtain h as where a: "vmm_alloc_user demo_tables (demo_aspace []) 0x400000 0x1000 PAGE_EXECUTE_READ MEM_COMMIT = Ret (h, as, 0x400000, STATUS_SUCCESS)"
    using demo_loader_alloc by blast
  define s' where "s' = k_set_aspace 8 h as demo_loader"
  have "k_heap demo_loader = demo_tables" "pr_aspace (k_proc demo_loader 8) = demo_aspace []" by (simp_all add: demo_loader_def)
  then have "load_segment 8 demo_elf (phdr_at demo_elf 64) demo_loader = Ret (s', STATUS_SUCCESS)"
    using a by (simp add: load_segment_def demo_elf_phdr Let_def PAGE_ALIGN_DOWN_def PAGE_ALIGN_UP_def seg_prot_def NT_SUCCESS_def s'_def)
  then have l: "load_segments 8 demo_elf [phdr_at demo_elf 64] demo_loader = Ret (s', STATUS_SUCCESS)"
    by (simp add: demo_elf_phdr NT_SUCCESS_def)
  have r: "elf_load 8 demo_elf demo_loader = Ret (s', STATUS_SUCCESS, 0x400000)"
    using l unfolding elf_load_def Let_def elf_phdrs_def[symmetric] demo_elf_phdrs
    by (simp add: demo_elf_ehdr demo_elf_phdr demo_elf_length check_ehdr_def check_phdr_def NT_SUCCESS_def)
  have "vads_ok (proc_vads demo_loader 8)" by (simp add: demo_loader_def demo_aspace_def vads_ok_def)
  from elf_load_safe[OF this r] obtain ws where
    "proc_vads s' 8 = ws" "list_all2 seg_placed [phdr_at demo_elf 64] ws"
    by (auto simp: demo_elf_phdrs elf_loads_def demo_elf_phdr demo_loader_def demo_aspace_def)
  then show ?thesis
    using r by (auto simp: list_all2_Cons1 seg_placed_def demo_elf_phdr PAGE_ALIGN_DOWN_def PAGE_ALIGN_UP_def seg_prot_def)
qed

end
