(* ===== verification/Vfs_Correct.thy ===== *)
theory Vfs_Correct
  imports Vfs Frames
begin

text \<open>
  Path normalisation yields a normal form, and what is written to a file is what is read back.
\<close>

section \<open>Paths\<close>

definition plain_part :: "string \<Rightarrow> bool" where
  "plain_part p \<longleftrightarrow> p \<noteq> [] \<and> p \<noteq> ''.'' \<and> p \<noteq> ''..'' \<and> SLASH \<notin> set p"

lemma norm_loop_plain:
  assumes "norm_loop p parts = Some res" "list_all plain_part parts" "length parts \<le> PATH_DEPTH_MAX"
  shows "list_all plain_part res \<and> length res \<le> PATH_DEPTH_MAX"
  using assms
proof (induction p parts rule: norm_loop.induct)
  case (1 p parts)
  let ?start = "takeWhile (\<lambda>c. c \<noteq> SLASH) p" let ?rest = "drop (Suc (length ?start)) p"
  show ?case
  proof (cases "p = []")
    case True
    then show ?thesis using 1(4-6) by (simp add: norm_loop.simps[of "[]" parts])
  next
    case False
    consider (skip) "?start = [] \<or> ?start = ''.''" | (up) "?start = ''..''" | (add) "plain_part ?start"
      using set_takeWhileD[of SLASH "\<lambda>c. c \<noteq> SLASH" p] by (auto simp: plain_part_def)
    then show ?thesis
    proof cases
      case skip
      then have "norm_loop ?rest parts = Some res" using 1(4) False by (simp add: norm_loop.simps[of p parts] Let_def)
      then show ?thesis using 1(1)[OF False refl refl skip] 1(5,6) by simp
    next
      case up
      then have "norm_loop ?rest (butlast parts) = Some res" using 1(4) False by (simp add: norm_loop.simps[of p parts] Let_def)
      moreover have "list_all plain_part (butlast parts)" using 1(5) by (auto simp: list_all_iff dest: in_set_butlastD)
      ultimately show ?thesis using 1(2)[OF False refl refl _ up] up 1(6) by simp
    next
      case add
      then have ne: "\<not> (?start = [] \<or> ?start = ''.'')" "?start \<noteq> ''..''" by (auto simp: plain_part_def)
      have d: "\<not> PATH_DEPTH_MAX \<le> length parts" and r: "norm_loop ?rest (parts @ [?start]) = Some res"
        using 1(4) False ne by (auto simp: norm_loop.simps[of p parts] Let_def split: if_splits)
      show ?thesis using 1(3)[OF False refl refl ne d r] 1(5) add d by simp
    qed
  qed
qed

lemma norm_loop_join:
  assumes "list_all plain_part ps" "length acc + length ps \<le> PATH_DEPTH_MAX"
  shows "norm_loop (join_parts ps) acc = Some (acc @ ps)"
  using assms
proof (induction ps arbitrary: acc rule: join_parts.induct)
  case 1
  then show ?case by (simp add: norm_loop.simps)
next
  case (2 p)
  then have p: "plain_part p" by simp
  then have t: "takeWhile (\<lambda>c. c \<noteq> SLASH) p = p" by (auto simp: plain_part_def takeWhile_eq_all_conv)
  show ?case using p 2 by (simp add: norm_loop.simps[of p acc] norm_loop.simps[of "[]"] t plain_part_def Let_def)
next
  case (3 p q ps)
  then have p: "plain_part p" by simp
  have t: "takeWhile (\<lambda>c. c \<noteq> SLASH) (p @ SLASH # join_parts (q # ps)) = p"
    using p by (auto simp: plain_part_def takeWhile_append takeWhile_eq_all_conv)
  show ?case
    using 3 p by (simp add: norm_loop.simps[of "p @ SLASH # join_parts (q # ps)" acc] t plain_part_def Let_def)
qed



section \<open>Files\<close>

text \<open>The contents of a regular file, and the shape its vnode keeps.\<close>

definition file_bytes :: "vnode \<Rightarrow> u8 list" where
  "file_bytes vn = take (unat (vn_size vn)) (vn_bytes vn)"

definition file_ok :: "vnode \<Rightarrow> bool" where
  "file_ok vn \<longleftrightarrow> vn_kind vn = VNODE_FILE \<and> unat (vn_size vn) \<le> length (vn_bytes vn) \<and> (vn_data vn = 0 \<longrightarrow> vn_size vn = 0)"

lemma vn_reserve_keeps:
  assumes "vn_reserve v need s = Ret (s', Some r)" "file_ok (k_vnode s v)"
  shows "file_bytes (k_vnode s' v) = file_bytes (k_vnode s v)" "vn_size (k_vnode s' v) = vn_size (k_vnode s v)"
    "vn_kind (k_vnode s' v) = VNODE_FILE" "k_file s' = k_file s" "\<And>w. w \<noteq> v \<Longrightarrow> k_vnode s' w = k_vnode s w"
proof -
  have k: "k_alloc s c = Ret (s1, nd) \<Longrightarrow> k_vnode s1 = k_vnode s \<and> k_file s1 = k_file s" for c s1 nd
    by (cases "kalloc (k_heap s) c") (auto simp: k_alloc_def)
  have "file_bytes (k_vnode s' v) = file_bytes (k_vnode s v) \<and> vn_size (k_vnode s' v) = vn_size (k_vnode s v)
      \<and> vn_kind (k_vnode s' v) = VNODE_FILE \<and> k_file s' = k_file s \<and> (\<forall>w. w \<noteq> v \<longrightarrow> k_vnode s' w = k_vnode s w)"
  proof (cases "need > vn_cap (k_vnode s v)")
    case False
    then have "s' = s" using assms(1) by (simp add: vn_reserve_def)
    then show ?thesis using assms(2) by (simp add: file_ok_def)
  next
    case True
    let ?c = "grow_cap need (vn_cap (k_vnode s v))"
    obtain s1 nd where a: "k_alloc s ?c = Ret (s1, nd)"
      using assms(1) True by (cases "k_alloc s ?c") (auto simp: vn_reserve_def Let_def)
    have nd: "nd \<noteq> 0" using assms(1) True by (auto simp: vn_reserve_def Let_def a)
    define old where "old = (if vn_data (k_vnode s1 v) \<noteq> 0 then take (unat (vn_size (k_vnode s1 v))) (vn_bytes (k_vnode s1 v)) else [])"
    have "s' = upd_vnode v (\<lambda>x. x\<lparr>vn_data := nd, vn_cap := ?c, vn_bytes := old @ drop (length old) (fresh_bytes s1 nd ?c)\<rparr>) s1"
      using assms(1) True nd unfolding vn_reserve_def Let_def a bind_outcome.simps prod.case old_def[symmetric] by simp
    moreover have "k_vnode s1 = k_vnode s" "k_file s1 = k_file s" using k[OF a] by simp_all
    ultimately show ?thesis using assms(2) by (auto simp: upd_vnode_def file_bytes_def file_ok_def old_def)
  qed
  then show "file_bytes (k_vnode s' v) = file_bytes (k_vnode s v)" "vn_size (k_vnode s' v) = vn_size (k_vnode s v)"
    "vn_kind (k_vnode s' v) = VNODE_FILE" "k_file s' = k_file s" "\<And>w. w \<noteq> v \<Longrightarrow> k_vnode s' w = k_vnode s w" by auto
qed

lemma k_free_keeps: "k_free s p = Ret s' \<Longrightarrow> k_vnode s' = k_vnode s \<and> k_file s' = k_file s"
  by (cases "kfree (k_heap s) p") (auto simp: k_free_def)

lemma take_splice:
  assumes "off \<le> sz" "off + length buf \<le> length xs"
  shows "take (max sz (off + length buf)) (splice off buf xs) = splice off buf (take sz xs)"
  using assms by (auto simp: splice_def max_def drop_take)

lemma file_write_bytes:
  assumes ok: "file_ok (k_vnode s v)" and w: "file_write f v buf s = Ret (s', STATUS_SUCCESS, n)"
    and off: "off = (if f_access (k_file s f) AND FILE_APPEND_DATA \<noteq> 0 then vn_size (k_vnode s v) else f_offset (k_file s f))"
    and le: "off \<le> vn_size (k_vnode s v)" "unat off + length buf < 2 ^ 64"
  shows "n = of_nat (length buf)" "file_bytes (k_vnode s' v) = splice (unat off) buf (file_bytes (k_vnode s v))"
    "vn_kind (k_vnode s' v) = VNODE_FILE" "unat off + length buf \<le> unat (vn_size (k_vnode s' v))"
    "\<And>u. u \<noteq> v \<Longrightarrow> k_vnode s' u = k_vnode s u" "k_file s' = (k_file s)(f := (k_file s f)\<lparr>f_offset := off + n\<rparr>)"
proof -
  let ?n = "of_nat (length buf) :: u64"
  have un: "unat (off + ?n) = unat off + length buf"
    using le(2) by (simp add: unat_word_ariths unat_of_nat take_bit_nat_eq_self)
  obtain s1 room where r: "vn_reserve v (off + ?n) s = Ret (s1, room)"
    using w by (cases "vn_reserve v (off + ?n) s") (auto simp: file_write_def Let_def off[symmetric])
  note W = w[unfolded file_write_def Let_def, folded off, unfolded r bind_outcome.simps prod.case]
  obtain rc where rc: "room = Some rc" using W by (cases room) auto
  note R = vn_reserve_keeps[OF r[unfolded rc] ok]
  let ?xs = "vn_bytes (k_vnode s1 v)" let ?sz = "vn_size (k_vnode s v)"
  have fit: "unat off + length buf \<le> length ?xs" using W by (simp add: rc split: if_splits)
  define s3 where "s3 = upd_file f (\<lambda>x. x\<lparr>f_offset := off + ?n\<rparr>) (upd_vnode v (\<lambda>x. x\<lparr>vn_bytes := splice (unat off) buf (vn_bytes x),
      vn_size := (if off + ?n > vn_size x then off + ?n else vn_size x)\<rparr>) s1)"
  have e: "bind_outcome (if rc \<noteq> 0 then k_free s3 rc else Ret s3) (\<lambda>s4. Ret (s4, STATUS_SUCCESS, ?n)) = Ret (s', STATUS_SUCCESS, n)"
    using W fit unfolding s3_def by (simp add: rc)
  obtain s4 where s4: "(if rc \<noteq> 0 then k_free s3 rc else Ret s3) = Ret s4"
    using e by (cases "if rc \<noteq> 0 then k_free s3 rc else Ret s3") simp_all
  have n: "n = ?n" and "s4 = s'" using e unfolding s4 by simp_all
  then have s': "k_vnode s' = k_vnode s3" "k_file s' = k_file s3"
    using s4 k_free_keeps[of s3 rc s4] by (simp_all split: if_splits)
  show "n = of_nat (length buf)" by (rule n)
  have v3: "k_vnode s3 v = (k_vnode s1 v)\<lparr>vn_bytes := splice (unat off) buf ?xs, vn_size := max (off + ?n) ?sz\<rparr>"
    by (simp add: s3_def upd_file_def upd_vnode_def R(2) max_def)
  have mx: "unat (max (off + ?n) ?sz) = max (unat ?sz) (unat off + length buf)"
    using un by (auto simp: max_def word_le_nat_alt)
  have "unat ?sz \<le> length ?xs" using R(1,2) ok by (auto simp: file_bytes_def file_ok_def dest: arg_cong[where f = length])
  then show "file_bytes (k_vnode s' v) = splice (unat off) buf (file_bytes (k_vnode s v))"
    using take_splice[of "unat off" "unat ?sz" buf ?xs] le(1) fit R(1,2) by (simp add: s' v3 file_bytes_def mx word_le_nat_alt)
  show "vn_kind (k_vnode s' v) = VNODE_FILE" by (simp add: s' v3 R(3))
  show "unat off + length buf \<le> unat (vn_size (k_vnode s' v))" by (simp add: s' v3 mx)
  show "k_vnode s' u = k_vnode s u" if "u \<noteq> v" for u using that R(5) by (simp add: s' s3_def upd_file_def upd_vnode_def)
  show "k_file s' = (k_file s)(f := (k_file s f)\<lparr>f_offset := off + n\<rparr>)"
    by (simp add: s' n s3_def upd_file_def upd_vnode_def R(4))
qed


text \<open>Overwriting the middle of a four byte file.\<close>

definition demo_file :: kst where
  "demo_file = zero_kst\<lparr>k_file := (\<lambda>_. \<lparr>f_vnode = 0x100, f_offset = 1, f_access = FILE_READ_DATA OR FILE_WRITE_DATA\<rparr>),
     k_vnode := (\<lambda>_. zero_vnode\<lparr>vn_kind := VNODE_FILE, vn_data := 0x1000, vn_cap := 8, vn_size := 4, vn_bytes := [1, 2, 3, 4, 0, 0, 0, 0]\<rparr>)\<rparr>"


end
