(* ===== verification/Hal.thy ===== *)
theory Hal
  imports Timer Kbd Fpu
begin

text \<open>
  The hardware layer, \<^verbatim>\<open>kernel/hal\<close>: the interrupt and segment descriptor tables, the task state with its
  interrupt stacks, the trap dispatcher, the interrupt controller, the clock, the PCI scan and the console.  A write to an
  I/O port is a pair of port and byte; a byte read from a port and the PCI configuration space are arguments.  The messages
  these functions print are left out.
\<close>

abbreviation (input) TIMER_HZ :: u32 where "TIMER_HZ \<equiv> 100"

section \<open>Interrupt descriptors\<close>

record idt_entry =
  off_low :: u16
  i_sel :: u16
  i_ist :: u8
  i_type :: u8
  off_mid :: u16
  off_high :: u32
  i_zero :: u32

definition zero_gate :: idt_entry where
  "zero_gate = \<lparr>off_low = 0, i_sel = 0, i_ist = 0, i_type = 0, off_mid = 0, off_high = 0, i_zero = 0\<rparr>"

definition idt_set :: "nat \<Rightarrow> u64 \<Rightarrow> u8 \<Rightarrow> idt_entry list \<Rightarrow> idt_entry list" where
  "idt_set v a ist idt =
     idt[v := \<lparr>off_low = ucast a, i_sel = 0x08, i_ist = ist, i_type = 0x8E, off_mid = ucast (drop_bit 16 a),
               off_high = ucast (drop_bit 32 a), i_zero = 0\<rparr>]"

definition ist_of :: "nat \<Rightarrow> u8" where
  "ist_of i = (if i = 8 then 1 else if i = 2 then 2 else if i = 18 then 3 else 4)"

definition idt_init :: "u64 list \<Rightarrow> u64 \<Rightarrow> idt_entry list" where
  "idt_init isr_stub_table isr_stub_generic =
     fold (\<lambda>i. idt_set i (isr_stub_table ! i) (ist_of i)) [0..<34]
       (fold (\<lambda>i. idt_set i isr_stub_generic 4) [0..<256] (replicate 256 zero_gate))"

section \<open>Segments and the task state\<close>

record gdt_entry =
  limit_low :: u16
  base_low :: u16
  base_mid :: u8
  g_access :: u8
  g_gran :: u8
  base_high :: u8

definition zero_seg :: gdt_entry where
  "zero_seg = \<lparr>limit_low = 0, base_low = 0, base_mid = 0, g_access = 0, g_gran = 0, base_high = 0\<rparr>"

definition gdt_set :: "nat \<Rightarrow> u32 \<Rightarrow> u32 \<Rightarrow> u8 \<Rightarrow> u8 \<Rightarrow> gdt_entry list \<Rightarrow> gdt_entry list" where
  "gdt_set i base limit access gran gdt =
     gdt[i := \<lparr>limit_low = ucast (limit AND 0xFFFF), base_low = ucast (base AND 0xFFFF),
               base_mid = ucast (drop_bit 16 base AND 0xFF), g_access = access,
               g_gran = ucast (drop_bit 16 limit AND 0x0F) OR gran, base_high = ucast (drop_bit 24 base AND 0xFF)\<rparr>]"

definition gdt_init :: "gdt_entry list" where
  "gdt_init =
     gdt_set 4 0 0 0xFA 0x20 (gdt_set 3 0 0 0xF2 0 (gdt_set 2 0 0 0x92 0 (gdt_set 1 0 0 0x9A 0x20 (replicate 8 zero_seg))))"

record tss =
  t_rsp0 :: u64
  t_ist :: "u64 list"
  t_iomap :: u16

text \<open>The task state is 104 bytes long; \<open>b\<close> is its address.\<close>

definition tss_init :: "u64 \<Rightarrow> gdt_entry list \<Rightarrow> gdt_entry list \<times> tss" where
  "tss_init b gdt =
     (let g5 = gdt_set 5 (ucast b) 103 0x89 0 gdt
      in (g5[6 := (g5 ! 6)\<lparr>limit_low := ucast (drop_bit 32 b), base_low := ucast (drop_bit 48 b)\<rparr>],
          \<lparr>t_rsp0 = 0, t_ist = replicate 7 0, t_iomap = 104\<rparr>))"

definition tss_set_rsp0 :: "u64 \<Rightarrow> tss \<Rightarrow> tss" where
  "tss_set_rsp0 rsp t = t\<lparr>t_rsp0 := rsp\<rparr>"

fun ist_loop :: "nat \<Rightarrow> u64 list \<Rightarrow> kheap \<Rightarrow> aspace \<Rightarrow> tss \<Rightarrow> (kheap \<times> tss) outcome" where
  "ist_loop i [] h kas t = Ret (h, t)"
| "ist_loop i (sz # szs) h kas t =
     bind_outcome (vmm_map_guarded_stack h kas (IST_STACK_BASE + of_nat i * KSTACK_STRIDE) sz) (\<lambda>(h1, st, p).
       if \<not> NT_SUCCESS st \<or> p = 0 then Panic ''tss: ist map''
       else ist_loop (Suc i) szs h1 kas (t\<lparr>t_ist := (t_ist t)[i := p + sz]\<rparr>))"

definition tss_map_ist :: "kheap \<Rightarrow> aspace \<Rightarrow> tss \<Rightarrow> (kheap \<times> tss) outcome" where
  "tss_map_ist h kas t = ist_loop 0 [2 * PAGE_SIZE, 2 * PAGE_SIZE, 2 * PAGE_SIZE, KSTACK_SIZE] h kas t"

text \<open>The control register \<open>cr4\<close> after the processor has reported its features in \<open>b\<close>.\<close>

definition cpu_enable_smap_smep :: "u32 \<Rightarrow> u64 \<Rightarrow> u64" where
  "cpu_enable_smap_smep b cr4 =
     (let cr4' = (if b AND push_bit 7 1 \<noteq> 0 then cr4 OR push_bit 20 1 else cr4)
      in if b AND push_bit 20 1 \<noteq> 0 then cr4' OR push_bit 21 1 else cr4')"

section \<open>Interrupt controller and clock\<close>

type_synonym port_write = "u16 \<times> u8"

definition pic_remap :: "u8 \<Rightarrow> u8 \<Rightarrow> port_write list" where
  "pic_remap off1 off2 =
     [(0x20, 0x11), (0xA0, 0x11), (0x21, off1), (0xA1, off2), (0x21, 0x04), (0xA1, 0x02), (0x21, 0x01), (0xA1, 0x01),
      (0x21, 0xFF), (0xA1, 0xFF)]"

text \<open>\<open>m\<close> is the mask read from the data port.\<close>

definition pic_unmask :: "nat \<Rightarrow> u8 \<Rightarrow> port_write list" where
  "pic_unmask irq m = [(if irq < 8 then 0x21 else 0xA1, m AND NOT (push_bit (if irq < 8 then irq else irq - 8) 1))]"

definition pic_eoi :: "nat \<Rightarrow> port_write list" where
  "pic_eoi irq = (if irq \<ge> 8 then [(0xA0, 0x20)] else []) @ [(0x20, 0x20)]"

definition pit_init :: "u32 \<Rightarrow> port_write list" where
  "pit_init hz =
     (let d = 1193182 div (if hz = 0 then TIMER_HZ else hz)
      in [(0x43, 0x36), (0x40, ucast (d AND 0xFF)), (0x40, ucast (drop_bit 8 d AND 0xFF))])"

text \<open>
  \<open>status\<close> is what the keyboard controller reports each time it is asked, \<open>m\<close> the interrupt mask; the result is the number
  of bytes drained and the mask written.
\<close>

partial_function (option) drain_loop :: "(nat \<Rightarrow> u8) \<Rightarrow> nat \<Rightarrow> nat option" where
  "drain_loop status i = (if status i AND 1 \<noteq> 0 then drain_loop status (Suc i) else Some i)"

definition kbd_init :: "(nat \<Rightarrow> u8) \<Rightarrow> u8 \<Rightarrow> (nat \<times> port_write list) option" where
  "kbd_init status m = (case drain_loop status 0 of None \<Rightarrow> None | Some i \<Rightarrow> Some (i, pic_unmask 1 m))"

lemma drain_loop_ends:
  assumes "status n AND 1 = 0" "i \<le> n"
  shows "\<exists>k. drain_loop status i = Some k \<and> i \<le> k \<and> k \<le> n"
  using assms(2)
proof (induction "n - i" arbitrary: i)
  case 0
  then show ?case using assms(1) by (subst drain_loop.simps) simp
next
  case (Suc d)
  then have "\<exists>k. drain_loop status (Suc i) = Some k \<and> Suc i \<le> k \<and> k \<le> n" by simp
  then show ?case using Suc.prems by (subst drain_loop.simps) auto
qed

section \<open>PCI\<close>

definition pci_read :: "(u32 \<Rightarrow> u32) \<Rightarrow> u8 \<Rightarrow> u8 \<Rightarrow> u8 \<Rightarrow> u8 \<Rightarrow> u32" where
  "pci_read cfg bus slot func offset =
     cfg (push_bit 31 1 OR push_bit 16 (ucast bus) OR push_bit 11 (ucast slot) OR push_bit 8 (ucast func) OR (ucast offset AND 0xFC))"

definition is_virtio_blk :: "u32 \<Rightarrow> bool" where
  "is_virtio_blk ident \<longleftrightarrow> (ucast ident :: u16) = 0x1AF4 \<and>
     ((ucast (drop_bit 16 ident) :: u16) = 0x1001 \<or> (ucast (drop_bit 16 ident) :: u16) = 0x1042)"

text \<open>The capacity in sectors that is read from a legacy device with an I/O base register; \<open>io\<close> reads a port.\<close>

definition virtio_blk_probe :: "(u32 \<Rightarrow> u32) \<Rightarrow> (u16 \<Rightarrow> u32) \<Rightarrow> u8 \<Rightarrow> u16 \<Rightarrow> u64 option" where
  "virtio_blk_probe cfg io slot device =
     (let bar0 = pci_read cfg 0 slot 0 0x10
      in if device = 0x1001 \<and> bar0 AND 1 \<noteq> 0
         then let iobase = ucast (bar0 AND NOT 3) in Some (push_bit 32 (ucast (io (iobase + 24))) OR ucast (io (iobase + 20)))
         else None)"

text \<open>The number of devices on bus 0 and of those that are virtio block devices.\<close>

definition pci_init :: "(u32 \<Rightarrow> u32) \<Rightarrow> nat \<times> nat" where
  "pci_init cfg =
     fold (\<lambda>slot (found, virtio).
             let ident = pci_read cfg 0 (of_nat slot) 0 0
             in if (ucast ident :: u16) = 0xFFFF then (found, virtio)
                else (Suc found, if is_virtio_blk ident then Suc virtio else virtio))
       [0..<32] (0, 0)"

section \<open>Console\<close>

definition serial_init :: "port_write list" where
  "serial_init =
     (let COM = 0x3F8
      in [(COM + 1, 0x00), (COM + 3, 0x80), (COM + 0, 0x01), (COM + 1, 0x00), (COM + 3, 0x03), (COM + 2, 0xC7), (COM + 4, 0x0B)])"

text \<open>
  The wait for the transmitter, given what the line status register returns each time it is read: it gives up after a million
  reads, so that a dead line does not stop a panic.
\<close>

function serial_wait_tx :: "(nat \<Rightarrow> u8) \<Rightarrow> nat \<Rightarrow> nat" where
  "serial_wait_tx lsr spins =
     (if lsr spins AND 0x20 = 0 then if Suc spins > 1000000 then Suc spins else serial_wait_tx lsr (Suc spins) else spins)"
  by pat_completeness auto
termination by (relation "measure (\<lambda>(lsr, spins). 1000001 - spins)") auto

declare serial_wait_tx.simps [simp del]

lemma serial_wait_tx_bounded: "spins \<le> 1000000 \<Longrightarrow> serial_wait_tx lsr spins \<le> 1000001"
  by (induction lsr spins rule: serial_wait_tx.induct) (subst serial_wait_tx.simps, auto)

text \<open>Bytes on the serial line: a line feed is preceded by a carriage return.\<close>

definition serial_putchar :: "u8 \<Rightarrow> u8 list" where
  "serial_putchar c = (if c = 10 then [13] else []) @ [c]"

definition serial_write :: "u8 list \<Rightarrow> u8 list" where
  "serial_write s = concat (map serial_putchar s)"

text \<open>A character waiting on the serial line comes first; \<open>lsr\<close> is the line status, \<open>rbr\<close> the byte received.\<close>

definition serial_poll_char :: "u8 \<Rightarrow> u8 \<Rightarrow> kbd_state \<Rightarrow> kbd_state \<times> int" where
  "serial_poll_char lsr rbr k = (if lsr AND 0x01 \<noteq> 0 then (k, uint rbr) else kbd_getchar k)"

record vga =
  v_col :: nat
  v_row :: nat
  v_cells :: "u16 list"

definition next_row :: "vga \<Rightarrow> vga" where
  "next_row v = v\<lparr>v_col := 0, v_row := (if v_row v < 24 then Suc (v_row v) else v_row v)\<rparr>"

text \<open>The screen after a character; what goes to the serial line is \<open>serial_putchar c\<close>.\<close>

definition console_emit :: "u8 \<Rightarrow> vga \<Rightarrow> vga" where
  "console_emit c v =
     (if c = 10 then next_row v
      else if c = 13 then v\<lparr>v_col := 0\<rparr>
      else if c = 9 then let col = (v_col v + 8) div 8 * 8 in if col \<ge> 80 then next_row v else v\<lparr>v_col := col\<rparr>
      else if v_row v \<ge> 25 \<or> v_col v \<ge> 80 then v
      else let v1 = v\<lparr>v_cells := (v_cells v)[v_row v * 80 + v_col v := ucast c OR 0x0700], v_col := Suc (v_col v)\<rparr>
           in if v_col v1 \<ge> 80 then next_row v1 else v1)"

section \<open>Traps\<close>

record trap_frame =
  tf_vector :: nat
  tf_error :: u64
  tf_cs :: u64

definition from_user :: "trap_frame \<Rightarrow> bool" where
  "from_user tf \<longleftrightarrow> tf_cs tf AND 3 = 3"

definition exc_name :: "nat \<Rightarrow> string" where
  "exc_name v =
     (if v < 32
      then [''#DE'', ''#DB'', ''NMI'', ''#BP'', ''#OF'', ''#BR'', ''#UD'', ''#NM'', ''#DF'', ''cso'', ''#TS'', ''#NP'', ''#SS'', ''#GP'',
            ''#PF'', ''spu'', ''#MF'', ''#AC'', ''#MC'', ''#XM'', ''#VE'', ''#CP'', ''22'', ''23'', ''24'', ''25'', ''26'', ''27'', ''#HV'',
            ''#VC'', ''#SX'', ''31''] ! v
      else ''irq/exc'')"

record machine =
  m_k :: kst
  m_kbd :: kbd_state
  m_fpu :: fpu_state

definition trap_exit :: "status_t \<Rightarrow> machine \<Rightarrow> (machine \<times> port_write list) outcome" where
  "trap_exit st m = bind_outcome (sched_exit_thread st (m_k m)) (\<lambda>k. Ret (m\<lparr>m_k := k\<rparr>, []))"

text \<open>\<open>cr2\<close> is the faulting address and \<open>sc\<close> the scan code a keyboard interrupt reads.\<close>

definition isr_dispatch :: "trap_frame \<Rightarrow> u64 \<Rightarrow> u8 \<Rightarrow> machine \<Rightarrow> (machine \<times> port_write list) outcome" where
  "isr_dispatch tf cr2 sc m =
     (let vector = tf_vector tf
      in if vector = 32 then bind_outcome (ke_on_tick (m_k m)) (\<lambda>k. Ret (m\<lparr>m_k := k\<rparr>, pic_eoi 0))
         else if vector = 33 then Ret (m\<lparr>m_kbd := kbd_isr sc (m_kbd m)\<rparr>, pic_eoi 1)
         else if vector = 7
         then if \<not> from_user tf then Panic ''#NM from kernel''
              else bind_outcome (fpu_nm (k_current (m_k m)) (m_fpu m)) (\<lambda>f. Ret (m\<lparr>m_fpu := f\<rparr>, []))
         else if vector = 14 \<and> from_user tf
         then let p = k_current_process (m_k m); wr = (tf_error tf AND 2 \<noteq> 0)
              in if p = 0 then trap_exit STATUS_ACCESS_VIOLATION m
                 else bind_outcome (vmm_handle_user_fault (h_pmm (k_heap (m_k m))) (pr_aspace (k_proc (m_k m) p)) cr2 wr)
                        (\<lambda>(pm, handled).
                           let m1 = m\<lparr>m_k := (m_k m)\<lparr>k_heap := (k_heap (m_k m))\<lparr>h_pmm := pm\<rparr>\<rparr>\<rparr>
                           in if handled then Ret (m1, []) else trap_exit STATUS_ACCESS_VIOLATION m1)
         else if from_user tf \<and> vector \<noteq> 8 \<and> vector \<noteq> 2 \<and> vector \<noteq> 18
         then trap_exit (if vector = 14 then STATUS_ACCESS_VIOLATION
                         else if vector = 6 then STATUS_ILLEGAL_INSTRUCTION else STATUS_UNSUCCESSFUL) m
         else Panic (exc_name vector))"

section \<open>The tables and the screen\<close>

definition gate_target :: "idt_entry \<Rightarrow> u64" where
  "gate_target e = ucast (off_low e) OR push_bit 16 (ucast (off_mid e)) OR push_bit 32 (ucast (off_high e))"

lemma idt_set_target:
  assumes "v < length idt"
  shows "gate_target (idt_set v a ist idt ! v) = a"
proof -
  have "ucast (ucast a :: u16) OR push_bit 16 (ucast (ucast (drop_bit 16 a) :: u16)) OR push_bit 32 (ucast (ucast (drop_bit 32 a) :: u32)) = a"
    (is "?l = a")
  proof (rule bit_word_eqI)
    fix n
    assume "n < LENGTH(64)"
    then show "bit ?l n = bit a n"
      by (cases "n < 16"; cases "n < 32") (auto simp: bit_or_iff bit_push_bit_iff bit_unsigned_iff bit_drop_bit_eq)
  qed
  then show ?thesis using assms by (simp add: idt_set_def gate_target_def)
qed

lemma idt_fold:
  assumes "n \<le> length idt"
  shows "length (fold (\<lambda>i. idt_set i (a i) (st i)) [0..<n] idt) = length idt
    \<and> (\<forall>i<length idt. fold (\<lambda>i. idt_set i (a i) (st i)) [0..<n] idt ! i = (if i < n then idt_set i (a i) (st i) idt ! i else idt ! i))"
  using assms
proof (induction n)
  case (Suc n)
  then show ?case by (auto simp: idt_set_def nth_list_update less_Suc_eq)
qed simp

text \<open>Every one of the 256 vectors has a present interrupt gate of the kernel code segment that leads to its stub, on its own interrupt stack.\<close>

lemma idt_init_gates:
  assumes "i < 256"
  shows "gate_target (idt_init tbl gen ! i) = (if i < 34 then tbl ! i else gen) \<and> i_sel (idt_init tbl gen ! i) = 0x08
    \<and> i_type (idt_init tbl gen ! i) = 0x8E \<and> i_ist (idt_init tbl gen ! i) = (if i < 34 then ist_of i else 4)"
proof -
  let ?i0 = "replicate 256 zero_gate" let ?i1 = "fold (\<lambda>i. idt_set i gen 4) [0..<256] ?i0"
  have 1: "length ?i1 = 256" "?i1 ! i = idt_set i gen 4 ?i0 ! i" using idt_fold[of 256 ?i0 "\<lambda>_. gen" "\<lambda>_. 4"] assms by auto
  have e: "idt_init tbl gen ! i = (if i < 34 then idt_set i (tbl ! i) (ist_of i) ?i1 ! i else idt_set i gen 4 ?i0 ! i)"
    using idt_fold[of 34 ?i1 "\<lambda>i. tbl ! i" ist_of] 1 assms by (simp add: idt_init_def)
  have t: "gate_target (idt_set i (tbl ! i) (ist_of i) ?i1 ! i) = tbl ! i" "gate_target (idt_set i gen 4 ?i0 ! i) = gen"
    using 1(1) assms by (simp_all add: idt_set_target)
  have "i_sel (idt_set i a x idt ! i) = 0x08" "i_type (idt_set i a x idt ! i) = 0x8E" "i_ist (idt_set i a x idt ! i) = x"
    if "length idt = 256" for a x idt using that assms by (simp_all add: idt_set_def)
  then show ?thesis using 1(1) e t by simp
qed

text \<open>The cursor stays on the screen, and so does what is written.\<close>

definition vga_ok :: "vga \<Rightarrow> bool" where
  "vga_ok v \<longleftrightarrow> v_col v < 80 \<and> v_row v < 25 \<and> length (v_cells v) = 2000"

lemma console_emit_ok: "vga_ok v \<Longrightarrow> vga_ok (console_emit c v)"
  by (auto simp: vga_ok_def console_emit_def next_row_def Let_def)

lemma console_emit_index: "vga_ok v \<Longrightarrow> v_row v * 80 + v_col v < 2000"
  by (auto simp: vga_ok_def)

end
