(* ===== verification/Boot.thy ===== *)
theory Boot
  imports Hal Vfs Elf Frames
begin

text \<open>
  Start-up, \<^verbatim>\<open>kernel/ke/kmain.c\<close>: the parser of the multiboot2 memory map, the creation of the first process, and the
  order in which the parts of the kernel come up.  The boot information lies in physical memory, which is mapped one
  to one at that time; a loop over it that does not end is \<open>None\<close>.
\<close>

section \<open>The memory map\<close>

definition rd32 :: "(phys_t \<Rightarrow> u8) \<Rightarrow> phys_t \<Rightarrow> u32" where
  "rd32 m a = ucast (le_bytes 4 (\<lambda>i. m (a + of_nat i)))"

definition mb2_entry :: "(phys_t \<Rightarrow> u8) \<Rightarrow> phys_t \<Rightarrow> mmap_entry" where
  "mb2_entry m e = \<lparr>mm_base = rd64 m e, mm_length = rd64 m (e + 8), mm_type = rd32 m (e + 16)\<rparr>"

text \<open>The entries of one memory map tag, at most \<open>mx\<close> in all.\<close>

function entry_loop :: "(phys_t \<Rightarrow> u8) \<Rightarrow> nat \<Rightarrow> u64 \<Rightarrow> phys_t \<Rightarrow> phys_t \<Rightarrow> mmap_entry list \<Rightarrow> mmap_entry list" where
  "entry_loop m mx esize ee e out =
     (if e + esize \<le> ee \<and> length out < mx then entry_loop m mx esize ee (e + esize) (out @ [mb2_entry m e]) else out)"
  by pat_completeness auto
termination by (relation "measure (\<lambda>(m, mx, esize, ee, e, out). mx - length out)") auto

declare entry_loop.simps [simp del]

definition mb2_tag :: "(phys_t \<Rightarrow> u8) \<Rightarrow> nat \<Rightarrow> phys_t \<Rightarrow> mmap_entry list \<Rightarrow> mmap_entry list" where
  "mb2_tag m mx p out =
     (if rd32 m p = 6 \<and> length out < mx
      then entry_loop m mx (ucast (rd32 m (p + 8))) (p + ucast (rd32 m (p + 4))) (p + 16) out else out)"

definition mb2_next :: "(phys_t \<Rightarrow> u8) \<Rightarrow> phys_t \<Rightarrow> phys_t" where
  "mb2_next m p = (let aligned = (rd32 m (p + 4) + 7) AND NOT 7 in p + (if aligned \<noteq> 0 then ucast aligned else 8))"

partial_function (option) tag_loop :: "(phys_t \<Rightarrow> u8) \<Rightarrow> nat \<Rightarrow> phys_t \<Rightarrow> phys_t \<Rightarrow> mmap_entry list \<Rightarrow> mmap_entry list option" where
  "tag_loop m mx e p out =
     (if p + 8 < e
      then if rd32 m p = 0 then Some out else tag_loop m mx e (mb2_next m p) (mb2_tag m mx p out)
      else Some out)"

definition mb2_parse :: "(phys_t \<Rightarrow> u8) \<Rightarrow> phys_t \<Rightarrow> nat \<Rightarrow> mmap_entry list option" where
  "mb2_parse m mb2 mx = tag_loop m mx (mb2 + ucast (rd32 m mb2)) (mb2 + 8) []"

section \<open>The first process\<close>

definition psp_create_init :: "u64 \<Rightarrow> kst \<Rightarrow> (kst \<times> status_t) outcome" where
  "psp_create_init init_thread s =
     bind_outcome (psp_create_process (Some ''init'') (g_system s) s) (\<lambda>(s1, st, p).
       if \<not> NT_SUCCESS st then Ret (s1, st)
       else bind_outcome (psp_create_thread p (Some ''init'') (KernelEntry init_thread) 0 PRIORITY_NORMAL 0 s1)
              (\<lambda>(s2, st2, t). Ret (s2, st2)))"

section \<open>Start-up\<close>

record hal =
  b_gdt :: "gdt_entry list"
  b_tss :: tss
  b_idt :: "idt_entry list"
  b_out :: "port_write list"
  b_fpu :: fpu_state

record image =
  im_kphys :: phys_t
  im_ksize :: u64
  im_rx_end :: virt_t
  im_tss :: u64
  im_stubs :: "u64 list"
  im_generic :: u64
  im_init :: u64
  im_blobs :: "string \<Rightarrow> u8 list option"
  im_motd :: string
  im_version :: string

text \<open>The descriptor tables, loaded before memory management is up.\<close>

definition hal_early :: "image \<Rightarrow> fpu_state \<Rightarrow> hal" where
  "hal_early im f =
     (let (gdt, t) = tss_init (im_tss im) gdt_init
      in \<lparr>b_gdt = gdt, b_tss = t, b_idt = idt_init (im_stubs im) (im_generic im), b_out = serial_init @ pic_remap 0x20 0x28, b_fpu = f\<rparr>)"

definition cold_heap :: "pmm \<Rightarrow> kheap" where
  "cold_heap pm = \<lparr>h_pmm = pm, g_classes = replicate HEAP_CLASSES [], g_large = [], g_used = 0, g_heap_up = False\<rparr>"

definition mm_init :: "image \<Rightarrow> (phys_t \<Rightarrow> u8) \<Rightarrow> mmap_entry list \<Rightarrow> hal \<Rightarrow> (kst \<times> hal) outcome" where
  "mm_init im ram mp b =
     bind_outcome (pmm_init ram mp (im_kphys im) (im_ksize im)) (\<lambda>pm.
     bind_outcome (vmm_init pm (im_kphys im) (im_ksize im) (im_rx_end im)) (\<lambda>(pm1, cr3).
       let kas = zero_aspace\<lparr>as_cr3 := cr3\<rparr>
       in bind_outcome (tss_map_ist (cold_heap pm1) kas (b_tss b)) (\<lambda>(h, t).
            Ret (zero_kst\<lparr>k_heap := heap_init (h_pmm h), g_kernel_as := kas\<rparr>, b\<lparr>b_tss := t\<rparr>))))"

definition services_init :: "image \<Rightarrow> kst \<Rightarrow> kst outcome" where
  "services_init im s =
     bind_outcome (ob_init s) (\<lambda>s1.
     bind_outcome (io_init s1) (\<lambda>s2.
     bind_outcome (sched_init (timer_init s2)) (\<lambda>s3.
     bind_outcome (ramfs_init s3) (\<lambda>s4.
       vfs_seed_initrd (im_blobs im) (elf_make_minimal_hello 128) (im_motd im) (im_version im) s4))))"

text \<open>
  \<open>m1\<close> is the mask of the interrupt controller, read when the clock is unmasked.  The keyboard, PCI and CPU feature
  set-up change nothing the rest of the model sees.
\<close>

definition kmain_early :: "image \<Rightarrow> (phys_t \<Rightarrow> u8) \<Rightarrow> phys_t \<Rightarrow> u8 \<Rightarrow> fpu_state \<Rightarrow> (kst \<times> hal) outcome" where
  "kmain_early im ram mb2 m1 f =
     (case mb2_parse ram mb2 64 of
        None \<Rightarrow> Hang
      | Some mp \<Rightarrow>
          bind_outcome (mm_init im ram mp (hal_early im f)) (\<lambda>(s, b).
          bind_outcome (services_init im s) (\<lambda>s1.
            let b1 = b\<lparr>b_out := b_out b @ pit_init TIMER_HZ @ pic_unmask 0 m1, b_fpu := fpu_init (b_fpu b)\<rparr>
            in bind_outcome (psp_create_init (im_init im) s1) (\<lambda>(s2, st).
                 if \<not> NT_SUCCESS st then Panic ''init create'' else Ret (sched_start s2, b1)))))"

definition kmain :: "image \<Rightarrow> (phys_t \<Rightarrow> u8) \<Rightarrow> phys_t \<Rightarrow> u8 \<Rightarrow> fpu_state \<Rightarrow> unit outcome" where
  "kmain im ram mb2 m1 f = bind_outcome (kmain_early im ram mb2 m1 f) (\<lambda>r. Panic ''kmain returned'')"

section \<open>The parser ends\<close>

lemma entry_loop_length: "length out \<le> mx \<Longrightarrow> length (entry_loop m mx esize ee e out) \<le> mx"
  by (induction m mx esize ee e out rule: entry_loop.induct) (subst entry_loop.simps, auto)

lemma mb2_tag_length: "length out \<le> mx \<Longrightarrow> length (mb2_tag m mx p out) \<le> mx"
  by (simp add: mb2_tag_def entry_loop_length)

lemma mb2_next_after:
  assumes "unat p < 2 ^ 63"
  shows "unat p < unat (mb2_next m p)" "unat (mb2_next m p) \<le> unat p + 2 ^ 32"
proof -
  define x where "x = (rd32 m (p + 4) + 7) AND NOT 7"
  define d :: u64 where "d = (if x \<noteq> 0 then ucast x else 8)"
  have d: "0 < unat d" "unat d \<le> 2 ^ 32"
  proof -
    have "0 < unat d \<and> unat d \<le> 2 ^ 32"
    proof (cases "x = 0")
      case True then show ?thesis by (simp add: d_def)
    next
      case False
      then have "unat d = unat x" by (simp add: d_def unat_u32)
      then show ?thesis using False unat_u32(1)[of x] by (simp add: unat_gt_0)
    qed
    then show "0 < unat d" "unat d \<le> 2 ^ 32" by simp_all
  qed
  have e: "mb2_next m p = p + d" by (simp add: mb2_next_def d_def Let_def x_def)
  have "unat (p + d) = unat p + unat d" using assms d(2) by (simp add: unat_word_ariths)
  then show "unat p < unat (mb2_next m p)" "unat (mb2_next m p) \<le> unat p + 2 ^ 32" using d e by simp_all
qed

lemma tag_loop_ends:
  assumes "unat p < 2 ^ 63" "unat e < 2 ^ 63 - 2 ^ 33" "length out \<le> mx"
  shows "\<exists>es. tag_loop m mx e p out = Some es \<and> length es \<le> mx"
  using assms
proof (induction "unat e - unat p" arbitrary: p out rule: less_induct)
  case less
  show ?case
  proof (cases "p + 8 < e \<and> rd32 m p \<noteq> 0")
    case False
    then show ?thesis using less.prems(3) by (subst tag_loop.simps) auto
  next
    case True
    have "unat (p + 8) = unat p + 8" using less.prems(1) by (simp add: unat_word_ariths)
    then have lt: "unat p + 8 < unat e" using True by (simp add: word_less_nat_alt)
    note N = mb2_next_after[OF less.prems(1), of m]
    have "unat e - unat (mb2_next m p) < unat e - unat p" "unat (mb2_next m p) < 2 ^ 63"
      using N lt less.prems(2) by simp_all
    then show ?thesis
      using less.hyps[of "mb2_next m p" "mb2_tag m mx p out"] less.prems(2,3) True mb2_tag_length
      by (subst tag_loop.simps) simp
  qed
qed

text \<open>C35. The multiboot2 parser always ends and never overruns its table: for boot information below \<open>2 ^ 62\<close>, whatever its contents, \<open>mb2_parse\<close> returns, with at
  most as many entries as the table has room for.\<close>

theorem mb2_parse_ends:
  assumes "unat mb2 < 2 ^ 62"
  shows "\<exists>es. mb2_parse m mb2 mx = Some es \<and> length es \<le> mx"
proof -
  let ?t = "rd32 m mb2"
  have c: "unat (ucast ?t :: u64) < 2 ^ 32" using unat_u32[of ?t] by simp
  have "unat (mb2 + 8) = unat mb2 + 8" using assms by (simp add: unat_word_ariths)
  moreover have "unat (mb2 + ucast ?t) = unat mb2 + unat (ucast ?t :: u64)" using assms c by (simp add: unat_word_ariths)
  ultimately show ?thesis unfolding mb2_parse_def using assms c by (intro tag_loop_ends) simp_all
qed

theorem mb2_parse_ends_witness: "\<exists>es. mb2_parse (\<lambda>_. 0xFF) 0x10000 64 = Some es \<and> length es \<le> 64"
  using mb2_parse_ends[of "0x10000" "\<lambda>_. 0xFF" 64] by simp

end
