(* ===== verification/Kprintf.thy ===== *)
theory Kprintf
  imports Prelude
begin

text \<open>
  The formatted output of the kernel, \<^verbatim>\<open>kernel/ke/kprintf.c\<close>, and the names of the status codes,
  \<^verbatim>\<open>kernel/lib/status.c\<close>.  What is emitted is a string; a variable argument is the 64-bit slot it is passed in, or a
  string pointer.  Reading a missing argument, an argument of the wrong sort, or the format behind its end is \<open>Panic\<close>.
\<close>

section \<open>Numbers\<close>

definition dig :: "bool \<Rightarrow> nat \<Rightarrow> char" where
  "dig upper d = (if upper then ''0123456789ABCDEF'' else ''0123456789abcdef'') ! d"

text \<open>The digits from the lowest to the highest, into a buffer of 32 characters.\<close>

function digits_loop :: "u64 \<Rightarrow> u64 \<Rightarrow> bool \<Rightarrow> string \<Rightarrow> string" where
  "digits_loop v base upper buf =
     (if v \<noteq> 0 \<and> length buf < 32 then digits_loop (v div base) base upper (buf @ [dig upper (unat (v mod base))]) else buf)"
  by pat_completeness auto
termination by (relation "measure (\<lambda>(v, base, upper, buf). 32 - length buf)") auto

declare digits_loop.simps [simp del]

definition emit_u :: "u64 \<Rightarrow> u64 \<Rightarrow> bool \<Rightarrow> nat \<Rightarrow> char \<Rightarrow> string" where
  "emit_u v base0 upper width pad =
     (let base = (if base0 < 2 \<or> base0 > 16 then 10 else base0);
          buf = digits_loop v base upper (if v = 0 then ''0'' else []);
          buf' = buf @ replicate (min width 32 - length buf) pad
      in rev buf')"

definition emit_i :: "u64 \<Rightarrow> nat \<Rightarrow> string" where
  "emit_i v width =
     (if sint v < 0 then CHR ''-'' # emit_u (- v) 10 False (if width > 0 then width - 1 else 0) CHR '' ''
      else emit_u v 10 False width CHR '' '')"

definition emit_str :: "string option \<Rightarrow> string" where
  "emit_str s = (case s of None \<Rightarrow> ''(null)'' | Some t \<Rightarrow> t)"

section \<open>Formats\<close>

datatype varg = VNum u64 | VStr "string option"

fun va_num :: "varg list \<Rightarrow> (u64 \<times> varg list) outcome" where
  "va_num (VNum n # ap) = Ret (n, ap)"
| "va_num _ = Panic ''va_arg''"

fun va_str :: "varg list \<Rightarrow> (string option \<times> varg list) outcome" where
  "va_str (VStr t # ap) = Ret (t, ap)"
| "va_str (VNum n # ap) = (if n = 0 then Ret (None, ap) else Panic ''va_arg'')"
| "va_str [] = Panic ''va_arg''"

definition low32 :: "u64 \<Rightarrow> u64" where
  "low32 v = ucast (ucast v :: u32)"

definition low32s :: "u64 \<Rightarrow> u64" where
  "low32s v = scast (ucast v :: u32)"

text \<open>The \<open>switch\<close>: the conversion \<open>c\<close> with its length, width and padding.\<close>

definition kconv :: "char \<Rightarrow> nat \<Rightarrow> nat \<Rightarrow> char \<Rightarrow> varg list \<Rightarrow> (string \<times> varg list) outcome" where
  "kconv c longness width pad ap =
     (if c = CHR ''%'' then Ret (''%'', ap)
      else if c = CHR ''c'' then bind_outcome (va_num ap) (\<lambda>(n, ap'). Ret ([char_of (unat n)], ap'))
      else if c = CHR ''s'' then bind_outcome (va_str ap) (\<lambda>(t, ap'). Ret (emit_str t, ap'))
      else if c = CHR ''d'' \<or> c = CHR ''i'' then
        bind_outcome (va_num ap) (\<lambda>(n, ap'). Ret (emit_i (if longness \<ge> 2 then n else low32s n) width, ap'))
      else if c = CHR ''u'' then
        bind_outcome (va_num ap) (\<lambda>(n, ap'). Ret (emit_u (if longness \<ge> 2 then n else low32 n) 10 False width pad, ap'))
      else if c = CHR ''x'' then
        bind_outcome (va_num ap) (\<lambda>(n, ap'). Ret (emit_u (if longness \<ge> 2 then n else low32 n) 16 False width pad, ap'))
      else if c = CHR ''X'' then
        bind_outcome (va_num ap) (\<lambda>(n, ap'). Ret (emit_u (if longness \<ge> 2 then n else low32 n) 16 True width pad, ap'))
      else if c = CHR ''p'' then
        bind_outcome (va_num ap) (\<lambda>(n, ap'). Ret (''0x'' @ emit_u n 16 False 16 CHR ''0'', ap'))
      else Ret ([CHR ''%'', c], ap))"

definition is_digit :: "char \<Rightarrow> bool" where
  "is_digit c \<longleftrightarrow> c \<in> set ''0123456789''"

definition width_of :: "string \<Rightarrow> nat" where
  "width_of ds = foldl (\<lambda>w c. w * 10 + (of_char c - 48)) 0 ds"

text \<open>Flags, padding, width and length of a conversion, and the format from its letter on.\<close>

definition parse_spec :: "string \<Rightarrow> nat \<times> nat \<times> char \<times> string" where
  "parse_spec f0 =
     (let f1 = dropWhile (\<lambda>c. c \<in> set ''-+ '') f0;
          zero = (f1 \<noteq> [] \<and> hd f1 = CHR ''0'');
          f2 = (if zero then tl f1 else f1);
          f3 = dropWhile is_digit f2;
          f4 = dropWhile (\<lambda>c. c = CHR ''l'') f3;
          z = (f4 \<noteq> [] \<and> hd f4 = CHR ''z'')
      in (if z then 2 else length f3 - length f4, width_of (takeWhile is_digit f2), if zero then CHR ''0'' else CHR '' '',
          if z then tl f4 else f4))"

lemma parse_spec_length: "length (snd (snd (snd (parse_spec f)))) \<le> length f"
proof -
  have t: "length (if b then tl xs else xs) \<le> length xs" for b and xs :: string by simp
  show ?thesis unfolding parse_spec_def Let_def snd_conv
    by (rule le_trans[OF t], rule le_trans[OF length_dropWhile_le], rule le_trans[OF length_dropWhile_le],
        rule le_trans[OF t], rule length_dropWhile_le)
qed

function kvprintf :: "string \<Rightarrow> varg list \<Rightarrow> string outcome" where
  "kvprintf fmt ap =
     (case fmt of
        [] \<Rightarrow> Ret []
      | c # rest \<Rightarrow>
          if c \<noteq> CHR ''%'' then bind_outcome (kvprintf rest ap) (\<lambda>out. Ret (c # out))
          else (case snd (snd (snd (parse_spec rest))) of
                  [] \<Rightarrow> Panic ''format read''
                | d # f \<Rightarrow>
                    bind_outcome (kconv d (fst (parse_spec rest)) (fst (snd (parse_spec rest))) (fst (snd (snd (parse_spec rest)))) ap)
                      (\<lambda>(out, ap'). bind_outcome (kvprintf f ap') (\<lambda>out'. Ret (out @ out')))))"
  by pat_completeness auto
termination
proof (relation "measure (\<lambda>(fmt, ap). length fmt)")
  fix fmt ap c and rest :: string and d f out and ap' :: "varg list"
  assume "fmt = c # rest" "snd (snd (snd (parse_spec rest))) = d # f"
  then show "((f, ap'), fmt, ap) \<in> measure (\<lambda>(fmt, ap). length fmt)" using parse_spec_length[of rest] by simp
qed auto

declare kvprintf.simps [simp del]

section \<open>Status names\<close>

definition status_name :: "status_t \<Rightarrow> string" where
  "status_name s =
     (if s = STATUS_SUCCESS then ''SUCCESS''
      else if s = STATUS_ABANDONED then ''ABANDONED''
      else if s = STATUS_TIMEOUT then ''TIMEOUT''
      else if s = STATUS_PENDING then ''PENDING''
      else if s = STATUS_UNSUCCESSFUL then ''UNSUCCESSFUL''
      else if s = STATUS_NOT_IMPLEMENTED then ''NOT_IMPLEMENTED''
      else if s = STATUS_ACCESS_VIOLATION then ''ACCESS_VIOLATION''
      else if s = STATUS_INVALID_HANDLE then ''INVALID_HANDLE''
      else if s = STATUS_INVALID_PARAMETER then ''INVALID_PARAMETER''
      else if s = STATUS_NO_SUCH_FILE then ''NO_SUCH_FILE''
      else if s = STATUS_END_OF_FILE then ''END_OF_FILE''
      else if s = STATUS_NO_MEMORY then ''NO_MEMORY''
      else if s = STATUS_CONFLICTING_ADDRESSES then ''CONFLICTING_ADDRESSES''
      else if s = STATUS_ACCESS_DENIED then ''ACCESS_DENIED''
      else if s = STATUS_BUFFER_TOO_SMALL then ''BUFFER_TOO_SMALL''
      else if s = STATUS_OBJECT_TYPE_MISMATCH then ''OBJECT_TYPE_MISMATCH''
      else if s = STATUS_OBJECT_NAME_NOT_FOUND then ''OBJECT_NAME_NOT_FOUND''
      else if s = STATUS_OBJECT_NAME_COLLISION then ''OBJECT_NAME_COLLISION''
      else if s = STATUS_MUTANT_NOT_OWNED then ''MUTANT_NOT_OWNED''
      else if s = STATUS_INVALID_PAGE_PROTECTION then ''INVALID_PAGE_PROTECTION''
      else if s = STATUS_DISK_FULL then ''DISK_FULL''
      else if s = STATUS_INSUFFICIENT_RESOURCES then ''INSUFFICIENT_RESOURCES''
      else if s = STATUS_FILE_IS_A_DIRECTORY then ''FILE_IS_A_DIRECTORY''
      else if s = STATUS_NOT_A_DIRECTORY then ''NOT_A_DIRECTORY''
      else if s = STATUS_PROCESS_IS_TERMINATING then ''PROCESS_IS_TERMINATING''
      else if s = STATUS_CANCELLED then ''CANCELLED''
      else if s = STATUS_NOT_SUPPORTED then ''NOT_SUPPORTED''
      else if s = STATUS_INVALID_IMAGE_FORMAT then ''INVALID_IMAGE_FORMAT''
      else if s = STATUS_NO_TOKEN then ''NO_TOKEN''
      else ''STATUS_?'')"

section \<open>Printed numbers read back\<close>

definition digit_val :: "char \<Rightarrow> nat" where
  "digit_val c = (if of_char c \<ge> (97 :: nat) then of_char c - 87 else if of_char c \<ge> (65 :: nat) then of_char c - 55 else of_char c - 48)"

fun lval :: "nat \<Rightarrow> string \<Rightarrow> nat" where
  "lval b [] = 0"
| "lval b (c # cs) = digit_val c + b * lval b cs"

definition num_val :: "nat \<Rightarrow> string \<Rightarrow> nat" where
  "num_val b s = lval b (rev s)"

lemma digit_val_dig:
  assumes "d < 16"
  shows "digit_val (dig up d) = d \<and> dig up d \<noteq> CHR '' ''"
proof -
  have "\<forall>d \<in> set [0..<16]. digit_val (dig up d) = d \<and> dig up d \<noteq> CHR '' ''"
    by (simp add: upt_rec dig_def digit_val_def)
  then show ?thesis using assms by simp
qed

lemma lval_pad: "lval b (ds @ replicate k CHR ''0'') = lval b ds"
proof -
  have "lval b (replicate k CHR ''0'') = 0" by (induction k) (simp_all add: digit_val_def)
  then show ?thesis by (induction ds) simp_all
qed

lemma digits_loop_val:
  assumes "unat v < unat base ^ (32 - length buf)" "2 \<le> base" "base \<le> 16" "length buf \<le> 32"
  shows "\<exists>ds. digits_loop v base up buf = buf @ ds \<and> lval (unat base) ds = unat v \<and> CHR '' '' \<notin> set ds \<and> length (buf @ ds) \<le> 32"
  using assms
proof (induction v base up buf rule: digits_loop.induct)
  case (1 v base up buf)
  have b: "2 \<le> unat base" "unat base \<le> 16" using 1(3,4) by (simp_all add: word_le_nat_alt)
  show ?case
  proof (cases "v = 0")
    case True
    then show ?thesis using 1(5) by (simp add: digits_loop.simps[of 0])
  next
    case False
    then have "0 < unat v" by (simp add: unat_gt_0)
    then have l: "length buf < 32" using 1(2,5) by (cases "length buf = 32") auto
    then have "32 - length buf = Suc (32 - length (buf @ [dig up (unat (v mod base))]))" by simp
    then have "unat v < unat base * unat base ^ (32 - length (buf @ [dig up (unat (v mod base))]))" using 1(2) by simp
    then have "unat (v div base) < unat base ^ (32 - length (buf @ [dig up (unat (v mod base))]))"
      by (simp add: unat_div less_mult_imp_div_less mult.commute)
    then obtain ds where ds: "digits_loop (v div base) base up (buf @ [dig up (unat (v mod base))]) = (buf @ [dig up (unat (v mod base))]) @ ds"
        "lval (unat base) ds = unat (v div base)" "CHR '' '' \<notin> set ds" "length ((buf @ [dig up (unat (v mod base))]) @ ds) \<le> 32"
      using 1(1)[OF _ _ 1(3,4)] False l by auto
    have m: "unat (v mod base) < 16" using b by (simp add: unat_mod order_less_le_trans[OF mod_less_divisor])
    have "digits_loop v base up buf = buf @ (dig up (unat (v mod base)) # ds)"
      using False l ds(1) by (simp add: digits_loop.simps[of v])
    moreover have "lval (unat base) (dig up (unat (v mod base)) # ds) = unat v"
      using digit_val_dig[OF m] by (simp add: ds(2) unat_mod unat_div)
    moreover have "dig up (unat (v mod base)) \<noteq> CHR '' ''" using digit_val_dig[OF m, of up] by blast
    ultimately show ?thesis using ds(3,4) by (intro exI[of _ "dig up (unat (v mod base)) # ds"]) auto
  qed
qed

text \<open>A printed number reads back: for every base from 4 to 16, width and padding with blanks or zeros, the string \<open>emit_u\<close> prints is at least as wide as
  asked for (at most 32 characters are padded), and its digits without the blanks denote the value.\<close>

theorem emit_u_reads_back:
  assumes "4 \<le> base" "base \<le> 16" "pad \<in> {CHR '' '', CHR ''0''}"
  shows "num_val (unat base) (filter (\<lambda>c. c \<noteq> CHR '' '') (emit_u v base up width pad)) = unat v
    \<and> min width 32 \<le> length (emit_u v base up width pad) \<and> length (emit_u v base up width pad) \<le> 32"
proof -
  have b: "4 \<le> unat base" using assms(1) by (simp add: word_le_nat_alt)
  have b2: "2 \<le> base" "\<not> (base < 2 \<or> base > 16)" using assms(1,2) by (auto simp: word_le_nat_alt word_less_nat_alt)
  have "unat v < 2 ^ 64" using unsigned_less[of v] by simp
  also have "(2 :: nat) ^ 64 = 4 ^ 32" by simp
  also have "(4 :: nat) ^ 32 \<le> unat base ^ 32" by (rule power_mono[OF b]) simp
  finally have v: "unat v < unat base ^ 32" .
  obtain ds where ds: "digits_loop v base up (if v = 0 then ''0'' else []) = ds" "lval (unat base) ds = unat v"
      "CHR '' '' \<notin> set ds" "length ds \<le> 32"
  proof (cases "v = 0")
    case True
    then show ?thesis using that[of "''0''"] by (simp add: digits_loop.simps[of 0] digit_val_def)
  next
    case False
    then show ?thesis using digits_loop_val[of v base "[]" up] v b2(1) assms(2) that by auto
  qed
  have e: "emit_u v base up width pad = rev (ds @ replicate (min width 32 - length ds) pad)"
    using b2(2) ds(1) by (simp add: emit_u_def Let_def)
  have "filter (\<lambda>c. c \<noteq> CHR '' '') ds = ds" using ds(3) by (simp add: filter_id_conv) blast
  then have "num_val (unat base) (filter (\<lambda>c. c \<noteq> CHR '' '') (emit_u v base up width pad)) = unat v"
    using assms(3) ds(2) by (auto simp: e num_val_def rev_filter lval_pad filter_replicate)
  then show ?thesis using ds(4) by (auto simp: e)
qed

theorem emit_u_reads_back_witness:
  "emit_u 255 16 False 4 CHR ''0'' = ''00ff'' \<and> num_val 16 ''00ff'' = 255"
proof -
  have r: "replicate 2 CHR ''0'' = ''00''" by (simp add: numeral_2_eq_2)
  have e: "emit_u 255 16 False 4 CHR ''0'' = ''00ff''" 
    by (simp add: emit_u_def digits_loop.simps[of 255] digits_loop.simps[of 15] digits_loop.simps[of 0] dig_def r)
  show ?thesis using emit_u_reads_back[of 16 "CHR ''0''" 255 False 4] e by simp
qed

end
