(* ===== verification/Sh.thy ===== *)
theory Sh
  imports Syscall Kprintf
begin

text \<open>
  The built-in programs: the shell \<^verbatim>\<open>user/bin/sh.c\<close> and the first program \<^verbatim>\<open>user/bin/init.c\<close>, which run in kernel mode
  on the system services.  What they print is appended to the bytes of the console.  The shell is a step function on the
  character it reads and the line edited so far; a command that blocks or ends the shell returns a \<open>flow\<close>.
\<close>

definition say :: "string \<Rightarrow> kst \<Rightarrow> kst" where
  "say t s = s\<lparr>k_serial_out := k_serial_out s @ bytes_of t\<rparr>"

abbreviation (input) NL :: char where "NL \<equiv> CHR 0x0A"

definition say_error :: "string \<Rightarrow> status_t \<Rightarrow> kst \<Rightarrow> kst" where
  "say_error cmd st s = say (cmd @ '': '' @ status_name st @ [NL]) s"

section \<open>Words\<close>

definition is_blank :: "char \<Rightarrow> bool" where
  "is_blank c \<longleftrightarrow> c = CHR '' '' \<or> c = CHR 0x09"

function word_loop :: "string \<Rightarrow> string list \<Rightarrow> nat \<Rightarrow> string list" where
  "word_loop line av mx =
     (if line = [] \<or> mx \<le> Suc (length av) then av
      else let l1 = dropWhile is_blank line
           in if l1 = [] then av
              else word_loop (drop (Suc (length (takeWhile (\<lambda>c. \<not> is_blank c) l1))) l1)
                     (av @ [takeWhile (\<lambda>c. \<not> is_blank c) l1]) mx)"
  by pat_completeness auto
termination by (relation "measure (\<lambda>(line, av, mx). mx - length av)") auto

declare word_loop.simps [simp del]

definition sh_split :: "string \<Rightarrow> nat \<Rightarrow> string list" where
  "sh_split line mx = word_loop line [] mx"

text \<open>The line after it has been split: the blank behind each word has become a zero.\<close>

function mark_words :: "string \<Rightarrow> nat \<Rightarrow> nat \<Rightarrow> string" where
  "mark_words line n mx =
     (if line = [] \<or> mx \<le> Suc n then line
      else let l1 = dropWhile is_blank line; l2 = dropWhile (\<lambda>c. \<not> is_blank c) l1
           in if l1 = [] \<or> l2 = [] then line
              else takeWhile is_blank line @ takeWhile (\<lambda>c. \<not> is_blank c) l1 @ CHR 0x00 # mark_words (tl l2) (Suc n) mx)"
  by pat_completeness auto
termination by (relation "measure (\<lambda>(line, n, mx). mx - n)") auto

declare mark_words.simps [simp del]

definition typed :: "string \<Rightarrow> string" where
  "typed line = takeWhile (\<lambda>c. c \<noteq> CHR 0x00) line"

definition split_line :: "string \<Rightarrow> nat \<Rightarrow> string" where
  "split_line line mx = mark_words (typed line) 0 mx @ drop (length (typed line)) line"

section \<open>Commands\<close>

definition cmd_help :: "kst \<Rightarrow> kst" where
  "cmd_help s =
     say (''jasOS sh'' @ [CHR 0x20, CHR 0xE2, CHR 0x80, CHR 0x94, CHR 0x20] @ ''commands talk to Aegis through Nt*'' @ [NL]
          @ ''  help ps ls cat echo mkdir touch rm cd pwd'' @ [NL] @ ''  mem uname dmesg handles crash yield'' @ [NL]) s"

definition ps_line :: "sys_process_info \<Rightarrow> string" where
  "ps_line i =
     emit_u (spi_pid i) 10 False 5 CHR '' '' @ ''  '' @ emit_u (ucast (spi_threads i)) 10 False 3 CHR '' '' @ ''  '' @ spi_state i @ ''  ''
     @ spi_image i @ [NL]"

text \<open>What a program reads back from the buffer of \<open>NtQuerySystemInformation\<close>.\<close>

definition upto_nul :: "u8 list \<Rightarrow> string" where
  "upto_nul bs = map (\<lambda>b. char_of (unat b)) (takeWhile (\<lambda>b. b \<noteq> 0) bs)"

definition u64_at :: "u8 list \<Rightarrow> nat \<Rightarrow> u64" where
  "u64_at buf off = le_bytes 8 (\<lambda>i. buf ! (off + i))"

definition info_at :: "u8 list \<Rightarrow> nat \<Rightarrow> sys_process_info" where
  "info_at buf off =
     \<lparr>spi_pid = u64_at buf off, spi_threads = ucast (le_bytes 4 (\<lambda>i. buf ! (off + 8 + i))),
      spi_image = upto_nul (drop (off + 12) buf), spi_state = upto_nul (drop (off + 76) buf)\<rparr>"

definition query_processes :: "kst \<Rightarrow> status_t \<times> sys_process_info list" where
  "query_processes s =
     (let (st, got, buf) = NtQuerySystemInformation 5 (replicate (MAX_PROCESSES * SIZEOF_PROCESS_INFO) 0) s
      in (st, map (\<lambda>i. info_at buf (i * SIZEOF_PROCESS_INFO)) [0..<got div SIZEOF_PROCESS_INFO]))"

definition cmd_ps :: "kst \<Rightarrow> kst" where
  "cmd_ps s =
     (let (st, infos) = query_processes s
      in if \<not> NT_SUCCESS st then say_error ''ps'' st s
         else say (''  PID  THR  STATE  IMAGE'' @ [NL] @ concat (map ps_line infos)) s)"

definition cmd_mem :: "kst \<Rightarrow> kst" where
  "cmd_mem s =
     (let (st, got, m) = NtQuerySystemInformation 0 (replicate SIZEOF_MEM_INFO 0) s
      in if \<not> NT_SUCCESS st then say_error ''mem'' st s
         else say (''pages total '' @ emit_u (u64_at m 0) 10 False 0 CHR '' ''
                   @ '' free '' @ emit_u (u64_at m 8) 10 False 0 CHR '' ''
                   @ ''  heap '' @ emit_u (u64_at m 16) 10 False 0 CHR '' ''
                   @ ''  ticks '' @ emit_u (u64_at m 24) 10 False 0 CHR '' '' @ [NL]) s)"

text \<open>A handle that is closed at the end.\<close>

definition close_after :: "handle_t \<Rightarrow> kst \<Rightarrow> kst outcome" where
  "close_after h s = bind_outcome (NtClose h s) (\<lambda>(s1, st). Ret s1)"

definition cmd_ls :: "string \<Rightarrow> kst \<Rightarrow> kst outcome" where
  "cmd_ls p s =
     bind_outcome (NtCreateFile (FILE_READ_DATA OR DIRECTORY_QUERY) p FILE_OPEN FILE_DIRECTORY_FILE s) (\<lambda>(s1, st, h).
       if \<not> NT_SUCCESS st then Ret (say_error (''ls: '' @ p) st s1)
       else bind_outcome (NtQueryDirectoryFile h 1023 True s1) (\<lambda>(s2, st2, text).
              if st2 = STATUS_END_OF_FILE then close_after h s2
              else if \<not> NT_SUCCESS st2 then close_after h (say_error ''ls'' st2 s2)
              else close_after h (say (text @ [NL]) s2)))"

text \<open>The bytes read are printed up to the first zero.\<close>

definition say_bytes :: "u8 list \<Rightarrow> kst \<Rightarrow> kst" where
  "say_bytes bs s = s\<lparr>k_serial_out := k_serial_out s @ takeWhile (\<lambda>b. b \<noteq> 0) bs\<rparr>"

partial_function (option) cat_loop :: "handle_t \<Rightarrow> kst \<Rightarrow> (kst \<times> unit flow) outcome option" where
  "cat_loop h s =
     (case NtReadFile h 255 (- 1) s of
        Ret (s1, fl) \<Rightarrow>
          (case fl of
             Now r \<Rightarrow>
               if fst r = STATUS_END_OF_FILE then Some (Ret (s1, Now ()))
               else if \<not> NT_SUCCESS (fst r) then Some (Ret (say_error ''cat'' (fst r) s1, Now ()))
               else if snd r = [] then Some (Ret (s1, Now ()))
               else cat_loop h (say_bytes (snd r) s1)
           | Sleeps \<Rightarrow> Some (Ret (s1, Sleeps))
           | Exits \<Rightarrow> Some (Ret (s1, Exits)))
      | Panic m \<Rightarrow> Some (Panic m)
      | Hang \<Rightarrow> Some Hang)"

definition cmd_cat :: "string option \<Rightarrow> kst \<Rightarrow> (kst \<times> unit flow) outcome" where
  "cmd_cat path s =
     (case path of
        None \<Rightarrow> Ret (say (''cat: usage: cat file'' @ [NL]) s, Now ())
      | Some p \<Rightarrow>
          bind_outcome (NtCreateFile FILE_READ_DATA p FILE_OPEN FILE_NON_DIRECTORY_FILE s) (\<lambda>(s1, st, h).
            if \<not> NT_SUCCESS st then Ret (say_error (''cat: '' @ p) st s1, Now ())
            else bind_flow (of_loop (cat_loop h s1)) (\<lambda>s2 u. bind_outcome (close_after h s2) (\<lambda>s3. Ret (s3, Now ())))))"

fun echo_words :: "string list \<Rightarrow> string" where
  "echo_words [] = []"
| "echo_words [w] = w"
| "echo_words (w # v # ws) = w @ '' '' @ echo_words (v # ws)"

definition cmd_echo :: "string list \<Rightarrow> kst \<Rightarrow> kst" where
  "cmd_echo av s = say (echo_words (tl av) @ [NL]) s"

definition cmd_mkdir :: "string option \<Rightarrow> kst \<Rightarrow> kst outcome" where
  "cmd_mkdir path s =
     (case path of
        None \<Rightarrow> Ret (say (''mkdir: usage'' @ [NL]) s)
      | Some p \<Rightarrow>
          bind_outcome (NtCreateFile FILE_READ_DATA p FILE_CREATE FILE_DIRECTORY_FILE s) (\<lambda>(s1, st, h).
            if \<not> NT_SUCCESS st then Ret (say_error ''mkdir'' st s1) else close_after h s1))"

definition cmd_touch :: "string option \<Rightarrow> kst \<Rightarrow> kst outcome" where
  "cmd_touch path s =
     (case path of
        None \<Rightarrow> Ret s
      | Some p \<Rightarrow>
          bind_outcome (NtCreateFile FILE_WRITE_DATA p FILE_OPEN_IF FILE_NON_DIRECTORY_FILE s) (\<lambda>(s1, st, h).
            if \<not> NT_SUCCESS st then Ret (say_error ''touch'' st s1) else close_after h s1))"

definition cmd_write :: "string option \<Rightarrow> string \<Rightarrow> kst \<Rightarrow> (kst \<times> unit flow) outcome" where
  "cmd_write path text s =
     (case path of
        None \<Rightarrow> Ret (s, Now ())
      | Some p \<Rightarrow>
          bind_outcome (NtCreateFile FILE_WRITE_DATA p FILE_OPEN_IF FILE_NON_DIRECTORY_FILE s) (\<lambda>(s1, st, h).
            if \<not> NT_SUCCESS st then Ret (say_error ''write'' st s1, Now ())
            else bind_flow (NtWriteFile h (bytes_of text) 0 s1) (\<lambda>s2 r. bind_outcome (close_after h s2) (\<lambda>s3. Ret (s3, Now ())))))"

text \<open>Any other word is a program to run and wait for.\<close>

definition prog_path :: "string \<Rightarrow> string" where
  "prog_path w = (if hd w = CHR ''/'' \<or> hd w = CHR 0x5C then cut PATH_MAX w else cut PATH_MAX (''/bin/'' @ w))"

definition run_and_wait :: "string \<Rightarrow> string list \<Rightarrow> string \<Rightarrow> kst \<Rightarrow> (kst \<times> unit flow) outcome" where
  "run_and_wait path av who s =
     bind_outcome (NtCreateProcess2 PROCESS_ALL_ACCESS path 0
         (Some \<lparr>ci_argc = length av, ci_argv = Some (map Some av), ci_envc = 2,
                ci_envp = Some [Some ''PATH=/bin:/usr/bin'', Some ''HOME=/'']\<rparr>) s) (\<lambda>(s1, st, ph).
       if \<not> NT_SUCCESS st then Ret (say_error who st s1, Now ())
       else bind_flow (NtWaitForSingleObject ph (- 1) s1) (\<lambda>s2 st2. bind_outcome (close_after ph s2) (\<lambda>s3. Ret (s3, Now ()))))"

section \<open>The shell\<close>

definition arg :: "string list \<Rightarrow> nat \<Rightarrow> string option" where
  "arg av i = (if i < length av then Some (av ! i) else None)"

definition arg_or :: "string list \<Rightarrow> nat \<Rightarrow> string \<Rightarrow> string" where
  "arg_or av i d = (case arg av i of Some a \<Rightarrow> a | None \<Rightarrow> d)"

definition plain :: "kst outcome \<Rightarrow> (kst \<times> bool flow) outcome" where
  "plain m = bind_outcome m (\<lambda>s. Ret (s, Now False))"

definition goes_on :: "(kst \<times> 'a flow) outcome \<Rightarrow> (kst \<times> bool flow) outcome" where
  "goes_on m = bind_flow m (\<lambda>s x. Ret (s, Now False))"

text \<open>One command line; the result is whether the shell ends.\<close>

definition sh_command :: "string \<Rightarrow> string list \<Rightarrow> kst \<Rightarrow> (kst \<times> bool flow) outcome" where
  "sh_command version av s =
     (if av = [] then Ret (s, Now False)
      else let w = av ! 0
           in if w = ''help'' then plain (Ret (cmd_help s))
              else if w = ''ps'' then plain (Ret (cmd_ps s))
              else if w = ''mem'' then plain (Ret (cmd_mem s))
              else if w = ''ls'' then plain (cmd_ls (arg_or av 1 ''.'') s)
              else if w = ''cat'' then goes_on (cmd_cat (arg av 1) s)
              else if w = ''echo'' then plain (Ret (cmd_echo av s))
              else if w = ''mkdir'' then plain (cmd_mkdir (arg av 1) s)
              else if w = ''touch'' then plain (cmd_touch (arg av 1) s)
              else if w = ''write'' then goes_on (cmd_write (arg av 1) (arg_or av 2 []) s)
              else if w = ''rm'' then
                plain (bind_outcome (NtDeleteFile (arg_or av 1 []) s) (\<lambda>(s1, st).
                  Ret (if \<not> NT_SUCCESS st then say_error ''rm'' st s1 else s1)))
              else if w = ''cd'' then
                (case NtSetCwd (arg_or av 1 ''/'') s of
                   (s1, st) \<Rightarrow> plain (Ret (if \<not> NT_SUCCESS st then say_error ''cd'' st s1 else s1)))
              else if w = ''pwd'' then plain (Ret (say (snd (NtGetCwd PATH_MAX s) @ [NL]) s))
              else if w = ''uname'' then plain (Ret (say (''jasOS Aegis '' @ version @ '' x86_64'' @ [NL]) s))
              else if w = ''yield'' then goes_on (NtYieldExecution s)
              else if w = ''crash'' then goes_on (NtRaiseException STATUS_ACCESS_VIOLATION s)
              else if w = ''exit'' then Ret (s, Now True)
              else goes_on (run_and_wait (prog_path w) av (''sh: '' @ w) s))"

definition prompt :: "kst \<Rightarrow> kst" where
  "prompt s = say (''root@jasos:'' @ snd (NtGetCwd PATH_MAX s) @ ''# '') s"

text \<open>
  One turn of the main loop for the character \<open>c\<close>, negative if there is none: the line edited after it and whether the
  shell has ended.  The line is read when it is complete; one of more than 255 characters is cut.  The line is a static
  buffer, which is emptied only after its command: a shell that ends leaves it behind, and so does one that waits for
  another shell.
\<close>

definition sh_step :: "string \<Rightarrow> int \<Rightarrow> string \<Rightarrow> kst \<Rightarrow> (kst \<times> (string \<times> bool) flow) outcome" where
  "sh_step version c0 line s =
     (if c0 < 0 then bind_flow (NtYieldExecution s) (\<lambda>s1 st. Ret (s1, Now (line, False)))
      else let c = (if c0 = 13 then 10 else c0)
           in if c = 10
              then bind_flow (sh_command version (sh_split (typed line) 16) (say [NL] s)) (\<lambda>s1 ends.
                     Ret (if ends then (s1, Now (split_line line 16, True)) else (prompt s1, Now ([], False))))
              else if c = 127 \<or> c = 8
              then Ret (if line \<noteq> [] then (say [CHR 0x08, CHR 0x20, CHR 0x08] s, Now (butlast line, False)) else (s, Now (line, False)))
              else if Suc (length line) < 256 \<and> c \<ge> 32 \<and> c < 127
              then Ret (say [char_of (nat c)] s, Now (line @ [char_of (nat c)], False))
              else Ret (s, Now (line, False)))"

text \<open>The loop for the characters \<open>cs\<close> it polls; \<open>line\<close> is what the buffer holds when the shell starts.\<close>

fun sh_loop :: "string \<Rightarrow> int list \<Rightarrow> string \<Rightarrow> kst \<Rightarrow> (kst \<times> (string \<times> bool) flow) outcome" where
  "sh_loop version [] line s = Ret (s, Now (line, False))"
| "sh_loop version (c # cs) line s =
     bind_flow (sh_step version c line s) (\<lambda>s1 r.
       if snd r then Ret (s1, Now r) else sh_loop version cs (fst r) s1)"

definition sh_main :: "string \<Rightarrow> int list \<Rightarrow> string \<Rightarrow> kst \<Rightarrow> (kst \<times> (string \<times> bool) flow) outcome" where
  "sh_main version cs line s = sh_loop version cs line (prompt (say (''sh: Aegis shell. help for commands.'' @ [NL]) s))"

section \<open>The first program\<close>

definition cat_path :: "string \<Rightarrow> kst \<Rightarrow> (kst \<times> unit flow) outcome" where
  "cat_path path s =
     bind_outcome (NtCreateFile FILE_READ_DATA path FILE_OPEN FILE_NON_DIRECTORY_FILE s) (\<lambda>(s1, st, h).
       if \<not> NT_SUCCESS st then Ret (s1, Now ())
       else bind_flow (NtReadFile h 255 0 s1) (\<lambda>s2 (st2, bs).
              bind_outcome (close_after h (if NT_SUCCESS st2 \<or> st2 = STATUS_END_OF_FILE then say_bytes bs s2 else s2))
                (\<lambda>s3. Ret (s3, Now ()))))"

definition init_main :: "kst \<Rightarrow> (kst \<times> unit flow) outcome" where
  "init_main s =
     bind_flow (cat_path ''/etc/motd'' s) (\<lambda>s1 u.
       bind_outcome (NtCreateProcess2 PROCESS_ALL_ACCESS ''/bin/sh'' 0
           (Some \<lparr>ci_argc = 1, ci_argv = Some [Some ''/bin/sh''], ci_envc = 2,
                  ci_envp = Some [Some ''PATH=/bin:/usr/bin'', Some ''HOME=/'']\<rparr>) (say (''init: launching sh'' @ [NL]) s1)) (\<lambda>(s2, st, sh).
         if \<not> NT_SUCCESS st then Ret (say (''init: spawn sh failed '' @ status_name st @ [NL]) s2, Now ())
         else bind_flow (NtWaitForSingleObject sh (- 1) s2) (\<lambda>s3 st3.
                bind_outcome (close_after sh s3) (\<lambda>s4. Ret (say (''init: sh exited, idling'' @ [NL]) s4, Now ())))))"

section \<open>Splitting and editing\<close>

text \<open>The words of a line are not empty and contain no blanks, and there is always room for the terminating null pointer.\<close>

lemma word_loop_words:
  assumes "list_all (\<lambda>w. w \<noteq> [] \<and> (\<forall>c \<in> set w. \<not> is_blank c)) av" "length av < mx"
  shows "list_all (\<lambda>w. w \<noteq> [] \<and> (\<forall>c \<in> set w. \<not> is_blank c)) (word_loop line av mx) \<and> length (word_loop line av mx) < mx"
  using assms
proof (induction line av mx rule: word_loop.induct)
  case (1 line av mx)
  define l where "l = dropWhile is_blank line"
  define w where "w = takeWhile (\<lambda>c. \<not> is_blank c) l"
  show ?case
  proof (cases "line = [] \<or> mx \<le> Suc (length av) \<or> l = []")
    case True
    then have "word_loop line av mx = av" by (subst word_loop.simps) (auto simp: Let_def l_def)
    then show ?thesis using 1(2,3) by simp
  next
    case False
    then have "\<not> is_blank (hd l)" using hd_dropWhile[of is_blank line] unfolding l_def by simp
    then have "w \<noteq> []" using False unfolding w_def by (cases l) auto
    moreover have "\<forall>c \<in> set w. \<not> is_blank c" unfolding w_def using set_takeWhileD by fastforce
    ultimately have w: "list_all (\<lambda>w. w \<noteq> [] \<and> (\<forall>c \<in> set w. \<not> is_blank c)) (av @ [w])" "length (av @ [w]) < mx"
      using 1(2) False by simp_all
    have e: "word_loop line av mx = word_loop (drop (Suc (length w)) l) (av @ [w]) mx"
      using False by (subst word_loop.simps) (simp only: Let_def l_def[symmetric] w_def[symmetric] if_False de_Morgan_disj simp_thms)
    show ?thesis unfolding e unfolding w_def
      by (rule 1(1)[OF _ l_def]) (use False w in \<open>simp_all add: w_def\<close>)
  qed
qed

lemma sh_split_words:
  "0 < mx \<Longrightarrow> list_all (\<lambda>w. w \<noteq> [] \<and> (\<forall>c \<in> set w. \<not> is_blank c)) (sh_split line mx) \<and> length (sh_split line mx) < mx"
  unfolding sh_split_def by (rule word_loop_words) simp_all

text \<open>The line fits its buffer, with the terminating zero, whatever is typed.\<close>

lemma bind_flow_Now: "bind_flow m k = Ret (s, Now x) \<longleftrightarrow> (\<exists>s1 y. m = Ret (s1, Now y) \<and> k s1 y = Ret (s, Now x))"
proof (cases m)
  case (Ret a)
  obtain s1 fl where "a = (s1, fl)" by fastforce
  then show ?thesis using Ret by (cases fl) (auto simp: bind_flow_def)
qed (simp_all add: bind_flow_def)

lemma mark_words_length [simp]: "length (mark_words line n mx) = length line"
proof (induction line n mx rule: mark_words.induct)
  case (1 line n mx)
  define l1 where "l1 = dropWhile is_blank line"
  define l2 where "l2 = dropWhile (\<lambda>c. \<not> is_blank c) l1"
  show ?case
  proof (cases "line = [] \<or> mx \<le> Suc n \<or> l1 = [] \<or> l2 = []")
    case True
    then have "mark_words line n mx = line" by (subst mark_words.simps) (auto simp: Let_def l1_def l2_def)
    then show ?thesis by simp
  next
    case False
    then have e: "mark_words line n mx = takeWhile is_blank line @ takeWhile (\<lambda>c. \<not> is_blank c) l1 @ CHR 0x00 # mark_words (tl l2) (Suc n) mx"
      by (subst mark_words.simps) (simp only: Let_def l1_def[symmetric] l2_def[symmetric] if_False de_Morgan_disj simp_thms)
    have ih: "length (mark_words (tl l2) (Suc n) mx) = length (tl l2)"
      by (rule 1[OF _ l1_def l2_def]) (use False in simp_all)
    have "length line = length (takeWhile is_blank line) + length l1"
      unfolding l1_def by (metis length_append takeWhile_dropWhile_id)
    moreover have "length l1 = length (takeWhile (\<lambda>c. \<not> is_blank c) l1) + length l2"
      unfolding l2_def by (metis length_append takeWhile_dropWhile_id)
    moreover obtain d r where "l2 = d # r" using False by (cases l2) auto
    ultimately show ?thesis unfolding e using ih by simp
  qed
qed

lemma split_line_length [simp]: "length (split_line line mx) = length line"
  using length_takeWhile_le[of "\<lambda>c. c \<noteq> CHR 0x00" line] by (simp add: split_line_def typed_def)

lemma sh_step_line:
  assumes "sh_step version c line s = Ret (s', Now (line', ends))" "length line < 256"
  shows "length line' < 256"
  using assms by (auto simp: sh_step_def Let_def bind_flow_Now split: if_splits)

lemma sh_loop_line:
  "sh_loop version cs line s = Ret (s', Now (line', ends)) \<Longrightarrow> length line < 256 \<Longrightarrow> length line' < 256"
proof (induction cs arbitrary: line s)
  case (Cons c cs)
  from Cons.prems(1) obtain s1 q where st: "sh_step version c line s = Ret (s1, Now q)"
    and r: "(if snd q then Ret (s1, Now q) else sh_loop version cs (fst q) s1) = Ret (s', Now (line', ends))"
    unfolding sh_loop.simps bind_flow_Now by blast
  obtain l1 e1 where q: "q = (l1, e1)" by fastforce
  show ?case using r Cons.IH[of l1 s1] sh_step_line[OF st[unfolded q] Cons.prems(2)] by (cases e1) (auto simp: q)
qed simp

end
