(* ===== verification/Userland.thy ===== *)
theory Userland
  imports Sh "HOL-Library.Signed_Division"
begin

text \<open>
  The user library and the programs, \<^verbatim>\<open>user/libc\<close> and \<^verbatim>\<open>user/bin\<close>: \<open>printf\<close> on a console handle that is opened once, the page
  allocator \<open>malloc\<close>, and the programs built on them.  A system call is the service it reaches:
  the copies the dispatcher makes of buffers and strings (theory \<open>Syscall_Dispatch\<close>), whose limits these programs keep, and the
  failures of the kernel to allocate them are left out.  A program runs until it returns its exit code, blocks or ends.
\<close>

section \<open>printf\<close>

text \<open>The digits of an \<open>int\<close>; the quotient and the remainder are rounded towards zero, as in C.\<close>

function udec_loop :: "int \<Rightarrow> string \<Rightarrow> string" where
  "udec_loop v b =
     (if v \<noteq> 0 \<and> length b < 16 then udec_loop (v sdiv 10) (b @ [char_of (nat ((48 + v smod 10) mod 256))]) else b)"
  by pat_completeness auto
termination by (relation "measure (\<lambda>(v, b). 16 - length b)") auto

declare udec_loop.simps [simp del]

text \<open>The negation of the least \<open>int\<close> is taken to wrap around.\<close>

definition udec :: "u32 \<Rightarrow> string" where
  "udec v =
     (let neg = (sint v < 0); v' = (if neg then sint (- v) else sint v)
      in (if neg then ''-'' else []) @ rev (udec_loop v' (if v' = 0 then ''0'' else [])))"

function uhex_loop :: "u32 \<Rightarrow> string \<Rightarrow> string" where
  "uhex_loop v b = (if v \<noteq> 0 \<and> length b < 16 then uhex_loop (drop_bit 4 v) (b @ [dig False (unat (v AND 15))]) else b)"
  by pat_completeness auto
termination by (relation "measure (\<lambda>(v, b). 16 - length b)") auto

declare uhex_loop.simps [simp del]

definition uhex :: "u32 \<Rightarrow> string" where
  "uhex v = rev (uhex_loop v (if v = 0 then ''0'' else []))"

definition singles :: "string \<Rightarrow> string list" where
  "singles t = map (\<lambda>c. [c]) t"

text \<open>The pieces one conversion writes, one system call each.\<close>

definition uconv :: "char \<Rightarrow> varg list \<Rightarrow> (string list \<times> varg list) outcome" where
  "uconv c ap =
     (if c = CHR ''s'' then bind_outcome (va_str ap) (\<lambda>(t, ap'). Ret ([emit_str t], ap'))
      else if c = CHR ''c'' then bind_outcome (va_num ap) (\<lambda>(n, ap'). Ret ([[char_of (unat n)]], ap'))
      else if c = CHR ''d'' then bind_outcome (va_num ap) (\<lambda>(n, ap'). Ret (singles (udec (ucast n)), ap'))
      else if c = CHR ''x'' then bind_outcome (va_num ap) (\<lambda>(n, ap'). Ret (singles (uhex (ucast n)), ap'))
      else Ret ([[c]], ap))"

text \<open>A format that ends in a percent sign is read behind its end.\<close>

fun upieces :: "string \<Rightarrow> varg list \<Rightarrow> string list outcome" where
  "upieces [] ap = Ret []"
| "upieces [c] ap = (if c = CHR ''%'' then Panic ''format read'' else Ret [[c]])"
| "upieces (c # d # f) ap =
     (if c \<noteq> CHR ''%'' then bind_outcome (upieces (d # f) ap) (\<lambda>ps. Ret ([c] # ps))
      else bind_outcome (uconv d ap) (\<lambda>(ps, ap'). bind_outcome (upieces f ap') (\<lambda>qs. Ret (ps @ qs))))"

text \<open>The console handle is kept from call to call; 0 is none.\<close>

definition con_out :: "handle_t \<Rightarrow> kst \<Rightarrow> (kst \<times> handle_t) outcome" where
  "con_out con s =
     (if con \<noteq> 0 then Ret (s, con)
      else bind_outcome (NtCreateFile FILE_WRITE_DATA ''/dev/console'' FILE_OPEN FILE_NON_DIRECTORY_FILE s) (\<lambda>(s1, st, h).
             Ret (s1, if NT_SUCCESS st then h else 0)))"

definition uemit_buf :: "string \<Rightarrow> handle_t \<Rightarrow> kst \<Rightarrow> (kst \<times> handle_t flow) outcome" where
  "uemit_buf t con s =
     bind_outcome (con_out con s) (\<lambda>(s1, h).
       if h = 0 \<or> t = [] then Ret (s1, Now h)
       else bind_flow (NtWriteFile h (bytes_of t) 0 s1) (\<lambda>s2 r. Ret (s2, Now h)))"

fun uemit_all :: "string list \<Rightarrow> handle_t \<Rightarrow> kst \<Rightarrow> (kst \<times> handle_t flow) outcome" where
  "uemit_all [] con s = Ret (s, Now con)"
| "uemit_all (p # ps) con s = bind_flow (uemit_buf p con s) (\<lambda>s1 h. uemit_all ps h s1)"

definition uprintf :: "string \<Rightarrow> varg list \<Rightarrow> handle_t \<Rightarrow> kst \<Rightarrow> (kst \<times> (handle_t \<times> nat) flow) outcome" where
  "uprintf fmt ap con s =
     bind_outcome (upieces fmt ap) (\<lambda>ps.
       bind_flow (uemit_all ps con s) (\<lambda>s1 h. Ret (s1, Now (h, length (concat ps)))))"

section \<open>malloc and free\<close>

text \<open>
  A store or load of the program in its own memory goes through its address space; where that fails the processor faults
  and the thread ends.
\<close>

definition user_store :: "virt_t \<Rightarrow> u8 list \<Rightarrow> kst \<Rightarrow> (kst \<times> unit flow) outcome" where
  "user_store va bs s =
     bind_outcome (vmm_write_aspace (h_pmm (k_heap s)) (pr_aspace (k_proc s (k_current_process s))) va bs) (\<lambda>(pm, st).
       if NT_SUCCESS st then Ret (k_set_pmm pm s, Now ())
       else bind_outcome (sched_exit_thread STATUS_ACCESS_VIOLATION (k_set_pmm pm s)) (\<lambda>s1. Ret (s1, Exits)))"

definition user_load64 :: "virt_t \<Rightarrow> kst \<Rightarrow> (kst \<times> u64 flow) outcome" where
  "user_load64 va s =
     bind_outcome (vmm_read_aspace (h_pmm (k_heap s)) (pr_aspace (k_proc s (k_current_process s))) va 8) (\<lambda>(pm, st, bs).
       if NT_SUCCESS st then Ret (k_set_pmm pm s, Now (le_bytes 8 (\<lambda>i. bs ! i)))
       else bind_outcome (sched_exit_thread STATUS_ACCESS_VIOLATION (k_set_pmm pm s)) (\<lambda>s1. Ret (s1, Exits)))"

definition umalloc_size :: "u64 \<Rightarrow> u64" where
  "umalloc_size n = PAGE_ALIGN_UP ((if n = 0 then 1 else n) + 16)"

definition umalloc :: "u64 \<Rightarrow> kst \<Rightarrow> (kst \<times> virt_t flow) outcome" where
  "umalloc n s =
     bind_outcome (NtAllocateVirtualMemory HANDLE_CURRENT 0 (umalloc_size n) PAGE_READWRITE s) (\<lambda>(s1, st, base).
       if \<not> NT_SUCCESS st then Ret (s1, Now 0)
       else bind_flow (user_store base (le8 (umalloc_size n)) s1) (\<lambda>s2 u. Ret (s2, Now (base + 16))))"

definition ufree :: "virt_t \<Rightarrow> kst \<Rightarrow> (kst \<times> unit flow) outcome" where
  "ufree p s =
     (if p = 0 then Ret (s, Now ())
      else bind_flow (user_load64 (p - 16) s) (\<lambda>s1 sz.
             bind_outcome (NtFreeVirtualMemory HANDLE_CURRENT (p - 16) sz s1) (\<lambda>(s2, st). Ret (s2, Now ()))))"

text \<open>The size computation wraps around: a request for nearly the whole address space is met with one page.\<close>

lemma umalloc_size_wraps: "umalloc_size 0xFFFFFFFFFFFFFFFF = 0x1000"
  by (simp add: umalloc_size_def PAGE_ALIGN_UP_def)

section \<open>Programs\<close>

text \<open>What a program prints next, with the console handle passed on.\<close>

definition then_printf ::
    "string \<Rightarrow> varg list \<Rightarrow> (kst \<times> handle_t flow) outcome \<Rightarrow> (kst \<times> handle_t flow) outcome" where
  "then_printf fmt ap m = bind_flow m (\<lambda>s con. bind_flow (uprintf fmt ap con s) (\<lambda>s1 r. Ret (s1, Now (fst r))))"

definition exits_with :: "nat \<Rightarrow> (kst \<times> handle_t flow) outcome \<Rightarrow> (kst \<times> nat flow) outcome" where
  "exits_with code m = bind_flow m (\<lambda>s con. Ret (s, Now code))"

fun echo_args :: "bool \<Rightarrow> string option list \<Rightarrow> (kst \<times> handle_t flow) outcome \<Rightarrow> (kst \<times> handle_t flow) outcome" where
  "echo_args first [] m = m"
| "echo_args first (a # as) m =
     echo_args False as
       (then_printf ''%s'' [VStr (Some (case a of Some t \<Rightarrow> t | None \<Rightarrow> []))] (if first then m else then_printf '' '' [] m))"

definition echo_main :: "string option list \<Rightarrow> kst \<Rightarrow> (kst \<times> nat flow) outcome" where
  "echo_main argv s = exits_with 0 (then_printf [NL] [] (echo_args True (tl argv) (Ret (s, Now 0))))"

definition ls_main :: "string list \<Rightarrow> kst \<Rightarrow> (kst \<times> nat flow) outcome" where
  "ls_main argv s =
     (let path = (if length argv > 1 then argv ! 1 else ''.'')
      in bind_outcome (NtCreateFile (FILE_READ_DATA OR DIRECTORY_QUERY) path FILE_OPEN FILE_DIRECTORY_FILE s) (\<lambda>(s1, st, h).
           if \<not> NT_SUCCESS st
           then exits_with 1 (then_printf (''ls: %s: %x'' @ [NL]) [VStr (Some path), VNum (ucast st)] (Ret (s1, Now 0)))
           else bind_outcome (NtQueryDirectoryFile h 1023 True s1) (\<lambda>(s2, st2, text).
             let shown = (NT_SUCCESS st2 \<or> st2 = STATUS_END_OF_FILE)
             in bind_flow (if shown then then_printf (''%s'' @ [NL]) [VStr (Some text)] (Ret (s2, Now 0)) else Ret (s2, Now 0)) (\<lambda>s3 con.
                  bind_outcome (NtClose h s3) (\<lambda>(s4, st4). Ret (s4, Now (if shown then 0 else 1)))))))"

partial_function (option) ucat_loop :: "handle_t \<Rightarrow> handle_t \<Rightarrow> kst \<Rightarrow> (kst \<times> handle_t flow) outcome option" where
  "ucat_loop h con s =
     (case NtReadFile h 255 (- 1) s of
        Ret (s1, fl) \<Rightarrow>
          (case fl of
             Now r \<Rightarrow>
               if fst r = STATUS_END_OF_FILE \<or> snd r = [] \<or> \<not> NT_SUCCESS (fst r) then Some (Ret (s1, Now con))
               else (case uprintf ''%s'' [VStr (Some (upto_nul (snd r)))] con s1 of
                       Ret (s2, fl2) \<Rightarrow>
                         (case fl2 of
                            Now q \<Rightarrow> ucat_loop h (fst q) s2
                          | Sleeps \<Rightarrow> Some (Ret (s2, Sleeps))
                          | Exits \<Rightarrow> Some (Ret (s2, Exits)))
                     | Panic m \<Rightarrow> Some (Panic m)
                     | Hang \<Rightarrow> Some Hang)
           | Sleeps \<Rightarrow> Some (Ret (s1, Sleeps))
           | Exits \<Rightarrow> Some (Ret (s1, Exits)))
      | Panic m \<Rightarrow> Some (Panic m)
      | Hang \<Rightarrow> Some Hang)"

definition cat_main :: "string list \<Rightarrow> kst \<Rightarrow> (kst \<times> nat flow) outcome" where
  "cat_main argv s =
     (if length argv < 2 then exits_with 1 (then_printf (''cat: usage: cat file'' @ [NL]) [] (Ret (s, Now 0)))
      else bind_outcome (NtCreateFile FILE_READ_DATA (argv ! 1) FILE_OPEN FILE_NON_DIRECTORY_FILE s) (\<lambda>(s1, st, h).
             if \<not> NT_SUCCESS st
             then exits_with 1 (then_printf (''cat: %s: %x'' @ [NL]) [VStr (Some (argv ! 1)), VNum (ucast st)] (Ret (s1, Now 0)))
             else bind_flow (of_loop (ucat_loop h 0 s1)) (\<lambda>s2 con. bind_outcome (NtClose h s2) (\<lambda>(s3, st3). Ret (s3, Now 0)))))"

fun ps_lines :: "sys_process_info list \<Rightarrow> (kst \<times> handle_t flow) outcome \<Rightarrow> (kst \<times> handle_t flow) outcome" where
  "ps_lines [] m = m"
| "ps_lines (i # is) m =
     ps_lines is (then_printf (''%d %d %s %s'' @ [NL])
       [VNum (spi_pid i), VNum (ucast (spi_threads i)), VStr (Some (spi_state i)), VStr (Some (spi_image i))] m)"

definition ps_main :: "kst \<Rightarrow> (kst \<times> nat flow) outcome" where
  "ps_main s =
     (let (st, infos) = query_processes s
      in if \<not> NT_SUCCESS st then exits_with 1 (then_printf (''ps: %x'' @ [NL]) [VNum (ucast st)] (Ret (s, Now 0)))
         else exits_with 0 (ps_lines infos (then_printf (''PID THR STATE IMAGE'' @ [NL]) [] (Ret (s, Now 0)))))"

definition hello_main :: "kst \<Rightarrow> (kst \<times> nat flow) outcome" where
  "hello_main s = exits_with 0 (then_printf (''hello from ring 3'' @ [NL]) [] (Ret (s, Now 0)))"

definition crash_main :: "kst \<Rightarrow> (kst \<times> nat flow) outcome" where
  "crash_main s =
     bind_flow (then_printf (''crash: raising ACCESS_VIOLATION'' @ [NL]) [] (Ret (s, Now 0))) (\<lambda>s1 con.
       bind_flow (NtRaiseException STATUS_ACCESS_VIOLATION s1) (\<lambda>s2 st. Ret (s2, Now 1)))"

end
