(* ===== verification/Machine.thy ===== *)
theory Machine
  imports Prelude
begin

text \<open>
  The processor as far as the assembly files use it: the general registers, the flags, the code and stack segment, the two GS
  bases, and memory in cells of eight bytes.  Every access of the assembly files is one aligned cell; an access that
  is not is \<open>None\<close>.  The arithmetic flags the processor manual leaves undefined are taken to be clear.
\<close>

named_theorems machine "symbolic execution of instructions"

datatype reg = RAX | RCX | RDX | RBX | RSP | RBP | RSI | RDI | R8 | R9 | R10 | R11 | R12 | R13 | R14 | R15

record mach =
  x_reg :: "reg \<Rightarrow> u64"
  x_rip :: u64
  x_flags :: u64
  x_cs :: u64
  x_ss :: u64
  x_ds :: u64
  x_es :: u64
  x_gs :: u64
  x_kgs :: u64
  x_mem :: "u64 \<Rightarrow> u64"

section \<open>Memory and flags\<close>

definition aligned :: "u64 \<Rightarrow> bool" where
  "aligned a \<longleftrightarrow> take_bit 3 a = 0"

definition x_load :: "u64 \<Rightarrow> mach \<Rightarrow> u64 option" where
  "x_load a m = (if aligned a then Some (x_mem m a) else None)"

definition x_store :: "u64 \<Rightarrow> u64 \<Rightarrow> mach \<Rightarrow> mach option" where
  "x_store a v m = (if aligned a then Some (m\<lparr>x_mem := (x_mem m)(a := v)\<rparr>) else None)"

definition set_reg :: "reg \<Rightarrow> u64 \<Rightarrow> mach \<Rightarrow> mach" where
  "set_reg r v m = m\<lparr>x_reg := (x_reg m)(r := v)\<rparr>"

abbreviation (input) FLAG_CF :: u64 where "FLAG_CF \<equiv> 0x1"
abbreviation (input) FLAG_PF :: u64 where "FLAG_PF \<equiv> 0x4"
abbreviation (input) FLAG_AF :: u64 where "FLAG_AF \<equiv> 0x10"
abbreviation (input) FLAG_ZF :: u64 where "FLAG_ZF \<equiv> 0x40"
abbreviation (input) FLAG_SF :: u64 where "FLAG_SF \<equiv> 0x80"
abbreviation (input) FLAG_IF :: u64 where "FLAG_IF \<equiv> 0x200"
abbreviation (input) FLAG_DF :: u64 where "FLAG_DF \<equiv> 0x400"
abbreviation (input) FLAG_OF :: u64 where "FLAG_OF \<equiv> 0x800"
abbreviation (input) FLAG_AC :: u64 where "FLAG_AC \<equiv> 0x40000"

text \<open>The six arithmetic flags.\<close>

abbreviation (input) STATUS_FLAGS :: u64 where "STATUS_FLAGS \<equiv> 0x8D5"

definition parity :: "u64 \<Rightarrow> bool" where
  "parity r \<longleftrightarrow> even (length (filter (bit r) [0..<8]))"

definition status_flags :: "u64 \<Rightarrow> bool \<Rightarrow> bool \<Rightarrow> bool \<Rightarrow> u64" where
  "status_flags r cf af ovf =
     (if cf then FLAG_CF else 0) OR (if parity r then FLAG_PF else 0) OR (if af then FLAG_AF else 0) OR (if r = 0 then FLAG_ZF else 0)
     OR (if bit r 63 then FLAG_SF else 0) OR (if ovf then FLAG_OF else 0)"

definition set_status :: "u64 \<Rightarrow> bool \<Rightarrow> bool \<Rightarrow> bool \<Rightarrow> mach \<Rightarrow> mach" where
  "set_status r cf af ovf m = m\<lparr>x_flags := x_flags m AND NOT STATUS_FLAGS OR status_flags r cf af ovf\<rparr>"

abbreviation (input) logic_flags :: "u64 \<Rightarrow> mach \<Rightarrow> mach" where
  "logic_flags r \<equiv> set_status r False False False"

definition zero_flag :: "mach \<Rightarrow> bool" where
  "zero_flag m \<longleftrightarrow> x_flags m AND FLAG_ZF \<noteq> 0"

section \<open>Instructions\<close>

datatype instr =
    Mov reg reg
  | MovI reg u64
  | MovAx u64
  | Ld reg reg u64
  | St reg u64 reg
  | GsSt u64 reg
  | GsLd reg u64
  | Push reg
  | PushI u64
  | PushGs u64
  | Pop reg
  | Pushfq
  | Popfq
  | Test reg u64
  | TestR reg
  | Xor reg
  | OrI reg u64
  | AndI reg u64
  | AddI reg u64
  | Shr reg nat
  | Lea8 reg reg reg u64
  | MovDs reg
  | MovEs reg
  | Swapgs
  | Cld
  | Cli
  | RetI
  | Iretq
  | Sysretq

definition x_push :: "u64 \<Rightarrow> mach \<Rightarrow> mach option" where
  "x_push v m = x_store (x_reg m RSP - 8) v (set_reg RSP (x_reg m RSP - 8) m)"

text \<open>
  \<open>Test r v\<close> is \<^verbatim>\<open>test r, v\<close>, \<open>TestR r\<close> is \<^verbatim>\<open>test r, r\<close>, \<open>Xor r\<close> is \<^verbatim>\<open>xor r, r\<close>, and \<open>Lea8 d b i o\<close> is
  \<^verbatim>\<open>lea d, [b + i*8 + o]\<close>.  A value popped into the stack pointer replaces it.
\<close>

fun step :: "instr \<Rightarrow> mach \<Rightarrow> mach option" where
  "step (Mov d r) m = Some (set_reg d (x_reg m r) m)"
| "step (MovI d v) m = Some (set_reg d v m)"
| "step (MovAx v) m = Some (set_reg RAX (x_reg m RAX AND NOT 0xFFFF OR v) m)"
| "step (Ld d b off) m = map_option (\<lambda>v. set_reg d v m) (x_load (x_reg m b + off) m)"
| "step (St b off r) m = x_store (x_reg m b + off) (x_reg m r) m"
| "step (GsSt off r) m = x_store (x_gs m + off) (x_reg m r) m"
| "step (GsLd d off) m = map_option (\<lambda>v. set_reg d v m) (x_load (x_gs m + off) m)"
| "step (Push r) m = x_push (x_reg m r) m"
| "step (PushI v) m = x_push v m"
| "step (PushGs off) m = (case x_load (x_gs m + off) m of None \<Rightarrow> None | Some v \<Rightarrow> x_push v m)"
| "step (Pop d) m = map_option (\<lambda>v. set_reg d v (set_reg RSP (x_reg m RSP + 8) m)) (x_load (x_reg m RSP) m)"
| "step Pushfq m = x_push (x_flags m) m"
| "step Popfq m = map_option (\<lambda>v. set_reg RSP (x_reg m RSP + 8) m\<lparr>x_flags := v\<rparr>) (x_load (x_reg m RSP) m)"
| "step (Test r v) m = Some (logic_flags (x_reg m r AND v) m)"
| "step (TestR r) m = Some (logic_flags (x_reg m r) m)"
| "step (Xor r) m = Some (logic_flags 0 (set_reg r 0 m))"
| "step (OrI r v) m = Some (logic_flags (x_reg m r OR v) (set_reg r (x_reg m r OR v) m))"
| "step (AndI r v) m = Some (logic_flags (x_reg m r AND v) (set_reg r (x_reg m r AND v) m))"
| "step (AddI r v) m =
     (let a = x_reg m r; c = a + v
      in Some (set_status c (c < a) (bit (a XOR v XOR c) 4) (bit (NOT (a XOR v) AND (a XOR c)) 63) (set_reg r c m)))"
| "step (Shr r n) m =
     (let a = x_reg m r; c = drop_bit n a in Some (set_status c (0 < n \<and> bit a (n - 1)) False False (set_reg r c m)))"
| "step (Lea8 d b i off) m = Some (set_reg d (x_reg m b + x_reg m i * 8 + off) m)"
| "step (MovDs r) m = Some (m\<lparr>x_ds := take_bit 16 (x_reg m r)\<rparr>)"
| "step (MovEs r) m = Some (m\<lparr>x_es := take_bit 16 (x_reg m r)\<rparr>)"
| "step Swapgs m = Some (m\<lparr>x_gs := x_kgs m, x_kgs := x_gs m\<rparr>)"
| "step Cld m = Some (m\<lparr>x_flags := x_flags m AND NOT FLAG_DF\<rparr>)"
| "step Cli m = Some (m\<lparr>x_flags := x_flags m AND NOT FLAG_IF\<rparr>)"
| "step RetI m = map_option (\<lambda>v. set_reg RSP (x_reg m RSP + 8) m\<lparr>x_rip := v\<rparr>) (x_load (x_reg m RSP) m)"
| "step Iretq m =
     (let sp = x_reg m RSP
      in if aligned sp
         then Some (set_reg RSP (x_mem m (sp + 24)) m\<lparr>x_rip := x_mem m sp, x_cs := x_mem m (sp + 8), x_flags := x_mem m (sp + 16),
                                                       x_ss := x_mem m (sp + 32)\<rparr>)
         else None)"
| "step Sysretq m =
     Some (m\<lparr>x_rip := x_reg m RCX, x_flags := x_reg m R11 AND 0x3C7FD7 OR 2, x_cs := 0x23, x_ss := 0x1B\<rparr>)"

fun run :: "instr list \<Rightarrow> mach \<Rightarrow> mach option" where
  "run [] m = Some m"
| "run (i # is) m = (case step i m of None \<Rightarrow> None | Some m1 \<Rightarrow> run is m1)"

text \<open>
  The instruction \<^verbatim>\<open>syscall\<close> at an address followed by \<open>nx\<close>: the return address and the flags go to registers, the flags of the mask
  are cleared, and execution goes on in the kernel's segments at \<open>lstar\<close>.
\<close>

definition x_syscall :: "u64 \<Rightarrow> u64 \<Rightarrow> u64 \<Rightarrow> mach \<Rightarrow> mach" where
  "x_syscall lstar fmask nx m =
     set_reg RCX nx (set_reg R11 (x_flags m) m)\<lparr>x_flags := x_flags m AND NOT fmask, x_rip := lstar, x_cs := 0x08, x_ss := 0x10\<rparr>"

section \<open>Symbolic execution\<close>

lemma run_append: "run (xs @ ys) m = (case run xs m of None \<Rightarrow> None | Some m1 \<Rightarrow> run ys m1)"
  by (induction xs arbitrary: m) (auto split: option.split)

lemma aligned_add [machine]: "aligned a \<Longrightarrow> aligned b \<Longrightarrow> aligned (a + b)"
  unfolding aligned_def take_bit_eq_0_iff by (rule dvd_add)

lemma aligned_minus [machine]: "aligned a \<Longrightarrow> aligned b \<Longrightarrow> aligned (a - b)"
  unfolding aligned_def take_bit_eq_0_iff by (rule dvd_diff)

lemma aligned_numeral [machine]: "aligned (numeral n) \<longleftrightarrow> take_bit 3 (numeral n :: u64) = 0"
  by (simp add: aligned_def)

lemma x_load_aligned [machine]: "aligned a \<Longrightarrow> x_load a m = Some (x_mem m a)"
  by (simp add: x_load_def)

lemma x_store_aligned [machine]: "aligned a \<Longrightarrow> x_store a v m = Some (m\<lparr>x_mem := (x_mem m)(a := v)\<rparr>)"
  by (simp add: x_store_def)

lemma set_reg_sel [machine]:
  "x_reg (set_reg r v m) q = (if q = r then v else x_reg m q)" "x_mem (set_reg r v m) = x_mem m" "x_flags (set_reg r v m) = x_flags m"
  "x_rip (set_reg r v m) = x_rip m" "x_cs (set_reg r v m) = x_cs m" "x_ss (set_reg r v m) = x_ss m" "x_ds (set_reg r v m) = x_ds m"
  "x_es (set_reg r v m) = x_es m" "x_gs (set_reg r v m) = x_gs m" "x_kgs (set_reg r v m) = x_kgs m"
  by (auto simp: set_reg_def)

lemma set_status_sel [machine]:
  "x_reg (set_status r a b c m) = x_reg m" "x_mem (set_status r a b c m) = x_mem m" "x_rip (set_status r a b c m) = x_rip m"
  "x_cs (set_status r a b c m) = x_cs m" "x_ss (set_status r a b c m) = x_ss m" "x_ds (set_status r a b c m) = x_ds m"
  "x_es (set_status r a b c m) = x_es m" "x_gs (set_status r a b c m) = x_gs m" "x_kgs (set_status r a b c m) = x_kgs m"
  by (simp_all add: set_status_def)

lemmas [machine] = x_push_def Let_def fun_upd_apply

lemma all_reg:
  "(\<forall>r. P r) \<longleftrightarrow> P RAX \<and> P RCX \<and> P RDX \<and> P RBX \<and> P RSP \<and> P RBP \<and> P RSI \<and> P RDI
    \<and> P R8 \<and> P R9 \<and> P R10 \<and> P R11 \<and> P R12 \<and> P R13 \<and> P R14 \<and> P R15" (is "_ \<longleftrightarrow> ?R")
proof (intro iffI allI)
  fix r
  assume ?R
  then show "P r" by (cases r) simp_all
qed simp

end
