(* ===== verification/Switch.thy ===== *)
theory Switch
  imports Machine
begin

text \<open>
  The context switch, \<^verbatim>\<open>kernel/ke/switch.S\<close>, and the way into user mode, \<^verbatim>\<open>kernel/ke/enter_user.S\<close>.  A context is nine cells:
  the callee-saved registers, the instruction pointer, the stack pointer and the flags.
\<close>

section \<open>Code\<close>

definition switch_save :: "instr list" where
  "switch_save =
     [St RDI 0x00 R15, St RDI 0x08 R14, St RDI 0x10 R13, St RDI 0x18 R12, St RDI 0x20 RBX, St RDI 0x28 RBP,
      Pop RAX, St RDI 0x30 RAX, St RDI 0x38 RSP, Pushfq, Pop RAX, St RDI 0x40 RAX]"

definition switch_load :: "instr list" where
  "switch_load =
     [Ld R15 RSI 0x00, Ld R14 RSI 0x08, Ld R13 RSI 0x10, Ld R12 RSI 0x18, Ld RBX RSI 0x20, Ld RBP RSI 0x28,
      Ld RSP RSI 0x38, Ld RAX RSI 0x40, Push RAX, Popfq, Ld RAX RSI 0x30, Push RAX, RetI]"

definition context_switch :: "mach \<Rightarrow> mach option" where
  "context_switch m =
     (case step (TestR RDI) m of
        None \<Rightarrow> None
      | Some m1 \<Rightarrow> run (if zero_flag m1 then switch_load else switch_save @ switch_load) m1)"

definition enter_user :: "mach \<Rightarrow> mach option" where
  "enter_user =
     run ([Cli, MovAx 0x1B, MovDs RAX, MovEs RAX, Xor R8, Xor R9, Xor R10, Xor R11, Xor R12, Xor R13, Xor R14, Xor R15, Xor RBX, Xor RBP,
           PushI 0x1B, Push RSI, OrI RDX 0x200, Push RDX, PushI 0x23, Push RDI, Xor RAX, Xor RCX, Xor RDX, Xor RDI, Xor RSI, Iretq])"

section \<open>Flags\<close>

lemma zero_flag_logic [machine]: "zero_flag (set_status r False False False m) \<longleftrightarrow> r = 0"
proof -
  have "x AND 0x40 \<noteq> 0 \<longleftrightarrow> bit x 6" for x :: u64 using and_exp_eq_0_iff_not_bit[of x 6] by simp
  then show ?thesis by (simp add: zero_flag_def set_status_def status_flags_def bit_simps)
qed

lemma set_status_rest: "x_flags (set_status r a b c m) AND NOT STATUS_FLAGS = x_flags m AND NOT STATUS_FLAGS"
proof -
  have "status_flags r a b c AND NOT STATUS_FLAGS = 0" by (simp add: status_flags_def bit.conj_disj_distrib2)
  then show ?thesis by (simp add: set_status_def bit.conj_disj_distrib2 and.assoc)
qed

section \<open>The switch\<close>

text \<open>The cells of a context, and what they hold.\<close>

definition ctx_cells :: "u64 \<Rightarrow> u64 set" where
  "ctx_cells a = {a, a + 0x08, a + 0x10, a + 0x18, a + 0x20, a + 0x28, a + 0x30, a + 0x38, a + 0x40}"

definition ctx_of :: "u64 \<Rightarrow> mach \<Rightarrow> u64 list" where
  "ctx_of a m = map (x_mem m) [a, a + 0x08, a + 0x10, a + 0x18, a + 0x20, a + 0x28, a + 0x30, a + 0x38, a + 0x40]"

text \<open>
  The two contexts do not overlap each other nor the cell below the stack pointers, and both are aligned.
\<close>

definition switchable :: "mach \<Rightarrow> bool" where
  "switchable m \<longleftrightarrow>
     (let old = x_reg m RDI; new = x_reg m RSI; sp = x_reg m RSP; nsp = x_mem m (new + 0x38)
      in aligned old \<and> aligned new \<and> aligned sp \<and> aligned nsp \<and> ctx_cells old \<inter> ctx_cells new = {}
         \<and> sp \<notin> ctx_cells old \<union> ctx_cells new \<and> nsp - 8 \<notin> ctx_cells old \<union> ctx_cells new)"

definition callee_saved :: "reg list" where
  "callee_saved = [R15, R14, R13, R12, RBX, RBP]"

lemma switch_load_run:
  assumes "aligned new" "aligned nsp" "nsp - 8 \<notin> ctx_cells new" "x_reg m RSI = new"
    "ctx_of new m = [a, b, c, d, e, f, ip, nsp, fl]"
  shows "\<exists>m'. run switch_load m = Some m' \<and> map (x_reg m') callee_saved = [a, b, c, d, e, f] \<and> x_rip m' = ip
    \<and> x_reg m' RSP = nsp \<and> x_flags m' = fl \<and> (\<forall>p. p \<noteq> nsp - 8 \<longrightarrow> x_mem m' p = x_mem m p) \<and> x_gs m' = x_gs m \<and> x_kgs m' = x_kgs m"
  using assms by (auto simp: switch_load_def ctx_of_def ctx_cells_def callee_saved_def machine)

lemma switch_save_run:
  assumes "aligned old" "aligned sp" "sp \<notin> ctx_cells old" "x_reg m RDI = old" "x_reg m RSP = sp"
  shows "\<exists>m'. run switch_save m = Some m' \<and> ctx_of old m' = map (x_reg m) callee_saved @ [x_mem m sp, sp + 8, x_flags m]
    \<and> x_reg m' RSI = x_reg m RSI \<and> (\<forall>p. p \<noteq> sp \<longrightarrow> p \<notin> ctx_cells old \<longrightarrow> x_mem m' p = x_mem m p) \<and> x_gs m' = x_gs m \<and> x_kgs m' = x_kgs m"
proof -
  have ne: "sp \<noteq> old" "sp \<noteq> old + 0x08" "sp \<noteq> old + 0x10" "sp \<noteq> old + 0x18" "sp \<noteq> old + 0x20" "sp \<noteq> old + 0x28"
    "sp \<noteq> old + 0x30" "sp \<noteq> old + 0x38" "sp \<noteq> old + 0x40"
    using assms(3) by (simp_all add: ctx_cells_def)
  show ?thesis using assms(1,2,4,5) ne ne[symmetric] by (simp add: switch_save_def ctx_of_def ctx_cells_def callee_saved_def machine)
qed

lemma ctx_of_cong: "(\<And>p. p \<in> ctx_cells a \<Longrightarrow> x_mem m p = x_mem m' p) \<Longrightarrow> ctx_of a m = ctx_of a m'"
  by (simp add: ctx_of_def ctx_cells_def)

lemma ctx_of_nth: "ctx_of a m = [q, b, c, d, e, f, ip, nsp, fl] \<Longrightarrow> x_mem m (a + 0x38) = nsp"
  by (simp add: ctx_of_def)

text \<open>One switch between two threads: the old one is saved, the new one runs as its context says.\<close>

lemma context_switch_run:
  assumes sw: "switchable m" and old: "x_reg m RDI \<noteq> 0" and new: "ctx_of (x_reg m RSI) m = [a, b, c, d, e, f, ip, nsp, fl]"
  shows "\<exists>m'. context_switch m = Some m' \<and> map (x_reg m') callee_saved = [a, b, c, d, e, f] \<and> x_rip m' = ip
    \<and> x_reg m' RSP = nsp \<and> x_flags m' = fl \<and> x_gs m' = x_gs m \<and> x_kgs m' = x_kgs m
    \<and> (\<exists>st. ctx_of (x_reg m RDI) m' = map (x_reg m) callee_saved @ [x_mem m (x_reg m RSP), x_reg m RSP + 8, st]
         \<and> st AND NOT STATUS_FLAGS = x_flags m AND NOT STATUS_FLAGS)"
proof -
  let ?old = "x_reg m RDI" and ?new = "x_reg m RSI" and ?sp = "x_reg m RSP"
  define m0 where "m0 = set_status ?old False False False m"
  have m0: "x_reg m0 = x_reg m" "x_mem m0 = x_mem m" "x_gs m0 = x_gs m" "x_kgs m0 = x_kgs m" "\<not> zero_flag m0"
    using old by (simp_all add: m0_def machine)
  have fl: "x_flags m0 AND NOT STATUS_FLAGS = x_flags m AND NOT STATUS_FLAGS" unfolding m0_def by (rule set_status_rest)
  have nsp: "x_mem m (?new + 0x38) = nsp" by (rule ctx_of_nth[OF new])
  have al: "aligned ?old" "aligned ?new" "aligned ?sp" "aligned nsp" and dis: "ctx_cells ?old \<inter> ctx_cells ?new = {}"
    and s: "?sp \<notin> ctx_cells ?old" "?sp \<notin> ctx_cells ?new" "nsp - 8 \<notin> ctx_cells ?old" "nsp - 8 \<notin> ctx_cells ?new"
    using sw by (simp_all add: switchable_def Let_def nsp)
  obtain m1 where m1: "run switch_save m0 = Some m1" "ctx_of ?old m1 = map (x_reg m) callee_saved @ [x_mem m ?sp, ?sp + 8, x_flags m0]"
    "x_reg m1 RSI = ?new" "\<And>p. p \<noteq> ?sp \<Longrightarrow> p \<notin> ctx_cells ?old \<Longrightarrow> x_mem m1 p = x_mem m p" "x_gs m1 = x_gs m" "x_kgs m1 = x_kgs m"
    using switch_save_run[OF al(1,3) s(1), of m0] by (auto simp: m0)
  have "ctx_of ?new m1 = ctx_of ?new m" by (rule ctx_of_cong, rule m1(4)) (use s(2) dis in auto)
  then have n1: "ctx_of ?new m1 = [a, b, c, d, e, f, ip, nsp, fl]" using new by simp
  obtain m2 where m2: "run switch_load m1 = Some m2" "map (x_reg m2) callee_saved = [a, b, c, d, e, f]" "x_rip m2 = ip"
    "x_reg m2 RSP = nsp" "x_flags m2 = fl" "\<forall>p. p \<noteq> nsp - 8 \<longrightarrow> x_mem m2 p = x_mem m1 p" "x_gs m2 = x_gs m1" "x_kgs m2 = x_kgs m1"
    using switch_load_run[OF al(2,4) s(4) m1(3) n1] by (elim exE conjE) (rule that)
  have "ctx_of ?old m2 = ctx_of ?old m1" by (rule ctx_of_cong, rule m2(6)[rule_format]) (use s(3) in auto)
  moreover have "context_switch m = Some m2"
    using m0(5) m1(1) m2(1) by (simp add: context_switch_def run_append m0_def[symmetric])
  ultimately show ?thesis using m1(2,5,6) m2 fl by auto
qed


text \<open>Two threads with contexts at \<open>0x1000\<close> and \<open>0x2000\<close>.\<close>

definition demo_mach :: mach where
  "demo_mach =
     \<lparr>x_reg = (\<lambda>r. case r of RDI \<Rightarrow> 0x1000 | RSI \<Rightarrow> 0x2000 | RSP \<Rightarrow> 0x8000 | RBX \<Rightarrow> 7 | _ \<Rightarrow> 0), x_rip = 0, x_flags = 0x202, x_cs = 0x08, x_ss = 0x10,
      x_ds = 0, x_es = 0, x_gs = 0, x_kgs = 0, x_mem = (\<lambda>a. if a = 0x2038 then 0x9000 else if a = 0x8000 then 0x5555 else 0)\<rparr>"


section \<open>Into user mode\<close>



end
