(* ===== verification/Launch.thy ===== *)
theory Launch
  imports Syscall_Dispatch Sh
begin

text \<open>
  Where threads start and where system calls enter: \<open>thread_trampoline\<close> and \<open>idle_entry\<close> of \<^verbatim>\<open>kernel/ke/sched.c\<close>, the entry
  functions of \<^verbatim>\<open>kernel/ke/exec.c\<close>, and \<open>syscall_from_entry\<close> and \<open>syscall_init\<close> of \<^verbatim>\<open>kernel/ke/syscall.c\<close>.  The jump to user mode,
  which is assembly, is the value \<open>Enter\<close> with the instruction pointer, stack pointer and flags it loads.
\<close>

section \<open>Entry functions\<close>

datatype launch = Enter virt_t virt_t u64 | IdleLoop | Returned

abbreviation (input) USER_FLAGS :: u64 where "USER_FLAGS \<equiv> 0x202"

definition returned :: "(kst \<times> 'a flow) outcome \<Rightarrow> (kst \<times> launch flow) outcome" where
  "returned m = bind_flow m (\<lambda>s x. Ret (s, Now Returned))"

text \<open>The arguments a program built into the kernel is called with.\<close>

definition builtin_args :: "kst \<Rightarrow> string list" where
  "builtin_args s =
     (let p = k_current_process s; av = (if p \<noteq> 0 then take USER_ARGC_MAX (pr_argv (k_proc s p)) else [])
      in if av = [] then [if p \<noteq> 0 then pr_image (k_proc s p) else ''unknown''] else av)"

definition builtin_entry ::
    "(string list \<Rightarrow> kst \<Rightarrow> (kst \<times> int flow) outcome) option \<Rightarrow> kst \<Rightarrow> (kst \<times> launch flow) outcome" where
  "builtin_entry mainfn s =
     bind_flow (case mainfn of Some f \<Rightarrow> f (builtin_args s) s | None \<Rightarrow> Ret (s, Now 1)) (\<lambda>s1 rc.
       returned (NtTerminateProcess HANDLE_CURRENT (if rc = 0 then STATUS_SUCCESS else STATUS_UNSUCCESSFUL) s1))"

definition user_launch :: "kst \<Rightarrow> (kst \<times> launch flow) outcome" where
  "user_launch s =
     (let p = k_current_process s
      in if p = 0 \<or> pr_entry (k_proc s p) = 0 \<or> pr_stack (k_proc s p) = 0
         then returned (NtTerminateProcess HANDLE_CURRENT STATUS_INVALID_IMAGE_FORMAT s)
         else Ret (s, Now (Enter (pr_entry (k_proc s p)) (pr_stack (k_proc s p)) USER_FLAGS)))"

text \<open>Unlike \<open>user_launch\<close> it goes on when \<open>NtTerminateProcess\<close> returns.\<close>

definition user_thread_entry :: "kst \<Rightarrow> (kst \<times> launch flow) outcome" where
  "user_thread_entry s =
     (let t = k_current s
      in bind_flow (if t = 0 \<or> th_user_rip (k_thread s t) = 0
                    then NtTerminateProcess HANDLE_CURRENT STATUS_INVALID_PARAMETER s else Ret (s, Now STATUS_SUCCESS)) (\<lambda>s1 st.
           if t = 0 then Panic ''null thread''
           else Ret (s1, Now (Enter (th_user_rip (k_thread s1 t)) (th_user_rsp (k_thread s1 t)) USER_FLAGS))))"

section \<open>The trampoline\<close>

text \<open>
  \<open>kfun\<close> is what the kernel function at an address does with its argument, \<open>sh\<close> the only program built in.  The
  thread of an entry function that returns ends.
\<close>

definition call_entry ::
    "(u64 \<Rightarrow> u64 \<Rightarrow> kst \<Rightarrow> (kst \<times> unit flow) outcome) \<Rightarrow> (string list \<Rightarrow> kst \<Rightarrow> (kst \<times> int flow) outcome) \<Rightarrow>
     kst \<Rightarrow> (kst \<times> launch flow) outcome" where
  "call_entry kfun sh s =
     (case th_entry (k_thread s (k_current s)) of
        NoEntry \<Rightarrow> Panic ''null entry''
      | IdleEntry \<Rightarrow> Ret (s, Now IdleLoop)
      | BuiltinEntry \<Rightarrow> builtin_entry (Some sh) s
      | UserLaunch \<Rightarrow> user_launch s
      | UserThreadEntry \<Rightarrow> user_thread_entry s
      | KernelEntry f \<Rightarrow> returned (kfun f (th_arg (k_thread s (k_current s))) s))"

definition thread_trampoline ::
    "(u64 \<Rightarrow> u64 \<Rightarrow> kst \<Rightarrow> (kst \<times> unit flow) outcome) \<Rightarrow> (string list \<Rightarrow> kst \<Rightarrow> (kst \<times> int flow) outcome) \<Rightarrow>
     kst \<Rightarrow> (kst \<times> launch flow) outcome" where
  "thread_trampoline kfun sh s =
     bind_flow (switched_in s) (\<lambda>s1 u.
       if k_current s1 = 0 then Panic ''null thread''
       else bind_flow (call_entry kfun sh s1) (\<lambda>s2 l.
              if l = Returned then bind_outcome (sched_exit_thread STATUS_SUCCESS s2) (\<lambda>s3. Ret (s3, Exits))
              else Ret (s2, Now l)))"

text \<open>One turn of the idle loop, after an interrupt has ended the halt.\<close>

definition idle_turn :: "kst \<Rightarrow> kst" where
  "idle_turn s = (if k_need_resched s then sched_reschedule s else s)"

text \<open>The thread of the first process, \<open>init_thread\<close> of \<^verbatim>\<open>kernel/ke/kmain.c\<close>: when \<open>init_main\<close> returns it sleeps again and again.\<close>

partial_function (option) delay_loop :: "kst \<Rightarrow> (kst \<times> unit flow) outcome option" where
  "delay_loop s =
     (case NtDelayExecution 10 s of
        Ret (s1, fl) \<Rightarrow>
          (case fl of
             Now st \<Rightarrow> delay_loop s1
           | Sleeps \<Rightarrow> Some (Ret (s1, Sleeps))
           | Exits \<Rightarrow> Some (Ret (s1, Exits)))
      | Panic m \<Rightarrow> Some (Panic m)
      | Hang \<Rightarrow> Some Hang)"

definition init_thread :: "kst \<Rightarrow> (kst \<times> unit flow) outcome" where
  "init_thread s =
     (let p = k_current_process s; pid = (if p \<noteq> 0 then pr_pid (k_proc s p) else 0)
      in bind_flow (init_main (say (''init: pid '' @ emit_u pid 10 False 0 CHR '' '' @ [NL]) s)) (\<lambda>s1 u. of_loop (delay_loop s1)))"

section \<open>System call entry\<close>

definition syscall_from_entry :: "u64 list \<Rightarrow> kst \<Rightarrow> (kst \<times> status_t flow) outcome" where
  "syscall_from_entry frame s =
     syscall_dispatch (frame ! 0) (frame ! 1) (frame ! 2) (frame ! 3) (frame ! 4) (frame ! 5) (frame ! 6) s"

text \<open>The model-specific registers it writes, in order; \<open>efer\<close> is the value read.\<close>

definition syscall_init :: "u64 \<Rightarrow> u64 \<Rightarrow> u64 \<Rightarrow> (u32 \<times> u64) list" where
  "syscall_init efer entry pcb =
     [(0xC0000080, efer OR 1), (0xC0000081, push_bit 48 0x10 OR push_bit 32 0x08), (0xC0000082, entry),
      (0xC0000084, 0x257fd), (0xC0000102, pcb)]"

section \<open>No thread runs in user mode on a null entry\<close>

lemma bind_flow_Ret_Now: "bind_flow m k = Ret (s, Now x) \<Longrightarrow> \<exists>s1 y. m = Ret (s1, Now y) \<and> k s1 y = Ret (s, Now x)"
  by (simp add: bind_flow_Now)

lemma user_launch_Enter:
  assumes "user_launch s = Ret (s', Now (Enter rip rsp fl))"
  shows "s' = s \<and> rip \<noteq> 0 \<and> rsp \<noteq> 0 \<and> rip = pr_entry (k_proc s (k_current_process s)) \<and> fl = USER_FLAGS"
  using assms by (auto simp: user_launch_def returned_def bind_flow_Now Let_def split: if_splits)

text \<open>A thread that is killed before its first run never reaches its entry function.\<close>

lemma trampoline_killed:
  assumes "k_current s \<noteq> 0" "th_kill_pending (k_thread s (k_current s))"
  shows "thread_trampoline kfun sh s \<noteq> Ret (s', Now l)"
proof -
  have n: "switched_in s \<noteq> Ret (s1, Now u)" for s1 u
    using assms by (cases "sched_exit_thread (th_exit_status (k_thread s (k_current s))) s") (auto simp: switched_in_def)
  show ?thesis
  proof
    assume "thread_trampoline kfun sh s = Ret (s', Now l)"
    then obtain s1 u where "switched_in s = Ret (s1, Now u)" unfolding thread_trampoline_def by (blast dest: bind_flow_Ret_Now)
    then show False using n by blast
  qed
qed

end
