(* ===== verification/Entry.thy ===== *)
theory Entry
  imports Switch Launch Hal
begin

text \<open>
  The ways into the kernel and out of it: the interrupt stubs \<^verbatim>\<open>kernel/hal/isr.S\<close>, the system call gate
  \<^verbatim>\<open>kernel/ke/syscall_entry.S\<close>, and on the side of the programs the stubs \<^verbatim>\<open>user/ntdll/ntdll.S\<close> and the start \<^verbatim>\<open>user/crt0.S\<close>.  The C function
  that is called is an argument, from the state at the call to the state when it returns.
\<close>

section \<open>Interrupts\<close>

definition has_error :: "u64 \<Rightarrow> bool" where
  "has_error vec \<longleftrightarrow> vec \<in> {8, 10, 11, 12, 13, 14, 17}"

definition isr_enter :: "mach \<Rightarrow> mach option" where
  "isr_enter m =
     (case run [Push RAX, Push RCX, Push RDX, Push RBX, Push RBP, Push RSI, Push RDI, Push R8, Push R9, Push R10, Push R11, Push R12, Push R13,
                Push R14, Push R15, Ld RAX RSP (17 * 8), Test RAX 3] m of
        None \<Rightarrow> None
      | Some m1 \<Rightarrow> run ((if zero_flag m1 then [] else [Swapgs]) @ [Mov RDI RSP, Cld]) m1)"

definition isr_leave :: "mach \<Rightarrow> mach option" where
  "isr_leave m =
     (case run [Ld RAX RSP (17 * 8), Test RAX 3] m of
        None \<Rightarrow> None
      | Some m1 \<Rightarrow>
          run ((if zero_flag m1 then [] else [Swapgs])
               @ [Pop R15, Pop R14, Pop R13, Pop R12, Pop R11, Pop R10, Pop R9, Pop R8, Pop RDI, Pop RSI, Pop RBP, Pop RBX, Pop RDX, Pop RCX, Pop RAX,
                  AddI RSP 16, Iretq]) m1)"

definition isr_common :: "(mach \<Rightarrow> mach option) \<Rightarrow> mach \<Rightarrow> mach option" where
  "isr_common c m =
     (case isr_enter m of None \<Rightarrow> None | Some m1 \<Rightarrow> (case c m1 of None \<Rightarrow> None | Some m2 \<Rightarrow> isr_leave m2))"

definition isr_stub :: "(mach \<Rightarrow> mach option) \<Rightarrow> u64 \<Rightarrow> mach \<Rightarrow> mach option" where
  "isr_stub c vec m =
     (case run ((if has_error vec then [] else [PushI 0]) @ [PushI vec]) m of None \<Rightarrow> None | Some m1 \<Rightarrow> isr_common c m1)"

definition isr_stub_generic :: "(mach \<Rightarrow> mach option) \<Rightarrow> mach \<Rightarrow> mach option" where
  "isr_stub_generic c m = (case run [PushI 0, PushI 0xFF] m of None \<Rightarrow> None | Some m1 \<Rightarrow> isr_common c m1)"

text \<open>The structure \<^verbatim>\<open>trap_frame_t\<close> at an address, as far as the dispatcher looks at it.\<close>

definition frame_at :: "u64 \<Rightarrow> mach \<Rightarrow> trap_frame" where
  "frame_at a m = \<lparr>tf_vector = unat (x_mem m (a + 15 * 8)), tf_error = x_mem m (a + 16 * 8), tf_cs = x_mem m (a + 18 * 8)\<rparr>"

section \<open>System calls\<close>

definition syscall_enter :: "mach \<Rightarrow> mach option" where
  "syscall_enter =
     run [Swapgs, GsSt 8 RSP, GsLd RSP 0, PushGs 8, Push R11, Push RCX, Push R9, Push R8, Push R10, Push RDX, Push RSI, Push RDI, Push RAX,
          Mov RDI RSP, Cld]"

text \<open>Back to the program, or an invalid opcode in kernel mode.\<close>

datatype gate = ToUser mach | KernelUd2 mach

definition syscall_leave :: "mach \<Rightarrow> gate option" where
  "syscall_leave m =
     (case run [AddI RSP (7 * 8), Pop RCX, Pop R11, Pop RSP, Mov RDX RCX, Shr RDX 47, TestR RDX] m of
        None \<Rightarrow> None
      | Some m1 \<Rightarrow> if zero_flag m1 then map_option ToUser (run [Swapgs, Sysretq] m1) else map_option KernelUd2 (run [Swapgs] m1))"

definition syscall_entry :: "(mach \<Rightarrow> mach option) \<Rightarrow> mach \<Rightarrow> gate option" where
  "syscall_entry c m =
     (case syscall_enter m of None \<Rightarrow> None | Some m1 \<Rightarrow> (case c m1 of None \<Rightarrow> None | Some m2 \<Rightarrow> syscall_leave m2))"

text \<open>
  A stub of the user library; \<open>nx\<close> is the address behind its \<^verbatim>\<open>syscall\<close>, and the registers that \<open>syscall_init\<close> has set give the entry
  point and the mask of the flags.
\<close>

definition msr :: "(u32 \<times> u64) list \<Rightarrow> u32 \<Rightarrow> u64" where
  "msr ms r = (case map_of ms r of Some v \<Rightarrow> v | None \<Rightarrow> 0)"

definition do_syscall :: "(u32 \<times> u64) list \<Rightarrow> u64 \<Rightarrow> mach \<Rightarrow> mach" where
  "do_syscall ms nx m = x_syscall (msr ms 0xC0000082) (msr ms 0xC0000084) nx m"

definition syscall_stub :: "(u32 \<times> u64) list \<Rightarrow> (mach \<Rightarrow> mach option) \<Rightarrow> u64 \<Rightarrow> u64 \<Rightarrow> mach \<Rightarrow> gate option" where
  "syscall_stub ms c nr nx m =
     (case run [MovI RAX nr, Mov R10 RCX] m of
        None \<Rightarrow> None
      | Some m1 \<Rightarrow>
          (case syscall_entry c (do_syscall ms nx m1) of
             Some (ToUser m2) \<Rightarrow> map_option ToUser (run [RetI] m2)
           | r \<Rightarrow> r))"

text \<open>The numbers the stubs of the user library pass, and the ones the kernel gives its services.\<close>

definition ntdll :: "(string \<times> u64) list" where
  "ntdll =
     [(''NtClose'', 0), (''NtDuplicateObject'', 1), (''NtCreateFile'', 2), (''NtReadFile'', 3), (''NtWriteFile'', 4), (''NtQueryDirectoryFile'', 5),
      (''NtCreateProcess'', 6), (''NtCreateThread'', 7), (''NtTerminateProcess'', 8), (''NtTerminateThread'', 9), (''NtWaitForSingleObject'', 10),
      (''NtCreateEvent'', 11), (''NtSetEvent'', 12), (''NtResetEvent'', 13), (''NtCreateMutex'', 14), (''NtReleaseMutex'', 15),
      (''NtQuerySystemInformation'', 16), (''NtQueryInformationProcess'', 17), (''NtYieldExecution'', 18), (''NtDelayExecution'', 19),
      (''NtQueryObject'', 20), (''NtCreateSection'', 21), (''NtMapViewOfSection'', 22), (''NtUnmapViewOfSection'', 23),
      (''NtAllocateVirtualMemory'', 24), (''NtFreeVirtualMemory'', 25), (''NtQueryVirtualMemory'', 26), (''NtCreateDirectoryObject'', 27),
      (''NtOpenDirectoryObject'', 28), (''NtRaiseException'', 29), (''NtGetCwd'', 30), (''NtSetCwd'', 31), (''NtCreatePipe'', 32),
      (''NtCreateTimer'', 33), (''NtSetTimer'', 34), (''NtCancelTimer'', 35), (''NtWaitForMultipleObjects'', 36), (''NtProtectVirtualMemory'', 37),
      (''NtOpenProcessToken'', 38), (''NtQueryInformationToken'', 39), (''NtDuplicateToken'', 40), (''NtSetInformationToken'', 41),
      (''NtDeleteFile'', 42), (''NtCreateProcess2'', 43)]"

definition SYS :: "(string \<times> u64) list" where
  "SYS =
     [(''NtClose'', 0), (''NtDuplicateObject'', 1), (''NtCreateFile'', 2), (''NtReadFile'', 3), (''NtWriteFile'', 4), (''NtQueryDirectoryFile'', 5),
      (''NtCreateProcess'', 6), (''NtCreateThread'', 7), (''NtTerminateProcess'', 8), (''NtTerminateThread'', 9), (''NtWaitForSingleObject'', 10),
      (''NtCreateEvent'', 11), (''NtSetEvent'', 12), (''NtResetEvent'', 13), (''NtCreateMutex'', 14), (''NtReleaseMutex'', 15),
      (''NtQuerySystemInformation'', 16), (''NtQueryInformationProcess'', 17), (''NtYieldExecution'', 18), (''NtDelayExecution'', 19),
      (''NtQueryObject'', 20), (''NtCreateSection'', 21), (''NtMapViewOfSection'', 22), (''NtUnmapViewOfSection'', 23),
      (''NtAllocateVirtualMemory'', 24), (''NtFreeVirtualMemory'', 25), (''NtQueryVirtualMemory'', 26), (''NtCreateDirectoryObject'', 27),
      (''NtOpenDirectoryObject'', 28), (''NtRaiseException'', 29), (''NtGetCwd'', 30), (''NtSetCwd'', 31), (''NtCreatePipe'', 32),
      (''NtCreateTimer'', 33), (''NtSetTimer'', 34), (''NtCancelTimer'', 35), (''NtWaitForMultipleObjects'', 36), (''NtProtectVirtualMemory'', 37),
      (''NtOpenProcessToken'', 38), (''NtQueryInformationToken'', 39), (''NtDuplicateToken'', 40), (''NtSetInformationToken'', 41),
      (''NtDeleteFile'', 42), (''NtCreateProcess2'', 43)]"

abbreviation (input) SYS_MAX :: u64 where "SYS_MAX \<equiv> 44"

section \<open>The start of a program\<close>

definition crt0_args :: "mach \<Rightarrow> mach option" where
  "crt0_args = run [Xor RBP, Pop RDI, Mov RSI RSP, Lea8 RDX RSI RDI 8, AndI RSP (- 16)]"

definition crt0_start :: "(mach \<Rightarrow> mach option) \<Rightarrow> (mach \<Rightarrow> mach option) \<Rightarrow> mach \<Rightarrow> mach option" where
  "crt0_start main terminate m =
     (case crt0_args m of
        None \<Rightarrow> None
      | Some m1 \<Rightarrow>
          (case main m1 of
             None \<Rightarrow> None
           | Some m2 \<Rightarrow> (case run [MovI RDI (- 1), Mov RSI RAX] m2 of None \<Rightarrow> None | Some m3 \<Rightarrow> terminate m3)))"

section \<open>What the C code is relied on for\<close>

text \<open>The cells from \<open>a\<close> on.\<close>

definition cells :: "u64 \<Rightarrow> nat \<Rightarrow> mach \<Rightarrow> u64 list" where
  "cells a n m = map (\<lambda>i. x_mem m (a + 8 * of_nat i)) [0..<n]"

text \<open>
  A C function that returns leaves the stack pointer, the callee-saved registers, the GS bases and the \<open>n\<close> cells above the
  stack pointer as they were; it may change everything else.
\<close>

definition c_returns :: "nat \<Rightarrow> (mach \<Rightarrow> mach option) \<Rightarrow> mach \<Rightarrow> bool" where
  "c_returns n c m \<longleftrightarrow>
     (\<exists>m'. c m = Some m' \<and> x_reg m' RSP = x_reg m RSP \<and> map (x_reg m') callee_saved = map (x_reg m) callee_saved
         \<and> x_gs m' = x_gs m \<and> x_kgs m' = x_kgs m \<and> cells (x_reg m RSP) n m' = cells (x_reg m RSP) n m)"

section \<open>Interrupts come and go\<close>

lemma isr_enter_run:
  assumes "aligned sp" "x_reg m RSP = sp"
  shows "\<exists>mc. isr_enter m = Some mc \<and> x_reg mc RSP = sp - 120 \<and> x_reg mc RDI = sp - 120
    \<and> cells (sp - 120) 22 mc =
        map (x_reg m) [R15, R14, R13, R12, R11, R10, R9, R8, RDI, RSI, RBP, RBX, RDX, RCX, RAX] @ cells sp 7 m
    \<and> x_gs mc = (if x_mem m (sp + 16) AND 3 = 0 then x_gs m else x_kgs m)
    \<and> x_kgs mc = (if x_mem m (sp + 16) AND 3 = 0 then x_kgs m else x_gs m)"
  using assms by (simp add: isr_enter_def machine cells_def upt_rec add.commute[of _ sp])

lemma isr_leave_run:
  assumes "aligned sp" "x_reg m RSP = sp"
    "cells sp 22 m = [a15, a14, a13, a12, a11, a10, a9, a8, di, si, bp, bx, dx, cx, ax, vec, err, ip, cs', fl, usp, ss']"
  shows "\<exists>m'. isr_leave m = Some m'
    \<and> map (x_reg m') [R15, R14, R13, R12, R11, R10, R9, R8, RDI, RSI, RBP, RBX, RDX, RCX, RAX, RSP] =
        [a15, a14, a13, a12, a11, a10, a9, a8, di, si, bp, bx, dx, cx, ax, usp]
    \<and> x_rip m' = ip \<and> x_cs m' = cs' \<and> x_flags m' = fl \<and> x_ss m' = ss'
    \<and> x_gs m' = (if ip AND 3 = 0 then x_gs m else x_kgs m) \<and> x_kgs m' = (if ip AND 3 = 0 then x_kgs m else x_gs m)"
  using assms by (simp add: isr_leave_def machine cells_def upt_rec add.commute[of _ sp])

lemma cells_7: "cells sp 7 m = [x_mem m sp, x_mem m (sp + 8), x_mem m (sp + 16), x_mem m (sp + 24), x_mem m (sp + 32), x_mem m (sp + 40), x_mem m (sp + 48)]"
  by (simp add: cells_def upt_rec)

lemma cells_nth: "i < n \<Longrightarrow> x_mem m (a + 8 * of_nat i) = cells a n m ! i"
  by (simp add: cells_def)

lemma frame_at_cells: "frame_at a m = \<lparr>tf_vector = unat (cells a 22 m ! 15), tf_error = cells a 22 m ! 16, tf_cs = cells a 22 m ! 18\<rparr>"
  using cells_nth[of 15 22 m a] cells_nth[of 16 22 m a] cells_nth[of 18 22 m a] by (simp add: frame_at_def)

lemma isr_common_returns:
  assumes al: "aligned sp" and sp: "x_reg m RSP = sp"
    and c: "\<And>mc. frame_at (x_reg mc RDI) mc = \<lparr>tf_vector = unat (x_mem m sp), tf_error = x_mem m (sp + 8), tf_cs = x_mem m (sp + 24)\<rparr>
      \<Longrightarrow> c_returns 22 c mc"
  shows "\<exists>m'. isr_common c m = Some m' \<and> (\<forall>r. r \<noteq> RSP \<longrightarrow> x_reg m' r = x_reg m r) \<and> x_rip m' = x_mem m (sp + 16) \<and> x_cs m' = x_mem m (sp + 24)
    \<and> x_flags m' = x_mem m (sp + 32) \<and> x_reg m' RSP = x_mem m (sp + 40) \<and> x_ss m' = x_mem m (sp + 48) \<and> x_gs m' = x_gs m \<and> x_kgs m' = x_kgs m"
proof -
  obtain mc where e: "isr_enter m = Some mc" and r: "x_reg mc RSP = sp - 120" "x_reg mc RDI = sp - 120"
    and f: "cells (sp - 120) 22 mc =
        map (x_reg m) [R15, R14, R13, R12, R11, R10, R9, R8, RDI, RSI, RBP, RBX, RDX, RCX, RAX] @ cells sp 7 m"
    and g: "x_gs mc = (if x_mem m (sp + 16) AND 3 = 0 then x_gs m else x_kgs m)"
      "x_kgs mc = (if x_mem m (sp + 16) AND 3 = 0 then x_kgs m else x_gs m)"
    using isr_enter_run[OF al sp] by (elim exE conjE) (rule that)
  have "frame_at (x_reg mc RDI) mc = \<lparr>tf_vector = unat (x_mem m sp), tf_error = x_mem m (sp + 8), tf_cs = x_mem m (sp + 24)\<rparr>"
    unfolding frame_at_cells r f cells_7 by simp
  from c[OF this] obtain m1 where m1: "c mc = Some m1" "x_reg m1 RSP = sp - 120" "x_gs m1 = x_gs mc" "x_kgs m1 = x_kgs mc"
    "cells (sp - 120) 22 m1 = cells (sp - 120) 22 mc"
    unfolding c_returns_def r by blast
  have "aligned (sp - 120)" using al by (simp add: machine)
  note l = isr_leave_run[OF this m1(2) m1(5)[unfolded f cells_7, simplified]]
  show ?thesis using l by (auto simp: isr_common_def e m1 g all_reg)
qed


text \<open>An interrupt stack at \<open>0x8000\<close> with the frame of a program at \<open>0x400000\<close>, whose code segment is \<open>0x23\<close>.\<close>

definition demo_trap :: mach where
  "demo_trap =
     demo_mach\<lparr>x_gs := 0xAAAA, x_kgs := 0xBBBB,
       x_mem := (\<lambda>_. 0)(0x8000 := 0x400000, 0x8008 := 0x23, 0x8010 := 0x202, 0x8018 := 0x7000, 0x8020 := 0x1B)\<rparr>"


text \<open>The stubs decide by the wrong cell whether an interrupt came from user mode: the GS bases are exchanged when the interrupted instruction pointer
  is not a multiple of four, whatever the code segment; so a program interrupted at a multiple of four leaves the kernel
  with the program's GS base, and kernel code interrupted elsewhere loses its own.\<close>

theorem isr_swapgs_by_rip:
  assumes "aligned (x_reg m RSP)" "isr_enter m = Some mc"
  shows "tf_cs (frame_at (x_reg mc RDI) mc) = x_mem m (x_reg m RSP + 24)
    \<and> x_gs mc = (if x_mem m (x_reg m RSP + 16) AND 3 = 0 then x_gs m else x_kgs m)"
proof -
  let ?sp = "x_reg m RSP"
  from isr_enter_run[OF assms(1) refl] assms(2) have r: "x_reg mc RDI = ?sp - 120" and
    f: "cells (?sp - 120) 22 mc = map (x_reg m) [R15, R14, R13, R12, R11, R10, R9, R8, RDI, RSI, RBP, RBX, RDX, RCX, RAX] @ cells ?sp 7 m" and
    g: "x_gs mc = (if x_mem m (?sp + 16) AND 3 = 0 then x_gs m else x_kgs m)" by auto
  show ?thesis unfolding frame_at_cells r f cells_7 g by simp
qed

text \<open>The interrupt of a program at \<open>0x400000\<close>: the dispatcher runs with the program's GS base.\<close>

theorem isr_swapgs_by_rip_witness:
  "\<exists>m mc. isr_enter m = Some mc \<and> from_user (frame_at (x_reg mc RDI) mc) \<and> x_gs mc = x_gs m \<and> x_gs m \<noteq> x_kgs m"
proof -
  let ?m = "set_reg RSP 0x7FF0 demo_trap"
  have sp: "x_reg ?m RSP = 0x7FF0" "x_mem ?m = x_mem demo_trap" "x_gs ?m = 0xAAAA" "x_kgs ?m = 0xBBBB"
    by (simp_all add: machine) (simp_all add: demo_trap_def)
  have al: "aligned (x_reg ?m RSP)" unfolding sp by (simp add: aligned_def)
  obtain mc where mc: "isr_enter ?m = Some mc" using isr_enter_run[OF al refl] by blast
  have c: "x_mem demo_trap (0x7FF0 + 24) = 0x23" "x_mem demo_trap (0x7FF0 + 16) = 0x400000" by (simp_all add: demo_trap_def)
  have "tf_cs (frame_at (x_reg mc RDI) mc) = 0x23 \<and> x_gs mc = x_gs ?m"
    using isr_swapgs_by_rip[OF al mc] unfolding sp c by simp
  then show ?thesis using mc sp(3,4) by (intro exI[of _ ?m] exI[of _ mc]) (simp add: from_user_def)
qed

section \<open>System calls come and go\<close>

lemma syscall_enter_run:
  assumes "aligned (x_kgs m)" "aligned ksp" "x_mem m (x_kgs m) = ksp"
  shows "\<exists>mc. syscall_enter m = Some mc \<and> x_reg mc RSP = ksp - 80 \<and> x_reg mc RDI = ksp - 80
    \<and> cells (ksp - 80) 10 mc = map (x_reg m) [RAX, RDI, RSI, RDX, R10, R8, R9, RCX, R11, RSP]
    \<and> map (x_reg mc) callee_saved = map (x_reg m) callee_saved \<and> x_gs mc = x_kgs m \<and> x_kgs mc = x_gs m
    \<and> (\<forall>a. a \<noteq> x_kgs m + 8 \<longrightarrow> a \<notin> (\<lambda>i. ksp - 80 + 8 * of_nat i) ` {..<10} \<longrightarrow> x_mem mc a = x_mem m a)"
  using assms by (simp add: syscall_enter_def machine cells_def upt_rec callee_saved_def lessThan_nat_numeral lessThan_Suc)

lemma syscall_leave_run:
  assumes "aligned sp" "x_reg m RSP = sp" "cells sp 10 m = [nr, a0, a1, a2, a3, a4, a5, ip, fl, usp]" "drop_bit 47 ip = 0"
  shows "\<exists>m'. syscall_leave m = Some (ToUser m') \<and> x_rip m' = ip \<and> x_reg m' RSP = usp \<and> x_flags m' = (fl AND 0x3C7FD7 OR 2) \<and> x_cs m' = 0x23 \<and> x_ss m' = 0x1B
    \<and> x_reg m' RAX = x_reg m RAX \<and> map (x_reg m') callee_saved = map (x_reg m) callee_saved \<and> x_gs m' = x_kgs m \<and> x_kgs m' = x_gs m
    \<and> x_mem m' = x_mem m"
  using assms by (simp add: syscall_leave_def machine cells_def upt_rec callee_saved_def add.commute[of _ sp])

lemma syscall_leave_bad:
  assumes "aligned sp" "x_reg m RSP = sp" "cells sp 10 m = [nr, a0, a1, a2, a3, a4, a5, ip, fl, usp]" "drop_bit 47 ip \<noteq> 0"
  shows "\<exists>m'. syscall_leave m = Some (KernelUd2 m') \<and> x_cs m' = x_cs m"
  using assms by (simp add: syscall_leave_def machine cells_def upt_rec callee_saved_def add.commute[of _ sp])

lemma cells_take: "n \<le> k \<Longrightarrow> cells a n m = take n (cells a k m)"
  by (rule nth_equalityI) (simp_all add: cells_def)

lemma x_syscall_sel [machine]:
  "x_reg (x_syscall l f nx m) q = (if q = RCX then nx else if q = R11 then x_flags m else x_reg m q)" "x_mem (x_syscall l f nx m) = x_mem m"
  "x_gs (x_syscall l f nx m) = x_gs m" "x_kgs (x_syscall l f nx m) = x_kgs m" "x_flags (x_syscall l f nx m) = x_flags m AND NOT f"
  by (simp_all add: x_syscall_def set_reg_sel)

text \<open>The user library and the kernel agree on the numbers, each number below \<open>SYS_MAX\<close> has one service, and the dispatcher refuses all others.\<close>

lemma ntdll_agrees: "ntdll = SYS" "map snd SYS = map of_nat [0..<unat SYS_MAX]" "distinct (map fst SYS)"
  by (simp_all add: ntdll_def SYS_def upt_rec)

lemma unknown_service:
  assumes "nr \<notin> snd ` set SYS"
  shows "syscall_dispatch nr a0 a1 a2 a3 a4 a5 s = Ret (s, Now STATUS_INVALID_SYSTEM_SERVICE)"
  using assms by (simp add: SYS_def syscall_dispatch_def)

text \<open>C15. A call of a system call stub arrives and returns: the kernel function is called with the kernel's GS base and, at its argument, the service number
  and the six arguments of the C call in order; and when it returns, the program goes on behind the call with
  the result, its stack, its callee-saved registers and its GS base as the C calling convention has it.\<close>

theorem syscall_stub_returns:
  fixes m :: mach
  defines "sp \<equiv> x_reg m RSP" and "pcb \<equiv> x_kgs m" and "ksp \<equiv> x_mem m (x_kgs m)"
  assumes al: "aligned sp" "aligned pcb" "aligned ksp" and nx: "nx < 2 ^ 47"
    and sep: "sp \<noteq> pcb + 8" "sp \<notin> (\<lambda>i. ksp - 80 + 8 * of_nat i) ` {..<10}"
    and c: "\<And>mc. cells (x_reg mc RDI) 7 mc = nr # map (x_reg m) [RDI, RSI, RDX, RCX, R8, R9] \<Longrightarrow> x_gs mc = pcb \<Longrightarrow>
      c_returns 10 c mc \<and> x_mem (the (c mc)) sp = x_mem mc sp \<and> x_reg (the (c mc)) RAX = result"
  shows "\<exists>m'. syscall_stub (syscall_init efer entry pcb) c nr nx m = Some (ToUser m') \<and> x_rip m' = x_mem m sp \<and> x_reg m' RSP = sp + 8
    \<and> x_reg m' RAX = result \<and> map (x_reg m') callee_saved = map (x_reg m) callee_saved \<and> x_gs m' = x_gs m \<and> x_kgs m' = x_kgs m \<and> x_cs m' = 0x23"
proof -
  define m1 where "m1 = do_syscall (syscall_init efer entry pcb) nx (set_reg R10 (x_reg m RCX) (set_reg RAX nr m))"
  have r1: "map (x_reg m1) [RAX, RDI, RSI, RDX, R10, R8, R9, RCX, R11, RSP] =
      [nr, x_reg m RDI, x_reg m RSI, x_reg m RDX, x_reg m RCX, x_reg m R8, x_reg m R9, nx, x_flags m, sp]"
    and k1: "map (x_reg m1) callee_saved = map (x_reg m) callee_saved"
    and o1: "x_kgs m1 = pcb" "x_gs m1 = x_gs m" "x_mem m1 = x_mem m"
    by (simp_all add: m1_def do_syscall_def sp_def pcb_def callee_saved_def machine)
  have "aligned (x_kgs m1)" "x_mem m1 (x_kgs m1) = ksp" using al by (simp_all add: o1 pcb_def ksp_def)
  from syscall_enter_run[OF this(1) al(3) this(2), unfolded r1 k1 o1]
  obtain mc where mc: "syscall_enter m1 = Some mc" "x_reg mc RSP = ksp - 80" "x_reg mc RDI = ksp - 80"
    and f: "cells (ksp - 80) 10 mc = [nr, x_reg m RDI, x_reg m RSI, x_reg m RDX, x_reg m RCX, x_reg m R8, x_reg m R9, nx, x_flags m, sp]"
    and k: "map (x_reg mc) callee_saved = map (x_reg m) callee_saved" and g: "x_gs mc = pcb" "x_kgs mc = x_gs m"
    and o: "\<forall>a. a \<noteq> pcb + 8 \<longrightarrow> a \<notin> (\<lambda>i. ksp - 80 + 8 * of_nat i) ` {..<10} \<longrightarrow> x_mem mc a = x_mem m a"
    by (elim exE conjE) (rule that)
  have "cells (x_reg mc RDI) 7 mc = nr # map (x_reg m) [RDI, RSI, RDX, RCX, R8, R9]"
    unfolding mc(3) by (subst cells_take[of 7 10]) (simp_all add: f)
  from c[OF this g(1)] obtain m2 where m2: "c mc = Some m2" "x_reg m2 RSP = ksp - 80" "map (x_reg m2) callee_saved = map (x_reg m) callee_saved"
    "x_gs m2 = pcb" "x_kgs m2 = x_gs m" "cells (ksp - 80) 10 m2 = cells (ksp - 80) 10 mc" "x_mem m2 sp = x_mem mc sp" "x_reg m2 RAX = result"
    unfolding c_returns_def mc k g by auto
  have al2: "aligned (ksp - 80)" using al(3) by (simp add: machine)
  have "drop_bit 47 nx = 0" using nx by (simp add: drop_bit_eq_div word_less_nat_alt word_arith_nat_div unat_pow2_word)
  from syscall_leave_run[OF al2 m2(2) m2(6)[unfolded f] this]
  obtain m3 where m3: "syscall_leave m2 = Some (ToUser m3)" "x_rip m3 = nx" "x_reg m3 RSP = sp" "x_cs m3 = 0x23" "x_reg m3 RAX = result"
    "map (x_reg m3) callee_saved = map (x_reg m) callee_saved" "x_gs m3 = x_gs m" "x_kgs m3 = pcb" "x_mem m3 = x_mem m2"
    unfolding m2 by blast
  have ent: "syscall_entry c m1 = Some (ToUser m3)" by (simp add: syscall_entry_def mc m2 m3)
  have "x_mem m3 sp = x_mem m sp" using m3 m2 o sep by simp
  moreover have "syscall_stub (syscall_init efer entry pcb) c nr nx m = map_option ToUser (run [RetI] m3)"
    using ent unfolding m1_def by (simp add: syscall_stub_def set_reg_sel)
  ultimately show ?thesis using m3 al(1) by (simp add: machine callee_saved_def pcb_def)
qed

text \<open>A program at \<open>0x400000\<close> with its stack at \<open>0x7000\<close>; the processor block is at \<open>0x3000\<close> and the kernel stack below \<open>0x9000\<close>.\<close>

definition demo_user :: mach where
  "demo_user =
     demo_mach\<lparr>x_reg := (x_reg demo_mach)(RSP := 0x7000, RCX := 44), x_gs := 0, x_kgs := 0x3000, x_mem := (\<lambda>_. 0)(0x3000 := 0x9000, 0x7000 := 0x5555)\<rparr>"

theorem syscall_stub_returns_witness:
  "\<exists>m'. syscall_stub (syscall_init 0 0 0x3000) (\<lambda>m. Some (set_reg RAX (x_mem m (x_reg m RDI + 32)) m)) 3 0x400009 demo_user = Some (ToUser m')
     \<and> x_rip m' = 0x5555 \<and> x_reg m' RSP = 0x7008 \<and> x_reg m' RAX = 44 \<and> x_reg m' RBX = 7"
proof -
  let ?c = "\<lambda>m. Some (set_reg RAX (x_mem m (x_reg m RDI + 32)) m)"
  have d: "x_reg demo_user RSP = 0x7000" "x_kgs demo_user = 0x3000" "x_mem demo_user 0x3000 = 0x9000" "x_mem demo_user 0x7000 = 0x5555"
    "x_reg demo_user RCX = 44" "x_reg demo_user RBX = 7"
    by (simp_all add: demo_user_def demo_mach_def)
  have c: "c_returns 10 ?c mc \<and> x_mem (the (?c mc)) 0x7000 = x_mem mc 0x7000 \<and> x_reg (the (?c mc)) RAX = 44"
    if "cells (x_reg mc RDI) 7 mc = 3 # map (x_reg demo_user) [RDI, RSI, RDX, RCX, R8, R9]" for mc
  proof -
    have "x_mem mc (x_reg mc RDI + 32) = 44" using that cells_nth[of 4 7 mc "x_reg mc RDI"] by (simp add: d)
    then show ?thesis by (simp add: c_returns_def callee_saved_def cells_def set_reg_sel)
  qed
  have sep: "(0x7000 :: u64) \<notin> (\<lambda>i. 0x9000 - 80 + 8 * of_nat i) ` {..<10}" by (simp add: lessThan_nat_numeral lessThan_Suc)
  have al: "aligned (0x7000 :: u64)" "aligned (0x3000 :: u64)" "aligned (0x9000 :: u64)" by (simp_all add: aligned_def)
  have "\<exists>m'. syscall_stub (syscall_init 0 0 0x3000) ?c 3 0x400009 demo_user = Some (ToUser m') \<and> x_rip m' = 0x5555 \<and> x_reg m' RSP = 0x7000 + 8
    \<and> x_reg m' RAX = 44 \<and> map (x_reg m') callee_saved = map (x_reg demo_user) callee_saved \<and> x_gs m' = x_gs demo_user \<and> x_kgs m' = 0x3000 \<and> x_cs m' = 0x23"
    by (rule syscall_stub_returns[of demo_user, unfolded d]) (use al sep c in simp_all)
  then show ?thesis by (auto simp: callee_saved_def d)
qed

text \<open>A program can stop the machine: with an instruction \<^verbatim>\<open>syscall\<close> at the very end of user space the return address is not canonical, and
  the gate answers with an invalid opcode in kernel mode, for which the trap dispatcher panics.\<close>

theorem syscall_at_top_panics:
  assumes "aligned (x_kgs m)" "aligned (x_mem m (x_kgs m))" "\<And>mc. c_returns 10 c mc \<and> x_cs (the (c mc)) = x_cs mc"
  shows "\<exists>m'. syscall_entry c (x_syscall entry fmask (USER_CANONICAL_TOP + 1) m) = Some (KernelUd2 m')
    \<and> isr_dispatch \<lparr>tf_vector = 6, tf_error = 0, tf_cs = x_cs m'\<rparr> cr2 sc k = Panic ''#UD''"
proof -
  let ?m1 = "x_syscall entry fmask (USER_CANONICAL_TOP + 1) m"
  have o: "x_kgs ?m1 = x_kgs m" "x_mem ?m1 = x_mem m" "x_reg ?m1 RCX = USER_CANONICAL_TOP + 1" "x_cs ?m1 = 0x08"
    by (simp_all add: machine) (simp add: x_syscall_def)
  obtain mc where mc: "syscall_enter ?m1 = Some mc" "x_reg mc RSP = x_mem m (x_kgs m) - 80"
    and f: "cells (x_mem m (x_kgs m) - 80) 10 mc = map (x_reg ?m1) [RAX, RDI, RSI, RDX, R10, R8, R9, RCX, R11, RSP]"
    using syscall_enter_run[of ?m1 "x_mem m (x_kgs m)"] assms(1,2) unfolding o by blast
  have cs: "x_cs mc = 0x08" using mc(1) o(4) assms(1,2) by (auto simp: syscall_enter_def machine o)
  obtain m2 where m2: "c mc = Some m2" "x_reg m2 RSP = x_mem m (x_kgs m) - 80" "cells (x_mem m (x_kgs m) - 80) 10 m2 = cells (x_mem m (x_kgs m) - 80) 10 mc"
    "x_cs m2 = 0x08"
    using assms(3)[of mc] unfolding c_returns_def mc(2) cs by auto
  have al2: "aligned (x_mem m (x_kgs m) - 80)" using assms(2) by (simp add: machine)
  have "drop_bit 47 (x_reg ?m1 RCX) \<noteq> 0" unfolding o by simp
  then obtain m' where "syscall_leave m2 = Some (KernelUd2 m')" "x_cs m' = 0x08"
    using syscall_leave_bad[OF al2 m2(2) m2(3)[unfolded f, simplified]] m2(4) by auto
  then show ?thesis using mc m2 by (auto simp: syscall_entry_def isr_dispatch_def from_user_def exc_name_def)
qed

theorem syscall_at_top_panics_witness:
  "\<forall>cr2 sc k. \<exists>m'. syscall_entry Some (x_syscall 0 0 (USER_CANONICAL_TOP + 1) demo_user) = Some (KernelUd2 m')
     \<and> isr_dispatch \<lparr>tf_vector = 6, tf_error = 0, tf_cs = x_cs m'\<rparr> cr2 sc k = Panic ''#UD''"
proof -
  have "aligned (x_kgs demo_user)" "aligned (x_mem demo_user (x_kgs demo_user))" by (simp_all add: demo_user_def aligned_def)
  moreover have "c_returns 10 Some mc \<and> x_cs (the (Some mc)) = x_cs mc" for mc by (simp add: c_returns_def)
  ultimately have w: "\<exists>m'. syscall_entry Some (x_syscall 0 0 (USER_CANONICAL_TOP + 1) demo_user) = Some (KernelUd2 m')
     \<and> isr_dispatch \<lparr>tf_vector = 6, tf_error = 0, tf_cs = x_cs m'\<rparr> cr2 sc k = Panic ''#UD''" for cr2 sc k
    by (rule syscall_at_top_panics)
  then show ?thesis by blast
qed

text \<open>The mask of the flags is one digit short: a system call clears the interrupt, direction and trap flags, but the flag that
  suspends the protection of user memory from the kernel stays as the program has set it.\<close>

theorem syscall_keeps_AC:
  "x_flags (do_syscall (syscall_init efer entry pcb) nx m) AND FLAG_AC = x_flags m AND FLAG_AC
    \<and> x_flags (do_syscall (syscall_init efer entry pcb) nx m) AND (FLAG_IF OR FLAG_DF OR 0x100) = 0"
proof -
  have f: "x_flags (do_syscall (syscall_init efer entry pcb) nx m) = x_flags m AND NOT 0x257fd"
    by (simp add: do_syscall_def msr_def syscall_init_def machine)
  show ?thesis unfolding f by (simp add: and.assoc)
qed

section \<open>Programs start\<close>

lemma cells_append: "cells a (n + k) m = cells a n m @ cells (a + 8 * of_nat n) k m"
  by (rule nth_equalityI) (auto simp: cells_def nth_append algebra_simps)

text \<open>From the stack \<open>psp_write_initial_stack\<close> leaves behind, \<open>main\<close> gets the argument count and the two vectors, on an aligned stack.\<close>

lemma crt0_args_layout:
  assumes "aligned (x_reg m RSP)" "cells (x_reg m RSP) (1 + length avs + 1 + length evs + 1) m = of_nat (length avs) # avs @ [0] @ evs @ [0]"
  shows "\<exists>m'. crt0_args m = Some m' \<and> x_reg m' RDI = of_nat (length avs) \<and> cells (x_reg m' RSI) (length avs + 1) m' = avs @ [0]
    \<and> cells (x_reg m' RDX) (length evs + 1) m' = evs @ [0] \<and> take_bit 4 (x_reg m' RSP) = 0 \<and> x_reg m' RBP = 0"
proof -
  let ?sp = "x_reg m RSP"
  have "cells ?sp (1 + (length avs + 1) + (length evs + 1)) m = [of_nat (length avs)] @ (avs @ [0]) @ (evs @ [0])"
    using assms(2) by (simp add: add.assoc)
  then have v: "cells ?sp 1 m = [of_nat (length avs)]" "cells (?sp + 8) (length avs + 1) m = avs @ [0]"
    "cells (?sp + 8 + 8 * of_nat (length avs + 1)) (length evs + 1) m = evs @ [0]"
    unfolding cells_append[of ?sp "1 + (length avs + 1)"] cells_append[of ?sp 1] by (simp_all add: cells_def algebra_simps)
  then have "x_mem m ?sp = of_nat (length avs)" by (simp add: cells_def)
  moreover have "take_bit 4 (x AND - 16) = 0" for x :: u64 by (rule bit_word_eqI) (auto simp: bit_simps)
  ultimately show ?thesis using assms(1) v(2,3)
    by (simp add: crt0_args_def machine cells_def algebra_simps)
qed

end
