(* ===== verification/Trampoline.thy ===== *)
theory Trampoline
  imports Prelude
begin

text \<open>
  The way from the boot loader to 64-bit code, \<^verbatim>\<open>kernel/boot/entry.S\<close>: the multiboot2 header, the boot page tables and the control registers.
  Memory is made of 32-bit cells, as the 32-bit code writes it; the addresses of the three tables are arguments.
\<close>

definition mb2_header :: "u32 list" where
  "mb2_header = [0xE85250D6, 0, 48, - (0xE85250D6 + 0 + 48), 5, 20, 80, 25, 0, 0, 0, 8]"

type_synonym mem32 = "u32 \<Rightarrow> u32"

definition put_entry :: "u32 \<Rightarrow> u32 \<Rightarrow> mem32 \<Rightarrow> mem32" where
  "put_entry a v m = m(a := v, a + 4 := 0)"

text \<open>The loop over the page directory, with the count in \<open>ecx\<close>.\<close>

fun pd_loop :: "nat \<Rightarrow> u32 \<Rightarrow> u32 \<Rightarrow> mem32 \<Rightarrow> mem32" where
  "pd_loop 0 eax edi m = m"
| "pd_loop (Suc ecx) eax edi m = pd_loop ecx (eax + 0x200000) (edi + 8) (put_entry edi (eax OR 0x83) m)"

definition boot_tables :: "u32 \<Rightarrow> u32 \<Rightarrow> u32 \<Rightarrow> mem32 \<Rightarrow> mem32" where
  "boot_tables pml4 pdpt pd m =
     pd_loop 512 0 pd
       (put_entry (pdpt + 510 * 8) (pd OR 0x03) (put_entry pdpt (pd OR 0x03)
         (put_entry (pml4 + 511 * 8) (pdpt OR 0x03) (put_entry pml4 (pdpt OR 0x03) m))))"

record boot_control =
  bc_cr0 :: u32
  bc_cr3 :: u32
  bc_cr4 :: u32
  bc_efer :: u64

text \<open>Paging, protection, physical address extension, long mode and the no-execute bit are switched on.\<close>

definition boot_control_on :: "u32 \<Rightarrow> boot_control \<Rightarrow> boot_control" where
  "boot_control_on pml4 b =
     \<lparr>bc_cr0 = bc_cr0 b OR 0x80000001, bc_cr3 = pml4, bc_cr4 = bc_cr4 b OR push_bit 5 1,
      bc_efer = bc_efer b OR (push_bit 8 1 OR push_bit 11 1)\<rparr>"

definition boot_gdt :: "u64 list" where
  "boot_gdt = [0, 0x00AF9A000000FFFF, 0x00AF92000000FFFF]"

section \<open>The header\<close>

text \<open>The length and the checksum of the header are those the boot loader checks.\<close>

lemma mb2_header_ok: "4 * length mb2_header = unat (mb2_header ! 2) \<and> sum_list (take 4 mb2_header) = 0"
  by (simp add: mb2_header_def)

section \<open>The boot mapping\<close>

text \<open>The processor's walk through four levels to a page of 2 MiB.\<close>

definition entry_at :: "mem32 \<Rightarrow> u32 \<Rightarrow> nat \<Rightarrow> u64" where
  "entry_at m tbl i = push_bit 32 (ucast (m (tbl + 8 * of_nat i + 4))) OR ucast (m (tbl + 8 * of_nat i))"

definition index_at :: "nat \<Rightarrow> u64 \<Rightarrow> nat" where
  "index_at sh va = unat (take_bit 9 (drop_bit sh va))"

definition table_at :: "u64 \<Rightarrow> u32 option" where
  "table_at e = (if bit e 0 \<and> e < 2 ^ 32 then Some (ucast e AND NOT 0xFFF) else None)"

definition boot_walk :: "mem32 \<Rightarrow> u32 \<Rightarrow> u64 \<Rightarrow> u64 option" where
  "boot_walk m cr3 va =
     (case table_at (entry_at m cr3 (index_at 39 va)) of
        None \<Rightarrow> None
      | Some t3 \<Rightarrow>
          (case table_at (entry_at m t3 (index_at 30 va)) of
             None \<Rightarrow> None
           | Some t2 \<Rightarrow>
               (let e = entry_at m t2 (index_at 21 va)
                in if bit e 0 \<and> bit e 7 then Some (e AND 0x000FFFFFFFE00000 OR take_bit 21 va) else None)))"

text \<open>Three different pages.\<close>

definition pages3 :: "u32 \<Rightarrow> u32 \<Rightarrow> u32 \<Rightarrow> bool" where
  "pages3 a b c \<longleftrightarrow> take_bit 12 a = 0 \<and> take_bit 12 b = 0 \<and> take_bit 12 c = 0 \<and> a \<noteq> b \<and> b \<noteq> c \<and> a \<noteq> c"

lemma page_offset:
  fixes p q :: u32
  assumes "take_bit 12 p = 0" "take_bit 12 q = 0" "i < 4096" "j < 4096"
  shows "p + of_nat i = q + of_nat j \<longleftrightarrow> p = q \<and> i = j"
proof
  assume e: "p + of_nat i = q + of_nat j"
  have t: "unat (p + of_nat i) mod 4096 = i" if "take_bit 12 p = 0" "i < 4096" for p :: u32 and i
  proof -
    have "take_bit 12 (unat p) = unat (take_bit 12 p)" by (simp only: unsigned_take_bit_eq)
    then have "unat p mod 4096 = 0" using that(1) by (simp add: take_bit_eq_mod[of 12 "unat p"])
    moreover have "unat (of_nat i :: u32) = i" using that(2) by (simp add: unat_of_nat take_bit_nat_eq_self)
    moreover from calculation obtain d where "unat p = 4096 * d" by (meson mod_0_imp_dvd dvdE)
    ultimately show ?thesis using that(2) by (simp add: unat_word_ariths mod_mod_cancel)
  qed
  have "i = j" using e t[OF assms(1,3)] t[OF assms(2,4)] by simp
  then show "p = q \<and> i = j" using e by simp
qed simp

text \<open>A table entry is two cells of the same page.\<close>

lemma put_entry_page:
  assumes "take_bit 12 p = 0" "take_bit 12 q = 0" "i < 512" "j < 512"
  shows "put_entry (p + 8 * of_nat i) v m (q + 8 * of_nat j) = (if p = q \<and> i = j then v else m (q + 8 * of_nat j))"
    "put_entry (p + 8 * of_nat i) v m (q + 8 * of_nat j + 4) = (if p = q \<and> i = j then 0 else m (q + 8 * of_nat j + 4))"
proof -
  have s: "(x :: u32) + 8 * of_nat k = x + of_nat (8 * k)" "(x :: u32) + 8 * of_nat k + 4 = x + of_nat (8 * k + 4)" for x k by simp_all
  have n: "8 * i \<noteq> 8 * j + 4" "8 * i + 4 \<noteq> 8 * j" by presburger+
  have e: "p + of_nat (8 * i) = q + of_nat (8 * j) \<longleftrightarrow> p = q \<and> i = j" "p + of_nat (8 * i + 4) = q + of_nat (8 * j + 4) \<longleftrightarrow> p = q \<and> i = j"
    "p + of_nat (8 * i) \<noteq> q + of_nat (8 * j + 4)" "p + of_nat (8 * i + 4) \<noteq> q + of_nat (8 * j)"
    using page_offset[OF assms(1,2), of "8 * i" "8 * j"] page_offset[OF assms(1,2), of "8 * i + 4" "8 * j + 4"]
      page_offset[OF assms(1,2), of "8 * i" "8 * j + 4"] page_offset[OF assms(1,2), of "8 * i + 4" "8 * j"] assms(3,4) n by simp_all
  show "put_entry (p + 8 * of_nat i) v m (q + 8 * of_nat j) = (if p = q \<and> i = j then v else m (q + 8 * of_nat j))"
    "put_entry (p + 8 * of_nat i) v m (q + 8 * of_nat j + 4) = (if p = q \<and> i = j then 0 else m (q + 8 * of_nat j + 4))"
    unfolding put_entry_def using e[folded s] by (simp_all add: fun_upd_apply eq_commute[of "q + _"])
qed

lemma entry_at_put:
  assumes "take_bit 12 p = 0" "take_bit 12 q = 0" "i < 512" "j < 512"
  shows "entry_at (put_entry (p + 8 * of_nat i) v m) q j = (if p = q \<and> i = j then ucast v else entry_at m q j)"
  unfolding entry_at_def put_entry_page[OF assms] by simp

lemma entry_at_loop:
  assumes "take_bit 12 p = 0" "take_bit 12 q = 0" "j < 512" "k + n \<le> 512"
  shows "entry_at (pd_loop n eax (p + 8 * of_nat k) m) q j =
    (if p = q \<and> k \<le> j \<and> j < k + n then ucast ((eax + 0x200000 * of_nat (j - k)) OR 0x83) else entry_at m q j)"
  using assms(4)
proof (induction n arbitrary: k eax m)
  case (Suc n)
  have "p + 8 * of_nat k + 8 = p + 8 * of_nat (Suc k)" by simp
  then have "entry_at (pd_loop (Suc n) eax (p + 8 * of_nat k) m) q j =
      entry_at (pd_loop n (eax + 0x200000) (p + 8 * of_nat (Suc k)) (put_entry (p + 8 * of_nat k) (eax OR 0x83) m)) q j"
    by (simp only: pd_loop.simps)
  also have "\<dots> = (if p = q \<and> Suc k \<le> j \<and> j < Suc k + n then ucast ((eax + 0x200000 + 0x200000 * of_nat (j - Suc k)) OR 0x83)
      else if p = q \<and> k = j then ucast (eax OR 0x83) else entry_at m q j)"
  proof -
    have "k < 512" "Suc k + n \<le> 512" using Suc.prems by simp_all
    then show ?thesis by (simp only: Suc.IH entry_at_put[OF assms(1,2) _ assms(3)])
  qed
  also have "\<dots> = (if p = q \<and> k \<le> j \<and> j < k + Suc n then ucast ((eax + 0x200000 * of_nat (j - k)) OR 0x83) else entry_at m q j)"
  proof (cases "Suc k \<le> j")
    case True
    then have "j - k = Suc (j - Suc k)" by simp
    then have "eax + 0x200000 + 0x200000 * of_nat (j - Suc k) = eax + 0x200000 * of_nat (j - k)" by (simp add: algebra_simps)
    then show ?thesis using True by simp
  qed auto
  finally show ?case .
qed auto

lemma boot_entries:
  assumes "pages3 pml4 pdpt pd" "j < 512"
  shows "entry_at (boot_tables pml4 pdpt pd m) pml4 j = (if j = 0 \<or> j = 511 then ucast (pdpt OR 0x03) else entry_at m pml4 j)"
    "entry_at (boot_tables pml4 pdpt pd m) pdpt j = (if j = 0 \<or> j = 510 then ucast (pd OR 0x03) else entry_at m pdpt j)"
    "entry_at (boot_tables pml4 pdpt pd m) pd j = ucast ((0x200000 * of_nat j) OR 0x83 :: u32)"
proof -
  have a: "take_bit 12 pml4 = 0" "take_bit 12 pdpt = 0" "take_bit 12 pd = 0" and ne: "pml4 \<noteq> pdpt" "pdpt \<noteq> pd" "pml4 \<noteq> pd"
    using assms(1) by (simp_all add: pages3_def)
  have p: "entry_at (put_entry (p + 510 * 8) v m) q j = (if p = q \<and> 510 = j then ucast v else entry_at m q j)"
    "entry_at (put_entry (p + 511 * 8) v m) q j = (if p = q \<and> 511 = j then ucast v else entry_at m q j)"
    "entry_at (put_entry p v m) q j = (if p = q \<and> 0 = j then ucast v else entry_at m q j)"
    if "take_bit 12 p = 0" "take_bit 12 q = 0" for p q v m
    using entry_at_put[OF that _ assms(2), of 510] entry_at_put[OF that _ assms(2), of 511] entry_at_put[OF that _ assms(2), of 0] by simp_all
  have l: "entry_at (pd_loop 512 0 pd m) q j = (if pd = q then ucast ((0x200000 * of_nat j) OR 0x83 :: u32) else entry_at m q j)"
    if "take_bit 12 q = 0" for q m using entry_at_loop[OF a(3) that assms(2), of 0 512 0 m] assms(2) by simp
  show "entry_at (boot_tables pml4 pdpt pd m) pml4 j = (if j = 0 \<or> j = 511 then ucast (pdpt OR 0x03) else entry_at m pml4 j)"
    "entry_at (boot_tables pml4 pdpt pd m) pdpt j = (if j = 0 \<or> j = 510 then ucast (pd OR 0x03) else entry_at m pdpt j)"
    "entry_at (boot_tables pml4 pdpt pd m) pd j = ucast ((0x200000 * of_nat j) OR 0x83 :: u32)"
    unfolding boot_tables_def l[OF a(1)] l[OF a(2)] l[OF a(3)] p[OF a(1) a(1)] p[OF a(1) a(2)] p[OF a(2) a(1)] p[OF a(2) a(2)] using ne by auto
qed

lemma table_at_entry:
  assumes "take_bit 12 (t :: u32) = 0"
  shows "table_at (ucast (t OR 0x03)) = Some t"
proof -
  have b: "\<not> bit t n" if "n < 12" for n
  proof
    assume "bit t n"
    then have "bit (take_bit 12 t) n" using that by (simp add: bit_take_bit_iff)
    then show False by (simp add: assms)
  qed
  have k: "(0xFFF :: u32) = mask 12" "(0x03 :: u32) = mask 2" by (simp_all add: mask_numeral)
  have "(t OR 0x03) AND NOT 0xFFF = t" unfolding k by (rule bit_word_eqI) (use b in \<open>auto simp: bit_simps not_less[symmetric]\<close>)
  moreover have "unat (ucast (t OR 0x03) :: u64) < 2 ^ 32"
    using unat_u32[of "t OR 0x03"] by simp
  moreover have "(ucast (ucast (t OR 0x03) :: u64) :: u32) = t OR 0x03" by (rule bit_word_eqI) (simp add: bit_simps)
  ultimately show ?thesis by (simp add: table_at_def word_less_nat_alt bit_simps)
qed

lemma index_at_less: "index_at sh va < 512"
proof -
  have "unat (take_bit 9 (drop_bit sh va)) = take_bit 9 (unat (drop_bit sh va))" by (simp only: unsigned_take_bit_eq)
  also have "\<dots> < 2 ^ 9" by (rule take_bit_nat_less_exp)
  finally show ?thesis by (simp add: index_at_def)
qed

text \<open>The page directory maps its gigabyte to itself.\<close>

lemma pd_entry:
  fixes va :: u64
  defines "e \<equiv> ucast ((0x200000 * of_nat (index_at 21 va)) OR 0x83 :: u32) :: u64"
  shows "bit e 0 \<and> bit e 7 \<and> e AND 0x000FFFFFFFE00000 OR take_bit 21 va = take_bit 30 va"
proof -
  define w where "w = take_bit 9 (drop_bit 21 va)"
  have "(0x200000 * of_nat (index_at 21 va) :: u32) = push_bit 21 (ucast w)"
    by (simp add: index_at_def w_def push_bit_eq_mult mult.commute)
  then have e: "e = ucast (push_bit 21 (ucast w) OR 0x83 :: u32)" by (simp add: e_def)
  have "bit (e AND 0x000FFFFFFFE00000 OR take_bit 21 va) n = bit (take_bit 30 va) n" if "n < 64" for n
  proof -
    have "(0x000FFFFFFFE00000 :: u64) = push_bit 21 (mask 31)" by (simp add: mask_numeral)
    moreover have "bit (push_bit 21 (mask 31) :: u64) n \<longleftrightarrow> 21 \<le> n \<and> n < 52" using that by (auto simp: bit_simps)
    ultimately have m: "bit (0x000FFFFFFFE00000 :: u64) n \<longleftrightarrow> 21 \<le> n \<and> n < 52" by (simp only:)
    have "(0x83 :: u32) = take_bit 8 0x83" by simp
    then have x: "21 \<le> n \<Longrightarrow> \<not> bit (0x83 :: u32) n" using bit_take_bit_iff[of 8 "0x83 :: u32" n] by simp
    show ?thesis using that m x by (auto simp: e w_def bit_simps)
  qed
  then have "e AND 0x000FFFFFFFE00000 OR take_bit 21 va = take_bit 30 va" by (intro bit_word_eqI) simp
  then show ?thesis by (simp add: e bit_simps)
qed

lemma index_at_unat: "index_at sh va = unat va div 2 ^ sh mod 512"
proof -
  have "unat (take_bit 9 (drop_bit sh va)) = take_bit 9 (unat (drop_bit sh va))" by (simp only: unsigned_take_bit_eq)
  also have "\<dots> = drop_bit sh (unat va) mod 512" by (simp add: take_bit_eq_mod unat_drop_bit_eq)
  finally show ?thesis by (simp add: index_at_def drop_bit_eq_div)
qed

lemma unat_take_bit_30: "unat (take_bit 30 va :: u64) = unat va mod 2 ^ 30"
proof -
  have "unat (take_bit 30 va) = take_bit 30 (unat va)" by (simp only: unsigned_take_bit_eq)
  then show ?thesis by (simp add: take_bit_eq_mod[of 30 "unat va"])
qed

lemma boot_walk_giga:
  assumes "pages3 pml4 pdpt pd" "index_at 39 va = 0 \<and> index_at 30 va = 0 \<or> index_at 39 va = 511 \<and> index_at 30 va = 510"
  shows "boot_walk (boot_tables pml4 pdpt pd m) pml4 va = Some (take_bit 30 va)"
proof -
  have a: "take_bit 12 pdpt = 0" "take_bit 12 pd = 0" using assms(1) by (simp_all add: pages3_def)
  have "table_at (entry_at (boot_tables pml4 pdpt pd m) pml4 (index_at 39 va)) = Some pdpt"
    "table_at (entry_at (boot_tables pml4 pdpt pd m) pdpt (index_at 30 va)) = Some pd"
    using assms(2) by (auto simp: boot_entries[OF assms(1)] table_at_entry[OF a(1)] table_at_entry[OF a(2)])
  then show ?thesis
    using pd_entry[of va] by (simp add: boot_walk_def boot_entries(3)[OF assms(1) index_at_less] Let_def)
qed

text \<open>C36. The boot page tables map what the kernel needs to reach its 64-bit code: each address of the first gigabyte to itself, and each address of the
  gigabyte from \<open>KERNEL_VMA\<close> on to its offset, whatever the memory held before.\<close>

theorem boot_tables_map:
  assumes "pages3 pml4 pdpt pd" "x < 2 ^ 30"
  shows "boot_walk (boot_tables pml4 pdpt pd m) pml4 x = Some x
    \<and> boot_walk (boot_tables pml4 pdpt pd m) pml4 (KERNEL_VMA + x) = Some x"
proof -
  have u: "unat x < 2 ^ 30" using assms(2) by (simp add: word_less_nat_alt)
  then have y: "unat (KERNEL_VMA + x) = 0xFFFFFFFF80000000 + unat x" by (simp add: unat_word_ariths)
  have "index_at 39 x = 0" "index_at 30 x = 0" "take_bit 30 x = x"
    using u by (simp_all add: index_at_unat word_unat_eq_iff unat_take_bit_30)
  moreover have "(0xFFFFFFFF80000000 + unat x) div 2 ^ 39 = 33554431" "(0xFFFFFFFF80000000 + unat x) div 2 ^ 30 = 17179869182"
    by (rule div_nat_eqI; use u in simp)+
  then have "index_at 39 (KERNEL_VMA + x) = 511" "index_at 30 (KERNEL_VMA + x) = 510"
    unfolding index_at_unat y by simp_all
  moreover have "(0xFFFFFFFF80000000 :: nat) + unat x = unat x + 17179869182 * 2 ^ 30" by simp
  then have "(0xFFFFFFFF80000000 + unat x) mod 2 ^ 30 = unat x" using u by (simp only: mod_mult_self1 mod_less)
  then have "take_bit 30 (KERNEL_VMA + x) = x" unfolding word_unat_eq_iff unat_take_bit_30 y by simp
  ultimately show ?thesis using boot_walk_giga[OF assms(1), of x] boot_walk_giga[OF assms(1), of "KERNEL_VMA + x"] by simp
qed

theorem boot_tables_map_witness:
  "pages3 0x1000 0x2000 0x3000 \<and> boot_walk (boot_tables 0x1000 0x2000 0x3000 (\<lambda>_. 0xFF)) 0x1000 0xFFFFFFFF80100000 = Some 0x100000"
proof -
  have "pages3 0x1000 0x2000 0x3000" by (simp add: pages3_def)
  from this boot_tables_map[OF this, of "0x100000" "\<lambda>_. 0xFF"] show ?thesis by simp
qed

end
