(* ===== verification/Panic_Print.thy ===== *)
theory Panic_Print
  imports Kprintf Spin
begin

text \<open>
  Printing under a lock, the rest of \<^verbatim>\<open>kernel/ke/kprintf.c\<close>, and the last words of the kernel, \<^verbatim>\<open>kernel/ke/panic.c\<close>.  The state is the locks, the nesting depth
  and what has been printed; \<open>l\<close> is the lock of the serial line.  \<open>panic\<close> returns the state in which the processor halts.
\<close>

record console =
  co_spin :: spin_state
  co_depth :: u32
  co_out :: string

section \<open>Printing\<close>

definition takes_lock :: "console \<Rightarrow> bool" where
  "takes_lock c \<longleftrightarrow> co_depth c + 1 = 1 \<and> \<not> g_panic_in_progress (co_spin c)"

text \<open>What \<open>kprintf\<close> and \<open>kputchar\<close> do around the text they print.\<close>

definition locked_emit :: "u64 \<Rightarrow> string outcome \<Rightarrow> console \<Rightarrow> console outcome" where
  "locked_emit l text c =
     bind_outcome (if takes_lock c then spin_lock l (co_spin c) else Ret (co_spin c)) (\<lambda>sp.
     bind_outcome text (\<lambda>t.
       Ret (c\<lparr>co_spin := (if takes_lock c then spin_unlock l sp else sp), co_out := co_out c @ t\<rparr>)))"

definition kprintf :: "u64 \<Rightarrow> string \<Rightarrow> varg list \<Rightarrow> console \<Rightarrow> console outcome" where
  "kprintf l fmt ap c = locked_emit l (kvprintf fmt ap) c"

definition kputs :: "u64 \<Rightarrow> string \<Rightarrow> console \<Rightarrow> console outcome" where
  "kputs l t c = kprintf l ''%s'' [VStr (Some t)] c"

definition kputchar :: "u64 \<Rightarrow> char \<Rightarrow> console \<Rightarrow> console outcome" where
  "kputchar l ch c = locked_emit l (Ret [ch]) c"

fun kprintfs :: "u64 \<Rightarrow> (string \<times> varg list) list \<Rightarrow> console \<Rightarrow> console outcome" where
  "kprintfs l [] c = Ret c"
| "kprintfs l (f # fs) c = bind_outcome (kprintf l (fst f) (snd f) c) (kprintfs l fs)"

section \<open>Panic\<close>

text \<open>What the processor block knows: the current thread with its number, name and process, the ticks and the interrupt level.\<close>

record pcb_info =
  pi_current :: "(u64 \<times> string \<times> u64) option"
  pi_ticks :: u64
  pi_irql :: u32

abbreviation (input) LF :: char where "LF \<equiv> CHR 0x0A"

definition panic_lines :: "pcb_info \<Rightarrow> spin_state \<Rightarrow> (string \<times> varg list) list" where
  "panic_lines p sp =
     [(LF # ''*** AEGIS PANIC ***'' @ [LF], [])]
     @ (case pi_current p of
          None \<Rightarrow> []
        | Some (tid, nm, pid) \<Rightarrow> [(''thread %llu (%s) pid %llu'' @ [LF], [VNum tid, VStr (Some nm), VNum pid])])
     @ [(''ticks %llu irql %u held_rank %u depth %u'' @ [LF],
         [VNum (pi_ticks p), VNum (ucast (pi_irql p)), VNum (of_nat (held_rank sp)), VNum (of_nat (length (rank_stack sp)))])]
     @ (if rank_stack sp \<noteq> []
        then [(''rank stack:'', [])] @ map (\<lambda>r. ('' %u'', [VNum (of_nat r)])) (take LOCK_DEPTH_MAX (rank_stack sp)) @ [([LF], [])]
        else [])
     @ [(''why: '', [])]"

definition in_panic :: "console \<Rightarrow> console" where
  "in_panic c = c\<lparr>co_spin := (co_spin c)\<lparr>g_panic_in_progress := True\<rparr>\<rparr>"

definition panic :: "u64 \<Rightarrow> pcb_info \<Rightarrow> string \<Rightarrow> varg list \<Rightarrow> console \<Rightarrow> console outcome" where
  "panic l p fmt ap c =
     bind_outcome (kprintfs l (panic_lines p (co_spin c)) (in_panic c)) (\<lambda>c1.
     bind_outcome (kvprintf fmt ap) (\<lambda>t.
       kprintf l (LF # ''*** halt ***'' @ [LF]) [] (c1\<lparr>co_out := co_out c1 @ t\<rparr>)))"

definition reg_names :: "string list" where
  "reg_names = [''rax'', ''rbx'', ''rcx'', ''rdx'', ''rsi'', ''rdi'', ''rbp'', ''rsp'', ''r8 '', ''r9 '', ''r10'', ''r11'', ''r12'', ''r13'', ''r14'', ''r15'',
     ''rip'', ''rfl'', ''cr2'', ''cs '']"

definition reg_lines :: "u64 list option \<Rightarrow> (string \<times> varg list) list" where
  "reg_lines gprs =
     (case gprs of
        None \<Rightarrow> []
      | Some g \<Rightarrow> map (\<lambda>i. (''  %s %016llx%s'', [VStr (Some (reg_names ! i)), VNum (g ! i), VStr (Some (if odd i then [LF] else ''  ''))])) [0..<20])"

definition panic_with_regs :: "u64 \<Rightarrow> pcb_info \<Rightarrow> string option \<Rightarrow> u64 list option \<Rightarrow> console \<Rightarrow> console outcome" where
  "panic_with_regs l p why gprs c =
     bind_outcome
       (kprintfs l ((LF # ''*** AEGIS PANIC *** %s'' @ [LF], [VStr (Some (case why of Some w \<Rightarrow> w | None \<Rightarrow> ''regs''))]) # reg_lines gprs) (in_panic c)) (\<lambda>c1.
       panic l p ''%s'' [VStr (Some (case why of Some w \<Rightarrow> w | None \<Rightarrow> ''exception''))] c1)"

section \<open>Panic is heard\<close>

text \<open>During a panic nothing waits for a lock.\<close>

definition quiet :: "console \<Rightarrow> bool" where
  "quiet c \<longleftrightarrow> g_panic_in_progress (co_spin c)"

lemma kprintf_quiet: "quiet c \<Longrightarrow> kvprintf fmt ap = Ret t \<Longrightarrow> kprintf l fmt ap c = Ret (c\<lparr>co_out := co_out c @ t\<rparr>)"
  by (simp add: quiet_def kprintf_def locked_emit_def takes_lock_def)

lemma kprintfs_quiet:
  assumes "list_all (\<lambda>f. \<exists>t. kvprintf (fst f) (snd f) = Ret t) fs" "quiet c"
  shows "\<exists>t. kprintfs l fs c = Ret (c\<lparr>co_out := co_out c @ t\<rparr>)"
  using assms
proof (induction fs arbitrary: c)
  case (Cons f fs)
  then obtain t where t: "kvprintf (fst f) (snd f) = Ret t" by auto
  have "quiet (c\<lparr>co_out := co_out c @ t\<rparr>)" using Cons.prems(2) by (simp add: quiet_def)
  with Cons.IH Cons.prems(1) obtain u where "kprintfs l fs (c\<lparr>co_out := co_out c @ t\<rparr>) = Ret (c\<lparr>co_out := (co_out c @ t) @ u\<rparr>)"
    by fastforce
  then show ?case using kprintf_quiet[OF Cons.prems(2) t] by auto
qed (auto intro: exI[of _ "[]"])

lemma kvprintf_Nil [simp]: "kvprintf [] ap = Ret []"
  by (simp add: kvprintf.simps)

lemma kvprintf_plain [simp]: "c \<noteq> CHR ''%'' \<Longrightarrow> kvprintf (c # f) ap = bind_outcome (kvprintf f ap) (\<lambda>out. Ret (c # out))"
  by (subst kvprintf.simps) simp

lemmas spec_simps = parse_spec_def kconv_def is_digit_def width_of_def

lemma kvprintf_llu [simp]:
  "kvprintf (CHR ''%'' # CHR ''l'' # CHR ''l'' # CHR ''u'' # f) (VNum n # ap) =
     bind_outcome (kvprintf f ap) (\<lambda>out. Ret (emit_u n 10 False 0 CHR '' '' @ out))"
  by (subst kvprintf.simps) (simp add: spec_simps)

lemma kvprintf_u [simp]:
  "kvprintf (CHR ''%'' # CHR ''u'' # f) (VNum n # ap) =
     bind_outcome (kvprintf f ap) (\<lambda>out. Ret (emit_u (low32 n) 10 False 0 CHR '' '' @ out))"
  by (subst kvprintf.simps) (simp add: spec_simps)

lemma kvprintf_s [simp]:
  "kvprintf (CHR ''%'' # CHR ''s'' # f) (VStr t # ap) = bind_outcome (kvprintf f ap) (\<lambda>out. Ret (emit_str t @ out))"
  by (subst kvprintf.simps) (simp add: spec_simps)

lemma panic_lines_print: "list_all (\<lambda>f. \<exists>t. kvprintf (fst f) (snd f) = Ret t) (panic_lines p sp)"
  by (cases "pi_current p") (auto simp: panic_lines_def list_all_iff)

text \<open>A panic is always heard: whatever locks are held, also the one of the serial line, \<open>panic\<close> comes to its halt with its reason printed
  last, waits for no lock, and leaves every lock as it was.\<close>

theorem panic_prints:
  assumes "kvprintf fmt ap = Ret why"
  shows "\<exists>c' pre. panic l p fmt ap c = Ret c' \<and> co_out c' = co_out c @ pre @ why @ LF # ''*** halt ***'' @ [LF]
    \<and> sp_locked (co_spin c') = sp_locked (co_spin c) \<and> rank_stack (co_spin c') = rank_stack (co_spin c)"
proof -
  have q: "quiet (in_panic c)" by (simp add: quiet_def in_panic_def)
  obtain pre where pre: "kprintfs l (panic_lines p (co_spin c)) (in_panic c) = Ret (in_panic c\<lparr>co_out := co_out (in_panic c) @ pre\<rparr>)"
    using kprintfs_quiet[OF panic_lines_print q] by blast
  have h: "kvprintf (LF # ''*** halt ***'' @ [LF]) [] = Ret (LF # ''*** halt ***'' @ [LF])" by simp
  let ?c = "in_panic c\<lparr>co_out := (co_out (in_panic c) @ pre) @ why\<rparr>"
  have "quiet ?c" using q by (simp add: quiet_def)
  from kprintf_quiet[OF this h] pre assms show ?thesis by (simp add: panic_def in_panic_def)
qed

text \<open>The lock of the serial line is held when the panic comes.\<close>

theorem panic_prints_witness:
  "\<exists>c'. panic 1 \<lparr>pi_current = None, pi_ticks = 7, pi_irql = 0\<rparr> ''stop'' []
       \<lparr>co_spin = \<lparr>sp_locked = (\<lambda>_. True), sp_rank = (\<lambda>_. 1), rank_stack = [1], held_rank = 1, g_panic_in_progress = False\<rparr>, co_depth = 1, co_out = []\<rparr> = Ret c'
     \<and> (\<exists>pre. co_out c' = pre @ ''stop'' @ LF # ''*** halt ***'' @ [LF]) \<and> sp_locked (co_spin c') 1"
proof -
  have "kvprintf ''stop'' [] = Ret ''stop''" by simp
  from panic_prints[OF this, of 1 "\<lparr>pi_current = None, pi_ticks = 7, pi_irql = 0\<rparr>"
      "\<lparr>co_spin = \<lparr>sp_locked = (\<lambda>_. True), sp_rank = (\<lambda>_. 1), rank_stack = [1], held_rank = 1, g_panic_in_progress = False\<rparr>, co_depth = 1, co_out = []\<rparr>"]
  show ?thesis by auto
qed

end
