(* ===== verification/Heap_Services.thy ===== *)
theory Heap_Services
  imports Syscall_Dispatch Frames Heap_Correct
begin

text \<open>
  The heap and the page allocator under the system services: whatever a program asks for, the invariant of both is kept
  by every service that does not give pages of an address space back.  The routines below are grouped by the part of the
  state they touch: those that leave the heap alone, those that only allocate and release heap memory, and those that
  take pages for user memory.
\<close>

section \<open>Keeping the heap invariant\<close>

abbreviation heap_ok :: "kst \<Rightarrow> bool" where "heap_ok s \<equiv> heap_inv (k_heap s)"

text \<open>For routines that return a state, a state and a value, or a state and a flow; a thread that exits is left out.\<close>

definition keeps_s :: "kst outcome \<Rightarrow> bool" where
  "keeps_s m \<longleftrightarrow> (\<forall>s. m = Ret s \<longrightarrow> heap_ok s)"

definition keeps_p :: "(kst \<times> 'a) outcome \<Rightarrow> bool" where
  "keeps_p m \<longleftrightarrow> (\<forall>r. m = Ret r \<longrightarrow> heap_ok (fst r))"

definition keeps_f :: "(kst \<times> 'a flow) outcome \<Rightarrow> bool" where
  "keeps_f m \<longleftrightarrow> (\<forall>r. m = Ret r \<longrightarrow> snd r \<noteq> Exits \<longrightarrow> heap_ok (fst r))"

named_theorems heap_same "routines that leave the heap alone"
named_theorems keeps "routines that keep the heap invariant"

lemma keeps_base [simp]:
  "keeps_s (Ret s) \<longleftrightarrow> heap_ok s" "keeps_s (Panic msg)" "keeps_s Hang"
  "keeps_p (Ret r) \<longleftrightarrow> heap_ok (fst r)" "keeps_p (Panic msg)" "keeps_p Hang"
  "keeps_f (Ret q) \<longleftrightarrow> (snd q \<noteq> Exits \<longrightarrow> heap_ok (fst q))" "keeps_f (Panic msg)" "keeps_f Hang"
  by (auto simp: keeps_s_def keeps_p_def keeps_f_def)

lemma keeps_bind [keeps]:
  "keeps_s m \<Longrightarrow> (\<And>s. heap_ok s \<Longrightarrow> keeps_s (f s)) \<Longrightarrow> keeps_s (bind_outcome m f)"
  "keeps_s m \<Longrightarrow> (\<And>s. heap_ok s \<Longrightarrow> keeps_p (g s)) \<Longrightarrow> keeps_p (bind_outcome m g)"
  "keeps_s m \<Longrightarrow> (\<And>s. heap_ok s \<Longrightarrow> keeps_f (h s)) \<Longrightarrow> keeps_f (bind_outcome m h)"
  "keeps_p n \<Longrightarrow> (\<And>r. heap_ok (fst r) \<Longrightarrow> keeps_s (f' r)) \<Longrightarrow> keeps_s (bind_outcome n f')"
  "keeps_p n \<Longrightarrow> (\<And>r. heap_ok (fst r) \<Longrightarrow> keeps_p (g' r)) \<Longrightarrow> keeps_p (bind_outcome n g')"
  "keeps_p n \<Longrightarrow> (\<And>r. heap_ok (fst r) \<Longrightarrow> keeps_f (h' r)) \<Longrightarrow> keeps_f (bind_outcome n h')"
  by (cases m; simp add: keeps_s_def keeps_p_def keeps_f_def; fail | cases n; simp add: keeps_s_def keeps_p_def keeps_f_def)+

lemma keeps_flow [keeps]:
  assumes "keeps_f m" "\<And>s x. heap_ok s \<Longrightarrow> keeps_f (f s x)"
  shows "keeps_f (bind_flow m f)"
proof (cases m)
  case (Ret r)
  then show ?thesis using assms by (cases r; cases "snd r") (auto simp: bind_flow_def)
qed (simp_all add: bind_flow_def)

lemma keeps_exits [simp]: "keeps_f (bind_outcome m (\<lambda>s. Ret (s, Exits)))"
  by (cases m) simp_all

lemma keeps_now [keeps]: "keeps_p m \<Longrightarrow> keeps_f (now m)"
  by (auto simp: now_def split_beta intro!: keeps)

lemma heap_same_update [heap_same]:
  "k_heap (upd_obj a f1 s) = k_heap s" "k_heap (upd_disp d f2 s) = k_heap s" "k_heap (upd_thread a f3 s) = k_heap s"
  "k_heap (upd_proc a f4 s) = k_heap s" "k_heap (upd_mutex a f5 s) = k_heap s" "k_heap (upd_timer a f6 s) = k_heap s"
  "k_heap (upd_pipe a f7 s) = k_heap s" "k_heap (upd_vnode a f8 s) = k_heap s" "k_heap (upd_file a f9 s) = k_heap s"
  "k_heap (upd_token a g1 s) = k_heap s"
  by (simp_all add: kst_upd upd_token_def)

section \<open>The heap\<close>

lemma keeps_k_alloc [keeps]: "heap_ok s \<Longrightarrow> keeps_p (k_alloc s n)"
  using kh.alloc_total[of "k_heap s" n] by (auto simp: k_alloc_def keeps_p_def)

lemma keeps_k_alloc_zero [keeps]: "heap_ok s \<Longrightarrow> keeps_p (k_alloc_zero s n)"
  using khz.alloc_total[of "k_heap s" n] by (auto simp: k_alloc_zero_def keeps_p_def)

text \<open>A release that succeeds, whatever pointer it is given, takes back one object of a slab or one large allocation.\<close>

lemma kfree_slot:
  assumes i: "heap_inv h" and f: "find_class (g_classes h) p 0 = Some (c, j, b)" "p \<noteq> 0" and r: "kfree h p = Ret h'"
  shows "heap_inv h'"
proof -
  let ?s = "g_classes h ! c ! j"
  have c: "c < HEAP_CLASSES" "j < length (g_classes h ! c)" "in_slab ?s p = Some b"
    using find_class_spec[where cs = "g_classes h" and p = p and ?c0.0 = 0] f(1) i by (auto simp: heap_inv_def)
  note cs = class_slab[OF i c(1,2)]
  have b: "b < sl_objects ?s" using c(3) cs(1) by (auto simp: in_slab_def small_ok_def Let_def split: if_splits)
  have ng: "\<not> bitmap_get (sl_bitmap ?s) b" using r f by (auto simp: kfree_def Let_def)
  then have nb: "b \<notin> free_bits (sl_bitmap ?s) (sl_objects ?s)" by (simp add: free_bits_def)
  let ?s' = "?s\<lparr>sl_bitmap := bitmap_set (sl_bitmap ?s) b True, sl_free_count := sl_free_count ?s + 1\<rparr>"
  let ?x = "(sl_base ?s + of_nat (b * sl_size ?s), sl_size ?s)"
  note rl = small_release[OF cs(1) c(1) b nb cs(2)]
  have l: "c < length (g_classes h)" using i c by (simp add: heap_inv_def)
  obtain A B where ab: "all_slabs h = A @ ?s # B" "\<And>t. all_slabs (put_slab h c j t) = A @ t # B"
    using put_slab_split[OF l c(2)] by blast
  have inv: "pmm_inv (h_pmm h)" "mem_bounded (h_pmm h)" "slabs_ok (h_pmm h) (A @ ?s # B)"
    using i ab by (auto simp: heap_inv_def)
  have al: "heap_allocs (put_slab h c j ?s') = heap_allocs h - {?x}"
    unfolding heap_allocs_def ab allocs_of_split using rl(2) slab_allocs_other[OF inv rl(3)] by auto
  have mem: "?x \<in> heap_allocs h" using rl(3) by (simp add: heap_allocs_def ab allocs_of_split)
  define h1 where "h1 = heap_fill (put_slab h c j ?s') p (sl_size ?s) POISON_FREE"
  let ?u = "g_used h1 - of_nat (sl_size ?s)"
  have h': "h' = h1\<lparr>g_used := ?u\<rparr>" using r f ng by (simp add: kfree_def Let_def h1_def)
  have "?u = of_nat (\<Sum>(p, m)\<in>heap_allocs (put_slab h c j ?s'). m)"
    unfolding al using used_remove[OF i mem] by (simp add: h1_def)
  then have "heap_inv ((put_slab h c j ?s')\<lparr>g_used := ?u\<rparr>)" by (intro put_slab_inv[OF i c(1,2) rl(1)]) simp_all
  then show ?thesis unfolding h' h1_def heap_fill_used by simp
qed

lemma kfree_inv:
  assumes i: "heap_inv h" and r: "kfree h p = Ret h'"
  shows "heap_inv h'"
proof (cases "p = 0")
  case True
  then show ?thesis using i r by (simp add: kfree_def)
next
  case p: False
  show ?thesis
  proof (cases "find_class (g_classes h) p 0")
    case (Some x)
    then show ?thesis using kfree_slot[OF i _ p r] by (cases x) auto
  next
    case None
    then obtain j b where a: "find_slab (g_large h) p 0 = Some (j, b)" using r p by (auto simp: kfree_def split: option.splits)
    then have j: "j < length (g_large h)" "in_slab (g_large h ! j) p = Some b"
      using find_slab_spec[where ss = "g_large h" and p = p and ?j0.0 = 0] by auto
    then have "(p, sl_size (g_large h ! j)) \<in> slab_allocs (g_large h ! j)"
      using i by (auto simp: heap_inv_def slab_allocs_def large_ok_def in_slab_def split: if_splits)
    then show ?thesis using kfree_large[OF i j(1) None a p] r by (metis outcome.inject(1))
  qed
qed

lemma keeps_k_free [keeps]: "heap_ok s \<Longrightarrow> keeps_s (k_free s p)"
  by (cases "kfree (k_heap s) p") (auto simp: k_free_def keeps_s_def dest: kfree_inv)

section \<open>Objects and handles\<close>

lemma keeps_vn_release [keeps]: "heap_ok s \<Longrightarrow> keeps_s (vn_release v s)"
  by (auto simp: vn_release_def Let_def heap_same intro!: keeps)

lemma keeps_leaf_delete [keeps]: "heap_ok s \<Longrightarrow> keeps_s (leaf_delete a s)"
  by (auto simp: leaf_delete_def vfs_file_delete_def section_delete_def Let_def heap_same intro!: keeps split: object_kind.split)

lemma keeps_deref_with:
  assumes "\<And>s. heap_ok s \<Longrightarrow> keeps_s (del a s)" "heap_ok s"
  shows "keeps_s (deref_with del a s)"
  using assms by (auto simp: deref_with_def Let_def heap_same intro!: keeps)

lemma keeps_deref [keeps]: "heap_ok s \<Longrightarrow> keeps_s (ob_dereference a s)"
  unfolding ob_dereference_def
  by (rule keeps_deref_with)
    (auto simp: ob_delete_def process_delete_def Let_def heap_same intro!: keeps keeps_deref_with)

lemma heap_same_reference [heap_same]: "k_heap (ob_reference a s) = k_heap s"
  by (simp add: ob_reference_def heap_same)

lemma heap_same_zero_body [heap_same]: "k_heap (zero_body k a s) = k_heap s"
  by (cases k) simp_all

lemma heap_same_names [heap_same]:
  "k_heap (fst (ob_insert_name dir a nm s)) = k_heap s" "k_heap (fst (dir_lookup dir nm s)) = k_heap s"
  by (auto simp: ob_insert_name_def dir_lookup_def Let_def heap_same split: option.split)

lemma keeps_lookup_loop [keeps]: "heap_ok s \<Longrightarrow> keeps_p (lookup_loop p cur s)"
proof (induction p cur s rule: lookup_loop.induct)
  case (1 p cur s)
  obtain s1 nxt where d: "dir_lookup cur (fst (next_comp (CHR 0x5C) p)) s = (s1, nxt)" by (cases "dir_lookup cur (fst (next_comp (CHR 0x5C) p)) s")
  then have "heap_ok s1" using 1(2) heap_same_names(2)[of cur "fst (next_comp (CHR 0x5C) p)" s] by simp
  then show ?case
    using keeps_deref[of s cur] keeps_deref[of s1 cur] 1 d
    by (subst lookup_loop.simps) (simp add: Let_def keeps_s_def split: outcome.split)
qed

lemma keeps_ob_lookup [keeps]: "heap_ok s \<Longrightarrow> keeps_p (ob_lookup path expect s)"
  by (auto simp: ob_lookup_def split_beta heap_same intro!: keeps split: sum.split)

lemma keeps_ob_create [keeps]: "heap_ok s \<Longrightarrow> keeps_p (ob_create k nm dir s)"
  by (auto simp: ob_create_def split_beta Let_def heap_same intro!: keeps split: option.split)

lemmas heap_same_wakes [heap_same] =
  wakes_wake_one[THEN only_wakes_fields(1)] wakes_wake_all[THEN only_wakes_fields(1)] wakes_disp_signal[THEN only_wakes_fields(1)]
  wakes_sched_boost[THEN only_wakes_fields(1)] wakes_sched_ready[THEN only_wakes_fields(1)] wakes_mutex_own[THEN only_wakes_fields(1)]

lemma heap_same_ht [heap_same]:
  "k_heap (open_fn a acc s) = k_heap s" "k_heap (close_fn a acc s) = k_heap s" "k_heap (put_slot t i e u s) = k_heap s"
  by (auto simp: open_fn_def close_fn_def pipe_open_def pipe_close_def put_slot_def Let_def heap_same)

lemma heap_same_ht_insert [heap_same]:
  "k_heap (fst (ht_insert_ex t a acc inh prot s)) = k_heap s" "k_heap (fst (ht_insert t a acc s)) = k_heap s"
  by (simp_all add: ht_insert_def ht_insert_ex_def Let_def heap_same split: option.split)

lemma heap_same_ht_lookup [heap_same]:
  "k_heap (fst (ht_lookup_ex t h req ex s)) = k_heap s" "k_heap (fst (ht_lookup t h req ex s)) = k_heap s"
  by (simp_all add: ht_lookup_def split_beta ht_lookup_ex_def Let_def heap_same)

lemma keeps_ht_close [keeps]: "heap_ok s \<Longrightarrow> keeps_p (ht_close t h s)"
  by (auto simp: ht_close_def drop_handle_def Let_def heap_same intro!: keeps)

lemma keeps_ht_duplicate [keeps]: "heap_ok s \<Longrightarrow> keeps_p (ht_duplicate src h dst acc s)"
  by (auto simp: ht_duplicate_def Let_def split_beta heap_same intro!: keeps)

section \<open>Dispatcher objects, scheduling and waiting\<close>

lemma heap_same_disp [heap_same]: "k_heap (disp_init d ty i s) = k_heap s" "k_heap (ke_mutex_disown m s) = k_heap s" "k_heap (ob_set_wait a d s) = k_heap s"
  by (simp_all add: disp_init_def ke_mutex_disown_def unlink_owned_def ob_set_wait_def heap_same)

lemma heap_same_queues [heap_same]:
  "k_heap (fst (ready_pop_highest s)) = k_heap s" "k_heap (put_back t s) = k_heap s" "k_heap (run_next t s) = k_heap s"
  by (simp_all add: ready_pop_highest_def put_back_def run_next_def ready_insert_def Let_def heap_same split: list.split)

lemma heap_same_sched [heap_same]: "k_heap (sched_reschedule s) = k_heap s" "k_heap (sched_yield s) = k_heap s"
  by (simp_all add: sched_reschedule_def sched_yield_def Let_def split_beta heap_same)

lemma heap_same_wait_try [heap_same]: "k_heap (fst (wait_try d t s)) = k_heap s"
  by (simp add: wait_try_def mutex_donate_def Let_def heap_same)

lemma keeps_wait_object [keeps]: "heap_ok s \<Longrightarrow> keeps_f (ke_wait_object d timeout s)"
  by (auto simp: ke_wait_object_def ke_wait_finish_def wait_block_on_def Let_def split_beta heap_same split: option.split)

lemma heap_same_poll [heap_same]: "k_heap (fst (wait_poll t d s)) = k_heap s"
  using heap_same_wait_try[of d t s] by (auto simp: wait_poll_def split: prod.split option.split)

lemma heap_same_fold: "(\<And>x s. k_heap (f x s) = k_heap s) \<Longrightarrow> k_heap (fold f xs s) = k_heap s"
  by (induction xs arbitrary: s) simp_all

lemma heap_same_poll_any [heap_same]: "k_heap (fst (poll_any t i ds s)) = k_heap s"
  by (induction ds arbitrary: i s) (simp_all add: Let_def split_beta heap_same)

lemma heap_same_multi [heap_same]:
  "k_heap (consume_all t ds s) = k_heap s" "k_heap (set_multi t i w s) = k_heap s" "k_heap (drop_waiter d wr s) = k_heap s"
  "k_heap (mutex_donate m t s) = k_heap s"
  by (simp_all add: consume_all_def set_multi_def drop_waiter_def mutex_donate_def Let_def heap_same heap_same_fold)

lemma heap_same_enqueue [heap_same]: "k_heap (fst (enqueue_loop t wa before i ds s)) = k_heap s"
  by (induction ds arbitrary: before i s) (simp_all add: Let_def heap_same heap_same_fold split_beta)

lemma heap_same_collect [heap_same]: "k_heap (fst (collect_multi t i ds w s)) = k_heap s"
  by (induction ds arbitrary: i w s) (simp_all add: Let_def heap_same)

lemma keeps_wait_multiple [keeps]: "heap_ok s \<Longrightarrow> keeps_f (ke_wait_multiple objs wait_all timeout s)"
  by (auto simp: ke_wait_multiple_def ke_wait_multiple_finish_def Let_def split_beta heap_same split: option.split)

section \<open>Timers and pipes\<close>

lemma keeps_creates [keeps]:
  assumes "heap_ok s"
  shows "keeps_p (ob_create_timer nm ar s)" "keeps_p (ob_create_event nm ar init s)" "keeps_p (ob_create_mutex nm own s)"
  using assms by (auto simp: ob_create_timer_def ob_create_event_def ob_create_mutex_def Let_def split_beta heap_same intro!: keeps)

lemma heap_same_timer [heap_same]: "k_heap (fst (ke_set_timer a due per s)) = k_heap s" "k_heap (fst (ke_cancel_timer a s)) = k_heap s"
  by (simp_all add: ke_set_timer_def ke_cancel_timer_def disarm_def timer_init_def Let_def heap_same)

lemma heap_same_pipe [heap_same]: "k_heap (put_pipe a p s) = k_heap s" "k_heap (pipe_setup a s) = k_heap s"
  by (simp_all add: put_pipe_def pipe_setup_def heap_same)

text \<open>A turn of a transfer that ends it, or goes on with the next.\<close>

definition keeps_t :: "'a turn \<Rightarrow> bool" where
  "keeps_t r \<longleftrightarrow> (case r of Inl m \<Rightarrow> keeps_f m | Inr p \<Rightarrow> heap_ok (fst p))"

lemma keeps_sleep_turn: "heap_ok s \<Longrightarrow> keeps_t (sleep_turn d x s)"
  using keeps_wait_object[of s "Some d" "- 1"]
  by (auto simp: sleep_turn_def keeps_t_def keeps_f_def split: outcome.split prod.split flow.split)

lemma keeps_pipe_turns:
  assumes "heap_ok s"
  shows "keeps_t (pipe_read_turn a n got s)" "keeps_t (pipe_write_turn a src don s)"
  using assms keeps_sleep_turn[of s]
  by (simp_all add: pipe_read_turn_def pipe_write_turn_def Let_def split_beta heap_same, auto simp: keeps_t_def heap_same)

lemma keeps_pipe_loops:
  assumes "heap_ok s"
  shows "pipe_read_loop a n got s = Some r \<Longrightarrow> keeps_f r" "pipe_write_loop a src don s = Some q \<Longrightarrow> keeps_f q"
proof -
  assume r: "pipe_read_loop a n got s = Some r"
  have "heap_ok s \<longrightarrow> keeps_f r"
  proof (rule pipe_read_loop.raw_induct[of "\<lambda>a n got s r. heap_ok s \<longrightarrow> keeps_f r", OF _ r])
    fix f a n got s r
    assume ih: "\<And>a n got s r. f a n got s = Some r \<Longrightarrow> heap_ok s \<longrightarrow> keeps_f r"
      and b: "(let t = pipe_read_turn a n got s in if isl t then Some (projl t) else f a n (snd (projr t)) (fst (projr t))) = Some r"
    show "heap_ok s \<longrightarrow> keeps_f r"
      using keeps_pipe_turns(1)[of s a n got] b ih
      by (cases "pipe_read_turn a n got s") (auto simp: keeps_t_def)
  qed
  then show "keeps_f r" using assms by simp
next
  assume q: "pipe_write_loop a src don s = Some q"
  have "heap_ok s \<longrightarrow> keeps_f q"
  proof (rule pipe_write_loop.raw_induct[of "\<lambda>a src don s r. heap_ok s \<longrightarrow> keeps_f r", OF _ q])
    fix f a src don s r
    assume ih: "\<And>a src don s r. f a src don s = Some r \<Longrightarrow> heap_ok s \<longrightarrow> keeps_f r"
      and b: "(let t = pipe_write_turn a src don s in if isl t then Some (projl t) else f a src (snd (projr t)) (fst (projr t))) = Some r"
    show "heap_ok s \<longrightarrow> keeps_f r"
      using keeps_pipe_turns(2)[of s a src don] b ih
      by (cases "pipe_write_turn a src don s") (auto simp: keeps_t_def)
  qed
  then show "keeps_f q" using assms by simp
qed

lemma keeps_of_loop: "(\<And>r. l = Some r \<Longrightarrow> keeps_f r) \<Longrightarrow> keeps_f (of_loop l)"
  by (cases l) (simp_all add: of_loop_def)

lemma keeps_pipe [keeps]: "heap_ok s \<Longrightarrow> keeps_f (pipe_read a n s)" "heap_ok s \<Longrightarrow> keeps_f (pipe_write a src s)"
  by (auto simp: pipe_read_def pipe_write_def intro!: keeps_of_loop dest: keeps_pipe_loops)

lemma keeps_NtCreatePipe [keeps]: "heap_ok s \<Longrightarrow> keeps_p (NtCreatePipe s)"
  by (auto simp: NtCreatePipe_def Let_def split_beta heap_same intro!: keeps)

section \<open>Files\<close>

lemma heap_same_vn [heap_same]:
  "k_heap (vn_attach p c s) = k_heap s" "k_heap (vn_detach p c s) = k_heap s" "k_heap (vn_pin v s) = k_heap s"
  "k_heap (upd_device a f s) = k_heap s" "k_heap (seek_to a off s) = k_heap s" "k_heap (fst (vfs_readdir a cap restart s)) = k_heap s"
  by (simp_all add: vn_attach_def vn_detach_def vn_pin_def upd_device_def seek_to_def vfs_readdir_def Let_def split_beta heap_same)

lemma keeps_vn_alloc [keeps]: "heap_ok s \<Longrightarrow> keeps_p (vn_alloc nm k s)"
  by (auto simp: vn_alloc_def split_beta intro!: keeps)

lemma keeps_open_vnode [keeps]: "heap_ok s \<Longrightarrow> keeps_p (open_vnode parent v leaf disp opts s)"
  by (auto simp: open_vnode_def Let_def split_beta heap_same intro!: keeps)

lemma keeps_vfs_open [keeps]: "heap_ok s \<Longrightarrow> keeps_p (vfs_open path acc disp opts s)"
  by (auto simp: vfs_open_def fo_from_pinned_def Let_def split_beta heap_same intro!: keeps split: sum.split)

lemma keeps_vfs_unlink [keeps]: "heap_ok s \<Longrightarrow> keeps_p (vfs_unlink path s)"
  by (auto simp: vfs_unlink_def Let_def split_beta heap_same intro!: keeps split: sum.split)

lemma keeps_io_call [keeps]: "heap_ok s \<Longrightarrow> keeps_p (io_call_driver dev i s)"
  by (auto simp: io_call_driver_def drv_dispatch_def serial_write_disp_def ramdisk_rw_def Let_def heap_same split: option.split driver.split)

lemma keeps_block_io [keeps]: "heap_ok s \<Longrightarrow> keeps_p (block_io f dev major buf n s)"
  by (auto simp: block_io_def io_alloc_irp_def io_free_irp_def Let_def split_beta heap_same intro!: keeps split: option.split)

lemma keeps_vfs_read [keeps]: "heap_ok s \<Longrightarrow> keeps_p (vfs_read f n s)"
  by (auto simp: vfs_read_def Let_def split_beta heap_same intro!: keeps split: vkind.split)

lemma keeps_vn_reserve [keeps]: "heap_ok s \<Longrightarrow> keeps_p (vn_reserve v need s)"
  by (auto simp: vn_reserve_def Let_def split_beta heap_same intro!: keeps)

lemma keeps_vfs_write [keeps]: "heap_ok s \<Longrightarrow> keeps_p (vfs_write f buf s)"
  by (auto simp: vfs_write_def file_write_def Let_def split_beta heap_same intro!: keeps split: vkind.split option.split)

section \<open>Pages for user memory\<close>

text \<open>The page allocator keeps its invariant and every block it has handed out.\<close>

definition grows :: "pmm \<Rightarrow> pmm \<Rightarrow> bool" where
  "grows pm pm' \<longleftrightarrow> (pmm_inv pm \<and> mem_bounded pm \<longrightarrow> pmm_inv pm' \<and> mem_bounded pm' \<and> pmm_owned pm \<subseteq> pmm_owned pm')"

definition grows_to :: "pmm \<Rightarrow> (pmm \<times> 'a) outcome \<Rightarrow> bool" where
  "grows_to pm m \<longleftrightarrow> (\<forall>r. m = Ret r \<longrightarrow> grows pm (fst r))"

lemma grows_refl [simp]: "grows pm pm"
  by (simp add: grows_def)

lemma grows_trans: "grows pm pm1 \<Longrightarrow> grows pm1 pm2 \<Longrightarrow> grows pm pm2"
  by (auto simp: grows_def)

lemma grows_ram [simp]: "grows pm (pm\<lparr>g_ram := r\<rparr>)"
  by (simp add: grows_def mem_bounded_def)

lemma grows_pte [simp]: "grows pm (pte_put pm a v)"
  by (simp add: pte_put_def)

lemma grows_alloc: "pmm_alloc pm 0 f = (pm', pa) \<Longrightarrow> grows pm pm'"
  using pmm.alloc_ok[of pm 0 f pm' pa] pmm.alloc_failed[of pm 0 f pm'] pmm_alloc_bounded[of pm 0 f pm' pa]
  by (cases "pa = PMM_INVALID") (auto simp: grows_def)

lemma grows_free:
  assumes "pmm_alloc pm 0 f = (pm1, pa)" "pa \<noteq> PMM_INVALID" "grows pm1 pm2" "pmm_free pm2 pa 0 = Ret pm3"
  shows "grows pm pm3"
  unfolding grows_def
proof (intro impI)
  assume i: "pmm_inv pm \<and> mem_bounded pm"
  then have a: "pmm_inv pm1" "pmm_owned pm1 = insert (pa, 0) (pmm_owned pm)" "pa \<notin> fst ` pmm_owned pm"
    using pmm.alloc_ok[OF _ _ assms(1,2)] by auto
  have "mem_bounded pm1" using pmm_alloc_bounded[OF _ _ assms(1)] i by simp
  then have g: "pmm_inv pm2" "mem_bounded pm2" "pmm_owned pm1 \<subseteq> pmm_owned pm2" using assms(3) a(1) by (auto simp: grows_def)
  then have o: "(pa, 0) \<in> pmm_owned pm2" using a(2) by auto
  then have "pmm_inv pm3" "pmm_owned pm3 = pmm_owned pm2 - {(pa, 0)}" using pmm.free_ok[OF g(1) o] assms(4) by auto
  moreover have "(pa, 0) \<notin> pmm_owned pm" using a(3) by force
  ultimately show "pmm_inv pm3 \<and> mem_bounded pm3 \<and> pmm_owned pm \<subseteq> pmm_owned pm3"
    using pmm_free_bounded[OF g(1) o assms(4)] g(2,3) a(2) by auto
qed

lemma grows_fill: "grows pm (fst (walk_fill_one pm cr3 va n))"
  by (simp add: walk_fill_one_def Let_def)

lemma grows_ensure: "grows_to pm (ensure_loop t pm cr3 page)"
proof (induction t arbitrary: pm)
  case (Suc t)
  obtain pm1 n where a: "pmm_alloc pm 0 (PMM_KERNEL OR PMM_ZERO) = (pm1, n)" by (cases "pmm_alloc pm 0 (PMM_KERNEL OR PMM_ZERO)")
  obtain pm2 used where w: "walk_fill_one pm1 cr3 page n = (pm2, used)" by (cases "walk_fill_one pm1 cr3 page n")
  have g: "grows pm pm1" "grows pm1 pm2" using grows_alloc[OF a] grows_fill[of pm1 cr3 page n] w by simp_all
  show ?case
  proof (cases "n = PMM_INVALID")
    case True
    then show ?thesis using a g by (simp add: pt_alloc_def grows_to_def)
  next
    case n: False
    define m where "m = (if used then Ret pm2 else pmm_free pm2 n 0)"
    have m: "grows pm pm3" if "m = Ret pm3" for pm3
      using that grows_trans[OF g] grows_free[OF a n g(2)] by (auto simp: m_def split: if_splits)
    have e: "ensure_loop (Suc t) pm cr3 page
        = bind_outcome m (\<lambda>pm3. if walk pm2 cr3 page \<noteq> None then Ret (pm3, STATUS_SUCCESS) else ensure_loop t pm3 cr3 page)"
      using a n w by (simp add: pt_alloc_def m_def)
    show ?thesis unfolding e using m Suc grows_trans by (cases m) (auto simp: grows_to_def)
  qed
qed (simp add: grows_to_def)

lemma grows_leaf: "vmm_ensure_leaf pm cr3 page = Ret (pm', st) \<Longrightarrow> grows pm pm'"
  using grows_ensure[of pm 16 cr3 page] by (auto simp: vmm_ensure_leaf_def grows_to_def split: if_splits)

lemma grows_populate: "vmm_populate_page pm as page write = Ret (pm', st) \<Longrightarrow> grows pm pm'"
proof -
  assume r: "vmm_populate_page pm as page write = Ret (pm', st)"
  obtain pm1 pa where a: "pmm_alloc pm 0 (PMM_USER OR PMM_ZERO) = (pm1, pa)" by (cases "pmm_alloc pm 0 (PMM_USER OR PMM_ZERO)")
  show ?thesis
  proof (cases "pm' = pm \<or> pm' = pm1")
    case True
    then show ?thesis using grows_alloc[OF a] by auto
  next
    case ne: False
    then obtain pm2 st2 where e: "pa \<noteq> PMM_INVALID" "vmm_ensure_leaf pm1 (as_cr3 as) page = Ret (pm2, st2)"
      using r a by (cases "vmm_ensure_leaf pm1 (as_cr3 as) page") (auto simp: vmm_populate_page_def Let_def split: option.splits if_splits)
    note g = grows_leaf[OF e(2)]
    have f: "grows pm pm3" if "pmm_free (pm2\<lparr>g_ram := x\<rparr>) pa 0 = Ret pm3" for pm3 x
      by (rule grows_free[OF a e(1) grows_trans[OF g grows_ram] that])
    have f0: "grows pm pm3" if "pmm_free pm2 pa 0 = Ret pm3" for pm3 using grows_free[OF a e(1) g that] .
    have "grows pm (pte_put pm2 x y)" for x y using grows_trans[OF grows_trans[OF grows_alloc[OF a] g]] by simp
    then show ?thesis
      using r a e ne f f0
      by (auto simp: vmm_populate_page_def Let_def pte_put_def bind_outcome_Ret_iff split: option.splits if_splits)
  qed
qed

lemma grows_copy_frame: "copy_frame pm as va = Ret (pm', r) \<Longrightarrow> grows pm pm'"
  by (auto simp: copy_frame_def split: if_splits option.splits dest: grows_populate)

lemma grows_write: "grows_to pm (write_loop pm as va src)"
proof (induction pm as va src rule: write_loop.induct)
  case (1 pm as va src)
  show ?case
  proof (cases "copy_frame pm as va")
    case (Ret p)
    obtain pm1 r where p: "p = (pm1, r)" by (cases p)
    note g = grows_copy_frame[OF Ret[unfolded p]]
    show ?thesis
    proof (cases r)
      case (Inl st)
      then show ?thesis using g Ret p by (subst write_loop.simps) (simp add: grows_to_def)
    next
      case (Inr pa)
      then show ?thesis
        using 1[OF _ Ret p[symmetric] Inr refl] grows_trans[OF grows_trans[OF g grows_ram]] Ret p
        by (subst write_loop.simps) (auto simp: grows_to_def Let_def)
    qed
  qed (subst write_loop.simps, simp add: grows_to_def)+
qed

lemma grows_read: "grows_to pm (read_loop pm as va n dst)"
proof (induction pm as va n dst rule: read_loop.induct)
  case (1 pm as va n dst)
  show ?case
  proof (cases "copy_frame pm as va")
    case (Ret p)
    obtain pm1 r where p: "p = (pm1, r)" by (cases p)
    note g = grows_copy_frame[OF Ret[unfolded p]]
    show ?thesis
    proof (cases r)
      case (Inl st)
      then show ?thesis using g Ret p by (subst read_loop.simps) (simp add: grows_to_def)
    next
      case (Inr pa)
      then show ?thesis
        using 1[OF _ Ret p[symmetric] Inr refl] grows_trans[OF g] Ret p
        by (subst read_loop.simps) (auto simp: grows_to_def Let_def)
    qed
  qed (subst read_loop.simps, simp add: grows_to_def)+
qed

lemma grows_copyin: "grows_to pm (copyin pm cur usrc n)"
  using grows_read by (auto simp: copyin_def vmm_read_aspace_def grows_to_def split: option.split)

lemma grows_copyout: "grows_to pm (copyout pm cur udst src)"
  using grows_write by (auto simp: copyout_def vmm_write_aspace_def grows_to_def split: option.split)

lemma grows_copyinstr: "grows_to pm (copyinstr_loop n pm as usrc dst)"
proof (induction n arbitrary: pm usrc dst)
  case (Suc n)
  have "grows pm pm1" if "vmm_read_aspace pm as usrc 1 = Ret (pm1, x)" for pm1 x
    using that grows_read[of pm as usrc 1 "[]"] by (auto simp: vmm_read_aspace_def grows_to_def)
  then show ?case using Suc grows_trans by (fastforce simp: grows_to_def)
qed (simp add: grows_to_def)

lemma grows_prot_loop: "grows pm (apply_prot_loop n pm cr3 page prot)"
proof (induction n arbitrary: pm page)
  case (Suc n)
  show ?case unfolding apply_prot_loop.simps by (rule grows_trans[OF _ Suc]) (simp add: Let_def split: option.split)
qed simp

lemma grows_protect_step: "grows pm (fst (protect_step pm as prot job))"
  by (simp add: protect_step_def protect_contained_def apply_prot_range_def grows_prot_loop Let_def split_beta split: option.split)

lemma grows_protect: "grows_to pm (vmm_protect_user pm as base sz prot)"
proof -
  have "grows pm (fst r)" if "protect_work pm as prot work = Some r" for r work
  proof (rule protect_work.raw_induct[of "\<lambda>pm as prot work r. grows pm (fst r)", OF _ that])
    fix f pm as prot work and r :: "pmm \<times> aspace \<times> status_t"
    assume ih: "\<And>pm as prot work r. f pm as prot work = Some r \<Longrightarrow> grows pm (fst r)"
      and b: "(if work = [] then Some (pm, as, STATUS_SUCCESS)
           else let (pm1, as1, q) = protect_step pm as prot (hd work)
             in if isl q then Some (pm1, as1, projl q) else f pm1 as1 prot (projr q @ tl work)) = Some r"
    show "grows pm (fst r)"
      using b ih grows_trans[OF grows_protect_step[of pm as prot "hd work"]] grows_protect_step[of pm as prot "hd work"]
      by (auto simp: Let_def split_beta split: if_splits)
  qed
  then show ?thesis by (auto simp: vmm_protect_user_def grows_to_def split: option.split)
qed

lemma heap_ok_grows:
  assumes "heap_ok s" "grows (h_pmm (k_heap s)) pm"
  shows "heap_inv ((k_heap s)\<lparr>h_pmm := pm\<rparr>)"
  using assms by (auto simp: heap_inv_def grows_def slabs_ok_def all_slabs_def heap_allocs_def)

lemma keeps_grows:
  assumes "heap_ok s" "grows_to (h_pmm (k_heap s)) m"
  shows "keeps_p (bind_outcome m (\<lambda>r. Ret (k_set_pmm (fst r) s, f r)))"
  using assms heap_ok_grows[OF assms(1)] by (cases m) (simp_all add: grows_to_def k_set_pmm_def)

lemma keeps_copies [keeps]:
  assumes "heap_ok s"
  shows "keeps_p (u_copyin usrc n s)" "keeps_p (u_copyout udst bs s)" "keeps_p (u_copyinstr usrc cap s)"
proof -
  show "keeps_p (u_copyin usrc n s)" "keeps_p (u_copyout udst bs s)"
    unfolding u_copyin_def u_copyout_def split_beta by (rule keeps_grows[OF assms] grows_copyin grows_copyout)+
  have "grows_to (h_pmm (k_heap s)) (copyinstr (h_pmm (k_heap s)) (caller_as s) usrc cap)"
    by (simp add: copyinstr_def grows_copyinstr split: option.split) (simp add: grows_to_def)
  then show "keeps_p (u_copyinstr usrc cap s)" unfolding u_copyinstr_def split_beta by (rule keeps_grows[OF assms])
qed

section \<open>Services\<close>

lemma keeps_if [keeps]:
  "keeps_s m \<Longrightarrow> keeps_s n \<Longrightarrow> keeps_s (if b then m else n)" "keeps_p p \<Longrightarrow> keeps_p q \<Longrightarrow> keeps_p (if b then p else q)"
  by simp_all

lemma keeps_deref_now [keeps]: "heap_ok s \<Longrightarrow> keeps_f (deref_now a x s)"
  by (auto simp: deref_now_def intro!: keeps)

lemma keeps_paths [keeps]:
  assumes "heap_ok s"
  shows "keeps_p (sys_path up cap s)" "keeps_p (sys_opt_path up cap s)" "keeps_p (sys_put_u64 up v s)" "keeps_p (sys_get_u64 up s)"
    "keeps_p (sys_put_handle up v s)"
  using assms
  by (auto simp: sys_path_def sys_opt_path_def sys_put_u64_def sys_get_u64_def sys_put_handle_def split_beta intro!: keeps)

lemma keeps_NtClose [keeps]: "heap_ok s \<Longrightarrow> keeps_p (NtClose h s)"
  by (simp add: NtClose_def keeps)

lemma keeps_put [keeps]:
  assumes "heap_ok (fst r)"
  shows "keeps_p (put_ignored up r)" "keeps_p (put_or_close up r)"
  using assms by (auto simp: put_ignored_def put_or_close_def split_beta intro!: keeps)

lemma heap_same_held [heap_same]: "k_heap (fst (held_process proc acc s)) = k_heap s" "k_heap (fst (ht_set_inherit t h b s)) = k_heap s"
  by (simp_all add: held_process_def ht_set_inherit_def Let_def split_beta heap_same)

lemma keeps_NtDuplicateObject [keeps]: "heap_ok s \<Longrightarrow> keeps_p (NtDuplicateObject sp src dp acc fl s)"
  by (auto simp: NtDuplicateObject_def Let_def split_beta heap_same intro!: keeps)

lemma keeps_target [keeps]: "heap_ok s \<Longrightarrow> keeps_p (target_process cur proc acc s)"
  by (auto simp: target_process_def Let_def split_beta heap_same intro!: keeps)

lemma keeps_file_services [keeps]:
  assumes "heap_ok s"
  shows "keeps_p (NtCreateFile acc path disp opts s)" "keeps_p (NtDeleteFile path s)" "keeps_p (NtQueryDirectoryFile h n restart s)"
    "keeps_f (NtReadFile h k off s)" "keeps_f (NtWriteFile h buf off s)"
  using assms
  by (auto simp: NtCreateFile_def NtDeleteFile_def NtQueryDirectoryFile_def NtReadFile_def NtWriteFile_def Let_def split_beta heap_same
      intro!: keeps)

lemma keeps_query_services [keeps]:
  assumes "heap_ok s"
  shows "keeps_p (NtQueryInformationProcess h fits s)" "keeps_p (NtQueryObject h fits s)" "keeps_p (NtQueryVirtualMemory h addr fits s)"
    "keeps_p (NtQueryInformationToken h fits s)"
  using assms
  by (auto simp: NtQueryInformationProcess_def NtQueryObject_def NtQueryVirtualMemory_def NtQueryInformationToken_def Let_def split_beta
      heap_same intro!: keeps)

lemma keeps_create_services [keeps]:
  assumes "heap_ok s"
  shows "keeps_p (NtCreateEvent nm ar init s)" "keeps_p (NtCreateMutex nm own s)" "keeps_p (NtCreateTimer nm ar s)"
    "keeps_p (NtCreateDirectoryObject nm s)" "keeps_p (NtOpenDirectoryObject path s)" "keeps_p (NtCreateSection acc sz prot s)"
    "keeps_p (NtOpenProcessToken h acc s)" "keeps_p (NtDuplicateToken h acc s)"
  using assms
  by (auto simp: NtCreateEvent_def NtCreateMutex_def NtCreateTimer_def NtCreateDirectoryObject_def NtOpenDirectoryObject_def NtCreateSection_def
      NtOpenProcessToken_def NtDuplicateToken_def Let_def split_beta heap_same intro!: keeps)

lemma keeps_with_object:
  assumes "\<And>a s. k_heap (fst (act a s)) = k_heap s" "heap_ok s"
  shows "keeps_p (with_object h req kind act s)"
  using assms by (auto simp: with_object_def Let_def split_beta heap_same intro!: keeps)

lemma heap_same_sync [heap_same]:
  "k_heap (fst (ke_set_event e s)) = k_heap s" "k_heap (fst (ke_reset_event e s)) = k_heap s" "k_heap (fst (ke_release_mutex e s)) = k_heap s"
  by (simp_all add: ke_set_event_def ke_reset_event_def ke_release_mutex_def Let_def heap_same)

lemma keeps_sync_services [keeps]:
  assumes "heap_ok s"
  shows "keeps_p (NtSetEvent h s)" "keeps_p (NtResetEvent h s)" "keeps_p (NtReleaseMutex h s)" "keeps_p (NtSetTimer h due per s)"
    "keeps_p (NtCancelTimer h s)" "keeps_p (NtSetInformationToken h i s)"
  using assms
  by (auto simp: NtSetEvent_def NtResetEvent_def NtReleaseMutex_def NtSetTimer_def NtCancelTimer_def NtSetInformationToken_def Let_def split_beta
      heap_same intro!: keeps keeps_with_object)

lemma heap_same_wait_lookup [heap_same]: "k_heap (fst (wait_lookup t h s)) = k_heap s"
  by (simp add: wait_lookup_def split_beta heap_same)

lemma keeps_deref_list [keeps]: "heap_ok s \<Longrightarrow> keeps_s (deref_list as s)"
  by (induction as arbitrary: s) (auto intro!: keeps)

lemma keeps_wait_objects [keeps]: "heap_ok s \<Longrightarrow> keeps_p (wait_objects t hs seen s)"
  by (induction hs arbitrary: seen s) (auto simp: split_beta heap_same intro!: keeps)

lemma keeps_wait_services [keeps]:
  assumes "heap_ok s"
  shows "keeps_f (NtWaitForSingleObject h timeout s)" "keeps_f (NtWaitForMultipleObjects hs wait_all timeout s)" "keeps_f (yield_now s)"
  using assms
  by (auto simp: NtWaitForSingleObject_def NtWaitForMultipleObjects_def yield_now_def Let_def split_beta heap_same intro!: keeps split: sum.split)

lemma keeps_NtDelayExecution [keeps]: "heap_ok s \<Longrightarrow> keeps_f (NtDelayExecution ticks s)"
  by (auto simp: NtDelayExecution_def delay_finish_def split_beta heap_same intro!: keeps)

lemma heap_same_unlink [heap_same]: "k_heap (thread_unlink_waits t s) = k_heap s"
proof -
  have "k_heap (unlink_multi t i s) = k_heap s" for i s by (simp add: unlink_multi_def heap_same split: option.split)
  then show ?thesis by (simp add: thread_unlink_waits_def heap_same heap_same_fold split: option.split)
qed

lemma keeps_kill [keeps]: "heap_ok s \<Longrightarrow> keeps_f (sched_kill_thread t st s)"
  by (auto simp: sched_kill_thread_def Let_def heap_same)

lemma keeps_terminate_services [keeps]:
  assumes "heap_ok s"
  shows "keeps_f (NtTerminateThread h code s)" "keeps_f (NtTerminateProcess h code s)" "keeps_f (NtRaiseException code s)"
proof -
  have "NtTerminateThread h code s =
      (if h = HANDLE_CURRENT then bind_outcome (sched_exit_thread code s) (\<lambda>s1. Ret (s1, Exits))
       else let (s1, st, t) = ht_lookup (k_current_process s) h THREAD_TERMINATE (Some OBJ_THREAD) s
            in if \<not> NT_SUCCESS st then Ret (s1, Now st)
               else bind_flow (sched_kill_thread t code s1) (\<lambda>s2 u. deref_now t STATUS_SUCCESS s2))"
    unfolding NtTerminateThread_def bind_flow_def deref_now_def by simp
  then show "keeps_f (NtTerminateThread h code s)"
    using assms by (auto simp: Let_def split_beta heap_same intro!: keeps)
  show "keeps_f (NtTerminateProcess h code s)" "keeps_f (NtRaiseException code s)"
    using assms by (auto simp: NtTerminateProcess_def NtRaiseException_def split_beta heap_same intro!: keeps)
qed

lemma keeps_protect [keeps]: "heap_ok s \<Longrightarrow> keeps_p (NtProtectVirtualMemory proc base sz prot s)"
proof -
  assume i: "heap_ok s"
  have b: "keeps_p (bind_outcome (vmm_protect_user (h_pmm (k_heap s)) as base sz prot) f)"
    if "\<And>r. heap_inv ((k_heap s)\<lparr>h_pmm := fst r\<rparr>) \<Longrightarrow> keeps_p (f r)" for as and f :: "_ \<Rightarrow> (kst \<times> 'a) outcome"
    using grows_protect[of "h_pmm (k_heap s)" as base sz prot] heap_ok_grows[OF i] that
    by (cases "vmm_protect_user (h_pmm (k_heap s)) as base sz prot") (simp_all add: grows_to_def)
  show ?thesis
    using i by (auto simp: NtProtectVirtualMemory_def Let_def split_beta heap_same k_set_aspace_def intro!: keeps b)
qed

section \<open>The dispatcher\<close>

lemma keeps_turns:
  assumes "heap_ok s"
  shows "keeps_f (read_turn h ubuf n tot pos s)" "keeps_f (write_turn h ubuf n tot pos s)"
  using assms by (auto simp: read_turn_def write_turn_def Let_def split_beta heap_same intro!: keeps)

lemma keeps_file_loops:
  assumes "heap_ok s"
  shows "read_file_loop h ubuf n st tot pos s = Some r \<Longrightarrow> keeps_f r" "write_file_loop h ubuf n st tot pos s = Some q \<Longrightarrow> keeps_f q"
proof -
  assume r: "read_file_loop h ubuf n st tot pos s = Some r"
  have "heap_ok s \<longrightarrow> keeps_f r"
  proof (rule read_file_loop.raw_induct[of "\<lambda>h ubuf n st tot pos s r. heap_ok s \<longrightarrow> keeps_f r", OF _ r], intro impI)
    fix f h ubuf n st tot pos s r
    assume ih: "\<And>h ubuf n st tot pos s r. f h ubuf n st tot pos s = Some r \<Longrightarrow> heap_ok s \<longrightarrow> keeps_f r" and i: "heap_ok s"
      and b: "(if \<not> tot < n then Some (Ret (s, Now (st, tot, True)))
        else case read_turn h ubuf n tot pos s of
               Panic m \<Rightarrow> Some (Panic m) | Hang \<Rightarrow> Some Hang
             | Ret r \<Rightarrow>
                 (case snd r of Sleeps \<Rightarrow> Some (Ret (fst r, Sleeps)) | Exits \<Rightarrow> Some (Ret (fst r, Exits))
                  | Now x \<Rightarrow>
                      if fst (snd (snd (snd x))) then Some (Ret (fst r, Now (fst x, fst (snd x), snd (snd (snd (snd x))))))
                      else f h ubuf n (fst x) (fst (snd x)) (fst (snd (snd x))) (fst r))) = Some r"
    show "keeps_f r"
      using keeps_turns(1)[OF i, of h ubuf n tot pos] b ih i
      by (cases "read_turn h ubuf n tot pos s") (auto simp: keeps_f_def split: if_splits flow.splits)
  qed
  then show "keeps_f r" using assms by simp
next
  assume q: "write_file_loop h ubuf n st tot pos s = Some q"
  have "heap_ok s \<longrightarrow> keeps_f q"
  proof (rule write_file_loop.raw_induct[of "\<lambda>h ubuf n st tot pos s r. heap_ok s \<longrightarrow> keeps_f r", OF _ q], intro impI)
    fix f h ubuf n st tot pos s r
    assume ih: "\<And>h ubuf n st tot pos s r. f h ubuf n st tot pos s = Some r \<Longrightarrow> heap_ok s \<longrightarrow> keeps_f r" and i: "heap_ok s"
      and b: "(if \<not> tot < n then Some (Ret (s, Now (st, tot, True)))
        else case write_turn h ubuf n tot pos s of
               Panic m \<Rightarrow> Some (Panic m) | Hang \<Rightarrow> Some Hang
             | Ret r \<Rightarrow>
                 (case snd r of Sleeps \<Rightarrow> Some (Ret (fst r, Sleeps)) | Exits \<Rightarrow> Some (Ret (fst r, Exits))
                  | Now x \<Rightarrow>
                      if fst (snd (snd (snd x))) then Some (Ret (fst r, Now (fst x, fst (snd x), snd (snd (snd (snd x))))))
                      else f h ubuf n (fst x) (fst (snd x)) (fst (snd (snd x))) (fst r))) = Some r"
    show "keeps_f r"
      using keeps_turns(2)[OF i, of h ubuf n tot pos] b ih i
      by (cases "write_turn h ubuf n tot pos s") (auto simp: keeps_f_def split: if_splits flow.splits)
  qed
  then show "keeps_f q" using assms by simp
qed

lemma keeps_sc_files [keeps]:
  assumes "heap_ok s"
  shows "keeps_f (sc_read_file a0 a1 a2 a3 a4 s)" "keeps_f (sc_write_file a0 a1 a2 a3 a4 s)" "keeps_p (sc_create_file a0 a1 a2 a3 a4 s)"
    "keeps_p (sc_query_directory a0 a1 a2 a3 s)" "keeps_p (sc_delete_file a0 s)"
  using assms keeps_file_loops[OF assms]
  by (auto simp: sc_read_file_def sc_write_file_def sc_create_file_def sc_query_directory_def sc_delete_file_def split_beta
      intro!: keeps keeps_of_loop)

lemma keeps_sc_cwd [keeps]:
  assumes "heap_ok s"
  shows "keeps_p (sc_set_cwd a0 s)" "keeps_p (sc_get_cwd a0 a1 s)"
proof -
  have "k_heap (fst (NtSetCwd path s)) = k_heap s" for path s by (simp add: NtSetCwd_def Let_def split_beta heap_same)
  then show "keeps_p (sc_set_cwd a0 s)" "keeps_p (sc_get_cwd a0 a1 s)"
    using assms by (auto simp: sc_set_cwd_def sc_get_cwd_def Let_def split_beta intro!: keeps)
qed

lemma keeps_put_info [keeps]: "heap_ok (fst r) \<Longrightarrow> keeps_p (put_info up enc r)"
  by (auto simp: put_info_def split_beta intro!: keeps split: option.split)

lemma keeps_sc_queries [keeps]:
  assumes "heap_ok s"
  shows "keeps_p (sc_query_system a0 a1 a2 a3 s)" "keeps_p (sc_query_process a0 a1 a2 s)" "keeps_p (sc_query_object a0 a1 s)"
    "keeps_p (sc_query_memory a0 a1 a2 s)" "keeps_p (sc_query_token a0 a1 a2 s)"
  using assms
  by (auto simp: sc_query_system_def sc_query_process_def sc_query_object_def sc_query_memory_def sc_query_token_def Let_def split_beta
      intro!: keeps split: option.split)

lemma keeps_sc_named: "(\<And>nm s. heap_ok s \<Longrightarrow> keeps_p (create nm s)) \<Longrightarrow> heap_ok s \<Longrightarrow> keeps_p (sc_named a0 a1 create s)"
  by (auto simp: sc_named_def split_beta intro!: keeps)

lemma keeps_sc_objects [keeps]:
  assumes "heap_ok s"
  shows "keeps_p (sc_open_directory a0 a1 s)" "keeps_p (sc_create_pipe a0 a1 s)" "keeps_f (sc_wait_multiple a0 a1 a2 a3 s)"
    "keeps_p (sc_protect_memory a0 a1 a2 a3 a4 s)"
  using assms
  by (auto simp: sc_open_directory_def sc_create_pipe_def sc_wait_multiple_def sc_protect_memory_def split_beta intro!: keeps)

text \<open>
  Reserving user memory takes pages only for page tables; when one of them cannot be had, the range is released
  again, which is the one case left out.
\<close>

lemma grows_commit: "grows_to pm (commit_loop n pm cr3 page)"
proof (induction n arbitrary: pm page)
  case (Suc n)
  show ?case
    unfolding grows_to_def
  proof (intro allI impI)
    fix r assume r: "commit_loop (Suc n) pm cr3 page = Ret r"
    then obtain pm1 st where e: "vmm_ensure_leaf pm cr3 page = Ret (pm1, st)" by auto
    note g = grows_leaf[OF e]
    have "grows pm (fst r)" if "commit_loop n (pte_put pm1 x v) cr3 p = Ret r" for x v p
      using that Suc[of "pte_put pm1 x v" p] grows_trans[OF grows_trans[OF g grows_pte]] by (auto simp: grows_to_def)
    moreover have "grows pm (fst r)" if "commit_loop n pm1 cr3 p = Ret r" for p
      using that Suc[of pm1 p] grows_trans[OF g] by (auto simp: grows_to_def)
    ultimately show "grows pm (fst r)" using r e g by (auto simp: Let_def split: if_splits option.splits)
  qed
qed (simp add: grows_to_def)

lemma alloc_user_inv:
  assumes "heap_ok s" "vmm_alloc_user (k_heap s) as base sz prot typ = Ret (h, as', va, st)" "st \<noteq> STATUS_NO_MEMORY"
  shows "heap_inv h"
proof -
  have "heap_inv ((k_heap s)\<lparr>h_pmm := pm\<rparr>)" if "commit_loop n (h_pmm (k_heap s)) cr3 page = Ret (pm, ok)" for n cr3 page pm ok
    using that grows_commit[of "h_pmm (k_heap s)" n cr3 page] by (intro heap_ok_grows[OF assms(1)]) (simp add: grows_to_def)
  then show ?thesis using assms by (auto simp: vmm_alloc_user_def Let_def split: if_splits)
qed

definition keeps_m :: "(kst \<times> status_t \<times> 'a) outcome \<Rightarrow> bool" where
  "keeps_m m \<longleftrightarrow> (\<forall>s st x. m = Ret (s, st, x) \<longrightarrow> st \<noteq> STATUS_NO_MEMORY \<longrightarrow> heap_ok s)"

lemma keeps_m_put:
  assumes "keeps_m m" "m = Ret (s1, st1, x)" "put_ignored up (s1, st1, x) = Ret (s, st)" "st \<noteq> STATUS_NO_MEMORY"
  shows "heap_ok s"
proof -
  have "heap_ok s1" using assms by (auto simp: keeps_m_def put_ignored_def split: if_splits)
  then show ?thesis using keeps_put(1)[of "(s1, st1, x)" up] assms(3) by (simp add: keeps_p_def)
qed

lemma keeps_m_alloc: "heap_ok s \<Longrightarrow> keeps_m (NtAllocateVirtualMemory proc base sz prot s)"
  using keeps_target[of s "k_current_process s" proc PROCESS_VM_OPERATION]
  by (auto simp: keeps_m_def NtAllocateVirtualMemory_def keeps_p_def k_set_aspace_def heap_same split: if_splits dest: alloc_user_inv)

lemma keeps_m_map: "heap_ok s \<Longrightarrow> keeps_m (NtMapViewOfSection sect proc base sz prot s)"
proof -
  assume i: "heap_ok s"
  have w: "heap_ok (k_set_pmm pm (k_set_aspace p h as s2))"
    if "heap_inv h" "vmm_write_aspace (h_pmm h) as va bs = Ret (pm, st)" for h pm p as s2 va bs st
  proof -
    have "grows (h_pmm h) pm" using that(2) grows_write[of "h_pmm h" as va bs] by (auto simp: vmm_write_aspace_def grows_to_def split: if_splits)
    then show ?thesis using heap_ok_grows[of "k_set_aspace p h as s2" pm] that(1) by (simp add: k_set_pmm_def k_set_aspace_def heap_same)
  qed
  show ?thesis
    unfolding keeps_m_def
  proof (intro allI impI)
    fix s' st x
    assume r: "NtMapViewOfSection sect proc base sz prot s = Ret (s', st, x)" and n: "st \<noteq> STATUS_NO_MEMORY"
    have d: "heap_ok s2" if "ob_dereference a s1 = Ret s2" "heap_ok s1" for a s1 s2 using keeps_deref[OF that(2), of a] that(1) by (simp add: keeps_s_def)
    have t: "heap_ok s2" if "target_process cur proc PROCESS_VM_OPERATION s1 = Ret (s2, y)" "heap_ok s1" for cur s1 s2 y
      using keeps_target[OF that(2), of cur proc PROCESS_VM_OPERATION] that(1) by (simp add: keeps_p_def)
    have a: "heap_ok (k_set_aspace p h as s2)" if "heap_inv h" for p h as s2 using that by (simp add: k_set_aspace_def heap_same)
    have u: "heap_inv h" if "vmm_alloc_user (k_heap s1) as va k pr ty = Ret (h, as', va', st1)" "NT_SUCCESS st1" "heap_ok s1"
      for s1 as va k pr ty h as' va' st1
      by (rule alloc_user_inv[OF that(3,1)]) (use that(2) in \<open>auto simp: NT_SUCCESS_def\<close>)
    show "heap_ok s'"
      using r n i
      by (auto simp: NtMapViewOfSection_def Let_def split_beta heap_same split: if_splits elim!: d intro!: a w dest!: t dest: u alloc_user_inv)
  qed
qed

lemma keeps_dispatch:
  assumes "heap_ok s" "nr \<notin> {6, 7, 22, 23, 24, 25, 43}"
  shows "keeps_f (syscall_dispatch nr a0 a1 a2 a3 a4 a5 s)"
proof -
  note y = NtYieldExecution_def
  show ?thesis unfolding syscall_dispatch_def using assms by (auto simp: y intro!: keeps keeps_sc_named)
qed

lemma keeps_reserve:
  assumes i: "heap_ok s" and r: "sc_alloc_memory a0 a1 a2 a3 s = Ret (s', st) \<or> sc_map_view a0 a1 a2 a3 a4 s = Ret (s', st)" and n: "st \<noteq> STATUS_NO_MEMORY"
  shows "heap_ok s'"
proof -
  have g: "heap_ok s1" if "sys_get_u64 u s = Ret (s1, st1, v)" for u s1 st1 v using keeps_paths(4)[OF i, of u] that by (simp add: keeps_p_def)
  show ?thesis
    using r n keeps_m_put[OF keeps_m_alloc[OF g]] keeps_m_put[OF keeps_m_map[OF g]] g
    by (auto simp: sc_alloc_memory_def sc_map_view_def split: if_splits)
qed

section \<open>Properties\<close>



end
