(* ===== verification/Paging.thy ===== *)
theory Paging
  imports Vmm_User Heap_Correct
begin

text \<open>
  Page tables as trees in physical memory: address spaces share no frame, a page table is nobody's data, and the copies between
  the kernel and a program reach only the frames of that program.  The frames of an address space are found by the same
  steps the walk of \<^verbatim>\<open>mm/vmm.c\<close> takes, entry by entry in memory.
\<close>

section \<open>Frames and entries\<close>

definition in_frame :: "phys_t \<Rightarrow> phys_t \<Rightarrow> bool" where
  "in_frame f a \<longleftrightarrow> unat (a - f) < 4096"

definition paged :: "phys_t \<Rightarrow> bool" where
  "paged f \<longleftrightarrow> unat f mod 4096 = 0"

lemma in_range:
  fixes x a :: u64
  assumes "unat a + n \<le> 2 ^ 64"
  shows "unat (x - a) < n \<longleftrightarrow> unat a \<le> unat x \<and> unat x < unat a + n"
proof -
  have "unat x < 2 ^ 64" using unsigned_less[of x] by simp
  then show ?thesis using assms by (auto simp: unat_sub_if_size word_size)
qed

lemma paged_room: "paged f \<Longrightarrow> unat f + 4096 \<le> 2 ^ 64"
proof -
  assume p: "paged f"
  then obtain k where k: "unat f = 4096 * k" by (auto simp: paged_def)
  moreover have "unat f < 2 ^ 64" using unsigned_less[of f] by simp
  ultimately have "4096 * k < 4096 * 2 ^ 52" by simp
  then show ?thesis using k by simp
qed

lemma in_frame_iff: "paged f \<Longrightarrow> in_frame f a \<longleftrightarrow> unat f = unat a div 4096 * 4096"
proof -
  assume p: "paged f"
  then obtain k where k: "unat f = 4096 * k" by (auto simp: paged_def)
  have "in_frame f a \<longleftrightarrow> 4096 * k \<le> unat a \<and> unat a < 4096 * k + 4096"
    unfolding in_frame_def using in_range[OF paged_room[OF p], of a] k by simp
  also have "\<dots> \<longleftrightarrow> unat a div 4096 = k"
    using div_mult_mod_eq[of "unat a" 4096] mod_less_divisor[of 4096 "unat a"] by (auto intro!: div_nat_eqI)
  finally show ?thesis unfolding k by auto
qed

lemma frames_apart: "paged f \<Longrightarrow> paged g \<Longrightarrow> in_frame f a \<Longrightarrow> in_frame g a \<Longrightarrow> f = g"
  by (simp add: in_frame_iff word_unat_eq_iff)

text \<open>The bytes of entry \<open>x\<close> of the table at \<open>t\<close>.\<close>

lemma entry_addr:
  assumes "paged t" "x < 512" "j < 8"
  shows "unat (t + 8 * x + of_nat j) = unat t + 8 * unat x + j"
proof -
  have x: "unat x < 512" using assms(2) by (simp add: word_less_nat_alt)
  have r: "unat t + 4096 \<le> 2 ^ 64" by (rule paged_room[OF assms(1)])
  have e: "unat (8 * x) = 8 * unat x" using x by (simp add: unat_word_ariths)
  have s: "unat (t + 8 * x) = unat t + 8 * unat x" using r x e by (simp add: unat_word_ariths)
  have "unat (of_nat j :: u64) = j" using assms(3) by (simp add: unat_of_nat take_bit_nat_eq_self)
  then show ?thesis using r x s assms(3) by (simp add: unat_word_ariths)
qed

lemma entry_in_frame: "paged t \<Longrightarrow> x < 512 \<Longrightarrow> j < 8 \<Longrightarrow> in_frame t (t + 8 * x + of_nat j)"
  unfolding in_frame_def in_range[OF paged_room] using entry_addr[of t x j] by (simp add: word_less_nat_alt)

lemma le_bytes_cong: "(\<And>i. i < n \<Longrightarrow> f i = g i) \<Longrightarrow> le_bytes n f = le_bytes n g"
  by (induction n) simp_all

lemma le_bytes_of: "le_bytes n (\<lambda>i. ucast (drop_bit (8 * i) v)) = take_bit (8 * n) v"
proof (induction n)
  case (Suc n)
  show ?case unfolding le_bytes.simps Suc by (rule bit_word_eqI) (auto simp: bit_simps)
qed simp

lemma rd64_wr64: "rd64 (wr64 m a v) a = v"
proof -
  have "rd64 (wr64 m a v) a = le_bytes 8 (\<lambda>i. ucast (drop_bit (8 * i) v))"
    unfolding rd64_def by (rule le_bytes_cong) (simp add: wr64_def unat_of_nat take_bit_nat_eq_self)
  also have "\<dots> = v" unfolding le_bytes_of by (rule bit_word_eqI) (simp add: bit_simps)
  finally show ?thesis .
qed

lemma pte_get_same: "pte_get (pte_put pm a v) a = v"
  by (simp add: pte_get_def pte_put_def rd64_wr64)

lemma pte_get_cong: "(\<And>j. j < 8 \<Longrightarrow> g_ram pm' (a + of_nat j) = g_ram pm (a + of_nat j)) \<Longrightarrow> pte_get pm' a = pte_get pm a"
  unfolding pte_get_def rd64_def by (rule le_bytes_cong) simp

lemma pte_get_other:
  assumes "paged t" "paged t'" "x < 512" "x' < 512" "t \<noteq> t' \<or> x \<noteq> x'"
  shows "pte_get (pte_put pm (t + 8 * x) v) (t' + 8 * x') = pte_get pm (t' + 8 * x')"
proof (rule pte_get_cong)
  fix j :: nat assume j: "j < 8"
  have u: "unat (t + 8 * x) = unat t + 8 * unat x" using entry_addr[OF assms(1,3), of 0] by simp
  have x: "unat x < 512" "unat x' < 512" using assms(3,4) by (simp_all add: word_less_nat_alt)
  have r: "unat (t + 8 * x) + 8 \<le> 2 ^ 64" using paged_room[OF assms(1)] u x by simp
  obtain k k' where k: "unat t = 4096 * k" "unat t' = 4096 * k'" using assms(1,2) by (auto simp: paged_def elim!: dvdE)
  have "k \<noteq> k' \<or> unat x \<noteq> unat x'" using assms(5) k by (auto simp: word_unat_eq_iff)
  then have "k < k' \<or> k' < k \<or> k = k' \<and> unat x < unat x' \<or> k = k' \<and> unat x' < unat x" by auto
  then have "\<not> (4096 * k + 8 * unat x \<le> 4096 * k' + 8 * unat x' + j \<and> 4096 * k' + 8 * unat x' + j < 4096 * k + 8 * unat x + 8)"
    by (elim disjE conjE) (use x j in linarith)+
  then have "\<not> unat (t' + 8 * x' + of_nat j - (t + 8 * x)) < 8"
    unfolding in_range[OF r] entry_addr[OF assms(2,4) j] u k by simp
  then show "g_ram (pte_put pm (t + 8 * x) v) (t' + 8 * x' + of_nat j) = g_ram pm (t' + 8 * x' + of_nat j)"
    by (simp add: pte_put_def wr64_def)
qed

lemma pte_put_ram:
  assumes "paged t" "x < 512" "\<not> in_frame t a"
  shows "g_ram (pte_put pm (t + 8 * x) v) a = g_ram pm a"
proof -
  have x: "unat x < 512" using assms(2) by (simp add: word_less_nat_alt)
  have u: "unat (t + 8 * x) = unat t + 8 * unat x" using entry_addr[OF assms(1,2), of 0] by simp
  have r: "unat (t + 8 * x) + 8 \<le> 2 ^ 64" using paged_room[OF assms(1)] u x by simp
  have "\<not> unat (a - (t + 8 * x)) < 8"
    using assms(3) x unfolding in_range[OF r] u in_frame_def in_range[OF paged_room[OF assms(1)]] by linarith
  then show ?thesis by (simp add: pte_put_def wr64_def)
qed

section \<open>The tree of an address space\<close>

text \<open>
  Following the entries for an address from the root: depth 1 to 3 are the tables below the root, depth 4 is the frame
  of the page.  A table is found only through a present entry; the frame of a page also when its entry is not present,
  which is how a page without access keeps its frame.
\<close>

definition next_frame :: "nat \<Rightarrow> u64 \<Rightarrow> phys_t option" where
  "next_frame d e =
     (if d < 3 then if e AND PTE_P \<noteq> 0 then Some (e AND PTE_ADDR) else None
      else if e AND PTE_P \<noteq> 0 \<or> e AND PTE_ADDR \<noteq> 0 then Some (e AND PTE_ADDR) else None)"

primrec tab :: "pmm \<Rightarrow> phys_t \<Rightarrow> nat \<Rightarrow> virt_t \<Rightarrow> phys_t option" where
  "tab pm r 0 va = Some r"
| "tab pm r (Suc d) va =
     (case tab pm r d va of None \<Rightarrow> None | Some t \<Rightarrow> next_frame d (pte_get pm (pt_slot t (4 - d) va)))"

definition user :: "virt_t \<Rightarrow> bool" where
  "user va \<longleftrightarrow> va < 0x800000000000"

text \<open>The part of an address that leads to depth \<open>d\<close>.\<close>

definition key :: "nat \<Rightarrow> virt_t \<Rightarrow> u64" where
  "key d va = drop_bit (12 + 9 * (4 - d)) va"

lemma pt_index_small: "pt_index lv va < 512"
proof -
  have "pt_index lv va \<le> 0x1FF" unfolding pt_index_def by (rule word_and_le1)
  then show ?thesis by (simp add: word_le_nat_alt word_less_nat_alt)
qed

lemma drop_bit_step: "drop_bit n x = drop_bit n y \<longleftrightarrow> drop_bit (n + 9) x = drop_bit (n + 9) y \<and> drop_bit n x AND 0x1FF = drop_bit n y AND 0x1FF"
  for x y :: u64
proof -
  have m: "(0x1FF :: u64) = mask 9" by (simp add: mask_eq_exp_minus_1)
  have d: "drop_bit (n + 9) z = drop_bit 9 (drop_bit n z)" for z :: u64 by (simp add: add.commute)
  have "u = v \<longleftrightarrow> drop_bit 9 u = drop_bit 9 v \<and> u AND mask 9 = v AND mask 9" for u v :: u64
  proof
    assume e: "drop_bit 9 u = drop_bit 9 v \<and> u AND mask 9 = v AND mask 9"
    have "bit u i = bit v i" for i
    proof (cases "i < 9")
      case True
      then show ?thesis using arg_cong[of _ _ "\<lambda>w. bit w i", OF e[THEN conjunct2]] by (simp add: bit_simps)
    next
      case False
      then show ?thesis using arg_cong[of _ _ "\<lambda>w. bit w (i - 9)", OF e[THEN conjunct1]] by (simp add: bit_simps)
    qed
    then show "u = v" by (simp add: bit_eq_iff)
  qed simp
  then show ?thesis unfolding d m .
qed

lemma key_Suc:
  assumes "d < 4"
  shows "key (Suc d) va = key (Suc d) va' \<longleftrightarrow> key d va = key d va' \<and> pt_index (4 - d) va = pt_index (4 - d) va'"
proof -
  have e: "12 + 9 * (4 - d) = (12 + 9 * (4 - Suc d)) + 9" "4 - d - 1 = 4 - Suc d" using assms by auto
  show ?thesis unfolding key_def pt_index_def e(2) e(1) by (rule drop_bit_step)
qed

lemma key_user: "user va \<Longrightarrow> key 0 va = 0"
proof -
  assume u: "user va"
  have "unat va < 2 ^ 48" using u by (simp add: user_def word_less_nat_alt)
  then have "unat (drop_bit 48 va) = 0" by (simp add: drop_bit_eq_div unat_div)
  then show ?thesis by (simp add: key_def unat_eq_0)
qed

lemma tab_key: "d \<le> 4 \<Longrightarrow> key d va = key d va' \<Longrightarrow> tab pm r d va = tab pm r d va'"
proof (induction d)
  case (Suc d)
  then have "key d va = key d va'" "pt_index (4 - d) va = pt_index (4 - d) va'" using key_Suc[of d va va'] by auto
  then show ?case using Suc by (simp add: pt_slot_def split: option.split)
qed simp

lemma tab_cong:
  assumes "\<And>d t. d \<le> 3 \<Longrightarrow> tab pm r d va = Some t \<Longrightarrow> pte_get pm' (pt_slot t (4 - d) va) = pte_get pm (pt_slot t (4 - d) va)" "d \<le> 4"
  shows "tab pm' r d va = tab pm r d va"
  using assms(2) by (induction d) (auto simp: assms(1) split: option.split)

section \<open>Address spaces that share nothing\<close>

text \<open>Frame 0 is never free and never handed out: an entry with address 0 is empty.\<close>

definition zero_kept :: "pmm \<Rightarrow> bool" where
  "zero_kept pm \<longleftrightarrow> (\<forall>p \<in> free_set pm \<union> (\<Union>(h, k, x)\<in>alloc_set pm. {h..<h + 2 ^ k}). phys_of pm p \<noteq> 0)"

definition mem_ok :: "pmm \<Rightarrow> bool" where
  "mem_ok pm \<longleftrightarrow> pmm_inv pm \<and> mem_bounded pm \<and> zero_kept pm"

text \<open>
  The trees of the roots \<open>R\<close>: every frame is a page the allocator has handed out, no frame has two places, and there are
  no large pages.
\<close>

definition trees :: "pmm \<Rightarrow> phys_t set \<Rightarrow> bool" where
  "trees pm R \<longleftrightarrow>
     (\<forall>r\<in>R. \<forall>d\<le>4. \<forall>va f. user va \<longrightarrow> tab pm r d va = Some f \<longrightarrow> (f, 0) \<in> pmm_owned pm)
     \<and> (\<forall>r\<in>R. \<forall>r'\<in>R. \<forall>d\<le>4. \<forall>d'\<le>4. \<forall>va va' f. user va \<longrightarrow> user va' \<longrightarrow> tab pm r d va = Some f \<longrightarrow> tab pm r' d' va' = Some f \<longrightarrow>
          r = r' \<and> d = d' \<and> key d va = key d va')
     \<and> (\<forall>r\<in>R. \<forall>va t. user va \<longrightarrow> tab pm r 2 va = Some t \<longrightarrow> pte_get pm (pt_slot t 2 va) AND PTE_PS = 0)"

definition forest :: "pmm \<Rightarrow> phys_t set \<Rightarrow> bool" where
  "forest pm R \<longleftrightarrow> mem_ok pm \<and> trees pm R"

lemma forest_owned: "forest pm R \<Longrightarrow> r \<in> R \<Longrightarrow> d \<le> 4 \<Longrightarrow> user va \<Longrightarrow> tab pm r d va = Some f \<Longrightarrow> (f, 0) \<in> pmm_owned pm"
  by (simp add: forest_def trees_def)

lemma forest_place:
  assumes "forest pm R" "r \<in> R" "r' \<in> R" "d \<le> 4" "d' \<le> 4" "user va" "user va'" "tab pm r d va = Some f" "tab pm r' d' va' = Some f"
  shows "r = r'" "d = d'" "key d va = key d va'"
  using assms unfolding forest_def trees_def by blast+

lemma forest_small: "forest pm R \<Longrightarrow> r \<in> R \<Longrightarrow> user va \<Longrightarrow> tab pm r 2 va = Some t \<Longrightarrow> pte_get pm (pt_slot t 2 va) AND PTE_PS = 0"
  by (simp add: forest_def trees_def)

lemma owned_frame:
  assumes "mem_ok pm" "(f, k) \<in> pmm_owned pm"
  shows "paged f" "f \<noteq> 0" "f AND PTE_ADDR = f"
proof -
  have i: "pmm_inv pm" "mem_bounded pm" using assms by (auto simp: mem_ok_def)
  show p: "paged f" using pmm.owned_valid[OF i(1) assms(2)] by (simp add: paged_def)
  obtain h x where h: "(h, k, x) \<in> alloc_set pm" "f = phys_of pm h" using assms(2) by (auto simp: pmm_owned_def)
  then have "h \<in> (\<Union>(h, k, x)\<in>alloc_set pm. {h..<h + 2 ^ k})" by force
  then show "f \<noteq> 0" using assms(1) h(2) by (auto simp: mem_ok_def zero_kept_def)
  have "0 < (2 :: nat) ^ k" by simp
  then have b: "unat f < 2 ^ 36" using pmm_owned_bound[OF i assms(2)] by linarith
  have lo: "\<not> bit f n" if "n < 12" for n
  proof -
    have "take_bit 12 (unat f) = 0" using p by (simp add: paged_def take_bit_eq_mod)
    then have "\<not> bit (take_bit 12 (unat f)) n" by simp
    then show ?thesis using that by (simp add: bit_simps)
  qed
  have hi: "\<not> bit f n" if "36 \<le> n" for n
  proof -
    have "take_bit 36 (unat f) = unat f" using b by (simp add: take_bit_nat_eq_self)
    then have "bit (unat f) n = bit (take_bit 36 (unat f)) n" by simp
    then show ?thesis using that by (simp add: bit_simps)
  qed
  have a: "PTE_ADDR = push_bit 12 (mask 40)" by (simp add: mask_eq_exp_minus_1 push_bit_eq_mult)
  have "12 \<le> n \<and> n - 12 < 40" if "bit f n" for n
  proof -
    have "12 \<le> n" "n < 36" using that lo[of n] hi[of n] not_le by blast+
    then show ?thesis by simp
  qed
  then show "f AND PTE_ADDR = f" unfolding a by (intro bit_word_eqI) (auto simp: bit_simps)
qed

lemma page_range_frame: "a \<in> page_range f 0 \<longleftrightarrow> in_frame f a"
proof
  assume "in_frame f a"
  then have "a = f + of_nat (unat (a - f)) \<and> unat (a - f) < 4096 * 2 ^ 0" by (simp add: in_frame_def)
  then show "a \<in> page_range f 0" unfolding page_range_def by blast
next
  assume "a \<in> page_range f 0"
  then obtain i where "a = f + of_nat i" "i < 4096" by (auto simp: page_range_def)
  then show "in_frame f a" by (simp add: in_frame_def unat_of_nat take_bit_nat_eq_self)
qed

lemma block_apart:
  assumes "mem_ok pm" "(f, 0) \<in> pmm_owned pm" "(b, k) \<in> pmm_owned pm" "in_frame f a" "a \<in> page_range b k"
  shows "b = f" "k = 0"
proof -
  have "(f, 0) = (b, k)"
    using pmm.owned_disjoint[of pm f 0 b k] assms by (intro ccontr[of "(f, 0) = (b, k)"]) (auto simp: mem_ok_def page_range_frame[symmetric])
  then show "b = f" "k = 0" by auto
qed

section \<open>Pages taken and given back\<close>

lemma alloc_page:
  assumes m: "mem_ok pm" and a: "pmm_alloc pm 0 f = (pm1, pa)" "pa \<noteq> PMM_INVALID" and z: "f AND PMM_ZERO \<noteq> 0"
  shows "mem_ok pm1" "pmm_owned pm1 = insert (pa, 0) (pmm_owned pm)" "pa \<notin> fst ` pmm_owned pm"
    "g_ram pm1 a = (if in_frame pa a then 0 else g_ram pm a)"
proof -
  have i: "pmm_inv pm" "mem_bounded pm" using m by (auto simp: mem_ok_def)
  show o: "pmm_owned pm1 = insert (pa, 0) (pmm_owned pm)" "pa \<notin> fst ` pmm_owned pm" using pmm.alloc_ok[OF i(1) _ a] by auto
  have "mem_ok pm1 \<and> g_ram pm1 a = (if in_frame pa a then 0 else g_ram pm a)"
  proof (rule pmm_alloc_cases[OF i(1), of 0 f], goal_cases)
    case 2
    then show ?case using a by simp
  next
    case ok: (3 s' p)
    have e: "s' = pm1" "pa = phys_of pm p" using ok(1) a(1) by auto
    have "phys_of pm1 q = phys_of pm q" for q using ok(10) e by (simp add: phys_of_def)
    moreover have "free_set pm1 \<union> (\<Union>(h, k, x)\<in>alloc_set pm1. {h..<h + 2 ^ k}) = free_set pm \<union> (\<Union>(h, k, x)\<in>alloc_set pm. {h..<h + 2 ^ k})"
      using ok(5,6,7) e by auto
    ultimately have "zero_kept pm1" using m by (simp add: mem_ok_def zero_kept_def)
    moreover have "mem_bounded pm1" using pmm_alloc_bounded[OF i(1) _ a(1)] i(2) by simp
    ultimately have "mem_ok pm1" using ok(2) e by (simp add: mem_ok_def)
    moreover have "g_ram pm1 a = (if in_frame pa a then 0 else g_ram pm a)"
      using ok(12) z e by (simp add: zero_ram_def in_frame_def word_less_nat_alt)
    ultimately show ?case by simp
  qed simp
  then show "mem_ok pm1" "g_ram pm1 a = (if in_frame pa a then 0 else g_ram pm a)" by simp_all
qed

lemma alloc_zero:
  assumes "mem_ok pm" "pmm_alloc pm 0 f = (pm1, pa)" "pa \<noteq> PMM_INVALID" "f AND PMM_ZERO \<noteq> 0" "x < 512"
  shows "pte_get pm1 (pa + 8 * x) = 0"
proof -
  note A = alloc_page[OF assms(1-4)]
  have "paged pa" using owned_frame(1)[OF A(1), of pa 0] A(2) by simp
  then have "pte_get pm1 (pa + 8 * x) = le_bytes 8 (\<lambda>i. 0)"
    unfolding pte_get_def rd64_def using A(4) entry_in_frame[OF _ assms(5)] by (intro le_bytes_cong) simp
  then show ?thesis by (simp add: eval_nat_numeral)
qed

lemma free_page:
  assumes m: "mem_ok pm" and o: "(pa, 0) \<in> pmm_owned pm" and f: "pmm_free pm pa 0 = Ret pm'"
  shows "mem_ok pm'" "pmm_owned pm' = pmm_owned pm - {(pa, 0)}" "g_ram pm' = g_ram pm"
proof -
  have i: "pmm_inv pm" "mem_bounded pm" using m by (auto simp: mem_ok_def)
  obtain p x where p: "(p, 0, x) \<in> alloc_set pm" "pa = phys_of pm p" using o by (auto simp: pmm_owned_def)
  obtain s' where s: "pmm_free pm (phys_of pm p) 0 = Ret s'" "pmm_inv s'" "free_set s' = free_set pm \<union> {p..<p + 2 ^ 0}"
    "alloc_set s' = alloc_set pm - {(p, 0, x)}" "g_phys_base s' = g_phys_base pm" "g_ram s' = g_ram pm"
    by (rule pmm_free_ok[OF i(1) p(1)]) blast
  have e: "s' = pm'" using s(1) f p(2) by simp
  show "g_ram pm' = g_ram pm" using s(6) e by simp
  show "pmm_owned pm' = pmm_owned pm - {(pa, 0)}" using pmm.free_ok[OF i(1) o] f by auto
  have ph: "phys_of pm' q = phys_of pm q" for q using s(5) e by (simp add: phys_of_def)
  have "p \<in> (\<Union>(h, k, x)\<in>alloc_set pm. {h..<h + 2 ^ k})" using p(1) by force
  then have sub: "free_set pm' \<union> (\<Union>(h, k, x)\<in>alloc_set pm'. {h..<h + 2 ^ k}) \<subseteq> free_set pm \<union> (\<Union>(h, k, x)\<in>alloc_set pm. {h..<h + 2 ^ k})"
    using s(3,4) e by auto
  have "zero_kept pm'"
    unfolding zero_kept_def
  proof
    fix q assume "q \<in> free_set pm' \<union> (\<Union>(h, k, x)\<in>alloc_set pm'. {h..<h + 2 ^ k})"
    then have "q \<in> free_set pm \<union> (\<Union>(h, k, x)\<in>alloc_set pm. {h..<h + 2 ^ k})" using sub by (rule rev_subsetD)
    then show "phys_of pm' q \<noteq> 0" using m unfolding ph mem_ok_def zero_kept_def by (elim conjE) (rule bspec)
  qed
  then show "mem_ok pm'" using s(2) e pmm_free_bounded[OF i(1) o f] i(2) by (simp add: mem_ok_def)
qed

section \<open>Changing one entry\<close>

lemma put_entry_other:
  assumes F: "forest pm R" and r0: "r0 \<in> R" "user va0" "d0 \<le> 3" "tab pm r0 d0 va0 = Some t0"
    and r: "r \<in> R" "user va" "d \<le> 3" "tab pm r d va = Some t"
    and ne: "\<not> (r = r0 \<and> d = d0 \<and> key (Suc d) va = key (Suc d0) va0)"
  shows "pte_get (pte_put pm (pt_slot t0 (4 - d0) va0) v) (pt_slot t (4 - d) va) = pte_get pm (pt_slot t (4 - d) va)"
proof -
  have m: "mem_ok pm" using F by (simp add: forest_def)
  have p: "paged t0" "paged t" using owned_frame(1)[OF m] forest_owned[OF F r0(1) _ r0(2,4)] forest_owned[OF F r(1) _ r(2,4)] r0(3) r(3) by auto
  have "t0 \<noteq> t \<or> pt_index (4 - d0) va0 \<noteq> pt_index (4 - d) va"
  proof (rule ccontr)
    assume "\<not> ?thesis"
    then have e: "t0 = t" "pt_index (4 - d0) va0 = pt_index (4 - d) va" by auto
    have "d \<le> 4" "d0 \<le> 4" "tab pm r0 d0 va0 = Some t" using r0(3,4) r(3) e(1) by auto
    from forest_place[OF F r(1) r0(1) this(1,2) r(2) r0(2) r(4) this(3)] have "r = r0" "d = d0" "key d va = key d va0" .
    then show False using ne e(2) key_Suc[of d va va0] r(3) by simp
  qed
  then show ?thesis unfolding pt_slot_def by (intro pte_get_other p pt_index_small)
qed

lemma put_tab:
  assumes F: "forest pm R" and r0: "r0 \<in> R" "user va0" "d0 \<le> 3" "tab pm r0 d0 va0 = Some t0"
    and r: "r \<in> R" "user va" "d \<le> 4" and ne: "r \<noteq> r0 \<or> key (Suc d0) va \<noteq> key (Suc d0) va0 \<or> d \<le> d0"
  shows "tab (pte_put pm (pt_slot t0 (4 - d0) va0) v) r d va = tab pm r d va"
  using r(3) ne
proof (induction d)
  case (Suc d)
  then have ih: "tab (pte_put pm (pt_slot t0 (4 - d0) va0) v) r d va = tab pm r d va" by auto
  have "pte_get (pte_put pm (pt_slot t0 (4 - d0) va0) v) (pt_slot t (4 - d) va) = pte_get pm (pt_slot t (4 - d) va)"
    if "tab pm r d va = Some t" for t
    by (rule put_entry_other[OF F r0 r(1,2) _ that]) (use Suc.prems in auto)
  then show ?case using ih by (simp split: option.split)
qed simp

lemma put_tab_here:
  assumes F: "forest pm R" and r0: "r0 \<in> R" "user va0" "d0 \<le> 3" "tab pm r0 d0 va0 = Some t0" and va: "user va" "key (Suc d0) va = key (Suc d0) va0"
  shows "tab (pte_put pm (pt_slot t0 (4 - d0) va0) v) r0 (Suc d0) va = next_frame d0 v"
proof -
  have "tab (pte_put pm (pt_slot t0 (4 - d0) va0) v) r0 (Suc d0) va0 = next_frame d0 v"
    using put_tab[OF F r0 r0(1,2), of d0 v] r0(3,4) by (simp add: pte_get_same)
  then show ?thesis using tab_key[OF _ va(2)] r0(3) by simp
qed

lemma next_frame_zero [simp]: "next_frame d 0 = None"
  by (simp add: next_frame_def)

lemma tab_below_None: "tab pm r d va = None \<Longrightarrow> d \<le> e \<Longrightarrow> tab pm r e va = None"
  by (induction e) (auto simp: le_Suc_eq)

text \<open>A fresh, empty frame put behind an entry that led nowhere.\<close>

lemma put_new_tab:
  assumes F: "forest pm R" and r0: "r0 \<in> R" "user va0" "d0 \<le> 3" "tab pm r0 d0 va0 = Some t0" and none: "tab pm r0 (Suc d0) va0 = None"
    and n: "next_frame d0 v = Some n" "n \<noteq> t0" "paged n" "d0 < 3 \<longrightarrow> (\<forall>x<512. pte_get pm (n + 8 * x) = 0)"
    and r: "r \<in> R" "user va" "d \<le> 4"
  shows "tab (pte_put pm (pt_slot t0 (4 - d0) va0) v) r d va =
    (if r = r0 \<and> key (Suc d0) va = key (Suc d0) va0 \<and> d = Suc d0 then Some n else tab pm r d va)"
proof (cases "r = r0 \<and> key (Suc d0) va = key (Suc d0) va0 \<and> \<not> d \<le> d0")
  case False
  then show ?thesis using put_tab[OF F r0 r, of v] by auto
next
  case True
  let ?pm = "pte_put pm (pt_slot t0 (4 - d0) va0) v"
  have h: "tab ?pm r0 (Suc d0) va = Some n" using put_tab_here[OF F r0 r(2), of v] True n(1) by simp
  show ?thesis
  proof (cases "d = Suc d0")
    case False
    then have d: "Suc (Suc d0) \<le> d" "d0 < 3" using True r(3) by auto
    have m: "mem_ok pm" using F by (simp add: forest_def)
    have "paged t0" using owned_frame(1)[OF m forest_owned[OF F r0(1) _ r0(2,4)]] r0(3) by simp
    then have "pte_get ?pm (pt_slot n (4 - Suc d0) va) = 0"
      unfolding pt_slot_def using n(2,3,4) d(2) pte_get_other[of t0 n "pt_index (4 - d0) va0" "pt_index (4 - Suc d0) va" pm v]
      by (simp add: pt_index_small)
    then have "tab ?pm r0 (Suc (Suc d0)) va = None" using h by simp
    then have "tab ?pm r0 d va = None" by (rule tab_below_None[OF _ d(1)])
    moreover have "tab pm r0 (Suc d0) va = None" using none tab_key[of "Suc d0" va va0] True r0(3) by simp
    then have "tab pm r0 d va = None" by (rule tab_below_None) (use d in simp)
    ultimately show ?thesis using True False by simp
  qed (use True h in simp)
qed

lemma put_new_forest:
  assumes F: "forest pm R" and r0: "r0 \<in> R" "user va0" "d0 \<le> 3" "tab pm r0 d0 va0 = Some t0" and none: "tab pm r0 (Suc d0) va0 = None"
    and n: "next_frame d0 v = Some n" "(n, 0) \<in> pmm_owned pm" "\<And>r d va. r \<in> R \<Longrightarrow> d \<le> 4 \<Longrightarrow> user va \<Longrightarrow> tab pm r d va \<noteq> Some n"
      "d0 < 3 \<longrightarrow> (\<forall>x<512. pte_get pm (n + 8 * x) = 0)" "d0 < 3 \<Longrightarrow> v AND PTE_PS = 0"
  shows "forest (pte_put pm (pt_slot t0 (4 - d0) va0) v) R"
proof -
  let ?pm = "pte_put pm (pt_slot t0 (4 - d0) va0) v"
  have m: "mem_ok pm" using F by (simp add: forest_def)
  have nt: "n \<noteq> t0" using n(3)[OF r0(1) _ r0(2), of d0] r0(3,4) by auto
  have pn: "paged n" "paged t0" using owned_frame(1)[OF m] n(2) forest_owned[OF F r0(1) _ r0(2,4)] r0(3) by auto
  note T = put_new_tab[OF F r0 none n(1) nt pn(1) n(4)]
  have o: "pmm_owned ?pm = pmm_owned pm" "mem_ok ?pm" using m by (simp_all add: pte_put_def mem_ok_def zero_kept_def mem_bounded_def phys_of_def)
  have own: "(f, 0) \<in> pmm_owned ?pm" if "r \<in> R" "d \<le> 4" "user va" "tab ?pm r d va = Some f" for r d va f
    using that T[OF that(1,3,2)] n(2) forest_owned[OF F that(1,2,3)] o by (auto split: if_splits)
  have place: "r = r' \<and> d = d' \<and> key d va = key d va'"
    if "r \<in> R" "r' \<in> R" "d \<le> 4" "d' \<le> 4" "user va" "user va'" "tab ?pm r d va = Some f" "tab ?pm r' d' va' = Some f" for r r' d d' va va' f
    using that(7,8) n(3)[OF that(1,3,5)] n(3)[OF that(2,4,6)] forest_place[OF F that(1,2,3,4,5,6)]
    unfolding T[OF that(1,5,3)] T[OF that(2,6,4)] by (auto split: if_splits)
  have small: "pte_get ?pm (pt_slot t 2 va) AND PTE_PS = 0" if r: "r \<in> R" "user va" and t: "tab ?pm r 2 va = Some t" for r va t
  proof (cases "tab pm r 2 va = Some t")
    case True
    show ?thesis
    proof (cases "r = r0 \<and> d0 = 2 \<and> key (Suc 2) va = key (Suc d0) va0")
      case True
      then have "pt_slot t 2 va = pt_slot t0 (4 - d0) va0"
        using \<open>tab pm r 2 va = Some t\<close> r0(4) key_Suc[of 2 va va0] tab_key[of 2 va va0 pm r] by (simp add: pt_slot_def)
      then show ?thesis using n(5) True by (simp add: pte_get_same)
    next
      case False
      then have "pte_get ?pm (pt_slot t 2 va) = pte_get pm (pt_slot t 2 va)"
        using put_entry_other[OF F r0 r, of 2 t v] \<open>tab pm r 2 va = Some t\<close> by auto
      then show ?thesis using forest_small[OF F r True] by simp
    qed
  next
    case False
    then have d: "d0 = 1" "t = n" using t T[OF r, of 2] by (auto split: if_splits)
    then have "pte_get ?pm (pt_slot t 2 va) = 0"
      unfolding pt_slot_def using nt pn n(4) pte_get_other[of t0 n "pt_index (4 - d0) va0" "pt_index 2 va" pm v] by (simp add: pt_index_small)
    then show ?thesis by simp
  qed
  show ?thesis unfolding forest_def trees_def using o(2) own place small by blast
qed

text \<open>The flags of a page changed, its frame kept.\<close>

lemma put_flags:
  assumes F: "forest pm R" and r0: "r0 \<in> R" "user va0" "tab pm r0 3 va0 = Some t0" and v: "next_frame 3 v = tab pm r0 4 va0"
  shows "r \<in> R \<Longrightarrow> user va \<Longrightarrow> d \<le> 4 \<Longrightarrow> tab (pte_put pm (pt_slot t0 1 va0) v) r d va = tab pm r d va" "forest (pte_put pm (pt_slot t0 1 va0) v) R"
proof -
  let ?pm = "pte_put pm (pt_slot t0 1 va0) v"
  have m: "mem_ok pm" using F by (simp add: forest_def)
  have T: "tab ?pm r d va = tab pm r d va" if "r \<in> R" "user va" "d \<le> 4" for r va d
  proof (cases "r = r0 \<and> key 4 va = key 4 va0 \<and> \<not> d \<le> 3")
    case True
    then have "d = 4" "tab pm r0 4 va = tab pm r0 4 va0" using that(3) tab_key[of 4 va va0] by auto
    then show ?thesis using put_tab_here[OF F r0(1,2) _ r0(3) that(2), of v] True v by (simp add: eval_nat_numeral)
  next
    case False
    then show ?thesis using put_tab[OF F r0(1,2) _ r0(3) that, of v] by (auto simp: eval_nat_numeral)
  qed
  show "r \<in> R \<Longrightarrow> user va \<Longrightarrow> d \<le> 4 \<Longrightarrow> tab ?pm r d va = tab pm r d va" by (rule T)
  have o: "pmm_owned ?pm = pmm_owned pm" "mem_ok ?pm" using m by (simp_all add: pte_put_def mem_ok_def zero_kept_def mem_bounded_def phys_of_def)
  have small: "pte_get ?pm (pt_slot t 2 va) AND PTE_PS = 0" if "r \<in> R" "user va" "tab ?pm r 2 va = Some t" for r va t
  proof -
    have t: "tab pm r 2 va = Some t" using that T by simp
    have "pte_get ?pm (pt_slot t 2 va) = pte_get pm (pt_slot t 2 va)"
      using put_entry_other[OF F r0(1,2) _ r0(3) that(1,2) _ t, of v] by simp
    then show ?thesis using forest_small[OF F that(1,2) t] by simp
  qed
  have "trees pm R" using F by (simp add: forest_def)
  then show "forest ?pm R" unfolding forest_def trees_def using o small T by (simp add: T)
qed

section \<open>What an operation on one address space leaves alone\<close>

definition places :: "nat \<Rightarrow> pmm \<Rightarrow> phys_t \<Rightarrow> phys_t set" where
  "places D pm r = {t. \<exists>d\<le>D. \<exists>va. user va \<and> tab pm r d va = Some t}"

text \<open>
  The step from \<open>pm\<close> to \<open>pm'\<close> only adds to the tree of \<open>r\<close>: what was mapped stays mapped, frames in use before have no new
  place, and of the memory in use before only the frames of \<open>r\<close> down to depth \<open>D\<close> may change: the tables when \<open>D\<close> is 3, the
  pages too when it is 4.
\<close>

definition adds :: "nat \<Rightarrow> phys_t set \<Rightarrow> phys_t \<Rightarrow> pmm \<Rightarrow> pmm \<Rightarrow> bool" where
  "adds D R r pm pm' \<longleftrightarrow> forest pm' R \<and> pmm_owned pm \<subseteq> pmm_owned pm'
     \<and> (\<forall>d\<le>4. \<forall>va f. user va \<longrightarrow> tab pm r d va = Some f \<longrightarrow> tab pm' r d va = Some f)
     \<and> (\<forall>d\<le>4. \<forall>va f. user va \<longrightarrow> tab pm' r d va = Some f \<longrightarrow> f \<in> fst ` pmm_owned pm \<longrightarrow> tab pm r d va = Some f)
     \<and> (\<forall>b k a. (b, k) \<in> pmm_owned pm \<longrightarrow> b \<notin> places D pm r \<longrightarrow> a \<in> page_range b k \<longrightarrow> g_ram pm' a = g_ram pm a)"

abbreviation quiet :: "phys_t set \<Rightarrow> phys_t \<Rightarrow> pmm \<Rightarrow> pmm \<Rightarrow> bool" where
  "quiet \<equiv> adds 3"

lemma quiet_refl: "forest pm R \<Longrightarrow> adds D R r pm pm"
  by (simp add: adds_def)

lemma quietD:
  assumes "adds D R r pm pm'"
  shows "forest pm' R" "pmm_owned pm \<subseteq> pmm_owned pm'"
    "\<forall>d\<le>4. \<forall>va f. user va \<longrightarrow> tab pm r d va = Some f \<longrightarrow> tab pm' r d va = Some f"
    "\<forall>d\<le>4. \<forall>va f. user va \<longrightarrow> tab pm' r d va = Some f \<longrightarrow> f \<in> fst ` pmm_owned pm \<longrightarrow> tab pm r d va = Some f"
    "\<forall>b k a. (b, k) \<in> pmm_owned pm \<longrightarrow> b \<notin> places D pm r \<longrightarrow> a \<in> page_range b k \<longrightarrow> g_ram pm' a = g_ram pm a"
  by (rule assms[unfolded adds_def, THEN conjunct1] assms[unfolded adds_def, THEN conjunct2, THEN conjunct1]
      assms[unfolded adds_def, THEN conjunct2, THEN conjunct2, THEN conjunct1]
      assms[unfolded adds_def, THEN conjunct2, THEN conjunct2, THEN conjunct2, THEN conjunct1]
      assms[unfolded adds_def, THEN conjunct2, THEN conjunct2, THEN conjunct2, THEN conjunct2])+

lemmas quiet_forest = quietD(1) and quiet_owned = quietD(2)[THEN subsetD] and quiet_keeps = quietD(3)[rule_format]
  and quiet_ram = quietD(5)[rule_format]

lemma quiet_old:
  assumes "adds D R r pm pm'" "d \<le> 4" "user va" "tab pm' r d va = Some f" "(f, k) \<in> pmm_owned pm"
  shows "tab pm r d va = Some f"
  by (rule quietD(4)[rule_format, OF assms(1-4)]) (rule rev_image_eqI[OF assms(5)], simp)

lemma quiet_tables: "D \<le> 4 \<Longrightarrow> adds D R r pm pm' \<Longrightarrow> (b, k) \<in> pmm_owned pm \<Longrightarrow> b \<notin> places D pm r \<Longrightarrow> b \<notin> places D pm' r"
proof
  assume D: "D \<le> 4" and a: "adds D R r pm pm'" "(b, k) \<in> pmm_owned pm" "b \<notin> places D pm r" "b \<in> places D pm' r"
  then obtain d va where "d \<le> D" "user va" "tab pm' r d va = Some b" by (auto simp: places_def)
  then show False using quiet_old[OF a(1) _ _ _ a(2), of d va] a(3) D by (auto simp: places_def)
qed

lemma quiet_trans:
  assumes D: "D \<le> 4" and q: "adds D R r pm pm1" and q': "adds D R r pm1 pm2"
  shows "adds D R r pm pm2"
  unfolding adds_def
proof (intro conjI allI impI)
  show "forest pm2 R" by (rule quiet_forest[OF q'])
  show "pmm_owned pm \<subseteq> pmm_owned pm2" using quietD(2)[OF q] quietD(2)[OF q'] by (rule subset_trans)
next
  fix d va f assume "d \<le> 4" "user va" "tab pm r d va = Some f"
  then show "tab pm2 r d va = Some f" using quiet_keeps[OF q] quiet_keeps[OF q'] by blast
next
  fix d va f assume a: "d \<le> 4" "user va" "tab pm2 r d va = Some f" "f \<in> fst ` pmm_owned pm"
  then obtain k where "(f, k) \<in> pmm_owned pm" by force
  then show "tab pm r d va = Some f" using quiet_old[OF q a(1,2)] quiet_old[OF q' a(1,2,3)] quiet_owned[OF q] by blast
next
  fix b k a assume a: "(b, k) \<in> pmm_owned pm" "b \<notin> places D pm r" "a \<in> page_range b k"
  show "g_ram pm2 a = g_ram pm a"
    using quiet_ram[OF q a] quiet_ram[OF q' quiet_owned[OF q a(1)] quiet_tables[OF D q a(1,2)] a(3)] by simp
qed

text \<open>Other address spaces are as they were.\<close>

lemma same_ram_tab:
  assumes F: "forest pm R" and r: "r \<in> R" "user va" and ram: "\<And>d t a. d \<le> 3 \<Longrightarrow> tab pm r d va = Some t \<Longrightarrow> in_frame t a \<Longrightarrow> g_ram pm' a = g_ram pm a"
    and d: "d \<le> 4"
  shows "tab pm' r d va = tab pm r d va"
proof (rule tab_cong[OF _ d])
  fix d t assume d: "d \<le> 3" "tab pm r d va = Some t"
  have "paged t" using owned_frame(1) forest_owned[OF F r(1) _ r(2) d(2)] d(1) F by (auto simp: forest_def)
  then show "pte_get pm' (pt_slot t (4 - d) va) = pte_get pm (pt_slot t (4 - d) va)"
    unfolding pt_slot_def by (intro pte_get_cong ram[OF d] entry_in_frame pt_index_small)
qed

lemma same_ram_forest:
  assumes F: "forest pm R" and m: "mem_ok pm'"
    and own: "\<And>r d va f. r \<in> R \<Longrightarrow> d \<le> 4 \<Longrightarrow> user va \<Longrightarrow> tab pm r d va = Some f \<Longrightarrow> (f, 0) \<in> pmm_owned pm'"
    and ram: "\<And>r d va t a. r \<in> R \<Longrightarrow> user va \<Longrightarrow> d \<le> 3 \<Longrightarrow> tab pm r d va = Some t \<Longrightarrow> in_frame t a \<Longrightarrow> g_ram pm' a = g_ram pm a"
  shows "r \<in> R \<Longrightarrow> user va \<Longrightarrow> d \<le> 4 \<Longrightarrow> tab pm' r d va = tab pm r d va" "forest pm' R"
proof -
  have T: "tab pm' r d va = tab pm r d va" if "r \<in> R" "user va" "d \<le> 4" for r va d by (rule same_ram_tab[OF F that(1,2) ram[OF that(1,2)] that(3)])
  show "r \<in> R \<Longrightarrow> user va \<Longrightarrow> d \<le> 4 \<Longrightarrow> tab pm' r d va = tab pm r d va" by (rule T)
  have "pte_get pm' (pt_slot t 2 va) = pte_get pm (pt_slot t 2 va)" if "r \<in> R" "user va" "tab pm r 2 va = Some t" for r va t
  proof -
    have "paged t" using owned_frame(1) forest_owned[OF F that(1) _ that(2,3)] F by (auto simp: forest_def)
    then show ?thesis unfolding pt_slot_def by (intro pte_get_cong ram[OF that(1,2) _ that(3)] entry_in_frame pt_index_small) simp
  qed
  moreover have "trees pm R" using F by (simp add: forest_def)
  ultimately show "forest pm' R" unfolding forest_def trees_def using m T own by (simp add: T)
qed

lemma quiet_others:
  assumes F: "forest pm R" and r: "r \<in> R" "r' \<in> R" "r' \<noteq> r" and D: "D \<le> 4" and q: "adds D R r pm pm'" and va: "user va" "d \<le> 4"
  shows "tab pm' r' d va = tab pm r' d va"
proof (rule same_ram_tab[OF F r(2) va(1) _ va(2)])
  fix d t a assume d: "d \<le> 3" "tab pm r' d va = Some t" "in_frame t a"
  have o: "(t, 0) \<in> pmm_owned pm" using forest_owned[OF F r(2) _ va(1) d(2)] d(1) by simp
  have "t \<notin> places D pm r"
  proof
    assume "t \<in> places D pm r"
    then obtain e vb where e: "e \<le> D" "user vb" "tab pm r e vb = Some t" by (auto simp: places_def)
    have "d \<le> 4" "e \<le> 4" using d(1) e(1) D by simp_all
    from forest_place(1)[OF F r(2,1) this va(1) e(2) d(2) e(3)] r(3) show False by simp
  qed
  then show "g_ram pm' a = g_ram pm a" using quiet_ram[OF q o] d(3) by (simp add: page_range_frame)
qed

lemma quiet_alloc:
  assumes F: "forest pm R" and a: "pmm_alloc pm 0 f = (pm1, pa)" "pa \<noteq> PMM_INVALID" "f AND PMM_ZERO \<noteq> 0"
  shows "r \<in> R \<Longrightarrow> user va \<Longrightarrow> d \<le> 4 \<Longrightarrow> tab pm1 r d va = tab pm r d va" "r \<in> R \<Longrightarrow> quiet R r pm pm1" "forest pm1 R"
    "(b, k) \<in> pmm_owned pm \<Longrightarrow> x \<in> page_range b k \<Longrightarrow> g_ram pm1 x = g_ram pm x"
proof -
  have m: "mem_ok pm" using F by (simp add: forest_def)
  note A = alloc_page[OF m a]
  have ram: "g_ram pm1 x = g_ram pm x" if "(b, k) \<in> pmm_owned pm" "x \<in> page_range b k" for b k x
  proof -
    have "\<not> in_frame pa x"
      using block_apart(1)[OF A(1), of pa b k x] that A(2,3) by force
    then show ?thesis using A(4) by simp
  qed
  show "(b, k) \<in> pmm_owned pm \<Longrightarrow> x \<in> page_range b k \<Longrightarrow> g_ram pm1 x = g_ram pm x" by (rule ram)
  have ram': "g_ram pm1 x = g_ram pm x" if "r \<in> R" "user va" "d \<le> 3" "tab pm r d va = Some t" "in_frame t x" for r va d t x
    using ram[OF forest_owned[OF F that(1) _ that(2,4)]] that(3,5) by (simp add: page_range_frame)
  have own: "(f, 0) \<in> pmm_owned pm1" if "r \<in> R" "d \<le> 4" "user va" "tab pm r d va = Some f" for r d va f
    using forest_owned[OF F that] A(2) by simp
  note S = same_ram_forest[OF F A(1) own ram']
  show T: "r \<in> R \<Longrightarrow> user va \<Longrightarrow> d \<le> 4 \<Longrightarrow> tab pm1 r d va = tab pm r d va" for r va d by (rule S(1))
  show "forest pm1 R" by (rule S(2))
  then show "r \<in> R \<Longrightarrow> quiet R r pm pm1" using T ram A(2) by (auto simp: adds_def)
qed

lemma tab_depths:
  "tab pm r 1 va = next_frame 0 (pte_get pm (pt_slot r 4 va))"
  "tab pm r 2 va = (case tab pm r 1 va of None \<Rightarrow> None | Some t \<Rightarrow> next_frame 1 (pte_get pm (pt_slot t 3 va)))"
  "tab pm r 3 va = (case tab pm r 2 va of None \<Rightarrow> None | Some t \<Rightarrow> next_frame 2 (pte_get pm (pt_slot t 2 va)))"
  "tab pm r 4 va = (case tab pm r 3 va of None \<Rightarrow> None | Some t \<Rightarrow> next_frame 3 (pte_get pm (pt_slot t 1 va)))"
  using tab.simps(2)[of pm r 0 va] tab.simps(2)[of pm r 1 va] tab.simps(2)[of pm r 2 va] tab.simps(2)[of pm r 3 va]
  by (simp_all add: numeral_2_eq_2[symmetric] numeral_3_eq_3[symmetric] del: tab.simps(2) cong: option.case_cong)

lemma walk_tab:
  assumes "forest pm R" "r \<in> R" "user va"
  shows "walk pm r va = map_option (\<lambda>t. pt_slot t 1 va) (tab pm r 3 va)"
  using forest_small[OF assms]
  by (simp add: walk_def walk_alloc_def walk_step_def tab_depths(1,2,3) next_frame_def Let_def split: option.split)

lemma fresh_frame:
  assumes F: "forest pm R" and a: "pmm_alloc pm 0 f = (pm1, pa)" "pa \<noteq> PMM_INVALID" "f AND PMM_ZERO \<noteq> 0"
    and q: "quiet R r pm1 pm2" and r: "r \<in> R" "r' \<in> R" "d \<le> 4" "user va"
  shows "tab pm2 r' d va \<noteq> Some pa"
proof
  assume t: "tab pm2 r' d va = Some pa"
  have m: "mem_ok pm" using F by (simp add: forest_def)
  note A = alloc_page[OF m a] and F1 = quiet_alloc(3)[OF F a]
  have "tab pm1 r' d va = Some pa"
  proof (cases "r' = r")
    case True
    then show ?thesis using quiet_old[OF q r(3,4), of pa 0] t A(2) by simp
  next
    case False
    then show ?thesis using quiet_others[OF F1 r(1,2) False _ q r(4,3)] t by simp
  qed
  then have "tab pm r' d va = Some pa" using quiet_alloc(1)[OF F a r(2,4,3)] by simp
  then have "(pa, 0) \<in> pmm_owned pm" by (rule forest_owned[OF F r(2,3,4)])
  then show False using A(3) by force
qed

lemma quiet_put_new:
  assumes q: "quiet R r pm pm1" and r: "r \<in> R" and p: "user va0" "d0 \<le> 3" "tab pm1 r d0 va0 = Some t0" "tab pm1 r (Suc d0) va0 = None"
    and n: "next_frame d0 v = Some n" "(n, 0) \<in> pmm_owned pm1" "n \<notin> fst ` pmm_owned pm" "\<forall>r\<in>R. \<forall>d\<le>4. \<forall>va. user va \<longrightarrow> tab pm1 r d va \<noteq> Some n"
      "d0 < 3 \<longrightarrow> (\<forall>x<512. pte_get pm1 (n + 8 * x) = 0)" "d0 < 3 \<longrightarrow> v AND PTE_PS = 0"
  shows "quiet R r pm (pte_put pm1 (pt_slot t0 (4 - d0) va0) v)"
    "r' \<in> R \<Longrightarrow> user va \<Longrightarrow> d \<le> 4 \<Longrightarrow> tab (pte_put pm1 (pt_slot t0 (4 - d0) va0) v) r' d va =
      (if r' = r \<and> key (Suc d0) va = key (Suc d0) va0 \<and> d = Suc d0 then Some n else tab pm1 r' d va)"
proof -
  let ?pm = "pte_put pm1 (pt_slot t0 (4 - d0) va0) v"
  note F = quiet_forest[OF q]
  have m: "mem_ok pm1" using F by (simp add: forest_def)
  have d4: "d0 \<le> 4" using p(2) by simp
  have nt: "n \<noteq> t0" using n(4) r d4 p(1,3) by auto
  have o0: "(t0, 0) \<in> pmm_owned pm1" by (rule forest_owned[OF F r d4 p(1,3)])
  have pn: "paged n" "paged t0" using owned_frame(1)[OF m n(2)] owned_frame(1)[OF m o0] .
  have T: "tab ?pm r' d va = (if r' = r \<and> key (Suc d0) va = key (Suc d0) va0 \<and> d = Suc d0 then Some n else tab pm1 r' d va)"
    if "r' \<in> R" "user va" "d \<le> 4" for r' va d
    by (rule put_new_tab[OF F r p n(1) nt pn(1) n(5) that])
  show "r' \<in> R \<Longrightarrow> user va \<Longrightarrow> d \<le> 4 \<Longrightarrow> tab ?pm r' d va = (if r' = r \<and> key (Suc d0) va = key (Suc d0) va0 \<and> d = Suc d0 then Some n else tab pm1 r' d va)"
    by (rule T)
  show "quiet R r pm ?pm"
    unfolding adds_def
  proof (intro conjI allI impI)
    show "forest ?pm R" by (rule put_new_forest[OF F r p n(1,2) n(4)[rule_format] n(5) n(6)[rule_format]])
    show "pmm_owned pm \<subseteq> pmm_owned ?pm" using quietD(2)[OF q] by (simp add: pte_put_def)
  next
    fix d va f assume a: "d \<le> 4" "user va" "tab pm r d va = Some f"
    have "tab pm1 r d va = Some f" by (rule quiet_keeps[OF q a])
    moreover have "tab pm1 r (Suc d0) va = None" if "key (Suc d0) va = key (Suc d0) va0" using p(2,4) tab_key[OF _ that, of pm1 r] by simp
    ultimately show "tab ?pm r d va = Some f" using T[OF r a(2,1)] by auto
  next
    fix d va f assume a: "d \<le> 4" "user va" "tab ?pm r d va = Some f" "f \<in> fst ` pmm_owned pm"
    then have "tab pm1 r d va = Some f" using T[OF r a(2,1)] n(3) by (auto split: if_splits)
    then show "tab pm r d va = Some f" by (rule quietD(4)[OF q, rule_format, OF a(1,2) _ a(4)])
  next
    fix b k a assume a: "(b, k) \<in> pmm_owned pm" "b \<notin> places 3 pm r" "a \<in> page_range b k"
    have "\<not> in_frame t0 a"
    proof
      assume i: "in_frame t0 a"
      have "b = t0" "k = 0" using block_apart[OF m o0 quiet_owned[OF q a(1)] i a(3)] .
      then have "tab pm r d0 va0 = Some t0" using quiet_old[OF q d4 p(1,3)] a(1) by simp
      then show False using a(2) p(1,2) \<open>b = t0\<close> by (auto simp: places_def)
    qed
    then have "g_ram ?pm a = g_ram pm1 a" unfolding pt_slot_def by (intro pte_put_ram pn pt_index_small)
    then show "g_ram ?pm a = g_ram pm a" using quiet_ram[OF q a] by simp
  qed
qed

text \<open>The entry of a page, 0 when there is no table for it, and the steps that keep the entries of the pages present.\<close>

definition leaf :: "pmm \<Rightarrow> phys_t \<Rightarrow> virt_t \<Rightarrow> u64" where
  "leaf pm r va = (case tab pm r 3 va of None \<Rightarrow> 0 | Some t \<Rightarrow> pte_get pm (pt_slot t 1 va))"

definition held :: "phys_t \<Rightarrow> pmm \<Rightarrow> pmm \<Rightarrow> bool" where
  "held r pm pm' \<longleftrightarrow> (\<forall>va. user va \<longrightarrow> leaf pm r va AND PTE_P \<noteq> 0 \<longrightarrow> leaf pm' r va = leaf pm r va)"

lemma tab_leaf: "tab pm r 4 va = next_frame 3 (leaf pm r va)"
  by (simp add: tab_depths(4) leaf_def split: option.split)

lemma held_refl: "held r pm pm"
  by (simp add: held_def)

lemma held_trans: "held r pm pm1 \<Longrightarrow> held r pm1 pm2 \<Longrightarrow> held r pm pm2"
  by (simp add: held_def)

lemma held_ram:
  assumes F: "forest pm R" and r: "r \<in> R"
    and t: "\<And>va t. user va \<Longrightarrow> tab pm r 3 va = Some t \<Longrightarrow> tab pm' r 3 va = Some t"
    and m: "\<And>va t a. user va \<Longrightarrow> tab pm r 3 va = Some t \<Longrightarrow> in_frame t a \<Longrightarrow> g_ram pm' a = g_ram pm a"
  shows "held r pm pm'"
proof -
  have "leaf pm' r va = leaf pm r va" if "user va" "tab pm r 3 va = Some x" for va x
  proof -
    have "paged x" using owned_frame(1) forest_owned[OF F r _ that] F by (auto simp: forest_def)
    then have "pte_get pm' (pt_slot x 1 va) = pte_get pm (pt_slot x 1 va)"
      unfolding pt_slot_def by (intro pte_get_cong m[OF that] entry_in_frame pt_index_small)
    then show ?thesis using t[OF that] that by (simp add: leaf_def)
  qed
  then show ?thesis by (auto simp: held_def leaf_def split: option.split)
qed

lemma held_put:
  assumes F: "forest pm R" and r: "r \<in> R" and p: "user va0" "d0 \<le> 3" "tab pm r d0 va0 = Some t0" "d0 = 3 \<Longrightarrow> leaf pm r va0 AND PTE_P = 0"
    and t: "\<And>va t. user va \<Longrightarrow> tab pm r 3 va = Some t \<Longrightarrow> tab (pte_put pm (pt_slot t0 (4 - d0) va0) v) r 3 va = Some t"
  shows "held r pm (pte_put pm (pt_slot t0 (4 - d0) va0) v)"
proof -
  let ?pm = "pte_put pm (pt_slot t0 (4 - d0) va0) v"
  have "leaf ?pm r va = leaf pm r va" if va: "user va" "tab pm r 3 va = Some x" "leaf pm r va AND PTE_P \<noteq> 0" for va x
  proof -
    have "\<not> (r = r \<and> 3 = d0 \<and> key (Suc 3) va = key (Suc d0) va0)"
    proof
      assume "r = r \<and> 3 = d0 \<and> key (Suc 3) va = key (Suc d0) va0"
      then have d: "d0 = 3" "key (Suc 3) va = key (Suc 3) va0" by simp_all
      have "key 3 va = key 3 va0" "pt_index 1 va = pt_index 1 va0" using key_Suc[of 3 va va0] d(2) by simp_all
      then have "leaf pm r va = leaf pm r va0" using tab_key[of 3 va va0 pm r] by (simp add: leaf_def pt_slot_def split: option.split)
      then show False using p(4) d(1) va(3) by simp
    qed
    then have "pte_get ?pm (pt_slot x (4 - 3) va) = pte_get pm (pt_slot x (4 - 3) va)"
      by (intro put_entry_other[OF F r p(1-3) r va(1) _ va(2)]) simp_all
    then show ?thesis using t[OF va(1,2)] va(2) by (simp add: leaf_def)
  qed
  then show ?thesis by (auto simp: held_def leaf_def split: option.split)
qed

lemma held_alloc:
  assumes F: "forest pm R" and a: "pmm_alloc pm 0 f = (pm1, pa)" "pa \<noteq> PMM_INVALID" "f AND PMM_ZERO \<noteq> 0" and r: "r \<in> R"
  shows "held r pm pm1"
proof (rule held_ram[OF F r])
  fix va t x assume t: "user va" "tab pm r 3 va = Some t"
  show "tab pm1 r 3 va = Some t" using quiet_alloc(1)[OF F a r t(1), of 3] t(2) by simp
  show "in_frame t x \<Longrightarrow> g_ram pm1 x = g_ram pm x"
    using quiet_alloc(4)[OF F a forest_owned[OF F r _ t]] by (simp add: page_range_frame)
qed

section \<open>Filling in tables\<close>

lemma and_and_0: "(n :: u64) AND a = n \<Longrightarrow> a AND b = 0 \<Longrightarrow> n AND b = 0"
  by (metis and.assoc and_zero_eq)

lemma table_entry:
  assumes "n AND PTE_ADDR = n"
  shows "(n OR PTE_P OR PTE_W OR table_user va) AND PTE_ADDR = n" "(n OR PTE_P OR PTE_W OR table_user va) AND PTE_P \<noteq> 0"
    "(n OR PTE_P OR PTE_W OR table_user va) AND PTE_PS = 0"
proof -
  have z: "n AND PTE_P = 0" "n AND PTE_PS = 0" by (rule and_and_0[OF assms]; simp)+
  show "(n OR PTE_P OR PTE_W OR table_user va) AND PTE_ADDR = n" "(n OR PTE_P OR PTE_W OR table_user va) AND PTE_P \<noteq> 0"
    "(n OR PTE_P OR PTE_W OR table_user va) AND PTE_PS = 0"
    using assms z by (simp_all add: table_user_def word_ao_dist)
qed

lemma fill_quiet:
  assumes F: "forest pm R" and r: "r \<in> R" "user va" "tab pm r 3 va = None"
    and a: "pmm_alloc pm 0 f = (pm1, n)" "n \<noteq> PMM_INVALID" "f AND PMM_ZERO \<noteq> 0" and w: "walk_fill_one pm1 r va n = (pm2, used)"
  shows "used" "quiet R r pm pm2" "user va' \<Longrightarrow> tab pm2 r 4 va' = tab pm r 4 va'" "held r pm pm2"
proof -
  have m: "mem_ok pm" using F by (simp add: forest_def)
  note A = alloc_page[OF m a] and Q = quiet_alloc[OF F a]
  let ?v = "n OR PTE_P OR PTE_W OR table_user va"
  have o: "(n, 0) \<in> pmm_owned pm1" using A(2) by simp
  note n = owned_frame[OF A(1) o]
  note v = table_entry[OF n(3), of va]
  have none: "tab pm1 r 3 va = None" using Q(1)[OF r(1,2), of 3] r(3) by simp
  obtain d0 t0 where d: "d0 \<le> 2" "tab pm1 r d0 va = Some t0" "tab pm1 r (Suc d0) va = None" "pm2 = pte_put pm1 (pt_slot t0 (4 - d0) va) ?v" "used"
  proof (cases "tab pm1 r 1 va")
    case None
    then show ?thesis using that[of 0 r] w tab_depths(1)[of pm1 r va] by (auto simp: walk_fill_one_def next_frame_def Let_def split: if_splits)
  next
    case t1: (Some t1)
    show ?thesis
    proof (cases "tab pm1 r 2 va")
      case None
      then show ?thesis using that[of 1 t1] t1 w tab_depths(1,2)[of pm1 r va]
        by (auto simp: walk_fill_one_def next_frame_def Let_def numeral_2_eq_2[symmetric] split: if_splits)
    next
      case t2: (Some t2)
      show ?thesis using that[of 2 t2] t1 t2 none w tab_depths(1,2,3)[of pm1 r va] forest_small[OF Q(3) r(1,2) t2]
        by (auto simp: walk_fill_one_def next_frame_def Let_def numeral_3_eq_3[symmetric] split: if_splits)
    qed
  qed
  show "used" by (rule d(5))
  have nf: "next_frame d0 ?v = Some n" using d(1) v by (simp add: next_frame_def)
  have fresh: "\<forall>r\<in>R. \<forall>d\<le>4. \<forall>va. user va \<longrightarrow> tab pm1 r d va \<noteq> Some n"
    using fresh_frame[OF F a quiet_refl[OF Q(3)] r(1)] by blast
  have zero': "d0 < 3 \<longrightarrow> (\<forall>x<512. pte_get pm1 (n + 8 * x) = 0)" using alloc_zero[OF m a] by blast
  have d3: "d0 \<le> 3" using d(1) by simp
  note P = quiet_put_new[OF Q(2)[OF r(1)] r(1,2) d3 d(2,3) nf o A(3) fresh zero' impI[OF v(3)], folded d(4)]
  show "quiet R r pm pm2" by (rule P(1))
  show "tab pm2 r 4 va' = tab pm r 4 va'" if "user va'"
    using P(2)[OF r(1) that, of 4] Q(1)[OF r(1) that, of 4] d(1) by simp
  have "held r pm1 pm2" unfolding d(4)
  proof (rule held_put[OF Q(3) r(1,2) d3 d(2)], unfold d(4)[symmetric])
    fix vb t assume "user vb" "tab pm1 r 3 vb = Some t"
    then show "tab pm2 r 3 vb = Some t" using Q(1)[OF r(1), of vb 3] quiet_keeps[OF P(1), of 3 vb t] by simp
  qed (use d(1) in simp)
  then show "held r pm pm2" by (rule held_trans[OF held_alloc[OF F a r(1)]])
qed

lemma ensure_quiet:
  assumes "forest pm R" "r \<in> R" "user va" "tab pm r 3 va = None" "ensure_loop k pm r va = Ret (pm', st)"
  shows "quiet R r pm pm' \<and> held r pm pm' \<and> (\<forall>va'. user va' \<longrightarrow> tab pm' r 4 va' = tab pm r 4 va') \<and> (NT_SUCCESS st \<longrightarrow> tab pm' r 3 va \<noteq> None)"
  using assms
proof (induction k arbitrary: pm)
  case 0
  then show ?case by (simp add: quiet_refl held_refl NT_SUCCESS_def)
next
  case (Suc k)
  obtain pm1 n where a: "pmm_alloc pm 0 (PMM_KERNEL OR PMM_ZERO) = (pm1, n)" by (cases "pmm_alloc pm 0 (PMM_KERNEL OR PMM_ZERO)")
  show ?case
  proof (cases "n = PMM_INVALID")
    case True
    have "pmm_inv pm" using Suc.prems(1) by (simp add: forest_def mem_ok_def)
    then have "pm1 = pm" using pmm.alloc_failed[of pm 0] a True by simp
    then show ?thesis using Suc.prems a True by (simp add: pt_alloc_def quiet_refl held_refl NT_SUCCESS_def)
  next
    case False
    obtain pm2 used where w: "walk_fill_one pm1 r va n = (pm2, used)" by (cases "walk_fill_one pm1 r va n")
    note f = fill_quiet[OF Suc.prems(1-4) a False _ w, simplified]
    note W = walk_tab[OF quiet_forest[OF f(2)] Suc.prems(2,3)]
    show ?thesis
    proof (cases "tab pm2 r 3 va")
      case None
      then have "ensure_loop k pm2 r va = Ret (pm', st)" using Suc.prems(5) a False w f(1) W by (simp add: pt_alloc_def)
      from Suc.IH[OF quiet_forest[OF f(2)] Suc.prems(2,3) None this] show ?thesis using f(3) quiet_trans[OF _ f(2)] held_trans[OF f(4)] by simp
    next
      case (Some t)
      then have "pm' = pm2" using Suc.prems(5) a False w f(1) W by (simp add: pt_alloc_def)
      then show ?thesis using f Some by simp
    qed
  qed
qed

lemma leaf_quiet:
  assumes "forest pm R" "r \<in> R" "user va" "vmm_ensure_leaf pm r va = Ret (pm', st)"
  shows "quiet R r pm pm'" "user va' \<Longrightarrow> tab pm' r 4 va' = tab pm r 4 va'" "NT_SUCCESS st \<Longrightarrow> tab pm' r 3 va \<noteq> None" "held r pm pm'"
proof -
  have "quiet R r pm pm' \<and> held r pm pm' \<and> (\<forall>va'. user va' \<longrightarrow> tab pm' r 4 va' = tab pm r 4 va') \<and> (NT_SUCCESS st \<longrightarrow> tab pm' r 3 va \<noteq> None)"
  proof (cases "tab pm r 3 va")
    case None
    then show ?thesis using assms(4) walk_tab[OF assms(1-3)] ensure_quiet[OF assms(1-3) None] by (simp add: vmm_ensure_leaf_def)
  next
    case (Some t)
    then have "pm' = pm" using assms(4) walk_tab[OF assms(1-3)] by (simp add: vmm_ensure_leaf_def)
    then show ?thesis using Some assms(1) by (simp add: quiet_refl held_refl)
  qed
  then show "quiet R r pm pm'" "user va' \<Longrightarrow> tab pm' r 4 va' = tab pm r 4 va'" "NT_SUCCESS st \<Longrightarrow> tab pm' r 3 va \<noteq> None" "held r pm pm'" by auto
qed

section \<open>Populating a page\<close>

lemma quiet_free:
  assumes q: "quiet R r pm pm2" and r: "r \<in> R" and n: "(n, 0) \<in> pmm_owned pm2" "n \<notin> fst ` pmm_owned pm"
    and fresh: "\<forall>r\<in>R. \<forall>d\<le>4. \<forall>va. user va \<longrightarrow> tab pm2 r d va \<noteq> Some n" and f: "pmm_free pm2 n 0 = Ret pm3"
  shows "quiet R r pm pm3" "r' \<in> R \<Longrightarrow> user va \<Longrightarrow> d \<le> 4 \<Longrightarrow> tab pm3 r' d va = tab pm2 r' d va" "user va \<Longrightarrow> leaf pm3 r va = leaf pm2 r va"
proof -
  note F = quiet_forest[OF q]
  have m: "mem_ok pm2" using F by (simp add: forest_def)
  note A = free_page[OF m n(1) f]
  have own: "(g, 0) \<in> pmm_owned pm3" if "r \<in> R" "d \<le> 4" "user va" "tab pm2 r d va = Some g" for r d va g
    using forest_owned[OF F that] fresh that A(2) by auto
  have ram: "g_ram pm3 a = g_ram pm2 a" for a by (simp add: A(3))
  note S = same_ram_forest[OF F A(1) own ram]
  have T: "tab pm3 r' d va = tab pm2 r' d va" if "r' \<in> R" "user va" "d \<le> 4" for r' va d using that by (rule S(1)[rotated -3])
  show "r' \<in> R \<Longrightarrow> user va \<Longrightarrow> d \<le> 4 \<Longrightarrow> tab pm3 r' d va = tab pm2 r' d va" by (rule T)
  show "user va \<Longrightarrow> leaf pm3 r va = leaf pm2 r va" using T[OF r, of va 3] A(3) by (simp add: leaf_def pte_get_def split: option.split)
  show "quiet R r pm pm3"
    unfolding adds_def
  proof (intro conjI allI impI)
    show "forest pm3 R" by (rule S(2))
    show "pmm_owned pm \<subseteq> pmm_owned pm3" using quietD(2)[OF q] A(2) n(2) by force
    show "\<And>d va f. d \<le> 4 \<Longrightarrow> user va \<Longrightarrow> tab pm r d va = Some f \<Longrightarrow> tab pm3 r d va = Some f" using T[OF r] quiet_keeps[OF q] by simp
    show "\<And>d va f. d \<le> 4 \<Longrightarrow> user va \<Longrightarrow> tab pm3 r d va = Some f \<Longrightarrow> f \<in> fst ` pmm_owned pm \<Longrightarrow> tab pm r d va = Some f"
      using T[OF r] quietD(4)[OF q, rule_format] by simp
    show "\<And>b k a. (b, k) \<in> pmm_owned pm \<Longrightarrow> b \<notin> places 3 pm r \<Longrightarrow> a \<in> page_range b k \<Longrightarrow> g_ram pm3 a = g_ram pm a"
      using quiet_ram[OF q] A(3) by simp
  qed
qed

lemma quiet_put_flags:
  assumes q: "quiet R r pm pm2" and r: "r \<in> R" "user va0" "tab pm2 r 3 va0 = Some t0" and v: "next_frame 3 v = tab pm2 r 4 va0"
  shows "quiet R r pm (pte_put pm2 (pt_slot t0 1 va0) v)"
proof -
  let ?pm = "pte_put pm2 (pt_slot t0 1 va0) v"
  note F = quiet_forest[OF q]
  have m: "mem_ok pm2" using F by (simp add: forest_def)
  have T: "tab ?pm r d va = tab pm2 r d va" if "user va" "d \<le> 4" for va d by (rule put_flags(1)[OF F r v r(1) that])
  have o0: "(t0, 0) \<in> pmm_owned pm2" using forest_owned[OF F r(1) _ r(2,3)] by simp
  note p0 = owned_frame(1)[OF m o0]
  have ram: "g_ram ?pm a = g_ram pm a" if a: "(b, k) \<in> pmm_owned pm" "b \<notin> places 3 pm r" "a \<in> page_range b k" for b k a
  proof -
    have "\<not> in_frame t0 a"
    proof
      assume i: "in_frame t0 a"
      have "b = t0" "k = 0" using block_apart[OF m o0 quiet_owned[OF q a(1)] i a(3)] .
      then have "tab pm r 3 va0 = Some t0" using quiet_old[OF q _ r(2,3)] a(1) by simp
      then show False using a(2) r(2) \<open>b = t0\<close> by (auto simp: places_def)
    qed
    then have "g_ram ?pm a = g_ram pm2 a" unfolding pt_slot_def by (intro pte_put_ram p0 pt_index_small)
    then show ?thesis using quiet_ram[OF q a] by simp
  qed
  show ?thesis
    unfolding adds_def
  proof (intro conjI allI impI)
    show "forest ?pm R" by (rule put_flags(2)[OF F r v])
    show "pmm_owned pm \<subseteq> pmm_owned ?pm" using quietD(2)[OF q] by (simp add: pte_put_def)
    show "\<And>d va f. d \<le> 4 \<Longrightarrow> user va \<Longrightarrow> tab pm r d va = Some f \<Longrightarrow> tab ?pm r d va = Some f" using T quiet_keeps[OF q] by simp
    show "\<And>d va f. d \<le> 4 \<Longrightarrow> user va \<Longrightarrow> tab ?pm r d va = Some f \<Longrightarrow> f \<in> fst ` pmm_owned pm \<Longrightarrow> tab pm r d va = Some f"
      using T quietD(4)[OF q, rule_format] by simp
  qed (rule ram)
qed

text \<open>Address spaces whose descriptors end below the canonical gap.\<close>

definition user_as :: "aspace \<Rightarrow> bool" where
  "user_as as \<longleftrightarrow> (\<forall>v\<in>set (as_vads as). v_end v \<le> 0x800000000000)"

lemma user_as_lookup: "user_as as \<Longrightarrow> vad_lookup as page = Some i \<Longrightarrow> user page"
proof -
  assume a: "user_as as" "vad_lookup as page = Some i"
  have "i < length (as_vads as)" "vad_has page (as_vads as ! i)" using a(2) by (auto simp: vad_lookup_def find_index_Some)
  then have "as_vads as ! i \<in> set (as_vads as)" "page < v_end (as_vads as ! i)" by (auto simp: vad_has_def)
  then show "user page" using a(1) by (auto simp: user_as_def user_def)
qed

lemma prot_entry:
  assumes "n AND PTE_ADDR = n"
  shows "(n OR pte_flags_from_prot prot) AND PTE_ADDR = n" "(n OR pte_flags_from_prot prot) AND PTE_P \<noteq> 0"
proof -
  have z: "n AND PTE_P = 0" by (rule and_and_0[OF assms]; simp)
  show "(n OR pte_flags_from_prot prot) AND PTE_ADDR = n" "(n OR pte_flags_from_prot prot) AND PTE_P \<noteq> 0"
    using assms z by (simp_all add: pte_flags_from_prot_def word_ao_dist Let_def)
qed

lemma walk_leaf:
  assumes "forest pm R" "r \<in> R" "user va"
  shows "(case walk pm r va of None \<Rightarrow> None | Some a \<Rightarrow> if pte_get pm a AND PTE_P \<noteq> 0 then Some (pte_get pm a) else None)
    = (if leaf pm r va AND PTE_P \<noteq> 0 then Some (leaf pm r va) else None)"
  by (simp add: walk_tab[OF assms] leaf_def split: option.split)

text \<open>The second half of \<open>vmm_populate_page\<close>: the frame \<open>pa\<close> has been taken, the tables are there.\<close>

definition place_page :: "pmm \<Rightarrow> phys_t \<Rightarrow> virt_t \<Rightarrow> u32 \<Rightarrow> phys_t \<Rightarrow> pmm outcome" where
  "place_page pm2 pte page prot pa =
     (if pte_get pm2 pte AND PTE_P \<noteq> 0 then pmm_free pm2 pa 0
      else let parked = pte_get pm2 pte AND PTE_ADDR
           in if parked \<noteq> 0 then pmm_free (pte_put pm2 pte (parked OR pte_flags_from_prot prot)) pa 0
              else Ret (pte_put pm2 pte (pa OR pte_flags_from_prot prot)))"

lemma place_quiet:
  assumes q: "quiet R r pm pm2" and h: "held r pm pm2" and r: "r \<in> R" "user page" "tab pm2 r 3 page = Some t"
    and n: "(pa, 0) \<in> pmm_owned pm2" "pa \<notin> fst ` pmm_owned pm" "\<forall>r\<in>R. \<forall>d\<le>4. \<forall>va. user va \<longrightarrow> tab pm2 r d va \<noteq> Some pa"
    and p: "place_page pm2 (pt_slot t 1 page) page prot pa = Ret pm3"
  shows "quiet R r pm pm3" "held r pm pm3" "leaf pm3 r page AND PTE_P \<noteq> 0"
proof -
  note F = quiet_forest[OF q]
  have m: "mem_ok pm2" using F by (simp add: forest_def)
  let ?e = "leaf pm2 r page"
  have e: "pte_get pm2 (pt_slot t 1 page) = ?e" using r(3) by (simp add: leaf_def)
  have held_free: "held r pm pm3" if "quiet R r pm pmx" "held r pm pmx" "(pa, 0) \<in> pmm_owned pmx"
      "\<forall>r\<in>R. \<forall>d\<le>4. \<forall>va. user va \<longrightarrow> tab pmx r d va \<noteq> Some pa" "pmm_free pmx pa 0 = Ret pm3" for pmx
    using that(2) quiet_free(3)[OF that(1) r(1) that(3) n(2) that(4,5)] by (simp add: held_def)
  have put_leaf: "leaf (pte_put pm2 (pt_slot t 1 page) v) r page = v" if "tab (pte_put pm2 (pt_slot t 1 page) v) r 3 page = Some t" for v
    using that by (simp add: leaf_def pte_get_same)
  have put_held: "held r pm (pte_put pm2 (pt_slot t 1 page) v)"
    if "?e AND PTE_P = 0" "\<And>va d. user va \<Longrightarrow> d \<le> 4 \<Longrightarrow> d \<noteq> 4 \<Longrightarrow> tab (pte_put pm2 (pt_slot t 1 page) v) r d va = tab pm2 r d va" for v
    using held_trans[OF h held_put[OF F r(1,2) _ r(3), of v]] that by simp
  consider (present) "?e AND PTE_P \<noteq> 0" | (parked) "?e AND PTE_P = 0" "?e AND PTE_ADDR \<noteq> 0" | (new) "?e AND PTE_P = 0" "?e AND PTE_ADDR = 0" by blast
  then have "quiet R r pm pm3 \<and> held r pm pm3 \<and> leaf pm3 r page AND PTE_P \<noteq> 0"
  proof cases
    case present
    then have f: "pmm_free pm2 pa 0 = Ret pm3" using p e by (simp add: place_page_def)
    show ?thesis using quiet_free[OF q r(1) n f] held_free[OF q h n(1,3) f] present r(2) by simp
  next
    case parked
    let ?v = "(?e AND PTE_ADDR) OR pte_flags_from_prot prot"
    let ?pm = "pte_put pm2 (pt_slot t 1 page) ?v"
    have f: "pmm_free ?pm pa 0 = Ret pm3" using p e parked by (simp add: place_page_def Let_def)
    have "(?e AND PTE_ADDR) AND PTE_ADDR = ?e AND PTE_ADDR" by (simp add: and.assoc)
    note v = prot_entry[OF this, of prot]
    have nf: "next_frame 3 ?v = tab pm2 r 4 page" using v parked by (simp add: next_frame_def tab_leaf)
    have T: "tab ?pm r' d va = tab pm2 r' d va" if "r' \<in> R" "user va" "d \<le> 4" for r' va d by (rule put_flags(1)[OF F r nf that])
    note Q = quiet_put_flags[OF q r nf]
    have H: "held r pm ?pm" by (rule put_held[OF parked(1) T[OF r(1)]])
    have o: "(pa, 0) \<in> pmm_owned ?pm" using n(1) by (simp add: pte_put_def)
    have fr: "\<forall>r\<in>R. \<forall>d\<le>4. \<forall>va. user va \<longrightarrow> tab ?pm r d va \<noteq> Some pa" using n(3) T by simp
    have "leaf ?pm r page = ?v" using put_leaf[of ?v] T[OF r(1,2), of 3] r(3) by simp
    then show ?thesis using quiet_free[OF Q r(1) o n(2) fr f] held_free[OF Q H o fr f] v(2) r(2) by simp
  next
    case new
    let ?v = "pa OR pte_flags_from_prot prot"
    have f: "pm3 = pte_put pm2 (pt_slot t 1 page) ?v" using p e new by (simp add: place_page_def Let_def)
    note v = prot_entry[OF owned_frame(3)[OF m n(1)], of prot]
    have nf: "next_frame 3 ?v = Some pa" using v by (simp add: next_frame_def)
    have none: "tab pm2 r (Suc 3) page = None" using new tab_leaf[of pm2 r page] by (simp add: next_frame_def)
    have z: "(3 :: nat) < 3 \<longrightarrow> (\<forall>x<512. pte_get pm2 (pa + 8 * x) = 0)" "(3 :: nat) < 3 \<longrightarrow> ?v AND PTE_PS = 0" "4 - 3 = (1 :: nat)" by simp_all
    note Q = quiet_put_new[OF q r(1,2) order_refl r(3) none nf n z(1,2), unfolded z(3), folded f]
    have T: "tab pm3 r d va = tab pm2 r d va" if "user va" "d \<le> 4" "d \<noteq> 4" for va d using Q(2)[OF r(1) that(1,2)] that(3) by simp
    have "held r pm pm3" unfolding f by (rule put_held[OF new(1) T[unfolded f]])
    moreover have "leaf pm3 r page = ?v" using put_leaf[of ?v] T[OF r(2), of 3] r(3) f by simp
    ultimately show ?thesis using Q(1) v(2) by simp
  qed
  then show "quiet R r pm pm3" "held r pm pm3" "leaf pm3 r page AND PTE_P \<noteq> 0" by simp_all
qed

definition open_page :: "aspace \<Rightarrow> virt_t \<Rightarrow> bool" where
  "open_page as page \<longleftrightarrow> (\<exists>i. vad_lookup as page = Some i \<and> v_prot (as_vads as ! i) AND PAGE_NOACCESS = 0)"

lemma populate_present:
  assumes "forest pm R" "as_cr3 as \<in> R" "user_as as" "open_page as page" "leaf pm (as_cr3 as) page AND PTE_P \<noteq> 0"
  shows "vmm_populate_page pm as page False = Ret (pm, STATUS_SUCCESS)"
proof -
  obtain i where i: "vad_lookup as page = Some i" "v_prot (as_vads as ! i) AND PAGE_NOACCESS = 0" using assms(4) by (auto simp: open_page_def)
  show ?thesis using i assms(5) unfolding vmm_populate_page_def
    by (simp add: walk_leaf[OF assms(1,2) user_as_lookup[OF assms(3) i(1)]] Let_def)
qed

lemma populate_quiet:
  assumes F: "forest pm R" and r: "as_cr3 as \<in> R" and u: "user_as as" and p: "vmm_populate_page pm as page w = Ret (pm', st)"
  shows "quiet R (as_cr3 as) pm pm'" "held (as_cr3 as) pm pm'"
    "NT_SUCCESS st \<Longrightarrow> user page \<and> open_page as page \<and> leaf pm' (as_cr3 as) page AND PTE_P \<noteq> 0"
proof -
  let ?r = "as_cr3 as"
  let ?P = "quiet R ?r pm pm' \<and> held ?r pm pm' \<and> (NT_SUCCESS st \<longrightarrow> user page \<and> open_page as page \<and> leaf pm' ?r page AND PTE_P \<noteq> 0)"
  have fail: ?P if "pm' = pm" "\<not> NT_SUCCESS st" using that F by (simp add: quiet_refl held_refl)
  have bad: "\<not> NT_SUCCESS STATUS_ACCESS_VIOLATION" "\<not> NT_SUCCESS STATUS_NO_MEMORY" by (simp_all add: NT_SUCCESS_def)
  have ?P
  proof (cases "open_page as page")
    case False
    then have "pm' = pm \<and> st = STATUS_ACCESS_VIOLATION" using p by (auto simp: vmm_populate_page_def open_page_def split: option.splits)
    then show ?thesis using fail bad by simp
  next
    case o: True
    then obtain i where i: "vad_lookup as page = Some i" "v_prot (as_vads as ! i) AND PAGE_NOACCESS = 0" by (auto simp: open_page_def)
    let ?prot = "v_prot (as_vads as ! i)"
    note up = user_as_lookup[OF u i(1)]
    note W = walk_leaf[OF F r up]
    show ?thesis
    proof (cases "w \<and> \<not> prot_writable ?prot \<or> leaf pm ?r page AND PTE_P \<noteq> 0")
      case True
      then have "pm' = pm \<and> (st = STATUS_ACCESS_VIOLATION \<or> leaf pm ?r page AND PTE_P \<noteq> 0)"
        using p i by (auto simp: vmm_populate_page_def W Let_def split: if_splits)
      then show ?thesis using fail bad F up o by (auto simp: quiet_refl held_refl)
    next
      case nw: False
      obtain pm1 pa where a: "pmm_alloc pm 0 (PMM_USER OR PMM_ZERO) = (pm1, pa)" by (cases "pmm_alloc pm 0 (PMM_USER OR PMM_ZERO)")
      note step = p[unfolded vmm_populate_page_def W i(1) a]
      show ?thesis
      proof (cases "pa = PMM_INVALID")
        case True
        have "pmm_inv pm" using F by (simp add: forest_def mem_ok_def)
        then have "pm1 = pm" using pmm.alloc_failed[of pm 0] a True by simp
        then have "pm' = pm \<and> st = STATUS_NO_MEMORY" using step nw i True by (auto simp: Let_def)
        then show ?thesis using fail bad by simp
      next
        case ok: False
        have z: "(PMM_USER OR PMM_ZERO) AND PMM_ZERO \<noteq> (0 :: u32)" by simp
        note Q1 = quiet_alloc[OF F a ok z] and H1 = held_alloc[OF F a ok z r]
        obtain pm2 st2 where e: "vmm_ensure_leaf pm1 ?r page = Ret (pm2, st2)"
          using step nw i ok by (cases "vmm_ensure_leaf pm1 ?r page") (auto simp: Let_def)
        note L = leaf_quiet[OF Q1(3) r up e]
        have m: "mem_ok pm" using F by (simp add: forest_def)
        note A = alloc_page[OF m a ok z]
        have q: "quiet R ?r pm pm2" and h: "held ?r pm pm2" using quiet_trans[OF _ Q1(2)[OF r] L(1)] held_trans[OF H1 L(4)] by simp_all
        have n: "(pa, 0) \<in> pmm_owned pm2" using A(2) quiet_owned[OF L(1)] by simp
        have fr: "\<forall>r\<in>R. \<forall>d\<le>4. \<forall>va. user va \<longrightarrow> tab pm2 r d va \<noteq> Some pa" using fresh_frame[OF F a ok z L(1) r] by blast
        show ?thesis
        proof (cases "NT_SUCCESS st2")
          case False
          then have f: "pmm_free pm2 pa 0 = Ret pm'" "st = st2" using step nw i ok e by (auto simp: bind_outcome_Ret_iff Let_def)
          show ?thesis using quiet_free[OF q r n A(3) fr f(1)] h False f(2) by (simp add: held_def)
        next
          case True
          obtain t where t: "tab pm2 ?r 3 page = Some t" using L(3)[OF True] by auto
          have "place_page pm2 (pt_slot t 1 page) page ?prot pa = Ret pm'"
            using step nw i ok e True walk_tab[OF quiet_forest[OF q] r up] t
            by (auto simp: place_page_def Let_def bind_outcome_Ret_iff split: if_splits)
          from place_quiet[OF q h r up t n A(3) fr this] show ?thesis using up o by simp
        qed
      qed
    qed
  qed
  then show "quiet R ?r pm pm'" "held ?r pm pm'" "NT_SUCCESS st \<Longrightarrow> user page \<and> open_page as page \<and> leaf pm' ?r page AND PTE_P \<noteq> 0" by simp_all
qed

section \<open>Copies\<close>

lemma unat_offset: "unat (va AND PAGE_MASK) = unat va mod 4096"
proof -
  have "va AND PAGE_MASK = take_bit 12 va" by (simp add: take_bit_eq_mask mask_numeral)
  then show ?thesis by (simp add: take_bit_eq_mod unat_mod)
qed

lemma page_room_mod: "page_room va = 4096 - unat va mod 4096"
  by (simp add: page_room_def unat_offset)

lemma in_page:
  assumes "i < page_room va"
  shows "unat (va + of_nat i) = unat va + i" "PAGE_ALIGN_DOWN (va + of_nat i) = PAGE_ALIGN_DOWN va"
    "(va + of_nat i) AND PAGE_MASK = (va AND PAGE_MASK) + of_nat i"
proof -
  have i: "unat va mod 4096 + i < 4096" using assms by (simp add: page_room_mod)
  have "unat va < 2 ^ 64" using unsigned_less[of va] by simp
  moreover have "unat va = unat va div 4096 * 4096 + unat va mod 4096" by simp
  moreover have "(2 :: nat) ^ 64 = 2 ^ 52 * 4096" by simp
  ultimately have "unat va div 4096 < 2 ^ 52" by linarith
  then have "unat va div 4096 * 4096 + 4096 \<le> 2 ^ 64" by simp
  then have "unat va + i < 2 ^ 64" using i \<open>unat va = _\<close> by linarith
  moreover have ui: "unat (of_nat i :: u64) = i" using i by (simp add: unat_of_nat take_bit_nat_eq_self)
  ultimately show u: "unat (va + of_nat i) = unat va + i" by (simp add: unat_word_ariths)
  have "unat va + i = (unat va mod 4096 + i) + unat va div 4096 * 4096" using \<open>unat va = _\<close> by linarith
  then have "(unat va + i) div 4096 = ((unat va mod 4096 + i) + unat va div 4096 * 4096) div 4096" by simp
  also have "\<dots> = unat va div 4096" using i unfolding div_mult_self1[of "4096 :: nat", OF zero_neq_numeral[symmetric]] by simp
  finally have "(unat va + i) div 4096 = unat va div 4096" .
  then show "PAGE_ALIGN_DOWN (va + of_nat i) = PAGE_ALIGN_DOWN va" by (simp add: word_unat_eq_iff unat_PAGE_ALIGN_DOWN u)
  have "(unat va + i) mod 4096 = unat va mod 4096 + i" using i mod_add_left_eq[of "unat va" 4096 i] by simp
  moreover have "unat ((va AND PAGE_MASK) + of_nat i) = unat va mod 4096 + i" using i ui by (simp add: unat_word_ariths unat_offset)
  ultimately show "(va + of_nat i) AND PAGE_MASK = (va AND PAGE_MASK) + of_nat i" by (simp add: word_unat_eq_iff unat_offset u)
qed

lemma key_page: "key 4 x = key 4 y \<longleftrightarrow> unat x div 4096 = unat y div 4096"
  by (simp add: key_def word_unat_eq_iff drop_bit_eq_div unat_div)

lemma key_align: "key 4 (PAGE_ALIGN_DOWN va) = key 4 va"
  by (simp add: key_page unat_PAGE_ALIGN_DOWN)

lemma page_byte: "paged f \<Longrightarrow> i < page_room va \<Longrightarrow> in_frame f (f + (va AND PAGE_MASK) + of_nat i)"
  by (simp add: in_frame_def in_page(3)[symmetric] add.assoc unat_offset)

lemma ram_write_at: "i < length bs \<Longrightarrow> length bs < 2 ^ 64 \<Longrightarrow> ram_write m a bs (a + of_nat i) = bs ! i"
  by (simp add: ram_write_def unat_of_nat take_bit_nat_eq_self)

lemma ram_write_frame:
  assumes "paged f" "length bs \<le> page_room va" "\<not> in_frame f a"
  shows "ram_write m (f + (va AND PAGE_MASK)) bs a = m a"
proof -
  let ?x = "f + (va AND PAGE_MASK)"
  have "\<not> unat (a - ?x) < length bs"
  proof
    assume "unat (a - ?x) < length bs"
    then have "in_frame f (?x + of_nat (unat (a - ?x)))" using assms(1,2) by (intro page_byte) simp_all
    then show False using assms(3) by simp
  qed
  then show ?thesis by (simp add: ram_write_def)
qed

text \<open>Writing into a page of \<open>r\<close>.\<close>

lemma page_write:
  assumes F: "forest pm R" and r: "r \<in> R" "user w" "tab pm r 4 w = Some f" and m: "\<And>a. \<not> in_frame f a \<Longrightarrow> m a = g_ram pm a"
  shows "adds 4 R r pm (pm\<lparr>g_ram := m\<rparr>)" "user va \<Longrightarrow> leaf (pm\<lparr>g_ram := m\<rparr>) r va = leaf pm r va"
proof -
  let ?pm = "pm\<lparr>g_ram := m\<rparr>"
  have mk: "mem_ok pm" using F by (simp add: forest_def)
  have own: "pmm_owned ?pm = pmm_owned pm" "mem_ok ?pm" using mk by (simp_all add: mem_ok_def zero_kept_def mem_bounded_def phys_of_def)
  have of: "(f, 0) \<in> pmm_owned pm" using forest_owned[OF F r(1) _ r(2,3)] by simp
  have ram: "m a = g_ram pm a" if t: "r' \<in> R" "user va" "d \<le> 3" "tab pm r' d va = Some t" "in_frame t a" for r' va d t a
  proof (rule m, rule)
    assume i: "in_frame f a"
    have d: "d \<le> 4" using t(3) by simp
    note ot = forest_owned[OF F t(1) d t(2,4)]
    have "t = f" by (rule frames_apart[OF owned_frame(1)[OF mk ot] owned_frame(1)[OF mk of] t(5) i])
    then show False using forest_place(2)[OF F t(1) r(1) d order_refl t(2) r(2) t(4)] r(3) t(3) by simp
  qed
  have S: "tab ?pm r d va = tab pm r d va" if "r \<in> R" "user va" "d \<le> 4" for r d va
    using that by (rule same_ram_forest(1)[OF F own(2), rotated -3]) (auto simp: own ram intro: forest_owned[OF F])
  have FF: "forest ?pm R" by (rule same_ram_forest(2)[OF F own(2)]) (auto simp: own ram intro: forest_owned[OF F])
  show "adds 4 R r pm ?pm"
    unfolding adds_def
  proof (intro conjI allI impI)
    fix b k a assume a: "(b, k) \<in> pmm_owned pm" "b \<notin> places 4 pm r" "a \<in> page_range b k"
    have "\<not> in_frame f a"
    proof
      assume "in_frame f a"
      then have "b = f" using block_apart(1)[OF mk of a(1) _ a(3)] by simp
      then show False using a(2) r(2,3) by (auto simp: places_def)
    qed
    then show "g_ram ?pm a = g_ram pm a" by (simp add: m)
  qed (simp_all add: FF own S r(1))
  have "pte_get ?pm (pt_slot t 1 va) = pte_get pm (pt_slot t 1 va)" if t: "user va" "tab pm r 3 va = Some t" for va t
  proof -
    have "paged t" using owned_frame(1)[OF mk] forest_owned[OF F r(1) _ t] by auto
    then show ?thesis unfolding pt_slot_def by (intro pte_get_cong) (simp add: ram[OF r(1) t(1) _ t(2)] entry_in_frame pt_index_small)
  qed
  then show "user va \<Longrightarrow> leaf ?pm r va = leaf pm r va" using S[OF r(1), of va 3] by (simp add: leaf_def split: option.split)
qed

lemma quiet_adds:
  assumes q: "quiet R r pm pm'"
  shows "adds 4 R r pm pm'"
  unfolding adds_def
proof (intro conjI quietD(1,2,3,4)[OF q] allI impI)
  fix b k a assume a: "(b, k) \<in> pmm_owned pm" "b \<notin> places 4 pm r" "a \<in> page_range b k"
  have "d \<le> 3 \<Longrightarrow> d \<le> (4 :: nat)" for d by simp
  then have "places 3 pm r \<subseteq> places 4 pm r" unfolding places_def by blast
  then show "g_ram pm' a = g_ram pm a" using a by (intro quiet_ram[OF q a(1) _ a(3)]) blast
qed

text \<open>A page that can be accessed and is present, and the byte at an address of such a page.\<close>

definition ready :: "pmm \<Rightarrow> aspace \<Rightarrow> virt_t \<Rightarrow> bool" where
  "ready pm as va \<longleftrightarrow> user (PAGE_ALIGN_DOWN va) \<and> open_page as (PAGE_ALIGN_DOWN va) \<and> leaf pm (as_cr3 as) (PAGE_ALIGN_DOWN va) AND PTE_P \<noteq> 0"

definition frame_of :: "pmm \<Rightarrow> aspace \<Rightarrow> virt_t \<Rightarrow> phys_t" where
  "frame_of pm as va = leaf pm (as_cr3 as) (PAGE_ALIGN_DOWN va) AND PTE_ADDR"

definition byte_at :: "pmm \<Rightarrow> aspace \<Rightarrow> virt_t \<Rightarrow> u8" where
  "byte_at pm as va = g_ram pm (frame_of pm as va + (va AND PAGE_MASK))"

lemma ready_frame: "ready pm as va \<Longrightarrow> tab pm (as_cr3 as) 4 (PAGE_ALIGN_DOWN va) = Some (frame_of pm as va)"
  by (simp add: ready_def frame_of_def tab_leaf next_frame_def)

lemma copy_frame_quiet:
  assumes F: "forest pm R" and r: "as_cr3 as \<in> R" and u: "user_as as" and c: "copy_frame pm as va = Ret (pm', x)"
  shows "quiet R (as_cr3 as) pm pm'" "held (as_cr3 as) pm pm'" "x = Inr f \<Longrightarrow> ready pm' as va \<and> f = frame_of pm' as va" "x = Inl st \<Longrightarrow> \<not> NT_SUCCESS st"
proof -
  let ?p = "PAGE_ALIGN_DOWN va"
  obtain st where p: "vmm_populate_page pm as ?p False = Ret (pm', st)"
    using c by (auto simp: copy_frame_def bind_outcome_Ret_iff split: if_splits option.splits)
  note P = populate_quiet[OF F r u p]
  show "quiet R (as_cr3 as) pm pm'" "held (as_cr3 as) pm pm'" by (rule P)+
  have s: "x = Inr (frame_of pm' as va) \<and> ready pm' as va" if "NT_SUCCESS st"
  proof -
    have a: "user ?p" "leaf pm' (as_cr3 as) ?p AND PTE_P \<noteq> 0" using P(3)[OF that] by simp_all
    then obtain t where t: "tab pm' (as_cr3 as) 3 ?p = Some t" by (cases "tab pm' (as_cr3 as) 3 ?p") (auto simp: leaf_def)
    then show ?thesis using c p that a walk_tab[OF quiet_forest[OF P(1)] r a(1)] P(3)[OF that]
      by (auto simp: copy_frame_def leaf_def frame_of_def ready_def)
  qed
  show "x = Inr f \<Longrightarrow> ready pm' as va \<and> f = frame_of pm' as va" "x = Inl st' \<Longrightarrow> \<not> NT_SUCCESS st'" for st'
    using s c p by (cases "NT_SUCCESS st"; simp add: copy_frame_def)+
qed

lemma copy_frame_ready:
  assumes F: "forest pm R" and r: "as_cr3 as \<in> R" and u: "user_as as" and c: "ready pm as va"
  shows "copy_frame pm as va = Ret (pm, Inr (frame_of pm as va))"
proof -
  let ?p = "PAGE_ALIGN_DOWN va"
  have a: "user ?p" "open_page as ?p" "leaf pm (as_cr3 as) ?p AND PTE_P \<noteq> 0" using c by (auto simp: ready_def)
  then obtain t where t: "tab pm (as_cr3 as) 3 ?p = Some t" by (cases "tab pm (as_cr3 as) 3 ?p") (auto simp: leaf_def)
  then show ?thesis using a populate_present[OF F r u a(2,3)] walk_tab[OF F r a(1)]
    by (simp add: copy_frame_def leaf_def frame_of_def NT_SUCCESS_def)
qed

lemma held_ready: "held (as_cr3 as) pm pm' \<Longrightarrow> ready pm as va \<Longrightarrow> ready pm' as va \<and> frame_of pm' as va = frame_of pm as va"
  by (auto simp: held_def ready_def frame_of_def)

text \<open>Bytes of other pages of the address space survive.\<close>

lemma page_kept:
  assumes F: "forest pm R" and r: "r \<in> R" "user w" "tab pm r 4 w = Some f" and q: "quiet R r pm pm'" and i: "in_frame f a"
  shows "g_ram pm' a = g_ram pm a"
proof (rule quiet_ram[OF q])
  show "(f, 0) \<in> pmm_owned pm" using forest_owned[OF F r(1) _ r(2,3)] by simp
  show "a \<in> page_range f 0" using i by (simp add: page_range_frame)
  show "f \<notin> places 3 pm r"
  proof
    assume "f \<in> places 3 pm r"
    then obtain d va where d: "d \<le> 3" "user va" "tab pm r d va = Some f" by (auto simp: places_def)
    have "d \<le> 4" using d(1) by simp
    from forest_place(2)[OF F r(1,1) this order_refl d(2) r(2) d(3) r(3)] d(1) show False by simp
  qed
qed

definition before :: "virt_t \<Rightarrow> virt_t \<Rightarrow> bool" where
  "before w va \<longleftrightarrow> user w \<and> unat w div 4096 < unat va div 4096"

lemma next_chunk:
  assumes "unat va + length src \<le> 2 ^ 63" and c: "c = min (length src) (page_room va)"
  shows "unat (va + of_nat c) = unat va + c" "c < length src \<Longrightarrow> unat va div 4096 < unat (va + of_nat c) div 4096"
proof -
  have "c \<le> 4096" "c \<le> length src" using c by (simp_all add: page_room_mod)
  then have "unat (of_nat c :: u64) = c" "unat va + c < 2 ^ 64" using assms(1) by (simp_all add: unat_of_nat take_bit_nat_eq_self)
  then show u: "unat (va + of_nat c) = unat va + c" by (simp add: unat_word_ariths)
  assume "c < length src"
  then have "c = 4096 - unat va mod 4096" using c by (simp add: page_room_mod)
  then have "unat va + c = unat va div 4096 * 4096 + 4096" using div_mult_mod_eq[of "unat va" 4096] mod_less_divisor[of 4096 "unat va"] by linarith
  then have "(unat va + c) div 4096 = unat va div 4096 + 1" by simp
  then show "unat va div 4096 < unat (va + of_nat c) div 4096" unfolding u by simp
qed

text \<open>One turn of the loop: the page has been populated, a piece of it is written.\<close>

lemma write_chunk:
  assumes F: "forest pm R" and r: "as_cr3 as \<in> R" and y: "ready pm as va" and c: "length bs \<le> page_room va"
    and pm': "pm' = pm\<lparr>g_ram := ram_write (g_ram pm) (frame_of pm as va + (va AND PAGE_MASK)) bs\<rparr>"
  shows "adds 4 R (as_cr3 as) pm pm'" "held (as_cr3 as) pm pm'"
    "before w va \<Longrightarrow> tab pm (as_cr3 as) 4 w = Some g \<Longrightarrow> in_frame g a \<Longrightarrow> g_ram pm' a = g_ram pm a"
    "i < length bs \<Longrightarrow> ready pm' as (va + of_nat i) \<and> byte_at pm' as (va + of_nat i) = bs ! i"
proof -
  let ?r = "as_cr3 as" and ?f = "frame_of pm as va" and ?p = "PAGE_ALIGN_DOWN va"
  have up: "user ?p" using y by (simp add: ready_def)
  note T = ready_frame[OF y]
  have m: "mem_ok pm" using F by (simp add: forest_def)
  have pf: "paged ?f" using owned_frame(1)[OF m] forest_owned[OF F r _ up T] by auto
  note W = page_write[OF F r up T ram_write_frame[OF pf c, of _ "g_ram pm"], folded pm']
  show "adds 4 R ?r pm pm'" by (rule W(1))
  show h: "held ?r pm pm'" using W(2) by (simp add: held_def)
  show "before w va \<Longrightarrow> tab pm ?r 4 w = Some g \<Longrightarrow> in_frame g a \<Longrightarrow> g_ram pm' a = g_ram pm a"
  proof -
    assume b: "before w va" and g: "tab pm ?r 4 w = Some g" "in_frame g a"
    have uw: "user w" using b by (simp add: before_def)
    have pg: "paged g" using owned_frame(1)[OF m] forest_owned[OF F r _ uw g(1)] by auto
    have "\<not> in_frame ?f a"
    proof
      assume "in_frame ?f a"
      then have "g = ?f" using frames_apart[OF pg pf g(2)] by simp
      then have "key 4 w = key 4 ?p" using forest_place(3)[OF F r r order_refl order_refl uw up g(1)] T by simp
      then show False using b by (simp add: key_align key_page before_def)
    qed
    then show ?thesis unfolding pm' using ram_write_frame[OF pf c] by simp
  qed
  show "ready pm' as (va + of_nat i) \<and> byte_at pm' as (va + of_nat i) = bs ! i" if i: "i < length bs"
  proof -
    have ip: "i < page_room va" using i c by simp
    have "length bs < 2 ^ 64" using c by (simp add: page_room_mod)
    note R = ram_write_at[OF i this]
    have "ready pm' as va \<and> frame_of pm' as va = ?f" by (rule held_ready[OF h y])
    then have "ready pm' as (va + of_nat i)" "frame_of pm' as (va + of_nat i) = ?f" by (simp_all add: ready_def frame_of_def in_page(2)[OF ip])
    then show ?thesis using R[of "g_ram pm" "?f + (va AND PAGE_MASK)"] by (simp add: byte_at_def pm' in_page(3)[OF ip] add.assoc)
  qed
qed

lemma write_loop_adds:
  assumes "forest pm R" "as_cr3 as \<in> R" "user_as as" "unat va + length src \<le> 2 ^ 63" "write_loop pm as va src = Ret (pm', st)"
  shows "adds 4 R (as_cr3 as) pm pm' \<and> held (as_cr3 as) pm pm'
    \<and> (\<forall>w f a. before w va \<longrightarrow> tab pm (as_cr3 as) 4 w = Some f \<longrightarrow> in_frame f a \<longrightarrow> g_ram pm' a = g_ram pm a)
    \<and> (NT_SUCCESS st \<longrightarrow> (\<forall>i<length src. ready pm' as (va + of_nat i) \<and> byte_at pm' as (va + of_nat i) = src ! i))"
  using assms
proof (induction pm as va src rule: write_loop.induct)
  case (1 pm as va src)
  let ?r = "as_cr3 as"
  note F = "1.prems"(1) and r = "1.prems"(2) and u = "1.prems"(3) and b = "1.prems"(4) and w = "1.prems"(5)[unfolded write_loop.simps[of pm]]
  show ?case
  proof (cases "src = []")
    case True
    then show ?thesis using w F quiet_adds[OF quiet_refl[OF F]] by (simp add: held_refl)
  next
    case ne: False
    obtain pm1 x where c: "copy_frame pm as va = Ret (pm1, x)" using w ne by (cases "copy_frame pm as va") auto
    note C = copy_frame_quiet[OF F r u c]
    note F1 = quiet_forest[OF C(1)]
    have kept: "g_ram pm1 a = g_ram pm a" if "before w va" "tab pm ?r 4 w = Some f" "in_frame f a" for w f a
      using page_kept[OF F r _ that(2) C(1) that(3)] that(1) by (simp add: before_def)
    show ?thesis
    proof (cases x)
      case (Inl s)
      then have "pm' = pm1" "st = s" using w ne c by simp_all
      then show ?thesis using quiet_adds[OF C(1)] C(2) C(4)[OF Inl] kept by simp
    next
      case (Inr f)
      define c where "c = min (length src) (page_room va)"
      define pm2 where "pm2 = pm1\<lparr>g_ram := ram_write (g_ram pm1) (f + (va AND PAGE_MASK)) (take c src)\<rparr>"
      have y: "ready pm1 as va" "f = frame_of pm1 as va" using C(3)[OF Inr] by simp_all
      have l: "length (take c src) \<le> page_room va" by (simp add: c_def)
      note W = write_chunk[OF F1 r y(1) l pm2_def[unfolded y(2)]]
      note N = next_chunk[OF b c_def]
      have rec: "write_loop pm2 as (va + of_nat c) (drop c src) = Ret (pm', st)" using w ne c Inr by (simp add: c_def pm2_def Let_def)
      have bd: "unat (va + of_nat c) + length (drop c src) \<le> 2 ^ 63" unfolding N(1) using b by (simp add: c_def)
      note IH = "1.IH"[OF ne c refl Inr c_def, folded pm2_def, OF quiet_forest[OF W(1)] r u bd rec]
      have A: "adds 4 R ?r pm pm2" by (rule quiet_trans[OF order_refl quiet_adds[OF C(1)] W(1)])
      have keep: "g_ram pm' a = g_ram pm2 a" if "before w (va + of_nat c)" "tab pm2 ?r 4 w = Some g" "in_frame g a" for w g a using IH that by blast
      have "adds 4 R ?r pm pm'" using quiet_trans[OF order_refl A] IH by blast
      moreover have "held ?r pm pm'" using held_trans[OF held_trans[OF C(2) W(2)]] IH by blast
      moreover have "g_ram pm' a = g_ram pm a" if t: "before w va" "tab pm ?r 4 w = Some g" "in_frame g a" for w g a
      proof -
        have uw: "user w" using t(1) by (simp add: before_def)
        have "unat va div 4096 \<le> (unat va + c) div 4096" by (rule div_le_mono) simp
        then have "before w (va + of_nat c)" using t(1) by (simp add: before_def N(1))
        then have "g_ram pm' a = g_ram pm2 a" using keep quiet_keeps[OF A order_refl uw t(2)] t(3) by blast
        also have "\<dots> = g_ram pm1 a" by (rule W(3)[OF t(1) quiet_keeps[OF C(1) order_refl uw t(2)] t(3)])
        finally show ?thesis using kept[OF t] by simp
      qed
      moreover have "ready pm' as (va + of_nat i) \<and> byte_at pm' as (va + of_nat i) = src ! i" if ok: "NT_SUCCESS st" and i: "i < length src" for i
      proof (cases "i < c")
        case True
        have ip: "i < page_room va" "i < length (take c src)" using True i by (simp_all add: c_def)
        let ?x = "va + of_nat i"
        have x: "ready pm2 as ?x" "byte_at pm2 as ?x = src ! i" using W(4)[OF ip(2)] True by simp_all
        have k: "ready pm' as ?x \<and> frame_of pm' as ?x = frame_of pm2 as ?x" using held_ready[OF _ x(1)] IH by blast
        have up: "user (PAGE_ALIGN_DOWN va)" using y(1) by (simp add: ready_def)
        have pg: "paged (frame_of pm2 as ?x)"
          using owned_frame(1) forest_owned[OF quiet_forest[OF W(1)] r _ _ ready_frame[OF x(1)]] up quiet_forest[OF W(1)] by (auto simp: forest_def in_page(2)[OF ip(1)])
        have "byte_at pm' as ?x = byte_at pm2 as ?x"
        proof (cases "c < length src")
          case False
          then show ?thesis using rec by (simp add: write_loop.simps)
        next
          case True
          have "before (PAGE_ALIGN_DOWN ?x) (va + of_nat c)" using N(2)[OF True] up by (simp add: before_def in_page(2)[OF ip(1)] unat_PAGE_ALIGN_DOWN)
          moreover have "in_frame (frame_of pm2 as ?x) (frame_of pm2 as ?x + (?x AND PAGE_MASK))" using page_byte[OF pg page_room_pos, of ?x] by simp
          ultimately show ?thesis using keep[OF _ ready_frame[OF x(1)]] k by (simp add: byte_at_def)
        qed
        then show ?thesis using k x(2) by simp
      next
        case False
        then have "va + of_nat c + of_nat (i - c) = va + of_nat i" "drop c src ! (i - c) = src ! i" "i - c < length (drop c src)"
          using i by (simp_all add: of_nat_diff)
        then show ?thesis using IH ok by metis
      qed
      ultimately show ?thesis by blast
    qed
  qed
qed

lemma read_chunk: "c \<le> page_room va \<Longrightarrow> ram_read (g_ram pm) (frame_of pm as va + (va AND PAGE_MASK)) c = map (\<lambda>i. byte_at pm as (va + of_nat i)) [0..<c]"
  by (simp add: ram_read_def byte_at_def frame_of_def in_page add.assoc)

lemma read_loop_ready:
  assumes "forest pm R" "as_cr3 as \<in> R" "user_as as" "\<forall>i<n. ready pm as (va + of_nat i)"
  shows "read_loop pm as va n dst = Ret (pm, STATUS_SUCCESS, dst @ map (\<lambda>i. byte_at pm as (va + of_nat i)) [0..<n])"
  using assms
proof (induction n arbitrary: va dst rule: less_induct)
  case (less n)
  show ?case
  proof (cases "n = 0")
    case True
    then show ?thesis by (simp add: read_loop.simps)
  next
    case False
    define c where "c = min n (page_room va)"
    have c: "c \<le> n" "c \<le> page_room va" "0 < c" using False page_room_pos by (simp_all add: c_def)
    have "ready pm as va" using less.prems(4) False by (auto dest: spec[of _ 0])
    note C = copy_frame_ready[OF less.prems(1-3) this]
    have sh: "va + of_nat c + of_nat i = va + of_nat (c + i)" for i by simp
    have "read_loop pm as (va + of_nat c) (n - c) (dst @ map (\<lambda>i. byte_at pm as (va + of_nat i)) [0..<c])
        = Ret (pm, STATUS_SUCCESS, (dst @ map (\<lambda>i. byte_at pm as (va + of_nat i)) [0..<c]) @ map (\<lambda>i. byte_at pm as (va + of_nat c + of_nat i)) [0..<n - c])"
      using less.prems(4) c by (intro less.IH less.prems(1-3)) (auto simp: sh simp del: of_nat_add)
    moreover have "[0..<n] = [0..<c] @ map ((+) c) [0..<n - c]" by (rule nth_equalityI) (use c(1) in \<open>auto simp: nth_append\<close>)
    ultimately show ?thesis
      using False C by (simp add: read_loop.simps[of pm as va] Let_def c_def[symmetric] read_chunk[OF c(2)] sh del: of_nat_add)
  qed
qed

lemma read_loop_quiet:
  assumes "forest pm R" "as_cr3 as \<in> R" "user_as as" "read_loop pm as va n dst = Ret (pm', st, bs)"
  shows "quiet R (as_cr3 as) pm pm'"
  using assms
proof (induction pm as va n dst rule: read_loop.induct)
  case (1 pm as va n dst)
  note r = "1.prems"(4)[unfolded read_loop.simps[of pm]]
  show ?case
  proof (cases "n = 0")
    case True
    then show ?thesis using r "1.prems"(1) by (simp add: quiet_refl)
  next
    case ne: False
    obtain pm1 x where c: "copy_frame pm as va = Ret (pm1, x)" using r ne by (cases "copy_frame pm as va") auto
    note C = copy_frame_quiet(1)[OF "1.prems"(1-3) c]
    show ?thesis
    proof (cases x)
      case (Inl s)
      then show ?thesis using r ne c C by simp
    next
      case (Inr f)
      then have "read_loop pm1 as (va + of_nat (min n (page_room va))) (n - min n (page_room va))
          (dst @ ram_read (g_ram pm1) (f + (va AND PAGE_MASK)) (min n (page_room va))) = Ret (pm', st, bs)" using r ne c by (simp add: Let_def)
      from "1.IH"[OF ne c refl Inr refl quiet_forest[OF C] "1.prems"(2,3) this] show ?thesis by (intro quiet_trans[OF _ C]) simp_all
    qed
  qed
qed

section \<open>Copies return\<close>

text \<open>On such a memory nothing here can panic: every frame given back is one that was handed out.\<close>

lemma free_returns: "mem_ok pm \<Longrightarrow> (pa, 0) \<in> pmm_owned pm \<Longrightarrow> \<exists>pm'. pmm_free pm pa 0 = Ret pm'"
  using pmm.free_ok[of pm pa 0] by (auto simp: mem_ok_def)

lemma ensure_returns:
  assumes "forest pm R" "r \<in> R" "user va" "tab pm r 3 va = None"
  shows "\<exists>x. ensure_loop k pm r va = Ret x"
  using assms
proof (induction k arbitrary: pm)
  case (Suc k)
  obtain pm1 n where a: "pmm_alloc pm 0 (PMM_KERNEL OR PMM_ZERO) = (pm1, n)" by (cases "pmm_alloc pm 0 (PMM_KERNEL OR PMM_ZERO)")
  show ?case
  proof (cases "n = PMM_INVALID")
    case True
    then show ?thesis using a by (simp add: pt_alloc_def)
  next
    case False
    obtain pm2 used where w: "walk_fill_one pm1 r va n = (pm2, used)" by (cases "walk_fill_one pm1 r va n")
    note f = fill_quiet[OF Suc.prems(1-4) a False _ w, simplified]
    note W = walk_tab[OF quiet_forest[OF f(2)] Suc.prems(2,3)]
    show ?thesis
    proof (cases "tab pm2 r 3 va")
      case None
      then show ?thesis using Suc.IH[OF quiet_forest[OF f(2)] Suc.prems(2,3) None] a False w f(1) W by (simp add: pt_alloc_def)
    next
      case (Some t)
      then show ?thesis using a False w f(1) W by (simp add: pt_alloc_def)
    qed
  qed
qed simp

lemma leaf_returns:
  assumes "forest pm R" "r \<in> R" "user va"
  shows "\<exists>x. vmm_ensure_leaf pm r va = Ret x"
  using ensure_returns[OF assms] walk_tab[OF assms] by (cases "tab pm r 3 va") (auto simp: vmm_ensure_leaf_def)

lemma place_returns: "mem_ok pm \<Longrightarrow> (pa, 0) \<in> pmm_owned pm \<Longrightarrow> \<exists>pm'. place_page pm pte page prot pa = Ret pm'"
proof -
  assume a: "mem_ok pm" "(pa, 0) \<in> pmm_owned pm"
  have "mem_ok (pte_put pm pte v)" "(pa, 0) \<in> pmm_owned (pte_put pm pte v)" for v
    using a by (simp_all add: pte_put_def mem_ok_def zero_kept_def mem_bounded_def phys_of_def)
  then show ?thesis using free_returns a by (simp add: place_page_def Let_def)
qed

lemma populate_returns:
  assumes F: "forest pm R" and r: "as_cr3 as \<in> R" and u: "user_as as"
  shows "\<exists>x. vmm_populate_page pm as page w = Ret x"
proof (cases "vad_lookup as page")
  case None
  then show ?thesis by (simp add: vmm_populate_page_def)
next
  case (Some i)
  note up = user_as_lookup[OF u Some]
  obtain pm1 pa where a: "pmm_alloc pm 0 (PMM_USER OR PMM_ZERO) = (pm1, pa)" by (cases "pmm_alloc pm 0 (PMM_USER OR PMM_ZERO)")
  have tail: "\<exists>x. bind_outcome (vmm_ensure_leaf pm1 (as_cr3 as) page) (\<lambda>(pm2, st).
      if \<not> NT_SUCCESS st then bind_outcome (pmm_free pm2 pa 0) (\<lambda>pm3. Ret (pm3, st))
      else case walk pm2 (as_cr3 as) page of
             None \<Rightarrow> bind_outcome (pmm_free pm2 pa 0) (\<lambda>pm3. Ret (pm3, STATUS_NO_MEMORY))
           | Some pte \<Rightarrow> bind_outcome (place_page pm2 pte page (v_prot (as_vads as ! i)) pa) (\<lambda>pm3. Ret (pm3, STATUS_SUCCESS))) = Ret x"
    if ok: "pa \<noteq> PMM_INVALID"
  proof -
    have z: "(PMM_USER OR PMM_ZERO) AND PMM_ZERO \<noteq> (0 :: u32)" by simp
    have m: "mem_ok pm" using F by (simp add: forest_def)
    note Q = quiet_alloc(3)[OF F a ok z]
    obtain pm2 st where e: "vmm_ensure_leaf pm1 (as_cr3 as) page = Ret (pm2, st)" using leaf_returns[OF Q r up] by auto
    note L = leaf_quiet(1)[OF Q r up e]
    have "mem_ok pm2" "(pa, 0) \<in> pmm_owned pm2" using quiet_forest[OF L] quiet_owned[OF L] alloc_page(2)[OF m a ok z] by (simp_all add: forest_def)
    note R = free_returns[OF this] place_returns[OF this]
    obtain pm3 where f: "pmm_free pm2 pa 0 = Ret pm3" using R(1) by blast
    show ?thesis
    proof (cases "walk pm2 (as_cr3 as) page")
      case None
      then show ?thesis using e f by simp
    next
      case (Some pte)
      obtain pm4 where "place_page pm2 pte page (v_prot (as_vads as ! i)) pa = Ret pm4" using R(2) by blast
      then show ?thesis using e f Some by simp
    qed
  qed
  have place: "bind_outcome (place_page pm2 pte page prot pa) (\<lambda>pm3. Ret (pm3, STATUS_SUCCESS)) =
     (if pte_get pm2 pte AND PTE_P \<noteq> 0 then bind_outcome (pmm_free pm2 pa 0) (\<lambda>pm3. Ret (pm3, STATUS_SUCCESS))
      else let parked = pte_get pm2 pte AND PTE_ADDR
           in if parked \<noteq> 0 then bind_outcome (pmm_free (pte_put pm2 pte (parked OR pte_flags_from_prot prot)) pa 0) (\<lambda>pm3. Ret (pm3, STATUS_SUCCESS))
              else Ret (pte_put pm2 pte (pa OR pte_flags_from_prot prot), STATUS_SUCCESS))" for pm2 pte prot
    by (simp add: place_page_def Let_def)
  show ?thesis unfolding vmm_populate_page_def walk_leaf[OF F r up] Some
    using a tail[unfolded place] by (simp add: Let_def)
qed

lemma copy_frame_returns:
  assumes "forest pm R" "as_cr3 as \<in> R" "user_as as"
  obtains pm' x where "copy_frame pm as va = Ret (pm', x)"
proof -
  obtain pm1 st where "vmm_populate_page pm as (PAGE_ALIGN_DOWN va) False = Ret (pm1, st)" using populate_returns[OF assms] by fast
  then have "\<exists>pm' x. copy_frame pm as va = Ret (pm', x)" by (simp add: copy_frame_def split: option.split)
  then show ?thesis using that by blast
qed

lemma write_loop_returns:
  assumes "forest pm R" "as_cr3 as \<in> R" "user_as as"
  shows "\<exists>x. write_loop pm as va src = Ret x"
  using assms
proof (induction pm as va src rule: write_loop.induct)
  case (1 pm as va src)
  show ?case
  proof (cases "src = []")
    case True
    then show ?thesis by (simp add: write_loop.simps)
  next
    case ne: False
    obtain pm1 x where c: "copy_frame pm as va = Ret (pm1, x)" by (rule copy_frame_returns[OF "1.prems"])
    note C = copy_frame_quiet[OF "1.prems" c]
    show ?thesis
    proof (cases x)
      case (Inl s)
      then show ?thesis using ne c by (simp add: write_loop.simps)
    next
      case (Inr f)
      have y: "ready pm1 as va" "f = frame_of pm1 as va" using C(3)[OF Inr] by simp_all
      have l: "length (take (min (length src) (page_room va)) src) \<le> page_room va" by simp
      note W = write_chunk(1)[OF quiet_forest[OF C(1)] "1.prems"(2) y(1) l refl, folded y(2)]
      from "1.IH"[OF ne c refl Inr refl quiet_forest[OF W] "1.prems"(2,3)] show ?thesis
        using ne c Inr by (simp add: write_loop.simps[of pm] Let_def)
    qed
  qed
qed

lemma read_loop_returns:
  assumes "forest pm R" "as_cr3 as \<in> R" "user_as as"
  shows "\<exists>x. read_loop pm as va n dst = Ret x"
  using assms
proof (induction pm as va n dst rule: read_loop.induct)
  case (1 pm as va n dst)
  show ?case
  proof (cases "n = 0")
    case True
    then show ?thesis by (simp add: read_loop.simps)
  next
    case ne: False
    obtain pm1 x where c: "copy_frame pm as va = Ret (pm1, x)" by (rule copy_frame_returns[OF "1.prems"])
    note C = copy_frame_quiet(1)[OF "1.prems" c]
    show ?thesis
    proof (cases x)
      case (Inl s)
      then show ?thesis using ne c by (simp add: read_loop.simps)
    next
      case (Inr f)
      from "1.IH"[OF ne c refl Inr refl quiet_forest[OF C] "1.prems"(2,3)] show ?thesis
        using ne c Inr by (simp add: read_loop.simps[of pm] Let_def)
    qed
  qed
qed

end
