(* ===== verification/Isolation.thy ===== *)
theory Isolation
  imports Paging
begin

text \<open>
  What a program can reach of memory through the kernel: the copies of the system calls stay in its address space, what they
  write is what they read back, and a new address space shares nothing with the ones there are.
\<close>

section \<open>The copies of the system calls\<close>

lemma probe_bound:
  assumes "vmm_probe_user as va n w" "n \<le> COPY_MAX"
  shows "unat va + unat n \<le> 2 ^ 63"
proof -
  have "va \<le> USER_CANONICAL_TOP" using assms(1) by (auto simp: vmm_probe_user_def split: if_splits)
  then show ?thesis using assms(2) by (simp add: word_le_nat_alt)
qed

lemma copyout_adds:
  assumes "forest pm R" "as_cr3 as \<in> R" "user_as as"
  shows "\<exists>pm' st. copyout pm (Some as) va src = Ret (pm', st) \<and> adds 4 R (as_cr3 as) pm pm'
    \<and> (NT_SUCCESS st \<longrightarrow> (\<forall>i<length src. ready pm' as (va + of_nat i) \<and> byte_at pm' as (va + of_nat i) = src ! i))"
proof (cases "src = [] \<or> length src > unat COPY_MAX \<or> \<not> vmm_probe_user as va (of_nat (length src)) True")
  case True
  then show ?thesis using quiet_adds[OF quiet_refl[OF assms(1)]] by (auto simp: copyout_def NT_SUCCESS_def)
next
  case False
  have l: "length src \<le> 0x100000" using False by simp
  then have n: "unat (of_nat (length src) :: u64) = length src" by (simp add: unat_of_nat take_bit_nat_eq_self)
  have "unat va + length src \<le> 2 ^ 63" using probe_bound[of as va "of_nat (length src)" True] False l n by (simp add: word_le_nat_alt)
  note W = write_loop_adds[OF assms this]
  obtain pm' st where w: "write_loop pm as va src = Ret (pm', st)" using write_loop_returns[OF assms] by fast
  then have "copyout pm (Some as) va src = Ret (pm', st)" using False by (simp add: copyout_def vmm_write_aspace_def)
  then show ?thesis using W[OF w] by blast
qed

lemma copyin_quiet:
  assumes "forest pm R" "as_cr3 as \<in> R" "user_as as"
  shows "\<exists>pm' st bs. copyin pm (Some as) va n = Ret (pm', st, bs) \<and> quiet R (as_cr3 as) pm pm'"
proof (cases "n = 0 \<or> n > COPY_MAX \<or> \<not> vmm_probe_user as va n False")
  case True
  then show ?thesis using quiet_refl[OF assms(1)] by (auto simp: copyin_def)
next
  case False
  obtain pm' st bs where r: "read_loop pm as va (unat n) [] = Ret (pm', st, bs)" using read_loop_returns[OF assms] by (metis prod_cases3)
  then have "copyin pm (Some as) va n = Ret (pm', st, bs)" using False by (simp add: copyin_def vmm_read_aspace_def unat_eq_0)
  then show ?thesis using read_loop_quiet[OF assms r] by blast
qed

text \<open>A writable page is readable.\<close>

lemma page_ok_write: "page_ok as True p \<Longrightarrow> page_ok as False p"
proof -
  have "prot_readable prot" if "prot_writable prot" for prot
  proof -
    have "prot AND 0x44 = (prot AND 0x76) AND 0x44" by (simp add: and.assoc)
    then show ?thesis using that by (auto simp: prot_writable_def prot_readable_def)
  qed
  then show "page_ok as True p \<Longrightarrow> page_ok as False p" by (auto simp: page_ok_def Let_def split: option.splits)
qed

lemma probe_loop_write: "probe_loop as True p e \<Longrightarrow> probe_loop as False p e"
proof (induction as "True" p e rule: probe_loop.induct)
  case (1 as p e)
  then show ?case by (simp add: probe_loop.simps[of as _ p] page_ok_write split: if_splits)
qed

lemma probe_write: "vmm_probe_user as va n True \<Longrightarrow> vmm_probe_user as va n False"
  by (auto simp: vmm_probe_user_def probe_loop_write split: if_splits)

lemma copyout_copyin:
  assumes "forest pm R" "as_cr3 as \<in> R" "user_as as" "copyout pm (Some as) va src = Ret (pm', st)" "NT_SUCCESS st"
  shows "copyin pm' (Some as) va (of_nat (length src)) = Ret (pm', STATUS_SUCCESS, src)"
proof (cases "src = []")
  case True
  then show ?thesis by (simp add: copyin_def)
next
  case False
  have g: "length src \<le> unat COPY_MAX" "vmm_probe_user as va (of_nat (length src)) True"
    using assms(4,5) False by (auto simp: copyout_def NT_SUCCESS_def split: if_splits)
  then have n: "unat (of_nat (length src) :: u64) = length src" by (simp add: unat_of_nat take_bit_nat_eq_self)
  have A: "adds 4 R (as_cr3 as) pm pm'" "\<forall>i<length src. ready pm' as (va + of_nat i) \<and> byte_at pm' as (va + of_nat i) = src ! i"
    using copyout_adds[OF assms(1-3), of va src] assms(4,5) by auto
  have "map (\<lambda>i. byte_at pm' as (va + of_nat i)) [0..<length src] = src" using A(2) by (intro nth_equalityI) simp_all
  then have "read_loop pm' as va (length src) [] = Ret (pm', STATUS_SUCCESS, src)"
    using read_loop_ready[OF quiet_forest[OF A(1)] assms(2,3), of "length src" va "[]"] A(2) by simp
  moreover have "\<not> of_nat (length src) > COPY_MAX" "of_nat (length src) \<noteq> (0 :: u64)" using n g(1) False by (auto simp: word_less_nat_alt)
  ultimately show ?thesis using probe_write[OF g(2)] n False by (simp add: copyin_def vmm_read_aspace_def)
qed

section \<open>A new address space\<close>

lemma user_index: "user va \<Longrightarrow> pt_index 4 va < 256"
proof -
  assume "user va"
  then have "unat va < 2 ^ 47" by (simp add: user_def word_less_nat_alt)
  then have "unat va div 2 ^ 39 < 2 ^ 8" by (simp add: less_mult_imp_div_less)
  then have "unat (drop_bit 39 va) < 256" by (simp add: drop_bit_eq_div unat_div)
  moreover have "unat (pt_index 4 va) \<le> unat (drop_bit 39 va)" unfolding pt_index_def by (simp add: word_le_nat_alt[symmetric] word_and_le2)
  ultimately show "pt_index 4 va < 256" by (simp add: word_less_nat_alt)
qed

text \<open>The copy of the kernel half of the root changes nothing but that half.\<close>

definition only_kernel_half :: "pmm \<Rightarrow> phys_t \<Rightarrow> pmm \<Rightarrow> bool" where
  "only_kernel_half pm cr3 pm' \<longleftrightarrow> (\<exists>m. pm' = pm\<lparr>g_ram := m\<rparr>) \<and> (\<forall>a. \<not> in_frame cr3 a \<longrightarrow> g_ram pm' a = g_ram pm a)
     \<and> (\<forall>x<256. pte_get pm' (cr3 + 8 * x) = pte_get pm (cr3 + 8 * x))"

lemma kernel_half_put:
  assumes "paged cr3" "256 \<le> i" "i < 512" "only_kernel_half pm cr3 pm'"
  shows "only_kernel_half pm cr3 (pte_put pm' (cr3 + 8 * of_nat i) v)"
proof -
  have i: "(of_nat i :: u64) < 512" "\<not> (of_nat i :: u64) < 256" using assms(2,3) by (simp_all add: word_less_nat_alt unat_of_nat take_bit_nat_eq_self)
  have "pte_get (pte_put pm' (cr3 + 8 * of_nat i) v) (cr3 + 8 * x) = pte_get pm' (cr3 + 8 * x)" if "x < 256" for x
    using that i by (intro pte_get_other[OF assms(1,1) i(1)]) (auto simp: word_less_nat_alt)
  moreover have "g_ram (pte_put pm' (cr3 + 8 * of_nat i) v) a = g_ram pm' a" if "\<not> in_frame cr3 a" for a
    by (rule pte_put_ram[OF assms(1) i(1) that])
  ultimately show ?thesis using assms(4) by (auto simp: only_kernel_half_def pte_put_def)
qed

lemma kernel_half_copy:
  assumes "paged cr3"
  shows "only_kernel_half pm cr3 (fold (\<lambda>i pm. pt_put cr3 i (pte_get pm (kcr3 + 8 * of_nat i)) pm) [KERNEL_PML4_START..<512] pm)"
proof (rule fold_invariant[where Q = "\<lambda>i. 256 \<le> i \<and> i < 512"])
  show "only_kernel_half pm cr3 pm" by (auto simp: only_kernel_half_def intro: exI[of _ "g_ram pm"])
next
  fix i :: nat and pm' assume "256 \<le> i \<and> i < 512" "only_kernel_half pm cr3 pm'"
  then show "only_kernel_half pm cr3 (pt_put cr3 i (pte_get pm' (kcr3 + 8 * of_nat i)) pm')"
    unfolding pt_put_def using kernel_half_put[OF assms] by simp
qed (simp only: set_upt atLeastLessThan_iff)

text \<open>A root whose user half is empty, added to the address spaces there are.\<close>

lemma forest_insert:
  assumes F: "forest pm R" and n: "(n, 0) \<in> pmm_owned pm" "\<forall>r\<in>R. \<forall>d\<le>4. \<forall>va. user va \<longrightarrow> tab pm r d va \<noteq> Some n"
    and z: "\<forall>x<256. pte_get pm (n + 8 * x) = 0"
  shows "forest pm (insert n R)" "user va \<Longrightarrow> tab pm n (Suc d) va = None"
proof -
  have below: "tab pm n (Suc d) va = None" if "user va" for d va
  proof -
    have "tab pm n 1 va = None" using z user_index[OF that] by (simp add: pt_slot_def)
    then show ?thesis by (rule tab_below_None) simp
  qed
  show "user va \<Longrightarrow> tab pm n (Suc d) va = None" by (rule below)
  have root: "tab pm n d va = Some f \<longleftrightarrow> d = 0 \<and> f = n" if "user va" for d va f using below[OF that] by (cases d) auto
  have r: "n \<notin> R" using n(2) by (force simp: user_def dest: bspec[of _ _ n] spec[of _ 0])
  have own: "(f, 0) \<in> pmm_owned pm" if "r \<in> insert n R" "d \<le> 4" "user va" "tab pm r d va = Some f" for r d va f
    using that root forest_owned[OF F] n(1) by auto
  have place: "r = r' \<and> d = d' \<and> key d va = key d va'"
    if "r \<in> insert n R" "r' \<in> insert n R" "d \<le> 4" "d' \<le> 4" "user va" "user va'" "tab pm r d va = Some f" "tab pm r' d' va' = Some f" for r r' d d' va va' f
    using that root n(2) forest_place[OF F _ _ that(3-8)] by (auto simp: key_user)
  have small: "pte_get pm (pt_slot t 2 va) AND PTE_PS = 0" if "r \<in> insert n R" "user va" "tab pm r 2 va = Some t" for r va t
    using that root forest_small[OF F] by auto
  have "trees pm (insert n R)" unfolding trees_def
    by (rule conjI, intro ballI allI impI, rule own; assumption?)
      (rule conjI; intro ballI allI impI; rule place small; assumption)
  then show "forest pm (insert n R)" using F by (simp add: forest_def)
qed

lemma aspace_init_adds:
  assumes F: "forest pm R" and v: "vmm_aspace_init pm kcr3 = Ret (pm', as)"
  shows "forest pm' (insert (as_cr3 as) R)" "as_cr3 as \<notin> fst ` pmm_owned pm" "pmm_owned pm' = insert (as_cr3 as, 0) (pmm_owned pm)"
    "(b, k) \<in> pmm_owned pm \<Longrightarrow> a \<in> page_range b k \<Longrightarrow> g_ram pm' a = g_ram pm a"
    "r \<in> R \<Longrightarrow> user va \<Longrightarrow> d \<le> 4 \<Longrightarrow> tab pm' r d va = tab pm r d va" "user va \<Longrightarrow> tab pm' (as_cr3 as) 4 va = None"
proof -
  obtain pm1 n where a: "pmm_alloc pm 0 (PMM_KERNEL OR PMM_ZERO) = (pm1, n)" by (cases "pmm_alloc pm 0 (PMM_KERNEL OR PMM_ZERO)")
  have ok: "n \<noteq> PMM_INVALID" and n: "as_cr3 as = n" using v a by (auto simp: vmm_aspace_init_def pt_alloc_def Let_def simp del: upt_rec_numeral split: if_splits)
  have z: "(PMM_KERNEL OR PMM_ZERO) AND PMM_ZERO \<noteq> (0 :: u32)" by simp
  have m: "mem_ok pm" using F by (simp add: forest_def)
  note A = alloc_page[OF m a ok z] and Q = quiet_alloc[OF F a ok z]
  have o: "(n, 0) \<in> pmm_owned pm1" using A(2) by simp
  note pn = owned_frame(1)[OF A(1) o]
  have same: "pm1\<lparr>g_ram := (\<lambda>a. if unat (a - n) < 4096 then 0 else g_ram pm1 a)\<rparr> = pm1" using A(4) by (auto simp: in_frame_def intro!: pmm.equality ext)
  have k: "only_kernel_half pm1 n pm'" using v a ok kernel_half_copy[OF pn, of pm1 kcr3] same by (auto simp: vmm_aspace_init_def pt_alloc_def Let_def simp del: upt_rec_numeral)
  then obtain mm where mm: "pm' = pm1\<lparr>g_ram := mm\<rparr>" by (auto simp: only_kernel_half_def)
  have own: "pmm_owned pm' = pmm_owned pm1" "mem_ok pm'" using A(1) by (simp_all add: mm mem_ok_def zero_kept_def mem_bounded_def phys_of_def)
  have ram: "g_ram pm' x = g_ram pm x" if "(b, k) \<in> pmm_owned pm" "x \<in> page_range b k" for b k x
  proof -
    have "\<not> in_frame n x" using block_apart(1)[OF A(1) o, of b k x] that A(2,3) by force
    then show ?thesis using k A(4) by (simp add: only_kernel_half_def)
  qed
  have ram': "g_ram pm' x = g_ram pm x" if "r \<in> R" "user va" "d \<le> 3" "tab pm r d va = Some t" "in_frame t x" for r va d t x
    using ram[OF forest_owned[OF F that(1) _ that(2,4)]] that(3,5) by (simp add: page_range_frame)
  have own': "(f, 0) \<in> pmm_owned pm'" if "r \<in> R" "d \<le> 4" "user va" "tab pm r d va = Some f" for r d va f
    using forest_owned[OF F that] A(2) own by simp
  have T: "tab pm' r d va = tab pm r d va" if "r \<in> R" "user va" "d \<le> 4" for r va d
    using that by (rule same_ram_forest(1)[OF F own(2) own' ram', rotated -3])
  show "as_cr3 as \<notin> fst ` pmm_owned pm" using A(3) n by simp
  show "pmm_owned pm' = insert (as_cr3 as, 0) (pmm_owned pm)" using own A(2) n by simp
  show "(b, k) \<in> pmm_owned pm \<Longrightarrow> a \<in> page_range b k \<Longrightarrow> g_ram pm' a = g_ram pm a" by (rule ram)
  show "r \<in> R \<Longrightarrow> user va \<Longrightarrow> d \<le> 4 \<Longrightarrow> tab pm' r d va = tab pm r d va" by (rule T)
  have FF: "forest pm' R" by (rule same_ram_forest(2)[OF F own(2) own' ram'])
  have fresh: "\<forall>r\<in>R. \<forall>d\<le>4. \<forall>va. user va \<longrightarrow> tab pm' r d va \<noteq> Some n"
    using T forest_owned[OF F] A(3) by force
  have zero: "\<forall>x<256. pte_get pm' (n + 8 * x) = 0"
    using k alloc_zero[OF m a ok z] by (simp add: only_kernel_half_def word_less_nat_alt)
  have o': "(n, 0) \<in> pmm_owned pm'" using o own by simp
  note I = forest_insert[OF FF o' fresh zero]
  show "forest pm' (insert (as_cr3 as) R)" using I(1) n by simp
  show "user va \<Longrightarrow> tab pm' (as_cr3 as) 4 va = None" using I(2)[of va 3] n by (simp add: eval_nat_numeral)
qed

section \<open>A small memory\<close>

text \<open>
  Six frames from \<open>0x1000\<close>, all handed out: the root of an address space, its three tables for the address 0 and the page there,
  and the root of an address space with nothing in it.
\<close>

definition blank_memory :: pmm where
  "blank_memory = \<lparr>g_frames = replicate 6 \<lparr>fr_order = 0, fr_state = FRAME_KERNEL, fr_next = NIL\<rparr>, g_nframes = 6, g_phys_base = 0x1000,
     g_free_head = replicate 19 NIL, g_free_pages = 0, g_total_avail = 6, g_hhdm_live = True, g_frames_phys = 0x200000, g_ram = (\<lambda>_. 0)\<rparr>"

definition demo_memory :: pmm where
  "demo_memory = pte_put (pte_put (pte_put (pte_put blank_memory 0x1000 0x2007) 0x2000 0x3007) 0x3000 0x4007) 0x4000 0x5007"

lemma blank_sel:
  "g_nframes blank_memory = 6" "g_phys_base blank_memory = 0x1000" "g_free_pages blank_memory = 0" "g_free_head blank_memory = replicate 19 NIL"
  "length (g_frames blank_memory) = 6" "h < 6 \<Longrightarrow> g_frames blank_memory ! h = \<lparr>fr_order = 0, fr_state = FRAME_KERNEL, fr_next = NIL\<rparr>"
  by (simp_all add: blank_memory_def)

lemma blank_phys: "h < 6 \<Longrightarrow> unat (phys_of blank_memory h) = 4096 * (h + 1)"
  by (simp add: phys_of_def blank_sel push_bit_eq_mult unat_word_ariths unat_of_nat take_bit_nat_eq_self)

lemma blank_sets: "alloc_set blank_memory = (\<lambda>h. (h, 0, FRAME_KERNEL)) ` {..<6}" "free_set blank_memory = {}"
  by (auto simp: alloc_set_def alloc_blocks_def free_set_def free_frames_def blank_sel)

lemma blank_owned: "(a, k) \<in> pmm_owned blank_memory \<longleftrightarrow> k = 0 \<and> a \<in> {0x1000, 0x2000, 0x3000, 0x4000, 0x5000, 0x6000}"
proof -
  have "{..<6} = {0, 1, 2, 3, 4, 5 :: nat}" by auto
  then show ?thesis by (auto simp: pmm_owned_def blank_sets phys_of_def blank_sel push_bit_eq_mult)
qed

lemma blank_ok: "mem_ok blank_memory"
proof -
  have "free_heads blank_memory 0 6 k = {}" for k by (auto simp: free_heads_def blank_sel)
  then have l: "lists_ok blank_memory 6 {}"
    unfolding lists_ok_def blank_sel by (auto intro!: exI[of _ "[]"])
  have "region blank_memory 0 6" unfolding region_def by (auto simp: block_ok_def blank_sel)
  then have "pmm_inv blank_memory" using l by (simp add: pmm_inv_def pmm_core_def dims_def blank_sel blank_sets)
  moreover have "mem_bounded blank_memory" by (simp add: mem_bounded_def blank_sel)
  moreover have "phys_of blank_memory h \<noteq> 0" if "h < 6" for h using blank_phys[OF that] by (auto simp: word_unat_eq_iff)
  then have "zero_kept blank_memory" by (auto simp: zero_kept_def blank_sets)
  ultimately show ?thesis by (simp add: mem_ok_def)
qed

definition demo_roots :: "phys_t set" where "demo_roots = {0x1000, 0x6000}"

definition fr :: "nat \<Rightarrow> phys_t" where "fr d = of_nat ((d + 1) * 4096)"

lemma fr_eq: "fr 0 = 0x1000" "fr 1 = 0x2000" "fr 2 = 0x3000" "fr 3 = 0x4000" "fr 4 = 0x5000"
  by (simp_all add: fr_def)

lemma fr_inj: "d \<le> 5 \<Longrightarrow> e \<le> 5 \<Longrightarrow> fr d = fr e \<longleftrightarrow> d = e"
  by (simp add: fr_def word_unat_eq_iff unat_word_ariths unat_of_nat take_bit_nat_eq_self)

text \<open>The tree for the address 0 down to depth \<open>k\<close>.\<close>

definition chain :: "pmm \<Rightarrow> nat \<Rightarrow> bool" where
  "chain pm k \<longleftrightarrow> forest pm demo_roots \<and> pmm_owned pm = pmm_owned blank_memory
     \<and> (\<forall>r\<in>demo_roots. \<forall>d\<le>4. \<forall>va. user va \<longrightarrow>
          tab pm r d va = (if d = 0 then Some r else if r = 0x1000 \<and> d \<le> k \<and> key d va = key d 0 then Some (fr d) else None))"

lemma chain_step:
  assumes C: "chain pm k" and k: "k < 4" and z: "k < 3 \<longrightarrow> (\<forall>x<512. pte_get pm (fr (Suc k) + 8 * x) = 0)"
    and v: "v AND PTE_ADDR = fr (Suc k)" "v AND PTE_P \<noteq> 0" "v AND PTE_PS = 0"
  shows "chain (pte_put pm (fr k) v) (Suc k)"
proof -
  have F: "forest pm demo_roots" and o: "pmm_owned pm = pmm_owned blank_memory" using C by (auto simp: chain_def)
  have T: "tab pm r d va = (if d = 0 then Some r else if r = 0x1000 \<and> d \<le> k \<and> key d va = key d 0 then Some (fr d) else None)"
      if "r \<in> demo_roots" "d \<le> 4" "user va" for r d va using C that by (auto simp: chain_def)
  have r: "(0x1000 :: phys_t) \<in> demo_roots" by (simp add: demo_roots_def)
  have u: "user 0" by (simp add: user_def)
  have "pt_slot (fr k) (4 - k) 0 = fr k" by (simp add: pt_slot_def pt_index_def)
  then have slot: "pte_put pm (fr k) v = pte_put pm (pt_slot (fr k) (4 - k) 0) v" by simp
  have k3: "k \<le> 3" using k by simp
  have t0: "tab pm 0x1000 k 0 = Some (fr k)" using T[OF r _ u, of k] k fr_eq(1) by auto
  have none: "tab pm 0x1000 (Suc k) 0 = None" using T[OF r _ u, of "Suc k"] k by simp
  have nf: "next_frame k v = Some (fr (Suc k))" using v by (simp add: next_frame_def)
  have "k = 0 \<or> k = 1 \<or> k = 2 \<or> k = 3" using k by auto
  then have fk: "fr (Suc k) \<in> {0x2000, 0x3000, 0x4000, 0x5000}" by (elim disjE) (simp_all add: fr_def)
  then have own: "(fr (Suc k), 0) \<in> pmm_owned pm" using o blank_owned[of "fr (Suc k)" 0] by auto
  have fresh: "tab pm r d va \<noteq> Some (fr (Suc k))" if "r \<in> demo_roots" "d \<le> 4" "user va" for r d va
    using T[OF that] that(1) fk fr_inj[of d "Suc k"] k by (auto simp: demo_roots_def)
  have m: "mem_ok pm" using F by (simp add: forest_def)
  have ne: "fr (Suc k) \<noteq> fr k" using fr_inj[of "Suc k" k] k by simp
  have ff: "forest (pte_put pm (fr k) v) demo_roots" unfolding slot
    by (rule put_new_forest[OF F r u k3 t0 none nf own fresh z]) (simp_all add: v)
  have tt: "tab (pte_put pm (fr k) v) r d va = (if d = 0 then Some r else if r = 0x1000 \<and> d \<le> Suc k \<and> key d va = key d 0 then Some (fr d) else None)"
    if "r \<in> demo_roots" "d \<le> 4" "user va" for r d va
    unfolding slot put_new_tab[OF F r u k3 t0 none nf ne owned_frame(1)[OF m own] z that(1,3,2)] using T[OF that] by (auto simp: le_Suc_eq)
  show ?thesis using ff tt o by (auto simp: chain_def pte_put_def)
qed

lemmas chain_next = chain_step[unfolded Suc_eq_plus1]

lemma blank_entry: "pte_get blank_memory a = 0"
proof -
  have "pte_get blank_memory a = le_bytes 8 (\<lambda>i. 0)" by (simp add: pte_get_def rd64_def blank_memory_def)
  then show ?thesis by (simp add: eval_nat_numeral)
qed

lemma blank_chain: "chain blank_memory 0"
proof -
  have "forest blank_memory {}" using blank_ok by (simp add: forest_def trees_def)
  then have A: "forest blank_memory {0x6000}" "user va \<Longrightarrow> tab blank_memory 0x6000 (Suc d) va = None" for va d
    using forest_insert[of blank_memory "{}" "0x6000"] by (simp_all add: blank_owned blank_entry)
  have "tab blank_memory 0x6000 d va \<noteq> Some 0x1000" if "user va" for d va using A(2)[OF that] by (cases d) auto
  then have B: "forest blank_memory demo_roots" "\<And>va d. user va \<Longrightarrow> tab blank_memory 0x1000 (Suc d) va = None"
    using forest_insert[OF A(1), of "0x1000"] by (simp_all add: blank_owned blank_entry demo_roots_def)
  have "tab blank_memory r d va = (if d = 0 then Some r else None)" if "r \<in> demo_roots" "user va" for r d va
    using that A(2) B(2) by (cases d) (auto simp: demo_roots_def)
  then show ?thesis using B(1) by (auto simp: chain_def)
qed

lemma put_entry_zero:
  assumes "paged t" "paged t'" "t \<noteq> t'" "\<forall>x<512. pte_get pm (t' + 8 * x) = 0"
  shows "\<forall>x<512. pte_get (pte_put pm t v) (t' + 8 * x) = 0"
  using pte_get_other[OF assms(1,2), of 0 _ pm v] assms(3,4) by simp

lemma demo_chain: "chain demo_memory 4"
proof -
  have p: "paged 0x1000" "paged 0x2000" "paged 0x3000" "paged 0x4000" by (simp_all add: paged_def)
  let ?a = "pte_put blank_memory 0x1000 0x2007"
  let ?b = "pte_put ?a 0x2000 0x3007"
  let ?c = "pte_put ?b 0x3000 0x4007"
  have z: "\<forall>x<512. pte_get ?a (0x3000 + 8 * x) = 0" "\<forall>x<512. pte_get ?a (0x4000 + 8 * x) = 0"
    by (rule put_entry_zero; simp add: p blank_entry)+
  have z': "\<forall>x<512. pte_get ?b (0x4000 + 8 * x) = 0" by (rule put_entry_zero[OF p(2,4) _ z(2)]) simp
  have a: "chain ?a 1" using chain_next[OF blank_chain, of "0x2007"] by (simp add: fr_def blank_entry)
  have b: "chain ?b 2" using chain_next[OF a, of "0x3007"] z(1) by (simp add: fr_def numeral_2_eq_2)
  have c: "chain ?c 3" using chain_next[OF b, of "0x4007"] z' by (simp add: fr_def)
  show ?thesis using chain_next[OF c, of "0x5007"] by (simp add: fr_def demo_memory_def)
qed

lemma demo_tab:
  "r \<in> demo_roots \<Longrightarrow> d \<le> 4 \<Longrightarrow> user va \<Longrightarrow>
     tab demo_memory r d va = (if d = 0 then Some r else if r = 0x1000 \<and> d \<le> 4 \<and> key d va = key d 0 then Some (fr d) else None)"
  using demo_chain by (simp add: chain_def)

definition demo_space :: aspace where
  "demo_space = \<lparr>as_cr3 = 0x1000, as_vads = [\<lparr>v_start = 0, v_end = 0x1000, v_prot = PAGE_READWRITE, v_type = MEM_COMMIT, v_committed = 1\<rparr>],
     as_committed = 1, as_brk = USER_HEAP_BASE, as_stack_base = USER_STACK_TOP - USER_STACK_SIZE\<rparr>"

lemma demo_forest: "forest demo_memory demo_roots" "as_cr3 demo_space \<in> demo_roots" "user_as demo_space"
  using demo_chain by (simp_all add: chain_def demo_space_def demo_roots_def user_as_def)

lemma demo_leaf: "leaf demo_memory 0x1000 0 = 0x5007"
proof -
  have "tab demo_memory 0x1000 3 0 = Some 0x4000" using demo_chain by (simp add: chain_def demo_roots_def user_def fr_def)
  moreover have "pte_get demo_memory 0x4000 = 0x5007" by (simp add: demo_memory_def pte_get_same)
  ultimately show ?thesis by (simp add: leaf_def pt_slot_def pt_index_def)
qed

lemma demo_copyout: "\<exists>pm'. copyout demo_memory (Some demo_space) 0x10 [1, 2, 3] = Ret (pm', STATUS_SUCCESS)"
proof -
  have l: "vad_lookup demo_space 0 = Some 0" by (simp add: vad_lookup_def demo_space_def vad_has_def)
  have d: "PAGE_ALIGN_DOWN 0x10 = 0" by (simp add: PAGE_ALIGN_DOWN_def)
  have "ready demo_memory demo_space 0x10" using l demo_leaf d
    by (simp add: ready_def open_page_def user_def) (simp add: demo_space_def)
  note C = copy_frame_ready[OF demo_forest this]
  have "vmm_probe_user demo_space 0x10 3 True" using l d
    by (simp add: vmm_probe_user_def probe_loop.simps page_ok_def prot_writable_def) (simp add: demo_space_def)
  then show ?thesis using C by (simp add: copyout_def vmm_write_aspace_def write_loop.simps page_room_def Let_def)
qed

section \<open>Properties\<close>

text \<open>C8. A system call that writes into a program's memory reaches that program's memory only.  With page tables that are trees of
  distinct pages, \<open>copyout\<close> returns, keeps them so, gives nothing back to the page allocator, and leaves every page and table of
  every other address space and every block in use that is not a page or table of this address space as it was; \<open>copyin\<close>
  moreover leaves the program's own pages as they were.\<close>

theorem copies_isolated:
  assumes "forest pm R" "as_cr3 as \<in> R" "user_as as"
  shows "(\<exists>pm' st. copyout pm (Some as) va src = Ret (pm', st) \<and> forest pm' R \<and> pmm_owned pm \<subseteq> pmm_owned pm'
      \<and> (\<forall>b k a. (b, k) \<in> pmm_owned pm \<longrightarrow> b \<notin> places 4 pm (as_cr3 as) \<longrightarrow> a \<in> page_range b k \<longrightarrow> g_ram pm' a = g_ram pm a)
      \<and> (\<forall>r\<in>R. \<forall>d\<le>4. \<forall>w. r \<noteq> as_cr3 as \<longrightarrow> user w \<longrightarrow> tab pm' r d w = tab pm r d w))
    \<and> (\<exists>pm' st bs. copyin pm (Some as) va n = Ret (pm', st, bs) \<and> forest pm' R \<and> pmm_owned pm \<subseteq> pmm_owned pm'
      \<and> (\<forall>b k a. (b, k) \<in> pmm_owned pm \<longrightarrow> b \<notin> places 3 pm (as_cr3 as) \<longrightarrow> a \<in> page_range b k \<longrightarrow> g_ram pm' a = g_ram pm a)
      \<and> (\<forall>r\<in>R. \<forall>d\<le>4. \<forall>w. r \<noteq> as_cr3 as \<longrightarrow> user w \<longrightarrow> tab pm' r d w = tab pm r d w))"
proof -
  have I: "forest pm' R \<and> pmm_owned pm \<subseteq> pmm_owned pm'
      \<and> (\<forall>b k a. (b, k) \<in> pmm_owned pm \<longrightarrow> b \<notin> places D pm (as_cr3 as) \<longrightarrow> a \<in> page_range b k \<longrightarrow> g_ram pm' a = g_ram pm a)
      \<and> (\<forall>r\<in>R. \<forall>d\<le>4. \<forall>w. r \<noteq> as_cr3 as \<longrightarrow> user w \<longrightarrow> tab pm' r d w = tab pm r d w)"
    if q: "adds D R (as_cr3 as) pm pm'" and D: "D \<le> 4" for D pm'
  proof (intro conjI quietD(1,2,5)[OF q] ballI allI impI)
    fix r and d :: nat and w assume "r \<in> R" "d \<le> 4" "r \<noteq> as_cr3 as" "user w"
    then show "tab pm' r d w = tab pm r d w" by (intro quiet_others[OF assms(1,2) _ _ D q])
  qed
  obtain pm1 st1 where c1: "copyout pm (Some as) va src = Ret (pm1, st1)" "adds 4 R (as_cr3 as) pm pm1" using copyout_adds[OF assms, of va src] by blast
  obtain pm2 st2 bs where c2: "copyin pm (Some as) va n = Ret (pm2, st2, bs)" "adds 3 R (as_cr3 as) pm pm2" using copyin_quiet[OF assms, of va n] by blast
  show ?thesis
    by (rule conjI, (rule exI)+, rule conjI[OF c1(1) I[OF c1(2) order_refl]]) ((rule exI)+, rule conjI[OF c2(1) I[OF c2(2)]], simp)
qed

theorem copies_isolated_witness:
  "\<exists>pm' st. copyout demo_memory (Some demo_space) 0x10 [1, 2, 3] = Ret (pm', st) \<and> st = STATUS_SUCCESS \<and> forest pm' demo_roots
     \<and> g_ram pm' 0x6008 = g_ram demo_memory 0x6008 \<and> tab pm' 0x6000 1 0 = None"
proof -
  obtain pm' st where w: "copyout demo_memory (Some demo_space) 0x10 [1, 2, 3] = Ret (pm', st)" "forest pm' demo_roots"
    and ram: "\<forall>b k a. (b, k) \<in> pmm_owned demo_memory \<longrightarrow> b \<notin> places 4 demo_memory (as_cr3 demo_space) \<longrightarrow> a \<in> page_range b k \<longrightarrow> g_ram pm' a = g_ram demo_memory a"
    and tabs: "\<forall>r\<in>demo_roots. \<forall>d\<le>4. \<forall>w. r \<noteq> as_cr3 demo_space \<longrightarrow> user w \<longrightarrow> tab pm' r d w = tab demo_memory r d w"
    using copies_isolated[OF demo_forest, of "0x10" "[1, 2, 3]" 0] by (elim conjE exE)
  have "st = STATUS_SUCCESS" using demo_copyout w(1) by auto
  moreover have o: "(0x6000, 0) \<in> pmm_owned demo_memory" using demo_chain blank_owned[of "0x6000" 0] by (simp add: chain_def)
  have "fr d \<noteq> 0x6000" if "d \<le> 4" for d using that fr_inj[of d 5] by (simp add: fr_def)
  then have "0x6000 \<notin> places 4 demo_memory (as_cr3 demo_space)"
    using demo_tab[of "0x1000"] by (auto simp: places_def demo_space_def demo_roots_def split: if_splits)
  then have "g_ram pm' 0x6008 = g_ram demo_memory 0x6008" by (rule ram[rule_format, OF o]) (simp add: page_range_frame in_frame_def)
  moreover have "tab pm' 0x6000 1 0 = tab demo_memory 0x6000 1 0" by (rule tabs[rule_format]) (simp_all add: demo_roots_def demo_space_def user_def)
  moreover have "tab demo_memory 0x6000 1 0 = None" by (subst demo_tab) (simp_all add: demo_roots_def user_def)
  ultimately show ?thesis using w by auto
qed

text \<open>C10. What a system call writes into a program's memory is what the next one reads there: after a \<open>copyout\<close> that succeeds, \<open>copyin\<close> of
  the same range succeeds, returns the bytes written and changes nothing, also when the range spans several pages that had
  to be populated on the way.\<close>

theorem copy_roundtrip:
  assumes "forest pm R" "as_cr3 as \<in> R" "user_as as" "copyout pm (Some as) va src = Ret (pm', st)" "NT_SUCCESS st"
  shows "copyin pm' (Some as) va (of_nat (length src)) = Ret (pm', STATUS_SUCCESS, src)"
  by (rule copyout_copyin[OF assms])

theorem copy_roundtrip_witness:
  "\<exists>pm'. copyout demo_memory (Some demo_space) 0x10 [1, 2, 3] = Ret (pm', STATUS_SUCCESS)
     \<and> copyin pm' (Some demo_space) 0x10 3 = Ret (pm', STATUS_SUCCESS, [1, 2, 3])"
proof -
  obtain pm' where c: "copyout demo_memory (Some demo_space) 0x10 [1, 2, 3] = Ret (pm', STATUS_SUCCESS)" using demo_copyout by blast
  from copy_roundtrip[OF demo_forest c] show ?thesis using c by (simp add: NT_SUCCESS_def)
qed

text \<open>C11. A new address space shares nothing: when \<open>vmm_aspace_init\<close> returns, the page tables of the address spaces there were and of the
  new one are trees of distinct pages again, the new one maps no page of user space, its root is a page that was free, and
  every block that was in use and every other address space is as it was.\<close>

theorem aspace_init_isolated:
  assumes "forest pm R" "vmm_aspace_init pm kcr3 = Ret (pm', as)"
  shows "forest pm' (insert (as_cr3 as) R) \<and> user_as as \<and> as_cr3 as \<notin> fst ` pmm_owned pm \<and> pmm_owned pm' = insert (as_cr3 as, 0) (pmm_owned pm)
    \<and> (\<forall>w. user w \<longrightarrow> tab pm' (as_cr3 as) 4 w = None)
    \<and> (\<forall>b k a. (b, k) \<in> pmm_owned pm \<longrightarrow> a \<in> page_range b k \<longrightarrow> g_ram pm' a = g_ram pm a)
    \<and> (\<forall>r\<in>R. \<forall>d\<le>4. \<forall>w. user w \<longrightarrow> tab pm' r d w = tab pm r d w)"
proof -
  have "user_as as" using assms(2) by (auto simp: vmm_aspace_init_def user_as_def Let_def simp del: upt_rec_numeral split: if_splits prod.splits)
  then show ?thesis using aspace_init_adds[OF assms] by simp
qed


lemma demo_pmm_ok: "mem_ok demo_pmm"
proof -
  have "g_phys_base demo_pmm = 0x100000" "g_nframes demo_pmm = 2" by (simp_all add: demo_pmm_eq demo_raw_def)
  moreover have "phys_of demo_pmm p \<noteq> 0" if "p < 2" for p
    using that calculation by (auto simp: phys_of_def less_2_cases_iff)
  moreover have "free_set demo_pmm \<union> (\<Union>(h, k, x)\<in>alloc_set demo_pmm. {h..<h + 2 ^ k}) \<subseteq> {..<2}"
  proof -
    have "alloc_set demo_pmm = {}" by (auto simp: alloc_set_def alloc_blocks_def demo_pmm_eq demo_raw_def nth_Cons' split: if_splits)
    moreover have "free_set demo_pmm \<subseteq> {..<g_nframes demo_pmm}" using demo_pmm_inv free_set_bound[of demo_pmm "{}"] by (auto simp: pmm_inv_def)
    ultimately show ?thesis using \<open>g_nframes demo_pmm = 2\<close> by simp
  qed
  ultimately show ?thesis using demo_pmm_inv by (auto simp: mem_ok_def mem_bounded_def zero_kept_def)
qed

theorem aspace_init_isolated_witness:
  "\<exists>pm' as. vmm_aspace_init demo_pmm 0x100000 = Ret (pm', as) \<and> as_cr3 as = 0x100000 \<and> forest pm' {0x100000} \<and> tab pm' 0x100000 4 0 = None"
proof -
  have F: "forest demo_pmm {}" using demo_pmm_ok by (simp add: forest_def trees_def)
  have "snd (pmm_alloc demo_pmm 0 (PMM_KERNEL OR PMM_ZERO)) = 0x100000" unfolding demo_pmm_eq unfolding demo_raw_def by (simp add: pmm_eval)
  then obtain pm' as where v: "vmm_aspace_init demo_pmm 0x100000 = Ret (pm', as)" "as_cr3 as = 0x100000"
    by (cases "pmm_alloc demo_pmm 0 (PMM_KERNEL OR PMM_ZERO)") (auto simp: vmm_aspace_init_def pt_alloc_def Let_def simp del: upt_rec_numeral)
  have "user 0" by (simp add: user_def)
  then show ?thesis using v aspace_init_isolated[OF F v(1)] by auto
qed

end
