(* ===== verification/Spec2Isabelle.thy ===== *)
theory Spec2Isabelle
  imports Syscall_Dispatch Klist Spin Strings Fpu Kbd Handle_Correct Object_Correct Pipe_Correct Sync_Correct Timer_Correct Vmm_Correct Protect_Correct Elf_Correct Vfs_Correct Boot Userland Entry Trampoline Panic_Print Heap_Services Isolation
begin

text \<open>
  A verification development for \<^bold>\<open>Aegis\<close>, the kernel of jasOS: a preemptive single-processor x86-64 kernel in C with a
  handle-based system call interface, and the programs that run on it.

  \<^bold>\<open>The program.\<close>  \<^verbatim>\<open>kernel/ke/kmain.c\<close> reads the boot memory map and brings up, in this order, the page allocator
  (\<^verbatim>\<open>mm/pmm.c\<close>), the address spaces (\<^verbatim>\<open>mm/vmm.c\<close>), the heap (\<^verbatim>\<open>mm/heap.c\<close>), the object manager (\<^verbatim>\<open>ob/\<close>), the drivers (\<^verbatim>\<open>io/irp.c\<close>), the
  timers, the dispatcher (\<^verbatim>\<open>ke/sched.c\<close>) and the file system (\<^verbatim>\<open>fs/vfs.c\<close>), then starts the first process.  A user program
  enters through \<^verbatim>\<open>ke/syscall.c\<close>, which copies its arguments in, finds objects through the handle table of its process
  (\<^verbatim>\<open>ob/handle.c\<close>), and calls the component concerned; a thread that must wait is queued on a dispatcher object (\<^verbatim>\<open>ke/wait.c\<close>)
  and the dispatcher switches to the next ready thread.  The clock interrupt fires timers and charges quanta.

  \<^bold>\<open>State and effects.\<close>  The kernel state is the record \<open>kst\<close> of theory \<open>Kstate\<close>: the heap, which contains the page allocator
  and so physical memory, one store per structure type from heap addresses to records, and the static variables of
  the C files under their names.  A function of the C code is a function of the same name from its arguments and the
  state to an \<open>outcome\<close>: \<open>Ret\<close> with the new state, \<open>Panic\<close> where the code panics or would touch memory that is not its own,
  and \<open>Hang\<close> where it does not return.  A service that blocks or ends its caller returns a \<open>flow\<close>: \<open>Now\<close>, \<open>Sleeps\<close> or \<open>Exits\<close>; what a
  blocked thread does when it runs again is a definition of its own.  Status codes, addresses and flags are words of the
  width they have in C and wrap around as they do there; counters the code keeps below a constant are natural numbers.
  Intrusive lists are lists of addresses, which theory \<open>Klist\<close> justifies on the pointers; critical sections are atomic, which
  theory \<open>Spin\<close> justifies by the ranks of the locks.

  \<^bold>\<open>Theories.\<close>
  \<^item> \<open>Prelude\<close>: machine types, constants, outcomes, shared lemmas.  \<open>Fifo\<close>: the contract of bounded queues.
  \<^item> \<open>Pmm\<close>, \<open>Pmm_Inv\<close>, \<open>Pmm_Correct\<close> (\<^verbatim>\<open>mm/pmm.c\<close>): the buddy allocator keeps its invariant from initialisation on, and allocation
    and release refine an abstract allocator of disjoint blocks, the contract \<open>page_allocator\<close>; double releases panic.
  \<^item> \<open>Heap\<close>, \<open>Heap_Correct\<close> (\<^verbatim>\<open>mm/heap.c\<close>): allocations are fresh, aligned and disjoint, a release takes back exactly one of them and
    panics on any other pointer, the contract \<open>kernel_heap\<close>.
  \<^item> \<open>Vmm\<close>, \<open>Vmm_Ops\<close>, \<open>Vmm_User\<close>, \<open>Vmm_Correct\<close>, \<open>Protect_Correct\<close> (\<^verbatim>\<open>mm/vmm.c\<close>): an address space is a partial map from pages to protections;
    reserving, releasing and protecting ranges refine the operations on the map, merging descriptors does not change it,
    and a user buffer is accepted exactly when the map allows the access.  One theorem exhibits descriptors on which
    \<open>vmm_protect_user\<close> calls itself for ever.
  \<^item> \<open>Paging\<close>, \<open>Isolation\<close> (\<^verbatim>\<open>mm/vmm.c\<close>): the page tables in physical memory as trees, found by the steps of the walk.  When the trees of
    the address spaces share no page, filling in tables, populating a page and the copies of the system calls keep them so
    and touch no memory but that of their address space; a copy reads back what was written; a new address space joins them.
  \<^item> \<open>Kstate\<close>, \<open>Object\<close>, \<open>Object_Correct\<close>, \<open>Dispatch\<close>, \<open>Frames\<close> (\<^verbatim>\<open>ob/object.c\<close>): reference counts, deletion, the name space, signalling.
  \<^item> \<open>Handle\<close>, \<open>Handle_Correct\<close> (\<^verbatim>\<open>ob/handle.c\<close>): a handle table is a map from keys to objects and rights, the contract \<open>handle_space\<close>; a
    closed handle stays invalid until its generation wraps around.
  \<^item> \<open>Pipe\<close>, \<open>Pipe_Correct\<close> (\<^verbatim>\<open>ob/pipe.c\<close>), \<open>Section\<close> (\<^verbatim>\<open>ob/section.c\<close>): a pipe delivers the bytes written, in order.
  \<^item> \<open>Wait\<close>, \<open>Timer\<close>, \<open>Sync_Correct\<close>, \<open>Timer_Correct\<close> (\<^verbatim>\<open>ke/wait.c\<close>, \<^verbatim>\<open>ke/timer.c\<close>): who is woken by an event, who owns a mutex next, that the
    clean-up of a dying thread and a clock tick end, and when a tick does not.
  \<^item> \<open>Sched\<close>, \<open>Process\<close>, \<open>Sched_Correct\<close>, \<open>Spin\<close>, \<open>Fpu\<close> (\<^verbatim>\<open>ke/sched.c\<close>, \<^verbatim>\<open>ke/spin.c\<close>, \<^verbatim>\<open>ke/fpu.c\<close>): the invariant of the ready queues over every sequence
    of scheduler steps, the choice of the next thread, the lock ranks, the lazy switch of FPU registers.
  \<^item> \<open>Vfs\<close>, \<open>Vfs_Correct\<close>, \<open>Irp\<close> (\<^verbatim>\<open>fs/vfs.c\<close>, \<^verbatim>\<open>io/irp.c\<close>): paths, the vnode tree, files and drivers; what is written is read back.
  \<^item> \<open>Elf\<close>, \<open>Elf_Correct\<close>, \<open>Exec\<close>, \<open>Launch\<close> (\<^verbatim>\<open>fs/elf.c\<close>, \<^verbatim>\<open>ke/exec.c\<close>): loading an image, spawning a process, the first steps of a thread.
  \<^item> \<open>Syscall\<close>, \<open>Syscall_Dispatch\<close> (\<^verbatim>\<open>ke/syscall.c\<close>): every service, and the dispatcher for callers in user mode.
    \<open>Heap_Services\<close>: the services keep the invariant of the heap and of the page allocator.
  \<^item> \<open>Strings\<close>, \<open>Kprintf\<close>, \<open>Kbd\<close>, \<open>Hal\<close>, \<open>Boot\<close> (\<^verbatim>\<open>lib/\<close>, \<^verbatim>\<open>ke/kprintf.c\<close>, \<^verbatim>\<open>hal/\<close>, \<^verbatim>\<open>ke/kmain.c\<close>): string routines, formatted output, keyboard, descriptor
    tables, traps, devices and start-up; the boot map parser ends on every input.
  \<^item> \<open>Machine\<close>, \<open>Switch\<close>, \<open>Entry\<close> (\<^verbatim>\<open>ke/switch.S\<close>, \<^verbatim>\<open>ke/enter_user.S\<close>, \<^verbatim>\<open>hal/isr.S\<close>, \<^verbatim>\<open>ke/syscall_entry.S\<close>, \<^verbatim>\<open>user/ntdll/ntdll.S\<close>, \<^verbatim>\<open>user/crt0.S\<close>): the processor's
    instructions the assembly uses, over registers, flags, segment bases and memory cells of eight bytes, and the
    routines as instruction sequences.  A switched thread resumes as it was, a program starts with clean registers, an
    interrupt is transparent, a system call arrives and returns; lemmas show where the entry code goes wrong.
  \<^item> \<open>Trampoline\<close> (\<^verbatim>\<open>boot/entry.S\<close>): the boot page tables map low memory twice, as the linked kernel needs.
  \<^item> \<open>Panic_Print\<close> (\<^verbatim>\<open>ke/panic.c\<close>, \<^verbatim>\<open>ke/kprintf.c\<close>): the lock around \<open>kprintf\<close>, and that a panic prints its reason whatever locks are held.
  \<^item> \<open>Sh\<close>, \<open>Userland\<close> (\<^verbatim>\<open>user/\<close>): the shell, init, the user library and the programs.

  \<^bold>\<open>Contracts.\<close>  \<open>page_allocator\<close>, \<open>kernel_heap\<close>, \<open>handle_space\<close> and \<open>bounded_fifo\<close> are locales.  Each is interpreted on the definitions of its
  component, \<open>bounded_fifo\<close> on the pipe ring and the keyboard buffer, and \<open>kernel_heap\<close> on \<open>kalloc\<close> and on \<open>kalloc_zero\<close>.

  \<^bold>\<open>Termination.\<close>  No fuel is used.  Loops bounded by the code are terminating recursions.  Loops that may not end are partial
  functions into an option type, where \<open>None\<close> becomes \<open>Hang\<close>; that they do end is a theorem where it holds.

  \<^bold>\<open>Parameters.\<close>  The program images the build links in, the linker symbols, the boot information, and what ports and
  control registers return are arguments.  Memory the code does not initialise holds arbitrary bytes of the state.

  \<^bold>\<open>Not modelled.\<close>  The hosted build: the \<open>JASOS_HOST\<close> branches, \<^verbatim>\<open>host/main.c\<close> and the tests of \<^verbatim>\<open>host/selftest.c\<close>, which exercise the
  modelled functions and implement none.  The far jump to 64-bit code in \<^verbatim>\<open>boot/entry.S\<close> with the load of the segment
  registers, and the linker scripts.  The dispatcher's branches for callers in kernel mode, which pass their pointers on
  unchanged.  Messages that only print.  The C functions the assembly calls are parameters there, relied on for the
  calling convention.  In \<open>Userland\<close> the dispatcher's copies of buffers are left out: a system call there is its service.
\<close>

end
